(* ===== verification/Prelude.thy ===== *)
theory Prelude
  imports Main "HOL-Library.Multiset"
begin

text \<open>
  Shared ground of the development: the outcome of a runtime call (value, error or panic)
  and the state-passing programs built on it, a weakest-precondition calculus for them, the
  fixed-width arithmetic the pallets use, the slice operations of Rust's standard library
  (binary search, insertion, removal), the iteration order of a storage prefix, and the
  generic list lemmas the components share.
\<close>

section \<open>Collections of facts\<close>

named_theorems wp_simps \<open>weakest preconditions of the program combinators\<close>
named_theorems prog_defs \<open>definitions of the program combinators\<close>

section \<open>Programs: state passing with errors and panics\<close>

text \<open>
  A runtime call returns a value (\<open>Ok\<close>), returns an error (\<open>Err\<close>) or panics. An error
  leaves the storage written so far in place: rolling back is the business of the dispatch
  layer (\<open>transactional\<close>), not of the function that fails.
\<close>

datatype ('e, 'a) outcome = Ok 'a | Err 'e | Panic

type_synonym ('s, 'e, 'a) prog = "'s \<Rightarrow> ('e, 'a) outcome \<times> 's"

definition return_m :: "'a \<Rightarrow> ('s, 'e, 'a) prog" where
  "return_m x = (\<lambda>s. (Ok x, s))"

definition fail_m :: "'e \<Rightarrow> ('s, 'e, 'a) prog" where
  "fail_m e = (\<lambda>s. (Err e, s))"

definition panic_m :: "('s, 'e, 'a) prog" where
  "panic_m = (\<lambda>s. (Panic, s))"

definition bind_m :: "('s, 'e, 'a) prog \<Rightarrow> ('a \<Rightarrow> ('s, 'e, 'b) prog) \<Rightarrow> ('s, 'e, 'b) prog" where
  "bind_m m f = (\<lambda>s. case m s of
      (Ok x, t) \<Rightarrow> f x t
    | (Err e, t) \<Rightarrow> (Err e, t)
    | (Panic, t) \<Rightarrow> (Panic, t))"

definition then_m :: "('s, 'e, 'a) prog \<Rightarrow> ('s, 'e, 'b) prog \<Rightarrow> ('s, 'e, 'b) prog" where
  "then_m m n = bind_m m (\<lambda>_. n)"

definition ensure_m :: "bool \<Rightarrow> 'e \<Rightarrow> ('s, 'e, unit) prog" where
  "ensure_m b e = (if b then return_m () else fail_m e)"

definition gets_m :: "('s \<Rightarrow> 'a) \<Rightarrow> ('s, 'e, 'a) prog" where
  "gets_m f = (\<lambda>s. (Ok (f s), s))"

definition modify_m :: "('s \<Rightarrow> 's) \<Rightarrow> ('s, 'e, unit) prog" where
  "modify_m f = (\<lambda>s. (Ok (), f s))"

text \<open>\<open>Option::ok_or(e)?\<close> and \<open>Option::expect\<close>.\<close>

definition ok_or_m :: "'a option \<Rightarrow> 'e \<Rightarrow> ('s, 'e, 'a) prog" where
  "ok_or_m x e = (case x of None \<Rightarrow> fail_m e | Some y \<Rightarrow> return_m y)"

definition expect_m :: "'a option \<Rightarrow> ('s, 'e, 'a) prog" where
  "expect_m x = (case x of None \<Rightarrow> panic_m | Some y \<Rightarrow> return_m y)"

text \<open>A \<open>Result\<close> inspected by its caller instead of being propagated with \<open>?\<close>.\<close>

definition attempt_m :: "('s, 'e, 'a) prog \<Rightarrow> ('s, 'e, 'e + 'a) prog" where
  "attempt_m m = (\<lambda>s. case m s of
      (Ok x, t) \<Rightarrow> (Ok (Inr x), t)
    | (Err e, t) \<Rightarrow> (Ok (Inl e), t)
    | (Panic, t) \<Rightarrow> (Panic, t))"

text \<open>\<open>Result::expect\<close>: an error panics.\<close>

definition expect_ok_m :: "('s, 'e, 'a) prog \<Rightarrow> ('s, 'e, 'a) prog" where
  "expect_ok_m m = (\<lambda>s. case m s of (Err e, t) \<Rightarrow> (Panic, t) | r \<Rightarrow> r)"

text \<open>The storage layer around a dispatched call: an error undoes every write.\<close>

definition transactional :: "('s, 'e, 'a) prog \<Rightarrow> ('s, 'e, 'a) prog" where
  "transactional m = (\<lambda>s. case m s of
      (Ok x, t) \<Rightarrow> (Ok x, t)
    | (Err e, t) \<Rightarrow> (Err e, s)
    | (Panic, t) \<Rightarrow> (Panic, s))"

fun for_each_m :: "('a \<Rightarrow> ('s, 'e, unit) prog) \<Rightarrow> 'a list \<Rightarrow> ('s, 'e, unit) prog" where
  "for_each_m f [] = return_m ()"
| "for_each_m f (x # xs) = then_m (f x) (for_each_m f xs)"

text \<open>A loop that carries values from one iteration to the next.\<close>

fun fold_m :: "('acc \<Rightarrow> 'a \<Rightarrow> ('s, 'e, 'acc) prog) \<Rightarrow> 'acc \<Rightarrow> 'a list \<Rightarrow> ('s, 'e, 'acc) prog" where
  "fold_m f acc [] = return_m acc"
| "fold_m f acc (x # xs) = bind_m (f acc x) (\<lambda>acc. fold_m f acc xs)"

lemmas prog_defs_all [prog_defs] =
  return_m_def fail_m_def panic_m_def bind_m_def then_m_def ensure_m_def gets_m_def
  modify_m_def ok_or_m_def expect_m_def attempt_m_def transactional_def
  expect_ok_m_def

subsection \<open>Weakest preconditions\<close>

text \<open>
  \<open>wp m Q E s\<close>: run from \<open>s\<close>, the program does not panic, a value satisfies \<open>Q\<close> with the
  state it is returned in, and an error satisfies \<open>E\<close> with the state it leaves.
\<close>

definition wp :: "('s, 'e, 'a) prog \<Rightarrow> ('a \<Rightarrow> 's \<Rightarrow> bool) \<Rightarrow> ('e \<Rightarrow> 's \<Rightarrow> bool) \<Rightarrow> 's \<Rightarrow> bool" where
  "wp m Q E s = (case m s of
      (Ok x, t) \<Rightarrow> Q x t
    | (Err e, t) \<Rightarrow> E e t
    | (Panic, t) \<Rightarrow> False)"

lemma wp_return [wp_simps]: "wp (return_m x) Q E s = Q x s"
  by (simp add: wp_def return_m_def)

lemma wp_fail [wp_simps]: "wp (fail_m e) Q E s = E e s"
  by (simp add: wp_def fail_m_def)

lemma wp_panic [wp_simps]: "wp panic_m Q E s = False"
  by (simp add: wp_def panic_m_def)

lemma wp_bind [wp_simps]: "wp (bind_m m f) Q E s = wp m (\<lambda>x. wp (f x) Q E) E s"
  by (auto simp: wp_def bind_m_def split: prod.splits outcome.splits)

lemma wp_then [wp_simps]: "wp (then_m m n) Q E s = wp m (\<lambda>x. wp n Q E) E s"
  by (simp add: then_m_def wp_bind)

lemma wp_ensure [wp_simps]: "wp (ensure_m b e) Q E s = (if b then Q () s else E e s)"
  by (simp add: ensure_m_def wp_return wp_fail)

lemma wp_gets [wp_simps]: "wp (gets_m f) Q E s = Q (f s) s"
  by (simp add: wp_def gets_m_def)

lemma wp_modify [wp_simps]: "wp (modify_m f) Q E s = Q () (f s)"
  by (simp add: wp_def modify_m_def)

lemma wp_ok_or [wp_simps]:
  "wp (ok_or_m x e) Q E s = (case x of None \<Rightarrow> E e s | Some y \<Rightarrow> Q y s)"
  by (simp add: ok_or_m_def wp_return wp_fail split: option.split)

lemma wp_expect [wp_simps]:
  "wp (expect_m x) Q E s = (case x of None \<Rightarrow> False | Some y \<Rightarrow> Q y s)"
  by (simp add: expect_m_def wp_return wp_panic split: option.split)

lemma wp_attempt [wp_simps]:
  "wp (attempt_m m) Q E s = wp m (\<lambda>x. Q (Inr x)) (\<lambda>e. Q (Inl e)) s"
  by (auto simp: wp_def attempt_m_def split: prod.splits outcome.splits)

lemma wp_expect_ok [wp_simps]: "wp (expect_ok_m m) Q E s = wp m Q (\<lambda>_ _. False) s"
  by (auto simp: wp_def expect_ok_m_def split: prod.splits outcome.splits)

lemma wp_transactional [wp_simps]:
  "wp (transactional m) Q E s = wp m Q (\<lambda>e t. E e s) s"
  by (auto simp: wp_def transactional_def split: prod.splits outcome.splits)

lemma wp_if [wp_simps]:
  "wp (if b then m else n) Q E s = (if b then wp m Q E s else wp n Q E s)"
  by simp

lemma wp_let [wp_simps]: "wp (let x = e in m x) Q E s = (let x = e in wp (m x) Q E s)"
  by (simp add: Let_def)

lemma wp_case_option [wp_simps]:
  "wp (case x of None \<Rightarrow> m | Some y \<Rightarrow> n y) Q E s =
    (case x of None \<Rightarrow> wp m Q E s | Some y \<Rightarrow> wp (n y) Q E s)"
  by (simp split: option.split)

lemma wp_case_bool [wp_simps]:
  "wp (case b of True \<Rightarrow> m | False \<Rightarrow> n) Q E s = (if b then wp m Q E s else wp n Q E s)"
  by (cases b) simp_all

lemma wp_case_sum [wp_simps]:
  "wp (case x of Inl y \<Rightarrow> m y | Inr z \<Rightarrow> n z) Q E s =
    (case x of Inl y \<Rightarrow> wp (m y) Q E s | Inr z \<Rightarrow> wp (n z) Q E s)"
  by (simp split: sum.split)

lemma wp_case_prod [wp_simps]:
  "wp (case p of (x, y) \<Rightarrow> m x y) Q E s = (case p of (x, y) \<Rightarrow> wp (m x y) Q E s)"
  by (simp split: prod.split)

lemma wp_mono:
  assumes "wp m Q E s"
    and "\<And>x t. Q x t \<Longrightarrow> Q' x t" and "\<And>e t. E e t \<Longrightarrow> E' e t"
  shows "wp m Q' E' s"
  using assms by (auto simp: wp_def split: prod.splits outcome.splits)

lemma wp_conj:
  "wp m (\<lambda>x t. Q x t \<and> Q' x t) (\<lambda>e t. E e t \<and> E' e t) s = (wp m Q E s \<and> wp m Q' E' s)"
  by (auto simp: wp_def split: prod.splits outcome.splits)

lemma wp_OkD: "wp m Q E s \<Longrightarrow> m s = (Ok x, t) \<Longrightarrow> Q x t"
  by (simp add: wp_def)

lemma wp_ErrD: "wp m Q E s \<Longrightarrow> m s = (Err e, t) \<Longrightarrow> E e t"
  by (simp add: wp_def)

lemma wp_not_Panic: "wp m Q E s \<Longrightarrow> fst (m s) \<noteq> Panic"
  by (auto simp: wp_def split: prod.splits)

lemma wp_iff:
  "wp m Q E s \<longleftrightarrow>
    (\<exists>x t. m s = (Ok x, t) \<and> Q x t) \<or> (\<exists>e t. m s = (Err e, t) \<and> E e t)"
  by (cases "m s"; cases "fst (m s)") (auto simp: wp_def)

lemma wp_total: "wp m Q (\<lambda>_ _. False) s \<Longrightarrow> \<exists>x t. m s = (Ok x, t) \<and> Q x t"
  by (simp add: wp_iff)

lemma wp_for_each:
  assumes "I xs s"
    and "\<And>x ys t. I (x # ys) t \<Longrightarrow> wp (f x) (\<lambda>_. I ys) E t"
  shows "wp (for_each_m f xs) (\<lambda>_. I []) E s"
  using assms(1)
proof (induction xs arbitrary: s)
  case Nil
  then show ?case by (simp add: wp_simps)
next
  case (Cons x xs)
  from assms(2)[OF Cons.prems] show ?case
    by (auto simp: wp_simps intro: wp_mono Cons.IH)
qed

lemma wp_fold:
  assumes "I acc xs s"
    and "\<And>acc x ys t. I acc (x # ys) t \<Longrightarrow> wp (f acc x) (\<lambda>acc. I acc ys) E t"
  shows "wp (fold_m f acc xs) (\<lambda>acc. I acc []) E s"
  using assms(1)
proof (induction xs arbitrary: acc s)
  case Nil
  then show ?case by (simp add: wp_simps)
next
  case (Cons x xs)
  from assms(2)[OF Cons.prems] show ?case
    by (auto simp: wp_simps intro: wp_mono Cons.IH)
qed

section \<open>Fixed-width arithmetic\<close>

text \<open>
  Values are naturals below their width's bound. \<open>saturating_sub\<close> is subtraction on
  \<open>nat\<close>, at any unsigned width. Plain \<open>+\<close> and \<open>-\<close> wrap: the release and production
  profiles of the workspace's Cargo.toml leave overflow checks off.
\<close>

definition u32_max :: nat where "u32_max = 2 ^ 32 - 1"
definition u64_max :: nat where "u64_max = 2 ^ 64 - 1"
definition u128_max :: nat where "u128_max = 2 ^ 128 - 1"

definition sat_add_u32 :: "nat \<Rightarrow> nat \<Rightarrow> nat" where
  "sat_add_u32 a b = min (a + b) u32_max"

definition sat_mul_u32 :: "nat \<Rightarrow> nat \<Rightarrow> nat" where
  "sat_mul_u32 a b = min (a * b) u32_max"

definition sat_mul_u64 :: "nat \<Rightarrow> nat \<Rightarrow> nat" where
  "sat_mul_u64 a b = min (a * b) u64_max"

definition sat_add_u128 :: "nat \<Rightarrow> nat \<Rightarrow> nat" where
  "sat_add_u128 a b = min (a + b) u128_max"

definition sat_mul_u128 :: "nat \<Rightarrow> nat \<Rightarrow> nat" where
  "sat_mul_u128 a b = min (a * b) u128_max"

definition as_u32 :: "nat \<Rightarrow> nat" where
  "as_u32 n = n mod 2 ^ 32"

definition wrap_add_u32 :: "nat \<Rightarrow> nat \<Rightarrow> nat" where
  "wrap_add_u32 a b = (a + b) mod 2 ^ 32"

definition wrap_sub_u32 :: "nat \<Rightarrow> nat \<Rightarrow> nat" where
  "wrap_sub_u32 a b = (a + (2 ^ 32 - b mod 2 ^ 32)) mod 2 ^ 32"

definition wrap_mul_u32 :: "nat \<Rightarrow> nat \<Rightarrow> nat" where
  "wrap_mul_u32 a b = (a * b) mod 2 ^ 32"

lemma sat_add_u128_exact: "a + b \<le> u128_max \<Longrightarrow> sat_add_u128 a b = a + b"
  by (simp add: sat_add_u128_def)

lemma sat_add_u128_le: "sat_add_u128 a b \<le> a + b"
  by (simp add: sat_add_u128_def)

lemma sat_add_u128_bound: "sat_add_u128 a b \<le> u128_max"
  by (simp add: sat_add_u128_def)

lemma sat_add_u32_exact: "a + b \<le> u32_max \<Longrightarrow> sat_add_u32 a b = a + b"
  by (simp add: sat_add_u32_def)

lemma as_u32_exact: "n \<le> u32_max \<Longrightarrow> as_u32 n = n"
  by (simp add: as_u32_def u32_max_def)

lemma wrap_add_u32_exact: "a + b \<le> u32_max \<Longrightarrow> wrap_add_u32 a b = a + b"
  by (simp add: wrap_add_u32_def u32_max_def)

lemma wrap_sub_u32_exact:
  assumes "b \<le> a" and "a \<le> u32_max"
  shows "wrap_sub_u32 a b = a - b"
proof -
  have lt: "a < 2 ^ 32" "b < 2 ^ 32" using assms by (auto simp: u32_max_def)
  have "a + (2 ^ 32 - b) = (a - b) + 2 ^ 32" using assms(1) lt by linarith
  then have "wrap_sub_u32 a b = ((a - b) + 2 ^ 32) mod 2 ^ 32"
    using lt(2) by (simp only: wrap_sub_u32_def mod_less)
  also have "\<dots> = (a - b) mod 2 ^ 32" by (rule mod_add_self2)
  also have "\<dots> = a - b" using lt(1) by (intro mod_less) linarith
  finally show ?thesis .
qed

section \<open>Ordering and the slice operations of the standard library\<close>

datatype ordering = Less | Equal | Greater

fun ordering_rank :: "ordering \<Rightarrow> nat" where
  "ordering_rank Less = 0"
| "ordering_rank Equal = 1"
| "ordering_rank Greater = 2"

lemma ordering_rank_inj: "ordering_rank a = ordering_rank b \<Longrightarrow> a = b"
  by (cases a; cases b) simp_all

instantiation ordering :: linorder
begin

definition less_eq_ordering :: "ordering \<Rightarrow> ordering \<Rightarrow> bool" where
  "less_eq_ordering a b = (ordering_rank a \<le> ordering_rank b)"

definition less_ordering :: "ordering \<Rightarrow> ordering \<Rightarrow> bool" where
  "less_ordering a b = (ordering_rank a < ordering_rank b)"

instance
proof
  fix a b :: ordering
  show "a \<le> b \<Longrightarrow> b \<le> a \<Longrightarrow> a = b"
    by (rule ordering_rank_inj) (simp add: less_eq_ordering_def)
qed (auto simp: less_eq_ordering_def less_ordering_def)

end

text \<open>\<open>Ord::cmp\<close> of a totally ordered type.\<close>

definition cmp :: "'k::linorder \<Rightarrow> 'k \<Rightarrow> ordering" where
  "cmp a b = (if a < b then Less else if a = b then Equal else Greater)"

lemma cmp_simps [simp]:
  "cmp a b = Less \<longleftrightarrow> a < b"
  "cmp a b = Equal \<longleftrightarrow> a = b"
  "cmp a b = Greater \<longleftrightarrow> b < a"
  by (auto simp: cmp_def)

lemma ordering_le_simps [simp]:
  "Less \<le> o'" "o' \<le> Greater" "Equal \<le> Less \<longleftrightarrow> False"
  "Greater \<le> Less \<longleftrightarrow> False" "Greater \<le> Equal \<longleftrightarrow> False"
  by (cases o'; simp add: less_eq_ordering_def)+

text \<open>
  \<open>slice::binary_search_by\<close> of the pinned toolchain (Rust 1.84): a halving loop whose
  number of steps depends on the length only. \<open>Inr i\<close> stands for \<open>Ok(i)\<close>, \<open>Inl i\<close> for
  \<open>Err(i)\<close>, the index where a new element keeps the order.
\<close>

function bs_loop :: "('a \<Rightarrow> ordering) \<Rightarrow> 'a list \<Rightarrow> nat \<Rightarrow> nat \<Rightarrow> nat" where
  "bs_loop f xs sz base =
     (if 1 < sz
      then bs_loop f xs (sz - sz div 2)
             (if f (xs ! (base + sz div 2)) = Greater then base else base + sz div 2)
      else base)"
  by pat_completeness auto
termination
  by (relation "measure (\<lambda>(f, xs, sz, base). sz)") auto

declare bs_loop.simps [simp del]

definition binary_search_by :: "('a \<Rightarrow> ordering) \<Rightarrow> 'a list \<Rightarrow> nat + nat" where
  "binary_search_by f xs =
     (if xs = [] then Inl 0
      else let base = bs_loop f xs (length xs) 0 in
        (case f (xs ! base) of
           Equal \<Rightarrow> Inr base
         | Less \<Rightarrow> Inl (Suc base)
         | Greater \<Rightarrow> Inl base))"

definition vec_insert :: "nat \<Rightarrow> 'a \<Rightarrow> 'a list \<Rightarrow> 'a list" where
  "vec_insert i x xs = take i xs @ x # drop i xs"

definition vec_remove :: "nat \<Rightarrow> 'a list \<Rightarrow> 'a list" where
  "vec_remove i xs = take i xs @ drop (Suc i) xs"

text \<open>\<open>iter().position(p)\<close>.\<close>

fun position :: "('a \<Rightarrow> bool) \<Rightarrow> 'a list \<Rightarrow> nat option" where
  "position p [] = None"
| "position p (x # xs) = (if p x then Some 0 else map_option Suc (position p xs))"

lemma bs_loop_props:
  assumes "sorted (map f xs)" and "0 < sz" and "base + sz \<le> length xs"
    and "\<forall>i < length xs. base + sz \<le> i \<longrightarrow> f (xs ! i) = Greater"
    and "base = 0 \<or> f (xs ! base) \<noteq> Greater"
  shows "bs_loop f xs sz base < length xs
    \<and> (\<forall>i < length xs. bs_loop f xs sz base < i \<longrightarrow> f (xs ! i) = Greater)
    \<and> (bs_loop f xs sz base = 0 \<or> f (xs ! bs_loop f xs sz base) \<noteq> Greater)"
  using assms
proof (induction f xs sz base rule: bs_loop.induct)
  case (1 f xs sz base)
  show ?case
  proof (cases "1 < sz")
    case False
    then have "bs_loop f xs sz base = base" by (simp add: bs_loop.simps [of f xs sz base])
    moreover have "sz = 1" using False "1.prems"(2) by simp
    ultimately show ?thesis using "1.prems" by simp
  next
    case True
    let ?mid = "base + sz div 2"
    let ?base = "if f (xs ! ?mid) = Greater then base else ?mid"
    have mid: "?mid < length xs" using True "1.prems"(3) by linarith
    have right: "\<forall>i < length xs. ?base + (sz - sz div 2) \<le> i \<longrightarrow> f (xs ! i) = Greater"
    proof (intro allI impI)
      fix i assume i: "i < length xs" and le: "?base + (sz - sz div 2) \<le> i"
      show "f (xs ! i) = Greater"
      proof (cases "f (xs ! ?mid) = Greater")
        case True
        with le have "?mid \<le> i" by (simp split: if_splits)
        with i mid "1.prems"(1) have "f (xs ! ?mid) \<le> f (xs ! i)"
          using sorted_nth_mono [of "map f xs" ?mid i] by simp
        with True show ?thesis by (cases "f (xs ! i)") simp_all
      next
        case False
        with le i "1.prems"(4) show ?thesis by simp
      qed
    qed
    have left: "?base = 0 \<or> f (xs ! ?base) \<noteq> Greater" using "1.prems"(5) by auto
    have pos: "0 < sz - sz div 2" using True by auto
    have fits: "?base + (sz - sz div 2) \<le> length xs" using True "1.prems"(3) by (auto split: if_splits)
    have step: "bs_loop f xs sz base = bs_loop f xs (sz - sz div 2) ?base"
      using True by (simp add: bs_loop.simps [of f xs sz base])
    show ?thesis
      unfolding step by (rule "1.IH" [OF True "1.prems"(1) pos fits right left])
  qed
qed

lemma binary_search_by_found:
  assumes "sorted (map f xs)" and "binary_search_by f xs = Inr i"
  shows "i < length xs \<and> f (xs ! i) = Equal"
  using assms bs_loop_props [OF assms(1), of "length xs" 0]
  by (auto simp: binary_search_by_def Let_def split: if_splits ordering.splits)

lemma binary_search_by_missing:
  assumes "sorted (map f xs)" and "binary_search_by f xs = Inl i"
  shows "i \<le> length xs \<and> (\<forall>x \<in> set (take i xs). f x = Less) \<and> (\<forall>x \<in> set (drop i xs). f x = Greater)"
proof (cases "xs = []")
  case True
  with assms(2) show ?thesis by (simp add: binary_search_by_def)
next
  case False
  let ?b = "bs_loop f xs (length xs) 0"
  have b: "?b < length xs" "\<forall>i < length xs. ?b < i \<longrightarrow> f (xs ! i) = Greater"
    "?b = 0 \<or> f (xs ! ?b) \<noteq> Greater"
    using bs_loop_props [OF assms(1), of "length xs" 0] False by auto
  have below: "j \<le> ?b \<Longrightarrow> f (xs ! j) \<le> f (xs ! ?b)" for j
    using b(1) assms(1) sorted_nth_mono [of "map f xs" j ?b] by simp
  show ?thesis
  proof (cases "f (xs ! ?b)")
    case Less
    then have "i = Suc ?b" using assms(2) False by (simp add: binary_search_by_def)
    moreover have "f (xs ! j) = Less" if "j \<le> ?b" for j
      using below [OF that] Less by (cases "f (xs ! j)") simp_all
    ultimately show ?thesis using b(1,2) by (auto simp: in_set_conv_nth)
  next
    case Equal
    then show ?thesis using assms(2) False by (simp add: binary_search_by_def)
  next
    case Greater
    then have "?b = 0" and "i = 0" using assms(2) False b(3) by (auto simp: binary_search_by_def)
    moreover have "f (xs ! j) = Greater" if "j < length xs" for j
      using b(2) that Greater \<open>?b = 0\<close> by (cases "j = 0") auto
    ultimately show ?thesis by (auto simp: in_set_conv_nth)
  qed
qed

lemma position_Some_iff:
  "position p xs = Some i \<longleftrightarrow> i < length xs \<and> p (xs ! i) \<and> (\<forall>j < i. \<not> p (xs ! j))"
proof (induction xs arbitrary: i)
  case Nil
  then show ?case by simp
next
  case (Cons x xs)
  then show ?case by (cases i) (auto simp: less_Suc_eq_0_disj)
qed

lemma position_None_iff: "position p xs = None \<longleftrightarrow> (\<forall>x \<in> set xs. \<not> p x)"
  by (induction xs) auto

lemma mset_vec_insert: "mset (vec_insert i x xs) = add_mset x (mset xs)"
proof -
  have "mset (take i xs) + mset (drop i xs) = mset xs"
    by (metis append_take_drop_id mset_append)
  then show ?thesis by (simp add: vec_insert_def)
qed

lemma set_vec_insert [simp]: "set (vec_insert i x xs) = insert x (set xs)"
  by (metis mset_vec_insert set_mset_add_mset_insert set_mset_mset)

lemma length_vec_insert [simp]: "length (vec_insert i x xs) = Suc (length xs)"
  by (metis mset_vec_insert size_add_mset size_mset)

lemma mset_vec_remove: "i < length xs \<Longrightarrow> mset xs = add_mset (xs ! i) (mset (vec_remove i xs))"
proof -
  assume i: "i < length xs"
  then have "mset xs = mset (take i xs @ xs ! i # drop (Suc i) xs)"
    by (simp add: id_take_nth_drop [symmetric])
  then show ?thesis by (simp add: vec_remove_def)
qed

lemma length_vec_remove: "i < length xs \<Longrightarrow> length (vec_remove i xs) = length xs - 1"
  by (simp add: vec_remove_def)

lemma set_vec_remove_subset: "set (vec_remove i xs) \<subseteq> set xs"
  by (auto simp: vec_remove_def dest: in_set_takeD in_set_dropD)

section \<open>Storage prefixes\<close>

text \<open>
  The entries under one prefix of a storage double map, in trie order: by the hashed key.
  \<open>h\<close> is the position of a key in that order, injective because the hasher concatenates
  the key itself.
\<close>

fun prefix_insert :: "('k \<Rightarrow> nat) \<Rightarrow> 'k \<Rightarrow> 'v \<Rightarrow> ('k \<times> 'v) list \<Rightarrow> ('k \<times> 'v) list" where
  "prefix_insert h k v [] = [(k, v)]"
| "prefix_insert h k v ((k', v') # xs) =
     (if k = k' then (k, v) # xs
      else if h k < h k' then (k, v) # (k', v') # xs
      else (k', v') # prefix_insert h k v xs)"

definition prefix_ordered :: "('k \<Rightarrow> nat) \<Rightarrow> ('k \<times> 'v) list \<Rightarrow> bool" where
  "prefix_ordered h xs = sorted_wrt (<) (map (h \<circ> fst) xs)"

lemma fst_set_prefix_insert:
  "fst ` set (prefix_insert h k v xs) = insert k (fst ` set xs)"
  by (induction h k v xs rule: prefix_insert.induct) auto

lemma prefix_ordered_insert:
  "inj h \<Longrightarrow> prefix_ordered h xs \<Longrightarrow> prefix_ordered h (prefix_insert h k v xs)"
proof (induction h k v xs rule: prefix_insert.induct)
  case (1 h k v)
  then show ?case by (simp add: prefix_ordered_def)
next
  case (2 h k v k' v' xs)
  have "\<forall>p \<in> set (prefix_insert h k v xs). h (fst p) \<in> insert (h k) ((h \<circ> fst) ` set xs)"
    using fst_set_prefix_insert [of h k v xs] by force
  moreover have "h k' < h k" if "k \<noteq> k'" "\<not> h k < h k'"
    using that "2.prems"(1) by (metis injD linorder_neqE_nat)
  ultimately show ?case using 2 by (auto simp: prefix_ordered_def) fastforce
qed

lemma map_of_prefix_insert:
  "prefix_ordered h xs \<Longrightarrow> inj h \<Longrightarrow> map_of (prefix_insert h k v xs) = (map_of xs)(k \<mapsto> v)"
proof (induction h k v xs rule: prefix_insert.induct)
  case (1 h k v)
  then show ?case by simp
next
  case (2 h k v k' v' xs)
  then show ?case by (auto simp: prefix_ordered_def fun_upd_twist)
qed

section \<open>Lists\<close>

lemma sum_list_filter_remove1:
  fixes f :: "'a \<Rightarrow> nat"
  shows "distinct (map g xs) \<Longrightarrow> x \<in> set xs \<Longrightarrow>
    sum_list (map f xs) = f x + sum_list (map f (filter (\<lambda>y. g y \<noteq> g x) xs))"
proof (induction xs)
  case Nil
  then show ?case by simp
next
  case (Cons y xs)
  show ?case
  proof (cases "x = y")
    case True
    then have "filter (\<lambda>z. g z \<noteq> g x) xs = xs"
      using Cons.prems(1) by (force simp: filter_id_conv image_iff)
    with True show ?thesis by simp
  next
    case False
    with Cons.prems have "g y \<noteq> g x" and "x \<in> set xs" by auto
    with Cons False show ?thesis by simp
  qed
qed

lemma sum_list_mset_eq:
  fixes f :: "'a \<Rightarrow> nat"
  shows "mset xs = mset ys \<Longrightarrow> sum_list (map f xs) = sum_list (map f ys)"
  by (metis mset_map sum_mset_sum_list)

lemma length_filter_unique:
  "distinct (map g xs) \<Longrightarrow> x \<in> set xs \<Longrightarrow>
    Suc (length (filter (\<lambda>y. g y \<noteq> g x) xs)) = length xs"
  using sum_list_filter_remove1 [of g xs x "\<lambda>_. 1"] by (simp add: sum_list_triv)

end
