(* ===== verification/Ordered_Sets.thy ===== *)
theory Ordered_Sets
  imports Prelude
begin

text \<open>
  The ordered sets of \<open>set.rs\<close>: vectors kept strictly increasing by the element's order.
  The element types the pallet uses compare by a key only (\<open>Bond\<close> by its owner), so the
  order is given by \<open>key\<close>, and two elements are equal to the set when their keys are.
\<close>

section \<open>Operations\<close>

text \<open>\<open>Vec::dedup\<close> drops every element equal to the one before it.\<close>

fun dedup_by_key :: "('a \<Rightarrow> 'k) \<Rightarrow> 'a list \<Rightarrow> 'a list" where
  "dedup_by_key key [] = []"
| "dedup_by_key key [x] = [x]"
| "dedup_by_key key (x # y # zs) =
     (if key x = key y then dedup_by_key key (x # zs) else x # dedup_by_key key (y # zs))"

definition ordered_set_from :: "('a \<Rightarrow> 'k::linorder) \<Rightarrow> 'a list \<Rightarrow> 'a list" where
  "ordered_set_from key v = dedup_by_key key (sort_key key v)"

definition set_search :: "('a \<Rightarrow> 'k::linorder) \<Rightarrow> 'k \<Rightarrow> 'a list \<Rightarrow> nat + nat" where
  "set_search key k xs = binary_search_by (\<lambda>x. cmp (key x) k) xs"

definition ordered_set_insert :: "('a \<Rightarrow> 'k::linorder) \<Rightarrow> 'a \<Rightarrow> 'a list \<Rightarrow> bool \<times> 'a list" where
  "ordered_set_insert key v xs =
     (case set_search key (key v) xs of
        Inr _ \<Rightarrow> (False, xs)
      | Inl loc \<Rightarrow> (True, vec_insert loc v xs))"

definition ordered_set_remove :: "('a \<Rightarrow> 'k::linorder) \<Rightarrow> 'k \<Rightarrow> 'a list \<Rightarrow> bool \<times> 'a list" where
  "ordered_set_remove key k xs =
     (case set_search key k xs of
        Inr loc \<Rightarrow> (True, vec_remove loc xs)
      | Inl _ \<Rightarrow> (False, xs))"

definition ordered_set_contains :: "('a \<Rightarrow> 'k::linorder) \<Rightarrow> 'k \<Rightarrow> 'a list \<Rightarrow> bool" where
  "ordered_set_contains key k xs =
     (case set_search key k xs of Inr _ \<Rightarrow> True | Inl _ \<Rightarrow> False)"

definition ordered_set_clear :: "'a list \<Rightarrow> 'a list" where
  "ordered_set_clear xs = []"

text \<open>
  The bounded variant differs in insertion only: a full vector refuses a new element.
  \<open>Inl ()\<close> is \<open>Err(())\<close>.
\<close>

definition bounded_set_from :: "('a \<Rightarrow> 'k::linorder) \<Rightarrow> 'a list \<Rightarrow> 'a list" where
  "bounded_set_from key v = dedup_by_key key (sort_key key v)"

definition bounded_try_insert ::
  "nat \<Rightarrow> ('a \<Rightarrow> 'k::linorder) \<Rightarrow> 'a \<Rightarrow> 'a list \<Rightarrow> unit + bool \<times> 'a list" where
  "bounded_try_insert cap key v xs =
     (case set_search key (key v) xs of
        Inr _ \<Rightarrow> Inr (False, xs)
      | Inl loc \<Rightarrow> if length xs < cap then Inr (True, vec_insert loc v xs) else Inl ())"

definition bounded_remove :: "('a \<Rightarrow> 'k::linorder) \<Rightarrow> 'k \<Rightarrow> 'a list \<Rightarrow> bool \<times> 'a list" where
  "bounded_remove key k xs =
     (case set_search key k xs of
        Inr loc \<Rightarrow> (True, vec_remove loc xs)
      | Inl _ \<Rightarrow> (False, xs))"

section \<open>The invariant and the abstraction\<close>

text \<open>Strictly increasing keys; the abstract value is the finite map from keys to elements.\<close>

definition key_sorted :: "('a \<Rightarrow> 'k::linorder) \<Rightarrow> 'a list \<Rightarrow> bool" where
  "key_sorted key xs = sorted_wrt (<) (map key xs)"

definition by_key :: "('a \<Rightarrow> 'k) \<Rightarrow> 'a list \<Rightarrow> ('k \<rightharpoonup> 'a)" where
  "by_key key xs = map_of (map (\<lambda>x. (key x, x)) xs)"

lemma key_sorted_Nil [simp]: "key_sorted key []"
  by (simp add: key_sorted_def)

lemma key_sorted_Cons [simp]:
  "key_sorted key (x # xs) \<longleftrightarrow> (\<forall>y \<in> set xs. key x < key y) \<and> key_sorted key xs"
  by (auto simp: key_sorted_def)

lemma key_sorted_append [simp]:
  "key_sorted key (xs @ ys) \<longleftrightarrow>
     key_sorted key xs \<and> key_sorted key ys \<and> (\<forall>x \<in> set xs. \<forall>y \<in> set ys. key x < key y)"
  by (auto simp: key_sorted_def sorted_wrt_append)

lemma key_sorted_distinct: "key_sorted key xs \<Longrightarrow> distinct (map key xs)"
  by (simp add: key_sorted_def strict_sorted_iff)

lemma key_sorted_inj: "key_sorted key xs \<Longrightarrow> inj_on key (set xs)"
  using key_sorted_distinct distinct_map by blast

lemma key_sorted_filter: "key_sorted key xs \<Longrightarrow> key_sorted key (filter P xs)"
  by (simp add: key_sorted_def sorted_wrt_map sorted_wrt_filter)

lemma by_key_Nil [simp]: "by_key key [] = Map.empty"
  by (simp add: by_key_def)

lemma by_key_Cons [simp]: "by_key key (x # xs) = (by_key key xs)(key x \<mapsto> x)"
  by (simp add: by_key_def)

lemma by_key_Some_iff:
  "distinct (map key xs) \<Longrightarrow> by_key key xs k = Some x \<longleftrightarrow> x \<in> set xs \<and> key x = k"
  by (induction xs) (auto simp: rev_image_eqI)

lemma by_key_None_iff: "by_key key xs k = None \<longleftrightarrow> k \<notin> key ` set xs"
  by (induction xs) auto

lemma by_key_eqI:
  assumes "key_sorted key xs" "\<And>x. x \<in> set xs \<longleftrightarrow> m (key x) = Some x"
    and "\<And>k x. m k = Some x \<Longrightarrow> key x = k"
  shows "by_key key xs = m"
proof
  fix k
  note d = by_key_Some_iff [OF key_sorted_distinct [OF assms(1)]]
  show "by_key key xs k = m k"
  proof (cases "m k")
    case None
    then have "k \<notin> key ` set xs" using assms(2,3) by force
    with None show ?thesis by (simp add: by_key_None_iff)
  next
    case (Some x)
    with assms(2,3) have "x \<in> set xs" "key x = k" by auto
    with Some show ?thesis by (simp add: d)
  qed
qed

section \<open>Search\<close>

lemma sorted_cmp: "key_sorted key xs \<Longrightarrow> sorted (map (\<lambda>x. cmp (key x) k) xs)"
proof (induction xs)
  case Nil
  then show ?case by simp
next
  case (Cons x xs)
  have "cmp (key x) k \<le> cmp (key y) k" if "y \<in> set xs" for y
    using Cons.prems that by (fastforce simp: cmp_def)
  with Cons show ?case by auto
qed

lemma set_search_found:
  "key_sorted key xs \<Longrightarrow> set_search key k xs = Inr i \<Longrightarrow> i < length xs \<and> key (xs ! i) = k"
  using binary_search_by_found [OF sorted_cmp] by (fastforce simp: set_search_def)

lemma set_search_missing:
  assumes "key_sorted key xs" and "set_search key k xs = Inl i"
  shows "i \<le> length xs \<and> (\<forall>x \<in> set (take i xs). key x < k) \<and> (\<forall>x \<in> set (drop i xs). k < key x)"
  using binary_search_by_missing [OF sorted_cmp, of key xs k i] assms by (simp add: set_search_def)

lemma set_search_cases:
  assumes "key_sorted key xs"
  obtains (found) ys x zs where "xs = ys @ x # zs" "key x = k"
      "set_search key k xs = Inr (length ys)"
    | (missing) ys zs where "xs = ys @ zs" "\<forall>x \<in> set ys. key x < k" "\<forall>x \<in> set zs. k < key x"
      "set_search key k xs = Inl (length ys)"
proof (cases "set_search key k xs")
  case (Inl i)
  with set_search_missing [OF assms Inl] show ?thesis
    by (intro missing [of "take i xs" "drop i xs"]) auto
next
  case (Inr i)
  with set_search_found [OF assms Inr] show ?thesis
    by (intro found [of "take i xs" "xs ! i" "drop (Suc i) xs"])
      (auto simp: id_take_nth_drop [symmetric])
qed

lemma vec_ops_at [simp]:
  "vec_insert (length ys) x (ys @ zs) = ys @ x # zs"
  "vec_remove (length ys) (ys @ y # zs) = ys @ zs"
  by (simp_all add: vec_insert_def vec_remove_def)

section \<open>Correctness\<close>

lemma set_contains_iff:
  "key_sorted key xs \<Longrightarrow> ordered_set_contains key k xs \<longleftrightarrow> k \<in> key ` set xs"
  by (rule set_search_cases [of key xs k]) (auto simp: ordered_set_contains_def)

lemma set_insert_fresh:
  assumes "key_sorted key xs" and "key v \<notin> key ` set xs"
  shows "\<exists>ys zs. xs = ys @ zs \<and> ordered_set_insert key v xs = (True, ys @ v # zs)
    \<and> key_sorted key (ys @ v # zs)"
  using assms(1)
proof (rule set_search_cases [of key xs "key v"])
  fix ys zs
  assume "xs = ys @ zs" "\<forall>x \<in> set ys. key x < key v" "\<forall>x \<in> set zs. key v < key x"
    "set_search key (key v) xs = Inl (length ys)"
  then show ?thesis using assms(1)
    by (intro exI [of _ ys] exI [of _ zs]) (auto simp: ordered_set_insert_def)
qed (use assms(2) in auto)

lemma set_insert_present:
  "key_sorted key xs \<Longrightarrow> key v \<in> key ` set xs \<Longrightarrow> ordered_set_insert key v xs = (False, xs)"
  by (rule set_search_cases [of key xs "key v"]) (auto simp: ordered_set_insert_def)

lemma set_remove_present:
  assumes "key_sorted key xs" and "k \<in> key ` set xs"
  shows "ordered_set_remove key k xs = (True, filter (\<lambda>x. key x \<noteq> k) xs)"
  using assms(1)
proof (rule set_search_cases [of key xs k])
  fix ys x zs
  assume eq: "xs = ys @ x # zs" "key x = k" "set_search key k xs = Inr (length ys)"
  then have "filter (\<lambda>x. key x \<noteq> k) ys = ys" and "filter (\<lambda>x. key x \<noteq> k) zs = zs"
    using assms(1) by (fastforce simp: filter_id_conv)+
  with eq(1,2) have "filter (\<lambda>x. key x \<noteq> k) xs = ys @ zs" by simp
  with eq show ?thesis by (simp add: ordered_set_remove_def)
next
  fix ys zs
  assume "xs = ys @ zs" "\<forall>x \<in> set ys. key x < k" "\<forall>x \<in> set zs. k < key x"
  then show ?thesis using assms(2) by auto
qed

lemma set_remove_absent:
  "key_sorted key xs \<Longrightarrow> k \<notin> key ` set xs \<Longrightarrow> ordered_set_remove key k xs = (False, xs)"
  by (rule set_search_cases [of key xs k]) (auto simp: ordered_set_remove_def)

lemma set_remove_filter:
  assumes "key_sorted key xs"
  shows "ordered_set_remove key k xs = (k \<in> key ` set xs, filter (\<lambda>x. key x \<noteq> k) xs)"
proof (cases "k \<in> key ` set xs")
  case True
  with assms show ?thesis by (simp add: set_remove_present)
next
  case False
  then have "filter (\<lambda>x. key x \<noteq> k) xs = xs" by (auto simp: filter_id_conv)
  with False assms show ?thesis by (simp add: set_remove_absent)
qed

lemma bounded_remove_eq: "bounded_remove key k xs = ordered_set_remove key k xs"
  by (simp add: bounded_remove_def ordered_set_remove_def)

lemma bounded_try_insert_eq:
  "bounded_try_insert cap key v xs =
    (case ordered_set_insert key v xs of
       (False, ys) \<Rightarrow> Inr (False, ys)
     | (True, ys) \<Rightarrow> if length xs < cap then Inr (True, ys) else Inl ())"
  by (simp add: bounded_try_insert_def ordered_set_insert_def split: sum.split)

lemma key_sorted_insert:
  "key_sorted key xs \<Longrightarrow> key_sorted key (snd (ordered_set_insert key v xs))"
  using set_insert_fresh [of key xs v] set_insert_present [of key xs v]
  by (cases "key v \<in> key ` set xs") auto

lemma set_insert_result:
  assumes "key_sorted key xs"
  shows "fst (ordered_set_insert key v xs) = (key v \<notin> key ` set xs)"
    and "set (snd (ordered_set_insert key v xs)) =
      (if key v \<in> key ` set xs then set xs else insert v (set xs))"
    and "length (snd (ordered_set_insert key v xs)) =
      (if key v \<in> key ` set xs then length xs else Suc (length xs))"
  using set_insert_fresh [OF assms, of v] set_insert_present [OF assms, of v]
  by (cases "key v \<in> key ` set xs"; auto)+

subsection \<open>Construction\<close>

lemma dedup_keys: "key ` set (dedup_by_key key xs) = key ` set xs"
  by (induction key xs rule: dedup_by_key.induct) auto

lemma dedup_subset: "set (dedup_by_key key xs) \<subseteq> set xs"
  by (induction key xs rule: dedup_by_key.induct) auto

lemma dedup_sorted:
  "sorted (map key xs) \<Longrightarrow> key_sorted key (dedup_by_key (key :: 'a \<Rightarrow> 'k::linorder) xs)"
proof (induction key xs rule: dedup_by_key.induct)
  case (3 key x y zs)
  have "key x < key z" if "key x \<noteq> key y" "z \<in> set (dedup_by_key key (y # zs))" for z
    using that "3.prems" dedup_subset [of key "y # zs"] by fastforce
  with 3 show ?case by auto
qed simp_all

lemma ordered_set_from_sorted: "key_sorted key (ordered_set_from key v)"
  by (simp add: ordered_set_from_def dedup_sorted)

lemma ordered_set_from_keys: "key ` set (ordered_set_from key v) = key ` set v"
  by (simp add: ordered_set_from_def dedup_keys)

lemma dedup_id: "distinct (map key xs) \<Longrightarrow> dedup_by_key key xs = xs"
  by (induction key xs rule: dedup_by_key.induct) auto

lemma ordered_set_from_id:
  assumes "key_sorted key v" shows "ordered_set_from key v = v"
proof -
  have "sorted (map key v)" using assms by (simp add: key_sorted_def strict_sorted_iff)
  then have "sort_key key v = v" by (rule sort_key_id_if_sorted)
  with assms show ?thesis
    by (simp add: ordered_set_from_def dedup_id key_sorted_distinct)
qed

section \<open>The interface its clients use\<close>

text \<open>
  What the clients of a bounded ordered vector rely on: it is a finite map; writing an entry
  updates the map, fails only when a new key does not fit, and deleting removes the key. The
  candidate pool and the auto-compounding configurations provide it.
\<close>

locale keyed_store =
  fixes lookup :: "'s \<Rightarrow> 'k \<Rightarrow> 'v option"
    and upd :: "'k \<Rightarrow> 'v \<Rightarrow> 's \<Rightarrow> 's option"
    and del :: "'k \<Rightarrow> 's \<Rightarrow> 's"
    and inv :: "'s \<Rightarrow> bool"
  assumes lookup_upd: "inv s \<Longrightarrow> upd k v s = Some t \<Longrightarrow> lookup t = (lookup s)(k \<mapsto> v)"
    and lookup_del: "inv s \<Longrightarrow> lookup (del k s) = (lookup s)(k := None)"
    and inv_upd: "inv s \<Longrightarrow> upd k v s = Some t \<Longrightarrow> inv t"
    and inv_del: "inv s \<Longrightarrow> inv (del k s)"
    and upd_present: "inv s \<Longrightarrow> lookup s k \<noteq> None \<Longrightarrow> upd k v s \<noteq> None"
begin

lemma lookup_upd_same: "inv s \<Longrightarrow> upd k v s = Some t \<Longrightarrow> lookup t k = Some v"
  by (simp add: lookup_upd)

lemma lookup_upd_other: "inv s \<Longrightarrow> upd k v s = Some t \<Longrightarrow> k \<noteq> k' \<Longrightarrow> lookup t k' = lookup s k'"
  by (simp add: lookup_upd)

lemma lookup_del_upd:
  "inv s \<Longrightarrow> upd k v s = Some t \<Longrightarrow> lookup (del k t) = (lookup s)(k := None)"
  by (simp add: lookup_upd lookup_del inv_upd)

lemma upd_again:
  assumes "inv s" and "upd k v s = Some t"
  shows "\<exists>u. upd k w t = Some u \<and> inv u \<and> lookup u = (lookup s)(k \<mapsto> w)"
proof -
  have t: "inv t" "lookup t = (lookup s)(k \<mapsto> v)" using assms inv_upd lookup_upd by auto
  then obtain u where "upd k w t = Some u" using upd_present [of t k w] by auto
  with t show ?thesis using inv_upd lookup_upd by fastforce
qed

end

text \<open>Replacing an entry of an ordered vector: remove it by key, then insert the new one.\<close>

definition replace_by_key :: "('a \<Rightarrow> 'k::linorder) \<Rightarrow> 'a \<Rightarrow> 'a list \<Rightarrow> 'a list" where
  "replace_by_key key v xs =
     snd (ordered_set_insert key v (snd (ordered_set_remove key (key v) xs)))"

lemma key_sorted_remove:
  "key_sorted key xs \<Longrightarrow> key_sorted key (snd (ordered_set_remove key k xs))"
  by (simp add: set_remove_filter key_sorted_filter)

lemma by_key_remove:
  "key_sorted key xs \<Longrightarrow> by_key key (snd (ordered_set_remove key k xs)) = (by_key key xs)(k := None)"
proof (simp add: set_remove_filter)
  show "by_key key (filter (\<lambda>x. key x \<noteq> k) xs) = (by_key key xs)(k := None)"
    by (induction xs) (auto simp: fun_eq_iff)
qed

lemma by_key_insert_fresh:
  assumes "key_sorted key xs" and "key v \<notin> key ` set xs"
  shows "by_key key (snd (ordered_set_insert key v xs)) = (by_key key xs)(key v \<mapsto> v)"
proof -
  obtain ys zs where xs: "xs = ys @ zs" and ins: "ordered_set_insert key v xs = (True, ys @ v # zs)"
    using set_insert_fresh [OF assms] by blast
  have "by_key key (ys @ v # zs) = (by_key key (ys @ zs))(key v \<mapsto> v)"
    using assms(2) unfolding xs by (induction ys) (auto simp: fun_eq_iff)
  with xs ins show ?thesis by simp
qed

lemma replace_by_key_props:
  assumes "key_sorted key xs"
  shows "key_sorted key (replace_by_key key v xs)"
    and "by_key key (replace_by_key key v xs) = (by_key key xs)(key v \<mapsto> v)"
    and "set (replace_by_key key v xs) = insert v {x \<in> set xs. key x \<noteq> key v}"
proof -
  let ?ys = "snd (ordered_set_remove key (key v) xs)"
  have ys: "key_sorted key ?ys" "key v \<notin> key ` set ?ys"
    using assms by (auto simp: key_sorted_filter set_remove_filter)
  show "key_sorted key (replace_by_key key v xs)"
    by (simp add: replace_by_key_def key_sorted_insert ys(1))
  show "by_key key (replace_by_key key v xs) = (by_key key xs)(key v \<mapsto> v)"
    using assms by (simp add: replace_by_key_def by_key_insert_fresh [OF ys] by_key_remove)
  show "set (replace_by_key key v xs) = insert v {x \<in> set xs. key x \<noteq> key v}"
    using ys assms by (auto simp: replace_by_key_def set_insert_result(2) set_remove_filter)
qed

end
