(* ===== verification/Staking_Types.thy ===== *)
theory Staking_Types
  imports Ordered_Sets
begin

text \<open>
  The data model of pallet-parachain-staking: the types of \<open>types.rs\<close>,
  \<open>delegation_requests.rs\<close>, \<open>auto_compound.rs\<close> and \<open>inflation.rs\<close>, the errors, events,
  storage items and configuration of \<open>lib.rs\<close>, and the accessors the handlers share.
  Field names carry a short prefix because record fields share one name space.
\<close>

section \<open>Scalars\<close>

text \<open>
  \<open>AccountId\<close> stands for the 20-byte account as the number its bytes spell: the derived
  order of the byte array is the order of these numbers, and decoding zeroes gives 0.
  \<open>Perbill\<close> and \<open>Percent\<close> are their parts per billion and per hundred.
\<close>

type_synonym AccountId = nat
type_synonym Balance = nat
type_synonym RoundIndex = nat
type_synonym BlockNumber = nat
type_synonym Perbill = nat
type_synonym Percent = nat

definition zero_account :: AccountId where "zero_account = 0"

section \<open>Types\<close>

record Bond =
  b_owner :: AccountId
  b_amount :: Balance

definition bond_default :: Bond where
  "bond_default = \<lparr>b_owner = zero_account, b_amount = 0\<rparr>"

definition bond_from_owner :: "AccountId \<Rightarrow> Bond" where
  "bond_from_owner owner = \<lparr>b_owner = owner, b_amount = 0\<rparr>"

definition bond_cmp :: "Bond \<Rightarrow> Bond \<Rightarrow> ordering" where
  "bond_cmp self other = cmp (b_owner self) (b_owner other)"

definition bond_eq :: "Bond \<Rightarrow> Bond \<Rightarrow> bool" where
  "bond_eq self other = (b_owner self = b_owner other)"

record CountedDelegations =
  uncounted_stake :: Balance
  rewardable_delegations :: "Bond list"

datatype CollatorStatus = Active | Idle | Leaving RoundIndex

definition collator_status_default :: CollatorStatus where
  "collator_status_default = Active"

record BondWithAutoCompound =
  bac_owner :: AccountId
  bac_amount :: Balance
  bac_auto_compound :: Percent

definition bond_with_auto_compound_default :: BondWithAutoCompound where
  "bond_with_auto_compound_default =
     \<lparr>bac_owner = zero_account, bac_amount = 0, bac_auto_compound = 0\<rparr>"

record CollatorSnapshot =
  snap_bond :: Balance
  snap_delegations :: "BondWithAutoCompound list"
  snap_total :: Balance

definition collator_snapshot_eq :: "CollatorSnapshot \<Rightarrow> CollatorSnapshot \<Rightarrow> bool" where
  "collator_snapshot_eq self other =
     (snap_bond self = snap_bond other \<and> snap_total self = snap_total other
      \<and> list_all (\<lambda>(x, y). bac_owner x = bac_owner y \<and> bac_amount x = bac_amount y
           \<and> bac_auto_compound x = bac_auto_compound y)
          (zip (snap_delegations self) (snap_delegations other)))"

definition collator_snapshot_default :: CollatorSnapshot where
  "collator_snapshot_default = \<lparr>snap_bond = 0, snap_delegations = [], snap_total = 0\<rparr>"

record DelayedPayout =
  dp_round_issuance :: Balance
  dp_total_staking_reward :: Balance
  dp_collator_commission :: Perbill

record CandidateBondLessRequest =
  br_amount :: Balance
  br_when_executable :: RoundIndex

record Delegations =
  ds_delegations :: "Bond list"
  ds_total :: Balance

definition delegations_default :: Delegations where
  "delegations_default = \<lparr>ds_delegations = [], ds_total = 0\<rparr>"

datatype CapacityStatus = Full | Empty | Partial

record CandidateMetadata =
  cm_bond :: Balance
  cm_delegation_count :: nat
  cm_total_counted :: Balance
  cm_lowest_top_delegation_amount :: Balance
  cm_highest_bottom_delegation_amount :: Balance
  cm_lowest_bottom_delegation_amount :: Balance
  cm_top_capacity :: CapacityStatus
  cm_bottom_capacity :: CapacityStatus
  cm_request :: "CandidateBondLessRequest option"
  cm_status :: CollatorStatus

datatype DelegatorAdded = AddedToTop Balance | AddedToBottom

datatype DelegatorStatus = DelegatorActive | DelegatorLeaving RoundIndex

record Delegator =
  d_id :: AccountId
  d_delegations :: "Bond list"
  d_total :: Balance
  d_less_total :: Balance
  d_status :: DelegatorStatus

definition delegator_eq :: "Delegator \<Rightarrow> Delegator \<Rightarrow> bool" where
  "delegator_eq self other =
     (d_id self = d_id other \<and> d_total self = d_total other
      \<and> d_less_total self = d_less_total other \<and> d_status self = d_status other
      \<and> list_all (\<lambda>(x, y). b_owner x = b_owner y \<and> b_amount x = b_amount y)
          (zip (d_delegations self) (d_delegations other)))"

record RoundInfo =
  r_current :: RoundIndex
  r_first :: BlockNumber
  r_length :: nat
  r_first_slot :: nat

record InflationDistributionAccount =
  ida_account :: AccountId
  ida_percent :: Percent

definition inflation_distribution_account_default :: InflationDistributionAccount where
  "inflation_distribution_account_default = \<lparr>ida_account = zero_account, ida_percent = 0\<rparr>"

text \<open>The Rust type is an array of exactly two accounts.\<close>

datatype InflationDistributionConfig =
  InflationDistributionConfig InflationDistributionAccount InflationDistributionAccount

fun config_accounts :: "InflationDistributionConfig \<Rightarrow> InflationDistributionAccount list" where
  "config_accounts (InflationDistributionConfig a b) = [a, b]"

definition inflation_distribution_config_default :: InflationDistributionConfig where
  "inflation_distribution_config_default =
     InflationDistributionConfig inflation_distribution_account_default
       inflation_distribution_account_default"

datatype BondAdjust = BondIncrease Balance | BondDecrease

datatype DelegationAction = Revoke Balance | Decrease Balance

fun action_amount :: "DelegationAction \<Rightarrow> Balance" where
  "action_amount (Revoke amount) = amount"
| "action_amount (Decrease amount) = amount"

fun is_revoke :: "DelegationAction \<Rightarrow> bool" where
  "is_revoke (Revoke _) = True"
| "is_revoke (Decrease _) = False"

text \<open>\<open>DelegationAction\<close> derives \<open>Ord\<close>: by variant, then by amount.\<close>

instantiation DelegationAction :: linorder
begin

fun action_rank :: "DelegationAction \<Rightarrow> nat \<times> nat" where
  "action_rank (Revoke a) = (0, a)"
| "action_rank (Decrease a) = (1, a)"

definition less_eq_DelegationAction :: "DelegationAction \<Rightarrow> DelegationAction \<Rightarrow> bool" where
  "less_eq_DelegationAction a b =
     (fst (action_rank a) < fst (action_rank b)
      \<or> fst (action_rank a) = fst (action_rank b) \<and> snd (action_rank a) \<le> snd (action_rank b))"

definition less_DelegationAction :: "DelegationAction \<Rightarrow> DelegationAction \<Rightarrow> bool" where
  "less_DelegationAction a b = (a \<le> b \<and> \<not> b \<le> a)"

instance
proof
  fix a b c :: DelegationAction
  show "a \<le> b \<Longrightarrow> b \<le> a \<Longrightarrow> a = b"
    by (cases a; cases b) (auto simp: less_eq_DelegationAction_def)
qed (auto simp: less_eq_DelegationAction_def less_DelegationAction_def)

end

record ScheduledRequest =
  sr_delegator :: AccountId
  sr_when_executable :: RoundIndex
  sr_action :: DelegationAction

record CancelledScheduledRequest =
  cr_when_executable :: RoundIndex
  cr_action :: DelegationAction

definition cancelled_from :: "ScheduledRequest \<Rightarrow> CancelledScheduledRequest" where
  "cancelled_from request =
     \<lparr>cr_when_executable = sr_when_executable request, cr_action = sr_action request\<rparr>"

record AutoCompoundConfig =
  ac_delegator :: AccountId
  ac_value :: Percent

record Range =
  rg_min :: nat
  rg_ideal :: nat
  rg_max :: nat

definition range_is_valid :: "Range \<Rightarrow> bool" where
  "range_is_valid self = (rg_max self \<ge> rg_ideal self \<and> rg_ideal self \<ge> rg_min self)"

definition range_from :: "nat \<Rightarrow> Range" where
  "range_from other = \<lparr>rg_min = other, rg_ideal = other, rg_max = other\<rparr>"

record InflationInfo =
  ii_expect :: Range
  ii_annual :: Range
  ii_round :: Range

section \<open>Errors\<close>

datatype staking_error =
    DelegatorDNE | DelegatorDNEinTopNorBottom | DelegatorDNEInDelegatorSet | CandidateDNE
  | DelegationDNE | DelegatorExists | CandidateExists | CandidateBondBelowMin
  | InsufficientBalance | DelegatorBondBelowMin | DelegationBelowMin | AlreadyOffline
  | AlreadyActive | DelegatorAlreadyLeaving | DelegatorNotLeaving | DelegatorCannotLeaveYet
  | CannotDelegateIfLeaving | CandidateAlreadyLeaving | CandidateNotLeaving
  | CandidateCannotLeaveYet | CannotGoOnlineIfLeaving | ExceedMaxDelegationsPerDelegator
  | AlreadyDelegatedCandidate | InvalidSchedule | CannotSetBelowMin
  | RoundLengthMustBeGreaterThanTotalSelectedCollators | NoWritingSameValue
  | TotalInflationDistributionPercentExceeds100
  | TooLowCandidateCountWeightHintJoinCandidates
  | TooLowCandidateCountWeightHintCancelLeaveCandidates
  | TooLowCandidateCountToLeaveCandidates | TooLowDelegationCountToDelegate
  | TooLowCandidateDelegationCountToDelegate
  | TooLowCandidateDelegationCountToLeaveCandidates
  | TooLowDelegationCountToLeaveDelegators | PendingCandidateRequestsDNE
  | PendingCandidateRequestAlreadyExists | PendingCandidateRequestNotDueYet
  | PendingDelegationRequestDNE | PendingDelegationRequestAlreadyExists
  | PendingDelegationRequestNotDueYet | CannotDelegateLessThanOrEqualToLowestBottomWhenFull
  | PendingDelegationRevoke | TooLowDelegationCountToAutoCompound
  | TooLowCandidateAutoCompoundingDelegationCountToAutoCompound
  | TooLowCandidateAutoCompoundingDelegationCountToDelegate
  | TooLowCollatorCountToNotifyAsInactive | CannotBeNotifiedAsInactive
  | TooLowCandidateAutoCompoundingDelegationCountToLeaveCandidates
  | TooLowCandidateCountWeightHint | TooLowCandidateCountWeightHintGoOffline
  | CandidateLimitReached | CannotSetAboveMaxCandidates | MarkingOfflineNotEnabled
  | CurrentRoundTooLow

datatype dispatch_error = Module staking_error | BadOrigin | OtherError string

section \<open>Events\<close>

datatype event =
    NewRound BlockNumber RoundIndex nat Balance
  | JoinedCollatorCandidates AccountId Balance Balance
  | CollatorChosen RoundIndex AccountId Balance
  | CandidateBondLessRequested AccountId Balance RoundIndex
  | CandidateBondedMore AccountId Balance Balance
  | CandidateBondedLess AccountId Balance Balance
  | CandidateWentOffline AccountId
  | CandidateBackOnline AccountId
  | CandidateScheduledExit RoundIndex AccountId RoundIndex
  | CancelledCandidateExit AccountId
  | CancelledCandidateBondLess AccountId Balance RoundIndex
  | CandidateLeft AccountId Balance Balance
  | DelegationDecreaseScheduled AccountId AccountId Balance RoundIndex
  | DelegationIncreased AccountId AccountId Balance bool
  | DelegationDecreased AccountId AccountId Balance bool
  | DelegatorExitScheduled RoundIndex AccountId RoundIndex
  | DelegationRevocationScheduled RoundIndex AccountId AccountId RoundIndex
  | DelegatorLeft AccountId Balance
  | DelegationRevoked AccountId AccountId Balance
  | DelegationKicked AccountId AccountId Balance
  | DelegatorExitCancelled AccountId
  | CancelledDelegationRequest AccountId CancelledScheduledRequest AccountId
  | Delegation AccountId Balance AccountId DelegatorAdded Percent
  | DelegatorLeftCandidate AccountId AccountId Balance Balance
  | Rewarded AccountId Balance
  | InflationDistributed nat AccountId Balance
  | InflationDistributionConfigUpdated InflationDistributionConfig InflationDistributionConfig
  | InflationSet Perbill Perbill Perbill Perbill Perbill Perbill
  | StakeExpectationsSet Balance Balance Balance
  | TotalSelectedSet nat nat
  | CollatorCommissionSet Perbill Perbill
  | BlocksPerRoundSet RoundIndex BlockNumber nat nat Perbill Perbill Perbill
  | AutoCompoundSet AccountId AccountId Percent
  | Compounded AccountId AccountId Balance

section \<open>Storage\<close>

text \<open>
  One field per storage item. \<open>OptionQuery\<close> maps are partial functions, \<open>ValueQuery\<close> maps
  total ones; the second level of a double map is an association list in trie order, since
  the code iterates over it. \<open>world\<close> is the storage of every other pallet, which this one
  reaches only through its configuration.
\<close>

record 'w staking =
  CollatorCommission :: Perbill
  TotalSelected :: nat
  InflationDistributionInfo :: InflationDistributionConfig
  Round :: RoundInfo
  DelegatorState :: "AccountId \<rightharpoonup> Delegator"
  CandidateInfo :: "AccountId \<rightharpoonup> CandidateMetadata"
  DelegationScheduledRequests :: "AccountId \<Rightarrow> ScheduledRequest list"
  AutoCompoundingDelegations :: "AccountId \<Rightarrow> AutoCompoundConfig list"
  TopDelegations :: "AccountId \<rightharpoonup> Delegations"
  BottomDelegations :: "AccountId \<rightharpoonup> Delegations"
  SelectedCandidates :: "AccountId list"
  Total :: Balance
  CandidatePool :: "Bond list"
  AtStake :: "RoundIndex \<Rightarrow> (AccountId \<times> CollatorSnapshot) list"
  WasInactive :: "RoundIndex \<Rightarrow> (AccountId \<times> unit) list"
  DelayedPayouts :: "RoundIndex \<rightharpoonup> DelayedPayout"
  InflationConfig :: InflationInfo
  Points :: "RoundIndex \<Rightarrow> nat"
  AwardedPts :: "RoundIndex \<Rightarrow> AccountId \<Rightarrow> nat"
  EnableMarkingOffline :: bool
  Events :: "event list"
  world :: 'w

type_synonym ('w, 'a) staking_m = "('w staking, dispatch_error, 'a) prog"

section \<open>Configuration\<close>

text \<open>The constants of the pallet's \<open>Config\<close> trait.\<close>

record params =
  MinBlocksPerRound :: nat
  MaxOfflineRounds :: nat
  LeaveCandidatesDelay :: RoundIndex
  CandidateBondLessDelay :: RoundIndex
  LeaveDelegatorsDelay :: RoundIndex
  RevokeDelegationDelay :: RoundIndex
  DelegationBondLessDelay :: RoundIndex
  RewardPaymentDelay :: RoundIndex
  MinSelectedCandidates :: nat
  MaxTopDelegationsPerCandidate :: nat
  MaxBottomDelegationsPerCandidate :: nat
  MaxDelegationsPerDelegator :: nat
  MinCandidateStk :: Balance
  MinDelegation :: Balance
  SlotDuration :: nat
  BlockTime :: nat
  MaxCandidates :: nat
  LinearInflationThreshold :: "Balance option"

datatype origin = Root | Signed AccountId | Unsigned

datatype lock_id = COLLATOR_LOCK_ID | DELEGATOR_LOCK_ID

text \<open>
  The associated types. \<open>Currency\<close> (pallet-balances), the per-thing arithmetic
  (sp-arithmetic), the fixed-point power (substrate-fixed), the governance origin, the
  block author, the slot provider and the hooks of other pallets are code outside this
  repository or chosen by the runtime: they are parameters. \<open>deposit_into_existing\<close> is
  \<open>None\<close> when the account does not exist and otherwise gives the imbalance it minted.
  \<open>key_order\<close> is the trie position of an account key under the hasher of the double maps.
\<close>

record 'w config = params +
  free_balance :: "'w \<Rightarrow> AccountId \<Rightarrow> Balance"
  reserved_balance :: "'w \<Rightarrow> AccountId \<Rightarrow> Balance"
  total_issuance :: "'w \<Rightarrow> Balance"
  set_lock :: "lock_id \<Rightarrow> AccountId \<Rightarrow> Balance \<Rightarrow> 'w \<Rightarrow> 'w"
  remove_lock :: "lock_id \<Rightarrow> AccountId \<Rightarrow> 'w \<Rightarrow> 'w"
  deposit_into_existing :: "AccountId \<Rightarrow> Balance \<Rightarrow> 'w \<Rightarrow> (Balance \<times> 'w) option"
  perbill_from_rational :: "nat \<Rightarrow> nat \<Rightarrow> Perbill"
  perbill_mul :: "Perbill \<Rightarrow> Balance \<Rightarrow> Balance"
  percent_mul :: "Percent \<Rightarrow> Balance \<Rightarrow> Balance"
  percent_mul_ceil :: "Percent \<Rightarrow> Balance \<Rightarrow> Balance"
  annual_to_round_rate :: "Perbill \<Rightarrow> nat \<Rightarrow> Perbill"
  is_monetary_governance :: "origin \<Rightarrow> bool"
  block_author :: "'w \<Rightarrow> AccountId"
  current_slot :: "'w \<Rightarrow> nat"
  key_order :: "AccountId \<Rightarrow> nat"
  payout_collator_reward :: "RoundIndex \<Rightarrow> AccountId \<Rightarrow> Balance \<Rightarrow> ('w, unit) staking_m"
  on_collator_payout :: "RoundIndex \<Rightarrow> AccountId \<Rightarrow> Balance \<Rightarrow> ('w, unit) staking_m"
  on_inactive_collator :: "AccountId \<Rightarrow> RoundIndex \<Rightarrow> ('w, unit) staking_m"
  on_new_round :: "RoundIndex \<Rightarrow> ('w, unit) staking_m"

section \<open>Accessors\<close>

definition err :: "staking_error \<Rightarrow> ('w, 'a) staking_m" where
  "err e = fail_m (Module e)"

definition ensure :: "bool \<Rightarrow> staking_error \<Rightarrow> ('w, unit) staking_m" where
  "ensure b e = ensure_m b (Module e)"

definition ok_or :: "'a option \<Rightarrow> staking_error \<Rightarrow> ('w, 'a) staking_m" where
  "ok_or x e = ok_or_m x (Module e)"

definition deposit_event :: "event \<Rightarrow> ('w, unit) staking_m" where
  "deposit_event e = modify_m (\<lambda>s. s\<lparr>Events := Events s @ [e]\<rparr>)"

definition on_world :: "('w \<Rightarrow> 'w) \<Rightarrow> ('w, unit) staking_m" where
  "on_world f = modify_m (\<lambda>s. s\<lparr>world := f (world s)\<rparr>)"

definition put_candidate_info :: "AccountId \<Rightarrow> CandidateMetadata \<Rightarrow> ('w, unit) staking_m" where
  "put_candidate_info c m = modify_m (\<lambda>s. s\<lparr>CandidateInfo := (CandidateInfo s)(c \<mapsto> m)\<rparr>)"

definition put_delegator_state :: "AccountId \<Rightarrow> Delegator \<Rightarrow> ('w, unit) staking_m" where
  "put_delegator_state d st = modify_m (\<lambda>s. s\<lparr>DelegatorState := (DelegatorState s)(d \<mapsto> st)\<rparr>)"

definition remove_delegator_state :: "AccountId \<Rightarrow> ('w, unit) staking_m" where
  "remove_delegator_state d = modify_m (\<lambda>s. s\<lparr>DelegatorState := (DelegatorState s)(d := None)\<rparr>)"

definition put_top_delegations :: "AccountId \<Rightarrow> Delegations \<Rightarrow> ('w, unit) staking_m" where
  "put_top_delegations c ds = modify_m (\<lambda>s. s\<lparr>TopDelegations := (TopDelegations s)(c \<mapsto> ds)\<rparr>)"

definition put_bottom_delegations :: "AccountId \<Rightarrow> Delegations \<Rightarrow> ('w, unit) staking_m" where
  "put_bottom_delegations c ds = modify_m (\<lambda>s. s\<lparr>BottomDelegations := (BottomDelegations s)(c \<mapsto> ds)\<rparr>)"

definition put_scheduled_requests :: "AccountId \<Rightarrow> ScheduledRequest list \<Rightarrow> ('w, unit) staking_m" where
  "put_scheduled_requests c rs = modify_m (\<lambda>s. s\<lparr>DelegationScheduledRequests := (DelegationScheduledRequests s)(c := rs)\<rparr>)"

definition put_auto_compounding :: "AccountId \<Rightarrow> AutoCompoundConfig list \<Rightarrow> ('w, unit) staking_m" where
  "put_auto_compounding c xs = modify_m (\<lambda>s. s\<lparr>AutoCompoundingDelegations := (AutoCompoundingDelegations s)(c := xs)\<rparr>)"

definition put_candidate_pool :: "Bond list \<Rightarrow> ('w, unit) staking_m" where
  "put_candidate_pool pool = modify_m (\<lambda>s. s\<lparr>CandidatePool := pool\<rparr>)"

definition put_total :: "Balance \<Rightarrow> ('w, unit) staking_m" where
  "put_total t = modify_m (\<lambda>s. s\<lparr>Total := t\<rparr>)"

text \<open>\<open>ensure_signed\<close>, \<open>ensure_root\<close> and the governance check of frame-system.\<close>

fun ensure_signed :: "origin \<Rightarrow> ('w, AccountId) staking_m" where
  "ensure_signed (Signed acc) = return_m acc"
| "ensure_signed _ = fail_m BadOrigin"

fun ensure_root :: "origin \<Rightarrow> ('w, unit) staking_m" where
  "ensure_root Root = return_m ()"
| "ensure_root _ = fail_m BadOrigin"

definition ensure_monetary_governance :: "'w config \<Rightarrow> origin \<Rightarrow> ('w, unit) staking_m" where
  "ensure_monetary_governance cfg o' = ensure_m (is_monetary_governance cfg o') BadOrigin"

lemmas accessor_defs [prog_defs] =
  err_def ensure_def ok_or_def deposit_event_def on_world_def put_candidate_info_def
  put_delegator_state_def remove_delegator_state_def put_top_delegations_def
  put_bottom_delegations_def put_scheduled_requests_def put_auto_compounding_def
  put_candidate_pool_def put_total_def ensure_monetary_governance_def

lemma wp_accessors [wp_simps]:
  "wp (err e) Q E s = E (Module e) s"
  "wp (ensure b e) R E s = (if b then R () s else E (Module e) s)"
  "wp (ok_or x e) P E s = (case x of None \<Rightarrow> E (Module e) s | Some y \<Rightarrow> P y s)"
  "wp (deposit_event ev) R E s = R () (s\<lparr>Events := Events s @ [ev]\<rparr>)"
  "wp (on_world f) R E s = R () (s\<lparr>world := f (world s)\<rparr>)"
  "wp (put_candidate_info c m) R E s = R () (s\<lparr>CandidateInfo := (CandidateInfo s)(c \<mapsto> m)\<rparr>)"
  "wp (put_delegator_state c st) R E s = R () (s\<lparr>DelegatorState := (DelegatorState s)(c \<mapsto> st)\<rparr>)"
  "wp (remove_delegator_state c) R E s = R () (s\<lparr>DelegatorState := (DelegatorState s)(c := None)\<rparr>)"
  "wp (put_top_delegations c ds) R E s = R () (s\<lparr>TopDelegations := (TopDelegations s)(c \<mapsto> ds)\<rparr>)"
  "wp (put_bottom_delegations c ds) R E s =
     R () (s\<lparr>BottomDelegations := (BottomDelegations s)(c \<mapsto> ds)\<rparr>)"
  "wp (put_scheduled_requests c rs) R E s =
     R () (s\<lparr>DelegationScheduledRequests := (DelegationScheduledRequests s)(c := rs)\<rparr>)"
  "wp (put_auto_compounding c xs) R E s =
     R () (s\<lparr>AutoCompoundingDelegations := (AutoCompoundingDelegations s)(c := xs)\<rparr>)"
  "wp (put_candidate_pool pool) R E s = R () (s\<lparr>CandidatePool := pool\<rparr>)"
  "wp (put_total t) R E s = R () (s\<lparr>Total := t\<rparr>)"
  "wp (ensure_monetary_governance cfg o') R E s =
     (if is_monetary_governance cfg o' then R () s else E BadOrigin s)"
  by (simp_all add: accessor_defs wp_simps)

lemma wp_ensure_signed [wp_simps]:
  "wp (ensure_signed o') Q E s =
     (case o' of Signed acc \<Rightarrow> Q acc s | Root \<Rightarrow> E BadOrigin s | Unsigned \<Rightarrow> E BadOrigin s)"
  by (cases o') (simp_all add: wp_simps)

lemma wp_ensure_root [wp_simps]:
  "wp (ensure_root o') Q E s =
     (case o' of Root \<Rightarrow> Q () s | Signed acc \<Rightarrow> E BadOrigin s | Unsigned \<Rightarrow> E BadOrigin s)"
  by (cases o') (simp_all add: wp_simps)

end
