(* ===== verification/Delegation_Lists.thy ===== *)
theory Delegation_Lists
  imports Staking_Types
begin

text \<open>
  The \<open>Delegations\<close> type of \<open>types.rs\<close>: a list of bonds kept from the greatest amount to the
  least, with its total. Insertion finds its place by binary search and then walks past the
  equal amounts, so that the first to come is the first served; the theory shows that it is
  the stable insertion, and that every operation keeps the order.
\<close>

section \<open>Operations\<close>

definition sort_greatest_to_least :: "Delegations \<Rightarrow> Delegations" where
  "sort_greatest_to_least self =
     self\<lparr>ds_delegations := sort_key (\<lambda>x. - int (b_amount x)) (ds_delegations self)\<rparr>"

text \<open>The loop that skips the bonds of equal amount, started right of the one found.\<close>

function insert_after_equals :: "Bond \<Rightarrow> nat \<Rightarrow> Bond list \<Rightarrow> Bond list" where
  "insert_after_equals delegation new_index ds =
     (if new_index \<le> length ds - 1
      then if b_amount (ds ! new_index) = b_amount delegation
           then insert_after_equals delegation (Suc new_index) ds
           else vec_insert new_index delegation ds
      else ds @ [delegation])"
  by pat_completeness auto
termination
  by (relation "measure (\<lambda>(d, i, ds). Suc (length ds) - i)") auto

declare insert_after_equals.simps [simp del]

definition insert_sorted_greatest_to_least :: "Bond \<Rightarrow> Delegations \<Rightarrow> Delegations" where
  "insert_sorted_greatest_to_least delegation self =
     (let ds = ds_delegations self;
          self = self\<lparr>ds_total := sat_add_u128 (ds_total self) (b_amount delegation)\<rparr>
      in if ds \<noteq> [] \<and> b_amount (ds ! (length ds - 1)) = b_amount delegation
         then self\<lparr>ds_delegations := ds @ [delegation]\<rparr>
         else case binary_search_by (\<lambda>x. cmp (b_amount delegation) (b_amount x)) ds of
             Inr i \<Rightarrow> self\<lparr>ds_delegations := insert_after_equals delegation (i + 1) ds\<rparr>
           | Inl i \<Rightarrow> self\<lparr>ds_delegations := vec_insert i delegation ds\<rparr>)"

definition top_capacity :: "'p params_scheme \<Rightarrow> Delegations \<Rightarrow> CapacityStatus" where
  "top_capacity cfg self =
     (if as_u32 (length (ds_delegations self)) \<ge> MaxTopDelegationsPerCandidate cfg then Full
      else if ds_delegations self = [] then Empty else Partial)"

definition bottom_capacity :: "'p params_scheme \<Rightarrow> Delegations \<Rightarrow> CapacityStatus" where
  "bottom_capacity cfg self =
     (if as_u32 (length (ds_delegations self)) \<ge> MaxBottomDelegationsPerCandidate cfg then Full
      else if ds_delegations self = [] then Empty else Partial)"

definition lowest_delegation_amount :: "Delegations \<Rightarrow> Balance" where
  "lowest_delegation_amount self =
     (case ds_delegations self of [] \<Rightarrow> 0 | x # xs \<Rightarrow> b_amount (last (x # xs)))"

definition highest_delegation_amount :: "Delegations \<Rightarrow> Balance" where
  "highest_delegation_amount self =
     (case ds_delegations self of [] \<Rightarrow> 0 | x # _ \<Rightarrow> b_amount x)"

section \<open>Descending lists\<close>

definition descending :: "Bond list \<Rightarrow> bool" where
  "descending ds = sorted_wrt (\<lambda>x y. b_amount y \<le> b_amount x) ds"

abbreviation amounts :: "Bond list \<Rightarrow> nat" where
  "amounts ds \<equiv> sum_list (map b_amount ds)"

abbreviation owners :: "Bond list \<Rightarrow> AccountId set" where
  "owners ds \<equiv> b_owner ` set ds"

lemma descending_Nil [simp]: "descending []"
  by (simp add: descending_def)

lemma descending_Cons [simp]:
  "descending (x # ds) \<longleftrightarrow> (\<forall>y \<in> set ds. b_amount y \<le> b_amount x) \<and> descending ds"
  by (simp add: descending_def)

lemma descending_append [simp]:
  "descending (xs @ ys) \<longleftrightarrow>
     descending xs \<and> descending ys \<and> (\<forall>x \<in> set xs. \<forall>y \<in> set ys. b_amount y \<le> b_amount x)"
  by (auto simp: descending_def sorted_wrt_append)

lemma descending_filter: "descending ds \<Longrightarrow> descending (filter P ds)"
  by (simp add: descending_def sorted_wrt_filter)

lemma descending_nth:
  "descending ds \<Longrightarrow> i \<le> j \<Longrightarrow> j < length ds \<Longrightarrow> b_amount (ds ! j) \<le> b_amount (ds ! i)"
  by (cases "i = j") (auto simp: descending_def sorted_wrt_iff_nth_less)

lemma descending_last: "descending ds \<Longrightarrow> x \<in> set ds \<Longrightarrow> b_amount (last ds) \<le> b_amount x"
  by (induction ds) auto

lemma descending_hd: "descending ds \<Longrightarrow> x \<in> set ds \<Longrightarrow> b_amount x \<le> b_amount (hd ds)"
  by (cases ds) auto

lemma descending_butlast: "descending ds \<Longrightarrow> descending (butlast ds)"
  by (metis append_butlast_last_id butlast.simps(1) descending_append)

lemma descending_tl: "descending ds \<Longrightarrow> descending (tl ds)"
  by (cases ds) auto

lemma lowest_eq_last: "ds_delegations self \<noteq> [] \<Longrightarrow>
    lowest_delegation_amount self = b_amount (last (ds_delegations self))"
  by (simp add: lowest_delegation_amount_def split: list.split)

lemma highest_eq_hd: "ds_delegations self \<noteq> [] \<Longrightarrow>
    highest_delegation_amount self = b_amount (hd (ds_delegations self))"
  by (simp add: highest_delegation_amount_def split: list.split)

lemma lowest_highest_Nil [simp]:
  "ds_delegations self = [] \<Longrightarrow> lowest_delegation_amount self = 0"
  "ds_delegations self = [] \<Longrightarrow> highest_delegation_amount self = 0"
  by (simp_all add: lowest_delegation_amount_def highest_delegation_amount_def)

lemma lowest_le: "descending (ds_delegations self) \<Longrightarrow> x \<in> set (ds_delegations self) \<Longrightarrow>
    lowest_delegation_amount self \<le> b_amount x"
  by (cases "ds_delegations self = []") (auto simp: lowest_eq_last descending_last)

lemma highest_ge: "descending (ds_delegations self) \<Longrightarrow> x \<in> set (ds_delegations self) \<Longrightarrow>
    b_amount x \<le> highest_delegation_amount self"
  by (cases "ds_delegations self = []") (auto simp: highest_eq_hd descending_hd)

section \<open>Sorting\<close>

lemma sort_props [simp]:
  "descending (ds_delegations (sort_greatest_to_least self))"
  "mset (ds_delegations (sort_greatest_to_least self)) = mset (ds_delegations self)"
  "set (ds_delegations (sort_greatest_to_least self)) = set (ds_delegations self)"
  "length (ds_delegations (sort_greatest_to_least self)) = length (ds_delegations self)"
  "ds_total (sort_greatest_to_least self) = ds_total self"
proof -
  have "sorted (map (\<lambda>x. - int (b_amount x)) (ds_delegations (sort_greatest_to_least self)))"
    by (simp add: sort_greatest_to_least_def)
  then show "descending (ds_delegations (sort_greatest_to_least self))"
    by (simp add: descending_def sorted_wrt_map)
qed (simp_all add: sort_greatest_to_least_def)

section \<open>Insertion\<close>

text \<open>The reference: behind every bond of at least this amount.\<close>

definition stable_insert :: "Bond \<Rightarrow> Bond list \<Rightarrow> Bond list" where
  "stable_insert d ds =
     takeWhile (\<lambda>x. b_amount d \<le> b_amount x) ds @ d # dropWhile (\<lambda>x. b_amount d \<le> b_amount x) ds"

lemma stable_insert_split:
  assumes "\<forall>x \<in> set ys. b_amount d \<le> b_amount x" and "\<forall>x \<in> set zs. b_amount x < b_amount d"
  shows "stable_insert d (ys @ zs) = ys @ d # zs"
proof -
  have "takeWhile (\<lambda>x. b_amount d \<le> b_amount x) (ys @ zs) = ys"
    using assms by (cases zs) (auto simp: takeWhile_append)
  moreover have "dropWhile (\<lambda>x. b_amount d \<le> b_amount x) (ys @ zs) = zs"
    using assms by (cases zs) (auto simp: dropWhile_append)
  ultimately show ?thesis by (simp add: stable_insert_def)
qed

lemma insert_after_equals_stable:
  assumes "descending ds" and "ds \<noteq> []" and "i \<le> length ds"
    and "\<forall>x \<in> set (take i ds). b_amount d \<le> b_amount x"
    and "\<forall>j < length ds. i \<le> j \<longrightarrow> b_amount (ds ! j) \<le> b_amount d"
  shows "insert_after_equals d i ds = stable_insert d ds"
  using assms(3-5)
proof (induction "length ds - i" arbitrary: i)
  case 0
  then have "i = length ds" by simp
  moreover from this have "\<not> i \<le> length ds - 1" using assms(2) by (cases ds) auto
  ultimately show ?case
    using "0.prems" stable_insert_split [of ds d "[]"]
    by (simp add: insert_after_equals.simps [of d "length ds" ds])
next
  case (Suc n)
  then have i: "i < length ds" by simp
  show ?case
  proof (cases "b_amount (ds ! i) = b_amount d")
    case True
    have "insert_after_equals d (Suc i) ds = stable_insert d ds"
      using Suc True i by (intro Suc.hyps(1)) (auto simp: take_Suc_conv_app_nth)
    moreover have "i \<le> length ds - 1" using i by linarith
    ultimately show ?thesis using True by (simp add: insert_after_equals.simps [of d i ds])
  next
    case False
    have "b_amount x < b_amount d" if x: "x \<in> set (drop i ds)" for x
    proof -
      from x obtain k where "k < length (drop i ds)" "x = drop i ds ! k"
        by (metis in_set_conv_nth)
      then obtain j where j: "i \<le> j" "j < length ds" "x = ds ! j"
        using i by (intro that [of "i + k"]) auto
      have "b_amount (ds ! j) \<le> b_amount (ds ! i)" using assms(1) j by (simp add: descending_nth)
      moreover have "b_amount (ds ! i) < b_amount d" using Suc.prems(3) i False by force
      ultimately show ?thesis using j(3) by simp
    qed
    then have "stable_insert d (take i ds @ drop i ds) = take i ds @ d # drop i ds"
      using Suc.prems(2) by (intro stable_insert_split) auto
    with False i show ?thesis
      by (simp add: insert_after_equals.simps [of d i ds] vec_insert_def)
  qed
qed

lemma descending_search:
  assumes "descending ds"
  shows "sorted (map (\<lambda>x. cmp (a::nat) (b_amount x)) ds)"
  using assms
proof (induction ds)
  case Nil
  then show ?case by simp
next
  case (Cons x ds)
  have "cmp a (b_amount x) \<le> cmp a (b_amount y)" if "y \<in> set ds" for y
    using Cons.prems that by (fastforce simp: cmp_def)
  with Cons show ?case by auto
qed

lemma insert_sorted_eq:
  assumes "descending (ds_delegations self)"
  shows "insert_sorted_greatest_to_least d self =
    self\<lparr>ds_delegations := stable_insert d (ds_delegations self),
         ds_total := sat_add_u128 (ds_total self) (b_amount d)\<rparr>"
proof -
  let ?ds = "ds_delegations self"
  let ?f = "\<lambda>x. cmp (b_amount d) (b_amount x)"
  show ?thesis
  proof (cases "?ds \<noteq> [] \<and> b_amount (?ds ! (length ?ds - 1)) = b_amount d")
    case True
    then have "b_amount (last ?ds) = b_amount d" by (simp add: last_conv_nth)
    then have "\<forall>x \<in> set ?ds. b_amount d \<le> b_amount x"
      using descending_last [OF assms] by fastforce
    then have "stable_insert d (?ds @ []) = ?ds @ [d]" by (intro stable_insert_split) auto
    with True show ?thesis by (simp add: insert_sorted_greatest_to_least_def)
  next
    case False
    show ?thesis
    proof (cases "binary_search_by ?f ?ds")
      case (Inl i)
      from binary_search_by_missing [OF descending_search [OF assms] Inl]
      have "stable_insert d (take i ?ds @ drop i ?ds) = take i ?ds @ d # drop i ?ds"
        by (intro stable_insert_split) (auto simp: less_imp_le)
      with False Inl show ?thesis
        by (auto simp: insert_sorted_greatest_to_least_def vec_insert_def Let_def)
    next
      case (Inr i)
      from binary_search_by_found [OF descending_search [OF assms] Inr]
      have i: "i < length ?ds" "b_amount d = b_amount (?ds ! i)" by auto
      have "insert_after_equals d (Suc i) ?ds = stable_insert d ?ds"
        using i assms by (intro insert_after_equals_stable)
          (auto simp: in_set_conv_nth intro!: descending_nth)
      with False Inr show ?thesis
        by (auto simp: insert_sorted_greatest_to_least_def Let_def)
    qed
  qed
qed

lemma mset_stable_insert [simp]: "mset (stable_insert d ds) = add_mset d (mset ds)"
proof -
  have "mset (takeWhile P ds) + mset (dropWhile P ds) = mset ds" for P
    by (metis mset_append takeWhile_dropWhile_id)
  then show ?thesis by (simp add: stable_insert_def)
qed

lemma set_stable_insert [simp]: "set (stable_insert d ds) = insert d (set ds)"
  by (metis mset_stable_insert set_mset_add_mset_insert set_mset_mset)

lemma length_stable_insert [simp]: "length (stable_insert d ds) = Suc (length ds)"
  by (metis mset_stable_insert size_add_mset size_mset)

lemma stable_insert_not_Nil [simp]: "stable_insert d ds \<noteq> []"
  by (simp add: stable_insert_def)

lemma descending_stable_insert [simp]:
  assumes "descending ds"
  shows "descending (stable_insert d ds)"
proof -
  let ?P = "\<lambda>x. b_amount d \<le> b_amount x"
  have split: "descending (takeWhile ?P ds @ dropWhile ?P ds)" using assms by simp
  have low: "b_amount y < b_amount d" if y: "y \<in> set (dropWhile ?P ds)" for y
  proof -
    from y have "dropWhile ?P ds \<noteq> []" by force
    then obtain z zs where z: "dropWhile ?P ds = z # zs" by (meson neq_Nil_conv)
    then have "\<not> ?P z" by (metis hd_dropWhile list.distinct(1) list.sel(1))
    moreover have "b_amount y \<le> b_amount z" using split [unfolded descending_append] y z by auto
    ultimately show ?thesis by simp
  qed
  show ?thesis
    using split [unfolded descending_append] low
    by (auto simp: stable_insert_def less_imp_le dest: set_takeWhileD)
qed

lemma amounts_stable_insert [simp]: "amounts (stable_insert d ds) = b_amount d + amounts ds"
  using sum_list_mset_eq [of "stable_insert d ds" "d # ds" b_amount] by simp

section \<open>Removing and updating the bond of one delegator\<close>

abbreviation without :: "AccountId \<Rightarrow> Bond list \<Rightarrow> Bond list" where
  "without d ds \<equiv> filter (\<lambda>x. b_owner x \<noteq> d) ds"

definition adjust_bond :: "AccountId \<Rightarrow> (Balance \<Rightarrow> Balance) \<Rightarrow> Bond list \<Rightarrow> Bond list" where
  "adjust_bond d f ds =
     map (\<lambda>x. if b_owner x \<noteq> d then x else x\<lparr>b_amount := f (b_amount x)\<rparr>) ds"

definition find_bond :: "AccountId \<Rightarrow> Bond list \<Rightarrow> Bond option" where
  "find_bond d ds = find (\<lambda>x. b_owner x = d) (rev ds)"

lemma without_fresh [simp]: "d \<notin> owners ds \<Longrightarrow> without d ds = ds"
  by (auto simp: filter_id_conv)

lemma mset_without:
  assumes "distinct (map b_owner ds)" and "x \<in> set ds"
  shows "mset ds = add_mset x (mset (without (b_owner x) ds))"
  using assms
proof (induction ds)
  case Nil
  then show ?case by simp
next
  case (Cons y ds)
  show ?case
  proof (cases "y = x")
    case True
    with Cons.prems have "x \<notin> set ds" "b_owner x \<notin> owners ds" by auto
    with True show ?thesis by simp
  next
    case False
    with Cons.prems have "x \<in> set ds" "b_owner y \<noteq> b_owner x" by auto
    with Cons show ?thesis by simp
  qed
qed

lemma adjust_bond_fresh [simp]: "d \<notin> owners ds \<Longrightarrow> adjust_bond d f ds = ds"
  by (induction ds) (auto simp: adjust_bond_def)

lemma owners_adjust_bond [simp]: "map b_owner (adjust_bond d f ds) = map b_owner ds"
  by (simp add: adjust_bond_def)

lemma length_adjust_bond [simp]: "length (adjust_bond d f ds) = length ds"
  by (simp add: adjust_bond_def)

lemma mset_adjust_bond:
  assumes "distinct (map b_owner ds)" and "x \<in> set ds"
  shows "mset (adjust_bond (b_owner x) f ds) =
    add_mset (x\<lparr>b_amount := f (b_amount x)\<rparr>) (mset (without (b_owner x) ds))"
  using assms
proof (induction ds)
  case Nil
  then show ?case by simp
next
  case (Cons y ds)
  show ?case
  proof (cases "y = x")
    case True
    with Cons.prems have "b_owner x \<notin> owners ds" by auto
    with True show ?thesis using adjust_bond_fresh [of "b_owner x" ds f]
      by (simp add: adjust_bond_def)
  next
    case False
    with Cons.prems have "x \<in> set ds" "b_owner y \<noteq> b_owner x" by auto
    with Cons show ?thesis by (simp add: adjust_bond_def)
  qed
qed

lemma find_bond_Some:
  assumes "distinct (map b_owner ds)" and "x \<in> set ds"
  shows "find_bond (b_owner x) ds = Some x"
proof -
  have "find (\<lambda>y. b_owner y = b_owner x) (rev ds) = Some x"
    using assms by (induction ds rule: rev_induct) auto
  then show ?thesis by (simp add: find_bond_def)
qed

lemma find_bond_None [simp]: "find_bond d ds = None \<longleftrightarrow> d \<notin> owners ds"
  by (auto simp: find_bond_def find_None_iff)

lemma find_bond_SomeD: "find_bond d ds = Some x \<Longrightarrow> x \<in> set ds \<and> b_owner x = d"
  by (auto simp: find_bond_def find_Some_iff) (metis length_rev nth_mem set_rev)

end
