(* ===== verification/Delegators.thy ===== *)
theory Delegators
  imports Delegation_Lists
begin

text \<open>
  What belongs to one delegator: the \<open>Delegator\<close> type of \<open>types.rs\<close> with its currency lock,
  the scheduled requests of \<open>delegation_requests.rs\<close> seen from the delegator's state, and
  the auto-compounding configurations of \<open>auto_compound.rs\<close>.
\<close>

section \<open>Stakable balances\<close>

definition get_delegator_stakable_balance :: "'w config \<Rightarrow> AccountId \<Rightarrow> 'w staking \<Rightarrow> Balance" where
  "get_delegator_stakable_balance cfg acc s =
     (let stakable_balance =
        sat_add_u128 (free_balance cfg (world s) acc) (reserved_balance cfg (world s) acc)
      in case DelegatorState s acc of
           Some state \<Rightarrow> stakable_balance - d_total state
         | None \<Rightarrow> stakable_balance)"

definition get_collator_stakable_free_balance :: "'w config \<Rightarrow> AccountId \<Rightarrow> 'w staking \<Rightarrow> Balance" where
  "get_collator_stakable_free_balance cfg acc s =
     (let balance = free_balance cfg (world s) acc
      in case CandidateInfo s acc of
           Some info \<Rightarrow> balance - cm_bond info
         | None \<Rightarrow> balance)"

section \<open>The delegator\<close>

definition delegator_new :: "AccountId \<Rightarrow> AccountId \<Rightarrow> Balance \<Rightarrow> Delegator" where
  "delegator_new id' collator amount =
     \<lparr>d_id = id',
      d_delegations = ordered_set_from b_owner [\<lparr>b_owner = collator, b_amount = amount\<rparr>],
      d_total = amount, d_less_total = 0, d_status = DelegatorActive\<rparr>"

definition default_with_total :: "AccountId \<Rightarrow> Balance \<Rightarrow> Delegator" where
  "default_with_total id' amount =
     \<lparr>d_id = id', d_delegations = ordered_set_from b_owner [], d_total = amount,
      d_less_total = 0, d_status = DelegatorActive\<rparr>"

definition delegator_is_active :: "Delegator \<Rightarrow> bool" where
  "delegator_is_active self =
     (case d_status self of DelegatorActive \<Rightarrow> True | DelegatorLeaving _ \<Rightarrow> False)"

text \<open>The lock follows the delegator's total; an increase must be covered by free funds.\<close>

definition adjust_bond_lock :: "'w config \<Rightarrow> Delegator \<Rightarrow> BondAdjust \<Rightarrow> ('w, unit) staking_m" where
  "adjust_bond_lock cfg self additional_required_balance =
     then_m
       (case additional_required_balance of
          BondIncrease amount \<Rightarrow>
            bind_m (gets_m (get_delegator_stakable_balance cfg (d_id self))) (\<lambda>stakable.
            then_m (ensure (stakable \<ge> amount) InsufficientBalance)
              (if amount > d_total self
               then fail_m (OtherError ''Invalid additional_required_balance'')
               else return_m ()))
        | BondDecrease \<Rightarrow> return_m ())
       (if d_total self = 0
        then on_world (remove_lock cfg DELEGATOR_LOCK_ID (d_id self))
        else on_world (set_lock cfg DELEGATOR_LOCK_ID (d_id self) (d_total self)))"

definition total_sub_if ::
  "'w config \<Rightarrow> Balance \<Rightarrow> (Balance \<Rightarrow> ('w, unit) staking_m) \<Rightarrow> Delegator \<Rightarrow> ('w, Delegator) staking_m"
  where
  "total_sub_if cfg amount check self =
     (let total = d_total self - amount
      in then_m (check total)
           (let self = self\<lparr>d_total := total\<rparr>
            in then_m (adjust_bond_lock cfg self BondDecrease) (return_m self)))"

definition total_add :: "'w config \<Rightarrow> Balance \<Rightarrow> Delegator \<Rightarrow> ('w, Delegator) staking_m" where
  "total_add cfg amount self =
     (let self = self\<lparr>d_total := sat_add_u128 (d_total self) amount\<rparr>
      in then_m (adjust_bond_lock cfg self (BondIncrease amount)) (return_m self))"

definition total_sub :: "'w config \<Rightarrow> Balance \<Rightarrow> Delegator \<Rightarrow> ('w, Delegator) staking_m" where
  "total_sub cfg amount self =
     (let self = self\<lparr>d_total := d_total self - amount\<rparr>
      in then_m (adjust_bond_lock cfg self BondDecrease) (return_m self))"

definition delegator_add_delegation :: "Bond \<Rightarrow> Delegator \<Rightarrow> bool \<times> Delegator" where
  "delegator_add_delegation bond self =
     (case ordered_set_insert b_owner bond (d_delegations self) of
        (True, ds) \<Rightarrow>
          (True, self\<lparr>d_delegations := ds, d_total := sat_add_u128 (d_total self) (b_amount bond)\<rparr>)
      | (False, _) \<Rightarrow> (False, self))"

text \<open>The amount found is that of the last match, as the closure overwrites it.\<close>

definition delegator_rm_delegation ::
  "'w config \<Rightarrow> AccountId \<Rightarrow> Delegator \<Rightarrow> ('w, Delegator \<times> Balance option) staking_m" where
  "delegator_rm_delegation cfg collator self =
     (case find_bond collator (d_delegations self) of
        Some bond \<Rightarrow>
          bind_m (expect_ok_m (total_sub cfg (b_amount bond)
            (self\<lparr>d_delegations := ordered_set_from b_owner (without collator (d_delegations self))\<rparr>)))
          (\<lambda>self. return_m (self, Some (d_total self)))
      | None \<Rightarrow> return_m (self, None))"

definition get_bond_amount :: "AccountId \<Rightarrow> Delegator \<Rightarrow> Balance option" where
  "get_bond_amount collator self =
     map_option b_amount (find (\<lambda>b. b_owner b = collator) (d_delegations self))"

section \<open>Scheduled requests\<close>

definition cancel_request_with_state ::
  "AccountId \<Rightarrow> Delegator \<Rightarrow> ScheduledRequest list
    \<Rightarrow> (ScheduledRequest \<times> Delegator \<times> ScheduledRequest list) option" where
  "cancel_request_with_state delegator state scheduled_requests =
     (case position (\<lambda>req. sr_delegator req = delegator) scheduled_requests of
        None \<Rightarrow> None
      | Some request_idx \<Rightarrow>
          (let request = scheduled_requests ! request_idx;
               amount = action_amount (sr_action request)
           in Some (request, state\<lparr>d_less_total := d_less_total state - amount\<rparr>,
                vec_remove request_idx scheduled_requests)))"

definition delegation_remove_request_with_state ::
  "AccountId \<Rightarrow> AccountId \<Rightarrow> Delegator \<Rightarrow> ('w, Delegator) staking_m" where
  "delegation_remove_request_with_state collator delegator state =
     bind_m (gets_m (\<lambda>s. DelegationScheduledRequests s collator)) (\<lambda>scheduled_requests.
     (case position (\<lambda>req. sr_delegator req = delegator) scheduled_requests of
        Some request_idx \<Rightarrow>
          (let amount = action_amount (sr_action (scheduled_requests ! request_idx))
           in then_m (put_scheduled_requests collator (vec_remove request_idx scheduled_requests))
                (return_m (state\<lparr>d_less_total := d_less_total state - amount\<rparr>)))
      | None \<Rightarrow> return_m state))"

definition delegation_request_exists :: "AccountId \<Rightarrow> AccountId \<Rightarrow> 'w staking \<Rightarrow> bool" where
  "delegation_request_exists collator delegator s =
     list_ex (\<lambda>req. sr_delegator req = delegator) (DelegationScheduledRequests s collator)"

definition delegation_request_revoke_exists :: "AccountId \<Rightarrow> AccountId \<Rightarrow> 'w staking \<Rightarrow> bool" where
  "delegation_request_revoke_exists collator delegator s =
     list_ex (\<lambda>req. sr_delegator req = delegator \<and> is_revoke (sr_action req))
       (DelegationScheduledRequests s collator)"

section \<open>Auto-compounding configurations\<close>

text \<open>\<open>AddGet\<close>: the bound of the vectors that hold one entry per delegation.\<close>

definition add_get :: "'p params_scheme \<Rightarrow> nat" where
  "add_get cfg =
     wrap_add_u32 (MaxTopDelegationsPerCandidate cfg) (MaxBottomDelegationsPerCandidate cfg)"

definition get_auto_compounding_delegation_count :: "AccountId \<Rightarrow> 'w staking \<Rightarrow> nat" where
  "get_auto_compounding_delegation_count candidate s = length (AutoCompoundingDelegations s candidate)"

definition get_for_delegator :: "AccountId \<Rightarrow> AutoCompoundConfig list \<Rightarrow> Percent option" where
  "get_for_delegator delegator self =
     (case binary_search_by (\<lambda>d. cmp (ac_delegator d) delegator) self of
        Inr index \<Rightarrow> Some (ac_value (self ! index))
      | Inl _ \<Rightarrow> None)"

definition set_for_delegator ::
  "'p params_scheme \<Rightarrow> AccountId \<Rightarrow> Percent \<Rightarrow> AutoCompoundConfig list
    \<Rightarrow> staking_error + bool \<times> AutoCompoundConfig list" where
  "set_for_delegator cfg delegator value self =
     (case binary_search_by (\<lambda>d. cmp (ac_delegator d) delegator) self of
        Inr index \<Rightarrow>
          if ac_value (self ! index) = value then Inr (False, self)
          else Inr (True, self[index := (self ! index)\<lparr>ac_value := value\<rparr>])
      | Inl index \<Rightarrow>
          if length self < add_get cfg
          then Inr (True, vec_insert index \<lparr>ac_delegator = delegator, ac_value = value\<rparr> self)
          else Inl ExceedMaxDelegationsPerDelegator)"

definition remove_for_delegator ::
  "AccountId \<Rightarrow> AutoCompoundConfig list \<Rightarrow> bool \<times> AutoCompoundConfig list" where
  "remove_for_delegator delegator self =
     (case binary_search_by (\<lambda>d. cmp (ac_delegator d) delegator) self of
        Inr index \<Rightarrow> (True, vec_remove index self)
      | Inl _ \<Rightarrow> (False, self))"

definition auto_compound_len :: "AutoCompoundConfig list \<Rightarrow> nat" where
  "auto_compound_len self = as_u32 (length self)"

definition remove_auto_compound :: "AccountId \<Rightarrow> AccountId \<Rightarrow> ('w, unit) staking_m" where
  "remove_auto_compound candidate delegator =
     bind_m (gets_m (\<lambda>s. AutoCompoundingDelegations s candidate)) (\<lambda>auto_compounding_state.
     (case remove_for_delegator delegator auto_compounding_state of
        (True, auto_compounding_state) \<Rightarrow> put_auto_compounding candidate auto_compounding_state
      | (False, _) \<Rightarrow> return_m ()))"

definition auto_compound :: "AccountId \<Rightarrow> AccountId \<Rightarrow> 'w staking \<Rightarrow> Percent" where
  "auto_compound candidate delegator s =
     (case get_for_delegator delegator (AutoCompoundingDelegations s candidate) of
        Some value \<Rightarrow> value
      | None \<Rightarrow> 0)"

definition delegation_auto_compound :: "AccountId \<Rightarrow> AccountId \<Rightarrow> 'w staking \<Rightarrow> Percent" where
  "delegation_auto_compound candidate delegator s = auto_compound candidate delegator s"

section \<open>The delegator's invariant\<close>

text \<open>Delegations strictly ordered by candidate, and a total that is their sum.\<close>

definition delegator_ok :: "Delegator \<Rightarrow> bool" where
  "delegator_ok st \<longleftrightarrow>
     key_sorted b_owner (d_delegations st) \<and> d_total st = amounts (d_delegations st)"

lemma delegator_new_ok: "delegator_ok (delegator_new d c a)"
  by (simp add: delegator_ok_def delegator_new_def ordered_set_from_def)

lemma delegator_add_ok:
  assumes "delegator_ok st" and "d_total st + b_amount b \<le> u128_max"
    and "delegator_add_delegation b st = (True, st')"
  shows "delegator_ok st'" and "set (d_delegations st') = insert b (set (d_delegations st))"
    and "b_owner b \<notin> owners (d_delegations st)" and "d_id st' = d_id st"
    and "d_total st' = d_total st + b_amount b" and "d_less_total st' = d_less_total st"
proof -
  have ks: "key_sorted b_owner (d_delegations st)" using assms(1) by (simp add: delegator_ok_def)
  show fresh: "b_owner b \<notin> owners (d_delegations st)"
    using assms(3) set_insert_present [OF ks, of b]
    by (auto simp: delegator_add_delegation_def)
  then obtain ys zs where split: "d_delegations st = ys @ zs"
    "ordered_set_insert b_owner b (d_delegations st) = (True, ys @ b # zs)"
    "key_sorted b_owner (ys @ b # zs)"
    using set_insert_fresh [OF ks] by blast
  then have st': "st' = st\<lparr>d_delegations := ys @ b # zs, d_total := d_total st + b_amount b\<rparr>"
    using assms(2,3) by (simp add: delegator_add_delegation_def sat_add_u128_exact)
  with split assms(1) show "delegator_ok st'" "set (d_delegations st') = insert b (set (d_delegations st))"
    "d_id st' = d_id st" "d_total st' = d_total st + b_amount b" "d_less_total st' = d_less_total st"
    by (auto simp: delegator_ok_def)
qed

lemma delegator_find_bond:
  assumes "delegator_ok st"
  shows "find_bond c (d_delegations st) = by_key b_owner (d_delegations st) c"
    and "get_bond_amount c st = map_option b_amount (by_key b_owner (d_delegations st) c)"
proof -
  have dist: "distinct (map b_owner (d_delegations st))"
    using assms by (simp add: delegator_ok_def key_sorted_distinct)
  show "find_bond c (d_delegations st) = by_key b_owner (d_delegations st) c"
  proof (cases "find_bond c (d_delegations st)")
    case None
    then show ?thesis by (simp add: by_key_None_iff [symmetric])
  next
    case (Some x)
    with find_bond_SomeD [OF this] show ?thesis
      by (simp add: by_key_Some_iff [OF dist, symmetric])
  qed
  have "find (\<lambda>b. b_owner b = c) ds = by_key b_owner ds c" for ds :: "Bond list"
    by (induction ds) auto
  then show "get_bond_amount c st = map_option b_amount (by_key b_owner (d_delegations st) c)"
    by (simp add: get_bond_amount_def)
qed

text \<open>The world after the lock of a delegator has been brought in line with its total.\<close>

definition relock :: "'w config \<Rightarrow> Delegator \<Rightarrow> 'w \<Rightarrow> 'w" where
  "relock cfg st =
     (if d_total st = 0 then remove_lock cfg DELEGATOR_LOCK_ID (d_id st)
      else set_lock cfg DELEGATOR_LOCK_ID (d_id st) (d_total st))"

lemma wp_adjust_bond_lock_decrease [wp_simps]:
  "wp (adjust_bond_lock cfg st BondDecrease) Q E s = Q () (s\<lparr>world := relock cfg st (world s)\<rparr>)"
  by (simp add: adjust_bond_lock_def relock_def wp_simps)

lemma wp_adjust_bond_lock_increase [wp_simps]:
  "wp (adjust_bond_lock cfg st (BondIncrease a)) Q E s =
    (if get_delegator_stakable_balance cfg (d_id st) s < a then E (Module InsufficientBalance) s
     else if d_total st < a then E (OtherError ''Invalid additional_required_balance'') s
     else Q () (s\<lparr>world := relock cfg st (world s)\<rparr>))"
  by (simp add: adjust_bond_lock_def relock_def wp_simps not_le)

lemma wp_total_sub [wp_simps]:
  "wp (total_sub cfg a st) Q E s =
    Q (st\<lparr>d_total := d_total st - a\<rparr>)
      (s\<lparr>world := relock cfg (st\<lparr>d_total := d_total st - a\<rparr>) (world s)\<rparr>)"
  by (simp add: total_sub_def wp_simps Let_def)

definition drop_bond :: "Bond \<Rightarrow> Delegator \<Rightarrow> Delegator" where
  "drop_bond b st = st\<lparr>d_delegations := without (b_owner b) (d_delegations st),
     d_total := d_total st - b_amount b\<rparr>"

lemma drop_bond_ok:
  assumes "delegator_ok st" and "b \<in> set (d_delegations st)"
  shows "delegator_ok (drop_bond b st)"
proof -
  have "amounts (d_delegations st) = b_amount b + amounts (without (b_owner b) (d_delegations st))"
    using assms sum_list_filter_remove1 [of b_owner "d_delegations st" b b_amount]
    by (simp add: delegator_ok_def key_sorted_distinct)
  with assms show ?thesis by (simp add: delegator_ok_def drop_bond_def key_sorted_filter)
qed

lemma wp_delegator_rm_delegation:
  assumes "delegator_ok st"
  shows "wp (delegator_rm_delegation cfg c st) Q E s =
    (case by_key b_owner (d_delegations st) c of
       None \<Rightarrow> Q (st, None) s
     | Some b \<Rightarrow> Q (drop_bond b st, Some (d_total st - b_amount b))
         (s\<lparr>world := relock cfg (drop_bond b st) (world s)\<rparr>))"
proof -
  have "ordered_set_from b_owner (without c (d_delegations st)) = without c (d_delegations st)"
    using assms by (simp add: delegator_ok_def key_sorted_filter ordered_set_from_id)
  moreover have "b_owner b = c" if "by_key b_owner (d_delegations st) c = Some b" for b
    using that assms by (simp add: delegator_ok_def key_sorted_distinct by_key_Some_iff)
  ultimately show ?thesis
    by (auto simp: delegator_rm_delegation_def wp_simps delegator_find_bond [OF assms]
        drop_bond_def split: option.split)
qed

section \<open>Requests of one collator\<close>

text \<open>At most one request per delegator.\<close>

definition requests_ok :: "ScheduledRequest list \<Rightarrow> bool" where
  "requests_ok rs \<longleftrightarrow> distinct (map sr_delegator rs)"

definition request_of :: "AccountId \<Rightarrow> ScheduledRequest list \<Rightarrow> ScheduledRequest option" where
  "request_of d rs = find (\<lambda>req. sr_delegator req = d) rs"

definition request_amount :: "AccountId \<Rightarrow> ScheduledRequest list \<Rightarrow> Balance" where
  "request_amount d rs =
     (case request_of d rs of None \<Rightarrow> 0 | Some req \<Rightarrow> action_amount (sr_action req))"

lemma position_request:
  assumes "requests_ok rs"
  shows "case position (\<lambda>req. sr_delegator req = d) rs of
      None \<Rightarrow> request_of d rs = None \<and> d \<notin> sr_delegator ` set rs
    | Some i \<Rightarrow> i < length rs \<and> request_of d rs = Some (rs ! i)
        \<and> vec_remove i rs = filter (\<lambda>req. sr_delegator req \<noteq> d) rs"
  using assms
proof (induction rs)
  case Nil
  then show ?case by (simp add: request_of_def)
next
  case (Cons r rs)
  have "requests_ok rs" using Cons.prems by (simp add: requests_ok_def)
  note IH = Cons.IH [OF this]
  show ?case
  proof (cases "sr_delegator r = d")
    case True
    with Cons.prems have "\<forall>x \<in> set rs. sr_delegator x \<noteq> d"
      by (metis distinct.simps(2) image_eqI list.set_map list.simps(9) requests_ok_def)
    then have "filter (\<lambda>req. sr_delegator req \<noteq> d) rs = rs" by (simp add: filter_id_conv)
    with True show ?thesis by (simp add: request_of_def vec_remove_def)
  next
    case False
    with IH show ?thesis
      by (auto simp: request_of_def vec_remove_def split: option.splits)
  qed
qed

lemma cancel_request_eq:
  assumes "requests_ok rs"
  shows "cancel_request_with_state d st rs =
    (case request_of d rs of
       None \<Rightarrow> None
     | Some req \<Rightarrow> Some (req, st\<lparr>d_less_total := d_less_total st - action_amount (sr_action req)\<rparr>,
         filter (\<lambda>req. sr_delegator req \<noteq> d) rs))"
  using position_request [OF assms, of d]
  by (auto simp: cancel_request_with_state_def Let_def split: option.splits)

lemma request_of_SomeD: "request_of d rs = Some req \<Longrightarrow> req \<in> set rs \<and> sr_delegator req = d"
  by (auto simp: request_of_def find_Some_iff)

lemma request_of_None_iff: "request_of d rs = None \<longleftrightarrow> d \<notin> sr_delegator ` set rs"
  by (auto simp: request_of_def find_None_iff)

lemma request_of_filter_other:
  "request_of e (filter (\<lambda>req. sr_delegator req \<noteq> d) rs) =
    (if e = d then None else request_of e rs)"
  by (induction rs) (auto simp: request_of_def find_None_iff)

lemma requests_ok_filter: "requests_ok rs \<Longrightarrow> requests_ok (filter P rs)"
  by (simp add: requests_ok_def distinct_map_filter)

lemma wp_remove_request:
  assumes "requests_ok (DelegationScheduledRequests s c)"
  shows "wp (delegation_remove_request_with_state c d st) Q E s =
    Q (st\<lparr>d_less_total := d_less_total st - request_amount d (DelegationScheduledRequests s c)\<rparr>)
      (s\<lparr>DelegationScheduledRequests := (DelegationScheduledRequests s)
           (c := filter (\<lambda>req. sr_delegator req \<noteq> d) (DelegationScheduledRequests s c))\<rparr>)"
proof (cases "position (\<lambda>req. sr_delegator req = d) (DelegationScheduledRequests s c)")
  case None
  with position_request [OF assms, of d]
  have "request_of d (DelegationScheduledRequests s c) = None"
    "filter (\<lambda>req. sr_delegator req \<noteq> d) (DelegationScheduledRequests s c)
      = DelegationScheduledRequests s c"
    by (force simp: filter_id_conv)+
  with None show ?thesis
    by (simp add: delegation_remove_request_with_state_def wp_simps request_amount_def)
next
  case (Some i)
  with position_request [OF assms, of d] show ?thesis
    by (simp add: delegation_remove_request_with_state_def wp_simps request_amount_def Let_def)
qed

section \<open>Auto-compounding as a map\<close>

lemma config_search: "binary_search_by (\<lambda>d. cmp (ac_delegator d) k) xs = set_search ac_delegator k xs"
  by (simp add: set_search_def)

lemma get_for_delegator_eq:
  assumes "key_sorted ac_delegator xs"
  shows "get_for_delegator k xs = map_option ac_value (by_key ac_delegator xs k)"
  using assms
proof (rule set_search_cases [of ac_delegator xs k])
  fix ys x zs
  assume eq: "xs = ys @ x # zs" "ac_delegator x = k" "set_search ac_delegator k xs = Inr (length ys)"
  then have "by_key ac_delegator xs k = Some x"
    using by_key_Some_iff [OF key_sorted_distinct [OF assms]] by simp
  with eq show ?thesis by (simp add: get_for_delegator_def config_search)
next
  fix ys zs
  assume eq: "xs = ys @ zs" "\<forall>x \<in> set ys. ac_delegator x < k" "\<forall>x \<in> set zs. k < ac_delegator x"
    "set_search ac_delegator k xs = Inl (length ys)"
  then have "by_key ac_delegator xs k = None" by (force simp: by_key_None_iff)
  with eq show ?thesis by (simp add: get_for_delegator_def config_search)
qed

lemma remove_for_delegator_eq:
  "key_sorted ac_delegator xs \<Longrightarrow> remove_for_delegator k xs =
    (k \<in> ac_delegator ` set xs, filter (\<lambda>x. ac_delegator x \<noteq> k) xs)"
  using set_remove_filter [of ac_delegator xs k]
  by (simp add: remove_for_delegator_def ordered_set_remove_def config_search)

text \<open>Writing one entry and keeping the vector, or nothing when the bound refuses it.\<close>

definition auto_compound_put ::
  "'p params_scheme \<Rightarrow> AccountId \<Rightarrow> Percent \<Rightarrow> AutoCompoundConfig list \<Rightarrow> AutoCompoundConfig list option"
  where
  "auto_compound_put cfg k v xs =
     (case set_for_delegator cfg k v xs of Inr (_, ys) \<Rightarrow> Some ys | Inl _ \<Rightarrow> None)"

lemma auto_compound_put_cases:
  assumes "key_sorted ac_delegator xs"
  shows "(k \<in> ac_delegator ` set xs \<longrightarrow> auto_compound_put cfg k v xs \<noteq> None)
    \<and> (\<forall>ys. auto_compound_put cfg k v xs = Some ys \<longrightarrow> key_sorted ac_delegator ys
        \<and> get_for_delegator k ys = Some v
        \<and> (\<forall>k'. k' \<noteq> k \<longrightarrow> get_for_delegator k' ys = get_for_delegator k' xs))"
  using assms
proof (rule set_search_cases [of ac_delegator xs k])
  fix ys x zs
  assume eq: "xs = ys @ x # zs" "ac_delegator x = k" "set_search ac_delegator k xs = Inr (length ys)"
  let ?x = "x\<lparr>ac_value := v\<rparr>"
  have ks: "key_sorted ac_delegator (ys @ ?x # zs)" using assms eq(1) by auto
  have put: "auto_compound_put cfg k v xs = Some (ys @ ?x # zs)"
    using eq(1,3) by (simp add: auto_compound_put_def set_for_delegator_def config_search)
  have mid: "by_key ac_delegator (ys @ y # zs) k' =
      (if k' = k then Some y else by_key ac_delegator (ys @ zs) k')"
    if "ac_delegator y = k" "\<forall>z \<in> set ys. ac_delegator z \<noteq> k" for y k'
    using that by (induction ys) auto
  have ne: "\<forall>z \<in> set ys. ac_delegator z \<noteq> k" using assms eq(1,2) by fastforce
  show ?thesis
    using put ks eq(2) assms unfolding eq(1)
    by (auto simp: get_for_delegator_eq mid [OF _ ne])
next
  fix ys zs
  assume eq: "xs = ys @ zs" "\<forall>x \<in> set ys. ac_delegator x < k" "\<forall>x \<in> set zs. k < ac_delegator x"
    "set_search ac_delegator k xs = Inl (length ys)"
  let ?x = "\<lparr>ac_delegator = k, ac_value = v\<rparr>"
  have put: "auto_compound_put cfg k v xs =
      (if length xs < add_get cfg then Some (ys @ ?x # zs) else None)"
    using eq(1,4) by (simp add: auto_compound_put_def set_for_delegator_def config_search)
  have ks: "key_sorted ac_delegator (ys @ ?x # zs)"
    using assms eq(1,2,3) by (auto intro: less_imp_le)
  have ne: "\<forall>z \<in> set ys. ac_delegator z \<noteq> k" using eq(2) by auto
  have mid: "by_key ac_delegator (ys @ ?x # zs) k' =
      (if k' = k then Some ?x else by_key ac_delegator (ys @ zs) k')" for k'
    using ne by (induction ys) auto
  show ?thesis
    using put ks assms eq(2,3) unfolding eq(1)
    by (auto simp: get_for_delegator_eq mid split: if_splits)
qed

interpretation auto_compounding: keyed_store
  "\<lambda>xs k. get_for_delegator k xs" "auto_compound_put cfg"
  "\<lambda>k xs. snd (remove_for_delegator k xs)" "key_sorted ac_delegator"
proof unfold_locales
  fix s t :: "AutoCompoundConfig list" and k v
  assume inv: "key_sorted ac_delegator s"
  note put = auto_compound_put_cases [OF inv, of k cfg v]
  show "auto_compound_put cfg k v s = Some t \<Longrightarrow>
      (\<lambda>k. get_for_delegator k t) = (\<lambda>k. get_for_delegator k s)(k \<mapsto> v)"
    using put by (auto simp: fun_eq_iff)
  show "auto_compound_put cfg k v s = Some t \<Longrightarrow> key_sorted ac_delegator t"
    using put by blast
  show "get_for_delegator k s \<noteq> None \<Longrightarrow> auto_compound_put cfg k v s \<noteq> None"
    using put inv by (force simp: get_for_delegator_eq by_key_None_iff [symmetric])
  show "key_sorted ac_delegator (snd (remove_for_delegator k s))"
    using inv by (simp add: remove_for_delegator_eq key_sorted_filter)
  show "(\<lambda>k'. get_for_delegator k' (snd (remove_for_delegator k s))) =
      (\<lambda>k. get_for_delegator k s)(k := None)"
    using inv by_key_remove [OF inv, of k]
    by (simp add: remove_for_delegator_eq get_for_delegator_eq key_sorted_filter
        set_remove_filter fun_eq_iff)
qed

lemma wp_remove_auto_compound:
  assumes "key_sorted ac_delegator (AutoCompoundingDelegations s c)"
  shows "wp (remove_auto_compound c d) Q E s =
    Q () (s\<lparr>AutoCompoundingDelegations := (AutoCompoundingDelegations s)
      (c := filter (\<lambda>x. ac_delegator x \<noteq> d) (AutoCompoundingDelegations s c))\<rparr>)"
proof -
  let ?xs = "AutoCompoundingDelegations s c"
  have "filter (\<lambda>x. ac_delegator x \<noteq> d) ?xs = ?xs" if "d \<notin> ac_delegator ` set ?xs"
    using that by (auto simp: filter_id_conv)
  then show ?thesis
    by (simp add: remove_auto_compound_def wp_simps remove_for_delegator_eq [OF assms])
qed

end
