(* ===== verification/Candidates.thy ===== *)
theory Candidates
  imports Delegators
begin

text \<open>
  The \<open>CandidateMetadata\<close> type of \<open>types.rs\<close>: a candidate's self bond, its status and
  pending request, and the bookkeeping of its top and bottom delegations. A method takes the
  metadata \<open>self\<close> and returns it updated; the storage it writes is in the program state.
  A method that fails does so before it changes \<open>self\<close>, so an error carries none.
\<close>

section \<open>The candidate pool\<close>

definition pool_put :: "'p params_scheme \<Rightarrow> AccountId \<Rightarrow> Balance \<Rightarrow> Bond list \<Rightarrow> Bond list option" where
  "pool_put cfg candidate amount candidates =
     (let candidates = snd (bounded_remove b_owner (b_owner (bond_from_owner candidate)) candidates)
      in case bounded_try_insert (MaxCandidates cfg) b_owner
            \<lparr>b_owner = candidate, b_amount = amount\<rparr> candidates of
           Inl _ \<Rightarrow> None
         | Inr (_, candidates) \<Rightarrow> Some candidates)"

definition update_active :: "'w config \<Rightarrow> AccountId \<Rightarrow> Balance \<Rightarrow> ('w, unit) staking_m" where
  "update_active cfg candidate amount =
     bind_m (gets_m CandidatePool) (\<lambda>candidates.
     bind_m (expect_m (pool_put cfg candidate amount candidates)) put_candidate_pool)"

section \<open>Status, exit and self bond\<close>

definition candidate_new :: "Balance \<Rightarrow> CandidateMetadata" where
  "candidate_new bond =
     \<lparr>cm_bond = bond, cm_delegation_count = 0, cm_total_counted = bond,
      cm_lowest_top_delegation_amount = 0, cm_highest_bottom_delegation_amount = 0,
      cm_lowest_bottom_delegation_amount = 0, cm_top_capacity = Empty,
      cm_bottom_capacity = Empty, cm_request = None, cm_status = Active\<rparr>"

definition is_active :: "CandidateMetadata \<Rightarrow> bool" where
  "is_active self = (case cm_status self of Active \<Rightarrow> True | _ \<Rightarrow> False)"

definition is_leaving :: "CandidateMetadata \<Rightarrow> bool" where
  "is_leaving self = (case cm_status self of Leaving _ \<Rightarrow> True | _ \<Rightarrow> False)"

definition schedule_leave ::
  "'w config \<Rightarrow> CandidateMetadata \<Rightarrow> ('w, CandidateMetadata \<times> RoundIndex \<times> RoundIndex) staking_m" where
  "schedule_leave cfg self =
     then_m (ensure (\<not> is_leaving self) CandidateAlreadyLeaving)
     (bind_m (gets_m (\<lambda>s. r_current (Round s))) (\<lambda>now.
      let when' = wrap_add_u32 now (LeaveCandidatesDelay cfg)
      in return_m (self\<lparr>cm_status := Leaving when'\<rparr>, now, when')))"

definition can_leave :: "CandidateMetadata \<Rightarrow> ('w, unit) staking_m" where
  "can_leave self =
     (case cm_status self of
        Leaving when' \<Rightarrow>
          bind_m (gets_m (\<lambda>s. r_current (Round s))) (\<lambda>now.
            ensure (now \<ge> when') CandidateCannotLeaveYet)
      | _ \<Rightarrow> err CandidateNotLeaving)"

definition go_offline :: "CandidateMetadata \<Rightarrow> CandidateMetadata" where
  "go_offline self = self\<lparr>cm_status := Idle\<rparr>"

definition go_online :: "CandidateMetadata \<Rightarrow> CandidateMetadata" where
  "go_online self = self\<lparr>cm_status := Active\<rparr>"

definition bond_more ::
  "'w config \<Rightarrow> AccountId \<Rightarrow> Balance \<Rightarrow> CandidateMetadata \<Rightarrow> ('w, CandidateMetadata) staking_m" where
  "bond_more cfg who more' self =
     bind_m (gets_m (get_collator_stakable_free_balance cfg who)) (\<lambda>stakable.
     then_m (ensure (stakable \<ge> more') InsufficientBalance)
     (bind_m (gets_m Total) (\<lambda>total.
      then_m (put_total (sat_add_u128 total more'))
      (let self = self\<lparr>cm_bond := sat_add_u128 (cm_bond self) more'\<rparr>
       in then_m (on_world (set_lock cfg COLLATOR_LOCK_ID who (cm_bond self)))
          (let self = self\<lparr>cm_total_counted := sat_add_u128 (cm_total_counted self) more'\<rparr>
           in then_m (deposit_event (CandidateBondedMore who more' (cm_bond self)))
                (return_m self))))))"

definition bond_less ::
  "'w config \<Rightarrow> AccountId \<Rightarrow> Balance \<Rightarrow> CandidateMetadata \<Rightarrow> ('w, CandidateMetadata) staking_m" where
  "bond_less cfg who amount self =
     bind_m (gets_m Total) (\<lambda>total.
     then_m (put_total (total - amount))
     (let self = self\<lparr>cm_bond := cm_bond self - amount\<rparr>
      in then_m
           (if cm_bond self = 0
            then on_world (remove_lock cfg COLLATOR_LOCK_ID who)
            else on_world (set_lock cfg COLLATOR_LOCK_ID who (cm_bond self)))
         (let self = self\<lparr>cm_total_counted := cm_total_counted self - amount\<rparr>
          in then_m
               (if is_active self then update_active cfg who (cm_total_counted self)
                else return_m ())
             (then_m (deposit_event (CandidateBondedLess who amount (cm_bond self)))
                (return_m self)))))"

definition schedule_bond_less ::
  "'w config \<Rightarrow> Balance \<Rightarrow> CandidateMetadata \<Rightarrow> ('w, CandidateMetadata \<times> RoundIndex) staking_m" where
  "schedule_bond_less cfg less' self =
     then_m (ensure (cm_request self = None) PendingCandidateRequestAlreadyExists)
     (then_m (ensure (cm_bond self > less') CandidateBondBelowMin)
     (then_m (ensure (cm_bond self - less' \<ge> MinCandidateStk cfg) CandidateBondBelowMin)
     (bind_m (gets_m (\<lambda>s. r_current (Round s))) (\<lambda>now.
      let when_executable = wrap_add_u32 now (CandidateBondLessDelay cfg)
      in return_m
           (self\<lparr>cm_request := Some \<lparr>br_amount = less', br_when_executable = when_executable\<rparr>\<rparr>,
            when_executable)))))"

definition execute_bond_less ::
  "'w config \<Rightarrow> AccountId \<Rightarrow> CandidateMetadata \<Rightarrow> ('w, CandidateMetadata) staking_m" where
  "execute_bond_less cfg who self =
     bind_m (ok_or (cm_request self) PendingCandidateRequestsDNE) (\<lambda>request.
     bind_m (gets_m (\<lambda>s. r_current (Round s))) (\<lambda>now.
     then_m (ensure (br_when_executable request \<le> now) PendingCandidateRequestNotDueYet)
     (bind_m (bond_less cfg who (br_amount request) self) (\<lambda>self.
      return_m (self\<lparr>cm_request := None\<rparr>)))))"

definition cancel_bond_less ::
  "AccountId \<Rightarrow> CandidateMetadata \<Rightarrow> ('w, CandidateMetadata) staking_m" where
  "cancel_bond_less who self =
     bind_m (ok_or (cm_request self) PendingCandidateRequestsDNE) (\<lambda>request.
     then_m (deposit_event
       (CancelledCandidateBondLess who (br_amount request) (br_when_executable request)))
     (return_m (self\<lparr>cm_request := None\<rparr>)))"

section \<open>Top and bottom delegations\<close>

definition reset_top_data ::
  "'w config \<Rightarrow> AccountId \<Rightarrow> Delegations \<Rightarrow> CandidateMetadata \<Rightarrow> ('w, CandidateMetadata) staking_m" where
  "reset_top_data cfg candidate top_delegations self =
     (let self = self\<lparr>cm_lowest_top_delegation_amount := lowest_delegation_amount top_delegations,
                      cm_top_capacity := top_capacity cfg top_delegations\<rparr>;
          old_total_counted = cm_total_counted self;
          self = self\<lparr>cm_total_counted := sat_add_u128 (cm_bond self) (ds_total top_delegations)\<rparr>
      in then_m
           (if old_total_counted \<noteq> cm_total_counted self \<and> is_active self
            then update_active cfg candidate (cm_total_counted self)
            else return_m ())
           (return_m self))"

definition reset_bottom_data ::
  "'p params_scheme \<Rightarrow> Delegations \<Rightarrow> CandidateMetadata \<Rightarrow> CandidateMetadata" where
  "reset_bottom_data cfg bottom_delegations self =
     self\<lparr>cm_lowest_bottom_delegation_amount := lowest_delegation_amount bottom_delegations,
          cm_highest_bottom_delegation_amount := highest_delegation_amount bottom_delegations,
          cm_bottom_capacity := bottom_capacity cfg bottom_delegations\<rparr>"

text \<open>The part of \<open>add_bottom_delegation\<close> that kicks the lowest bond of a full bottom.\<close>

definition kick_lowest_bottom ::
  "'w config \<Rightarrow> AccountId \<Rightarrow> Bond \<Rightarrow> ('w, unit) staking_m" where
  "kick_lowest_bottom cfg candidate kicked =
     bind_m (gets_m (\<lambda>s. DelegatorState s (b_owner kicked))) (\<lambda>delegator_state.
     bind_m (expect_m delegator_state) (\<lambda>delegator_state.
     let leaving = (length (d_delegations delegator_state) = 1)
     in bind_m (delegator_rm_delegation cfg candidate delegator_state) (\<lambda>(delegator_state, _).
        bind_m (delegation_remove_request_with_state candidate (b_owner kicked) delegator_state)
          (\<lambda>delegator_state.
        then_m (remove_auto_compound candidate (b_owner kicked))
        (then_m (deposit_event (DelegationKicked (b_owner kicked) candidate (b_amount kicked)))
          (if leaving
           then then_m (remove_delegator_state (b_owner kicked))
                  (deposit_event (DelegatorLeft (b_owner kicked) (b_amount kicked)))
           else put_delegator_state (b_owner kicked) delegator_state))))))"

definition add_bottom_delegation ::
  "'w config \<Rightarrow> bool \<Rightarrow> AccountId \<Rightarrow> Bond \<Rightarrow> CandidateMetadata \<Rightarrow> ('w, CandidateMetadata) staking_m" where
  "add_bottom_delegation cfg bumped_from_top candidate delegation self =
     bind_m (gets_m (\<lambda>s. BottomDelegations s candidate)) (\<lambda>bottom_delegations.
     bind_m (expect_m bottom_delegations) (\<lambda>bottom_delegations.
     bind_m
       (if as_u32 (length (ds_delegations bottom_delegations)) = MaxBottomDelegationsPerCandidate cfg
        then if ds_delegations bottom_delegations = [] then panic_m
          else let kicked = last (ds_delegations bottom_delegations)
            in then_m (kick_lowest_bottom cfg candidate kicked)
                 (return_m
                   (bottom_delegations\<lparr>ds_delegations := butlast (ds_delegations bottom_delegations),
                      ds_total := ds_total bottom_delegations - b_amount kicked\<rparr>, False))
        else return_m (bottom_delegations, \<not> bumped_from_top))
     (\<lambda>(bottom_delegations, increase_delegation_count).
     let self = (if increase_delegation_count
                 then self\<lparr>cm_delegation_count := sat_add_u32 (cm_delegation_count self) 1\<rparr>
                 else self);
         bottom_delegations = insert_sorted_greatest_to_least delegation bottom_delegations;
         self = reset_bottom_data cfg bottom_delegations self
     in then_m (put_bottom_delegations candidate bottom_delegations) (return_m self))))"

definition add_top_delegation ::
  "'w config \<Rightarrow> AccountId \<Rightarrow> Bond \<Rightarrow> CandidateMetadata
    \<Rightarrow> ('w, CandidateMetadata \<times> Balance option) staking_m" where
  "add_top_delegation cfg candidate delegation self =
     bind_m (gets_m (\<lambda>s. TopDelegations s candidate)) (\<lambda>top_delegations.
     bind_m (expect_m top_delegations) (\<lambda>top_delegations.
     bind_m
       (if as_u32 (length (ds_delegations top_delegations)) = MaxTopDelegationsPerCandidate cfg
        then if ds_delegations top_delegations = [] then panic_m
          else let new_bottom_delegation = last (ds_delegations top_delegations);
                   top_delegations =
                     top_delegations\<lparr>ds_delegations := butlast (ds_delegations top_delegations),
                       ds_total := ds_total top_delegations - b_amount new_bottom_delegation\<rparr>;
                   less_total_staked =
                     (if cm_bottom_capacity self = Full
                      then Some (cm_lowest_bottom_delegation_amount self) else None)
            in bind_m (add_bottom_delegation cfg True candidate new_bottom_delegation self) (\<lambda>self.
               return_m (self, top_delegations, less_total_staked))
        else return_m (self, top_delegations, None))
     (\<lambda>(self, top_delegations, less_total_staked).
     let top_delegations = insert_sorted_greatest_to_least delegation top_delegations
     in bind_m (reset_top_data cfg candidate top_delegations self) (\<lambda>self.
        let self = (if less_total_staked = None
                    then self\<lparr>cm_delegation_count := sat_add_u32 (cm_delegation_count self) 1\<rparr>
                    else self)
        in then_m (put_top_delegations candidate top_delegations)
             (return_m (self, less_total_staked))))))"

definition add_delegation ::
  "'w config \<Rightarrow> AccountId \<Rightarrow> Bond \<Rightarrow> CandidateMetadata
    \<Rightarrow> ('w, CandidateMetadata \<times> DelegatorAdded \<times> Balance option) staking_m" where
  "add_delegation cfg candidate delegation self =
     (if cm_top_capacity self = Full
      then if cm_lowest_top_delegation_amount self < b_amount delegation
        then bind_m (add_top_delegation cfg candidate delegation self) (\<lambda>(self, less_total_staked).
             return_m (self, AddedToTop (cm_total_counted self), less_total_staked))
        else bind_m
            (if cm_bottom_capacity self = Full
             then then_m
                 (ensure (b_amount delegation > cm_lowest_bottom_delegation_amount self)
                    CannotDelegateLessThanOrEqualToLowestBottomWhenFull)
                 (return_m (Some (cm_lowest_bottom_delegation_amount self)))
             else return_m None)
           (\<lambda>less_total_staked.
            bind_m (add_bottom_delegation cfg False candidate delegation self) (\<lambda>self.
            return_m (self, AddedToBottom, less_total_staked)))
      else bind_m (add_top_delegation cfg candidate delegation self) (\<lambda>(self, _).
           return_m (self, AddedToTop (cm_total_counted self), None)))"

text \<open>A result inspected for \<open>DelegationDNE\<close>, with a second attempt in that case only.\<close>

definition or_else_dne :: "('w, 'a) staking_m \<Rightarrow> ('w, 'a) staking_m \<Rightarrow> ('w, 'a) staking_m" where
  "or_else_dne result alternative =
     bind_m (attempt_m result) (\<lambda>r. case r of
       Inl e \<Rightarrow> if e = Module DelegationDNE then alternative else fail_m e
     | Inr x \<Rightarrow> return_m x)"

definition rm_top_delegation ::
  "'w config \<Rightarrow> AccountId \<Rightarrow> AccountId \<Rightarrow> CandidateMetadata
    \<Rightarrow> ('w, CandidateMetadata \<times> bool) staking_m" where
  "rm_top_delegation cfg candidate delegator self =
     (let old_total_counted = cm_total_counted self
      in bind_m (gets_m (\<lambda>s. TopDelegations s candidate)) (\<lambda>top_delegations.
         bind_m (expect_m top_delegations) (\<lambda>top_delegations.
         let actual_amount_option =
               map_option b_amount (find_bond delegator (ds_delegations top_delegations))
         in bind_m (ok_or actual_amount_option DelegationDNE) (\<lambda>actual_amount.
         let top_delegations =
               top_delegations\<lparr>ds_delegations := without delegator (ds_delegations top_delegations),
                 ds_total := ds_total top_delegations - actual_amount\<rparr>
         in bind_m
              (if cm_bottom_capacity self \<noteq> Empty
               then bind_m (gets_m (\<lambda>s. BottomDelegations s candidate)) (\<lambda>bottom_delegations.
                    bind_m (expect_m bottom_delegations) (\<lambda>bottom_delegations.
                    if ds_delegations bottom_delegations = [] then panic_m
                    else let highest_bottom_delegation = hd (ds_delegations bottom_delegations);
                             bottom_delegations =
                               bottom_delegations\<lparr>ds_delegations := tl (ds_delegations bottom_delegations),
                                 ds_total := ds_total bottom_delegations
                                   - b_amount highest_bottom_delegation\<rparr>;
                             self = reset_bottom_data cfg bottom_delegations self
                         in then_m (put_bottom_delegations candidate bottom_delegations)
                              (return_m (self,
                                insert_sorted_greatest_to_least highest_bottom_delegation
                                  top_delegations))))
               else return_m (self, top_delegations))
              (\<lambda>(self, top_delegations).
            bind_m (reset_top_data cfg candidate top_delegations self) (\<lambda>self.
            let self = self\<lparr>cm_delegation_count := cm_delegation_count self - 1\<rparr>
            in then_m (put_top_delegations candidate top_delegations)
                 (return_m (self, old_total_counted = cm_total_counted self))))))))"

definition rm_bottom_delegation ::
  "'w config \<Rightarrow> AccountId \<Rightarrow> AccountId \<Rightarrow> CandidateMetadata
    \<Rightarrow> ('w, CandidateMetadata \<times> bool) staking_m" where
  "rm_bottom_delegation cfg candidate delegator self =
     bind_m (gets_m (\<lambda>s. BottomDelegations s candidate)) (\<lambda>bottom_delegations.
     bind_m (expect_m bottom_delegations) (\<lambda>bottom_delegations.
     let actual_amount_option =
           map_option b_amount (find_bond delegator (ds_delegations bottom_delegations))
     in bind_m (ok_or actual_amount_option DelegationDNE) (\<lambda>actual_amount.
     let bottom_delegations =
           bottom_delegations\<lparr>ds_delegations := without delegator (ds_delegations bottom_delegations),
             ds_total := ds_total bottom_delegations - actual_amount\<rparr>;
         self = reset_bottom_data cfg bottom_delegations self;
         self = self\<lparr>cm_delegation_count := cm_delegation_count self - 1\<rparr>
     in then_m (put_bottom_delegations candidate bottom_delegations)
          (return_m (self, False)))))"

definition rm_delegation_if_exists ::
  "'w config \<Rightarrow> AccountId \<Rightarrow> AccountId \<Rightarrow> Balance \<Rightarrow> CandidateMetadata
    \<Rightarrow> ('w, CandidateMetadata \<times> bool) staking_m" where
  "rm_delegation_if_exists cfg candidate delegator amount self =
     (let amount_geq_lowest_top = (amount \<ge> cm_lowest_top_delegation_amount self);
          top_is_not_full = (cm_top_capacity self \<noteq> Full);
          lowest_top_eq_highest_bottom =
            (cm_lowest_top_delegation_amount self = cm_highest_bottom_delegation_amount self)
      in if top_is_not_full \<or> (amount_geq_lowest_top \<and> \<not> lowest_top_eq_highest_bottom)
         then rm_top_delegation cfg candidate delegator self
         else if amount_geq_lowest_top \<and> lowest_top_eq_highest_bottom
         then or_else_dne (rm_top_delegation cfg candidate delegator self)
                (rm_bottom_delegation cfg candidate delegator self)
         else rm_bottom_delegation cfg candidate delegator self)"

definition increase_top_delegation ::
  "'w config \<Rightarrow> AccountId \<Rightarrow> AccountId \<Rightarrow> Balance \<Rightarrow> CandidateMetadata
    \<Rightarrow> ('w, CandidateMetadata \<times> bool) staking_m" where
  "increase_top_delegation cfg candidate delegator more' self =
     bind_m (gets_m (\<lambda>s. TopDelegations s candidate)) (\<lambda>top_delegations.
     bind_m (expect_m top_delegations) (\<lambda>top_delegations.
     let in_top = (delegator \<in> owners (ds_delegations top_delegations));
         top_delegations =
           top_delegations\<lparr>ds_delegations :=
             adjust_bond delegator (\<lambda>a. sat_add_u128 a more') (ds_delegations top_delegations)\<rparr>
     in then_m (ensure in_top DelegationDNE)
     (let top_delegations =
            sort_greatest_to_least
              (top_delegations\<lparr>ds_total := sat_add_u128 (ds_total top_delegations) more'\<rparr>)
      in bind_m (reset_top_data cfg candidate top_delegations self) (\<lambda>self.
         then_m (put_top_delegations candidate top_delegations)
           (return_m (self, True))))))"

definition increase_bottom_delegation ::
  "'w config \<Rightarrow> AccountId \<Rightarrow> AccountId \<Rightarrow> Balance \<Rightarrow> Balance \<Rightarrow> CandidateMetadata
    \<Rightarrow> ('w, CandidateMetadata \<times> bool) staking_m" where
  "increase_bottom_delegation cfg candidate delegator bond more' self =
     bind_m (gets_m (\<lambda>s. BottomDelegations s candidate)) (\<lambda>bottom_delegations.
     bind_m (ok_or bottom_delegations CandidateDNE) (\<lambda>bottom_delegations.
     bind_m
       (if sat_add_u128 bond more' > cm_lowest_top_delegation_amount self
        then let delegation_option =
                   map_option (\<lambda>d. \<lparr>b_owner = b_owner d, b_amount = sat_add_u128 (b_amount d) more'\<rparr>)
                     (find_bond delegator (ds_delegations bottom_delegations))
             in bind_m (ok_or delegation_option DelegationDNE) (\<lambda>delegation.
                let bottom_delegations =
                      bottom_delegations\<lparr>
                        ds_delegations := without delegator (ds_delegations bottom_delegations),
                        ds_total := ds_total bottom_delegations - bond\<rparr>
                in bind_m (gets_m (\<lambda>s. TopDelegations s candidate)) (\<lambda>top_delegations.
                   bind_m (expect_m top_delegations) (\<lambda>top_delegations.
                   bind_m
                     (if top_capacity cfg top_delegations = Full
                      then if ds_delegations top_delegations = [] then panic_m
                        else let new_bottom_delegation = last (ds_delegations top_delegations)
                             in return_m
                               (top_delegations\<lparr>
                                  ds_delegations := butlast (ds_delegations top_delegations),
                                  ds_total := ds_total top_delegations - b_amount new_bottom_delegation\<rparr>,
                                insert_sorted_greatest_to_least new_bottom_delegation bottom_delegations)
                      else return_m (top_delegations, bottom_delegations))
                   (\<lambda>(top_delegations, bottom_delegations).
                   let top_delegations = insert_sorted_greatest_to_least delegation top_delegations
                   in bind_m (reset_top_data cfg candidate top_delegations self) (\<lambda>self.
                      then_m (put_top_delegations candidate top_delegations)
                        (return_m (self, bottom_delegations, True)))))))
        else let in_bottom = (delegator \<in> owners (ds_delegations bottom_delegations));
                 bottom_delegations =
                   bottom_delegations\<lparr>ds_delegations :=
                     adjust_bond delegator (\<lambda>a. sat_add_u128 a more') (ds_delegations bottom_delegations)\<rparr>
             in then_m (ensure in_bottom DelegationDNE)
                  (return_m (self,
                    sort_greatest_to_least
                      (bottom_delegations\<lparr>ds_total := sat_add_u128 (ds_total bottom_delegations) more'\<rparr>),
                    False)))
     (\<lambda>(self, bottom_delegations, in_top_after).
     let self = reset_bottom_data cfg bottom_delegations self
     in then_m (put_bottom_delegations candidate bottom_delegations)
          (return_m (self, in_top_after)))))"

definition increase_delegation ::
  "'w config \<Rightarrow> AccountId \<Rightarrow> AccountId \<Rightarrow> Balance \<Rightarrow> Balance \<Rightarrow> CandidateMetadata
    \<Rightarrow> ('w, CandidateMetadata \<times> bool) staking_m" where
  "increase_delegation cfg candidate delegator bond more' self =
     (let lowest_top_eq_highest_bottom =
            (cm_lowest_top_delegation_amount self = cm_highest_bottom_delegation_amount self);
          bond_geq_lowest_top = (bond \<ge> cm_lowest_top_delegation_amount self)
      in if bond_geq_lowest_top \<and> \<not> lowest_top_eq_highest_bottom
         then increase_top_delegation cfg candidate delegator more' self
         else if bond_geq_lowest_top \<and> lowest_top_eq_highest_bottom
         then or_else_dne (increase_top_delegation cfg candidate delegator more' self)
                (increase_bottom_delegation cfg candidate delegator bond more' self)
         else increase_bottom_delegation cfg candidate delegator bond more' self)"

definition decrease_top_delegation ::
  "'w config \<Rightarrow> AccountId \<Rightarrow> AccountId \<Rightarrow> Balance \<Rightarrow> Balance \<Rightarrow> CandidateMetadata
    \<Rightarrow> ('w, CandidateMetadata \<times> bool) staking_m" where
  "decrease_top_delegation cfg candidate delegator bond less' self =
     (let bond_after_less_than_highest_bottom =
            (bond - less' < cm_highest_bottom_delegation_amount self);
          full_top_and_nonempty_bottom =
            (cm_top_capacity self = Full \<and> cm_bottom_capacity self \<noteq> Empty)
      in bind_m (gets_m (\<lambda>s. TopDelegations s candidate)) (\<lambda>top_delegations.
         bind_m (ok_or top_delegations CandidateDNE) (\<lambda>top_delegations.
         bind_m
           (if bond_after_less_than_highest_bottom \<and> full_top_and_nonempty_bottom
            then let found = find_bond delegator (ds_delegations top_delegations)
                 in bind_m (ok_or found DelegationDNE) (\<lambda>d.
                    let top_delegations =
                          top_delegations\<lparr>
                            ds_delegations := without delegator (ds_delegations top_delegations),
                            ds_total := ds_total top_delegations
                              - amounts (filter (\<lambda>x. b_owner x = delegator)
                                  (ds_delegations top_delegations))\<rparr>;
                        delegation = \<lparr>b_owner = b_owner d, b_amount = b_amount d - less'\<rparr>
                    in bind_m (gets_m (\<lambda>s. BottomDelegations s candidate)) (\<lambda>bottom_delegations.
                       bind_m (expect_m bottom_delegations) (\<lambda>bottom_delegations.
                       if ds_delegations bottom_delegations = [] then panic_m
                       else let highest_bottom_delegation = hd (ds_delegations bottom_delegations);
                                bottom_delegations =
                                  bottom_delegations\<lparr>ds_delegations := tl (ds_delegations bottom_delegations),
                                    ds_total := ds_total bottom_delegations
                                      - b_amount highest_bottom_delegation\<rparr>;
                                top_delegations =
                                  insert_sorted_greatest_to_least highest_bottom_delegation
                                    top_delegations;
                                bottom_delegations =
                                  insert_sorted_greatest_to_least delegation bottom_delegations;
                                self = reset_bottom_data cfg bottom_delegations self
                            in then_m (put_bottom_delegations candidate bottom_delegations)
                                 (return_m (self, top_delegations, False)))))
            else let is_in_top = (delegator \<in> owners (ds_delegations top_delegations));
                     top_delegations =
                       top_delegations\<lparr>ds_delegations :=
                         adjust_bond delegator (\<lambda>a. a - less') (ds_delegations top_delegations)\<rparr>
                 in then_m (ensure is_in_top DelegationDNE)
                      (return_m (self,
                        sort_greatest_to_least
                          (top_delegations\<lparr>ds_total := ds_total top_delegations - less'\<rparr>),
                        True)))
         (\<lambda>(self, top_delegations, in_top_after).
         bind_m (reset_top_data cfg candidate top_delegations self) (\<lambda>self.
         then_m (put_top_delegations candidate top_delegations)
           (return_m (self, in_top_after)))))))"

text \<open>The bottom total is left as it was.\<close>

definition decrease_bottom_delegation ::
  "'w config \<Rightarrow> AccountId \<Rightarrow> AccountId \<Rightarrow> Balance \<Rightarrow> CandidateMetadata
    \<Rightarrow> ('w, CandidateMetadata \<times> bool) staking_m" where
  "decrease_bottom_delegation cfg candidate delegator less' self =
     bind_m (gets_m (\<lambda>s. BottomDelegations s candidate)) (\<lambda>bottom_delegations.
     bind_m (expect_m bottom_delegations) (\<lambda>bottom_delegations.
     let in_bottom = (delegator \<in> owners (ds_delegations bottom_delegations));
         bottom_delegations =
           bottom_delegations\<lparr>ds_delegations :=
             adjust_bond delegator (\<lambda>a. a - less') (ds_delegations bottom_delegations)\<rparr>
     in then_m (ensure in_bottom DelegationDNE)
     (let bottom_delegations = sort_greatest_to_least bottom_delegations;
          self = reset_bottom_data cfg bottom_delegations self
      in then_m (put_bottom_delegations candidate bottom_delegations)
           (return_m (self, False)))))"

definition decrease_delegation ::
  "'w config \<Rightarrow> AccountId \<Rightarrow> AccountId \<Rightarrow> Balance \<Rightarrow> Balance \<Rightarrow> CandidateMetadata
    \<Rightarrow> ('w, CandidateMetadata \<times> bool) staking_m" where
  "decrease_delegation cfg candidate delegator bond less' self =
     (let lowest_top_eq_highest_bottom =
            (cm_lowest_top_delegation_amount self = cm_highest_bottom_delegation_amount self);
          bond_geq_lowest_top = (bond \<ge> cm_lowest_top_delegation_amount self)
      in if bond_geq_lowest_top \<and> \<not> lowest_top_eq_highest_bottom
         then decrease_top_delegation cfg candidate delegator bond less' self
         else if bond_geq_lowest_top \<and> lowest_top_eq_highest_bottom
         then or_else_dne (decrease_top_delegation cfg candidate delegator bond less' self)
                (decrease_bottom_delegation cfg candidate delegator less' self)
         else decrease_bottom_delegation cfg candidate delegator less' self)"

section \<open>The pool as a keyed store\<close>

definition pool_ok :: "'p params_scheme \<Rightarrow> Bond list \<Rightarrow> bool" where
  "pool_ok cfg pool \<longleftrightarrow> key_sorted b_owner pool \<and> length pool \<le> MaxCandidates cfg"

definition pool_lookup :: "Bond list \<Rightarrow> AccountId \<Rightarrow> Balance option" where
  "pool_lookup pool c = map_option b_amount (by_key b_owner pool c)"

lemma pool_put_eq:
  assumes "key_sorted b_owner pool"
  shows "pool_put cfg c a pool =
    (if length (without c pool) < MaxCandidates cfg
     then Some (replace_by_key b_owner \<lparr>b_owner = c, b_amount = a\<rparr> pool) else None)"
proof -
  let ?rest = "without c pool"
  have ks: "key_sorted b_owner ?rest" and fresh: "c \<notin> owners ?rest"
    using assms by (auto simp: key_sorted_filter)
  obtain ys where ins: "ordered_set_insert b_owner \<lparr>b_owner = c, b_amount = a\<rparr> ?rest = (True, ys)"
    using set_insert_fresh [OF ks, of "\<lparr>b_owner = c, b_amount = a\<rparr>"] fresh by auto
  then show ?thesis
    by (simp add: pool_put_def bounded_remove_eq set_remove_filter [OF assms] bond_from_owner_def
        bounded_try_insert_eq replace_by_key_def)
qed

lemma length_without_present:
  "key_sorted b_owner pool \<Longrightarrow> c \<in> owners pool \<Longrightarrow> Suc (length (without c pool)) = length pool"
  using length_filter_unique [OF key_sorted_distinct] by fastforce

lemma pool_put_present:
  assumes "pool_ok cfg pool" and "c \<in> owners pool"
  shows "pool_put cfg c a pool =
    Some (replace_by_key b_owner \<lparr>b_owner = c, b_amount = a\<rparr> pool)"
  using assms length_without_present [of pool c]
  by (simp add: pool_ok_def pool_put_eq)

lemma length_replace_by_key:
  assumes "key_sorted b_owner pool"
  shows "length (replace_by_key b_owner b pool) = Suc (length (without (b_owner b) pool))"
  using assms set_insert_result(3) [of b_owner "without (b_owner b) pool" b]
  by (simp add: replace_by_key_def set_remove_filter key_sorted_filter image_iff)

lemma pool_lookup_replace:
  "key_sorted b_owner pool \<Longrightarrow>
    pool_lookup (replace_by_key b_owner \<lparr>b_owner = c, b_amount = a\<rparr> pool) =
      (pool_lookup pool)(c \<mapsto> a)"
  by (simp add: pool_lookup_def replace_by_key_props fun_eq_iff)

lemma pool_lookup_present: "pool_lookup pool c \<noteq> None \<longleftrightarrow> c \<in> owners pool"
  by (simp add: pool_lookup_def by_key_None_iff)

interpretation candidate_pool: keyed_store
  pool_lookup "pool_put cfg" "\<lambda>c pool. snd (bounded_remove b_owner c pool)" "pool_ok cfg"
proof unfold_locales
  fix s t :: "Bond list" and k v
  assume inv: "pool_ok cfg s"
  then have ks: "key_sorted b_owner s" by (simp add: pool_ok_def)
  show "pool_put cfg k v s = Some t \<Longrightarrow> pool_lookup t = (pool_lookup s)(k \<mapsto> v)"
    by (auto simp: pool_put_eq [OF ks] pool_lookup_replace [OF ks] split: if_splits)
  show "pool_put cfg k v s = Some t \<Longrightarrow> pool_ok cfg t"
    by (auto simp: pool_put_eq [OF ks] pool_ok_def replace_by_key_props [OF ks]
        length_replace_by_key [OF ks] split: if_splits)
  show "pool_lookup s k \<noteq> None \<Longrightarrow> pool_put cfg k v s \<noteq> None"
    unfolding pool_lookup_present using pool_put_present [OF inv] by simp
  show "pool_lookup (snd (bounded_remove b_owner k s)) = (pool_lookup s)(k := None)"
    by (simp add: bounded_remove_eq pool_lookup_def by_key_remove [OF ks] fun_eq_iff)
  show "pool_ok cfg (snd (bounded_remove b_owner k s))"
    using inv le_trans [OF length_filter_le]
    by (auto simp: bounded_remove_eq set_remove_filter [OF ks] pool_ok_def key_sorted_filter)
qed

end
