(* ===== verification/Candidate_Books.thy ===== *)
theory Candidate_Books
  imports Candidates
begin

text \<open>
  The contract of \<open>CandidateMetadata\<close>'s delegation methods: the top and bottom lists of a
  candidate are one book, ranked by amount and cut after the first
  \<open>MaxTopDelegationsPerCandidate\<close>, the metadata caches what the methods branch on, and each
  method changes the book by exactly the bond it is about.
\<close>

section \<open>Ranked books\<close>

definition ranked :: "'p params_scheme \<Rightarrow> Bond list \<Rightarrow> Bond list \<Rightarrow> bool" where
  "ranked cfg hi lo \<longleftrightarrow>
     descending (hi @ lo) \<and> distinct (map b_owner (hi @ lo))
     \<and> length hi \<le> MaxTopDelegationsPerCandidate cfg
     \<and> length lo \<le> MaxBottomDelegationsPerCandidate cfg
     \<and> (lo \<noteq> [] \<longrightarrow> length hi = MaxTopDelegationsPerCandidate cfg)"

definition params_ok :: "'p params_scheme \<Rightarrow> bool" where
  "params_ok cfg \<longleftrightarrow>
     0 < MaxTopDelegationsPerCandidate cfg \<and> 0 < MaxBottomDelegationsPerCandidate cfg
     \<and> MaxTopDelegationsPerCandidate cfg + MaxBottomDelegationsPerCandidate cfg \<le> u32_max"

abbreviation book :: "Delegations \<Rightarrow> Delegations \<Rightarrow> Bond multiset" where
  "book t b \<equiv> mset (ds_delegations t) + mset (ds_delegations b)"

text \<open>
  The metadata is in step with the two lists. \<open>excess\<close> is what the stored bottom total
  exceeds the bottom amounts by.
\<close>

definition candidate_ok ::
  "'p params_scheme \<Rightarrow> Balance \<Rightarrow> CandidateMetadata \<Rightarrow> Delegations \<Rightarrow> Delegations \<Rightarrow> bool" where
  "candidate_ok cfg excess m t b \<longleftrightarrow>
     ranked cfg (ds_delegations t) (ds_delegations b)
     \<and> cm_total_counted m = cm_bond m + amounts (ds_delegations t)
     \<and> ds_total t = amounts (ds_delegations t)
     \<and> ds_total b = amounts (ds_delegations b) + excess
     \<and> cm_bond m + amounts (ds_delegations t) + amounts (ds_delegations b) + excess \<le> u128_max
     \<and> cm_delegation_count m = length (ds_delegations t) + length (ds_delegations b)
     \<and> cm_lowest_top_delegation_amount m = lowest_delegation_amount t
     \<and> cm_top_capacity m = top_capacity cfg t
     \<and> cm_lowest_bottom_delegation_amount m = lowest_delegation_amount b
     \<and> cm_highest_bottom_delegation_amount m = highest_delegation_amount b
     \<and> cm_bottom_capacity m = bottom_capacity cfg b"

text \<open>An active candidate stands in the pool with its counted stake.\<close>

definition pool_at :: "'p params_scheme \<Rightarrow> AccountId \<Rightarrow> CandidateMetadata \<Rightarrow> Bond list \<Rightarrow> bool" where
  "pool_at cfg c m pool \<longleftrightarrow>
     pool_ok cfg pool \<and> (is_active m \<longrightarrow> pool_lookup pool c = Some (cm_total_counted m))"

definition stands ::
  "'w config \<Rightarrow> AccountId \<Rightarrow> Balance \<Rightarrow> Bond multiset \<Rightarrow> CandidateMetadata \<Rightarrow> 'w staking \<Rightarrow> bool" where
  "stands cfg c excess M m s \<longleftrightarrow>
     (\<exists>t b. TopDelegations s c = Some t \<and> BottomDelegations s c = Some b
        \<and> candidate_ok cfg excess m t b \<and> book t b = M \<and> pool_at cfg c m (CandidatePool s))"

text \<open>What a method on the candidate \<open>c\<close> may write: its lists and its entry in the pool.\<close>

definition only_candidate :: "AccountId \<Rightarrow> 'w staking \<Rightarrow> 'w staking \<Rightarrow> bool" where
  "only_candidate c s s' \<longleftrightarrow>
     (\<exists>t b pool. s' = s\<lparr>TopDelegations := (TopDelegations s)(c := t),
        BottomDelegations := (BottomDelegations s)(c := b), CandidatePool := pool\<rparr>
        \<and> (\<forall>k. k \<noteq> c \<longrightarrow> pool_lookup pool k = pool_lookup (CandidatePool s) k))"

definition same_identity :: "CandidateMetadata \<Rightarrow> CandidateMetadata \<Rightarrow> bool" where
  "same_identity m m' \<longleftrightarrow>
     cm_bond m' = cm_bond m \<and> cm_request m' = cm_request m \<and> cm_status m' = cm_status m"

subsection \<open>Capacities\<close>

lemma as_u32_length:
  "ranked cfg hi lo \<Longrightarrow> params_ok cfg \<Longrightarrow>
    as_u32 (length hi) = length hi \<and> as_u32 (length lo) = length lo"
  by (auto simp: ranked_def params_ok_def intro!: as_u32_exact)

lemma capacity_simps:
  assumes "ranked cfg (ds_delegations t) (ds_delegations b)" and "params_ok cfg"
  shows "top_capacity cfg t = Full \<longleftrightarrow> length (ds_delegations t) = MaxTopDelegationsPerCandidate cfg"
    and "bottom_capacity cfg b = Full \<longleftrightarrow> length (ds_delegations b) = MaxBottomDelegationsPerCandidate cfg"
    and "bottom_capacity cfg b = Empty \<longleftrightarrow> ds_delegations b = []"
  using assms as_u32_length [OF assms]
  by (auto simp: top_capacity_def bottom_capacity_def ranked_def params_ok_def)

lemma distinct_owners_cong:
  "mset xs = mset ys \<Longrightarrow> distinct (map b_owner xs) \<longleftrightarrow> distinct (map b_owner ys)"
  by (metis mset_eq_imp_distinct_iff mset_map)

lemma rankedI:
  assumes "ranked cfg hi0 lo0" and "params_ok cfg"
    and "descending hi" and "descending lo"
    and "\<And>x y. x \<in> set hi \<Longrightarrow> y \<in> set lo \<Longrightarrow> b_amount y \<le> b_amount x"
    and "mset zs = mset hi + mset lo" and "distinct (map b_owner zs)"
    and "length hi \<le> MaxTopDelegationsPerCandidate cfg"
    and "length lo \<le> MaxBottomDelegationsPerCandidate cfg"
    and "lo \<noteq> [] \<Longrightarrow> length hi = MaxTopDelegationsPerCandidate cfg"
  shows "ranked cfg hi lo"
proof -
  have "distinct (map b_owner (hi @ lo))"
    using assms(6,7) distinct_owners_cong [of zs "hi @ lo"] by simp
  with assms show ?thesis unfolding ranked_def by simp
qed


lemma ranked_parts:
  assumes "ranked cfg hi lo"
  shows "descending hi" and "descending lo"
    and "\<And>x y. x \<in> set hi \<Longrightarrow> y \<in> set lo \<Longrightarrow> b_amount y \<le> b_amount x"
    and "distinct (map b_owner hi)" and "distinct (map b_owner lo)" and "owners hi \<inter> owners lo = {}"
    and "distinct (map b_owner (hi @ lo))"
    and "length hi \<le> MaxTopDelegationsPerCandidate cfg"
    and "length lo \<le> MaxBottomDelegationsPerCandidate cfg"
    and "lo \<noteq> [] \<Longrightarrow> length hi = MaxTopDelegationsPerCandidate cfg"
  using assms by (auto simp: ranked_def)

subsection \<open>Adding to a ranked book\<close>

lemma ranked_insert_room:
  assumes "ranked cfg hi []" and "params_ok cfg" and "length hi < MaxTopDelegationsPerCandidate cfg"
    and "b_owner d \<notin> owners hi"
  shows "ranked cfg (stable_insert d hi) []"
  using assms ranked_parts [OF assms(1)]
  by (intro rankedI [OF assms(1,2), where zs = "d # hi"]) auto

lemma ranked_insert_top:
  assumes "ranked cfg (hs @ [l]) lo0" and "params_ok cfg"
    and "length (hs @ [l]) = MaxTopDelegationsPerCandidate cfg"
    and "b_amount l < b_amount d"
    and "lo0 = lo @ kicked" and "length lo < MaxBottomDelegationsPerCandidate cfg"
    and "b_owner d \<notin> owners (hs @ [l]) \<union> owners lo0"
  shows "ranked cfg (stable_insert d hs) (stable_insert l lo)"
proof -
  note p = ranked_parts [OF assms(1)]
  have "b_amount y \<le> b_amount l \<and> b_amount y \<le> b_amount d" if "y \<in> set lo" for y
    using p(3) [of l y] that assms(4,5) by simp
  then show ?thesis using assms p
    by (intro rankedI [OF assms(1,2), where zs = "d # hs @ l # lo"]) (auto intro: order_trans)
qed

lemma ranked_insert_bottom:
  assumes "ranked cfg hi lo0" and "params_ok cfg"
    and "length hi = MaxTopDelegationsPerCandidate cfg"
    and "b_amount d \<le> b_amount (last hi)"
    and "lo0 = lo @ kicked" and "length lo < MaxBottomDelegationsPerCandidate cfg"
    and "b_owner d \<notin> owners hi \<union> owners lo0"
  shows "ranked cfg hi (stable_insert d lo)"
proof -
  note p = ranked_parts [OF assms(1)]
  have "b_amount d \<le> b_amount x" if "x \<in> set hi" for x
    using descending_last [OF p(1) that] assms(4) by simp
  then show ?thesis using assms p
    by (intro rankedI [OF assms(1,2), where zs = "d # hi @ lo"]) auto
qed

subsection \<open>Removing from a ranked book\<close>

lemma length_without:
  "distinct (map b_owner ds) \<Longrightarrow> x \<in> set ds \<Longrightarrow> Suc (length (without (b_owner x) ds)) = length ds"
  using length_filter_unique [of b_owner ds x] by simp

lemma ranked_rm_top:
  assumes "ranked cfg hi []" and "params_ok cfg"
  shows "ranked cfg (without d hi) []"
  using assms ranked_parts [OF assms(1)] le_trans [OF length_filter_le]
  by (intro rankedI [OF assms(1,2), where zs = "without d hi"])
    (auto simp: descending_filter distinct_map_filter)

lemma ranked_rm_top_promote:
  assumes "ranked cfg hi (h # ls)" and "params_ok cfg" and "x \<in> set hi"
  shows "ranked cfg (stable_insert h (without (b_owner x) hi)) ls"
proof -
  note p = ranked_parts [OF assms(1)]
  have "distinct (map b_owner (h # without (b_owner x) hi @ ls))"
    using p(4-7) by (auto simp: distinct_map_filter)
  with assms p length_without [OF p(4) assms(3)] show ?thesis
    by (intro rankedI [OF assms(1,2), where zs = "h # without (b_owner x) hi @ ls"])
      (auto simp: descending_filter)
qed

lemma ranked_rm_bottom:
  assumes "ranked cfg hi lo" and "params_ok cfg"
  shows "ranked cfg hi (without d lo)"
proof -
  note p = ranked_parts [OF assms(1)]
  have "distinct (map b_owner (hi @ without d lo))" using p(4-7) by (auto simp: distinct_map_filter)
  moreover have "length (without d lo) \<le> MaxBottomDelegationsPerCandidate cfg"
    using p(9) length_filter_le le_trans by blast
  moreover have "lo \<noteq> []" if "without d lo \<noteq> []" using that by auto
  ultimately show ?thesis using assms p
    by (intro rankedI [OF assms(1,2), where zs = "hi @ without d lo"]) (auto simp: descending_filter)
qed

subsection \<open>Changing one bond of a ranked book\<close>

lemma distinct_swap_owner:
  assumes "distinct (map b_owner ds)" and "x \<in> set ds" and "b_owner x' = b_owner x"
  shows "distinct (map b_owner (x' # without (b_owner x) ds))"
  using assms by (auto simp: distinct_map_filter)

lemma ranked_adjust_top:
  assumes "ranked cfg hi lo" and "params_ok cfg" and "x \<in> set hi" and "b_owner x' = b_owner x"
    and "descending hi'" and "mset hi' = add_mset x' (mset (without (b_owner x) hi))"
    and "\<And>y. y \<in> set lo \<Longrightarrow> b_amount y \<le> b_amount x'"
  shows "ranked cfg hi' lo"
proof -
  note p = ranked_parts [OF assms(1)]
  have "mset hi' = mset (x' # without (b_owner x) hi)" using assms(6) by simp
  from mset_eq_length [OF this] have len: "length hi' = length hi"
    using length_without [OF p(4) assms(3)] by simp
  have set: "set hi' = insert x' (set (without (b_owner x) hi))"
    using arg_cong [OF assms(6), of set_mset] by simp
  have "distinct (map b_owner (x' # without (b_owner x) hi @ lo))"
    using p(4-7) distinct_swap_owner [OF p(4) assms(3,4)] assms(3,4) by auto
  with assms p len show ?thesis
    by (intro rankedI [OF assms(1,2), where zs = "x' # without (b_owner x) hi @ lo"])
      (auto simp: set)
qed

lemma ranked_adjust_bottom:
  assumes "ranked cfg hi lo" and "params_ok cfg" and "x \<in> set lo" and "b_owner x' = b_owner x"
    and "descending lo'" and "mset lo' = add_mset x' (mset (without (b_owner x) lo))"
    and "\<And>y. y \<in> set hi \<Longrightarrow> b_amount x' \<le> b_amount y"
  shows "ranked cfg hi lo'"
proof -
  note p = ranked_parts [OF assms(1)]
  have "mset lo' = mset (x' # without (b_owner x) lo)" using assms(6) by simp
  from mset_eq_length [OF this] have len: "length lo' = length lo"
    using length_without [OF p(5) assms(3)] by simp
  have set: "set lo' = insert x' (set (without (b_owner x) lo))"
    using arg_cong [OF assms(6), of set_mset] by simp
  have "distinct (map b_owner (hi @ x' # without (b_owner x) lo))"
    using p(4-7) distinct_swap_owner [OF p(5) assms(3,4)] assms(3,4) by auto
  moreover have "lo \<noteq> []" using assms(3) by auto
  ultimately show ?thesis using assms p len
    by (intro rankedI [OF assms(1,2), where zs = "hi @ x' # without (b_owner x) lo"])
      (auto simp: set)
qed

lemma ranked_promote:
  assumes "ranked cfg (hs @ [l]) lo" and "params_ok cfg" and "x \<in> set lo"
    and "b_owner x' = b_owner x" and "b_amount l < b_amount x'"
  shows "ranked cfg (stable_insert x' hs) (stable_insert l (without (b_owner x) lo))"
proof -
  note p = ranked_parts [OF assms(1)]
  have low: "b_amount y \<le> b_amount l \<and> b_amount y \<le> b_amount x'" if "y \<in> set lo" for y
    using p(3) [of l y] that assms(5) by simp
  have "distinct (map b_owner (hs @ l # x' # without (b_owner x) lo))"
    using p(4-7) distinct_swap_owner [OF p(5) assms(3,4)] assms(3,4) by auto
  moreover have "lo \<noteq> []" using assms(3) by auto
  ultimately show ?thesis using assms p low length_without [OF p(5) assms(3)]
    by (intro rankedI [OF assms(1,2), where zs = "hs @ l # x' # without (b_owner x) lo"])
      (auto simp: descending_filter less_imp_le)
qed

lemma ranked_demote:
  assumes "ranked cfg hi (h # ls)" and "params_ok cfg" and "x \<in> set hi"
    and "b_owner x' = b_owner x" and "b_amount x' \<le> b_amount h"
  shows "ranked cfg (stable_insert h (without (b_owner x) hi)) (stable_insert x' ls)"
proof -
  note p = ranked_parts [OF assms(1)]
  have high: "b_amount x' \<le> b_amount y" if "y \<in> set hi" for y
    using p(3) [of y h] that assms(5) by simp
  have "distinct (map b_owner (h # ls @ x' # without (b_owner x) hi))"
    using p(4-7) distinct_swap_owner [OF p(4) assms(3,4)] assms(3,4) by auto
  with assms p high length_without [OF p(4) assms(3)] show ?thesis
    by (intro rankedI [OF assms(1,2), where zs = "h # ls @ x' # without (b_owner x) hi"])
      (auto simp: descending_filter)
qed

section \<open>Writing a book back\<close>

text \<open>The metadata that fits two lists, the refreshed pool and the storage with both written.\<close>

definition refit ::
  "'p params_scheme \<Rightarrow> Delegations \<Rightarrow> Delegations \<Rightarrow> CandidateMetadata \<Rightarrow> CandidateMetadata" where
  "refit cfg t b m = m\<lparr>
     cm_delegation_count := length (ds_delegations t) + length (ds_delegations b),
     cm_total_counted := cm_bond m + ds_total t,
     cm_lowest_top_delegation_amount := lowest_delegation_amount t,
     cm_highest_bottom_delegation_amount := highest_delegation_amount b,
     cm_lowest_bottom_delegation_amount := lowest_delegation_amount b,
     cm_top_capacity := top_capacity cfg t,
     cm_bottom_capacity := bottom_capacity cfg b\<rparr>"

definition refreshed :: "AccountId \<Rightarrow> CandidateMetadata \<Rightarrow> Balance \<Rightarrow> Bond list \<Rightarrow> Bond list" where
  "refreshed c m v pool =
     (if cm_total_counted m \<noteq> v \<and> is_active m
      then replace_by_key b_owner \<lparr>b_owner = c, b_amount = v\<rparr> pool else pool)"

definition settle ::
  "AccountId \<Rightarrow> CandidateMetadata \<Rightarrow> Delegations \<Rightarrow> Delegations \<Rightarrow> 'w staking \<Rightarrow> 'w staking" where
  "settle c m t b s = s\<lparr>TopDelegations := (TopDelegations s)(c \<mapsto> t),
     BottomDelegations := (BottomDelegations s)(c \<mapsto> b),
     CandidatePool := refreshed c m (cm_bond m + ds_total t) (CandidatePool s)\<rparr>"

lemma refit_eqI:
  assumes "cm_bond m' = cm_bond m" "cm_request m' = cm_request m" "cm_status m' = cm_status m"
    and "cm_delegation_count m' = length (ds_delegations t) + length (ds_delegations b)"
    and "cm_total_counted m' = cm_bond m + ds_total t"
    and "cm_lowest_top_delegation_amount m' = lowest_delegation_amount t"
    and "cm_highest_bottom_delegation_amount m' = highest_delegation_amount b"
    and "cm_lowest_bottom_delegation_amount m' = lowest_delegation_amount b"
    and "cm_top_capacity m' = top_capacity cfg t" and "cm_bottom_capacity m' = bottom_capacity cfg b"
  shows "m' = refit cfg t b m"
  using assms by (intro CandidateMetadata.equality) (simp_all add: refit_def)

lemma refit_simps [simp]:
  "cm_bond (refit cfg t b m) = cm_bond m" "cm_request (refit cfg t b m) = cm_request m"
  "cm_status (refit cfg t b m) = cm_status m"
  "cm_total_counted (refit cfg t b m) = cm_bond m + ds_total t"
  "cm_delegation_count (refit cfg t b m) = length (ds_delegations t) + length (ds_delegations b)"
  by (simp_all add: refit_def)

lemma is_active_simps [simp]:
  "is_active (m\<lparr>cm_delegation_count := a\<rparr>) = is_active m"
  "is_active (m\<lparr>cm_total_counted := v\<rparr>) = is_active m"
  "is_active (m\<lparr>cm_lowest_top_delegation_amount := v\<rparr>) = is_active m"
  "is_active (m\<lparr>cm_highest_bottom_delegation_amount := v\<rparr>) = is_active m"
  "is_active (m\<lparr>cm_lowest_bottom_delegation_amount := v\<rparr>) = is_active m"
  "is_active (m\<lparr>cm_top_capacity := k\<rparr>) = is_active m"
  "is_active (m\<lparr>cm_bottom_capacity := k\<rparr>) = is_active m"
  "is_active (refit cfg t b m) = is_active m"
  by (simp_all add: is_active_def refit_def)

lemma same_identity_refit [simp]: "same_identity m (refit cfg t b m)"
  by (simp add: same_identity_def)

lemma pool_ok_refreshed:
  assumes "pool_at cfg c m pool"
  shows "pool_ok cfg (refreshed c m v pool)"
    and "pool_lookup (refreshed c m v pool) =
      (if is_active m then (pool_lookup pool)(c \<mapsto> v) else pool_lookup pool)"
proof -
  have ok: "pool_ok cfg pool" and ks: "key_sorted b_owner pool"
    and here: "is_active m \<Longrightarrow> pool_lookup pool c = Some (cm_total_counted m)"
    using assms by (auto simp: pool_at_def pool_ok_def)
  have "c \<in> owners pool" if "is_active m" using here [OF that] pool_lookup_present [of pool c] by simp
  then have "pool_put cfg c v pool = Some (replace_by_key b_owner \<lparr>b_owner = c, b_amount = v\<rparr> pool)"
    if "is_active m" using that pool_put_present [OF ok] by simp
  from candidate_pool.inv_upd [OF ok this] show "pool_ok cfg (refreshed c m v pool)"
    using ok by (simp add: refreshed_def)
  have "(pool_lookup pool)(c \<mapsto> cm_total_counted m) = pool_lookup pool" if "is_active m"
    using here [OF that] by (simp add: fun_upd_idem)
  then show "pool_lookup (refreshed c m v pool) =
      (if is_active m then (pool_lookup pool)(c \<mapsto> v) else pool_lookup pool)"
    by (auto simp: refreshed_def pool_lookup_replace [OF ks])
qed

lemma wp_update_active:
  assumes "pool_at cfg c m (CandidatePool s)" and "is_active m"
  shows "wp (update_active cfg c v) Q E s =
    Q () (s\<lparr>CandidatePool := replace_by_key b_owner \<lparr>b_owner = c, b_amount = v\<rparr> (CandidatePool s)\<rparr>)"
proof -
  have "c \<in> owners (CandidatePool s)"
    using assms pool_lookup_present [of "CandidatePool s" c] by (simp add: pool_at_def)
  then show ?thesis using assms(1) pool_put_present [of cfg "CandidatePool s" c v]
    by (simp add: update_active_def wp_simps pool_at_def)
qed

lemma wp_reset_top_data:
  assumes "pool_at cfg c m (CandidatePool s)" and "is_active m' = is_active m"
    and "cm_total_counted m' = cm_total_counted m" and "cm_bond m' + ds_total t \<le> u128_max"
  shows "wp (reset_top_data cfg c t m') Q E s =
    Q (m'\<lparr>cm_lowest_top_delegation_amount := lowest_delegation_amount t,
          cm_top_capacity := top_capacity cfg t, cm_total_counted := cm_bond m' + ds_total t\<rparr>)
      (s\<lparr>CandidatePool := refreshed c m (cm_bond m' + ds_total t) (CandidatePool s)\<rparr>)"
  using assms
  by (simp add: reset_top_data_def wp_simps Let_def sat_add_u128_exact refreshed_def
      wp_update_active [OF assms(1)])

text \<open>A ranked book written back stands, and nothing else has moved.\<close>

lemma settle_stands:
  assumes "pool_at cfg c m (CandidatePool s)"
    and "ranked cfg (ds_delegations t) (ds_delegations b)"
    and "ds_total t = amounts (ds_delegations t)"
    and "ds_total b = amounts (ds_delegations b) + excess"
    and "cm_bond m + amounts (ds_delegations t) + amounts (ds_delegations b) + excess \<le> u128_max"
  shows "stands cfg c excess (book t b) (refit cfg t b m) (settle c m t b s)
    \<and> only_candidate c s (settle c m t b s)"
proof -
  have "candidate_ok cfg excess (refit cfg t b m) t b"
    using assms(2-5) by (simp add: candidate_ok_def refit_def)
  moreover have "pool_at cfg c (refit cfg t b m)
      (refreshed c m (cm_bond m + ds_total t) (CandidatePool s))"
    using pool_ok_refreshed [OF assms(1)] by (simp add: pool_at_def)
  moreover have "only_candidate c s (settle c m t b s)"
    unfolding only_candidate_def settle_def
    using pool_ok_refreshed(2) [OF assms(1), of "cm_bond m + ds_total t"]
    by (intro exI conjI) (auto split: if_splits)
  ultimately show ?thesis by (simp add: stands_def settle_def)
qed

section \<open>Books by their lists\<close>

text \<open>
  The stored records are determined by the lists: \<open>tidy ds e\<close> holds \<open>ds\<close> with its sum
  and the excess \<open>e\<close>.
\<close>

definition tidy :: "Bond list \<Rightarrow> Balance \<Rightarrow> Delegations" where
  "tidy ds e = \<lparr>ds_delegations = ds, ds_total = amounts ds + e\<rparr>"

lemma tidy_simps [simp]:
  "ds_delegations (tidy ds e) = ds" "ds_total (tidy ds e) = amounts ds + e"
  by (simp_all add: tidy_def)

lemma tidy_eq_iff: "ds_total t = amounts (ds_delegations t) + e \<Longrightarrow> t = tidy (ds_delegations t) e"
  by (intro Delegations.equality) simp_all

abbreviation greatest_first :: "Bond list \<Rightarrow> Bond list" where
  "greatest_first ds \<equiv> sort_key (\<lambda>x. - int (b_amount x)) ds"

lemma descending_greatest_first: "descending (greatest_first ds)"
  using sort_props(1) [of "tidy ds 0"] by (simp add: sort_greatest_to_least_def)

lemma sort_tidy: "ds_total t = amounts (ds_delegations t) + e \<Longrightarrow>
    sort_greatest_to_least t = tidy (greatest_first (ds_delegations t)) e"
  using sum_list_mset_eq [of "greatest_first (ds_delegations t)" "ds_delegations t" b_amount]
  by (intro Delegations.equality) (simp_all add: sort_greatest_to_least_def)

lemma insert_tidy:
  assumes "descending ds" and "b_amount d + amounts ds + e \<le> u128_max"
    and "t = tidy ds e"
  shows "insert_sorted_greatest_to_least d t = tidy (stable_insert d ds) e"
  using assms
  by (intro Delegations.equality) (simp_all add: insert_sorted_eq sat_add_u128_exact ac_simps)

lemma amounts_without:
  "distinct (map b_owner ds) \<Longrightarrow> x \<in> set ds \<Longrightarrow>
    amounts ds = b_amount x + amounts (without (b_owner x) ds)"
  using sum_list_filter_remove1 [of b_owner ds x b_amount] by simp

definition held ::
  "'w config \<Rightarrow> AccountId \<Rightarrow> Balance \<Rightarrow> Bond list \<Rightarrow> Bond list \<Rightarrow> CandidateMetadata \<Rightarrow> 'w staking \<Rightarrow> bool"
  where
  "held cfg c e hi lo m s \<longleftrightarrow>
     TopDelegations s c = Some (tidy hi 0) \<and> BottomDelegations s c = Some (tidy lo e)
     \<and> ranked cfg hi lo \<and> cm_bond m + amounts hi + amounts lo + e \<le> u128_max
     \<and> m = refit cfg (tidy hi 0) (tidy lo e) m \<and> pool_at cfg c m (CandidatePool s)"

abbreviation meta' where "meta' cfg e m hi lo \<equiv> refit cfg (tidy hi 0) (tidy lo e) m"
abbreviation storage' where "storage' c e m hi lo s \<equiv> settle c m (tidy hi 0) (tidy lo e) s"

lemma candidate_ok_tidy:
  "candidate_ok cfg e m t b \<longleftrightarrow>
     t = tidy (ds_delegations t) 0 \<and> b = tidy (ds_delegations b) e
     \<and> ranked cfg (ds_delegations t) (ds_delegations b)
     \<and> cm_bond m + amounts (ds_delegations t) + amounts (ds_delegations b) + e \<le> u128_max
     \<and> m = refit cfg t b m" (is "?L = ?R")
proof
  assume L: ?L
  then have "t = tidy (ds_delegations t) 0" and "b = tidy (ds_delegations b) e"
    by (intro tidy_eq_iff; simp add: candidate_ok_def)+
  moreover have "m = refit cfg t b m"
    using L by (intro refit_eqI) (simp_all add: candidate_ok_def)
  ultimately show ?R using L by (simp add: candidate_ok_def)
next
  assume R: ?R
  then have t: "ds_total t = amounts (ds_delegations t)" and b: "ds_total b = amounts (ds_delegations b) + e"
    by (metis add_0_right tidy_simps(2), metis tidy_simps(2))
  from R have m: "m = refit cfg t b m" by simp
  have "cm_total_counted m = cm_bond m + amounts (ds_delegations t)"
    "cm_delegation_count m = length (ds_delegations t) + length (ds_delegations b)"
    "cm_lowest_top_delegation_amount m = lowest_delegation_amount t"
    "cm_top_capacity m = top_capacity cfg t"
    "cm_lowest_bottom_delegation_amount m = lowest_delegation_amount b"
    "cm_highest_bottom_delegation_amount m = highest_delegation_amount b"
    "cm_bottom_capacity m = bottom_capacity cfg b"
    by (subst m, simp add: refit_def t)+
  with R t b show ?L by (simp add: candidate_ok_def)
qed

lemma stands_held:
  "stands cfg c e M m s \<longleftrightarrow> (\<exists>hi lo. held cfg c e hi lo m s \<and> M = mset hi + mset lo)"
proof
  assume "stands cfg c e M m s"
  then obtain t b where tb: "TopDelegations s c = Some t" "BottomDelegations s c = Some b"
    "candidate_ok cfg e m t b" "book t b = M" "pool_at cfg c m (CandidatePool s)"
    by (auto simp: stands_def)
  then have "t = tidy (ds_delegations t) 0" "b = tidy (ds_delegations b) e"
    by (auto simp: candidate_ok_tidy)
  note eqs = this [symmetric]
  have "held cfg c e (ds_delegations t) (ds_delegations b) m s"
    using tb by (simp add: held_def eqs candidate_ok_tidy)
  with tb(4) show "\<exists>hi lo. held cfg c e hi lo m s \<and> M = mset hi + mset lo" by auto
next
  assume "\<exists>hi lo. held cfg c e hi lo m s \<and> M = mset hi + mset lo"
  then obtain hi lo where "held cfg c e hi lo m s" "M = mset hi + mset lo" by auto
  then show "stands cfg c e M m s"
    unfolding stands_def
    by (intro exI [of _ "tidy hi 0"] exI [of _ "tidy lo e"]) (simp add: held_def candidate_ok_tidy)
qed

lemma held_cached:
  assumes "held cfg c e hi lo m s"
  shows "cm_total_counted m = cm_bond m + amounts hi" "cm_delegation_count m = length hi + length lo"
    "cm_lowest_top_delegation_amount m = lowest_delegation_amount (tidy hi 0)"
    "cm_top_capacity m = top_capacity cfg (tidy hi 0)"
    "cm_lowest_bottom_delegation_amount m = lowest_delegation_amount (tidy lo e)"
    "cm_highest_bottom_delegation_amount m = highest_delegation_amount (tidy lo e)"
    "cm_bottom_capacity m = bottom_capacity cfg (tidy lo e)"
proof -
  have "candidate_ok cfg e m (tidy hi 0) (tidy lo e)"
    using assms by (simp add: held_def candidate_ok_tidy)
  then show "cm_total_counted m = cm_bond m + amounts hi" "cm_delegation_count m = length hi + length lo"
    "cm_lowest_top_delegation_amount m = lowest_delegation_amount (tidy hi 0)"
    "cm_top_capacity m = top_capacity cfg (tidy hi 0)"
    "cm_lowest_bottom_delegation_amount m = lowest_delegation_amount (tidy lo e)"
    "cm_highest_bottom_delegation_amount m = highest_delegation_amount (tidy lo e)"
    "cm_bottom_capacity m = bottom_capacity cfg (tidy lo e)"
    by (simp_all add: candidate_ok_def)
qed

lemma held_settle:
  assumes "held cfg c e hi lo m s" and "ranked cfg hi' lo'"
    and "cm_bond m + amounts hi' + amounts lo' + e' \<le> u128_max"
  shows "stands cfg c e' (mset hi' + mset lo') (meta' cfg e' m hi' lo') (storage' c e' m hi' lo' s)
    \<and> only_candidate c s (storage' c e' m hi' lo' s)
    \<and> (\<not> is_active m \<longrightarrow> CandidatePool (storage' c e' m hi' lo' s) = CandidatePool s)"
  using settle_stands [of cfg c m s "tidy hi' 0" "tidy lo' e'" e'] assms
  by (simp add: held_def settle_def refreshed_def)

end
