(* ===== verification/Candidate_Moves.thy ===== *)
theory Candidate_Moves
  imports Candidate_Books
begin

text \<open>
  Removing, increasing and decreasing a delegation of a candidate. For each method the lists it
  writes are computed as functions of the lists it read, on either side of the book, and the
  book it leaves differs by exactly the bond it is about.
\<close>

declare find_bond_None [simp del]

lemma tidy_update [simp]:
  "tidy a k\<lparr>ds_delegations := xs, ds_total := amounts xs + e\<rparr> = tidy xs e"
  "tidy a k\<lparr>ds_delegations := xs, ds_total := amounts xs\<rparr> = tidy xs 0"
  by (simp_all add: tidy_def)

section \<open>Removing\<close>

definition rm_top_lists :: "Bond \<Rightarrow> Bond list \<Rightarrow> Bond list \<Rightarrow> Bond list \<times> Bond list" where
  "rm_top_lists x hi lo =
     (case lo of [] \<Rightarrow> (without (b_owner x) hi, [])
      | h # ls \<Rightarrow> (stable_insert h (without (b_owner x) hi), ls))"

lemma held_ranked:
  assumes "held cfg c e hi lo m s"
  shows "ranked cfg hi lo" and "TopDelegations s c = Some (tidy hi 0)"
    and "BottomDelegations s c = Some (tidy lo e)" and "pool_at cfg c m (CandidatePool s)"
    and "cm_bond m + amounts hi + amounts lo + e \<le> u128_max"
  using assms by (auto simp: held_def)

lemma wp_rm_top_absent:
  assumes "held cfg c e hi lo m s" and "d \<notin> owners hi"
  shows "wp (rm_top_delegation cfg c d m) Q E s = E (Module DelegationDNE) s"
proof -
  have "find_bond d hi = None" using assms(2) by (simp add: find_bond_None)
  with held_ranked(2) [OF assms(1)] show ?thesis by (simp add: rm_top_delegation_def wp_simps)
qed

lemma wp_rm_top:
  assumes "held cfg c e hi lo m s" and "params_ok cfg" and "x \<in> set hi"
    and "rm_top_lists x hi lo = (hi', lo')"
  shows "wp (rm_top_delegation cfg c (b_owner x) m) Q E s =
    Q (meta' cfg e m hi' lo', cm_total_counted m = cm_bond m + amounts hi') (storage' c e m hi' lo' s)"
proof -
  note h = held_ranked [OF assms(1)] and cached = held_cached [OF assms(1)]
  note p = ranked_parts [OF h(1)]
  have found: "find_bond (b_owner x) hi = Some x" using find_bond_Some [OF p(4) assms(3)] .
  have sum: "amounts hi = b_amount x + amounts (without (b_owner x) hi)"
    using amounts_without [OF p(4) assms(3)] .
  have len: "length hi = Suc (length (without (b_owner x) hi))"
    using length_without [OF p(4) assms(3)] by simp
  have desc: "descending (without (b_owner x) hi)" using p(1) by (rule descending_filter)
  have cap: "bottom_capacity cfg (tidy lo e) = Empty \<longleftrightarrow> lo = []"
    using capacity_simps(3) [of cfg "tidy hi 0" "tidy lo e"] h(1) assms(2) by simp
  note run = rm_top_delegation_def wp_simps found cached wp_reset_top_data [of cfg c m] h(2-4)
    reset_bottom_data_def Let_def
  show ?thesis
  proof (cases lo)
    case Nil
    then have hl: "hi' = without (b_owner x) hi" "lo' = []"
      using assms(4) by (auto simp: rm_top_lists_def)
    have "bottom_capacity cfg (tidy [] e) = Empty" using cap Nil by simp
    note run = run this
    show ?thesis
      using h(5) sum apply (simp add: run Nil hl)
      apply (rule arg_cong2 [of _ _ _ _ Q])
      apply (simp, rule CandidateMetadata.equality; simp add: refit_def cached tidy_def hl Nil len)
      apply (rule staking.equality; simp add: settle_def tidy_def fun_upd_idem h Nil)
      done
  next
    case (Cons k ls)
    then have hl: "hi' = stable_insert k (without (b_owner x) hi)" "lo' = ls"
      using assms(4) by (auto simp: rm_top_lists_def)
    have "bottom_capacity cfg (tidy (k # ls) e) \<noteq> Empty" using cap Cons by simp
    note run = run this
    show ?thesis
      using h(5) sum apply (simp add: run Cons hl insert_tidy [OF desc _ refl])
      apply (rule arg_cong2 [of _ _ _ _ Q])
      apply (simp, rule CandidateMetadata.equality; simp add: refit_def cached tidy_def hl Cons len)
      apply (rule staking.equality; simp add: settle_def tidy_def fun_upd_idem h Cons)
      done
  qed
qed

lemma wp_rm_bottom:
  assumes "held cfg c e hi lo m s" and "params_ok cfg" and "x \<in> set lo"
  shows "wp (rm_bottom_delegation cfg c (b_owner x) m) Q E s =
    Q (meta' cfg e m hi (without (b_owner x) lo), False)
      (storage' c e m hi (without (b_owner x) lo) s)"
proof -
  note h = held_ranked [OF assms(1)] and cached = held_cached [OF assms(1)]
  note p = ranked_parts [OF h(1)]
  have found: "find_bond (b_owner x) lo = Some x" using find_bond_Some [OF p(5) assms(3)] .
  have sum: "amounts lo = b_amount x + amounts (without (b_owner x) lo)"
    using amounts_without [OF p(5) assms(3)] .
  have len: "length lo = Suc (length (without (b_owner x) lo))"
    using length_without [OF p(5) assms(3)] by simp
  show ?thesis
    using h(5) sum
    apply (simp add: rm_bottom_delegation_def wp_simps found h(2-4) reset_bottom_data_def Let_def)
    apply (rule arg_cong2 [of _ _ _ _ Q])
     apply (simp, rule CandidateMetadata.equality; simp add: refit_def cached len)
    apply (rule staking.equality; simp add: settle_def fun_upd_idem h refreshed_def cached)
    done
qed

lemma wp_or_else_dne [wp_simps]:
  "wp (or_else_dne r alt) Q E s =
    wp r Q (\<lambda>e t. if e = Module DelegationDNE then wp alt Q E t else E e t) s"
  by (auto simp: wp_def or_else_dne_def bind_m_def attempt_m_def return_m_def fail_m_def
      split: prod.splits outcome.splits sum.splits)

lemma held_top: "held cfg c e hi lo m s \<Longrightarrow> x \<in> set hi \<Longrightarrow>
    cm_lowest_top_delegation_amount m \<le> b_amount x"
  using lowest_le [of "tidy hi 0" x] ranked_parts(1) held_ranked(1) by (fastforce simp: held_cached)

lemma held_bottom:
  assumes "held cfg c e hi lo m s" and "params_ok cfg" and "x \<in> set lo"
  shows "cm_top_capacity m = Full" and "cm_bottom_capacity m \<noteq> Empty" and "hi \<noteq> []"
    and "b_amount x \<le> cm_highest_bottom_delegation_amount m"
    and "cm_highest_bottom_delegation_amount m \<le> cm_lowest_top_delegation_amount m"
    and "b_owner x \<notin> owners hi"
proof -
  note h = held_ranked [OF assms(1)] and cached = held_cached [OF assms(1)]
  note p = ranked_parts [OF h(1)]
  have lo: "lo \<noteq> []" using assms(3) by auto
  have ranked: "ranked cfg (ds_delegations (tidy hi 0)) (ds_delegations (tidy lo e))" using h(1) by simp
  show "cm_top_capacity m = Full" "cm_bottom_capacity m \<noteq> Empty"
    using capacity_simps [OF ranked assms(2)] p(10) [OF lo] lo by (auto simp: cached)
  show hi: "hi \<noteq> []" using p(10) [OF lo] assms(2) by (auto simp: params_ok_def)
  show "b_amount x \<le> cm_highest_bottom_delegation_amount m"
    using highest_ge [of "tidy lo e" x] p(2) assms(3) by (simp add: cached)
  show "cm_highest_bottom_delegation_amount m \<le> cm_lowest_top_delegation_amount m"
    using p(3) [of "last hi" "hd lo"] hi lo by (simp add: cached lowest_eq_last highest_eq_hd)
  show "b_owner x \<notin> owners hi" using p(6) assms(3) by auto
qed

text \<open>Which list a removal goes to: the one the bond is in.\<close>

lemma wp_rm_delegation_if_exists:
  assumes "held cfg c e hi lo m s" and "params_ok cfg" and "x \<in> set hi \<union> set lo"
  shows "wp (rm_delegation_if_exists cfg c (b_owner x) (b_amount x) m) Q E s =
    (if x \<in> set hi then wp (rm_top_delegation cfg c (b_owner x) m) Q E s
     else wp (rm_bottom_delegation cfg c (b_owner x) m) Q E s)"
proof (cases "x \<in> set hi")
  case True
  then have "cm_lowest_top_delegation_amount m \<le> b_amount x" using held_top [OF assms(1)] by simp
  moreover obtain hi' lo' where "rm_top_lists x hi lo = (hi', lo')" by fastforce
  note wp_rm_top [OF assms(1,2) True this]
  ultimately show ?thesis
    using True by (simp add: rm_delegation_if_exists_def wp_simps Let_def)
next
  case False
  with assms(3) have x: "x \<in> set lo" by simp
  note hb = held_bottom [OF assms(1,2) x]
  have "cm_lowest_top_delegation_amount m \<le> b_amount x \<Longrightarrow>
      cm_lowest_top_delegation_amount m = cm_highest_bottom_delegation_amount m"
    using hb(4,5) by simp
  with False hb show ?thesis
    by (auto simp: rm_delegation_if_exists_def wp_simps Let_def wp_rm_top_absent [OF assms(1)])
qed

lemma mset_book_without:
  assumes "distinct (map b_owner ds)" and "x \<in> set ds"
  shows "mset (without (b_owner x) ds) = mset ds - {#x#}"
  using arg_cong [OF mset_without [OF assms], of "\<lambda>M. M - {#x#}"] by (simp del: mset_filter)

theorem rm_delegation_removes:
  assumes "stands cfg c e M m s" and "params_ok cfg" and "x \<in># M"
  shows "wp (rm_delegation_if_exists cfg c (b_owner x) (b_amount x) m)
    (\<lambda>(m', _) s'. stands cfg c e (M - {#x#}) m' s' \<and> same_identity m m' \<and> only_candidate c s s'
      \<and> (\<not> is_active m \<longrightarrow> CandidatePool s' = CandidatePool s))
    (\<lambda>_ _. False) s"
proof -
  obtain hi lo where held: "held cfg c e hi lo m s" and M: "M = mset hi + mset lo"
    using assms(1) by (auto simp: stands_held)
  note h = held_ranked [OF held]
  note p = ranked_parts [OF h(1)]
  have x: "x \<in> set hi \<union> set lo" using assms(3) M by auto
  show ?thesis
  proof (cases "x \<in> set hi")
    case True
    obtain hi' lo' where hl: "rm_top_lists x hi lo = (hi', lo')" by fastforce
    have M': "mset hi' + mset lo' = M - {#x#}"
      using hl mset_book_without [OF p(4) True] True unfolding M
      by (auto simp: rm_top_lists_def simp del: mset_filter split: list.splits)
    have sum: "amounts hi' + amounts lo' \<le> amounts hi + amounts lo"
      using hl amounts_without [OF p(4) True] by (auto simp: rm_top_lists_def split: list.splits)
    have "ranked cfg hi' lo'"
      using hl h(1) ranked_rm_top [of cfg hi "b_owner x"] ranked_rm_top_promote [OF _ assms(2) True] assms(2)
      by (auto simp: rm_top_lists_def split: list.splits)
    from held_settle [OF held this, of e] h(5) sum M' show ?thesis
      using True by (simp add: wp_rm_delegation_if_exists [OF held assms(2) x]
          wp_rm_top [OF held assms(2) True hl])
  next
    case False
    with x have xl: "x \<in> set lo" by simp
    have "x \<notin># mset hi" using False by simp
    then have M': "mset hi + mset (without (b_owner x) lo) = M - {#x#}"
      using mset_book_without [OF p(5) xl] xl unfolding M by (simp del: mset_filter)
    from held_settle [OF held ranked_rm_bottom [OF h(1) assms(2), of "b_owner x"], of e]
      h(5) amounts_without [OF p(5) xl] M'
    show ?thesis using False xl
      by (simp add: wp_rm_delegation_if_exists [OF held assms(2) x]
          wp_rm_bottom [OF held assms(2) xl])
  qed
qed

section \<open>Increasing\<close>

abbreviation with_amount :: "Bond \<Rightarrow> Balance \<Rightarrow> Bond" where
  "with_amount x a \<equiv> x\<lparr>b_amount := a\<rparr>"

text \<open>The list after one bond of it has been given the amount \<open>f\<close> of its amount.\<close>

lemma adjusted:
  assumes "distinct (map b_owner ds)" and "x \<in> set ds"
  shows "mset (greatest_first (adjust_bond (b_owner x) f ds)) =
      add_mset (with_amount x (f (b_amount x))) (mset (without (b_owner x) ds))"
    and "amounts (adjust_bond (b_owner x) f ds) + b_amount x = amounts ds + f (b_amount x)"
    and "length (adjust_bond (b_owner x) f ds) = length ds"
proof -
  show eq: "mset (greatest_first (adjust_bond (b_owner x) f ds)) =
      add_mset (with_amount x (f (b_amount x))) (mset (without (b_owner x) ds))"
    using mset_adjust_bond [OF assms, of f] by simp
  have "mset (adjust_bond (b_owner x) f ds) =
      mset (with_amount x (f (b_amount x)) # without (b_owner x) ds)" using eq by simp
  from sum_list_mset_eq [OF this, of b_amount]
  show "amounts (adjust_bond (b_owner x) f ds) + b_amount x = amounts ds + f (b_amount x)"
    using amounts_without [OF assms] by simp
qed simp

lemma amounts_greatest_first [simp]: "amounts (greatest_first ds) = amounts ds"
  by (rule sum_list_mset_eq) simp

lemma wp_increase_top:
  assumes "held cfg c e hi lo m s" and "x \<in> set hi"
    and "cm_bond m + amounts hi + amounts lo + e + more' \<le> u128_max"
    and "hi' = greatest_first (adjust_bond (b_owner x) (\<lambda>a. sat_add_u128 a more') hi)"
  shows "wp (increase_top_delegation cfg c (b_owner x) more' m) Q E s =
    Q (meta' cfg e m hi' lo, True) (storage' c e m hi' lo s)"
proof -
  note h = held_ranked [OF assms(1)] and cached = held_cached [OF assms(1)]
  note p = ranked_parts [OF h(1)]
  let ?adj = "adjust_bond (b_owner x) (\<lambda>a. sat_add_u128 a more') hi"
  have "b_amount x \<le> amounts hi" using amounts_without [OF p(4) assms(2)] by simp
  then have sum: "amounts ?adj = amounts hi + more'"
    using adjusted(2) [OF p(4) assms(2), of "\<lambda>a. sat_add_u128 a more'"] assms(3)
    by (simp add: sat_add_u128_exact)
  have own: "b_owner x \<in> owners hi" using assms(2) by simp
  have srt: "sort_greatest_to_least
      (tidy hi 0\<lparr>ds_delegations := ?adj, ds_total := sat_add_u128 (amounts hi) more'\<rparr>) = tidy hi' 0"
    using sort_tidy [of "tidy hi 0\<lparr>ds_delegations := ?adj, ds_total := sat_add_u128 (amounts hi) more'\<rparr>" 0]
      assms(3,4) sum by (simp add: sat_add_u128_exact)
  have fits: "cm_bond m + amounts hi' \<le> u128_max" using assms(3,4) sum by simp
  show ?thesis
    using own fits
    apply (simp add: increase_top_delegation_def wp_simps h(2-4) Let_def srt
        wp_reset_top_data [of cfg c m])
    apply (rule arg_cong2 [of _ _ _ _ Q])
     apply (simp, rule CandidateMetadata.equality; simp add: refit_def cached assms(4))
    apply (rule staking.equality; simp add: settle_def fun_upd_idem h assms(4))
    done
qed


lemma wp_increase_top_absent:
  assumes "held cfg c e hi lo m s" and "d \<notin> owners hi"
  shows "wp (increase_top_delegation cfg c d more' m) Q E s = E (Module DelegationDNE) s"
  using assms held_ranked(2) [OF assms(1)] by (simp add: increase_top_delegation_def wp_simps Let_def)

text \<open>A bond that outgrows the lowest of the top takes its place.\<close>

lemma wp_increase_bottom_promote:
  assumes "held cfg c e hi lo m s" and "params_ok cfg" and "x \<in> set lo"
    and "cm_bond m + amounts hi + amounts lo + e + more' \<le> u128_max"
    and "cm_lowest_top_delegation_amount m < b_amount x + more'"
    and "hi' = stable_insert (with_amount x (b_amount x + more')) (butlast hi)"
    and "lo' = stable_insert (last hi) (without (b_owner x) lo)"
  shows "wp (increase_bottom_delegation cfg c (b_owner x) (b_amount x) more' m) Q E s =
    Q (meta' cfg e m hi' lo', True) (storage' c e m hi' lo' s)"
proof -
  note h = held_ranked [OF assms(1)] and cached = held_cached [OF assms(1)]
  note p = ranked_parts [OF h(1)] and hb = held_bottom [OF assms(1-3)]
  have found: "find_bond (b_owner x) lo = Some x" using find_bond_Some [OF p(5) assms(3)] .
  have sum: "amounts lo = b_amount x + amounts (without (b_owner x) lo)"
    using amounts_without [OF p(5) assms(3)] .
  have len: "length lo = Suc (length (without (b_owner x) lo))"
    using length_without [OF p(5) assms(3)] by simp
  obtain hs l where hi: "hi = hs @ [l]" using hb(3) by (cases hi rule: rev_cases) auto
  then have desc: "descending hs" "descending (without (b_owner x) lo)"
    using p(1,2) by (auto intro: descending_filter)
  have full: "top_capacity cfg (tidy hi 0) = Full" using hb(1) cached by simp
  have bond: "\<lparr>b_owner = b_owner x, b_amount = b_amount x + more'\<rparr> = with_amount x (b_amount x + more')"
    by simp
  have sat: "sat_add_u128 (b_amount x) more' = b_amount x + more'"
    using assms(4) sum by (simp add: sat_add_u128_exact)
  show ?thesis
    using assms(4) sum assms(5) full
    apply (simp add: increase_bottom_delegation_def wp_simps h(2-4) Let_def found sat hi bond
        insert_tidy [OF desc(1) _ refl] insert_tidy [OF desc(2) _ refl] wp_reset_top_data [of cfg c m]
        reset_bottom_data_def)
    apply (rule arg_cong2 [of _ _ _ _ Q])
     apply (simp, rule CandidateMetadata.equality; simp add: refit_def cached assms(6,7) hi len)
    apply (rule staking.equality; simp add: settle_def fun_upd_idem h assms(6,7) hi)
    done
qed


lemma wp_increase_bottom_stay:
  assumes "held cfg c e hi lo m s" and "params_ok cfg" and "x \<in> set lo"
    and "cm_bond m + amounts hi + amounts lo + e + more' \<le> u128_max"
    and "b_amount x + more' \<le> cm_lowest_top_delegation_amount m"
    and "lo' = greatest_first (adjust_bond (b_owner x) (\<lambda>a. sat_add_u128 a more') lo)"
  shows "wp (increase_bottom_delegation cfg c (b_owner x) (b_amount x) more' m) Q E s =
    Q (meta' cfg e m hi lo', False) (storage' c e m hi lo' s)"
proof -
  note h = held_ranked [OF assms(1)] and cached = held_cached [OF assms(1)]
  note p = ranked_parts [OF h(1)] and hb = held_bottom [OF assms(1-3)]
  let ?adj = "adjust_bond (b_owner x) (\<lambda>a. sat_add_u128 a more') lo"
  have le: "b_amount x \<le> amounts lo" using amounts_without [OF p(5) assms(3)] by simp
  then have sum: "amounts ?adj = amounts lo + more'"
    using adjusted(2) [OF p(5) assms(3), of "\<lambda>a. sat_add_u128 a more'"] assms(4)
    by (simp add: sat_add_u128_exact)
  have own: "b_owner x \<in> owners lo" using assms(3) by simp
  have srt: "sort_greatest_to_least
      (tidy lo e\<lparr>ds_delegations := ?adj, ds_total := sat_add_u128 (amounts lo + e) more'\<rparr>) = tidy lo' e"
    using sort_tidy [of "tidy lo e\<lparr>ds_delegations := ?adj, ds_total := sat_add_u128 (amounts lo + e) more'\<rparr>" e]
      assms(4,6) sum by (simp add: sat_add_u128_exact)
  have sat: "sat_add_u128 (b_amount x) more' = b_amount x + more'"
    using assms(4) le by (simp add: sat_add_u128_exact)
  show ?thesis
    using own assms(5)
    apply (simp add: increase_bottom_delegation_def wp_simps h(2-4) Let_def sat srt reset_bottom_data_def)
    apply (rule arg_cong2 [of _ _ _ _ Q])
     apply (simp, rule CandidateMetadata.equality; simp add: refit_def cached assms(6))
    apply (rule staking.equality; simp add: settle_def fun_upd_idem h assms(6) refreshed_def cached)
    done
qed

text \<open>The book after a bond has been given another amount.\<close>

abbreviation rebonded :: "Bond multiset \<Rightarrow> Bond \<Rightarrow> Balance \<Rightarrow> Bond multiset" where
  "rebonded M x a \<equiv> add_mset (with_amount x a) (M - {#x#})"

text \<open>The state after a step on the candidate \<open>c\<close> that leaves the book \<open>M\<close>.\<close>

definition reached ::
  "'w config \<Rightarrow> AccountId \<Rightarrow> Balance \<Rightarrow> Bond multiset \<Rightarrow> CandidateMetadata \<Rightarrow> 'w staking
    \<Rightarrow> CandidateMetadata \<Rightarrow> 'w staking \<Rightarrow> bool" where
  "reached cfg c e M m s m' s' \<longleftrightarrow>
     stands cfg c e M m' s' \<and> same_identity m m' \<and> only_candidate c s s'
     \<and> (\<not> is_active m \<longrightarrow> CandidatePool s' = CandidatePool s)"

lemma held_reached:
  assumes "held cfg c e hi lo m s" and "ranked cfg hi' lo'"
    and "cm_bond m + amounts hi' + amounts lo' + e' \<le> u128_max"
    and "mset hi' + mset lo' = M"
  shows "reached cfg c e' M m s (meta' cfg e' m hi' lo') (storage' c e' m hi' lo' s)"
  using held_settle [OF assms(1-3)] assms(4) by (simp add: reached_def)

lemma increase_in_top:
  assumes "held cfg c e hi lo m s" and "params_ok cfg" and "x \<in> set hi"
    and "cm_bond m + amounts hi + amounts lo + e + more' \<le> u128_max"
  shows "wp (increase_delegation cfg c (b_owner x) (b_amount x) more' m)
    (\<lambda>(m', in_top) s'. reached cfg c e (rebonded (mset hi + mset lo) x (b_amount x + more')) m s m' s'
       \<and> in_top) (\<lambda>_ _. False) s"
proof -
  note h = held_ranked [OF assms(1)]
  note p = ranked_parts [OF h(1)]
  let ?x' = "with_amount x (b_amount x + more')"
  define hi' where "hi' = greatest_first (adjust_bond (b_owner x) (\<lambda>a. sat_add_u128 a more') hi)"
  have low: "cm_lowest_top_delegation_amount m \<le> b_amount x" by (rule held_top [OF assms(1,3)])
  have sat: "sat_add_u128 (b_amount x) more' = b_amount x + more'"
    using assms(4) amounts_without [OF p(4) assms(3)] by (simp add: sat_add_u128_exact)
  note adj = adjusted [OF p(4) assms(3), of "\<lambda>a. sat_add_u128 a more'", unfolded sat]
  have mset: "mset hi' = add_mset ?x' (mset (without (b_owner x) hi))" using adj(1) by (simp add: hi'_def)
  have rank: "ranked cfg hi' lo"
    using p(3) [OF assms(3)] mset
    by (intro ranked_adjust_top [OF h(1) assms(2,3), of ?x'])
      (auto simp: hi'_def descending_greatest_first intro: trans_le_add1)
  have M': "mset hi' + mset lo = rebonded (mset hi + mset lo) x (b_amount x + more')"
    using mset mset_book_without [OF p(4) assms(3)] assms(3) by (simp del: mset_filter)
  have fits: "cm_bond m + amounts hi' + amounts lo + e \<le> u128_max"
    using adj(2) assms(4) by (simp add: hi'_def)
  show ?thesis
    using held_reached [OF assms(1) rank fits M'] low
    by (simp add: increase_delegation_def wp_simps Let_def
        wp_increase_top [OF assms(1,3,4) hi'_def])
qed

lemma increase_in_bottom:
  assumes "held cfg c e hi lo m s" and "params_ok cfg" and "x \<in> set lo"
    and "cm_bond m + amounts hi + amounts lo + e + more' \<le> u128_max"
  shows "wp (increase_bottom_delegation cfg c (b_owner x) (b_amount x) more' m)
    (\<lambda>(m', in_top) s'. reached cfg c e (rebonded (mset hi + mset lo) x (b_amount x + more')) m s m' s'
       \<and> in_top = (cm_lowest_top_delegation_amount m < b_amount x + more')) (\<lambda>_ _. False) s"
proof -
  note h = held_ranked [OF assms(1)] and hb = held_bottom [OF assms(1-3)]
  note p = ranked_parts [OF h(1)]
  note split = amounts_without [OF p(5) assms(3)]
  let ?x' = "with_amount x (b_amount x + more')"
  have x: "x \<notin># mset hi" using hb(6) by auto
  have sat: "sat_add_u128 (b_amount x) more' = b_amount x + more'"
    using assms(4) split by (simp add: sat_add_u128_exact)
  show ?thesis
  proof (cases "b_amount x + more' \<le> cm_lowest_top_delegation_amount m")
    case True
    define lo' where "lo' = greatest_first (adjust_bond (b_owner x) (\<lambda>a. sat_add_u128 a more') lo)"
    note adj = adjusted [OF p(5) assms(3), of "\<lambda>a. sat_add_u128 a more'", unfolded sat]
    have mset: "mset lo' = add_mset ?x' (mset (without (b_owner x) lo))" using adj(1) by (simp add: lo'_def)
    have rank: "ranked cfg hi lo'"
      using mset True held_top [OF assms(1)]
      by (intro ranked_adjust_bottom [OF h(1) assms(2,3), of ?x'])
        (auto simp: lo'_def descending_greatest_first intro: order_trans)
    have M': "mset hi + mset lo' = rebonded (mset hi + mset lo) x (b_amount x + more')"
      using mset mset_book_without [OF p(5) assms(3)] assms(3) x by (simp del: mset_filter)
    have fits: "cm_bond m + amounts hi + amounts lo' + e \<le> u128_max"
      using adj(2) assms(4) by (simp add: lo'_def)
    show ?thesis
      using held_reached [OF assms(1) rank fits M'] True
      by (simp add: wp_increase_bottom_stay [OF assms True lo'_def])
  next
    case False
    then have more: "cm_lowest_top_delegation_amount m < b_amount x + more'" by simp
    obtain hs l where hi: "hi = hs @ [l]" using hb(3) by (cases hi rule: rev_cases) auto
    let ?hi = "stable_insert ?x' (butlast hi)"
    let ?lo = "stable_insert (last hi) (without (b_owner x) lo)"
    have "b_amount l < b_amount x + more'"
      using more hi by (simp add: held_cached [OF assms(1)] lowest_eq_last)
    then have rank: "ranked cfg ?hi ?lo"
      using ranked_promote [of cfg hs l lo x ?x'] h(1) assms(2,3) hi by simp
    have M': "mset ?hi + mset ?lo = rebonded (mset hi + mset lo) x (b_amount x + more')"
      using mset_book_without [OF p(5) assms(3)] assms(3) x unfolding hi by (simp del: mset_filter)
    have fits: "cm_bond m + amounts ?hi + amounts ?lo + e \<le> u128_max"
      using assms(4) split hi by simp
    show ?thesis
      using held_reached [OF assms(1) rank fits M'] more
      by (simp add: wp_increase_bottom_promote [OF assms more refl refl])
  qed
qed

theorem increase_delegation_rebonds:
  assumes "stands cfg c e M m s" and "params_ok cfg" and "x \<in># M"
    and "cm_bond m + sum_mset (image_mset b_amount M) + e + more' \<le> u128_max"
  shows "wp (increase_delegation cfg c (b_owner x) (b_amount x) more' m)
    (\<lambda>(m', _) s'. reached cfg c e (rebonded M x (b_amount x + more')) m s m' s')
    (\<lambda>_ _. False) s"
proof -
  obtain hi lo where held: "held cfg c e hi lo m s" and M: "M = mset hi + mset lo"
    using assms(1) by (auto simp: stands_held)
  have room: "cm_bond m + amounts hi + amounts lo + e + more' \<le> u128_max"
    using assms(4) unfolding M by (simp flip: sum_mset_sum_list)
  show ?thesis
  proof (cases "x \<in> set hi")
    case True
    show ?thesis unfolding M
      by (rule wp_mono [OF increase_in_top [OF held assms(2) True room]]) auto
  next
    case False
    with assms(3) M have xl: "x \<in> set lo" by auto
    note hb = held_bottom [OF held assms(2) xl]
    have "wp (increase_delegation cfg c (b_owner x) (b_amount x) more' m) Q E s =
        wp (increase_bottom_delegation cfg c (b_owner x) (b_amount x) more' m) Q E s" for Q E
      using hb(4,5) by (auto simp: increase_delegation_def wp_simps Let_def
          wp_increase_top_absent [OF held hb(6)])
    then show ?thesis unfolding M
      by (auto intro!: wp_mono [OF increase_in_bottom [OF held assms(2) xl room]])
  qed
qed


section \<open>Decreasing\<close>

lemma amounts_of_owner:
  assumes "distinct (map b_owner ds)" and "x \<in> set ds"
  shows "amounts (filter (\<lambda>y. b_owner y = b_owner x) ds) = b_amount x"
proof -
  have "amounts ds = amounts (filter (\<lambda>y. b_owner y = b_owner x) ds) + amounts (without (b_owner x) ds)"
    by (induction ds) auto
  with amounts_without [OF assms] show ?thesis by simp
qed

lemma wp_decrease_top_absent:
  assumes "held cfg c e hi lo m s" and "d \<notin> owners hi"
  shows "wp (decrease_top_delegation cfg c d a less' m) Q E s = E (Module DelegationDNE) s"
proof -
  have "find_bond d hi = None" using assms(2) by (simp add: find_bond_None)
  with assms(2) held_ranked(2) [OF assms(1)] show ?thesis
    by (simp add: decrease_top_delegation_def wp_simps Let_def)
qed

text \<open>A bond that falls below the highest of the bottom changes places with it.\<close>

lemma wp_decrease_top_demote:
  assumes "held cfg c e hi (k # ls) m s" and "params_ok cfg" and "x \<in> set hi"
    and "less' \<le> b_amount x" and "b_amount x - less' < b_amount k"
    and "hi' = stable_insert k (without (b_owner x) hi)"
    and "lo' = stable_insert (with_amount x (b_amount x - less')) ls"
  shows "wp (decrease_top_delegation cfg c (b_owner x) (b_amount x) less' m) Q E s =
    Q (meta' cfg e m hi' lo', False) (storage' c e m hi' lo' s)"
proof -
  note h = held_ranked [OF assms(1)] and cached = held_cached [OF assms(1)]
  note p = ranked_parts [OF h(1)] and hb = held_bottom [OF assms(1,2), of k]
  have found: "find_bond (b_owner x) hi = Some x" using find_bond_Some [OF p(4) assms(3)] .
  have sum: "amounts hi = b_amount x + amounts (without (b_owner x) hi)"
    using amounts_without [OF p(4) assms(3)] .
  have len: "length hi = Suc (length (without (b_owner x) hi))"
    using length_without [OF p(4) assms(3)] by simp
  have desc: "descending ls" "descending (without (b_owner x) hi)"
    using p(1,2) by (auto intro: descending_filter)
  have high: "cm_highest_bottom_delegation_amount m = b_amount k"
    using cached by (simp add: highest_eq_hd)
  have bond: "\<lparr>b_owner = b_owner x, b_amount = b_amount x - less'\<rparr> = with_amount x (b_amount x - less')"
    by simp
  note own = amounts_of_owner [OF p(4) assms(3)]
  show ?thesis
    using h(5) sum assms(4,5)
    apply (simp add: decrease_top_delegation_def wp_simps h(2-4) Let_def found high hb bond own
        insert_tidy [OF desc(1) _ refl] insert_tidy [OF desc(2) _ refl] wp_reset_top_data [of cfg c m]
        reset_bottom_data_def)
    apply (rule arg_cong2 [of _ _ _ _ Q])
     apply (simp, rule CandidateMetadata.equality; simp add: refit_def cached assms(6,7) len)
    apply (rule staking.equality; simp add: settle_def fun_upd_idem h assms(6,7))
    done
qed

lemma wp_decrease_top_stay:
  assumes "held cfg c e hi lo m s" and "params_ok cfg" and "x \<in> set hi" and "less' \<le> b_amount x"
    and "\<And>y. y \<in> set lo \<Longrightarrow> b_amount y \<le> b_amount x - less'"
    and "hi' = greatest_first (adjust_bond (b_owner x) (\<lambda>a. a - less') hi)"
  shows "wp (decrease_top_delegation cfg c (b_owner x) (b_amount x) less' m) Q E s =
    Q (meta' cfg e m hi' lo, True) (storage' c e m hi' lo s)"
proof -
  note h = held_ranked [OF assms(1)] and cached = held_cached [OF assms(1)]
  note p = ranked_parts [OF h(1)]
  let ?adj = "adjust_bond (b_owner x) (\<lambda>a. a - less') hi"
  have le: "b_amount x \<le> amounts hi" using amounts_without [OF p(4) assms(3)] by simp
  have sum: "amounts ?adj = amounts hi - less'"
    using adjusted(2) [OF p(4) assms(3), of "\<lambda>a. a - less'"] assms(4) le by simp
  have own: "b_owner x \<in> owners hi" using assms(3) by simp
  have srt: "sort_greatest_to_least
      (tidy hi 0\<lparr>ds_delegations := ?adj, ds_total := amounts hi - less'\<rparr>) = tidy hi' 0"
    using sort_tidy [of "tidy hi 0\<lparr>ds_delegations := ?adj, ds_total := amounts hi - less'\<rparr>" 0]
      assms(6) sum by simp
  have fits: "cm_bond m + amounts hi' \<le> u128_max" using h(5) assms(6) sum by simp
  have high: "\<not> b_amount x - less' < cm_highest_bottom_delegation_amount m"
    using assms(5) [of "hd lo"] cached by (cases lo) (auto simp: highest_eq_hd)
  show ?thesis
    using own fits high
    apply (simp add: decrease_top_delegation_def wp_simps h(2-4) Let_def srt
        wp_reset_top_data [of cfg c m])
    apply (rule arg_cong2 [of _ _ _ _ Q])
     apply (simp, rule CandidateMetadata.equality; simp add: refit_def cached assms(6))
    apply (rule staking.equality; simp add: settle_def fun_upd_idem h assms(6))
    done
qed

text \<open>The bottom total keeps the amount that was taken off.\<close>

lemma wp_decrease_bottom:
  assumes "held cfg c e hi lo m s" and "params_ok cfg" and "x \<in> set lo" and "less' \<le> b_amount x"
    and "lo' = greatest_first (adjust_bond (b_owner x) (\<lambda>a. a - less') lo)"
  shows "wp (decrease_bottom_delegation cfg c (b_owner x) less' m) Q E s =
    Q (meta' cfg (e + less') m hi lo', False) (storage' c (e + less') m hi lo' s)"
proof -
  note h = held_ranked [OF assms(1)] and cached = held_cached [OF assms(1)]
  note p = ranked_parts [OF h(1)]
  let ?adj = "adjust_bond (b_owner x) (\<lambda>a. a - less') lo"
  have le: "b_amount x \<le> amounts lo" using amounts_without [OF p(5) assms(3)] by simp
  have sum: "amounts ?adj + less' = amounts lo"
    using adjusted(2) [OF p(5) assms(3), of "\<lambda>a. a - less'"] assms(4) le by simp
  have own: "b_owner x \<in> owners lo" using assms(3) by simp
  have srt: "sort_greatest_to_least (tidy lo e\<lparr>ds_delegations := ?adj\<rparr>) = tidy lo' (e + less')"
    using sort_tidy [of "tidy lo e\<lparr>ds_delegations := ?adj\<rparr>" "e + less'"] assms(5) sum by simp
  show ?thesis
    using own
    apply (simp add: decrease_bottom_delegation_def wp_simps h(2-4) Let_def srt reset_bottom_data_def)
    apply (rule arg_cong2 [of _ _ _ _ Q])
     apply (simp, rule CandidateMetadata.equality; simp add: refit_def cached assms(5))
    apply (rule staking.equality; simp add: settle_def fun_upd_idem h assms(5) refreshed_def cached)
    done
qed


lemma decrease_in_top:
  assumes "held cfg c e hi lo m s" and "params_ok cfg" and "x \<in> set hi" and "less' \<le> b_amount x"
  shows "wp (decrease_top_delegation cfg c (b_owner x) (b_amount x) less' m)
    (\<lambda>(m', _) s'. reached cfg c e (rebonded (mset hi + mset lo) x (b_amount x - less')) m s m' s')
    (\<lambda>_ _. False) s"
proof -
  note h = held_ranked [OF assms(1)]
  note p = ranked_parts [OF h(1)]
  note split = amounts_without [OF p(4) assms(3)]
  let ?x' = "with_amount x (b_amount x - less')"
  show ?thesis
  proof (cases "\<exists>k ls. lo = k # ls \<and> b_amount x - less' < b_amount k")
    case True
    then obtain k ls where lo: "lo = k # ls" and less: "b_amount x - less' < b_amount k" by blast
    let ?hi = "stable_insert k (without (b_owner x) hi)" and ?lo = "stable_insert ?x' ls"
    have rank: "ranked cfg ?hi ?lo"
      using ranked_demote [of cfg hi k ls x ?x'] h(1) assms(2,3) less lo by simp
    have M': "mset ?hi + mset ?lo = rebonded (mset hi + mset lo) x (b_amount x - less')"
      using mset_book_without [OF p(4) assms(3)] assms(3) unfolding lo by (simp del: mset_filter)
    have fits: "cm_bond m + amounts ?hi + amounts ?lo + e \<le> u128_max" using h(5) split lo by simp
    show ?thesis
      using held_reached [OF assms(1) rank fits M'] assms(1)
      by (simp add: lo wp_decrease_top_demote [OF _ assms(2-4) less refl refl])
  next
    case False
    then have low: "b_amount y \<le> b_amount x - less'" if "y \<in> set lo" for y
      using p(2) that by (cases lo) fastforce+
    define hi' where "hi' = greatest_first (adjust_bond (b_owner x) (\<lambda>a. a - less') hi)"
    note adj = adjusted [OF p(4) assms(3), of "\<lambda>a. a - less'"]
    have mset: "mset hi' = add_mset ?x' (mset (without (b_owner x) hi))" using adj(1) by (simp add: hi'_def)
    have rank: "ranked cfg hi' lo"
      using mset low by (intro ranked_adjust_top [OF h(1) assms(2,3), of ?x'])
        (auto simp: hi'_def descending_greatest_first)
    have M': "mset hi' + mset lo = rebonded (mset hi + mset lo) x (b_amount x - less')"
      using mset mset_book_without [OF p(4) assms(3)] assms(3) by (simp del: mset_filter)
    have fits: "cm_bond m + amounts hi' + amounts lo + e \<le> u128_max"
      using adj(2) h(5) by (simp add: hi'_def)
    show ?thesis
      using held_reached [OF assms(1) rank fits M']
      by (simp add: wp_decrease_top_stay [OF assms low hi'_def])
  qed
qed

lemma decrease_in_bottom:
  assumes "held cfg c e hi lo m s" and "params_ok cfg" and "x \<in> set lo" and "less' \<le> b_amount x"
  shows "wp (decrease_bottom_delegation cfg c (b_owner x) less' m)
    (\<lambda>(m', _) s'. reached cfg c (e + less')
       (rebonded (mset hi + mset lo) x (b_amount x - less')) m s m' s')
    (\<lambda>_ _. False) s"
proof -
  note h = held_ranked [OF assms(1)]
  note p = ranked_parts [OF h(1)]
  let ?x' = "with_amount x (b_amount x - less')"
  have x: "x \<notin># mset hi" using held_bottom(6) [OF assms(1-3)] by auto
  define lo' where "lo' = greatest_first (adjust_bond (b_owner x) (\<lambda>a. a - less') lo)"
  note adj = adjusted [OF p(5) assms(3), of "\<lambda>a. a - less'"]
  have mset: "mset lo' = add_mset ?x' (mset (without (b_owner x) lo))" using adj(1) by (simp add: lo'_def)
  have rank: "ranked cfg hi lo'"
    using mset p(3) [OF _ assms(3)]
    by (intro ranked_adjust_bottom [OF h(1) assms(2,3), of ?x'])
      (auto simp: lo'_def descending_greatest_first intro: le_trans [OF diff_le_self])
  have M': "mset hi + mset lo' = rebonded (mset hi + mset lo) x (b_amount x - less')"
    using mset mset_book_without [OF p(5) assms(3)] assms(3) x by (simp del: mset_filter)
  have fits: "cm_bond m + amounts hi + amounts lo' + (e + less') \<le> u128_max"
    using adj(2) h(5) assms(4) by (simp add: lo'_def)
  show ?thesis
    using held_reached [OF assms(1) rank fits M']
    by (simp add: wp_decrease_bottom [OF assms lo'_def])
qed

definition in_bottom :: "AccountId \<Rightarrow> Bond \<Rightarrow> 'w staking \<Rightarrow> bool" where
  "in_bottom c x s \<longleftrightarrow> (\<exists>b. BottomDelegations s c = Some b \<and> x \<in> set (ds_delegations b))"

theorem decrease_delegation_rebonds:
  assumes "stands cfg c e M m s" and "params_ok cfg" and "x \<in># M" and "less' \<le> b_amount x"
  shows "wp (decrease_delegation cfg c (b_owner x) (b_amount x) less' m)
    (\<lambda>(m', _) s'. reached cfg c (if in_bottom c x s then e + less' else e)
       (rebonded M x (b_amount x - less')) m s m' s')
    (\<lambda>_ _. False) s"
proof -
  obtain hi lo where held: "held cfg c e hi lo m s" and M: "M = mset hi + mset lo"
    using assms(1) by (auto simp: stands_held)
  have bot: "in_bottom c x s \<longleftrightarrow> x \<in> set lo" using held by (simp add: in_bottom_def held_def)
  show ?thesis
  proof (cases "x \<in> set lo")
    case True
    note hb = held_bottom [OF held assms(2) True]
    have "wp (decrease_delegation cfg c (b_owner x) (b_amount x) less' m) Q E s =
        wp (decrease_bottom_delegation cfg c (b_owner x) less' m) Q E s" for Q E
      using hb(4,5) by (auto simp: decrease_delegation_def wp_simps Let_def
          wp_decrease_top_absent [OF held hb(6)])
    then show ?thesis using True bot unfolding M
      by (auto intro!: wp_mono [OF decrease_in_bottom [OF held assms(2) True assms(4)]])
  next
    case False
    with assms(3) M have xh: "x \<in> set hi" by auto
    note top = decrease_in_top [OF held assms(2) xh assms(4)]
    have "cm_lowest_top_delegation_amount m \<le> b_amount x" by (rule held_top [OF held xh])
    then show ?thesis using False bot unfolding M
      by (auto simp: decrease_delegation_def wp_simps Let_def intro!: wp_mono [OF top])
  qed
qed

end
