(* ===== verification/Candidate_Entry.thy ===== *)
theory Candidate_Entry
  imports Candidate_Moves
begin

text \<open>
  Adding a delegation to a candidate: to the top, to the bottom, and in place of the lowest
  bottom delegation, whose delegator is kicked out when the bottom is full.
\<close>

section \<open>Kicking\<close>

definition kicked_out :: "'w config \<Rightarrow> AccountId \<Rightarrow> Bond \<Rightarrow> 'w staking \<Rightarrow> 'w staking" where
  "kicked_out cfg c k s =
     (case DelegatorState s (b_owner k) of
        None \<Rightarrow> s
      | Some st \<Rightarrow>
          (let st1 = drop_bond \<lparr>b_owner = c, b_amount = b_amount k\<rparr> st;
               st2 = st1\<lparr>d_less_total := d_less_total st1
                 - request_amount (b_owner k) (DelegationScheduledRequests s c)\<rparr>;
               leaving = (length (d_delegations st) = 1)
           in s\<lparr>DelegatorState :=
                  (DelegatorState s)(b_owner k := (if leaving then None else Some st2)),
                DelegationScheduledRequests := (DelegationScheduledRequests s)
                  (c := filter (\<lambda>req. sr_delegator req \<noteq> b_owner k) (DelegationScheduledRequests s c)),
                AutoCompoundingDelegations := (AutoCompoundingDelegations s)
                  (c := filter (\<lambda>x. ac_delegator x \<noteq> b_owner k) (AutoCompoundingDelegations s c)),
                Events := Events s @ DelegationKicked (b_owner k) c (b_amount k)
                  # (if leaving then [DelegatorLeft (b_owner k) (b_amount k)] else []),
                world := relock cfg st1 (world s)\<rparr>))"

text \<open>The delegator's own record agrees with the bond that the candidate holds.\<close>

definition backed :: "AccountId \<Rightarrow> Bond \<Rightarrow> 'w staking \<Rightarrow> bool" where
  "backed c k s \<longleftrightarrow>
     (\<exists>st. DelegatorState s (b_owner k) = Some st \<and> delegator_ok st
        \<and> \<lparr>b_owner = c, b_amount = b_amount k\<rparr> \<in> set (d_delegations st))
     \<and> requests_ok (DelegationScheduledRequests s c)
     \<and> key_sorted ac_delegator (AutoCompoundingDelegations s c)"

lemma kicked_out_simps [simp]:
  "TopDelegations (kicked_out cfg c k s) = TopDelegations s"
  "BottomDelegations (kicked_out cfg c k s) = BottomDelegations s"
  "CandidatePool (kicked_out cfg c k s) = CandidatePool s"
  "CandidateInfo (kicked_out cfg c k s) = CandidateInfo s"
  "Total (kicked_out cfg c k s) = Total s"
  "Round (kicked_out cfg c k s) = Round s"
  by (auto simp: kicked_out_def Let_def split: option.split)

lemma wp_kick:
  assumes "backed c k s"
  shows "wp (kick_lowest_bottom cfg c k) Q E s = Q () (kicked_out cfg c k s)"
proof -
  obtain st where st: "DelegatorState s (b_owner k) = Some st" "delegator_ok st"
    "\<lparr>b_owner = c, b_amount = b_amount k\<rparr> \<in> set (d_delegations st)"
    and rq: "requests_ok (DelegationScheduledRequests s c)"
    and ac: "key_sorted ac_delegator (AutoCompoundingDelegations s c)"
    using assms by (auto simp: backed_def)
  have "distinct (map b_owner (d_delegations st))"
    using st(2) by (simp add: delegator_ok_def key_sorted_distinct)
  from by_key_Some_iff [OF this, of c] st(3)
  have found: "by_key b_owner (d_delegations st) c = Some \<lparr>b_owner = c, b_amount = b_amount k\<rparr>" by simp
  show ?thesis
    using st(1) rq ac
    by (simp add: kick_lowest_bottom_def wp_simps Let_def wp_delegator_rm_delegation [OF st(2)] found
        wp_remove_request wp_remove_auto_compound kicked_out_def)
      (auto intro!: arg_cong [of _ _ "Q ()"] staking.equality)
qed

lemma held_kicked [simp]: "held cfg c e hi lo m (kicked_out cfg' c' k s) = held cfg c e hi lo m s"
  by (simp add: held_def)

section \<open>The bottom\<close>

lemma wp_add_bottom_room:
  assumes "BottomDelegations s c = Some (tidy lo e)" and "descending lo"
    and "length lo < MaxBottomDelegationsPerCandidate cfg" and "length lo \<le> u32_max"
    and "b_amount d + amounts lo + e \<le> u128_max"
  shows "wp (add_bottom_delegation cfg bumped c d m) Q E s =
    Q (reset_bottom_data cfg (tidy (stable_insert d lo) e)
        (if bumped then m else m\<lparr>cm_delegation_count := sat_add_u32 (cm_delegation_count m) 1\<rparr>))
      (s\<lparr>BottomDelegations := (BottomDelegations s)(c \<mapsto> tidy (stable_insert d lo) e)\<rparr>)"
  using assms
  by (simp add: add_bottom_delegation_def wp_simps Let_def as_u32_exact insert_tidy [OF assms(2) _ refl])

lemma wp_add_bottom_kick:
  assumes "BottomDelegations s c = Some (tidy (ls @ [k]) e)" and "descending ls"
    and "Suc (length ls) = MaxBottomDelegationsPerCandidate cfg" and "Suc (length ls) \<le> u32_max"
    and "b_amount d + amounts ls + e \<le> u128_max" and "backed c k s"
  shows "wp (add_bottom_delegation cfg bumped c d m) Q E s =
    Q (reset_bottom_data cfg (tidy (stable_insert d ls) e) m)
      ((kicked_out cfg c k s)\<lparr>BottomDelegations := (BottomDelegations s)(c \<mapsto> tidy (stable_insert d ls) e)\<rparr>)"
  using assms
  by (simp add: add_bottom_delegation_def wp_simps Let_def as_u32_exact wp_kick
      insert_tidy [OF assms(2) _ refl])


lemma held_counts:
  assumes "held cfg c e hi lo m s" and "params_ok cfg"
  shows "length hi \<le> u32_max" and "length lo \<le> u32_max"
    and "length hi + length lo < MaxTopDelegationsPerCandidate cfg + MaxBottomDelegationsPerCandidate cfg
      \<Longrightarrow> sat_add_u32 (cm_delegation_count m) 1 = Suc (length hi + length lo)"
    and "cm_top_capacity m = Full \<longleftrightarrow> length hi = MaxTopDelegationsPerCandidate cfg"
    and "cm_bottom_capacity m = Full \<longleftrightarrow> length lo = MaxBottomDelegationsPerCandidate cfg"
proof -
  note h = held_ranked [OF assms(1)]
  note p = ranked_parts [OF h(1)]
  show "length hi \<le> u32_max" "length lo \<le> u32_max" using p(8,9) assms(2) by (auto simp: params_ok_def)
  show "length hi + length lo < MaxTopDelegationsPerCandidate cfg + MaxBottomDelegationsPerCandidate cfg
      \<Longrightarrow> sat_add_u32 (cm_delegation_count m) 1 = Suc (length hi + length lo)"
    using assms(2) by (simp add: held_cached [OF assms(1)] params_ok_def sat_add_u32_exact)
  show "cm_top_capacity m = Full \<longleftrightarrow> length hi = MaxTopDelegationsPerCandidate cfg"
    "cm_bottom_capacity m = Full \<longleftrightarrow> length lo = MaxBottomDelegationsPerCandidate cfg"
    using capacity_simps [of cfg "tidy hi 0" "tidy lo e"] h(1) assms(2)
    by (simp_all add: held_cached [OF assms(1)])
qed

lemma wp_enter_bottom_room:
  assumes "held cfg c e hi lo m s" and "params_ok cfg"
    and "length lo < MaxBottomDelegationsPerCandidate cfg"
    and "cm_bond m + amounts hi + amounts lo + e + b_amount d \<le> u128_max"
  shows "wp (add_bottom_delegation cfg False c d m) Q E s =
    Q (meta' cfg e m hi (stable_insert d lo)) (storage' c e m hi (stable_insert d lo) s)"
proof -
  note h = held_ranked [OF assms(1)] and cached = held_cached [OF assms(1)]
  note p = ranked_parts [OF h(1)] and n = held_counts [OF assms(1,2)]
  have room: "b_amount d + amounts lo + e \<le> u128_max" using assms(4) by simp
  have count: "sat_add_u32 (length hi + length lo) 1 = Suc (length hi + length lo)"
    using n(3) assms(3) p(8) cached by simp
  show ?thesis
    unfolding wp_add_bottom_room [OF h(3) p(2) assms(3) n(2) room]
    apply (rule arg_cong2 [of _ _ _ _ Q])
     apply (rule CandidateMetadata.equality; simp add: refit_def reset_bottom_data_def cached count [simplified])
    apply (rule staking.equality; simp add: settle_def fun_upd_idem h refreshed_def cached)
    done
qed

lemma wp_enter_bottom_kick:
  assumes "held cfg c e hi (ls @ [k]) m s" and "params_ok cfg"
    and "Suc (length ls) = MaxBottomDelegationsPerCandidate cfg" and "backed c k s"
    and "cm_bond m + amounts hi + amounts (ls @ [k]) + e + b_amount d \<le> u128_max"
  shows "wp (add_bottom_delegation cfg False c d m) Q E s =
    Q (meta' cfg e m hi (stable_insert d ls))
      (storage' c e m hi (stable_insert d ls) (kicked_out cfg c k s))"
proof -
  note h = held_ranked [OF assms(1)] and cached = held_cached [OF assms(1)]
  note p = ranked_parts [OF h(1)] and n = held_counts [OF assms(1,2)]
  have room: "b_amount d + amounts ls + e \<le> u128_max" using assms(5) by simp
  have desc: "descending ls" and small: "Suc (length ls) \<le> u32_max" using p(2) n(2) by auto
  show ?thesis
    unfolding wp_add_bottom_kick [OF h(3) desc assms(3) small room assms(4)]
    apply (rule arg_cong2 [of _ _ _ _ Q])
     apply (rule CandidateMetadata.equality; simp add: refit_def reset_bottom_data_def cached)
    apply (rule staking.equality; simp add: settle_def fun_upd_idem h refreshed_def cached)
    done
qed

section \<open>The top\<close>

lemma wp_enter_top_room:
  assumes "held cfg c e hi [] m s" and "params_ok cfg"
    and "length hi < MaxTopDelegationsPerCandidate cfg"
    and "cm_bond m + amounts hi + e + b_amount d \<le> u128_max"
  shows "wp (add_top_delegation cfg c d m) Q E s =
    Q (meta' cfg e m (stable_insert d hi) [], None) (storage' c e m (stable_insert d hi) [] s)"
proof -
  note h = held_ranked [OF assms(1)] and cached = held_cached [OF assms(1)]
  note p = ranked_parts [OF h(1)] and n = held_counts [OF assms(1,2)]
  have count: "sat_add_u32 (length hi) 1 = Suc (length hi)"
    using n(3) assms(3) cached by simp
  have "as_u32 (length hi) \<noteq> MaxTopDelegationsPerCandidate cfg"
    using n(1) assms(3) by (simp add: as_u32_exact)
  then show ?thesis using assms(4)
    apply (simp add: add_top_delegation_def wp_simps h(2-4) Let_def insert_tidy [OF p(1) _ refl]
        wp_reset_top_data [of cfg c m])
    apply (rule arg_cong2 [of _ _ _ _ Q])
     apply (simp, rule CandidateMetadata.equality; simp add: refit_def cached count [simplified])
    apply (rule staking.equality; simp add: settle_def fun_upd_idem h)
    done
qed

lemma wp_enter_top_bump:
  assumes "held cfg c e (hs @ [l]) lo m s" and "params_ok cfg"
    and "Suc (length hs) = MaxTopDelegationsPerCandidate cfg"
    and "length lo < MaxBottomDelegationsPerCandidate cfg"
    and "cm_bond m + amounts (hs @ [l]) + amounts lo + e + b_amount d \<le> u128_max"
  shows "wp (add_top_delegation cfg c d m) Q E s =
    Q (meta' cfg e m (stable_insert d hs) (stable_insert l lo), None)
      (storage' c e m (stable_insert d hs) (stable_insert l lo) s)"
proof -
  note h = held_ranked [OF assms(1)] and cached = held_cached [OF assms(1)]
  note p = ranked_parts [OF h(1)] and n = held_counts [OF assms(1,2)]
  have desc: "descending hs" using p(1) by simp
  have room: "b_amount l + amounts lo + e \<le> u128_max" using assms(5) by simp
  have full: "as_u32 (Suc (length hs)) = MaxTopDelegationsPerCandidate cfg"
    using n(1) assms(3) by (simp add: as_u32_exact)
  have notfull: "cm_bottom_capacity m \<noteq> Full" using n(5) assms(4) by simp
  have count: "sat_add_u32 (Suc (length hs + length lo)) 1 = Suc (Suc (length hs + length lo))"
    using n(3) assms(4) by (simp add: cached(2) flip: assms(3))
  show ?thesis
    using assms(5) full notfull
    apply (simp add: add_top_delegation_def wp_simps h(2-4) Let_def
        wp_add_bottom_room [OF h(3) p(2) assms(4) n(2) room] insert_tidy [OF desc _ refl]
        wp_reset_top_data [of cfg c m] reset_bottom_data_def)
    apply (rule arg_cong2 [of _ _ _ _ Q])
     apply (simp, rule CandidateMetadata.equality; simp add: refit_def cached count [simplified])
    apply (rule staking.equality; simp add: settle_def fun_upd_idem h)
    done
qed

lemma wp_enter_top_kick:
  assumes "held cfg c e (hs @ [l]) (ls @ [k]) m s" and "params_ok cfg"
    and "Suc (length hs) = MaxTopDelegationsPerCandidate cfg"
    and "Suc (length ls) = MaxBottomDelegationsPerCandidate cfg" and "backed c k s"
    and "cm_bond m + amounts (hs @ [l]) + amounts (ls @ [k]) + e + b_amount d \<le> u128_max"
  shows "wp (add_top_delegation cfg c d m) Q E s =
    Q (meta' cfg e m (stable_insert d hs) (stable_insert l ls), Some (b_amount k))
      (storage' c e m (stable_insert d hs) (stable_insert l ls) (kicked_out cfg c k s))"
proof -
  note h = held_ranked [OF assms(1)] and cached = held_cached [OF assms(1)]
  note p = ranked_parts [OF h(1)] and n = held_counts [OF assms(1,2)]
  have desc: "descending hs" "descending ls" and small: "Suc (length ls) \<le> u32_max"
    using p(1,2) n(2) by auto
  have room: "b_amount l + amounts ls + e \<le> u128_max" using assms(6) by simp
  have full: "as_u32 (Suc (length hs)) = MaxTopDelegationsPerCandidate cfg"
    using n(1) assms(3) by (simp add: as_u32_exact)
  have bfull: "cm_bottom_capacity m = Full" using n(5) assms(4) by simp
  have low: "cm_lowest_bottom_delegation_amount m = b_amount k" by (simp add: cached lowest_eq_last)
  show ?thesis
    using assms(6) full bfull
    apply (simp add: add_top_delegation_def wp_simps h(2-4) Let_def low
        wp_add_bottom_kick [OF h(3) desc(2) assms(4) small room assms(5)] insert_tidy [OF desc(1) _ refl]
        wp_reset_top_data [of cfg c m] reset_bottom_data_def)
    apply (rule arg_cong2 [of _ _ _ _ Q])
     apply (simp, rule CandidateMetadata.equality; simp add: refit_def cached)
    apply (rule staking.equality; simp add: settle_def fun_upd_idem h)
    done
qed

section \<open>A new delegation\<close>

definition book_capacity :: "'p params_scheme \<Rightarrow> nat" where
  "book_capacity cfg = MaxTopDelegationsPerCandidate cfg + MaxBottomDelegationsPerCandidate cfg"

text \<open>
  The new bond is in the book. While there is room nothing else changes; when the book is full
  a bond of the least amount has made place for it, and its delegator is kicked out.
\<close>

definition entered ::
  "'w config \<Rightarrow> AccountId \<Rightarrow> Balance \<Rightarrow> Bond multiset \<Rightarrow> Bond \<Rightarrow> CandidateMetadata \<Rightarrow> 'w staking
    \<Rightarrow> CandidateMetadata \<Rightarrow> Balance option \<Rightarrow> 'w staking \<Rightarrow> bool" where
  "entered cfg c e M d m s m' less' s' \<longleftrightarrow>
     (case less' of
        None \<Rightarrow> size M < book_capacity cfg \<and> reached cfg c e (add_mset d M) m s m' s'
      | Some a \<Rightarrow> size M = book_capacity cfg
          \<and> (\<exists>k. k \<in># M \<and> b_amount k = a \<and> a < b_amount d \<and> (\<forall>y. y \<in># M \<longrightarrow> a \<le> b_amount y)
               \<and> reached cfg c e (add_mset d (M - {#k#})) m (kicked_out cfg c k s) m' s'))"

definition position_reported :: "CandidateMetadata \<Rightarrow> CandidateMetadata \<Rightarrow> DelegatorAdded \<Rightarrow> bool" where
  "position_reported m m' pos =
     (case pos of AddedToTop v \<Rightarrow> v = cm_total_counted m'
      | AddedToBottom \<Rightarrow> cm_total_counted m' = cm_total_counted m)"

lemma kicked_is_least:
  assumes "ranked cfg hi (ls @ [k])" and "y \<in># mset hi + mset (ls @ [k])"
  shows "b_amount k \<le> b_amount y"
  using assms by (auto simp: ranked_def)

lemma enter_top:
  assumes "held cfg c e (hs @ [l]) lo m s" and "params_ok cfg"
    and "Suc (length hs) = MaxTopDelegationsPerCandidate cfg" and "b_amount l < b_amount d"
    and "b_owner d \<notin> owners (hs @ [l]) \<union> owners lo"
    and "cm_bond m + amounts (hs @ [l]) + amounts lo + e + b_amount d \<le> u128_max"
    and "\<And>k. k \<in> set lo \<Longrightarrow> backed c k s"
  shows "wp (add_top_delegation cfg c d m)
    (\<lambda>(m', less') s'. entered cfg c e (mset (hs @ [l]) + mset lo) d m s m' less' s')
    (\<lambda>_ _. False) s"
proof -
  note h = held_ranked [OF assms(1)]
  note p = ranked_parts [OF h(1)]
  have full: "length (hs @ [l]) = MaxTopDelegationsPerCandidate cfg" using assms(3) by simp
  show ?thesis
  proof (cases "length lo < MaxBottomDelegationsPerCandidate cfg")
    case True
    have rank: "ranked cfg (stable_insert d hs) (stable_insert l lo)"
      using True assms(5) by (intro ranked_insert_top [OF h(1) assms(2) full assms(4), of lo "[]"]) auto
    have fits: "cm_bond m + amounts (stable_insert d hs) + amounts (stable_insert l lo) + e \<le> u128_max"
      using assms(6) by simp
    have M': "mset (stable_insert d hs) + mset (stable_insert l lo)
        = add_mset d (mset (hs @ [l]) + mset lo)" by simp
    show ?thesis
      using held_reached [OF assms(1) rank fits M'] True full
      by (simp add: wp_enter_top_bump [OF assms(1-3) True assms(6)] entered_def book_capacity_def)
  next
    case False
    then have len: "length lo = MaxBottomDelegationsPerCandidate cfg" using p(9) by simp
    then obtain ls k where lo: "lo = ls @ [k]"
      using assms(2) by (cases lo rule: rev_cases) (auto simp: params_ok_def)
    have lenk: "Suc (length ls) = MaxBottomDelegationsPerCandidate cfg" using len lo by simp
    have rank: "ranked cfg (stable_insert d hs) (stable_insert l ls)"
      using lenk assms(5) lo by (intro ranked_insert_top [OF h(1) assms(2) full assms(4), of ls "[k]"]) auto
    have fits: "cm_bond m + amounts (stable_insert d hs) + amounts (stable_insert l ls) + e \<le> u128_max"
      using assms(6) lo by simp
    have M': "mset (stable_insert d hs) + mset (stable_insert l ls)
        = add_mset d ((mset (hs @ [l]) + mset lo) - {#k#})" by (simp add: lo)
    have below: "b_amount k < b_amount d" using p(3) [of l k] lo assms(4) by simp
    note backed = assms(7) [of k]
    have least: "\<forall>y. y \<in># mset (hs @ [l]) + mset lo \<longrightarrow> b_amount k \<le> b_amount y"
      using kicked_is_least [of cfg "hs @ [l]" ls k] h(1) lo by auto
    have "held cfg c e (hs @ [l]) lo m (kicked_out cfg c k s)" using assms(1) by simp
    note held_reached [OF this rank fits M']
    moreover have "k \<in># mset (hs @ [l]) + mset lo" using lo by simp
    ultimately have "entered cfg c e (mset (hs @ [l]) + mset lo) d m s
        (meta' cfg e m (stable_insert d hs) (stable_insert l ls)) (Some (b_amount k))
        (storage' c e m (stable_insert d hs) (stable_insert l ls) (kicked_out cfg c k s))"
      using least below full len unfolding entered_def book_capacity_def by auto
    then show ?thesis
      using wp_enter_top_kick [OF assms(1) [unfolded lo] assms(2,3) lenk _ assms(6) [unfolded lo]]
        backed lo by simp
  qed
qed


lemma enter_bottom:
  assumes "held cfg c e hi lo m s" and "params_ok cfg"
    and "length hi = MaxTopDelegationsPerCandidate cfg" and "b_amount d \<le> b_amount (last hi)"
    and "b_owner d \<notin> owners hi \<union> owners lo"
    and "cm_bond m + amounts hi + amounts lo + e + b_amount d \<le> u128_max"
    and "\<And>k. k \<in> set lo \<Longrightarrow> backed c k s"
    and "length lo = MaxBottomDelegationsPerCandidate cfg \<longrightarrow>
      cm_lowest_bottom_delegation_amount m < b_amount d"
    and "less' = (if length lo = MaxBottomDelegationsPerCandidate cfg
      then Some (cm_lowest_bottom_delegation_amount m) else None)"
  shows "wp (add_bottom_delegation cfg False c d m)
    (\<lambda>m' s'. entered cfg c e (mset hi + mset lo) d m s m' less' s'
       \<and> cm_total_counted m' = cm_total_counted m) (\<lambda>_ _. False) s"
proof -
  note h = held_ranked [OF assms(1)] and cached = held_cached [OF assms(1)]
  note p = ranked_parts [OF h(1)]
  show ?thesis
  proof (cases "length lo < MaxBottomDelegationsPerCandidate cfg")
    case True
    have rank: "ranked cfg hi (stable_insert d lo)"
      using True assms(5) by (intro ranked_insert_bottom [OF h(1) assms(2-4), of lo "[]"]) auto
    have fits: "cm_bond m + amounts hi + amounts (stable_insert d lo) + e \<le> u128_max"
      using assms(6) by simp
    have M': "mset hi + mset (stable_insert d lo) = add_mset d (mset hi + mset lo)" by simp
    show ?thesis
      using held_reached [OF assms(1) rank fits M'] True assms(3,9)
      by (simp add: wp_enter_bottom_room [OF assms(1,2) True assms(6)] entered_def book_capacity_def cached)
  next
    case False
    then have len: "length lo = MaxBottomDelegationsPerCandidate cfg" using p(9) by simp
    then obtain ls k where lo: "lo = ls @ [k]"
      using assms(2) by (cases lo rule: rev_cases) (auto simp: params_ok_def)
    have lenk: "Suc (length ls) = MaxBottomDelegationsPerCandidate cfg" using len lo by simp
    have less: "less' = Some (b_amount k)" "b_amount k < b_amount d"
      using assms(8,9) len by (auto simp: cached lowest_eq_last lo)
    have rank: "ranked cfg hi (stable_insert d ls)"
      using lenk assms(5) lo by (intro ranked_insert_bottom [OF h(1) assms(2-4), of ls "[k]"]) auto
    have fits: "cm_bond m + amounts hi + amounts (stable_insert d ls) + e \<le> u128_max"
      using assms(6) lo by simp
    have M': "mset hi + mset (stable_insert d ls) = add_mset d ((mset hi + mset lo) - {#k#})"
      by (simp add: lo)
    have least: "\<forall>y. y \<in># mset hi + mset lo \<longrightarrow> b_amount k \<le> b_amount y"
      using kicked_is_least [of cfg hi ls k] h(1) lo by auto
    have "held cfg c e hi lo m (kicked_out cfg c k s)" using assms(1) by simp
    note held_reached [OF this rank fits M']
    moreover have "k \<in># mset hi + mset lo" using lo by simp
    ultimately have "entered cfg c e (mset hi + mset lo) d m s
        (meta' cfg e m hi (stable_insert d ls)) less'
        (storage' c e m hi (stable_insert d ls) (kicked_out cfg c k s))"
      using least less len assms(3) unfolding entered_def book_capacity_def by auto
    then show ?thesis
      using wp_enter_bottom_kick [OF assms(1) [unfolded lo] assms(2) lenk _ assms(6) [unfolded lo]]
        assms(7) [of k] lo by (simp add: cached)
  qed
qed

theorem add_delegation_enters:
  assumes "stands cfg c e M m s" and "params_ok cfg" and "b_owner d \<notin> b_owner ` set_mset M"
    and "cm_bond m + sum_mset (image_mset b_amount M) + e + b_amount d \<le> u128_max"
    and "\<forall>k. k \<in># M \<longrightarrow> backed c k s"
  shows "wp (add_delegation cfg c d m)
    (\<lambda>(m', pos, less') s'. entered cfg c e M d m s m' less' s' \<and> position_reported m m' pos)
    (\<lambda>err s'. err = Module CannotDelegateLessThanOrEqualToLowestBottomWhenFull \<and> s' = s
       \<and> size M = book_capacity cfg \<and> (\<forall>y. y \<in># M \<longrightarrow> b_amount d \<le> b_amount y)) s"
proof -
  obtain hi lo where held: "held cfg c e hi lo m s" and M: "M = mset hi + mset lo"
    using assms(1) by (auto simp: stands_held)
  note h = held_ranked [OF held] and cached = held_cached [OF held]
  note p = ranked_parts [OF h(1)] and n = held_counts [OF held assms(2)]
  have room: "cm_bond m + amounts hi + amounts lo + e + b_amount d \<le> u128_max"
    using assms(4) unfolding M by (simp flip: sum_mset_sum_list)
  have fresh: "b_owner d \<notin> owners hi \<union> owners lo" using assms(3) M by auto
  have backed: "k \<in> set lo \<Longrightarrow> backed c k s" for k using assms(5) M by auto
  show ?thesis
  proof (cases "length hi = MaxTopDelegationsPerCandidate cfg")
    case False
    then have lt: "length hi < MaxTopDelegationsPerCandidate cfg" and lo: "lo = []" using p(8,10) by auto
    have rank: "ranked cfg (stable_insert d hi) []"
      using h(1) fresh lo by (intro ranked_insert_room [OF _ assms(2) lt]) auto
    have fits: "cm_bond m + amounts (stable_insert d hi) + amounts [] + e \<le> u128_max" using room by simp
    have M': "mset (stable_insert d hi) + mset [] = add_mset d M" by (simp add: M lo)
    show ?thesis
      using held_reached [OF held rank fits M'] False lt n(4) room
        wp_enter_top_room [OF held [unfolded lo] assms(2) lt]
      by (simp add: add_delegation_def wp_simps entered_def position_reported_def book_capacity_def M lo)
  next
    case True
    then obtain hs l where hi: "hi = hs @ [l]"
      using assms(2) by (cases hi rule: rev_cases) (auto simp: params_ok_def)
    have low: "cm_lowest_top_delegation_amount m = b_amount l" by (simp add: cached hi lowest_eq_last)
    show ?thesis
    proof (cases "b_amount l < b_amount d")
      case above: True
      have "wp (add_top_delegation cfg c d m)
          (\<lambda>(m', less') s'. entered cfg c e M d m s m' less' s') (\<lambda>_ _. False) s"
        using enter_top [OF held [unfolded hi] assms(2) _ above] fresh room backed True
        unfolding M hi by simp
      then show ?thesis
        using True n(4) low above
        by (auto simp: add_delegation_def wp_simps position_reported_def elim!: wp_mono)
    next
      case below: False
      then have le: "b_amount d \<le> b_amount (last hi)" using hi by simp
      note enter = enter_bottom [OF held assms(2) True le fresh room backed _ refl, folded M]
      have least: "b_amount d \<le> b_amount y"
        if "length lo = MaxBottomDelegationsPerCandidate cfg" "y \<in># M"
          "b_amount d \<le> cm_lowest_bottom_delegation_amount m" for y
        using that(2,3) lowest_le [of "tidy lo e" y] p(2) descending_last [OF p(1), of y] le
        unfolding M by (auto simp: cached)
      show ?thesis
        using True n(4,5) low below enter least
        by (auto simp: add_delegation_def wp_simps position_reported_def book_capacity_def M not_less
            elim!: wp_mono)
    qed
  qed
qed

end
