(* ===== verification/Delegation_Requests.thy ===== *)
theory Delegation_Requests
  imports Candidates
begin

text \<open>
  The calls that touch a delegator and a candidate at once: \<open>Delegator::increase_delegation\<close>
  of \<open>types.rs\<close>, the life of a scheduled request in \<open>delegation_requests.rs\<close>, and the pallet
  functions of \<open>auto_compound.rs\<close>. Post-dispatch weights are left out.
\<close>

section \<open>Increasing a delegation\<close>

text \<open>\<open>for x in &mut delegations\<close> with a return at the first match.\<close>

fun update_first_bond :: "AccountId \<Rightarrow> (Balance \<Rightarrow> Balance) \<Rightarrow> Bond list \<Rightarrow> Bond list" where
  "update_first_bond c f [] = []"
| "update_first_bond c f (x # xs) =
     (if b_owner x = c then x\<lparr>b_amount := f (b_amount x)\<rparr> # xs else x # update_first_bond c f xs)"

definition delegator_increase_delegation ::
  "'w config \<Rightarrow> AccountId \<Rightarrow> Balance \<Rightarrow> Delegator \<Rightarrow> ('w, bool) staking_m" where
  "delegator_increase_delegation cfg candidate amount self =
     (case find (\<lambda>x. b_owner x = candidate) (d_delegations self) of
        Some x \<Rightarrow>
          (let before_amount = b_amount x;
               self = self\<lparr>d_delegations :=
                        update_first_bond candidate (\<lambda>a. sat_add_u128 a amount) (d_delegations self)\<rparr>;
               self = self\<lparr>d_total := sat_add_u128 (d_total self) amount\<rparr>
           in then_m (adjust_bond_lock cfg self (BondIncrease amount))
             (bind_m (gets_m (\<lambda>s. CandidateInfo s candidate)) (\<lambda>info.
              bind_m (ok_or info CandidateDNE) (\<lambda>collator_state.
              let before = cm_total_counted collator_state
              in bind_m (increase_delegation cfg candidate (d_id self) before_amount amount collator_state)
                (\<lambda>(collator_state, in_top).
                 let after = cm_total_counted collator_state
                 in then_m
                      (if is_active collator_state \<and> before \<noteq> after
                       then update_active cfg candidate after else return_m ())
                    (then_m (put_candidate_info candidate collator_state)
                    (bind_m (gets_m Total) (\<lambda>total.
                     then_m (put_total (sat_add_u128 total amount))
                    (then_m (put_delegator_state (d_id self) self) (return_m in_top))))))))))
      | None \<Rightarrow> err DelegationDNE)"

definition delegation_bond_more_without_event ::
  "'w config \<Rightarrow> AccountId \<Rightarrow> AccountId \<Rightarrow> Balance \<Rightarrow> ('w, bool) staking_m" where
  "delegation_bond_more_without_event cfg delegator candidate more' =
     bind_m (gets_m (\<lambda>s. DelegatorState s delegator)) (\<lambda>state.
     bind_m (ok_or state DelegatorDNE) (\<lambda>state.
     bind_m (gets_m (delegation_request_revoke_exists candidate delegator)) (\<lambda>revoke_exists.
     then_m (ensure (\<not> revoke_exists) PendingDelegationRevoke)
     (delegator_increase_delegation cfg candidate more' state))))"

section \<open>Scheduling\<close>

text \<open>\<open>BoundedVec::try_push\<close>.\<close>

definition try_push :: "nat \<Rightarrow> 'a \<Rightarrow> 'a list \<Rightarrow> 'a list option" where
  "try_push cap x xs = (if length xs < cap then Some (xs @ [x]) else None)"

definition delegation_schedule_revoke ::
  "'w config \<Rightarrow> AccountId \<Rightarrow> AccountId \<Rightarrow> ('w, unit) staking_m" where
  "delegation_schedule_revoke cfg collator delegator =
     bind_m (gets_m (\<lambda>s. DelegatorState s delegator)) (\<lambda>state.
     bind_m (ok_or state DelegatorDNE) (\<lambda>state.
     bind_m (gets_m (\<lambda>s. DelegationScheduledRequests s collator)) (\<lambda>scheduled_requests.
     then_m (ensure (\<not> list_ex (\<lambda>req. sr_delegator req = delegator) scheduled_requests)
               PendingDelegationRequestAlreadyExists)
     (bind_m (ok_or (get_bond_amount collator state) DelegationDNE) (\<lambda>bonded_amount.
      bind_m (gets_m (\<lambda>s. r_current (Round s))) (\<lambda>now.
      let when' = sat_add_u32 now (RevokeDelegationDelay cfg)
      in bind_m (ok_or (try_push (add_get cfg)
            \<lparr>sr_delegator = delegator, sr_when_executable = when', sr_action = Revoke bonded_amount\<rparr>
            scheduled_requests) ExceedMaxDelegationsPerDelegator) (\<lambda>scheduled_requests.
         let state = state\<lparr>d_less_total := sat_add_u128 (d_less_total state) bonded_amount\<rparr>
         in then_m (put_scheduled_requests collator scheduled_requests)
           (then_m (put_delegator_state delegator state)
             (deposit_event (DelegationRevocationScheduled now delegator collator when'))))))))))"

definition delegation_schedule_bond_decrease ::
  "'w config \<Rightarrow> AccountId \<Rightarrow> AccountId \<Rightarrow> Balance \<Rightarrow> ('w, unit) staking_m" where
  "delegation_schedule_bond_decrease cfg collator delegator decrease_amount =
     bind_m (gets_m (\<lambda>s. DelegatorState s delegator)) (\<lambda>state.
     bind_m (ok_or state DelegatorDNE) (\<lambda>state.
     bind_m (gets_m (\<lambda>s. DelegationScheduledRequests s collator)) (\<lambda>scheduled_requests.
     then_m (ensure (\<not> list_ex (\<lambda>req. sr_delegator req = delegator) scheduled_requests)
               PendingDelegationRequestAlreadyExists)
     (bind_m (ok_or (get_bond_amount collator state) DelegationDNE) (\<lambda>bonded_amount.
      then_m (ensure (bonded_amount > decrease_amount) DelegatorBondBelowMin)
     (let new_amount = bonded_amount - decrease_amount
      in then_m (ensure (new_amount \<ge> MinDelegation cfg) DelegationBelowMin)
     (let net_total = d_total state - d_less_total state;
          max_subtracted_amount = net_total - MinDelegation cfg
      in then_m (ensure (decrease_amount \<le> max_subtracted_amount) DelegatorBondBelowMin)
     (bind_m (gets_m (\<lambda>s. r_current (Round s))) (\<lambda>now.
      let when' = sat_add_u32 now (DelegationBondLessDelay cfg)
      in bind_m (ok_or (try_push (add_get cfg)
            \<lparr>sr_delegator = delegator, sr_when_executable = when', sr_action = Decrease decrease_amount\<rparr>
            scheduled_requests) ExceedMaxDelegationsPerDelegator) (\<lambda>scheduled_requests.
         let state = state\<lparr>d_less_total := sat_add_u128 (d_less_total state) decrease_amount\<rparr>
         in then_m (put_scheduled_requests collator scheduled_requests)
           (then_m (put_delegator_state delegator state)
             (deposit_event
               (DelegationDecreaseScheduled delegator collator decrease_amount when')))))))))))))"

section \<open>Cancelling\<close>

definition delegation_cancel_request :: "AccountId \<Rightarrow> AccountId \<Rightarrow> ('w, unit) staking_m" where
  "delegation_cancel_request collator delegator =
     bind_m (gets_m (\<lambda>s. DelegatorState s delegator)) (\<lambda>state.
     bind_m (ok_or state DelegatorDNE) (\<lambda>state.
     bind_m (gets_m (\<lambda>s. DelegationScheduledRequests s collator)) (\<lambda>scheduled_requests.
     bind_m (ok_or (cancel_request_with_state delegator state scheduled_requests)
               PendingDelegationRequestDNE)
     (\<lambda>(request, state, scheduled_requests).
     then_m (put_scheduled_requests collator scheduled_requests)
     (then_m (put_delegator_state delegator state)
       (deposit_event (CancelledDelegationRequest delegator (cancelled_from request) collator)))))))"

section \<open>Executing\<close>

definition delegator_leaves_candidate ::
  "'w config \<Rightarrow> AccountId \<Rightarrow> AccountId \<Rightarrow> Balance \<Rightarrow> ('w, unit) staking_m" where
  "delegator_leaves_candidate cfg candidate delegator amount =
     bind_m (gets_m (\<lambda>s. CandidateInfo s candidate)) (\<lambda>state.
     bind_m (ok_or state CandidateDNE) (\<lambda>state.
     bind_m (rm_delegation_if_exists cfg candidate delegator amount state) (\<lambda>(state, _).
     bind_m (gets_m Total) (\<lambda>total.
     then_m (put_total (total - amount))
     (let new_total = cm_total_counted state
      in then_m (put_candidate_info candidate state)
           (deposit_event (DelegatorLeftCandidate delegator candidate amount new_total)))))))"

text \<open>The \<open>Revoke\<close> arm, from the request found at \<open>request_idx\<close>.\<close>

definition execute_revoke ::
  "'w config \<Rightarrow> AccountId \<Rightarrow> AccountId \<Rightarrow> Delegator \<Rightarrow> ScheduledRequest list \<Rightarrow> nat \<Rightarrow> Balance
    \<Rightarrow> ('w, unit) staking_m" where
  "execute_revoke cfg collator delegator state scheduled_requests request_idx amount =
     bind_m
       (if length (d_delegations state) = 1 then return_m True
        else then_m (ensure (d_total state - MinDelegation cfg \<ge> amount) DelegatorBondBelowMin)
               (return_m False))
     (\<lambda>leaving.
     let amount = action_amount (sr_action (scheduled_requests ! request_idx));
         scheduled_requests = vec_remove request_idx scheduled_requests;
         state = state\<lparr>d_less_total := d_less_total state - amount\<rparr>
     in bind_m (delegator_rm_delegation cfg collator state) (\<lambda>(state, _).
        then_m (remove_auto_compound collator delegator)
        (then_m (delegator_leaves_candidate cfg collator delegator amount)
        (then_m (deposit_event (DelegationRevoked delegator collator amount))
        (then_m (put_scheduled_requests collator scheduled_requests)
          (if leaving
           then then_m (remove_delegator_state delegator)
                  (deposit_event (DelegatorLeft delegator amount))
           else put_delegator_state delegator state))))))"

text \<open>The \<open>Decrease\<close> arm; the loop returns at the first bond towards the collator.\<close>

definition execute_decrease ::
  "'w config \<Rightarrow> AccountId \<Rightarrow> AccountId \<Rightarrow> Delegator \<Rightarrow> ScheduledRequest list \<Rightarrow> nat
    \<Rightarrow> ('w, unit) staking_m" where
  "execute_decrease cfg collator delegator state scheduled_requests request_idx =
     (let amount = action_amount (sr_action (scheduled_requests ! request_idx));
          scheduled_requests = vec_remove request_idx scheduled_requests;
          state = state\<lparr>d_less_total := d_less_total state - amount\<rparr>
      in case find (\<lambda>bond. b_owner bond = collator) (d_delegations state) of
           Some bond \<Rightarrow>
             if b_amount bond > amount
             then let amount_before = b_amount bond;
                      state = state\<lparr>d_delegations :=
                        update_first_bond collator (\<lambda>a. a - amount) (d_delegations state)\<rparr>
                  in bind_m (gets_m (\<lambda>s. CandidateInfo s collator)) (\<lambda>collator_info.
                     bind_m (ok_or collator_info CandidateDNE) (\<lambda>collator_info.
                     bind_m (total_sub_if cfg amount
                       (\<lambda>total. ensure (total \<ge> MinDelegation cfg) DelegationBelowMin) state) (\<lambda>state.
                     bind_m (decrease_delegation cfg collator delegator amount_before amount collator_info)
                       (\<lambda>(collator_info, in_top).
                     then_m (put_candidate_info collator collator_info)
                     (bind_m (gets_m Total) (\<lambda>total.
                      then_m (put_total (total - amount))
                     (then_m (put_scheduled_requests collator scheduled_requests)
                     (then_m (put_delegator_state delegator state)
                       (deposit_event (DelegationDecreased delegator collator amount in_top))))))))))
             else err DelegationBelowMin
         | None \<Rightarrow> err DelegationDNE)"

definition delegation_execute_scheduled_request ::
  "'w config \<Rightarrow> AccountId \<Rightarrow> AccountId \<Rightarrow> ('w, unit) staking_m" where
  "delegation_execute_scheduled_request cfg collator delegator =
     bind_m (gets_m (\<lambda>s. DelegatorState s delegator)) (\<lambda>state.
     bind_m (ok_or state DelegatorDNE) (\<lambda>state.
     bind_m (gets_m (\<lambda>s. DelegationScheduledRequests s collator)) (\<lambda>scheduled_requests.
     bind_m (ok_or (position (\<lambda>req. sr_delegator req = delegator) scheduled_requests)
               PendingDelegationRequestDNE) (\<lambda>request_idx.
     let request = scheduled_requests ! request_idx
     in bind_m (gets_m (\<lambda>s. r_current (Round s))) (\<lambda>now.
        then_m (ensure (sr_when_executable request \<le> now) PendingDelegationRequestNotDueYet)
          (case sr_action request of
             Revoke amount \<Rightarrow>
               execute_revoke cfg collator delegator state scheduled_requests request_idx amount
           | Decrease _ \<Rightarrow>
               execute_decrease cfg collator delegator state scheduled_requests request_idx))))))"

section \<open>Delegating\<close>

definition is_candidate :: "AccountId \<Rightarrow> 'w staking \<Rightarrow> bool" where
  "is_candidate acc s = (CandidateInfo s acc \<noteq> None)"

definition is_delegator :: "AccountId \<Rightarrow> 'w staking \<Rightarrow> bool" where
  "is_delegator acc s = (DelegatorState s acc \<noteq> None)"

definition store_auto_compound ::
  "'w config \<Rightarrow> AccountId \<Rightarrow> AccountId \<Rightarrow> Percent \<Rightarrow> ('w, unit) staking_m" where
  "store_auto_compound cfg candidate delegator auto_compound' =
     bind_m (gets_m (\<lambda>s. AutoCompoundingDelegations s candidate)) (\<lambda>auto_compounding_state.
     (case set_for_delegator cfg delegator auto_compound' auto_compounding_state of
        Inl e \<Rightarrow> err e
      | Inr (_, auto_compounding_state) \<Rightarrow> put_auto_compounding candidate auto_compounding_state))"

definition delegate_with_auto_compound_inner ::
  "'w config \<Rightarrow> AccountId \<Rightarrow> AccountId \<Rightarrow> Balance \<Rightarrow> Percent \<Rightarrow> nat \<Rightarrow> nat \<Rightarrow> nat
    \<Rightarrow> ('w, unit) staking_m" where
  "delegate_with_auto_compound_inner cfg candidate delegator amount auto_compound'
       candidate_delegation_count_hint candidate_auto_compounding_delegation_count_hint
       delegation_count_hint =
     bind_m (gets_m (get_delegator_stakable_balance cfg delegator)) (\<lambda>stakable.
     then_m (ensure (stakable \<ge> amount) InsufficientBalance)
     (then_m (ensure (amount \<ge> MinDelegation cfg) DelegationBelowMin)
     (bind_m (gets_m (\<lambda>s. DelegatorState s delegator)) (\<lambda>existing.
      bind_m
        (case existing of
           Some state \<Rightarrow>
             then_m (ensure (delegation_count_hint \<ge> as_u32 (length (d_delegations state)))
                       TooLowDelegationCountToDelegate)
             (then_m (ensure (as_u32 (length (d_delegations state)) < MaxDelegationsPerDelegator cfg)
                       ExceedMaxDelegationsPerDelegator)
             (let (added, state) =
                    delegator_add_delegation \<lparr>b_owner = candidate, b_amount = amount\<rparr> state
              in then_m (ensure added AlreadyDelegatedCandidate) (return_m state)))
         | None \<Rightarrow>
             bind_m (gets_m (is_candidate delegator)) (\<lambda>candidate_exists.
             then_m (ensure (\<not> candidate_exists) CandidateExists)
               (return_m (delegator_new delegator candidate amount))))
      (\<lambda>delegator_state.
      bind_m (gets_m (\<lambda>s. CandidateInfo s candidate)) (\<lambda>info.
      bind_m (ok_or info CandidateDNE) (\<lambda>candidate_state.
      then_m (ensure (candidate_delegation_count_hint \<ge> cm_delegation_count candidate_state)
                TooLowCandidateDelegationCountToDelegate)
      (bind_m (gets_m (get_auto_compounding_delegation_count candidate)) (\<lambda>auto_compounding_count.
       then_m
         (if auto_compound' \<noteq> 0
          then ensure (as_u32 auto_compounding_count
                         \<le> candidate_auto_compounding_delegation_count_hint)
                 TooLowCandidateAutoCompoundingDelegationCountToDelegate
          else return_m ())
      (bind_m (add_delegation cfg candidate \<lparr>b_owner = delegator, b_amount = amount\<rparr> candidate_state)
        (\<lambda>(candidate_state, delegator_position, less_total_staked).
       then_m (adjust_bond_lock cfg delegator_state (BondIncrease amount))
      (let net_total_increase =
             (case less_total_staked of Some less' \<Rightarrow> amount - less' | None \<Rightarrow> amount)
       in bind_m (gets_m Total) (\<lambda>total.
       let new_total_locked = sat_add_u128 total net_total_increase
       in then_m
            (if auto_compound' \<noteq> 0
             then store_auto_compound cfg candidate delegator auto_compound' else return_m ())
         (then_m (put_total new_total_locked)
         (then_m (put_candidate_info candidate candidate_state)
         (then_m (put_delegator_state delegator delegator_state)
           (deposit_event
             (Delegation delegator amount candidate delegator_position auto_compound'))))))))))))))))))"

definition set_auto_compound_inner ::
  "'w config \<Rightarrow> AccountId \<Rightarrow> AccountId \<Rightarrow> Percent \<Rightarrow> nat \<Rightarrow> nat \<Rightarrow> ('w, unit) staking_m" where
  "set_auto_compound_inner cfg candidate delegator value'
       candidate_auto_compounding_delegation_count_hint delegation_count_hint =
     bind_m (gets_m (\<lambda>s. DelegatorState s delegator)) (\<lambda>state.
     bind_m (ok_or state DelegatorDNE) (\<lambda>delegator_state.
     then_m (ensure (length (d_delegations delegator_state) \<le> delegation_count_hint)
               TooLowDelegationCountToAutoCompound)
     (then_m (ensure (list_ex (\<lambda>b. b_owner b = candidate) (d_delegations delegator_state)) DelegationDNE)
     (bind_m (gets_m (\<lambda>s. AutoCompoundingDelegations s candidate)) (\<lambda>auto_compounding_state.
      then_m (ensure (auto_compound_len auto_compounding_state
                        \<le> candidate_auto_compounding_delegation_count_hint)
                TooLowCandidateAutoCompoundingDelegationCountToAutoCompound)
     (bind_m
        (if value' = 0 then return_m (remove_for_delegator delegator auto_compounding_state)
         else case set_for_delegator cfg delegator value' auto_compounding_state of
             Inl e \<Rightarrow> err e
           | Inr r \<Rightarrow> return_m r)
      (\<lambda>(state_updated, auto_compounding_state).
      then_m
        (if state_updated then put_auto_compounding candidate auto_compounding_state
         else return_m ())
        (deposit_event (AutoCompoundSet candidate delegator value')))))))))"

end
