(* ===== verification/Issuance.thy ===== *)
theory Issuance
  imports Delegation_Requests
begin

text \<open>
  Rounds and inflation: \<open>RoundInfo\<close> of \<open>types.rs\<close>, the conversion of annual to round
  inflation and the issuance ranges of \<open>inflation.rs\<close>, and \<open>compute_issuance\<close> of
  \<open>lib.rs\<close>. The per-thing products and the fixed-point power are parameters. A division
  by zero panics.
\<close>

section \<open>Rounds\<close>

definition round_new :: "RoundIndex \<Rightarrow> BlockNumber \<Rightarrow> nat \<Rightarrow> nat \<Rightarrow> RoundInfo" where
  "round_new current first length' first_slot =
     \<lparr>r_current = current, r_first = first, r_length = length', r_first_slot = first_slot\<rparr>"

definition should_update :: "BlockNumber \<Rightarrow> RoundInfo \<Rightarrow> bool" where
  "should_update now self = (wrap_sub_u32 now (r_first self) \<ge> r_length self)"

definition round_update :: "BlockNumber \<Rightarrow> nat \<Rightarrow> RoundInfo \<Rightarrow> RoundInfo" where
  "round_update now now_slot self =
     self\<lparr>r_current := sat_add_u32 (r_current self) 1, r_first := now, r_first_slot := now_slot\<rparr>"

definition round_default :: RoundInfo where
  "round_default = round_new 1 1 20 0"

section \<open>Inflation\<close>

definition ms_per_year :: nat where
  "ms_per_year = 31557600000"

text \<open>Integer division, which panics on a zero divisor.\<close>

definition checked_quot :: "nat \<Rightarrow> nat \<Rightarrow> ('w, nat) staking_m" where
  "checked_quot a b = (if b = 0 then panic_m else return_m (a div b))"

definition rounds_per_year :: "'w config \<Rightarrow> ('w, nat) staking_m" where
  "rounds_per_year cfg =
     bind_m (gets_m (\<lambda>s. r_length (Round s))) (\<lambda>blocks_per_round.
     bind_m (checked_quot ms_per_year (BlockTime cfg)) (\<lambda>blocks_per_year.
     bind_m (checked_quot blocks_per_year blocks_per_round) (\<lambda>n. return_m (as_u32 n))))"

text \<open>The exponent is \<open>1 / rounds_per_year\<close> in fixed point, a panic when that is zero.\<close>

definition perbill_annual_to_perbill_round ::
  "'w config \<Rightarrow> Range \<Rightarrow> nat \<Rightarrow> ('w, Range) staking_m" where
  "perbill_annual_to_perbill_round cfg annual rounds_per_year' =
     (if rounds_per_year' = 0 then panic_m
      else return_m
        \<lparr>rg_min = annual_to_round_rate cfg (rg_min annual) rounds_per_year',
         rg_ideal = annual_to_round_rate cfg (rg_ideal annual) rounds_per_year',
         rg_max = annual_to_round_rate cfg (rg_max annual) rounds_per_year'\<rparr>)"

definition annual_to_round :: "'w config \<Rightarrow> Range \<Rightarrow> ('w, Range) staking_m" where
  "annual_to_round cfg annual =
     bind_m (rounds_per_year cfg) (\<lambda>periods. perbill_annual_to_perbill_round cfg annual periods)"

definition round_issuance_range :: "'w config \<Rightarrow> Range \<Rightarrow> 'w staking \<Rightarrow> Range" where
  "round_issuance_range cfg round' s =
     (let circulating =
            (case LinearInflationThreshold cfg of
               Some threshold \<Rightarrow> min (total_issuance cfg (world s)) threshold
             | None \<Rightarrow> total_issuance cfg (world s))
      in \<lparr>rg_min = perbill_mul cfg (rg_min round') circulating,
          rg_ideal = perbill_mul cfg (rg_ideal round') circulating,
          rg_max = perbill_mul cfg (rg_max round') circulating\<rparr>)"

definition inflation_info_new :: "'w config \<Rightarrow> Range \<Rightarrow> Range \<Rightarrow> ('w, InflationInfo) staking_m" where
  "inflation_info_new cfg annual expect =
     bind_m (annual_to_round cfg annual) (\<lambda>round'.
     return_m \<lparr>ii_expect = expect, ii_annual = annual, ii_round = round'\<rparr>)"

definition set_round_from_annual ::
  "'w config \<Rightarrow> Range \<Rightarrow> InflationInfo \<Rightarrow> ('w, InflationInfo) staking_m" where
  "set_round_from_annual cfg new self =
     bind_m (annual_to_round cfg new) (\<lambda>round'. return_m (self\<lparr>ii_round := round'\<rparr>))"

definition reset_round ::
  "'w config \<Rightarrow> nat \<Rightarrow> InflationInfo \<Rightarrow> ('w, InflationInfo) staking_m" where
  "reset_round cfg new_length self =
     bind_m (checked_quot ms_per_year (BlockTime cfg)) (\<lambda>blocks_per_year.
     bind_m (checked_quot blocks_per_year new_length) (\<lambda>periods.
     bind_m (perbill_annual_to_perbill_round cfg (ii_annual self) (as_u32 periods)) (\<lambda>round'.
     return_m (self\<lparr>ii_round := round'\<rparr>))))"

definition set_expectations :: "Range \<Rightarrow> InflationInfo \<Rightarrow> InflationInfo" where
  "set_expectations expect self = self\<lparr>ii_expect := expect\<rparr>"

definition compute_issuance :: "'w config \<Rightarrow> nat \<Rightarrow> nat \<Rightarrow> ('w, Balance) staking_m" where
  "compute_issuance cfg round_duration round_length =
     (let ideal_duration = sat_mul_u32 round_length (as_u32 (BlockTime cfg))
      in bind_m (gets_m InflationConfig) (\<lambda>config'.
         bind_m (gets_m (round_issuance_range cfg (ii_round config'))) (\<lambda>round_issuance.
         checked_quot (sat_mul_u128 (as_u32 round_duration) (rg_ideal round_issuance))
           ideal_duration)))"

end
