(* ===== verification/Rewards.thy ===== *)
theory Rewards
  imports Issuance "HOL-Library.Product_Lexorder"
begin

text \<open>
  Selection and rewards, from \<open>lib.rs\<close>: choosing the collators of a round and their
  snapshots, preparing the payout of the round that ended, paying one collator and its
  delegators per block, compounding, points and inactivity. Weights are left out, and with
  them the counters that only feed them.
\<close>

section \<open>Selection\<close>

definition compute_top_candidates :: "'w staking \<Rightarrow> AccountId list" where
  "compute_top_candidates s =
     (let top_n = TotalSelected s
      in if top_n = 0 then []
         else let candidates = CandidatePool s
           in if length candidates > top_n
              then let sorted_candidates = rev (sort_key (\<lambda>b. (b_amount b, b_owner b)) candidates);
                       collators = map b_owner (take top_n sorted_candidates)
                   in sort collators
              else map b_owner candidates)"

fun rewardable_bonds ::
  "(AccountId \<rightharpoonup> DelegationAction) \<Rightarrow> Balance \<Rightarrow> Bond list \<Rightarrow> Balance \<times> Bond list" where
  "rewardable_bonds requests uncounted [] = (uncounted, [])"
| "rewardable_bonds requests uncounted (bond # bonds) =
     (let (uncounted, amount) =
            (case requests (b_owner bond) of
               None \<Rightarrow> (uncounted, b_amount bond)
             | Some (Revoke _) \<Rightarrow> (sat_add_u128 uncounted (b_amount bond), 0)
             | Some (Decrease amount) \<Rightarrow>
                 (sat_add_u128 uncounted amount, b_amount bond - amount));
          (uncounted, rest) = rewardable_bonds requests uncounted bonds
      in (uncounted, bond\<lparr>b_amount := amount\<rparr> # rest))"

text \<open>Collecting into a \<open>BTreeMap\<close> keeps the last value of a key.\<close>

definition collect_map :: "('k \<times> 'v) list \<Rightarrow> ('k \<rightharpoonup> 'v)" where
  "collect_map kvs = map_of (rev kvs)"

definition get_rewardable_delegators :: "AccountId \<Rightarrow> ('w, CountedDelegations) staking_m" where
  "get_rewardable_delegators collator =
     bind_m (gets_m (\<lambda>s. DelegationScheduledRequests s collator)) (\<lambda>scheduled_requests.
     let requests = collect_map (map (\<lambda>x. (sr_delegator x, sr_action x)) scheduled_requests)
     in bind_m (gets_m (\<lambda>s. TopDelegations s collator)) (\<lambda>top.
        bind_m (expect_m top) (\<lambda>top.
        let (uncounted, rewardable) = rewardable_bonds requests 0 (ds_delegations top)
        in return_m \<lparr>uncounted_stake = uncounted, rewardable_delegations = rewardable\<rparr>)))"

definition insert_at_stake ::
  "'w config \<Rightarrow> RoundIndex \<Rightarrow> AccountId \<Rightarrow> CollatorSnapshot \<Rightarrow> ('w, unit) staking_m" where
  "insert_at_stake cfg now account snapshot =
     modify_m (\<lambda>s. s\<lparr>AtStake := (AtStake s)
       (now := prefix_insert (key_order cfg) account snapshot (AtStake s now))\<rparr>)"

text \<open>The body of the loop over the chosen collators, with the loop's three counters.\<close>

definition snapshot_collator ::
  "'w config \<Rightarrow> RoundIndex \<Rightarrow> nat \<times> nat \<times> Balance \<Rightarrow> AccountId
    \<Rightarrow> ('w, nat \<times> nat \<times> Balance) staking_m" where
  "snapshot_collator cfg now counters account =
     (case counters of (collator_count, delegation_count, total') \<Rightarrow>
      bind_m (gets_m (\<lambda>s. CandidateInfo s account)) (\<lambda>info.
      bind_m (expect_m info) (\<lambda>state.
      let collator_count = sat_add_u32 collator_count 1;
          delegation_count = sat_add_u32 delegation_count (cm_delegation_count state);
          total' = sat_add_u128 total' (cm_total_counted state)
      in bind_m (get_rewardable_delegators account) (\<lambda>counted.
         let total_counted = cm_total_counted state - uncounted_stake counted
         in bind_m (gets_m (\<lambda>s. AutoCompoundingDelegations s account)) (\<lambda>configs.
            let auto_compounding_delegations =
                  collect_map (map (\<lambda>x. (ac_delegator x, ac_value x)) configs);
                rewardable_delegations' =
                  map (\<lambda>d. \<lparr>bac_owner = b_owner d, bac_amount = b_amount d,
                         bac_auto_compound =
                           (case auto_compounding_delegations (b_owner d) of
                              Some v \<Rightarrow> v | None \<Rightarrow> 0)\<rparr>)
                    (rewardable_delegations counted);
                snapshot = \<lparr>snap_bond = cm_bond state, snap_delegations = rewardable_delegations',
                            snap_total = total_counted\<rparr>
            in then_m (insert_at_stake cfg now account snapshot)
              (then_m (deposit_event (CollatorChosen now account (cm_total_counted state)))
                (return_m (collator_count, delegation_count, total'))))))))"

text \<open>The loop that repeats the snapshots of the previous round.\<close>

definition repeat_snapshot ::
  "'w config \<Rightarrow> RoundIndex \<Rightarrow> nat \<times> nat \<times> Balance \<Rightarrow> AccountId \<times> CollatorSnapshot
    \<Rightarrow> ('w, nat \<times> nat \<times> Balance) staking_m" where
  "repeat_snapshot cfg now counters entry =
     (case counters of (collator_count, delegation_count, total') \<Rightarrow>
      case entry of (account, snapshot) \<Rightarrow>
        then_m (insert_at_stake cfg now account snapshot)
          (return_m (sat_add_u32 collator_count 1,
             sat_add_u32 delegation_count (as_u32 (length (snap_delegations snapshot))),
             sat_add_u128 total' (snap_total snapshot))))"

definition select_top_candidates ::
  "'w config \<Rightarrow> RoundIndex \<Rightarrow> ('w, nat \<times> nat \<times> Balance) staking_m" where
  "select_top_candidates cfg now =
     bind_m (gets_m compute_top_candidates) (\<lambda>collators.
     if collators = []
     then let last_round = now - 1
       in bind_m (gets_m (\<lambda>s. AtStake s last_round)) (\<lambda>previous.
          let total_per_candidate =
                collect_map (map (\<lambda>(account, snapshot). (account, snap_total snapshot)) previous)
          in bind_m (fold_m (repeat_snapshot cfg now) (0, 0, 0) previous) (\<lambda>counters.
             bind_m (gets_m SelectedCandidates) (\<lambda>selected.
             then_m
               (for_each_m (\<lambda>candidate.
                  bind_m (expect_m (total_per_candidate candidate)) (\<lambda>snapshot_total.
                  deposit_event (CollatorChosen now candidate snapshot_total))) selected)
               (return_m counters))))
     else bind_m (fold_m (snapshot_collator cfg now) (0, 0, 0) collators) (\<lambda>counters.
          if length collators \<le> MaxCandidates cfg
          then then_m (modify_m (\<lambda>s. s\<lparr>SelectedCandidates := collators\<rparr>)) (return_m counters)
          else panic_m))"

section \<open>Preparing the payout of a round\<close>

definition distribute_inflation ::
  "'w config \<Rightarrow> Balance \<Rightarrow> Balance \<Rightarrow> nat \<times> InflationDistributionAccount \<Rightarrow> ('w, Balance) staking_m"
  where
  "distribute_inflation cfg total_issuance' left_issuance entry =
     (case entry of (index, config') \<Rightarrow>
      if ida_percent config' = 0 then return_m left_issuance
      else let reserve = percent_mul cfg (ida_percent config') total_issuance'
        in bind_m (gets_m (\<lambda>s. deposit_into_existing cfg (ida_account config') reserve (world s)))
          (\<lambda>deposited. case deposited of
             Some (imb, w) \<Rightarrow>
               then_m (on_world (\<lambda>_. w))
               (then_m (deposit_event (InflationDistributed (as_u32 index) (ida_account config') imb))
                 (return_m (left_issuance - imb)))
           | None \<Rightarrow> return_m left_issuance))"

definition prepare_staking_payouts ::
  "'w config \<Rightarrow> RoundInfo \<Rightarrow> nat \<Rightarrow> ('w, unit) staking_m" where
  "prepare_staking_payouts cfg round_info round_duration =
     (let prepare_payout_for_round = wrap_sub_u32 (r_current round_info) 1
      in bind_m (gets_m (\<lambda>s. Points s prepare_payout_for_round)) (\<lambda>points.
         if points = 0 then return_m ()
         else bind_m (compute_issuance cfg round_duration (r_length round_info)) (\<lambda>total_issuance'.
           bind_m (gets_m (\<lambda>s. config_accounts (InflationDistributionInfo s))) (\<lambda>configs.
           bind_m (fold_m (distribute_inflation cfg total_issuance') total_issuance'
                    (enumerate 0 configs)) (\<lambda>left_issuance.
           bind_m (gets_m CollatorCommission) (\<lambda>commission.
           let payout = \<lparr>dp_round_issuance = total_issuance',
                         dp_total_staking_reward = left_issuance,
                         dp_collator_commission = commission\<rparr>
           in modify_m (\<lambda>s. s\<lparr>DelayedPayouts :=
                (DelayedPayouts s)(prepare_payout_for_round \<mapsto> payout)\<rparr>)))))))"

section \<open>Minting\<close>

definition mint :: "'w config \<Rightarrow> Balance \<Rightarrow> AccountId \<Rightarrow> ('w, unit) staking_m" where
  "mint cfg amt to =
     bind_m (gets_m (\<lambda>s. deposit_into_existing cfg to amt (world s))) (\<lambda>deposited.
     case deposited of
       Some (amount_transferred, w) \<Rightarrow>
         then_m (on_world (\<lambda>_. w)) (deposit_event (Rewarded to amount_transferred))
     | None \<Rightarrow> return_m ())"

definition mint_collator_reward ::
  "'w config \<Rightarrow> RoundIndex \<Rightarrow> AccountId \<Rightarrow> Balance \<Rightarrow> ('w, unit) staking_m" where
  "mint_collator_reward cfg paid_for_round collator_id amt =
     bind_m (gets_m (\<lambda>s. deposit_into_existing cfg collator_id amt (world s))) (\<lambda>deposited.
     case deposited of
       Some (amount_transferred, w) \<Rightarrow>
         then_m (on_world (\<lambda>_. w)) (deposit_event (Rewarded collator_id amount_transferred))
     | None \<Rightarrow> return_m ())"

text \<open>A failed compounding is ignored by its caller, which does not undo what it wrote.\<close>

definition mint_and_compound ::
  "'w config \<Rightarrow> Balance \<Rightarrow> Percent \<Rightarrow> AccountId \<Rightarrow> AccountId \<Rightarrow> ('w, unit) staking_m" where
  "mint_and_compound cfg amt compound_percent candidate delegator =
     bind_m (gets_m (\<lambda>s. deposit_into_existing cfg delegator amt (world s))) (\<lambda>deposited.
     case deposited of
       Some (amount_transferred, w) \<Rightarrow>
         then_m (on_world (\<lambda>_. w))
         (then_m (deposit_event (Rewarded delegator amount_transferred))
         (let compound_amount = percent_mul_ceil cfg compound_percent amount_transferred
          in if compound_amount = 0 then return_m ()
             else bind_m (attempt_m
                    (delegation_bond_more_without_event cfg delegator candidate compound_amount))
               (\<lambda>r. case r of
                  Inl e \<Rightarrow> return_m ()
                | Inr _ \<Rightarrow> deposit_event (Compounded delegator candidate compound_amount))))
     | None \<Rightarrow> return_m ())"

section \<open>Paying\<close>

datatype RewardPayment = Paid | Skipped | Finished

definition pay_delegator ::
  "'w config \<Rightarrow> AccountId \<Rightarrow> Balance \<Rightarrow> Balance \<Rightarrow> BondWithAutoCompound \<Rightarrow> ('w, unit) staking_m" where
  "pay_delegator cfg collator state_total amt_due bond =
     (let percent = perbill_from_rational cfg (bac_amount bond) state_total;
          due = perbill_mul cfg percent amt_due
      in if due \<noteq> 0
         then mint_and_compound cfg due (bac_auto_compound bond) collator (bac_owner bond)
         else return_m ())"

text \<open>Reading and removing the first entry under a prefix (\<open>iter_prefix().drain().next()\<close>).\<close>

definition drain_at_stake ::
  "RoundIndex \<Rightarrow> ('w, (AccountId \<times> CollatorSnapshot) option) staking_m" where
  "drain_at_stake r =
     bind_m (gets_m (\<lambda>s. AtStake s r)) (\<lambda>entries. case entries of
       [] \<Rightarrow> return_m None
     | e # es \<Rightarrow> then_m (modify_m (\<lambda>s. s\<lparr>AtStake := (AtStake s)(r := es)\<rparr>)) (return_m (Some e)))"

definition take_awarded_pts :: "RoundIndex \<Rightarrow> AccountId \<Rightarrow> ('w, nat) staking_m" where
  "take_awarded_pts r collator =
     bind_m (gets_m (\<lambda>s. AwardedPts s r collator)) (\<lambda>pts.
     then_m (modify_m (\<lambda>s. s\<lparr>AwardedPts := (AwardedPts s)(r := (AwardedPts s r)(collator := 0))\<rparr>))
       (return_m pts))"

definition pay_collator_and_delegators ::
  "'w config \<Rightarrow> RoundIndex \<Rightarrow> DelayedPayout \<Rightarrow> Balance \<Rightarrow> AccountId \<Rightarrow> CollatorSnapshot \<Rightarrow> Perbill
    \<Rightarrow> ('w, unit) staking_m" where
  "pay_collator_and_delegators cfg paid_for_round payout_info collator_issuance collator state pct_due =
     (let total_paid = perbill_mul cfg pct_due (dp_total_staking_reward payout_info);
          amt_due = total_paid
      in if snap_delegations state = []
         then then_m (payout_collator_reward cfg paid_for_round collator amt_due)
                (on_collator_payout cfg paid_for_round collator amt_due)
         else let collator_pct = perbill_from_rational cfg (snap_bond state) (snap_total state);
                  commission = perbill_mul cfg pct_due collator_issuance;
                  amt_due = amt_due - commission;
                  collator_reward = sat_add_u128 (perbill_mul cfg collator_pct amt_due) commission
              in then_m (payout_collator_reward cfg paid_for_round collator collator_reward)
                (then_m (on_collator_payout cfg paid_for_round collator collator_reward)
                  (for_each_m (pay_delegator cfg collator (snap_total state) amt_due)
                    (snap_delegations state))))"

definition pay_one_collator_reward ::
  "'w config \<Rightarrow> RoundIndex \<Rightarrow> DelayedPayout \<Rightarrow> ('w, RewardPayment) staking_m" where
  "pay_one_collator_reward cfg paid_for_round payout_info =
     bind_m (gets_m (\<lambda>s. Points s paid_for_round)) (\<lambda>total_points.
     if total_points = 0 then return_m Finished
     else let collator_fee = dp_collator_commission payout_info;
              collator_issuance = perbill_mul cfg collator_fee (dp_round_issuance payout_info)
          in bind_m (drain_at_stake paid_for_round) (\<lambda>entry. case entry of
               Some (collator, state) \<Rightarrow>
                 bind_m (take_awarded_pts paid_for_round collator) (\<lambda>pts.
                 if pts = 0 then return_m Skipped
                 else let pct_due = perbill_from_rational cfg pts total_points
                      in then_m (pay_collator_and_delegators cfg paid_for_round payout_info
                           collator_issuance collator state pct_due) (return_m Paid))
             | None \<Rightarrow> return_m Finished))"

definition handle_delayed_payouts :: "'w config \<Rightarrow> RoundIndex \<Rightarrow> ('w, unit) staking_m" where
  "handle_delayed_payouts cfg now =
     (let delay = RewardPaymentDelay cfg
      in if now < delay then return_m ()
         else let paid_for_round = now - delay
           in bind_m (gets_m (\<lambda>s. DelayedPayouts s paid_for_round)) (\<lambda>payout. case payout of
                Some payout_info \<Rightarrow>
                  bind_m (pay_one_collator_reward cfg paid_for_round payout_info) (\<lambda>result.
                  if result = Finished
                  then modify_m (\<lambda>s. s\<lparr>DelayedPayouts := (DelayedPayouts s)(paid_for_round := None),
                                       Points := (Points s)(paid_for_round := 0)\<rparr>)
                  else return_m ())
              | None \<Rightarrow> return_m ()))"

section \<open>Points and inactivity\<close>

definition award_points_to_block_author :: "'w config \<Rightarrow> ('w, unit) staking_m" where
  "award_points_to_block_author cfg =
     bind_m (gets_m (\<lambda>s. block_author cfg (world s))) (\<lambda>author.
     bind_m (gets_m (\<lambda>s. r_current (Round s))) (\<lambda>now.
     bind_m (gets_m (\<lambda>s. sat_add_u32 (AwardedPts s now author) 20)) (\<lambda>score_plus_20.
     then_m (modify_m (\<lambda>s. s\<lparr>AwardedPts :=
               (AwardedPts s)(now := (AwardedPts s now)(author := score_plus_20))\<rparr>))
       (modify_m (\<lambda>s. s\<lparr>Points := (Points s)(now := sat_add_u32 (Points s now) 20)\<rparr>)))))"

definition mark_collators_as_inactive :: "'w config \<Rightarrow> RoundIndex \<Rightarrow> ('w, unit) staking_m" where
  "mark_collators_as_inactive cfg cur =
     (let prev = wrap_sub_u32 cur 1
      in bind_m (gets_m (\<lambda>s. AtStake s prev)) (\<lambda>entries.
         for_each_m (\<lambda>(account, _).
           bind_m (gets_m (\<lambda>s. AwardedPts s prev account)) (\<lambda>pts.
           if pts = 0
           then modify_m (\<lambda>s. s\<lparr>WasInactive := (WasInactive s)
                  (prev := prefix_insert (key_order cfg) account () (WasInactive s prev))\<rparr>)
           else return_m ())) entries))"

definition cleanup_inactive_collator_info :: "'w config \<Rightarrow> ('w, unit) staking_m" where
  "cleanup_inactive_collator_info cfg =
     bind_m (gets_m (\<lambda>s. r_current (Round s))) (\<lambda>now.
     let minimum_rounds_required = wrap_add_u32 (MaxOfflineRounds cfg) 1
     in if now < minimum_rounds_required then return_m ()
        else modify_m (\<lambda>s. s\<lparr>WasInactive := (WasInactive s)
               (now - minimum_rounds_required := tl (WasInactive s (now - minimum_rounds_required)))\<rparr>))"

section \<open>Block hooks\<close>

definition on_initialize :: "'w config \<Rightarrow> BlockNumber \<Rightarrow> ('w, unit) staking_m" where
  "on_initialize cfg n =
     bind_m (gets_m Round) (\<lambda>round'.
     if should_update n round'
     then bind_m (gets_m (\<lambda>s. current_slot cfg (world s))) (\<lambda>slot.
          let round_duration = sat_mul_u64 (slot - r_first_slot round') (SlotDuration cfg);
              round' = round_update n slot round'
          in then_m (on_new_round cfg (r_current round'))
            (then_m (prepare_staking_payouts cfg round' round_duration)
            (bind_m (select_top_candidates cfg (r_current round'))
              (\<lambda>(collator_count, _, total_staked).
             then_m (modify_m (\<lambda>s. s\<lparr>Round := round'\<rparr>))
            (then_m (deposit_event
               (NewRound (r_first round') (r_current round') collator_count total_staked))
             (mark_collators_as_inactive cfg (r_current round')))))))
     else handle_delayed_payouts cfg (r_current round'))"

definition on_finalize :: "'w config \<Rightarrow> ('w, unit) staking_m" where
  "on_finalize cfg =
     then_m (award_points_to_block_author cfg) (cleanup_inactive_collator_info cfg)"

end
