(* ===== verification/Candidate_Calls.thy ===== *)
theory Candidate_Calls
  imports Rewards
begin

text \<open>
  The life of a candidate in \<open>lib.rs\<close>: joining, going offline and back, bonding more and
  less, leaving. The functions with the suffix \<open>inner\<close> are the pallet's own entry points,
  shared by the dispatched calls, the genesis configuration and other pallets.
\<close>

section \<open>Pool membership\<close>

definition is_selected_candidate :: "AccountId \<Rightarrow> 'w staking \<Rightarrow> bool" where
  "is_selected_candidate acc s =
     (case binary_search_by (\<lambda>x. cmp x acc) (SelectedCandidates s) of Inr _ \<Rightarrow> True | Inl _ \<Rightarrow> False)"

definition can_author :: "AccountId \<Rightarrow> nat \<Rightarrow> 'w staking \<Rightarrow> bool" where
  "can_author account slot s = is_selected_candidate account s"

text \<open>
  Inserting a bond in the pool's vector: \<open>CandidateLimitReached\<close> when it is full, the given
  error when the owner is there already.
\<close>

definition pool_insert ::
  "'w config \<Rightarrow> Bond \<Rightarrow> Bond list \<Rightarrow> staking_error \<Rightarrow> ('w, Bond list) staking_m" where
  "pool_insert cfg bond candidates already =
     (case bounded_try_insert (MaxCandidates cfg) b_owner bond candidates of
        Inl _ \<Rightarrow> err CandidateLimitReached
      | Inr (maybe_inserted_candidate, candidates) \<Rightarrow>
          then_m (ensure maybe_inserted_candidate already) (return_m candidates))"

text \<open>Removing an account from the pool, which is written back only when it was there.\<close>

definition pool_drop :: "AccountId \<Rightarrow> Bond list \<Rightarrow> ('w, unit) staking_m" where
  "pool_drop collator candidates =
     (case bounded_remove b_owner (b_owner (bond_from_owner collator)) candidates of
        (True, candidates) \<Rightarrow> put_candidate_pool candidates
      | (False, _) \<Rightarrow> return_m ())"

section \<open>Joining\<close>

definition join_candidates_inner ::
  "'w config \<Rightarrow> AccountId \<Rightarrow> Balance \<Rightarrow> nat \<Rightarrow> ('w, unit) staking_m" where
  "join_candidates_inner cfg acc bond candidate_count =
     bind_m (gets_m (is_candidate acc)) (\<lambda>exists'.
     then_m (ensure (\<not> exists') CandidateExists)
     (bind_m (gets_m (is_delegator acc)) (\<lambda>delegating.
      then_m (ensure (\<not> delegating) DelegatorExists)
     (bind_m (gets_m CandidatePool) (\<lambda>candidates.
      let old_count = as_u32 (length candidates)
      in then_m (ensure (candidate_count \<ge> old_count) TooLowCandidateCountWeightHintJoinCandidates)
     (bind_m (pool_insert cfg \<lparr>b_owner = acc, b_amount = bond\<rparr> candidates CandidateExists)
       (\<lambda>candidates.
      bind_m (gets_m (get_collator_stakable_free_balance cfg acc)) (\<lambda>stakable.
      then_m (ensure (stakable \<ge> bond) InsufficientBalance)
     (then_m (on_world (set_lock cfg COLLATOR_LOCK_ID acc bond))
     (then_m (put_candidate_info acc (candidate_new bond))
     (then_m (put_top_delegations acc delegations_default)
     (then_m (put_bottom_delegations acc delegations_default)
     (then_m (put_candidate_pool candidates)
     (bind_m (gets_m (\<lambda>s. sat_add_u128 (Total s) bond)) (\<lambda>new_total.
      then_m (put_total new_total)
        (deposit_event (JoinedCollatorCandidates acc bond new_total)))))))))))))))))"

section \<open>Offline and online\<close>

definition go_offline_inner :: "AccountId \<Rightarrow> ('w, unit) staking_m" where
  "go_offline_inner collator =
     bind_m (gets_m (\<lambda>s. CandidateInfo s collator)) (\<lambda>info.
     bind_m (ok_or info CandidateDNE) (\<lambda>state.
     bind_m (gets_m CandidatePool) (\<lambda>candidates.
     then_m (ensure (is_active state) AlreadyOffline)
     (let state = go_offline state
      in then_m (pool_drop collator candidates)
        (then_m (put_candidate_info collator state)
          (deposit_event (CandidateWentOffline collator)))))))"

definition go_online_inner :: "'w config \<Rightarrow> AccountId \<Rightarrow> ('w, unit) staking_m" where
  "go_online_inner cfg collator =
     bind_m (gets_m (\<lambda>s. CandidateInfo s collator)) (\<lambda>info.
     bind_m (ok_or info CandidateDNE) (\<lambda>state.
     bind_m (gets_m CandidatePool) (\<lambda>candidates.
     then_m (ensure (\<not> is_active state) AlreadyActive)
     (then_m (ensure (\<not> is_leaving state) CannotGoOnlineIfLeaving)
     (let state = go_online state
      in bind_m (pool_insert cfg \<lparr>b_owner = collator, b_amount = cm_total_counted state\<rparr>
           candidates AlreadyActive) (\<lambda>candidates.
         then_m (put_candidate_pool candidates)
        (then_m (put_candidate_info collator state)
          (deposit_event (CandidateBackOnline collator)))))))))"

section \<open>Self bond\<close>

definition candidate_bond_more_inner ::
  "'w config \<Rightarrow> AccountId \<Rightarrow> Balance \<Rightarrow> ('w, unit) staking_m" where
  "candidate_bond_more_inner cfg collator more' =
     bind_m (gets_m (\<lambda>s. CandidateInfo s collator)) (\<lambda>info.
     bind_m (ok_or info CandidateDNE) (\<lambda>state.
     bind_m (bond_more cfg collator more' state) (\<lambda>state.
     let active = is_active state; total_counted = cm_total_counted state
     in then_m (put_candidate_info collator state)
          (if active then update_active cfg collator total_counted else return_m ()))))"

definition execute_candidate_bond_less_inner :: "'w config \<Rightarrow> AccountId \<Rightarrow> ('w, unit) staking_m" where
  "execute_candidate_bond_less_inner cfg candidate =
     bind_m (gets_m (\<lambda>s. CandidateInfo s candidate)) (\<lambda>info.
     bind_m (ok_or info CandidateDNE) (\<lambda>state.
     bind_m (execute_bond_less cfg candidate state) (\<lambda>state.
     put_candidate_info candidate state)))"

text \<open>The result of \<open>bond_less\<close> is the unit: it cannot fail.\<close>

definition set_candidate_bond_to_zero :: "'w config \<Rightarrow> AccountId \<Rightarrow> ('w, unit) staking_m" where
  "set_candidate_bond_to_zero cfg acc =
     bind_m (gets_m (\<lambda>s. CandidateInfo s acc)) (\<lambda>info. case info of
       Some state \<Rightarrow>
         bind_m (bond_less cfg acc (cm_bond state) state) (\<lambda>state. put_candidate_info acc state)
     | None \<Rightarrow> return_m ())"

section \<open>Leaving\<close>

text \<open>The closure \<open>return_stake\<close>.\<close>

definition return_stake :: "'w config \<Rightarrow> AccountId \<Rightarrow> Bond \<Rightarrow> ('w, unit) staking_m" where
  "return_stake cfg candidate bond =
     bind_m (gets_m (\<lambda>s. DelegatorState s (b_owner bond))) (\<lambda>state.
     bind_m (expect_m state) (\<lambda>delegator.
     bind_m (delegator_rm_delegation cfg candidate delegator) (\<lambda>(delegator, removed).
     case removed of
       Some remaining \<Rightarrow>
         bind_m (delegation_remove_request_with_state candidate (b_owner bond) delegator) (\<lambda>delegator.
         then_m (remove_auto_compound candidate (b_owner bond))
           (if remaining = 0
            then then_m (remove_delegator_state (b_owner bond))
                   (on_world (remove_lock cfg DELEGATOR_LOCK_ID (b_owner bond)))
            else put_delegator_state (b_owner bond) delegator))
     | None \<Rightarrow> on_world (remove_lock cfg DELEGATOR_LOCK_ID (b_owner bond)))))"

text \<open>\<open>StorageMap::take\<close> on the two delegation maps.\<close>

definition take_top_delegations :: "AccountId \<Rightarrow> ('w, Delegations option) staking_m" where
  "take_top_delegations c =
     bind_m (gets_m (\<lambda>s. TopDelegations s c)) (\<lambda>ds.
     then_m (modify_m (\<lambda>s. s\<lparr>TopDelegations := (TopDelegations s)(c := None)\<rparr>)) (return_m ds))"

definition take_bottom_delegations :: "AccountId \<Rightarrow> ('w, Delegations option) staking_m" where
  "take_bottom_delegations c =
     bind_m (gets_m (\<lambda>s. BottomDelegations s c)) (\<lambda>ds.
     then_m (modify_m (\<lambda>s. s\<lparr>BottomDelegations := (BottomDelegations s)(c := None)\<rparr>)) (return_m ds))"

definition forget_candidate :: "AccountId \<Rightarrow> ('w, unit) staking_m" where
  "forget_candidate c =
     modify_m (\<lambda>s. s\<lparr>CandidateInfo := (CandidateInfo s)(c := None),
       DelegationScheduledRequests := (DelegationScheduledRequests s)(c := []),
       AutoCompoundingDelegations := (AutoCompoundingDelegations s)(c := []),
       TopDelegations := (TopDelegations s)(c := None),
       BottomDelegations := (BottomDelegations s)(c := None)\<rparr>)"

definition execute_leave_candidates_inner :: "'w config \<Rightarrow> AccountId \<Rightarrow> ('w, unit) staking_m" where
  "execute_leave_candidates_inner cfg candidate =
     bind_m (gets_m (\<lambda>s. CandidateInfo s candidate)) (\<lambda>info.
     bind_m (ok_or info CandidateDNE) (\<lambda>state.
     then_m (can_leave state)
     (let total_backing = cm_bond state
      in bind_m (take_top_delegations candidate) (\<lambda>top.
         bind_m (expect_m top) (\<lambda>top.
         then_m (for_each_m (return_stake cfg candidate) (ds_delegations top))
         (let total_backing = sat_add_u128 total_backing (ds_total top)
          in bind_m (take_bottom_delegations candidate) (\<lambda>bottom.
             bind_m (expect_m bottom) (\<lambda>bottom.
             then_m (for_each_m (return_stake cfg candidate) (ds_delegations bottom))
             (let total_backing = sat_add_u128 total_backing (ds_total bottom)
              in then_m (on_world (remove_lock cfg COLLATOR_LOCK_ID candidate))
                (then_m (forget_candidate candidate)
                (bind_m (gets_m (\<lambda>s. Total s - total_backing)) (\<lambda>new_total_staked.
                 then_m (put_total new_total_staked)
                   (deposit_event (CandidateLeft candidate total_backing new_total_staked))))))))))))))"

section \<open>Dispatched calls of a candidate\<close>

text \<open>
  Every call runs in a storage layer of its own: an error undoes what it wrote
  (\<open>transactional\<close>).
\<close>

definition join_candidates :: "'w config \<Rightarrow> origin \<Rightarrow> Balance \<Rightarrow> nat \<Rightarrow> ('w, unit) staking_m" where
  "join_candidates cfg origin' bond candidate_count = transactional (
     bind_m (ensure_signed origin') (\<lambda>acc.
     then_m (ensure (bond \<ge> MinCandidateStk cfg) CandidateBondBelowMin)
       (join_candidates_inner cfg acc bond candidate_count)))"

definition force_join_candidates ::
  "'w config \<Rightarrow> origin \<Rightarrow> AccountId \<Rightarrow> Balance \<Rightarrow> nat \<Rightarrow> ('w, unit) staking_m" where
  "force_join_candidates cfg origin' account bond candidate_count = transactional (
     then_m (ensure_monetary_governance cfg origin')
       (join_candidates_inner cfg account bond candidate_count))"

definition schedule_leave_candidates :: "'w config \<Rightarrow> origin \<Rightarrow> nat \<Rightarrow> ('w, unit) staking_m" where
  "schedule_leave_candidates cfg origin' candidate_count = transactional (
     bind_m (ensure_signed origin') (\<lambda>collator.
     bind_m (gets_m (\<lambda>s. CandidateInfo s collator)) (\<lambda>info.
     bind_m (ok_or info CandidateDNE) (\<lambda>state.
     bind_m (schedule_leave cfg state) (\<lambda>(state, now, when').
     bind_m (gets_m CandidatePool) (\<lambda>candidates.
     then_m (ensure (candidate_count \<ge> as_u32 (length candidates))
               TooLowCandidateCountToLeaveCandidates)
     (then_m (pool_drop collator candidates)
     (then_m (put_candidate_info collator state)
       (deposit_event (CandidateScheduledExit now collator when'))))))))))"

definition execute_leave_candidates ::
  "'w config \<Rightarrow> origin \<Rightarrow> AccountId \<Rightarrow> nat \<Rightarrow> ('w, unit) staking_m" where
  "execute_leave_candidates cfg origin' candidate candidate_delegation_count = transactional (
     bind_m (ensure_signed origin') (\<lambda>_.
     bind_m (gets_m (\<lambda>s. CandidateInfo s candidate)) (\<lambda>info.
     bind_m (ok_or info CandidateDNE) (\<lambda>state.
     then_m (ensure (cm_delegation_count state \<le> candidate_delegation_count)
               TooLowCandidateDelegationCountToLeaveCandidates)
       (execute_leave_candidates_inner cfg candidate)))))"

definition cancel_leave_candidates :: "'w config \<Rightarrow> origin \<Rightarrow> nat \<Rightarrow> ('w, unit) staking_m" where
  "cancel_leave_candidates cfg origin' candidate_count = transactional (
     bind_m (ensure_signed origin') (\<lambda>collator.
     bind_m (gets_m (\<lambda>s. CandidateInfo s collator)) (\<lambda>info.
     bind_m (ok_or info CandidateDNE) (\<lambda>state.
     then_m (ensure (is_leaving state) CandidateNotLeaving)
     (let state = go_online state
      in bind_m (gets_m CandidatePool) (\<lambda>candidates.
         then_m (ensure (as_u32 (length candidates) \<le> candidate_count)
                   TooLowCandidateCountWeightHintCancelLeaveCandidates)
        (bind_m (pool_insert cfg \<lparr>b_owner = collator, b_amount = cm_total_counted state\<rparr>
           candidates AlreadyActive) (\<lambda>candidates.
         then_m (put_candidate_pool candidates)
        (then_m (put_candidate_info collator state)
          (deposit_event (CancelledCandidateExit collator)))))))))))"

definition go_offline_call :: "origin \<Rightarrow> ('w, unit) staking_m" where
  "go_offline_call origin' = transactional (
     bind_m (ensure_signed origin') (\<lambda>collator. go_offline_inner collator))"

definition go_online_call :: "'w config \<Rightarrow> origin \<Rightarrow> ('w, unit) staking_m" where
  "go_online_call cfg origin' = transactional (
     bind_m (ensure_signed origin') (\<lambda>collator. go_online_inner cfg collator))"

definition candidate_bond_more :: "'w config \<Rightarrow> origin \<Rightarrow> Balance \<Rightarrow> ('w, unit) staking_m" where
  "candidate_bond_more cfg origin' more' = transactional (
     bind_m (ensure_signed origin') (\<lambda>candidate. candidate_bond_more_inner cfg candidate more'))"

definition schedule_candidate_bond_less :: "'w config \<Rightarrow> origin \<Rightarrow> Balance \<Rightarrow> ('w, unit) staking_m" where
  "schedule_candidate_bond_less cfg origin' less' = transactional (
     bind_m (ensure_signed origin') (\<lambda>collator.
     bind_m (gets_m (\<lambda>s. CandidateInfo s collator)) (\<lambda>info.
     bind_m (ok_or info CandidateDNE) (\<lambda>state.
     bind_m (schedule_bond_less cfg less' state) (\<lambda>(state, when').
     then_m (put_candidate_info collator state)
       (deposit_event (CandidateBondLessRequested collator less' when')))))))"

definition execute_candidate_bond_less ::
  "'w config \<Rightarrow> origin \<Rightarrow> AccountId \<Rightarrow> ('w, unit) staking_m" where
  "execute_candidate_bond_less cfg origin' candidate = transactional (
     bind_m (ensure_signed origin') (\<lambda>_. execute_candidate_bond_less_inner cfg candidate))"

definition cancel_candidate_bond_less :: "origin \<Rightarrow> ('w, unit) staking_m" where
  "cancel_candidate_bond_less origin' = transactional (
     bind_m (ensure_signed origin') (\<lambda>collator.
     bind_m (gets_m (\<lambda>s. CandidateInfo s collator)) (\<lambda>info.
     bind_m (ok_or info CandidateDNE) (\<lambda>state.
     bind_m (cancel_bond_less collator state) (\<lambda>state.
     put_candidate_info collator state)))))"

text \<open>
  \<open>usize\<close> is 32 bits wide in the runtime's WebAssembly, where the comparison of the number
  of collators with two thirds of the maximum takes place.
\<close>

definition inactive_rounds ::
  "AccountId \<Rightarrow> (RoundIndex \<Rightarrow> (AccountId \<times> unit) list) \<Rightarrow> RoundIndex list \<Rightarrow> nat" where
  "inactive_rounds collator was_inactive rounds =
     foldl (\<lambda>n r. if map_of (was_inactive r) collator \<noteq> None then sat_add_u32 n 1 else n) 0 rounds"

definition notify_inactive_collator :: "'w config \<Rightarrow> origin \<Rightarrow> AccountId \<Rightarrow> ('w, unit) staking_m" where
  "notify_inactive_collator cfg origin' collator = transactional (
     bind_m (gets_m EnableMarkingOffline) (\<lambda>enabled.
     then_m (ensure enabled MarkingOfflineNotEnabled)
     (then_m (bind_m (ensure_signed origin') (\<lambda>_. return_m ()))
     (bind_m (gets_m TotalSelected) (\<lambda>max_collators.
      bind_m (gets_m (\<lambda>s. length (SelectedCandidates s))) (\<lambda>collators_len.
      then_m (ensure (wrap_mul_u32 collators_len 3 > wrap_mul_u32 max_collators 2)
                TooLowCollatorCountToNotifyAsInactive)
     (bind_m (gets_m Round) (\<lambda>round_info.
      let max_offline_rounds = MaxOfflineRounds cfg
      in then_m (ensure (r_current round_info > max_offline_rounds) CurrentRoundTooLow)
     (let first_round_to_check = r_current round_info - max_offline_rounds
      in bind_m (gets_m (\<lambda>s. inactive_rounds collator (WasInactive s)
           [first_round_to_check ..< r_current round_info])) (\<lambda>inactive_counter.
         if inactive_counter = max_offline_rounds
         then bind_m (attempt_m (on_inactive_collator cfg collator (r_current round_info - 1)))
                (\<lambda>_. return_m ())
         else err CannotBeNotifiedAsInactive))))))))))"

end
