(* ===== verification/Calls.thy ===== *)
theory Calls
  imports Candidate_Calls
begin

text \<open>
  The remaining dispatched calls of \<open>lib.rs\<close> (those of delegators and of governance), the
  default handlers of \<open>traits.rs\<close> and the genesis configuration.
\<close>

section \<open>Delegators\<close>

definition delegate_with_auto_compound ::
  "'w config \<Rightarrow> origin \<Rightarrow> AccountId \<Rightarrow> Balance \<Rightarrow> Percent \<Rightarrow> nat \<Rightarrow> nat \<Rightarrow> nat
    \<Rightarrow> ('w, unit) staking_m" where
  "delegate_with_auto_compound cfg origin' candidate amount auto_compound'
       candidate_delegation_count candidate_auto_compounding_delegation_count delegation_count =
   transactional (
     bind_m (ensure_signed origin') (\<lambda>delegator.
     delegate_with_auto_compound_inner cfg candidate delegator amount auto_compound'
       candidate_delegation_count candidate_auto_compounding_delegation_count delegation_count))"

definition schedule_revoke_delegation ::
  "'w config \<Rightarrow> origin \<Rightarrow> AccountId \<Rightarrow> ('w, unit) staking_m" where
  "schedule_revoke_delegation cfg origin' collator = transactional (
     bind_m (ensure_signed origin') (\<lambda>delegator. delegation_schedule_revoke cfg collator delegator))"

definition delegator_bond_more ::
  "'w config \<Rightarrow> origin \<Rightarrow> AccountId \<Rightarrow> Balance \<Rightarrow> ('w, unit) staking_m" where
  "delegator_bond_more cfg origin' candidate more' = transactional (
     bind_m (ensure_signed origin') (\<lambda>delegator.
     bind_m (delegation_bond_more_without_event cfg delegator candidate more') (\<lambda>in_top.
     deposit_event (DelegationIncreased delegator candidate more' in_top))))"

definition schedule_delegator_bond_less ::
  "'w config \<Rightarrow> origin \<Rightarrow> AccountId \<Rightarrow> Balance \<Rightarrow> ('w, unit) staking_m" where
  "schedule_delegator_bond_less cfg origin' candidate less' = transactional (
     bind_m (ensure_signed origin') (\<lambda>delegator.
     delegation_schedule_bond_decrease cfg candidate delegator less'))"

definition execute_delegation_request ::
  "'w config \<Rightarrow> origin \<Rightarrow> AccountId \<Rightarrow> AccountId \<Rightarrow> ('w, unit) staking_m" where
  "execute_delegation_request cfg origin' delegator candidate = transactional (
     bind_m (ensure_signed origin') (\<lambda>_.
     delegation_execute_scheduled_request cfg candidate delegator))"

definition cancel_delegation_request :: "origin \<Rightarrow> AccountId \<Rightarrow> ('w, unit) staking_m" where
  "cancel_delegation_request origin' candidate = transactional (
     bind_m (ensure_signed origin') (\<lambda>delegator. delegation_cancel_request candidate delegator))"

definition set_auto_compound ::
  "'w config \<Rightarrow> origin \<Rightarrow> AccountId \<Rightarrow> Percent \<Rightarrow> nat \<Rightarrow> nat \<Rightarrow> ('w, unit) staking_m" where
  "set_auto_compound cfg origin' candidate value'
       candidate_auto_compounding_delegation_count_hint delegation_count_hint =
   transactional (
     bind_m (ensure_signed origin') (\<lambda>delegator.
     set_auto_compound_inner cfg candidate delegator value'
       candidate_auto_compounding_delegation_count_hint delegation_count_hint))"

section \<open>Governance\<close>

definition put_inflation_config :: "InflationInfo \<Rightarrow> ('w, unit) staking_m" where
  "put_inflation_config config' = modify_m (\<lambda>s. s\<lparr>InflationConfig := config'\<rparr>)"

definition set_staking_expectations :: "'w config \<Rightarrow> origin \<Rightarrow> Range \<Rightarrow> ('w, unit) staking_m" where
  "set_staking_expectations cfg origin' expectations = transactional (
     then_m (ensure_monetary_governance cfg origin')
     (then_m (ensure (range_is_valid expectations) InvalidSchedule)
     (bind_m (gets_m InflationConfig) (\<lambda>config'.
      then_m (ensure (ii_expect config' \<noteq> expectations) NoWritingSameValue)
     (let config' = set_expectations expectations config'
      in then_m (deposit_event (StakeExpectationsSet (rg_min (ii_expect config'))
                   (rg_ideal (ii_expect config')) (rg_max (ii_expect config'))))
           (put_inflation_config config'))))))"

definition set_inflation :: "'w config \<Rightarrow> origin \<Rightarrow> Range \<Rightarrow> ('w, unit) staking_m" where
  "set_inflation cfg origin' schedule = transactional (
     then_m (ensure_monetary_governance cfg origin')
     (then_m (ensure (range_is_valid schedule) InvalidSchedule)
     (bind_m (gets_m InflationConfig) (\<lambda>config'.
      then_m (ensure (ii_annual config' \<noteq> schedule) NoWritingSameValue)
     (bind_m (set_round_from_annual cfg schedule (config'\<lparr>ii_annual := schedule\<rparr>)) (\<lambda>config'.
      then_m (deposit_event (InflationSet (rg_min (ii_annual config')) (rg_ideal (ii_annual config'))
                (rg_max (ii_annual config')) (rg_min (ii_round config'))
                (rg_ideal (ii_round config')) (rg_max (ii_round config'))))
        (put_inflation_config config')))))))"

definition set_total_selected :: "'w config \<Rightarrow> origin \<Rightarrow> nat \<Rightarrow> ('w, unit) staking_m" where
  "set_total_selected cfg origin' new = transactional (
     then_m (ensure_root origin')
     (then_m (ensure (new \<ge> MinSelectedCandidates cfg) CannotSetBelowMin)
     (then_m (ensure (new \<le> MaxCandidates cfg) CannotSetAboveMaxCandidates)
     (bind_m (gets_m TotalSelected) (\<lambda>old.
      then_m (ensure (old \<noteq> new) NoWritingSameValue)
     (bind_m (gets_m (\<lambda>s. r_length (Round s))) (\<lambda>length'.
      then_m (ensure (new < length') RoundLengthMustBeGreaterThanTotalSelectedCollators)
     (then_m (modify_m (\<lambda>s. s\<lparr>TotalSelected := new\<rparr>))
       (deposit_event (TotalSelectedSet old new))))))))))"

definition set_collator_commission :: "'w config \<Rightarrow> origin \<Rightarrow> Perbill \<Rightarrow> ('w, unit) staking_m" where
  "set_collator_commission cfg origin' new = transactional (
     then_m (ensure_root origin')
     (bind_m (gets_m CollatorCommission) (\<lambda>old.
      then_m (ensure (old \<noteq> new) NoWritingSameValue)
     (then_m (modify_m (\<lambda>s. s\<lparr>CollatorCommission := new\<rparr>))
       (deposit_event (CollatorCommissionSet old new))))))"

definition set_blocks_per_round :: "'w config \<Rightarrow> origin \<Rightarrow> nat \<Rightarrow> ('w, unit) staking_m" where
  "set_blocks_per_round cfg origin' new = transactional (
     then_m (ensure_root origin')
     (then_m (ensure (new \<ge> MinBlocksPerRound cfg) CannotSetBelowMin)
     (bind_m (gets_m Round) (\<lambda>round'.
      let now = r_current round'; first = r_first round'; old = r_length round'
      in then_m (ensure (old \<noteq> new) NoWritingSameValue)
     (bind_m (gets_m TotalSelected) (\<lambda>selected.
      then_m (ensure (new > selected) RoundLengthMustBeGreaterThanTotalSelectedCollators)
     (let round' = round'\<lparr>r_length := new\<rparr>
      in bind_m (gets_m InflationConfig) (\<lambda>inflation_config.
         bind_m (reset_round cfg new inflation_config) (\<lambda>inflation_config.
         then_m (modify_m (\<lambda>s. s\<lparr>Round := round'\<rparr>))
        (then_m (deposit_event (BlocksPerRoundSet now first old new
            (rg_min (ii_round inflation_config)) (rg_ideal (ii_round inflation_config))
            (rg_max (ii_round inflation_config))))
          (put_inflation_config inflation_config)))))))))))"

definition enable_marking_offline :: "origin \<Rightarrow> bool \<Rightarrow> ('w, unit) staking_m" where
  "enable_marking_offline origin' value' = transactional (
     then_m (ensure_root origin') (modify_m (\<lambda>s. s\<lparr>EnableMarkingOffline := value'\<rparr>)))"

text \<open>The sum of the percentages is an unsigned byte, which wraps.\<close>

definition set_inflation_distribution_config ::
  "'w config \<Rightarrow> origin \<Rightarrow> InflationDistributionConfig \<Rightarrow> ('w, unit) staking_m" where
  "set_inflation_distribution_config cfg origin' new = transactional (
     then_m (ensure_monetary_governance cfg origin')
     (bind_m (gets_m InflationDistributionInfo) (\<lambda>old.
      then_m (ensure (old \<noteq> new) NoWritingSameValue)
     (let total_percent =
            foldl (\<lambda>acc x. (acc + ida_percent x) mod 256) 0 (config_accounts new)
      in then_m (ensure (total_percent \<le> 100) TotalInflationDistributionPercentExceeds100)
        (then_m (modify_m (\<lambda>s. s\<lparr>InflationDistributionInfo := new\<rparr>))
          (deposit_event (InflationDistributionConfigUpdated old new)))))))"

section \<open>Default handlers\<close>

definition on_collator_payout_unit :: "RoundIndex \<Rightarrow> AccountId \<Rightarrow> Balance \<Rightarrow> ('w, unit) staking_m" where
  "on_collator_payout_unit for_round collator_id amount = return_m ()"

definition on_new_round_unit :: "RoundIndex \<Rightarrow> ('w, unit) staking_m" where
  "on_new_round_unit round_index = return_m ()"

definition payout_collator_reward_unit ::
  "'w config \<Rightarrow> RoundIndex \<Rightarrow> AccountId \<Rightarrow> Balance \<Rightarrow> ('w, unit) staking_m" where
  "payout_collator_reward_unit cfg for_round collator_id amount =
     mint_collator_reward cfg for_round collator_id amount"

definition on_inactive_collator_unit :: "AccountId \<Rightarrow> RoundIndex \<Rightarrow> ('w, unit) staking_m" where
  "on_inactive_collator_unit collator_id round' = go_offline_inner collator_id"

section \<open>Genesis\<close>

record GenesisConfig =
  g_candidates :: "(AccountId \<times> Balance) list"
  g_delegations :: "(AccountId \<times> AccountId \<times> Balance \<times> Percent) list"
  g_inflation_config :: InflationInfo
  g_collator_commission :: Perbill
  g_parachain_bond_reserve_percent :: Percent
  g_blocks_per_round :: nat
  g_num_selected_candidates :: nat

definition inflation_info_default :: InflationInfo where
  "inflation_info_default =
     \<lparr>ii_expect = range_from 0, ii_annual = range_from 0, ii_round = range_from 0\<rparr>"

definition genesis_default :: "'p params_scheme \<Rightarrow> GenesisConfig" where
  "genesis_default cfg =
     \<lparr>g_candidates = [], g_delegations = [], g_inflation_config = inflation_info_default,
      g_collator_commission = 0, g_parachain_bond_reserve_percent = 0, g_blocks_per_round = 1,
      g_num_selected_candidates = MinSelectedCandidates cfg\<rparr>"

definition assert_m :: "bool \<Rightarrow> ('w, unit) staking_m" where
  "assert_m b = (if b then return_m () else panic_m)"

definition genesis_candidate ::
  "'w config \<Rightarrow> nat \<Rightarrow> AccountId \<times> Balance \<Rightarrow> ('w, nat) staking_m" where
  "genesis_candidate cfg candidate_count entry =
     (case entry of (candidate, balance) \<Rightarrow>
      bind_m (gets_m (get_collator_stakable_free_balance cfg candidate)) (\<lambda>stakable.
      then_m (assert_m (stakable \<ge> balance))
     (bind_m (attempt_m (join_candidates cfg (Signed candidate) balance candidate_count)) (\<lambda>r.
      case r of Inl _ \<Rightarrow> return_m candidate_count
      | Inr _ \<Rightarrow> return_m (sat_add_u32 candidate_count 1)))))"

text \<open>The three counters of the loop, by collator, by collator again and by delegator.\<close>

type_synonym counters =
  "(AccountId \<rightharpoonup> nat) \<times> (AccountId \<rightharpoonup> nat) \<times> (AccountId \<rightharpoonup> nat)"

definition counter :: "(AccountId \<rightharpoonup> nat) \<Rightarrow> AccountId \<Rightarrow> nat" where
  "counter m k = (case m k of Some x \<Rightarrow> x | None \<Rightarrow> 0)"

definition count_up :: "(AccountId \<rightharpoonup> nat) \<Rightarrow> AccountId \<Rightarrow> (AccountId \<rightharpoonup> nat)" where
  "count_up m k = m(k \<mapsto> (case m k of Some x \<Rightarrow> sat_add_u32 x 1 | None \<Rightarrow> 1))"

definition genesis_delegation ::
  "'w config \<Rightarrow> counters \<Rightarrow> AccountId \<times> AccountId \<times> Balance \<times> Percent \<Rightarrow> ('w, counters) staking_m"
  where
  "genesis_delegation cfg counts entry =
     (case counts of (col_delegator_count, col_auto_compound_delegator_count, del_delegation_count) \<Rightarrow>
      case entry of (delegator, target, balance, auto_compound') \<Rightarrow>
      bind_m (gets_m (get_delegator_stakable_balance cfg delegator)) (\<lambda>stakable.
      then_m (assert_m (stakable \<ge> balance))
     (bind_m (attempt_m (delegate_with_auto_compound cfg (Signed delegator) target balance
          auto_compound' (counter col_delegator_count target)
          (counter col_auto_compound_delegator_count target)
          (counter del_delegation_count delegator))) (\<lambda>r.
      case r of
        Inl _ \<Rightarrow> return_m counts
      | Inr _ \<Rightarrow> return_m
          (count_up col_delegator_count target,
           (if auto_compound' \<noteq> 0 then count_up col_auto_compound_delegator_count target
            else col_auto_compound_delegator_count),
           count_up del_delegation_count delegator)))))"

definition genesis_build :: "'w config \<Rightarrow> GenesisConfig \<Rightarrow> ('w, unit) staking_m" where
  "genesis_build cfg self =
     then_m (assert_m (g_blocks_per_round self > 0))
     (then_m (put_inflation_config (g_inflation_config self))
     (bind_m (fold_m (genesis_candidate cfg) 0 (g_candidates self)) (\<lambda>_.
     bind_m (fold_m (genesis_delegation cfg) (Map.empty, Map.empty, Map.empty) (g_delegations self)) (\<lambda>_.
     then_m (modify_m (\<lambda>s. s\<lparr>CollatorCommission := g_collator_commission self\<rparr>))
     (let pbr = \<lparr>ida_account = zero_account, ida_percent = g_parachain_bond_reserve_percent self\<rparr>;
          zeroed_account = \<lparr>ida_account = zero_account, ida_percent = 0\<rparr>
      in then_m (modify_m (\<lambda>s. s\<lparr>InflationDistributionInfo :=
                   InflationDistributionConfig pbr zeroed_account\<rparr>))
     (then_m (assert_m (g_num_selected_candidates self \<ge> MinSelectedCandidates cfg))
     (then_m (assert_m (g_num_selected_candidates self \<le> MaxCandidates cfg))
     (then_m (modify_m (\<lambda>s. s\<lparr>TotalSelected := g_num_selected_candidates self\<rparr>))
     (bind_m (select_top_candidates cfg 1) (\<lambda>(v_count, _, total_staked).
     then_m (modify_m (\<lambda>s. s\<lparr>Round := round_new 1 0 (g_blocks_per_round self) 0\<rparr>))
       (deposit_event (NewRound 0 1 v_count total_staked))))))))))))"

end
