(* ===== verification/Sample.thy ===== *)
theory Sample
  imports Calls
begin

text \<open>
  A small configuration and storage at which the properties are instantiated: two top and two
  bottom delegations per candidate, per-thing products rounded down, and a ledger that records
  the balances minted to each account.
\<close>

type_synonym ledger = "(AccountId \<times> Balance) list"

definition sample_cfg :: "ledger config" where
  "sample_cfg =
     \<lparr>MinBlocksPerRound = 10, MaxOfflineRounds = 2, LeaveCandidatesDelay = 4,
      CandidateBondLessDelay = 4, LeaveDelegatorsDelay = 4, RevokeDelegationDelay = 4,
      DelegationBondLessDelay = 4, RewardPaymentDelay = 2, MinSelectedCandidates = 1,
      MaxTopDelegationsPerCandidate = 2, MaxBottomDelegationsPerCandidate = 2,
      MaxDelegationsPerDelegator = 3, MinCandidateStk = 10, MinDelegation = 5,
      SlotDuration = 6000, BlockTime = 6000, MaxCandidates = 3, LinearInflationThreshold = None,
      free_balance = \<lambda>w a. 1000, reserved_balance = \<lambda>w a. 0, total_issuance = \<lambda>w. 100000,
      set_lock = \<lambda>l a b w. w, remove_lock = \<lambda>l a w. w,
      deposit_into_existing = \<lambda>a b w. Some (b, (a, b) # w),
      perbill_from_rational = \<lambda>p q. if q = 0 then 1000000000 else min 1000000000 (p * 1000000000 div q),
      perbill_mul = \<lambda>p x. p * x div 1000000000,
      percent_mul = \<lambda>p x. p * x div 100, percent_mul_ceil = \<lambda>p x. (p * x + 99) div 100,
      annual_to_round_rate = \<lambda>a n. a div n,
      is_monetary_governance = \<lambda>o'. o' = Root, block_author = \<lambda>w. 1, current_slot = \<lambda>w. 100,
      key_order = \<lambda>k. k,
      payout_collator_reward = \<lambda>r c a. return_m (), on_collator_payout = \<lambda>r c a. return_m (),
      on_inactive_collator = \<lambda>c r. return_m (), on_new_round = \<lambda>r. return_m ()\<rparr>"

lemma sample_cfg_simps [simp]:
  "MaxOfflineRounds sample_cfg = 2" "LeaveCandidatesDelay sample_cfg = 4"
  "CandidateBondLessDelay sample_cfg = 4" "RevokeDelegationDelay sample_cfg = 4"
  "DelegationBondLessDelay sample_cfg = 4" "RewardPaymentDelay sample_cfg = 2"
  "MaxTopDelegationsPerCandidate sample_cfg = 2" "MaxBottomDelegationsPerCandidate sample_cfg = 2"
  "MaxDelegationsPerDelegator sample_cfg = 3" "MinCandidateStk sample_cfg = 10"
  "MinDelegation sample_cfg = 5" "MaxCandidates sample_cfg = 3"
  "free_balance sample_cfg w a = 1000" "reserved_balance sample_cfg w a = 0"
  "set_lock sample_cfg l a b w = w" "remove_lock sample_cfg l a w = w"
  "deposit_into_existing sample_cfg a b w = Some (b, (a, b) # w)"
  "perbill_mul sample_cfg p x = p * x div 1000000000" "key_order sample_cfg k = k"
  "payout_collator_reward sample_cfg r a b = return_m ()"
  "on_collator_payout sample_cfg r a b = return_m ()"
  by (simp_all add: sample_cfg_def)

definition sample_storage :: "ledger staking" where
  "sample_storage =
     \<lparr>CollatorCommission = 0, TotalSelected = 2,
      InflationDistributionInfo = inflation_distribution_config_default,
      Round = round_new 5 100 20 50, DelegatorState = Map.empty, CandidateInfo = Map.empty,
      DelegationScheduledRequests = \<lambda>_. [], AutoCompoundingDelegations = \<lambda>_. [],
      TopDelegations = Map.empty, BottomDelegations = Map.empty, SelectedCandidates = [],
      Total = 0, CandidatePool = [], AtStake = \<lambda>_. [], WasInactive = \<lambda>_. [],
      DelayedPayouts = Map.empty, InflationConfig = inflation_info_default, Points = \<lambda>_. 0,
      AwardedPts = \<lambda>_ _. 0, EnableMarkingOffline = True, Events = [], world = []\<rparr>"

text \<open>Candidate 1 with a full top (50 of 11, 40 of 12) and one bottom delegation (30 of 13).\<close>

definition bond_of :: "AccountId \<Rightarrow> Balance \<Rightarrow> Bond" where
  "bond_of o' a = \<lparr>b_owner = o', b_amount = a\<rparr>"

definition sample_top :: Delegations where
  "sample_top = \<lparr>ds_delegations = [bond_of 11 50, bond_of 12 40], ds_total = 90\<rparr>"

definition sample_bottom :: Delegations where
  "sample_bottom = \<lparr>ds_delegations = [bond_of 13 30], ds_total = 30\<rparr>"

definition sample_meta :: CandidateMetadata where
  "sample_meta =
     \<lparr>cm_bond = 100, cm_delegation_count = 3, cm_total_counted = 190,
      cm_lowest_top_delegation_amount = 40, cm_highest_bottom_delegation_amount = 30,
      cm_lowest_bottom_delegation_amount = 30, cm_top_capacity = Full,
      cm_bottom_capacity = Partial, cm_request = None, cm_status = Active\<rparr>"

definition sample_delegator :: "AccountId \<Rightarrow> Balance \<Rightarrow> Delegator" where
  "sample_delegator d a =
     \<lparr>d_id = d, d_delegations = [bond_of 1 a], d_total = a, d_less_total = 0,
      d_status = DelegatorActive\<rparr>"

definition sample_state :: "ledger staking" where
  "sample_state = sample_storage\<lparr>
     CandidateInfo := [1 \<mapsto> sample_meta], TopDelegations := [1 \<mapsto> sample_top],
     BottomDelegations := [1 \<mapsto> sample_bottom],
     DelegatorState := [11 \<mapsto> sample_delegator 11 50, 12 \<mapsto> sample_delegator 12 40,
       13 \<mapsto> sample_delegator 13 30],
     CandidatePool := [bond_of 1 190], Total := 220\<rparr>"

abbreviation sample_book :: "Bond multiset" where
  "sample_book \<equiv> {#bond_of 11 50, bond_of 12 40, bond_of 13 30#}"

lemmas sample_defs =
  sample_storage_def sample_top_def sample_bottom_def sample_meta_def sample_delegator_def
  sample_state_def bond_of_def

end
