(* ===== verification/Candidate_Properties.thy ===== *)
theory Candidate_Properties
  imports Candidate_Entry Sample
begin

text \<open>
  What the delegation methods of \<open>CandidateMetadata\<close> guarantee, each stated on the result of
  the method, and instantiated at the sample candidate.
\<close>

section \<open>The counted stake\<close>

text \<open>The specification: the sum of the \<open>n\<close> largest amounts of a book.\<close>

definition largest :: "nat \<Rightarrow> Bond multiset \<Rightarrow> Balance" where
  "largest n M = sum_list (take n (rev (sorted_list_of_multiset (image_mset b_amount M))))"

lemma descending_amounts_sorted: "descending ds \<Longrightarrow> sorted (rev (map b_amount ds))"
proof (induction ds)
  case (Cons x ds)
  then show ?case by (auto simp: sorted_append)
qed simp

lemma largest_of_descending:
  assumes "descending ds"
  shows "largest n (mset ds) = amounts (take n ds)"
proof -
  have "sort (rev (map b_amount ds)) = rev (map b_amount ds)"
    using descending_amounts_sorted [OF assms] by (rule sorted_sort_id)
  moreover have "sort (rev (map b_amount ds)) = sort (map b_amount ds)"
    by (rule properties_for_sort) simp_all
  moreover have "sorted_list_of_multiset (image_mset b_amount (mset ds)) = sort (map b_amount ds)"
    by (simp flip: mset_map)
  ultimately show ?thesis by (simp add: largest_def take_map)
qed

lemma held_counted:
  assumes "held cfg c e hi lo m s"
  shows "cm_total_counted m = cm_bond m + largest (MaxTopDelegationsPerCandidate cfg) (mset hi + mset lo)"
proof -
  note p = ranked_parts [OF held_ranked(1) [OF assms]]
  have "descending (hi @ lo)" using held_ranked(1) [OF assms] by (simp add: ranked_def)
  from largest_of_descending [OF this, of "MaxTopDelegationsPerCandidate cfg"]
  have "largest (MaxTopDelegationsPerCandidate cfg) (mset hi + mset lo) = amounts hi"
    using p(8,10) by (cases "lo = []") simp_all
  then show ?thesis by (simp add: held_cached [OF assms])
qed

lemma sample_stands: "stands sample_cfg 1 0 sample_book sample_meta sample_state"
  unfolding stands_def
  by (intro exI [of _ sample_top] exI [of _ sample_bottom])
    (simp add: sample_defs candidate_ok_def ranked_def pool_at_def pool_ok_def is_active_def
      pool_lookup_def top_capacity_def bottom_capacity_def as_u32_def u128_max_def
      lowest_delegation_amount_def highest_delegation_amount_def)

lemma sample_params: "params_ok sample_cfg"
  by (simp add: params_ok_def u32_max_def)

lemma sample_backed: "\<forall>k. k \<in># sample_book \<longrightarrow> backed 1 k sample_state"
  by (auto simp: backed_def sample_defs delegator_ok_def requests_ok_def)

section \<open>The methods\<close>

text \<open>C14: a new delegation enters the book exactly once. While the book has room nobody leaves
  it; when it is full a delegation of the least amount makes place, its delegator is kicked out,
  and a new delegation that is not larger than the least is refused with the storage unchanged.
  The method never panics and keeps the candidate's invariant.\<close>

theorem add_delegation_correct:
  assumes "stands cfg c e M m s" and "params_ok cfg" and "b_owner d \<notin> b_owner ` set_mset M"
    and "cm_bond m + sum_mset (image_mset b_amount M) + e + b_amount d \<le> u128_max"
    and "\<forall>k. k \<in># M \<longrightarrow> backed c k s"
  shows "(\<exists>m' pos less' s'. add_delegation cfg c d m s = (Ok (m', pos, less'), s')
      \<and> entered cfg c e M d m s m' less' s' \<and> position_reported m m' pos)
    \<or> (add_delegation cfg c d m s =
        (Err (Module CannotDelegateLessThanOrEqualToLowestBottomWhenFull), s)
      \<and> size M = book_capacity cfg \<and> (\<forall>y. y \<in># M \<longrightarrow> b_amount d \<le> b_amount y))"
  using add_delegation_enters [OF assms] unfolding wp_iff by fastforce

theorem add_delegation_witness:
  "\<exists>m' pos s'. add_delegation sample_cfg 1 (bond_of 14 35) sample_meta sample_state
     = (Ok (m', pos, None), s')
   \<and> stands sample_cfg 1 0 (add_mset (bond_of 14 35) sample_book) m' s'"
proof -
  have "b_owner (bond_of 14 35) \<notin> b_owner ` set_mset sample_book"
    and "cm_bond sample_meta + sum_mset (image_mset b_amount sample_book) + 0
      + b_amount (bond_of 14 35) \<le> u128_max"
    by (simp_all add: sample_meta_def bond_of_def u128_max_def)
  from add_delegation_correct [OF sample_stands sample_params this sample_backed]
  show ?thesis by (auto simp: entered_def book_capacity_def reached_def split: option.splits)
qed

text \<open>C16: removing a delegation takes exactly its bond out of the book, whichever of the two
  lists it is in, promotes the highest bottom delegation when a place in the top is free, keeps
  the invariant and never panics or fails.\<close>

theorem rm_delegation_correct:
  assumes "stands cfg c e M m s" and "params_ok cfg" and "x \<in># M"
  shows "\<exists>m' flag s'. rm_delegation_if_exists cfg c (b_owner x) (b_amount x) m s = (Ok (m', flag), s')
    \<and> reached cfg c e (M - {#x#}) m s m' s'"
  using wp_total [OF rm_delegation_removes [OF assms]] by (auto simp: reached_def)

theorem rm_delegation_witness:
  "\<exists>m' flag s'. rm_delegation_if_exists sample_cfg 1 11 50 sample_meta sample_state = (Ok (m', flag), s')
    \<and> cm_total_counted m' = 170"
proof -
  have "bond_of 11 50 \<in># sample_book" by simp
  from rm_delegation_correct [OF sample_stands sample_params this]
  obtain m' flag s' where run: "rm_delegation_if_exists sample_cfg 1 11 50 sample_meta sample_state
      = (Ok (m', flag), s')"
    and reached: "reached sample_cfg 1 0 (sample_book - {#bond_of 11 50#}) sample_meta sample_state m' s'"
    by (auto simp: bond_of_def)
  have st: "stands sample_cfg 1 0 {#bond_of 12 40, bond_of 13 30#} m' s'" and "cm_bond m' = 100"
    using reached by (auto simp: reached_def same_identity_def sample_meta_def)
  moreover obtain hi lo where h: "held sample_cfg 1 0 hi lo m' s'"
      "{#bond_of 12 40, bond_of 13 30#} = mset hi + mset lo"
    using st by (auto simp: stands_held)
  from held_counted [OF h(1)] have "cm_total_counted m' = 170"
    using \<open>cm_bond m' = 100\<close> by (simp add: largest_def bond_of_def flip: h(2))
  with run show ?thesis by blast
qed

text \<open>Increasing a delegation changes the amount of exactly that bond by exactly the
  increment, and moves it to the top when it outgrows the lowest top delegation.\<close>

theorem increase_delegation_correct:
  assumes "stands cfg c e M m s" and "params_ok cfg" and "x \<in># M"
    and "cm_bond m + sum_mset (image_mset b_amount M) + e + more' \<le> u128_max"
  shows "\<exists>m' in_top s'. increase_delegation cfg c (b_owner x) (b_amount x) more' m s
      = (Ok (m', in_top), s')
    \<and> reached cfg c e (rebonded M x (b_amount x + more')) m s m' s'"
  using wp_total [OF increase_delegation_rebonds [OF assms]] by auto

theorem increase_delegation_witness:
  "\<exists>m' in_top s'. increase_delegation sample_cfg 1 13 30 15 sample_meta sample_state
      = (Ok (m', in_top), s')
    \<and> stands sample_cfg 1 0 {#bond_of 13 45, bond_of 11 50, bond_of 12 40#} m' s'"
proof -
  have "bond_of 13 30 \<in># sample_book"
    and "cm_bond sample_meta + sum_mset (image_mset b_amount sample_book) + 0 + 15 \<le> u128_max"
    by (simp_all add: sample_meta_def bond_of_def u128_max_def)
  from increase_delegation_correct [OF sample_stands sample_params this]
  show ?thesis by (auto simp: reached_def bond_of_def)
qed

text \<open>C15: decreasing a delegation changes the amount of exactly that bond by exactly the
  decrement and keeps the invariant, but for a delegation in the bottom the stored bottom total
  is left as it was: it then exceeds the bottom amounts by the decrement more than before.\<close>

theorem decrease_delegation_correct:
  assumes "stands cfg c e M m s" and "params_ok cfg" and "x \<in># M" and "less' \<le> b_amount x"
  shows "\<exists>m' in_top s'. decrease_delegation cfg c (b_owner x) (b_amount x) less' m s
      = (Ok (m', in_top), s')
    \<and> reached cfg c (if in_bottom c x s then e + less' else e)
        (rebonded M x (b_amount x - less')) m s m' s'"
  using wp_total [OF decrease_delegation_rebonds [OF assms]] by auto

theorem decrease_delegation_witness:
  "\<exists>m' in_top s'. decrease_delegation sample_cfg 1 13 30 10 sample_meta sample_state
      = (Ok (m', in_top), s')
    \<and> stands sample_cfg 1 10 {#bond_of 13 20, bond_of 11 50, bond_of 12 40#} m' s'"
proof -
  have "bond_of 13 30 \<in># sample_book" and "(10::nat) \<le> b_amount (bond_of 13 30)"
    by (simp_all add: bond_of_def)
  moreover have "in_bottom 1 (bond_of 13 30) sample_state" by (simp add: in_bottom_def sample_defs)
  ultimately show ?thesis
    using decrease_delegation_correct [OF sample_stands sample_params, of "bond_of 13 30" 10]
    by (auto simp: reached_def bond_of_def)
qed

end
