(* ===== verification/Store_Properties.thy ===== *)
theory Store_Properties
  imports Candidate_Entry Sample
begin

text \<open>
  What the ordered containers guarantee to their clients: the sorted delegation lists, the
  ordered sets, the candidate pool and the auto-compounding configurations. The map laws come
  from the interpretations of \<open>keyed_store\<close>.
\<close>

section \<open>Sorted delegations\<close>

text \<open>inserting a delegation, by binary search and a walk past the equal amounts, is the
  stable insertion behind every delegation of at least its amount: among equal amounts the
  first to come stays first, the order is kept and the total grows by the amount.\<close>

theorem insertion_is_stable:
  assumes "descending (ds_delegations self)"
  shows "ds_delegations (insert_sorted_greatest_to_least d self) =
      takeWhile (\<lambda>x. b_amount d \<le> b_amount x) (ds_delegations self)
        @ d # dropWhile (\<lambda>x. b_amount d \<le> b_amount x) (ds_delegations self)
    \<and> descending (ds_delegations (insert_sorted_greatest_to_least d self))
    \<and> ds_total (insert_sorted_greatest_to_least d self)
        = min (ds_total self + b_amount d) u128_max"
  using descending_stable_insert [OF assms, of d]
  by (simp add: insert_sorted_eq [OF assms] sat_add_u128_def) (simp only: stable_insert_def)

theorem insertion_is_stable_witness:
  "ds_delegations (insert_sorted_greatest_to_least (bond_of 9 40)
      \<lparr>ds_delegations = [bond_of 1 50, bond_of 2 40, bond_of 3 40, bond_of 4 10], ds_total = 140\<rparr>)
    = [bond_of 1 50, bond_of 2 40, bond_of 3 40, bond_of 9 40, bond_of 4 10]"
proof -
  let ?ds = "[bond_of 1 50, bond_of 2 40, bond_of 3 40, bond_of 4 10]"
  have "descending (ds_delegations \<lparr>ds_delegations = ?ds, ds_total = 140\<rparr>)"
    by (simp add: bond_of_def)
  from insertion_is_stable [OF this, of "bond_of 9 40", THEN conjunct1] show ?thesis
    by (simp only: Delegations.simps) (simp add: bond_of_def)
qed

section \<open>Ordered sets\<close>

text \<open>an ordered set is a finite map from keys to elements: membership, insertion (which
  reports whether the key was new and never replaces) and removal (which reports whether the
  key was there) act on that map, and the vector stays strictly sorted.\<close>

theorem ordered_set_is_map:
  assumes "key_sorted key xs"
  shows "ordered_set_contains key k xs = (by_key key xs k \<noteq> None)
    \<and> fst (ordered_set_insert key v xs) = (by_key key xs (key v) = None)
    \<and> by_key key (snd (ordered_set_insert key v xs)) =
        (if by_key key xs (key v) = None then (by_key key xs)(key v \<mapsto> v) else by_key key xs)
    \<and> key_sorted key (snd (ordered_set_insert key v xs))
    \<and> fst (ordered_set_remove key k xs) = (by_key key xs k \<noteq> None)
    \<and> by_key key (snd (ordered_set_remove key k xs)) = (by_key key xs)(k := None)
    \<and> key_sorted key (snd (ordered_set_remove key k xs))"
proof (cases "key v \<in> key ` set xs")
  case True
  then show ?thesis using assms
    by (simp add: set_contains_iff set_insert_present by_key_remove key_sorted_remove
        set_remove_filter [OF assms, of k] key_sorted_filter by_key_None_iff)
      (simp add: set_remove_filter [OF assms] flip: by_key_remove [OF assms])
next
  case False
  then show ?thesis using assms
    by (simp add: set_contains_iff by_key_insert_fresh key_sorted_insert set_insert_result(1)
        by_key_remove key_sorted_remove by_key_None_iff)
      (simp add: set_remove_filter)
qed

theorem ordered_set_is_map_witness:
  "fst (ordered_set_insert b_owner (bond_of 3 7) [bond_of 1 5, bond_of 4 6])
    \<and> snd (ordered_set_remove b_owner 4 [bond_of 1 5, bond_of 4 6]) = [bond_of 1 5]"
proof -
  have "key_sorted b_owner [bond_of 1 5, bond_of 4 6]" by (simp add: bond_of_def)
  from ordered_set_is_map [OF this, of 4 "bond_of 3 7"] set_remove_filter [OF this, of 4]
  show ?thesis by (simp add: bond_of_def)
qed

section \<open>The candidate pool\<close>

lemma pool_lookup_None: "pool_lookup pool c = None \<longleftrightarrow> c \<notin> owners pool"
  by (simp add: pool_lookup_def by_key_None_iff)

text \<open>Refreshing the stake of a candidate that is in the pool always succeeds and changes
  its entry only, so that the \<open>expect\<close> in \<open>update_active\<close> cannot panic; for an account outside
  a full pool it would.\<close>

theorem update_active_correct:
  assumes "pool_ok cfg (CandidatePool s)"
  shows "if pool_lookup (CandidatePool s) c = None \<and> length (CandidatePool s) = MaxCandidates cfg
    then fst (update_active cfg c v s) = Panic
    else \<exists>pool. update_active cfg c v s = (Ok (), s\<lparr>CandidatePool := pool\<rparr>)
      \<and> pool_ok cfg pool \<and> pool_lookup pool = (pool_lookup (CandidatePool s))(c \<mapsto> v)"
proof (cases "pool_put cfg c v (CandidatePool s)")
  case None
  have ks: "key_sorted b_owner (CandidatePool s)" using assms by (simp add: pool_ok_def)
  have out: "c \<notin> owners (CandidatePool s)"
    using None candidate_pool.upd_present [OF assms, of c v] by (auto simp: pool_lookup_None)
  then have "length (CandidatePool s) = MaxCandidates cfg"
    using None assms by (auto simp: pool_put_eq [OF ks] pool_ok_def split: if_splits)
  moreover have "pool_lookup (CandidatePool s) c = None" using out by (simp add: pool_lookup_None)
  ultimately show ?thesis using None
    by (simp add: update_active_def bind_m_def gets_m_def expect_m_def panic_m_def)
next
  case (Some pool)
  have ks: "key_sorted b_owner (CandidatePool s)" using assms by (simp add: pool_ok_def)
  have "\<not> (c \<notin> owners (CandidatePool s) \<and> length (CandidatePool s) = MaxCandidates cfg)"
    using Some by (auto simp: pool_put_eq [OF ks] split: if_splits)
  moreover have "update_active cfg c v s = (Ok (), s\<lparr>CandidatePool := pool\<rparr>)"
    using Some by (simp add: update_active_def prog_defs)
  ultimately show ?thesis
    using candidate_pool.lookup_upd [OF assms Some] candidate_pool.inv_upd [OF assms Some]
    by (auto simp: pool_lookup_None)
qed

theorem update_active_witness:
  "\<exists>pool. update_active sample_cfg 1 200 sample_state = (Ok (), sample_state\<lparr>CandidatePool := pool\<rparr>)
    \<and> pool_lookup pool 1 = Some 200"
proof -
  have "pool_ok sample_cfg (CandidatePool sample_state)" by (simp add: pool_ok_def sample_defs)
  moreover have "pool_lookup (CandidatePool sample_state) 1 \<noteq> None"
    by (simp add: pool_lookup_None sample_defs)
  ultimately show ?thesis using update_active_correct [of sample_cfg sample_state 1 200]
    by (metis fun_upd_same)
qed

section \<open>Auto-compounding configurations\<close>

text \<open>The auto-compounding configurations of a candidate are a finite map from delegators to
  percentages: setting one delegator's value changes that value only (and fails only for a new
  delegator of a full vector), removing it leaves the others, and the vector stays sorted.\<close>

theorem auto_compounding_is_map:
  assumes "key_sorted ac_delegator xs"
  shows "(case set_for_delegator cfg d v xs of
      Inr (_, ys) \<Rightarrow> key_sorted ac_delegator ys
        \<and> (\<lambda>e. get_for_delegator e ys) = (\<lambda>e. get_for_delegator e xs)(d \<mapsto> v)
    | Inl er \<Rightarrow> er = ExceedMaxDelegationsPerDelegator \<and> get_for_delegator d xs = None
        \<and> add_get cfg \<le> length xs)
    \<and> fst (remove_for_delegator d xs) = (get_for_delegator d xs \<noteq> None)
    \<and> (\<lambda>e. get_for_delegator e (snd (remove_for_delegator d xs))) = (\<lambda>e. get_for_delegator e xs)(d := None)"
proof (intro conjI)
  show "fst (remove_for_delegator d xs) = (get_for_delegator d xs \<noteq> None)"
    by (simp add: remove_for_delegator_eq [OF assms] get_for_delegator_eq [OF assms] by_key_None_iff)
  show "(\<lambda>e. get_for_delegator e (snd (remove_for_delegator d xs)))
      = (\<lambda>e. get_for_delegator e xs)(d := None)"
    by (rule auto_compounding.lookup_del [OF assms])
  show "case set_for_delegator cfg d v xs of
      Inr (_, ys) \<Rightarrow> key_sorted ac_delegator ys
        \<and> (\<lambda>e. get_for_delegator e ys) = (\<lambda>e. get_for_delegator e xs)(d \<mapsto> v)
    | Inl er \<Rightarrow> er = ExceedMaxDelegationsPerDelegator \<and> get_for_delegator d xs = None
        \<and> add_get cfg \<le> length xs"
  proof (cases "set_for_delegator cfg d v xs")
    case (Inl er)
    then have none: "auto_compound_put cfg d v xs = None" by (simp add: auto_compound_put_def)
    have "get_for_delegator d xs = None"
      using auto_compounding.upd_present [OF assms, of d cfg v] none
      by (cases "get_for_delegator d xs") auto
    moreover have "er = ExceedMaxDelegationsPerDelegator \<and> add_get cfg \<le> length xs"
      using Inl by (auto simp: set_for_delegator_def split: sum.splits if_splits)
    ultimately show ?thesis using Inl by simp
  next
    case (Inr r)
    then have "auto_compound_put cfg d v xs = Some (snd r)"
      by (simp add: auto_compound_put_def split: prod.split)
    from auto_compounding.lookup_upd [OF assms this] auto_compounding.inv_upd [OF assms this] Inr
    show ?thesis by (cases r) auto
  qed
qed

theorem auto_compounding_witness:
  "get_for_delegator 4 (snd (remove_for_delegator 2
      [\<lparr>ac_delegator = 2, ac_value = 50\<rparr>, \<lparr>ac_delegator = 4, ac_value = 30\<rparr>])) = Some 30"
proof -
  let ?xs = "[\<lparr>ac_delegator = 2, ac_value = 50\<rparr>, \<lparr>ac_delegator = 4, ac_value = 30\<rparr>]"
  have ks: "key_sorted ac_delegator ?xs" by simp
  have "(\<lambda>e. get_for_delegator e (snd (remove_for_delegator 2 ?xs)))
      = (\<lambda>e. get_for_delegator e ?xs)(2 := None)"
    using auto_compounding_is_map [OF ks, where cfg = sample_cfg and d = 2 and v = 1] by blast
  from fun_cong [OF this, of 4] show ?thesis by (simp add: get_for_delegator_eq)
qed

end
