(* ===== verification/Request_Properties.thy ===== *)
theory Request_Properties
  imports Candidate_Entry Sample
begin

text \<open>
  The life of a delegator's scheduled request: it is accepted at most once per candidate and
  only within the delegator's means, cancelling it undoes it, and it cannot be executed before
  its round.
\<close>

section \<open>Scheduling and cancelling\<close>

lemma no_request:
  "\<not> list_ex (\<lambda>req. sr_delegator req = d) rs \<longleftrightarrow> request_of d rs = None"
  by (auto simp: request_of_None_iff list_ex_iff)

lemma requests_ok_snoc:
  "requests_ok (rs @ [req]) \<longleftrightarrow> requests_ok rs \<and> request_of (sr_delegator req) rs = None"
  by (auto simp: requests_ok_def request_of_None_iff)

lemma request_of_snoc:
  "request_of d rs = None \<Longrightarrow> sr_delegator req = d \<Longrightarrow> request_of d (rs @ [req]) = Some req"
  by (induction rs) (auto simp: request_of_def split: if_splits)

lemma filter_no_request:
  "request_of d rs = None \<Longrightarrow> filter (\<lambda>req. sr_delegator req \<noteq> d) rs = rs"
  by (auto simp: request_of_None_iff filter_id_conv)

text \<open>The storage with one more request of the delegator \<open>d\<close> towards \<open>c\<close>.\<close>

definition scheduled ::
  "AccountId \<Rightarrow> AccountId \<Rightarrow> Delegator \<Rightarrow> ScheduledRequest \<Rightarrow> event \<Rightarrow> 'w staking \<Rightarrow> 'w staking" where
  "scheduled c d st req ev s = s\<lparr>
     DelegationScheduledRequests := (DelegationScheduledRequests s)
       (c := DelegationScheduledRequests s c @ [req]),
     DelegatorState := (DelegatorState s)
       (d \<mapsto> st\<lparr>d_less_total := sat_add_u128 (d_less_total st) (action_amount (sr_action req))\<rparr>),
     Events := Events s @ [ev]\<rparr>"

lemma cancel_scheduled:
  assumes "DelegatorState s d = Some st" and "requests_ok (DelegationScheduledRequests s c)"
    and "request_of d (DelegationScheduledRequests s c) = None" and "sr_delegator req = d"
    and "d_less_total st + action_amount (sr_action req) \<le> u128_max"
  shows "delegation_cancel_request c d (scheduled c d st req ev s) =
    (Ok (), s\<lparr>Events := Events s @ [ev, CancelledDelegationRequest d (cancelled_from req) c]\<rparr>)"
proof -
  let ?rs = "DelegationScheduledRequests s c"
  let ?s = "scheduled c d st req ev s"
  let ?st = "st\<lparr>d_less_total := sat_add_u128 (d_less_total st) (action_amount (sr_action req))\<rparr>"
  have ok: "requests_ok (?rs @ [req])" using assms(2-4) by (simp add: requests_ok_snoc)
  have run: "cancel_request_with_state d ?st (?rs @ [req]) = Some (req, st, ?rs)"
    using assms(3-5) by (simp add: cancel_request_eq [OF ok] request_of_snoc filter_no_request
        sat_add_u128_exact)
  have "wp (delegation_cancel_request c d) (\<lambda>_ t. t = s\<lparr>Events := Events s @
      [ev, CancelledDelegationRequest d (cancelled_from req) c]\<rparr>) (\<lambda>_ _. False) ?s"
    using run assms(1)
    by (simp add: delegation_cancel_request_def wp_simps scheduled_def)
      (rule staking.equality; simp add: fun_upd_idem assms(1))
  from wp_total [OF this] show ?thesis by auto
qed

lemma wp_schedule_revoke:
  assumes "DelegatorState s d = Some st"
  shows "wp (delegation_schedule_revoke cfg c d) Q E s =
    (if request_of d (DelegationScheduledRequests s c) \<noteq> None
     then E (Module PendingDelegationRequestAlreadyExists) s
     else case get_bond_amount c st of
       None \<Rightarrow> E (Module DelegationDNE) s
     | Some a \<Rightarrow>
         if add_get cfg \<le> length (DelegationScheduledRequests s c)
         then E (Module ExceedMaxDelegationsPerDelegator) s
         else let now = r_current (Round s); when' = sat_add_u32 now (RevokeDelegationDelay cfg)
           in Q () (scheduled c d st
             \<lparr>sr_delegator = d, sr_when_executable = when', sr_action = Revoke a\<rparr>
             (DelegationRevocationScheduled now d c when') s))"
  using assms
  by (auto simp: delegation_schedule_revoke_def wp_simps no_request try_push_def Let_def
      scheduled_def split: option.split)

text \<open>The conditions under which a decrease of \<open>a\<close> is accepted.\<close>

definition decrease_allowed :: "'p params_scheme \<Rightarrow> Delegator \<Rightarrow> Balance \<Rightarrow> Balance \<Rightarrow> bool" where
  "decrease_allowed cfg st bonded a \<longleftrightarrow>
     a < bonded \<and> MinDelegation cfg \<le> bonded - a
     \<and> a \<le> (d_total st - d_less_total st) - MinDelegation cfg"

lemma wp_schedule_decrease:
  assumes "DelegatorState s d = Some st" and "request_of d (DelegationScheduledRequests s c) = None"
    and "get_bond_amount c st = Some bonded" and "decrease_allowed cfg st bonded a"
    and "length (DelegationScheduledRequests s c) < add_get cfg"
  shows "wp (delegation_schedule_bond_decrease cfg c d a) Q E s =
    (let when' = sat_add_u32 (r_current (Round s)) (DelegationBondLessDelay cfg)
     in Q () (scheduled c d st
         \<lparr>sr_delegator = d, sr_when_executable = when', sr_action = Decrease a\<rparr>
         (DelegationDecreaseScheduled d c a when') s))"
proof -
  have "\<not> list_ex (\<lambda>req. sr_delegator req = d) (DelegationScheduledRequests s c)"
    using assms(2) by (simp add: no_request)
  with assms show ?thesis
    by (simp add: delegation_schedule_bond_decrease_def wp_simps try_push_def Let_def
        scheduled_def decrease_allowed_def)
qed

text \<open>Scheduling a revocation and cancelling it leaves the storage as it was, but for the
  two events.\<close>

theorem revoke_then_cancel:
  assumes "DelegatorState s d = Some st" and "get_bond_amount c st = Some a"
    and "requests_ok (DelegationScheduledRequests s c)"
    and "request_of d (DelegationScheduledRequests s c) = None"
    and "length (DelegationScheduledRequests s c) < add_get cfg"
    and "d_less_total st + a \<le> u128_max"
  shows "\<exists>s1 ev ev'. delegation_schedule_revoke cfg c d s = (Ok (), s1)
    \<and> request_of d (DelegationScheduledRequests s1 c) \<noteq> None
    \<and> delegation_cancel_request c d s1 = (Ok (), s\<lparr>Events := Events s @ [ev, ev']\<rparr>)"
proof -
  let ?now = "r_current (Round s)"
  let ?when = "sat_add_u32 ?now (RevokeDelegationDelay cfg)"
  let ?req = "\<lparr>sr_delegator = d, sr_when_executable = ?when, sr_action = Revoke a\<rparr>"
  let ?s = "scheduled c d st ?req (DelegationRevocationScheduled ?now d c ?when) s"
  have "wp (delegation_schedule_revoke cfg c d) (\<lambda>_ t. t = ?s) (\<lambda>_ _. False) s"
    using assms(2,4,5) by (simp add: wp_schedule_revoke [OF assms(1)] Let_def)
  from wp_total [OF this] have "delegation_schedule_revoke cfg c d s = (Ok (), ?s)" by auto
  moreover have "request_of d (DelegationScheduledRequests ?s c) \<noteq> None"
    using request_of_snoc [OF assms(4), of ?req] by (simp add: scheduled_def)
  moreover have "delegation_cancel_request c d ?s = (Ok (), s\<lparr>Events := Events s @
      [DelegationRevocationScheduled ?now d c ?when, CancelledDelegationRequest d (cancelled_from ?req) c]\<rparr>)"
    using assms(6) by (intro cancel_scheduled [OF assms(1,3,4)]) simp_all
  ultimately show ?thesis by blast
qed

lemma sample_delegator_13:
  "DelegatorState sample_state 13 = Some (sample_delegator 13 30)"
  "get_bond_amount 1 (sample_delegator 13 30) = Some 30"
  "requests_ok (DelegationScheduledRequests sample_state 1)"
  "request_of 13 (DelegationScheduledRequests sample_state 1) = None"
  "length (DelegationScheduledRequests sample_state 1) < add_get sample_cfg"
  by (simp_all add: sample_defs get_bond_amount_def requests_ok_def request_of_def add_get_def
      wrap_add_u32_def)

theorem revoke_then_cancel_witness:
  "\<exists>s1 ev ev'. delegation_schedule_revoke sample_cfg 1 13 sample_state = (Ok (), s1)
    \<and> delegation_cancel_request 1 13 s1 = (Ok (), sample_state\<lparr>Events := [ev, ev']\<rparr>)"
proof -
  have "d_less_total (sample_delegator 13 30) + 30 \<le> u128_max"
    by (simp add: sample_delegator_def u128_max_def)
  from revoke_then_cancel [OF sample_delegator_13 this] show ?thesis
    by (auto simp: sample_defs)
qed

text \<open>A decrease is accepted exactly when no request of the delegator towards the candidate
  is pending, the delegation exists, stays at or above the minimum afterwards, and the
  delegator's stake net of everything already scheduled stays at or above the minimum too; it
  is then recorded for the round after the delay and counted in what is scheduled to leave.
  Otherwise the storage is unchanged.\<close>

theorem schedule_decrease_correct:
  assumes "DelegatorState s d = Some st" and "d_less_total st + a \<le> u128_max"
    and "r_current (Round s) + DelegationBondLessDelay cfg \<le> u32_max"
  shows "(\<exists>bonded req ev. get_bond_amount c st = Some bonded
      \<and> request_of d (DelegationScheduledRequests s c) = None
      \<and> length (DelegationScheduledRequests s c) < add_get cfg
      \<and> a < bonded \<and> MinDelegation cfg \<le> bonded - a
      \<and> (a = 0 \<or> MinDelegation cfg + d_less_total st + a \<le> d_total st)
      \<and> req = \<lparr>sr_delegator = d, sr_when_executable = r_current (Round s) + DelegationBondLessDelay cfg,
               sr_action = Decrease a\<rparr>
      \<and> delegation_schedule_bond_decrease cfg c d a s =
          (Ok (), s\<lparr>DelegationScheduledRequests := (DelegationScheduledRequests s)
                     (c := DelegationScheduledRequests s c @ [req]),
                   DelegatorState := (DelegatorState s)
                     (d \<mapsto> st\<lparr>d_less_total := d_less_total st + a\<rparr>),
                   Events := Events s @ [ev]\<rparr>))
    \<or> (\<exists>e. delegation_schedule_bond_decrease cfg c d a s = (Err (Module e), s)
        \<and> e \<in> {PendingDelegationRequestAlreadyExists, DelegationDNE, DelegatorBondBelowMin,
               DelegationBelowMin, ExceedMaxDelegationsPerDelegator})"
proof (cases "\<exists>bonded. get_bond_amount c st = Some bonded \<and> decrease_allowed cfg st bonded a
    \<and> request_of d (DelegationScheduledRequests s c) = None
    \<and> length (DelegationScheduledRequests s c) < add_get cfg")
  case True
  then obtain bonded where b: "get_bond_amount c st = Some bonded" "decrease_allowed cfg st bonded a"
    "request_of d (DelegationScheduledRequests s c) = None"
    "length (DelegationScheduledRequests s c) < add_get cfg" by auto
  let ?when = "r_current (Round s) + DelegationBondLessDelay cfg"
  let ?req = "\<lparr>sr_delegator = d, sr_when_executable = ?when, sr_action = Decrease a\<rparr>"
  have "wp (delegation_schedule_bond_decrease cfg c d a)
      (\<lambda>_ t. t = scheduled c d st ?req (DelegationDecreaseScheduled d c a ?when) s) (\<lambda>_ _. False) s"
    using wp_schedule_decrease [OF assms(1) b(3,1,2,4)] assms(3) by (simp add: sat_add_u32_exact)
  from wp_total [OF this] have run: "delegation_schedule_bond_decrease cfg c d a s =
      (Ok (), scheduled c d st ?req (DelegationDecreaseScheduled d c a ?when) s)" by auto
  have "a = 0 \<or> MinDelegation cfg + d_less_total st + a \<le> d_total st"
    using b(2) unfolding decrease_allowed_def by linarith
  with run b assms(2) show ?thesis
    by (intro disjI1) (auto simp: scheduled_def decrease_allowed_def sat_add_u128_exact)
next
  case False
  have "wp (delegation_schedule_bond_decrease cfg c d a) (\<lambda>_ _. False)
      (\<lambda>e t. t = s \<and> (\<exists>e'. e = Module e' \<and> e' \<in> {PendingDelegationRequestAlreadyExists, DelegationDNE,
        DelegatorBondBelowMin, DelegationBelowMin, ExceedMaxDelegationsPerDelegator})) s"
    using False assms(1) unfolding decrease_allowed_def no_request [symmetric]
    by (auto simp: delegation_schedule_bond_decrease_def wp_simps try_push_def Let_def
        split: option.split)
  then show ?thesis by (auto simp: wp_iff)
qed

theorem schedule_decrease_witness:
  "\<exists>s1. delegation_schedule_bond_decrease sample_cfg 1 13 10 sample_state = (Ok (), s1)
    \<and> DelegatorState s1 13 = Some ((sample_delegator 13 30)\<lparr>d_less_total := 10\<rparr>)"
proof -
  have "d_less_total (sample_delegator 13 30) + 10 \<le> u128_max"
    and "r_current (Round sample_state) + DelegationBondLessDelay sample_cfg \<le> u32_max"
    by (simp_all add: sample_defs round_new_def u128_max_def u32_max_def)
  note correct = schedule_decrease_correct [OF sample_delegator_13(1) this, of 1]
  have "wp (delegation_schedule_bond_decrease sample_cfg 1 13 10) (\<lambda>_ _. True) (\<lambda>_ _. False) sample_state"
    using sample_delegator_13
    by (subst wp_schedule_decrease [where bonded = 30])
      (auto simp: decrease_allowed_def sample_delegator_def)
  then show ?thesis using correct by (auto simp: wp_iff sample_delegator_def)
qed

section \<open>Executing\<close>

text \<open>A request cannot be executed before its round: the call fails and changes nothing.\<close>

theorem execute_too_early:
  assumes "DelegatorState s d \<noteq> None" and "requests_ok (DelegationScheduledRequests s c)"
    and "request_of d (DelegationScheduledRequests s c) = Some req"
    and "r_current (Round s) < sr_when_executable req"
  shows "delegation_execute_scheduled_request cfg c d s =
    (Err (Module PendingDelegationRequestNotDueYet), s)"
proof -
  from assms(1) obtain st where st: "DelegatorState s d = Some st" by auto
  obtain i where i: "position (\<lambda>req. sr_delegator req = d) (DelegationScheduledRequests s c) = Some i"
    "DelegationScheduledRequests s c ! i = req"
    using position_request [OF assms(2), of d] assms(3) by (auto split: option.splits)
  have "wp (delegation_execute_scheduled_request cfg c d) (\<lambda>_ _. False)
      (\<lambda>e t. e = Module PendingDelegationRequestNotDueYet \<and> t = s) s"
    using st i assms(4) by (simp add: delegation_execute_scheduled_request_def wp_simps Let_def)
  then show ?thesis by (auto simp: wp_iff)
qed

definition sample_request :: ScheduledRequest where
  "sample_request = \<lparr>sr_delegator = 13, sr_when_executable = 9, sr_action = Revoke 30\<rparr>"

definition sample_pending :: "ledger staking" where
  "sample_pending = sample_state\<lparr>DelegationScheduledRequests := (\<lambda>_. [])(1 := [sample_request])\<rparr>"

theorem execute_too_early_witness:
  "delegation_execute_scheduled_request sample_cfg 1 13 sample_pending =
    (Err (Module PendingDelegationRequestNotDueYet), sample_pending)"
  by (rule execute_too_early [where req = sample_request])
    (simp_all add: sample_pending_def sample_request_def sample_defs requests_ok_def request_of_def
      round_new_def)

text \<open>A delegator never has two pending requests towards one candidate: a second request,
  of either kind, is refused while one is pending, and the storage is unchanged.\<close>

theorem one_request_at_a_time:
  assumes "DelegatorState s d \<noteq> None" and "request_of d (DelegationScheduledRequests s c) \<noteq> None"
  shows "delegation_schedule_revoke cfg c d s =
      (Err (Module PendingDelegationRequestAlreadyExists), s)
    \<and> delegation_schedule_bond_decrease cfg c d a s =
      (Err (Module PendingDelegationRequestAlreadyExists), s)"
proof -
  from assms(1) obtain st where st: "DelegatorState s d = Some st" by auto
  have "wp (delegation_schedule_revoke cfg c d) (\<lambda>_ _. False)
      (\<lambda>e t. e = Module PendingDelegationRequestAlreadyExists \<and> t = s) s"
    using assms(2) by (simp add: wp_schedule_revoke [OF st])
  moreover have "wp (delegation_schedule_bond_decrease cfg c d a) (\<lambda>_ _. False)
      (\<lambda>e t. e = Module PendingDelegationRequestAlreadyExists \<and> t = s) s"
    using assms(2) st unfolding no_request [symmetric]
    by (simp add: delegation_schedule_bond_decrease_def wp_simps)
  ultimately show ?thesis by (auto simp: wp_iff)
qed

theorem one_request_witness:
  "delegation_schedule_revoke sample_cfg 1 13 sample_pending =
    (Err (Module PendingDelegationRequestAlreadyExists), sample_pending)"
proof -
  have "DelegatorState sample_pending 13 \<noteq> None"
    and "request_of 13 (DelegationScheduledRequests sample_pending 1) \<noteq> None"
    by (simp_all add: sample_pending_def sample_request_def sample_defs request_of_def)
  from one_request_at_a_time [OF this] show ?thesis by blast
qed

end
