(* ===== verification/Delegation_Flows.thy ===== *)
theory Delegation_Flows
  imports Candidate_Entry Delegation_Requests
begin

text \<open>
  The calls that change a delegator and a candidate together: bonding more, executing a
  revocation or a decrease, delegating. A delegation is \<open>linked\<close> when the candidate's book and
  the delegator's record agree on it; each call is shown to keep both sides in step.
\<close>

text \<open>Running a program of which a contract is known, then the rest.\<close>

lemma wp_bindI:
  assumes "wp m R E' s" and "\<And>x t. R x t \<Longrightarrow> wp (f x) Q E t" and "\<And>er t. E' er t \<Longrightarrow> E er t"
  shows "wp (bind_m m f) Q E s"
  using assms by (auto simp: wp_bind elim: wp_mono)

lemma wp_thenI:
  assumes "wp m R E' s" and "\<And>x t. R x t \<Longrightarrow> wp n Q E t" and "\<And>er t. E' er t \<Longrightarrow> E er t"
  shows "wp (then_m m n) Q E s"
  using assms by (auto simp: wp_then elim: wp_mono)

lemma wp_post_cong: "(\<And>x t. Q x t = Q' x t) \<Longrightarrow> wp m Q E s = wp m Q' E s"
  by (simp add: wp_def split: prod.splits outcome.splits)

section \<open>Linked delegations\<close>

abbreviation bond :: "AccountId \<Rightarrow> Balance \<Rightarrow> Bond" where
  "bond o' a \<equiv> \<lparr>b_owner = o', b_amount = a\<rparr>"

definition linked ::
  "'w config \<Rightarrow> AccountId \<Rightarrow> AccountId \<Rightarrow> Balance \<Rightarrow> Balance \<Rightarrow> Bond multiset \<Rightarrow> CandidateMetadata
    \<Rightarrow> Delegator \<Rightarrow> 'w staking \<Rightarrow> bool" where
  "linked cfg c d a e M m st s \<longleftrightarrow>
     CandidateInfo s c = Some m \<and> stands cfg c e M m s \<and> bond d a \<in># M
     \<and> DelegatorState s d = Some st \<and> d_id st = d \<and> delegator_ok st
     \<and> bond c a \<in> set (d_delegations st)
     \<and> requests_ok (DelegationScheduledRequests s c)
     \<and> key_sorted ac_delegator (AutoCompoundingDelegations s c)"

lemma delegator_by_key:
  assumes "delegator_ok st" and "bond c a \<in> set (d_delegations st)"
  shows "by_key b_owner (d_delegations st) c = Some (bond c a)"
    and "find (\<lambda>x. b_owner x = c) (d_delegations st) = Some (bond c a)"
proof -
  have "distinct (map b_owner (d_delegations st))"
    using assms(1) by (simp add: delegator_ok_def key_sorted_distinct)
  from by_key_Some_iff [OF this, of c "bond c a"] assms(2)
  show found: "by_key b_owner (d_delegations st) c = Some (bond c a)" by simp
  have "find (\<lambda>b. b_owner b = c) ds = by_key b_owner ds c" for ds :: "Bond list"
    by (induction ds) auto
  with found show "find (\<lambda>x. b_owner x = c) (d_delegations st) = Some (bond c a)" by simp
qed

lemma update_first_bond_adjust:
  "distinct (map b_owner ds) \<Longrightarrow> update_first_bond c f ds = adjust_bond c f ds"
proof (induction ds)
  case (Cons x ds)
  then show ?case using adjust_bond_fresh [of c ds f]
    by (cases "b_owner x = c") (auto simp: adjust_bond_def)
qed (simp add: adjust_bond_def)

text \<open>The delegator with the amount of one bond changed and the total with it.\<close>

definition rebond :: "AccountId \<Rightarrow> (Balance \<Rightarrow> Balance) \<Rightarrow> (Balance \<Rightarrow> Balance) \<Rightarrow> Delegator \<Rightarrow> Delegator" where
  "rebond c f g st =
     st\<lparr>d_delegations := update_first_bond c f (d_delegations st), d_total := g (d_total st)\<rparr>"

lemma rebond_ok:
  assumes "delegator_ok st" and "bond c a \<in> set (d_delegations st)"
    and "g (d_total st) + a = d_total st + f a"
  shows "delegator_ok (rebond c f g st)" and "bond c (f a) \<in> set (d_delegations (rebond c f g st))"
    and "d_id (rebond c f g st) = d_id st" and "d_less_total (rebond c f g st) = d_less_total st"
    and "d_total (rebond c f g st) = g (d_total st)"
proof -
  let ?ds = "d_delegations st"
  have ks: "key_sorted b_owner ?ds" and sum: "d_total st = amounts ?ds"
    using assms(1) by (auto simp: delegator_ok_def)
  note dist = key_sorted_distinct [OF ks]
  have "amounts (adjust_bond c f ?ds) + a = amounts ?ds + f a"
    using adjusted(2) [OF dist assms(2), of f] by simp
  then have "amounts (update_first_bond c f ?ds) = g (d_total st)"
    using assms(3) sum by (simp add: update_first_bond_adjust [OF dist])
  moreover have "key_sorted b_owner (update_first_bond c f ?ds)"
    using ks by (simp add: key_sorted_def update_first_bond_adjust [OF dist])
  ultimately show "delegator_ok (rebond c f g st)" by (simp add: delegator_ok_def rebond_def)
  have "bond c (f a) \<in> set (adjust_bond c f ?ds)"
    using assms(2) by (force simp: adjust_bond_def image_iff)
  then show "bond c (f a) \<in> set (d_delegations (rebond c f g st))"
    by (simp add: rebond_def update_first_bond_adjust [OF dist])
qed (simp_all add: rebond_def)

subsection \<open>Frames\<close>

lemma stands_cong:
  assumes "TopDelegations s' c = TopDelegations s c" "BottomDelegations s' c = BottomDelegations s c"
    and "CandidatePool s' = CandidatePool s"
  shows "stands cfg c e M m s' = stands cfg c e M m s"
  using assms by (simp add: stands_def)

lemma stands_fields [simp]:
  "stands cfg c e M m (s\<lparr>world := w\<rparr>) = stands cfg c e M m s"
  "stands cfg c e M m (s\<lparr>Events := evs\<rparr>) = stands cfg c e M m s"
  "stands cfg c e M m (s\<lparr>CandidateInfo := ci\<rparr>) = stands cfg c e M m s"
  "stands cfg c e M m (s\<lparr>DelegatorState := ds\<rparr>) = stands cfg c e M m s"
  "stands cfg c e M m (s\<lparr>Total := v\<rparr>) = stands cfg c e M m s"
  "stands cfg c e M m (s\<lparr>DelegationScheduledRequests := rq\<rparr>) = stands cfg c e M m s"
  "stands cfg c e M m (s\<lparr>AutoCompoundingDelegations := ac\<rparr>) = stands cfg c e M m s"
  by (simp_all add: stands_def)

lemma only_candidate_fields:
  assumes "only_candidate c s s'"
  shows "CandidateInfo s' = CandidateInfo s" "DelegatorState s' = DelegatorState s" "Total s' = Total s"
    "DelegationScheduledRequests s' = DelegationScheduledRequests s"
    "AutoCompoundingDelegations s' = AutoCompoundingDelegations s" "Events s' = Events s"
    "world s' = world s" "Round s' = Round s"
    "\<And>k. k \<noteq> c \<Longrightarrow> TopDelegations s' k = TopDelegations s k"
    "\<And>k. k \<noteq> c \<Longrightarrow> BottomDelegations s' k = BottomDelegations s k"
    "\<And>k. k \<noteq> c \<Longrightarrow> pool_lookup (CandidatePool s') k = pool_lookup (CandidatePool s) k"
  using assms by (auto simp: only_candidate_def)

lemma only_candidate_pool:
  assumes "only_candidate c s s'" and "\<And>k. k \<noteq> c \<Longrightarrow> pool_lookup pool k = pool_lookup (CandidatePool s') k"
  shows "only_candidate c s (s'\<lparr>CandidatePool := pool\<rparr>)"
proof -
  from assms(1) obtain t b pool' where
    s': "s' = s\<lparr>TopDelegations := (TopDelegations s)(c := t),
      BottomDelegations := (BottomDelegations s)(c := b), CandidatePool := pool'\<rparr>"
    and k: "\<forall>k. k \<noteq> c \<longrightarrow> pool_lookup pool' k = pool_lookup (CandidatePool s) k"
    by (auto simp: only_candidate_def)
  show ?thesis unfolding only_candidate_def
    by (intro exI [of _ t] exI [of _ b] exI [of _ pool]) (use assms(2) k in \<open>auto simp: s'\<close>)
qed

text \<open>Refreshing an entry that is up to date changes nothing that is looked up.\<close>

lemma wp_refresh:
  assumes "stands cfg c e M m s" and "is_active m" and "only_candidate c s0 s"
  shows "wp (update_active cfg c (cm_total_counted m))
    (\<lambda>_ s'. stands cfg c e M m s' \<and> only_candidate c s0 s') (\<lambda>_ _. False) s"
proof -
  from assms(1) obtain t b where tb: "TopDelegations s c = Some t" "BottomDelegations s c = Some b"
    "candidate_ok cfg e m t b" "book t b = M" and at: "pool_at cfg c m (CandidatePool s)"
    by (auto simp: stands_def)
  let ?pool = "replace_by_key b_owner (bond c (cm_total_counted m)) (CandidatePool s)"
  have ok: "pool_ok cfg (CandidatePool s)" and ks: "key_sorted b_owner (CandidatePool s)"
    and lk: "pool_lookup (CandidatePool s) c = Some (cm_total_counted m)"
    using at assms(2) by (auto simp: pool_at_def pool_ok_def)
  have same: "pool_lookup ?pool = pool_lookup (CandidatePool s)"
    using lk by (simp add: pool_lookup_replace [OF ks] fun_upd_idem)
  have "c \<in> owners (CandidatePool s)" using lk pool_lookup_present [of "CandidatePool s" c] by simp
  from candidate_pool.inv_upd [OF ok pool_put_present [OF ok this]] have "pool_ok cfg ?pool" .
  with tb same at have "stands cfg c e M m (s\<lparr>CandidatePool := ?pool\<rparr>)"
    by (auto simp: stands_def pool_at_def)
  moreover have "only_candidate c s0 (s\<lparr>CandidatePool := ?pool\<rparr>)"
    using assms(3) same by (intro only_candidate_pool) auto
  ultimately show ?thesis by (simp add: wp_update_active [OF at assms(2)])
qed

section \<open>Bonding more\<close>

lemma rebond_cong:
  assumes "delegator_ok st" and "bond c a \<in> set (d_delegations st)"
    and "f a = f' a" and "g (d_total st) = g' (d_total st)"
  shows "rebond c f g st = rebond c f' g' st"
proof -
  have dist: "distinct (map b_owner (d_delegations st))"
    using assms(1) by (simp add: delegator_ok_def key_sorted_distinct)
  have same: "x = bond c a" if "x \<in> set (d_delegations st)" "b_owner x = c" for x
    using that assms(2) dist inj_onD [of b_owner "set (d_delegations st)" x "bond c a"]
    by (simp add: distinct_map)
  have "f (b_amount x) = f' (b_amount x)" if "x \<in> set (d_delegations st)" "b_owner x = c" for x
    using same [OF that] assms(3) by simp
  then have "adjust_bond c f (d_delegations st) = adjust_bond c f' (d_delegations st)"
    by (auto simp: adjust_bond_def)
  then show ?thesis
    using assms(4) by (simp add: rebond_def update_first_bond_adjust [OF dist])
qed

text \<open>Both sides after the delegation of \<open>d\<close> to \<open>c\<close> has grown by \<open>more'\<close>.\<close>

definition raised ::
  "'w config \<Rightarrow> AccountId \<Rightarrow> AccountId \<Rightarrow> Balance \<Rightarrow> Balance \<Rightarrow> Balance \<Rightarrow> Bond multiset
    \<Rightarrow> CandidateMetadata \<Rightarrow> Delegator \<Rightarrow> 'w staking \<Rightarrow> 'w staking \<Rightarrow> bool" where
  "raised cfg c d a more' e M m st s s' \<longleftrightarrow>
     (\<exists>m' s2 st'. st' = rebond c (\<lambda>x. x + more') (\<lambda>x. x + more') st
        \<and> reached cfg c e (rebonded M (bond d a) (a + more')) m
            (s\<lparr>world := relock cfg st' (world s)\<rparr>) m' s2
        \<and> s' = s2\<lparr>CandidateInfo := (CandidateInfo s)(c \<mapsto> m'), Total := Total s + more',
                   DelegatorState := (DelegatorState s)(d \<mapsto> st')\<rparr>)"

lemma linked_bound:
  assumes "linked cfg c d a e M m st s"
  shows "a \<le> cm_bond m + sum_mset (image_mset b_amount M) + e" and "a \<le> d_total st"
    and "cm_bond m + sum_mset (image_mset b_amount M) + e \<le> u128_max"
proof -
  have "bond d a \<in># M" using assms by (simp add: linked_def)
  then obtain N where "M = add_mset (bond d a) N" by (metis mset_add)
  then show "a \<le> cm_bond m + sum_mset (image_mset b_amount M) + e" by simp
  have "delegator_ok st" "bond c a \<in> set (d_delegations st)" using assms by (auto simp: linked_def)
  then show "a \<le> d_total st"
    using member_le_sum_list [of a "map b_amount (d_delegations st)"]
    by (force simp: delegator_ok_def image_iff)
  obtain hi lo where held: "held cfg c e hi lo m s" and M: "M = mset hi + mset lo"
    using assms by (auto simp: linked_def stands_held)
  show "cm_bond m + sum_mset (image_mset b_amount M) + e \<le> u128_max"
    using held_ranked(5) [OF held] unfolding M by (simp flip: sum_mset_sum_list)
qed

lemma wp_bond_more:
  assumes "linked cfg c d a e M m st s" and "params_ok cfg"
    and "\<not> delegation_request_revoke_exists c d s"
    and "more' \<le> get_delegator_stakable_balance cfg d s"
    and "cm_bond m + sum_mset (image_mset b_amount M) + e + more' \<le> u128_max"
    and "d_total st + more' \<le> u128_max" and "Total s + more' \<le> u128_max"
  shows "wp (delegation_bond_more_without_event cfg d c more')
    (\<lambda>_ s'. raised cfg c d a more' e M m st s s') (\<lambda>_ _. False) s"
proof -
  have l: "CandidateInfo s c = Some m" "stands cfg c e M m s" "bond d a \<in># M"
    "DelegatorState s d = Some st" "d_id st = d" "delegator_ok st"
    "bond c a \<in> set (d_delegations st)"
    using assms(1) by (auto simp: linked_def)
  let ?f = "\<lambda>x. sat_add_u128 x more'"
  let ?st = "rebond c (\<lambda>x. x + more') (\<lambda>x. x + more') st"
  have le: "a + more' \<le> u128_max" using linked_bound(1) [OF assms(1)] assms(5) by linarith
  have st': "st\<lparr>d_delegations := update_first_bond c ?f (d_delegations st), d_total := d_total st + more'\<rparr> = ?st"
    using rebond_cong [OF l(6,7), of ?f "\<lambda>x. x + more'" "\<lambda>x. x + more'" "\<lambda>x. x + more'"] le
    by (simp add: rebond_def sat_add_u128_exact)
  let ?s = "s\<lparr>world := relock cfg ?st (world s)\<rparr>"
  have stands: "stands cfg c e M m ?s" using l(2) by simp
  have inc: "wp (increase_delegation cfg c d a more' m)
      (\<lambda>(m', _) s'. reached cfg c e (rebonded M (bond d a) (a + more')) m ?s m' s') (\<lambda>_ _. False) ?s"
    using increase_delegation_rebonds [OF stands assms(2) l(3) assms(5)] by simp
  have fin: "raised cfg c d a more' e M m st s
      (s2\<lparr>CandidateInfo := (CandidateInfo s2)(c \<mapsto> m'), Total := Total s2 + more',
          DelegatorState := (DelegatorState s2)(d \<mapsto> ?st)\<rparr>)"
    if "stands cfg c e (rebonded M (bond d a) (a + more')) m' s2" "same_identity m m'"
      "only_candidate c ?s s2" "\<not> is_active m \<longrightarrow> CandidatePool s2 = CandidatePool s" for m' s2
    unfolding raised_def reached_def using that only_candidate_fields [OF that(3)] by auto
  have idle: "wp (if is_active m' \<and> cm_total_counted m \<noteq> cm_total_counted m'
        then update_active cfg c (cm_total_counted m') else return_m ())
      (\<lambda>_ s3. stands cfg c e (rebonded M (bond d a) (a + more')) m' s3 \<and> only_candidate c ?s s3
        \<and> (\<not> is_active m \<longrightarrow> CandidatePool s3 = CandidatePool s)) (\<lambda>_ _. False) s2"
    if r: "reached cfg c e (rebonded M (bond d a) (a + more')) m ?s m' s2" for m' s2
  proof -
    have same: "is_active m' = is_active m"
      using r by (auto simp: reached_def same_identity_def is_active_def)
    show ?thesis
      using r wp_refresh [of cfg c e _ m' s2 ?s] unfolding same
      by (cases "is_active m") (auto simp: reached_def wp_simps elim: wp_mono)
  qed
  let ?rest = "\<lambda>m' top. then_m (if is_active m' \<and> cm_total_counted m \<noteq> cm_total_counted m'
        then update_active cfg c (cm_total_counted m') else return_m ())
      (then_m (put_candidate_info c m')
      (bind_m (gets_m Total) (\<lambda>total. then_m (put_total (sat_add_u128 total more'))
        (then_m (put_delegator_state d ?st) (return_m top)))))"
  have run: "wp (delegation_bond_more_without_event cfg d c more') Q E s =
      wp (bind_m (increase_delegation cfg c d a more' m) (\<lambda>(m', top). ?rest m' top)) Q E ?s" for Q E
    using l assms(3,4,6)
    by (simp add: delegation_bond_more_without_event_def delegator_increase_delegation_def wp_simps
        delegator_by_key(2) Let_def sat_add_u128_exact st' rebond_ok)
  show ?thesis unfolding run
  proof (rule wp_bindI [OF inc], clarify)
    fix m' top t
    assume r: "reached cfg c e (rebonded M (bond d a) (a + more')) m ?s m' t"
    show "wp (?rest m' top) (\<lambda>_ s'. raised cfg c d a more' e M m st s s') (\<lambda>_ _. False) t"
    proof (rule wp_thenI [OF idle [OF r]], clarify)
      fix t'
      assume t: "stands cfg c e (rebonded M (bond d a) (a + more')) m' t'" "only_candidate c ?s t'"
        "\<not> is_active m \<longrightarrow> CandidatePool t' = CandidatePool s"
      have "same_identity m m'" using r by (simp add: reached_def)
      from fin [OF t(1) this t(2,3)] only_candidate_fields(3) [OF t(2)] assms(7)
      show "wp (then_m (put_candidate_info c m')
        (bind_m (gets_m Total) (\<lambda>total. then_m (put_total (sat_add_u128 total more'))
          (then_m (put_delegator_state d ?st) (return_m top)))))
        (\<lambda>_ s'. raised cfg c d a more' e M m st s s') (\<lambda>_ _. False) t'"
        by (simp add: wp_simps sat_add_u128_exact)
    qed simp
  qed simp
qed

section \<open>Executing a request\<close>

lemma relock_cong: "d_total st' = d_total st \<Longrightarrow> d_id st' = d_id st \<Longrightarrow> relock cfg st' = relock cfg st"
  by (simp add: relock_def)

text \<open>What the entry of the request at its place is, in terms of the request of the delegator.\<close>

lemma wp_execute:
  assumes "linked cfg c d a e M m st s"
    and "request_of d (DelegationScheduledRequests s c) = Some req"
    and "sr_when_executable req \<le> r_current (Round s)"
  obtains i where "DelegationScheduledRequests s c ! i = req"
    and "vec_remove i (DelegationScheduledRequests s c)
      = filter (\<lambda>req. sr_delegator req \<noteq> d) (DelegationScheduledRequests s c)"
    and "\<And>Q E. wp (delegation_execute_scheduled_request cfg c d) Q E s =
      wp (case sr_action req of
            Revoke amount \<Rightarrow> execute_revoke cfg c d st (DelegationScheduledRequests s c) i amount
          | Decrease _ \<Rightarrow> execute_decrease cfg c d st (DelegationScheduledRequests s c) i) Q E s"
proof -
  have l: "DelegatorState s d = Some st" "requests_ok (DelegationScheduledRequests s c)"
    using assms(1) by (auto simp: linked_def)
  from position_request [OF l(2), of d] assms(2) obtain i where
    i: "position (\<lambda>req. sr_delegator req = d) (DelegationScheduledRequests s c) = Some i"
      "DelegationScheduledRequests s c ! i = req"
      "vec_remove i (DelegationScheduledRequests s c)
      = filter (\<lambda>req. sr_delegator req \<noteq> d) (DelegationScheduledRequests s c)"
    by (auto split: option.splits)
  have "wp (delegation_execute_scheduled_request cfg c d) Q E s =
      wp (case sr_action req of
            Revoke amount \<Rightarrow> execute_revoke cfg c d st (DelegationScheduledRequests s c) i amount
          | Decrease _ \<Rightarrow> execute_decrease cfg c d st (DelegationScheduledRequests s c) i) Q E s" for Q E
    using l i assms(3) by (simp add: delegation_execute_scheduled_request_def wp_simps Let_def)
  with i show ?thesis using that by blast
qed

definition revoked ::
  "'w config \<Rightarrow> AccountId \<Rightarrow> AccountId \<Rightarrow> Balance \<Rightarrow> Balance \<Rightarrow> Bond multiset
    \<Rightarrow> CandidateMetadata \<Rightarrow> Delegator \<Rightarrow> 'w staking \<Rightarrow> 'w staking \<Rightarrow> bool" where
  "revoked cfg c d a e M m st s s' \<longleftrightarrow>
     (\<exists>m' s2 st'. st' = (drop_bond (bond c a) st)\<lparr>d_less_total := d_less_total st - a\<rparr>
        \<and> reached cfg c e (M - {#bond d a#}) m
            (s\<lparr>world := relock cfg st' (world s),
               AutoCompoundingDelegations := (AutoCompoundingDelegations s)
                 (c := filter (\<lambda>x. ac_delegator x \<noteq> d) (AutoCompoundingDelegations s c))\<rparr>) m' s2
        \<and> s' = s2\<lparr>CandidateInfo := (CandidateInfo s)(c \<mapsto> m'), Total := Total s - a,
             DelegationScheduledRequests := (DelegationScheduledRequests s)
               (c := filter (\<lambda>req. sr_delegator req \<noteq> d) (DelegationScheduledRequests s c)),
             DelegatorState := (DelegatorState s)
               (d := if length (d_delegations st) = 1 then None else Some st'),
             Events := Events s @ DelegatorLeftCandidate d c a (cm_total_counted m')
               # DelegationRevoked d c a
               # (if length (d_delegations st) = 1 then [DelegatorLeft d a] else [])\<rparr>)"

lemma wp_revoke_due:
  assumes "linked cfg c d a e M m st s" and "params_ok cfg"
    and "request_of d (DelegationScheduledRequests s c) = Some req" and "sr_action req = Revoke a"
    and "sr_when_executable req \<le> r_current (Round s)"
  shows "wp (delegation_execute_scheduled_request cfg c d)
    (\<lambda>_ s'. (length (d_delegations st) = 1 \<or> a \<le> d_total st - MinDelegation cfg)
      \<and> revoked cfg c d a e M m st s s')
    (\<lambda>er s'. length (d_delegations st) \<noteq> 1 \<and> d_total st - MinDelegation cfg < a
      \<and> er = Module DelegatorBondBelowMin \<and> s' = s) s"
proof -
  have l: "CandidateInfo s c = Some m" "stands cfg c e M m s" "bond d a \<in># M"
    "DelegatorState s d = Some st" "d_id st = d" "delegator_ok st"
    "bond c a \<in> set (d_delegations st)"
    "key_sorted ac_delegator (AutoCompoundingDelegations s c)"
    using assms(1) by (auto simp: linked_def)
  let ?st = "(drop_bond (bond c a) st)\<lparr>d_less_total := d_less_total st - a\<rparr>"
  let ?s = "s\<lparr>world := relock cfg ?st (world s), AutoCompoundingDelegations := (AutoCompoundingDelegations s)
    (c := filter (\<lambda>x. ac_delegator x \<noteq> d) (AutoCompoundingDelegations s c))\<rparr>"
  let ?rs = "filter (\<lambda>req. sr_delegator req \<noteq> d) (DelegationScheduledRequests s c)"
  let ?rest = "\<lambda>m'. bind_m (gets_m Total) (\<lambda>total. then_m (put_total (total - a))
     (then_m (put_candidate_info c m')
     (then_m (deposit_event (DelegatorLeftCandidate d c a (cm_total_counted m')))
     (then_m (deposit_event (DelegationRevoked d c a))
     (then_m (put_scheduled_requests c ?rs)
       (if length (d_delegations st) = 1
        then then_m (remove_delegator_state d) (deposit_event (DelegatorLeft d a))
        else put_delegator_state d ?st))))))"
  obtain i where i: "DelegationScheduledRequests s c ! i = req"
    "vec_remove i (DelegationScheduledRequests s c) = ?rs"
    "\<And>Q E. wp (delegation_execute_scheduled_request cfg c d) Q E s =
      wp (execute_revoke cfg c d st (DelegationScheduledRequests s c) i a) Q E s"
    by (rule wp_execute [OF assms(1,3,5)]) (simp add: assms(4))
  have ok: "delegator_ok (st\<lparr>d_less_total := d_less_total st - a\<rparr>)"
    using l(6) by (simp add: delegator_ok_def)
  have st': "drop_bond (bond c a) (st\<lparr>d_less_total := d_less_total st - a\<rparr>) = ?st"
    by (simp add: drop_bond_def)
  have lock: "relock cfg (drop_bond (bond c a) st) = relock cfg ?st"
    by (rule relock_cong) simp_all
  have run: "wp (delegation_execute_scheduled_request cfg c d) Q E s =
    (if length (d_delegations st) = 1 \<or> a \<le> d_total st - MinDelegation cfg
     then wp (bind_m (rm_delegation_if_exists cfg c d a m) (\<lambda>(m', _). ?rest m')) Q E ?s
     else E (Module DelegatorBondBelowMin) s)" for Q E
    unfolding i(3)
    using l assms(4) wp_remove_auto_compound [of "s\<lparr>world := relock cfg ?st (world s)\<rparr>" c]
    by (simp add: execute_revoke_def wp_simps Let_def i(1,2) wp_delegator_rm_delegation [OF ok]
        delegator_by_key(1) delegator_leaves_candidate_def st' not_le)
      (auto intro!: wp_post_cong simp: wp_simps split_beta)
  have stands: "stands cfg c e M m ?s" using l(2) by simp
  have rm: "wp (rm_delegation_if_exists cfg c d a m)
      (\<lambda>(m', _) s'. reached cfg c e (M - {#bond d a#}) m ?s m' s') (\<lambda>_ _. False) ?s"
    using rm_delegation_removes [OF stands assms(2) l(3)]
    by (auto simp: reached_def elim: wp_mono)
  have rest: "wp (?rest m') (\<lambda>_ s'. revoked cfg c d a e M m st s s') E s2"
    if "reached cfg c e (M - {#bond d a#}) m ?s m' s2" for m' s2 E
  proof -
    have "only_candidate c ?s s2" using that by (simp add: reached_def)
    note same = only_candidate_fields [OF this]
    show ?thesis using that
      by (auto simp: wp_simps revoked_def same intro!: exI [of _ m'] exI [of _ s2])
  qed
  have ok: "wp (bind_m (rm_delegation_if_exists cfg c d a m) (\<lambda>(m', _). ?rest m'))
      (\<lambda>_ s'. revoked cfg c d a e M m st s s') (\<lambda>_ _. False) ?s"
    by (rule wp_bindI [OF rm]) (clarify, rule rest)
  show ?thesis
  proof (cases "length (d_delegations st) = 1 \<or> a \<le> d_total st - MinDelegation cfg")
    case True
    then show ?thesis unfolding run if_P [OF True] by (intro wp_mono [OF ok]) simp_all
  next
    case False
    then show ?thesis unfolding run if_not_P [OF False] by simp
  qed
qed

definition lowered ::
  "'w config \<Rightarrow> AccountId \<Rightarrow> AccountId \<Rightarrow> Balance \<Rightarrow> Balance \<Rightarrow> Balance \<Rightarrow> Bond multiset
    \<Rightarrow> CandidateMetadata \<Rightarrow> Delegator \<Rightarrow> 'w staking \<Rightarrow> 'w staking \<Rightarrow> bool" where
  "lowered cfg c d a x e M m st s s' \<longleftrightarrow>
     (\<exists>m' s2 st' in_top. st' = (rebond c (\<lambda>b. b - x) (\<lambda>t. t - x) st)\<lparr>d_less_total := d_less_total st - x\<rparr>
        \<and> reached cfg c (if in_bottom c (bond d a) s then e + x else e) (rebonded M (bond d a) (a - x)) m
            (s\<lparr>world := relock cfg st' (world s)\<rparr>) m' s2
        \<and> s' = s2\<lparr>CandidateInfo := (CandidateInfo s)(c \<mapsto> m'), Total := Total s - x,
             DelegationScheduledRequests := (DelegationScheduledRequests s)
               (c := filter (\<lambda>req. sr_delegator req \<noteq> d) (DelegationScheduledRequests s c)),
             DelegatorState := (DelegatorState s)(d \<mapsto> st'),
             Events := Events s @ [DelegationDecreased d c x in_top]\<rparr>)"

lemma wp_decrease_due:
  assumes "linked cfg c d a e M m st s" and "params_ok cfg"
    and "request_of d (DelegationScheduledRequests s c) = Some req" and "sr_action req = Decrease x"
    and "sr_when_executable req \<le> r_current (Round s)"
  shows "wp (delegation_execute_scheduled_request cfg c d)
    (\<lambda>_ s'. x < a \<and> MinDelegation cfg \<le> d_total st - x \<and> lowered cfg c d a x e M m st s s')
    (\<lambda>er s'. (a \<le> x \<or> d_total st - x < MinDelegation cfg)
      \<and> er = Module DelegationBelowMin \<and> s' = s) s"
proof -
  have l: "CandidateInfo s c = Some m" "stands cfg c e M m s" "bond d a \<in># M"
    "DelegatorState s d = Some st" "d_id st = d" "delegator_ok st"
    "bond c a \<in> set (d_delegations st)"
    using assms(1) by (auto simp: linked_def)
  let ?st = "(rebond c (\<lambda>b. b - x) (\<lambda>t. t - x) st)\<lparr>d_less_total := d_less_total st - x\<rparr>"
  let ?s = "s\<lparr>world := relock cfg ?st (world s)\<rparr>"
  let ?rs = "filter (\<lambda>req. sr_delegator req \<noteq> d) (DelegationScheduledRequests s c)"
  let ?rest = "\<lambda>m' in_top. then_m (put_candidate_info c m')
     (bind_m (gets_m Total) (\<lambda>total. then_m (put_total (total - x))
     (then_m (put_scheduled_requests c ?rs)
     (then_m (put_delegator_state d ?st) (deposit_event (DelegationDecreased d c x in_top))))))"
  obtain i where i: "DelegationScheduledRequests s c ! i = req"
    "vec_remove i (DelegationScheduledRequests s c) = ?rs"
    "\<And>Q E. wp (delegation_execute_scheduled_request cfg c d) Q E s =
      wp (execute_decrease cfg c d st (DelegationScheduledRequests s c) i) Q E s"
    by (rule wp_execute [OF assms(1,3,5)]) (simp add: assms(4))
  have lock: "relock cfg (st\<lparr>d_less_total := l', d_delegations := ds, d_total := d_total st - x\<rparr>)
      = relock cfg ?st" for ds l'
    by (rule relock_cong) (simp_all add: rebond_def)
  have st': "st\<lparr>d_less_total := d_less_total st - x,
      d_delegations := update_first_bond c (\<lambda>b. b - x) (d_delegations st), d_total := d_total st - x\<rparr> = ?st"
    by (simp add: rebond_def)
  have run: "wp (delegation_execute_scheduled_request cfg c d) Q E s =
    (if x < a \<and> MinDelegation cfg \<le> d_total st - x
     then wp (bind_m (decrease_delegation cfg c d a x m) (\<lambda>(m', in_top). ?rest m' in_top)) Q E ?s
     else E (Module DelegationBelowMin) s)" for Q E
    unfolding i(3)
    using l assms(4)
    by (simp add: execute_decrease_def wp_simps Let_def i(1,2) total_sub_if_def lock st'
        delegator_by_key(2) not_le)
  show ?thesis
  proof (cases "x < a \<and> MinDelegation cfg \<le> d_total st - x")
    case True
    have stands: "stands cfg c e M m ?s" using l(2) by simp
    have bot: "in_bottom c (bond d a) ?s = in_bottom c (bond d a) s" by (simp add: in_bottom_def)
    have dec: "wp (decrease_delegation cfg c d a x m)
        (\<lambda>(m', _) s'. reached cfg c (if in_bottom c (bond d a) s then e + x else e)
           (rebonded M (bond d a) (a - x)) m ?s m' s') (\<lambda>_ _. False) ?s"
      using decrease_delegation_rebonds [OF stands assms(2) l(3), of x] True bot by simp
    have rest: "wp (?rest m' in_top) (\<lambda>_ s'. lowered cfg c d a x e M m st s s') E s2"
      if "reached cfg c (if in_bottom c (bond d a) s then e + x else e)
           (rebonded M (bond d a) (a - x)) m ?s m' s2" for m' s2 E in_top
    proof -
      have "only_candidate c ?s s2" using that by (simp add: reached_def)
      note same = only_candidate_fields [OF this]
      show ?thesis using that
        by (auto simp: wp_simps lowered_def same intro!: exI [of _ m'] exI [of _ s2])
    qed
    have ok: "wp (bind_m (decrease_delegation cfg c d a x m) (\<lambda>(m', in_top). ?rest m' in_top))
        (\<lambda>_ s'. lowered cfg c d a x e M m st s s') (\<lambda>_ _. False) ?s"
      by (rule wp_bindI [OF dec]) (clarify, rule rest)
    show ?thesis unfolding run if_P [OF True] using True by (intro wp_mono [OF ok]) simp_all
  next
    case False
    then show ?thesis unfolding run if_not_P [OF False] by auto
  qed
qed

end
