(* ===== verification/Delegating.thy ===== *)
theory Delegating
  imports Delegation_Flows
begin

text \<open>
  A new delegation as a whole call: \<open>delegate_with_auto_compound\<close> succeeds exactly when its
  guards allow it, and then changes the candidate's book, the delegator, the lock, the total and
  the auto-compounding configuration together.
\<close>

section \<open>The currency\<close>

text \<open>What the code relies on of \<open>LockableCurrency\<close>: a lock moves no balance.\<close>

definition locks_move_nothing :: "'w config \<Rightarrow> bool" where
  "locks_move_nothing cfg \<longleftrightarrow>
     (\<forall>l k b w x. free_balance cfg (set_lock cfg l k b w) x = free_balance cfg w x
        \<and> reserved_balance cfg (set_lock cfg l k b w) x = reserved_balance cfg w x
        \<and> free_balance cfg (remove_lock cfg l k w) x = free_balance cfg w x
        \<and> reserved_balance cfg (remove_lock cfg l k w) x = reserved_balance cfg w x)"

lemma stakable_relock:
  assumes "locks_move_nothing cfg" and "DelegatorState s' d = DelegatorState s d"
    and "world s' = relock cfg st (world s)"
  shows "get_delegator_stakable_balance cfg d s' = get_delegator_stakable_balance cfg d s"
  using assms by (simp add: get_delegator_stakable_balance_def locks_move_nothing_def relock_def)

section \<open>A candidate and its delegators\<close>

text \<open>Every bond of the book is the delegator's own, and only delegators auto-compound.\<close>

definition site_ok ::
  "'w config \<Rightarrow> AccountId \<Rightarrow> Balance \<Rightarrow> Bond multiset \<Rightarrow> CandidateMetadata \<Rightarrow> 'w staking \<Rightarrow> bool" where
  "site_ok cfg c e M m s \<longleftrightarrow>
     CandidateInfo s c = Some m \<and> stands cfg c e M m s \<and> (\<forall>k. k \<in># M \<longrightarrow> backed c k s)
     \<and> requests_ok (DelegationScheduledRequests s c)
     \<and> key_sorted ac_delegator (AutoCompoundingDelegations s c)
     \<and> ac_delegator ` set (AutoCompoundingDelegations s c) \<subseteq> b_owner ` set_mset M"

text \<open>The delegator's record, and its agreement with the book.\<close>

definition newcomer_ok ::
  "AccountId \<Rightarrow> AccountId \<Rightarrow> Balance \<Rightarrow> Bond multiset \<Rightarrow> 'w staking \<Rightarrow> bool" where
  "newcomer_ok c d a M s \<longleftrightarrow>
     (case DelegatorState s d of
        None \<Rightarrow> d \<notin> b_owner ` set_mset M
      | Some st \<Rightarrow> delegator_ok st \<and> d_id st = d \<and> length (d_delegations st) \<le> u32_max
          \<and> d_total st + a \<le> u128_max
          \<and> (d \<in> b_owner ` set_mset M \<longleftrightarrow> c \<in> owners (d_delegations st)))"

definition joined :: "AccountId \<Rightarrow> AccountId \<Rightarrow> Balance \<Rightarrow> 'w staking \<Rightarrow> Delegator" where
  "joined c d a s =
     (case DelegatorState s d of
        None \<Rightarrow> delegator_new d c a
      | Some st \<Rightarrow> snd (delegator_add_delegation (bond c a) st))"

definition can_delegate ::
  "'w config \<Rightarrow> AccountId \<Rightarrow> AccountId \<Rightarrow> Balance \<Rightarrow> Percent \<Rightarrow> nat \<Rightarrow> nat \<Rightarrow> nat \<Rightarrow> Bond multiset
    \<Rightarrow> 'w staking \<Rightarrow> bool" where
  "can_delegate cfg c d a v count_hint auto_hint delegations_hint M s \<longleftrightarrow>
     a \<le> get_delegator_stakable_balance cfg d s \<and> MinDelegation cfg \<le> a
     \<and> (case DelegatorState s d of
          None \<Rightarrow> CandidateInfo s d = None
        | Some st \<Rightarrow> length (d_delegations st) \<le> delegations_hint
            \<and> length (d_delegations st) < MaxDelegationsPerDelegator cfg
            \<and> c \<notin> owners (d_delegations st))
     \<and> size M \<le> count_hint
     \<and> (v \<noteq> 0 \<longrightarrow> length (AutoCompoundingDelegations s c) \<le> auto_hint)
     \<and> (size M < book_capacity cfg \<or> (\<exists>y. y \<in># M \<and> b_amount y < a))"

definition delegated ::
  "'w config \<Rightarrow> AccountId \<Rightarrow> AccountId \<Rightarrow> Balance \<Rightarrow> Percent \<Rightarrow> Balance \<Rightarrow> Bond multiset
    \<Rightarrow> CandidateMetadata \<Rightarrow> 'w staking \<Rightarrow> 'w staking \<Rightarrow> bool" where
  "delegated cfg c d a v e M m s s' \<longleftrightarrow>
     (\<exists>m' pos less' s2 ac. entered cfg c e M (bond d a) m s m' less' s2 \<and> position_reported m m' pos
        \<and> (if v = 0 then ac = AutoCompoundingDelegations s2 c
           else auto_compound_put cfg d v (AutoCompoundingDelegations s2 c) = Some ac)
        \<and> s' = s2\<lparr>world := relock cfg (joined c d a s) (world s2),
             AutoCompoundingDelegations := (AutoCompoundingDelegations s2)(c := ac),
             Total := Total s + (case less' of None \<Rightarrow> a | Some l \<Rightarrow> a - l),
             CandidateInfo := (CandidateInfo s)(c \<mapsto> m'),
             DelegatorState := (DelegatorState s2)(d \<mapsto> joined c d a s),
             Events := Events s2 @ [Delegation d a c pos v]\<rparr>)"

section \<open>What entering leaves alone\<close>

lemma length_configs:
  assumes "key_sorted ac_delegator xs" and "ac_delegator ` set xs \<subseteq> A" and "finite A"
  shows "length xs \<le> card A"
proof -
  have "length xs = card (ac_delegator ` set xs)"
    using distinct_card [OF key_sorted_distinct [OF assms(1)]] by simp
  then show ?thesis using card_mono [OF assms(3,2)] by simp
qed

lemma card_owners_le: "card (b_owner ` set_mset M) \<le> size M"
proof -
  have "card (b_owner ` set_mset M) \<le> card (set_mset M)" by (rule card_image_le) simp
  also have "\<dots> \<le> size M" by (metis size_multiset_overloaded_eq card_eq_sum sum_mono
      One_nat_def Suc_leI count_greater_zero_iff)
  finally show ?thesis .
qed

lemma add_get_capacity: "params_ok cfg \<Longrightarrow> add_get cfg = book_capacity cfg"
  by (simp add: params_ok_def add_get_def book_capacity_def wrap_add_u32_exact)

lemma entered_frame:
  assumes "entered cfg c e M (bond d a) m s m' less' s2" and "site_ok cfg c e M m s"
    and "locks_move_nothing cfg" and "d \<notin> b_owner ` set_mset M" and "params_ok cfg"
  shows "DelegatorState s2 d = DelegatorState s d" "Total s2 = Total s"
    "CandidateInfo s2 = CandidateInfo s"
    "get_delegator_stakable_balance cfg d s2 = get_delegator_stakable_balance cfg d s"
    "key_sorted ac_delegator (AutoCompoundingDelegations s2 c)"
    "length (AutoCompoundingDelegations s2 c) < add_get cfg"
proof -
  let ?ac = "AutoCompoundingDelegations s c"
  have ac: "key_sorted ac_delegator ?ac" "ac_delegator ` set ?ac \<subseteq> b_owner ` set_mset M"
    using assms(2) by (auto simp: site_ok_def)
  have "DelegatorState s2 d = DelegatorState s d \<and> Total s2 = Total s
    \<and> CandidateInfo s2 = CandidateInfo s
    \<and> get_delegator_stakable_balance cfg d s2 = get_delegator_stakable_balance cfg d s
    \<and> key_sorted ac_delegator (AutoCompoundingDelegations s2 c)
    \<and> length (AutoCompoundingDelegations s2 c) < add_get cfg"
  proof (cases less')
    case None
    then have room: "size M < book_capacity cfg" and only: "only_candidate c s s2"
      using assms(1) by (auto simp: entered_def reached_def)
    note same = only_candidate_fields [OF only]
    have "length ?ac < add_get cfg"
      using length_configs [OF ac] card_owners_le [of M] room add_get_capacity [OF assms(5)] by simp
    then show ?thesis using same ac by (simp add: get_delegator_stakable_balance_def)
  next
    case (Some l)
    then obtain k where k: "k \<in># M" "only_candidate c (kicked_out cfg c k s) s2"
      and full: "size M = book_capacity cfg"
      using assms(1) by (auto simp: entered_def reached_def)
    note same = only_candidate_fields [OF k(2)]
    have ne: "b_owner k \<noteq> d" using k(1) assms(4) by auto
    obtain st where st: "DelegatorState s (b_owner k) = Some st"
      using assms(2) k(1) by (auto simp: site_ok_def backed_def)
    let ?ac' = "filter (\<lambda>x. ac_delegator x \<noteq> b_owner k) ?ac"
    have ac': "AutoCompoundingDelegations s2 c = ?ac'"
      and world: "\<exists>st'. world s2 = relock cfg st' (world s)"
      and state: "DelegatorState s2 d = DelegatorState s d"
      using same ne st by (auto simp: kicked_out_def Let_def)
    have "ac_delegator ` set ?ac' \<subseteq> b_owner ` set_mset M - {b_owner k}" using ac(2) by auto
    from length_configs [OF key_sorted_filter [OF ac(1)] this]
    have "length ?ac' \<le> card (b_owner ` set_mset M - {b_owner k})" by simp
    also have "\<dots> < card (b_owner ` set_mset M)" by (rule psubset_card_mono) (use k(1) in auto)
    finally have "length ?ac' < add_get cfg"
      using card_owners_le [of M] full add_get_capacity [OF assms(5)] by simp
    moreover from world obtain st' where "world s2 = relock cfg st' (world s)" by blast
    from stakable_relock [OF assms(3) state this]
    have "get_delegator_stakable_balance cfg d s2 = get_delegator_stakable_balance cfg d s" .
    moreover have "Total s2 = Total s" "CandidateInfo s2 = CandidateInfo s" using same(1,3) by simp_all
    ultimately show ?thesis using state key_sorted_filter [OF ac(1)] unfolding ac' by blast
  qed
  then show "DelegatorState s2 d = DelegatorState s d" "Total s2 = Total s"
    "CandidateInfo s2 = CandidateInfo s"
    "get_delegator_stakable_balance cfg d s2 = get_delegator_stakable_balance cfg d s"
    "key_sorted ac_delegator (AutoCompoundingDelegations s2 c)"
    "length (AutoCompoundingDelegations s2 c) < add_get cfg" by blast+
qed

section \<open>The call\<close>

lemma joined_ok:
  assumes "newcomer_ok c d a M s"
    and "\<And>st. DelegatorState s d = Some st \<Longrightarrow> c \<notin> owners (d_delegations st)"
  shows "d \<notin> b_owner ` set_mset M" and "delegator_ok (joined c d a s)"
    and "d_id (joined c d a s) = d" and "a \<le> d_total (joined c d a s)"
    and "bond c a \<in> set (d_delegations (joined c d a s))"
    and "\<And>st. DelegatorState s d = Some st \<Longrightarrow>
      delegator_add_delegation (bond c a) st = (True, joined c d a s)"
proof -
  have "d \<notin> b_owner ` set_mset M \<and> delegator_ok (joined c d a s) \<and> d_id (joined c d a s) = d
    \<and> a \<le> d_total (joined c d a s) \<and> bond c a \<in> set (d_delegations (joined c d a s))
    \<and> (\<forall>st. DelegatorState s d = Some st \<longrightarrow>
        delegator_add_delegation (bond c a) st = (True, joined c d a s))"
  proof (cases "DelegatorState s d")
    case None
    then show ?thesis using assms(1) delegator_new_ok [of d c a]
      by (simp add: newcomer_ok_def joined_def delegator_new_def ordered_set_from_def)
  next
    case (Some st)
    then have st: "delegator_ok st" "d_total st + b_amount (bond c a) \<le> u128_max"
      using assms(1) by (auto simp: newcomer_ok_def)
    then have ks: "key_sorted b_owner (d_delegations st)" by (simp add: delegator_ok_def)
    from set_insert_fresh [OF ks, of "bond c a"] assms(2) [OF Some]
    obtain st' where add: "delegator_add_delegation (bond c a) st = (True, st')"
      by (auto simp: delegator_add_delegation_def)
    then have j: "joined c d a s = st'" by (simp add: joined_def Some)
    show ?thesis using delegator_add_ok [OF st add] assms(1) assms(2) [OF Some] add j Some
      by (auto simp: newcomer_ok_def)
  qed
  then show "d \<notin> b_owner ` set_mset M" "delegator_ok (joined c d a s)"
    "d_id (joined c d a s) = d" "a \<le> d_total (joined c d a s)"
    "bond c a \<in> set (d_delegations (joined c d a s))"
    "\<And>st. DelegatorState s d = Some st \<Longrightarrow>
      delegator_add_delegation (bond c a) st = (True, joined c d a s)" by blast+
qed

lemma wp_store_auto_compound:
  assumes "key_sorted ac_delegator (AutoCompoundingDelegations s c)"
    and "length (AutoCompoundingDelegations s c) < add_get cfg"
  obtains ac where "auto_compound_put cfg d v (AutoCompoundingDelegations s c) = Some ac"
    and "\<And>Q E. wp (store_auto_compound cfg c d v) Q E s =
      Q () (s\<lparr>AutoCompoundingDelegations := (AutoCompoundingDelegations s)(c := ac)\<rparr>)"
proof -
  obtain flag ac where put: "set_for_delegator cfg d v (AutoCompoundingDelegations s c) = Inr (flag, ac)"
    using assms(2)
    by (cases "set_for_delegator cfg d v (AutoCompoundingDelegations s c)")
      (auto simp: set_for_delegator_def split: sum.splits if_splits)
  then have "wp (store_auto_compound cfg c d v) Q E s =
      Q () (s\<lparr>AutoCompoundingDelegations := (AutoCompoundingDelegations s)(c := ac)\<rparr>)" for Q E
    by (simp add: store_auto_compound_def wp_simps)
  moreover have "auto_compound_put cfg d v (AutoCompoundingDelegations s c) = Some ac"
    using put by (simp add: auto_compound_put_def)
  ultimately show ?thesis using that by blast
qed

lemma wp_delegate:
  assumes "site_ok cfg c e M m s" and "params_ok cfg" and "locks_move_nothing cfg"
    and "newcomer_ok c d a M s"
    and "cm_bond m + sum_mset (image_mset b_amount M) + e + a \<le> u128_max"
    and "Total s + a \<le> u128_max"
  shows "wp (delegate_with_auto_compound_inner cfg c d a v count_hint auto_hint delegations_hint)
    (\<lambda>_ s'. can_delegate cfg c d a v count_hint auto_hint delegations_hint M s
       \<and> delegated cfg c d a v e M m s s')
    (\<lambda>_ s'. \<not> can_delegate cfg c d a v count_hint auto_hint delegations_hint M s \<and> s' = s) s"
proof -
  have site: "CandidateInfo s c = Some m" "stands cfg c e M m s" "\<forall>k. k \<in># M \<longrightarrow> backed c k s"
    "key_sorted ac_delegator (AutoCompoundingDelegations s c)"
    "ac_delegator ` set (AutoCompoundingDelegations s c) \<subseteq> b_owner ` set_mset M"
    using assms(1) by (auto simp: site_ok_def)
  let ?can = "can_delegate cfg c d a v count_hint auto_hint delegations_hint M s"
  let ?pre = "a \<le> get_delegator_stakable_balance cfg d s \<and> MinDelegation cfg \<le> a
     \<and> (case DelegatorState s d of
          None \<Rightarrow> CandidateInfo s d = None
        | Some st \<Rightarrow> length (d_delegations st) \<le> delegations_hint
            \<and> length (d_delegations st) < MaxDelegationsPerDelegator cfg
            \<and> c \<notin> owners (d_delegations st))
     \<and> size M \<le> count_hint
     \<and> (v \<noteq> 0 \<longrightarrow> length (AutoCompoundingDelegations s c) \<le> auto_hint)"
  let ?st = "joined c d a s"
  let ?rest = "\<lambda>m' pos less'. then_m (adjust_bond_lock cfg ?st (BondIncrease a))
    (bind_m (gets_m Total) (\<lambda>total. then_m
       (if v \<noteq> 0 then store_auto_compound cfg c d v else return_m ())
       (then_m (put_total (sat_add_u128 total (case less' of Some l \<Rightarrow> a - l | None \<Rightarrow> a)))
       (then_m (put_candidate_info c m')
       (then_m (put_delegator_state d ?st)
         (deposit_event (Delegation d a c pos v)))))))"
  let ?tail = "bind_m (add_delegation cfg c (bond d a) m) (\<lambda>(m', pos, less'). ?rest m' pos less')"
  obtain hi lo where held: "held cfg c e hi lo m s" and M: "M = mset hi + mset lo"
    using site(2) by (auto simp: stands_held)
  note p = ranked_parts [OF held_ranked(1) [OF held]]
  have count: "cm_delegation_count m = size M" by (simp add: held_cached [OF held] M)
  have cap: "size M \<le> u32_max" using p(8,9) assms(2) by (simp add: M params_ok_def)
  have "length (AutoCompoundingDelegations s c) \<le> size M"
    using length_configs [OF site(4,5)] card_owners_le [of M] by simp
  with cap have short: "as_u32 (length (AutoCompoundingDelegations s c))
      = length (AutoCompoundingDelegations s c)" by (simp add: as_u32_exact)
  have st: "as_u32 (length (d_delegations st)) = length (d_delegations st)"
      "c \<in> owners (d_delegations st) \<Longrightarrow> delegator_add_delegation (bond c a) st = (False, st)"
    if "DelegatorState s d = Some st" for st
    using that assms(4) set_insert_present [of b_owner "d_delegations st" "bond c a"]
    by (auto simp: newcomer_ok_def as_u32_exact delegator_ok_def delegator_add_delegation_def)
  note defs = delegate_with_auto_compound_inner_def wp_simps site(1) count short
    get_auto_compounding_delegation_count_def is_candidate_def Let_def
  have refused: "wp (delegate_with_auto_compound_inner cfg c d a v count_hint auto_hint delegations_hint)
      (\<lambda>_ _. False) (\<lambda>_ s'. s' = s) s" if "\<not> ?pre"
  proof (cases "DelegatorState s d")
    case None
    with that show ?thesis by (auto simp: defs)
  next
    case (Some st)
    with that st [OF Some] joined_ok(6) [OF assms(4) _ Some] show ?thesis 
      by (cases "c \<in> owners (d_delegations st)") (auto simp: defs)
  qed
  have run: "wp (delegate_with_auto_compound_inner cfg c d a v count_hint auto_hint delegations_hint) Q E s
      = wp ?tail Q E s" if "?pre" for Q E
  proof (cases "DelegatorState s d")
    case None
    with that have "joined c d a s = delegator_new d c a" by (simp add: joined_def)
    with None that show ?thesis by (simp add: defs)
  next
    case (Some st)
    with that st [OF Some] joined_ok(6) [OF assms(4) _ Some] show ?thesis by (simp add: defs)
  qed
  show ?thesis
  proof (cases ?pre)
    case False
    then have "\<not> ?can" by (auto simp: can_delegate_def)
    then show ?thesis by (intro wp_mono [OF refused [OF False]]) simp_all
  next
    case True
    note j = joined_ok [OF assms(4)]
    have fresh: "c \<notin> owners (d_delegations st)" if "DelegatorState s d = Some st" for st
      using True that by simp
    have new: "b_owner (bond d a) \<notin> b_owner ` set_mset M" using j(1) [OF fresh] by simp
    have room: "cm_bond m + sum_mset (image_mset b_amount M) + e + b_amount (bond d a) \<le> u128_max"
      using assms(5) by simp
    have rest: "wp (?rest m' pos less') (\<lambda>_ s'. ?can \<and> delegated cfg c d a v e M m s s')
        (\<lambda>_ s'. \<not> ?can \<and> s' = s) s2"
      if "entered cfg c e M (bond d a) m s m' less' s2" "position_reported m m' pos" for m' pos less' s2
    proof -
      have "size M < book_capacity cfg \<or> (\<exists>y. y \<in># M \<and> b_amount y < a)"
        using that(1) by (auto simp: entered_def split: option.splits)
      then have can: ?can using True by (simp add: can_delegate_def)
      note fr = entered_frame [OF that(1) assms(1,3) j(1) [OF fresh] assms(2)]
      have net: "sat_add_u128 (Total s) (case less' of Some l \<Rightarrow> a - l | None \<Rightarrow> a)
          = Total s + (case less' of None \<Rightarrow> a | Some l \<Rightarrow> a - l)"
        using assms(6) by (auto simp: sat_add_u128_exact split: option.split)
      have lock: "\<not> get_delegator_stakable_balance cfg (d_id ?st) s2 < a" "\<not> d_total ?st < a"
        using True fr(4) j(3,4) [OF fresh] by (simp_all add: not_less)
      show ?thesis
      proof (cases "v = 0")
        case zero: True
        have "delegated cfg c d a v e M m s (s2\<lparr>world := relock cfg ?st (world s2),
             Total := Total s + (case less' of None \<Rightarrow> a | Some l \<Rightarrow> a - l),
             CandidateInfo := (CandidateInfo s)(c \<mapsto> m'),
             DelegatorState := (DelegatorState s2)(d \<mapsto> ?st),
             Events := Events s2 @ [Delegation d a c pos v]\<rparr>)"
          unfolding delegated_def
          by (intro exI [of _ m'] exI [of _ pos] exI [of _ less'] exI [of _ s2]
              exI [of _ "AutoCompoundingDelegations s2 c"]) (use that zero in simp)
        then show ?thesis using can lock by (simp add: wp_simps fr(2,3) net zero)
      next
        case False
        let ?s = "s2\<lparr>world := relock cfg ?st (world s2)\<rparr>"
        from wp_store_auto_compound [of ?s c cfg d v] fr(5,6) obtain ac where
          ac: "auto_compound_put cfg d v (AutoCompoundingDelegations s2 c) = Some ac"
          "\<And>Q E. wp (store_auto_compound cfg c d v) Q E ?s =
            Q () (?s\<lparr>AutoCompoundingDelegations := (AutoCompoundingDelegations s2)(c := ac)\<rparr>)"
          by auto
        have "delegated cfg c d a v e M m s (s2\<lparr>world := relock cfg ?st (world s2),
             AutoCompoundingDelegations := (AutoCompoundingDelegations s2)(c := ac),
             Total := Total s + (case less' of None \<Rightarrow> a | Some l \<Rightarrow> a - l),
             CandidateInfo := (CandidateInfo s)(c \<mapsto> m'),
             DelegatorState := (DelegatorState s2)(d \<mapsto> ?st),
             Events := Events s2 @ [Delegation d a c pos v]\<rparr>)"
          unfolding delegated_def
          by (intro exI [of _ m'] exI [of _ pos] exI [of _ less'] exI [of _ s2] exI [of _ ac])
            (use that False ac(1) in simp)
        then show ?thesis using can lock False by (simp add: wp_simps fr(2,3) net ac(2))
      qed
    qed
    show ?thesis unfolding run [OF True]
    proof (rule wp_bindI [OF add_delegation_enters [OF site(2) assms(2) new room site(3)]], goal_cases)
      case (1 x t)
      then show ?case by (clarify) (rule rest)
    next
      case (2 er t)
      then show ?case by (auto simp: can_delegate_def not_less)
    qed
  qed
qed

section \<open>The candidate afterwards\<close>

lemma stands_distinct:
  assumes "stands cfg c e M m s" and "x \<in># M" and "y \<in># M - {#x#}"
  shows "b_owner y \<noteq> b_owner x"
proof -
  obtain hi lo where held: "held cfg c e hi lo m s" and M: "M = mset (hi @ lo)"
    using assms(1) by (auto simp: stands_held)
  have dist: "distinct (map b_owner (hi @ lo))" by (rule ranked_parts(7) [OF held_ranked(1) [OF held]])
  have x: "x \<in> set (hi @ lo)" using assms(2) unfolding M by simp
  have "M - {#x#} = mset (without (b_owner x) (hi @ lo))"
    unfolding M using mset_book_without [OF dist x] by simp
  with assms(3) show ?thesis by auto
qed

lemma configs_domain:
  assumes "key_sorted ac_delegator xs"
  shows "d \<in> ac_delegator ` set xs \<longleftrightarrow> get_for_delegator d xs \<noteq> None"
  using assms by (simp add: get_for_delegator_eq by_key_None_iff)

lemma put_domain:
  assumes "key_sorted ac_delegator xs" and "auto_compound_put cfg d v xs = Some ys"
  shows "key_sorted ac_delegator ys" and "ac_delegator ` set ys = insert d (ac_delegator ` set xs)"
proof -
  note put = auto_compound_put_cases [OF assms(1), of d cfg v]
  show ks: "key_sorted ac_delegator ys" using put assms(2) by blast
  show "ac_delegator ` set ys = insert d (ac_delegator ` set xs)"
  proof (rule set_eqI)
    fix k
    show "k \<in> ac_delegator ` set ys \<longleftrightarrow> k \<in> insert d (ac_delegator ` set xs)"
      using put assms(2) configs_domain [OF assms(1), of k] configs_domain [OF ks, of k]
      by (cases "k = d") auto
  qed
qed

lemma entered_others:
  assumes "entered cfg c e M (bond d a) m s m' less' s2" and "site_ok cfg c e M m s"
    and "d \<notin> b_owner ` set_mset M"
  obtains M' where "stands cfg c e (add_mset (bond d a) M') m' s2"
    and "M' \<subseteq># M \<and> size M \<le> Suc (size M') \<and> (size M < book_capacity cfg \<longrightarrow> M' = M)"
    and "\<forall>k. k \<in># M' \<longrightarrow> backed c k s2" and "requests_ok (DelegationScheduledRequests s2 c)"
    and "key_sorted ac_delegator (AutoCompoundingDelegations s2 c)"
    and "ac_delegator ` set (AutoCompoundingDelegations s2 c) \<subseteq> b_owner ` set_mset M'"
proof (cases less')
  case None
  then have st: "stands cfg c e (add_mset (bond d a) M) m' s2" and only: "only_candidate c s s2"
    using assms(1) by (auto simp: entered_def reached_def)
  note same = only_candidate_fields [OF only]
  show ?thesis using assms(1,2) by (intro that [OF st]) (auto simp: site_ok_def backed_def same)
next
  case (Some l)
  then obtain k where k: "k \<in># M" "stands cfg c e (add_mset (bond d a) (M - {#k#})) m' s2"
    "only_candidate c (kicked_out cfg c k s) s2" and full: "size M = book_capacity cfg"
    using assms(1) by (auto simp: entered_def reached_def)
  note same = only_candidate_fields [OF k(3)]
  have site: "stands cfg c e M m s" "\<And>k. k \<in># M \<Longrightarrow> backed c k s"
    "requests_ok (DelegationScheduledRequests s c)"
    "key_sorted ac_delegator (AutoCompoundingDelegations s c)"
    "ac_delegator ` set (AutoCompoundingDelegations s c) \<subseteq> b_owner ` set_mset M"
    using assms(2) by (auto simp: site_ok_def)
  obtain st where st: "DelegatorState s (b_owner k) = Some st" using site(2) [OF k(1)] by (auto simp: backed_def)
  have rq: "DelegationScheduledRequests s2 c
      = filter (\<lambda>req. sr_delegator req \<noteq> b_owner k) (DelegationScheduledRequests s c)"
    and ac: "AutoCompoundingDelegations s2 c
      = filter (\<lambda>x. ac_delegator x \<noteq> b_owner k) (AutoCompoundingDelegations s c)"
    and dl: "\<And>d'. d' \<noteq> b_owner k \<Longrightarrow> DelegatorState s2 d' = DelegatorState s d'"
    unfolding same using st by (simp_all add: kicked_out_def Let_def)
  have bk: "\<forall>k'. k' \<in># M - {#k#} \<longrightarrow> backed c k' s2"
    using site(2) [OF in_diffD] dl [OF stands_distinct [OF site(1) k(1)]]
    by (auto simp: backed_def rq ac requests_ok_filter key_sorted_filter)
  have sub: "ac_delegator ` set (AutoCompoundingDelegations s2 c) \<subseteq> b_owner ` set_mset (M - {#k#})"
  proof
    fix d' assume "d' \<in> ac_delegator ` set (AutoCompoundingDelegations s2 c)"
    then have "d' \<in> b_owner ` set_mset M" "d' \<noteq> b_owner k" using site(5) by (auto simp: ac)
    then obtain y where "y \<in># M" "b_owner y = d'" "y \<noteq> k" by auto
    then show "d' \<in> b_owner ` set_mset (M - {#k#})"
      by (metis image_eqI in_diff_count count_single count_greater_zero_iff)
  qed
  show ?thesis
    by (rule that [OF k(2) _ bk _ _ sub])
      (simp_all add: rq ac requests_ok_filter key_sorted_filter site(3,4) full size_Diff_singleton k(1))
qed

lemma delegated_site:
  assumes "delegated cfg c d a v e M m s s'" and "site_ok cfg c e M m s" and "newcomer_ok c d a M s"
    and "\<And>st. DelegatorState s d = Some st \<Longrightarrow> c \<notin> owners (d_delegations st)"
  shows "\<exists>M' m'. (M' \<subseteq># M \<and> size M \<le> Suc (size M') \<and> (size M < book_capacity cfg \<longrightarrow> M' = M))
    \<and> site_ok cfg c e (add_mset (bond d a) M') m' s'
    \<and> linked cfg c d a e (add_mset (bond d a) M') m' (joined c d a s) s'"
proof -
  note j = joined_ok [OF assms(3,4)]
  from assms(1) obtain m' pos less' s2 ac where ent: "entered cfg c e M (bond d a) m s m' less' s2"
    and ac: "if v = 0 then ac = AutoCompoundingDelegations s2 c
           else auto_compound_put cfg d v (AutoCompoundingDelegations s2 c) = Some ac"
    and s': "s' = s2\<lparr>world := relock cfg (joined c d a s) (world s2),
             AutoCompoundingDelegations := (AutoCompoundingDelegations s2)(c := ac),
             Total := Total s + (case less' of None \<Rightarrow> a | Some l \<Rightarrow> a - l),
             CandidateInfo := (CandidateInfo s)(c \<mapsto> m'),
             DelegatorState := (DelegatorState s2)(d \<mapsto> joined c d a s),
             Events := Events s2 @ [Delegation d a c pos v]\<rparr>"
    by (auto simp: delegated_def)
  obtain M' where
    M': "stands cfg c e (add_mset (bond d a) M') m' s2"
      "M' \<subseteq># M \<and> size M \<le> Suc (size M') \<and> (size M < book_capacity cfg \<longrightarrow> M' = M)"
      "\<forall>k. k \<in># M' \<longrightarrow> backed c k s2" "requests_ok (DelegationScheduledRequests s2 c)"
      "key_sorted ac_delegator (AutoCompoundingDelegations s2 c)"
      "ac_delegator ` set (AutoCompoundingDelegations s2 c) \<subseteq> b_owner ` set_mset M'"
    by (rule entered_others [OF ent assms(2) j(1)])
  have ac': "key_sorted ac_delegator ac"
    "ac_delegator ` set ac \<subseteq> insert d (b_owner ` set_mset M')"
    using ac M'(5,6) put_domain [OF M'(5), of cfg d v ac] by (auto split: if_splits)
  have ne: "b_owner k \<noteq> d" if "k \<in># M'" for k
    using mset_subset_eqD [OF M'(2) [THEN conjunct1] that] j(1) by auto
  have bk: "backed c k s'" if "k \<in># add_mset (bond d a) M'" for k
  proof (cases "k \<in># M'")
    case True
    then show ?thesis using M'(3) ne [OF True] ac'(1) by (auto simp: backed_def s')
  next
    case False
    with that have "k = bond d a" by simp
    with j(2,5) M'(4) ac'(1) show ?thesis by (simp add: backed_def s')
  qed
  have st: "stands cfg c e (add_mset (bond d a) M') m' s'" using M'(1) by (simp add: s')
  have "site_ok cfg c e (add_mset (bond d a) M') m' s'"
    unfolding site_ok_def using st bk ac' M'(4) by (simp add: s')
  moreover have "linked cfg c d a e (add_mset (bond d a) M') m' (joined c d a s) s'"
    unfolding linked_def using st j(2,3,5) M'(4) ac'(1) by (simp add: s')
  ultimately show ?thesis using M'(2) by blast
qed

end
