(* ===== verification/Lifecycle.thy ===== *)
theory Lifecycle
  imports Delegating Calls
begin

text \<open>
  The life of a candidate: joining, going offline and back, changing the self bond, and leaving
  with the stake of every delegator returned. Each entry point is reduced to its guards and to
  the storage it leaves.
\<close>

section \<open>The pool\<close>

lemma key_sorted_unique:
  assumes "key_sorted key xs" and "key_sorted key ys" and "set xs = set ys"
  shows "xs = ys"
proof -
  have "map key xs = map key ys"
    using assms by (intro strict_sorted_equal) (simp_all add: key_sorted_def)
  moreover have "inj_on key (set xs \<union> set ys)"
    using key_sorted_distinct [OF assms(1)] assms(3) by (simp add: distinct_map)
  ultimately show ?thesis by (rule map_inj_on)
qed

lemma wp_pool_insert:
  assumes "pool_ok cfg pool"
  shows "wp (pool_insert cfg (bond c a) pool already) Q E s =
    (if c \<in> owners pool then E (Module already) s
     else if length pool < MaxCandidates cfg
     then Q (replace_by_key b_owner (bond c a) pool) s
     else E (Module CandidateLimitReached) s)"
proof -
  have ks: "key_sorted b_owner pool" using assms by (simp add: pool_ok_def)
  show ?thesis
  proof (cases "c \<in> owners pool")
    case True
    then have "ordered_set_insert b_owner (bond c a) pool = (False, pool)"
      using set_insert_present [OF ks, of "bond c a"] by simp
    with True show ?thesis
      by (simp add: pool_insert_def bounded_try_insert_eq wp_simps)
  next
    case False
    then obtain ys where "ordered_set_insert b_owner (bond c a) pool = (True, ys)"
      using set_insert_fresh [OF ks, of "bond c a"] by auto
    moreover have "without c pool = pool" using False by (auto simp: filter_id_conv)
    ultimately show ?thesis using False
      by (simp add: pool_insert_def bounded_try_insert_eq wp_simps replace_by_key_def
          set_remove_filter [OF ks])
  qed
qed

lemma pool_insert_ok:
  assumes "pool_ok cfg pool" and "c \<notin> owners pool" and "length pool < MaxCandidates cfg"
  shows "pool_ok cfg (replace_by_key b_owner (bond c a) pool)"
    and "pool_lookup (replace_by_key b_owner (bond c a) pool) = (pool_lookup pool)(c \<mapsto> a)"
proof -
  have ks: "key_sorted b_owner pool" using assms(1) by (simp add: pool_ok_def)
  have "without c pool = pool" using assms(2) by (auto simp: filter_id_conv)
  with assms(3) have put: "pool_put cfg c a pool = Some (replace_by_key b_owner (bond c a) pool)"
    by (simp add: pool_put_eq [OF ks])
  show "pool_ok cfg (replace_by_key b_owner (bond c a) pool)"
    by (rule candidate_pool.inv_upd [OF assms(1) put])
  show "pool_lookup (replace_by_key b_owner (bond c a) pool) = (pool_lookup pool)(c \<mapsto> a)"
    by (rule candidate_pool.lookup_upd [OF assms(1) put])
qed

lemma wp_pool_drop:
  assumes "pool_ok cfg (CandidatePool s)"
  shows "wp (pool_drop c (CandidatePool s)) Q E s =
    Q () (s\<lparr>CandidatePool := without c (CandidatePool s)\<rparr>)"
proof -
  have ks: "key_sorted b_owner (CandidatePool s)" using assms by (simp add: pool_ok_def)
  have "without c (CandidatePool s) = CandidatePool s" if "c \<notin> owners (CandidatePool s)"
    using that by (auto simp: filter_id_conv)
  then show ?thesis
    using set_remove_filter [OF ks, of c]
    by (simp add: pool_drop_def bounded_remove_eq bond_from_owner_def wp_simps)
qed

lemma pool_ok_without:
  assumes "pool_ok cfg pool"
  shows "pool_ok cfg (without c pool)"
    and "pool_lookup (without c pool) = (pool_lookup pool)(c := None)"
proof -
  have ks: "key_sorted b_owner pool" using assms by (simp add: pool_ok_def)
  have eq: "without c pool = snd (bounded_remove b_owner c pool)"
    by (simp add: bounded_remove_eq set_remove_filter [OF ks])
  show "pool_ok cfg (without c pool)" unfolding eq by (rule candidate_pool.inv_del [OF assms])
  show "pool_lookup (without c pool) = (pool_lookup pool)(c := None)"
    unfolding eq by (rule candidate_pool.lookup_del [OF assms])
qed

text \<open>Taking a member out and putting it back gives the pool again.\<close>

lemma pool_back:
  assumes "pool_ok cfg pool" and "pool_lookup pool c = Some a"
  shows "replace_by_key b_owner (bond c a) (without c pool) = pool"
    and "c \<notin> owners (without c pool)" and "length (without c pool) < MaxCandidates cfg"
proof -
  have ks: "key_sorted b_owner pool" using assms(1) by (simp add: pool_ok_def)
  obtain x where x: "by_key b_owner pool c = Some x" "b_amount x = a"
    using assms(2) by (auto simp: pool_lookup_def)
  then have "x \<in> set pool" "b_owner x = c"
    using by_key_Some_iff [OF key_sorted_distinct [OF ks], of c x] by auto
  moreover from this x(2) have "x = bond c a" by simp
  ultimately have mem: "bond c a \<in> set pool" by simp
  have same: "x = bond c a" if "x \<in> set pool" "b_owner x = c" for x
    using that mem key_sorted_distinct [OF ks] inj_onD [of b_owner "set pool" x "bond c a"]
    by (simp add: distinct_map)
  have "set (replace_by_key b_owner (bond c a) (without c pool)) = insert (bond c a) {x \<in> set pool. b_owner x \<noteq> c}"
    by (auto simp: replace_by_key_props(3) [OF key_sorted_filter [OF ks]])
  also have "\<dots> = set pool" using mem same by blast
  finally have "set (replace_by_key b_owner (bond c a) (without c pool)) = set pool" .
  then show "replace_by_key b_owner (bond c a) (without c pool) = pool"
    by (intro key_sorted_unique [OF _ ks]) (simp add: replace_by_key_props(1) key_sorted_filter [OF ks])
  show "c \<notin> owners (without c pool)" by auto
  have "c \<in> owners pool" using assms(2) pool_lookup_present [of pool c] by simp
  from length_without_present [OF ks this] show "length (without c pool) < MaxCandidates cfg"
    using assms(1) by (simp add: pool_ok_def)
qed

section \<open>Signed calls\<close>

lemma signed_call [simp]: "bind_m (ensure_signed (Signed c)) f = f c"
  by (simp add: fun_eq_iff bind_m_def return_m_def)

section \<open>Joining\<close>

definition can_join :: "'w config \<Rightarrow> AccountId \<Rightarrow> Balance \<Rightarrow> nat \<Rightarrow> 'w staking \<Rightarrow> bool" where
  "can_join cfg acc bond' count_hint s \<longleftrightarrow>
     MinCandidateStk cfg \<le> bond' \<and> CandidateInfo s acc = None \<and> DelegatorState s acc = None
     \<and> length (CandidatePool s) \<le> count_hint \<and> acc \<notin> owners (CandidatePool s)
     \<and> length (CandidatePool s) < MaxCandidates cfg
     \<and> bond' \<le> free_balance cfg (world s) acc"

definition has_joined :: "'w config \<Rightarrow> AccountId \<Rightarrow> Balance \<Rightarrow> 'w staking \<Rightarrow> 'w staking" where
  "has_joined cfg acc bond' s = s\<lparr>
     world := set_lock cfg COLLATOR_LOCK_ID acc bond' (world s),
     CandidateInfo := (CandidateInfo s)(acc \<mapsto> candidate_new bond'),
     TopDelegations := (TopDelegations s)(acc \<mapsto> delegations_default),
     BottomDelegations := (BottomDelegations s)(acc \<mapsto> delegations_default),
     CandidatePool := replace_by_key b_owner (bond acc bond') (CandidatePool s),
     Total := sat_add_u128 (Total s) bond',
     Events := Events s @ [JoinedCollatorCandidates acc bond' (sat_add_u128 (Total s) bond')]\<rparr>"

text \<open>The part that a forced join shares: everything but the minimal bond.\<close>

lemma wp_join_inner:
  assumes "pool_ok cfg (CandidatePool s)" and "MaxCandidates cfg \<le> u32_max"
  shows "wp (join_candidates_inner cfg acc bond' count_hint) Q E s =
    (if CandidateInfo s acc \<noteq> None then E (Module CandidateExists) s
     else if DelegatorState s acc \<noteq> None then E (Module DelegatorExists) s
     else if count_hint < length (CandidatePool s)
       then E (Module TooLowCandidateCountWeightHintJoinCandidates) s
     else if acc \<in> owners (CandidatePool s) then E (Module CandidateExists) s
     else if \<not> length (CandidatePool s) < MaxCandidates cfg then E (Module CandidateLimitReached) s
     else if free_balance cfg (world s) acc < bond' then E (Module InsufficientBalance) s
     else Q () (has_joined cfg acc bond' s))"
proof -
  have "length (CandidatePool s) \<le> u32_max" using assms by (simp add: pool_ok_def)
  then have len: "as_u32 (length (CandidatePool s)) = length (CandidatePool s)"
    by (simp add: as_u32_exact)
  show ?thesis
    by (auto simp: join_candidates_inner_def wp_simps Let_def is_candidate_def is_delegator_def len
        get_collator_stakable_free_balance_def wp_pool_insert [OF assms(1)] has_joined_def)
qed

lemma wp_join:
  assumes "pool_ok cfg (CandidatePool s)" and "MaxCandidates cfg \<le> u32_max"
  shows "wp (join_candidates cfg (Signed acc) bond' count_hint)
    (\<lambda>_ s'. can_join cfg acc bond' count_hint s \<and> s' = has_joined cfg acc bond' s)
    (\<lambda>_ s'. \<not> can_join cfg acc bond' count_hint s \<and> s' = s) s"
  by (auto simp: join_candidates_def wp_simps wp_join_inner [OF assms] can_join_def)

lemma has_joined_stands:
  assumes "pool_ok cfg (CandidatePool s)" and "acc \<notin> owners (CandidatePool s)"
    and "length (CandidatePool s) < MaxCandidates cfg" and "bond' \<le> u128_max" and "params_ok cfg"
  shows "stands cfg acc 0 {#} (candidate_new bond') (has_joined cfg acc bond' s)"
proof -
  note pool = pool_insert_ok [OF assms(1-3), of bond']
  have "candidate_ok cfg 0 (candidate_new bond') delegations_default delegations_default"
    using assms(4,5) by (simp add: candidate_ok_def ranked_def candidate_new_def delegations_default_def
      top_capacity_def bottom_capacity_def as_u32_def lowest_delegation_amount_def
      highest_delegation_amount_def params_ok_def)
  then show ?thesis using pool
    by (simp add: stands_def has_joined_def pool_at_def delegations_default_def candidate_new_def)
qed

section \<open>Leaving the pool and coming back\<close>

lemma active_status: "is_active m \<Longrightarrow> m\<lparr>cm_status := Active\<rparr> = m"
  by (intro CandidateMetadata.equality) (auto simp: is_active_def split: CollatorStatus.splits)

lemma wp_go_offline:
  assumes "CandidateInfo s c = Some m" and "pool_ok cfg (CandidatePool s)"
  shows "wp (go_offline_inner c) Q E s =
    (if is_active m
     then Q () (s\<lparr>CandidatePool := without c (CandidatePool s),
       CandidateInfo := (CandidateInfo s)(c \<mapsto> m\<lparr>cm_status := Idle\<rparr>),
       Events := Events s @ [CandidateWentOffline c]\<rparr>)
     else E (Module AlreadyOffline) s)"
  using assms
  by (simp add: go_offline_inner_def wp_simps Let_def go_offline_def wp_pool_drop [OF assms(2)])

lemma wp_go_online:
  assumes "CandidateInfo s c = Some m" and "pool_ok cfg (CandidatePool s)" and "cm_status m = Idle"
    and "c \<notin> owners (CandidatePool s)"
  shows "wp (go_online_inner cfg c) Q E s =
    (if length (CandidatePool s) < MaxCandidates cfg
     then Q () (s\<lparr>CandidatePool := replace_by_key b_owner (bond c (cm_total_counted m)) (CandidatePool s),
       CandidateInfo := (CandidateInfo s)(c \<mapsto> m\<lparr>cm_status := Active\<rparr>),
       Events := Events s @ [CandidateBackOnline c]\<rparr>)
     else E (Module CandidateLimitReached) s)"
  using assms
  by (simp add: go_online_inner_def wp_simps Let_def go_online_def is_active_def is_leaving_def
      wp_pool_insert [OF assms(2)])

lemma offline_and_back:
  assumes "CandidateInfo s c = Some m" and "is_active m" and "pool_ok cfg (CandidatePool s)"
    and "pool_lookup (CandidatePool s) c = Some (cm_total_counted m)"
  shows "\<exists>s1. go_offline_inner c s = (Ok (), s1) \<and> pool_lookup (CandidatePool s1) c = None
    \<and> go_online_inner cfg c s1
      = (Ok (), s\<lparr>Events := Events s @ [CandidateWentOffline c, CandidateBackOnline c]\<rparr>)"
proof -
  note pool = pool_ok_without [OF assms(3), of c]
  note restored = pool_back [OF assms(3,4)]
  let ?s1 = "s\<lparr>CandidatePool := without c (CandidatePool s),
       CandidateInfo := (CandidateInfo s)(c \<mapsto> m\<lparr>cm_status := Idle\<rparr>),
       Events := Events s @ [CandidateWentOffline c]\<rparr>"
  have "wp (go_offline_inner c) (\<lambda>_ t. t = ?s1) (\<lambda>_ _. False) s"
    using assms(2) by (simp add: wp_go_offline [OF assms(1,3)])
  then have off: "go_offline_inner c s = (Ok (), ?s1)" by (auto simp: wp_iff)
  have "wp (go_online_inner cfg c) (\<lambda>_ t. t = s\<lparr>Events := Events s
      @ [CandidateWentOffline c, CandidateBackOnline c]\<rparr>) (\<lambda>_ _. False) ?s1"
    using restored assms(1) active_status [OF assms(2)]
    by (subst wp_go_online [where m = "m\<lparr>cm_status := Idle\<rparr>"]) (simp_all add: pool(1) fun_upd_idem)
  then have "go_online_inner cfg c ?s1 = (Ok (), s\<lparr>Events := Events s
      @ [CandidateWentOffline c, CandidateBackOnline c]\<rparr>)" by (auto simp: wp_iff)
  with off pool show ?thesis by (intro exI [of _ ?s1]) simp
qed

text \<open>Scheduling the exit takes the candidate out of the pool; cancelling it puts it back.\<close>

lemma exit_and_back:
  assumes "CandidateInfo s c = Some m" and "is_active m" and "pool_ok cfg (CandidatePool s)"
    and "pool_lookup (CandidatePool s) c = Some (cm_total_counted m)"
    and "MaxCandidates cfg \<le> u32_max" and "length (CandidatePool s) \<le> hint"
    and "r_current (Round s) + LeaveCandidatesDelay cfg \<le> u32_max"
  shows "\<exists>s1 m1. schedule_leave_candidates cfg (Signed c) hint s = (Ok (), s1)
    \<and> pool_lookup (CandidatePool s1) c = None \<and> CandidateInfo s1 c = Some m1
    \<and> cm_status m1 = Leaving (r_current (Round s) + LeaveCandidatesDelay cfg)
    \<and> cancel_leave_candidates cfg (Signed c) hint s1
      = (Ok (), s\<lparr>Events := Events s @ [CandidateScheduledExit (r_current (Round s)) c
          (r_current (Round s) + LeaveCandidatesDelay cfg), CancelledCandidateExit c]\<rparr>)"
proof -
  let ?due = "r_current (Round s) + LeaveCandidatesDelay cfg"
  let ?m1 = "m\<lparr>cm_status := Leaving ?due\<rparr>"
  let ?s1 = "s\<lparr>CandidatePool := without c (CandidatePool s), CandidateInfo := (CandidateInfo s)(c \<mapsto> ?m1),
       Events := Events s @ [CandidateScheduledExit (r_current (Round s)) c ?due]\<rparr>"
  let ?s2 = "s\<lparr>Events := Events s @ [CandidateScheduledExit (r_current (Round s)) c ?due,
    CancelledCandidateExit c]\<rparr>"
  note pool = pool_ok_without [OF assms(3), of c]
  note restored = pool_back [OF assms(3,4)]
  have len: "length (CandidatePool s) \<le> u32_max" "length (without c (CandidatePool s)) \<le> u32_max"
    using assms(3,5) restored(3) by (auto simp: pool_ok_def)
  have le: "length (without c (CandidatePool s)) \<le> hint"
    using assms(6) le_trans [OF length_filter_le] by blast
  have "wp (schedule_leave_candidates cfg (Signed c) hint) (\<lambda>_ t. t = ?s1) (\<lambda>_ _. False) s"
    using assms(1,2,6,7) len(1)
    by (auto simp: schedule_leave_candidates_def schedule_leave_def wp_simps Let_def as_u32_exact
        wrap_add_u32_exact wp_pool_drop [OF assms(3)] is_leaving_def is_active_def
        split: CollatorStatus.splits)
  then have out: "schedule_leave_candidates cfg (Signed c) hint s = (Ok (), ?s1)" by (auto simp: wp_iff)
  have "wp (cancel_leave_candidates cfg (Signed c) hint) (\<lambda>_ t. t = ?s2) (\<lambda>_ _. False) ?s1"
    using pool restored le len(2) active_status [OF assms(2)] assms(1)
    by (simp add: cancel_leave_candidates_def wp_simps Let_def as_u32_exact is_leaving_def go_online_def
        wp_pool_insert fun_upd_idem)
  then have "cancel_leave_candidates cfg (Signed c) hint ?s1 = (Ok (), ?s2)" by (auto simp: wp_iff)
  with out pool show ?thesis by (intro exI [of _ ?s1] exI [of _ ?m1]) simp
qed

section \<open>The self bond\<close>

definition with_bond :: "Balance \<Rightarrow> CandidateMetadata \<Rightarrow> CandidateMetadata" where
  "with_bond v m = m\<lparr>cm_bond := v, cm_total_counted := cm_total_counted m - cm_bond m + v\<rparr>"

text \<open>A candidate whose self bond becomes \<open>v\<close>, with its entry in the pool.\<close>

definition self_bonded ::
  "AccountId \<Rightarrow> CandidateMetadata \<Rightarrow> CandidateMetadata \<Rightarrow> 'w staking \<Rightarrow> 'w staking" where
  "self_bonded c m m' s = s\<lparr>CandidateInfo := (CandidateInfo s)(c \<mapsto> m'),
     CandidatePool := (if is_active m
       then replace_by_key b_owner (bond c (cm_total_counted m')) (CandidatePool s)
       else CandidatePool s)\<rparr>"

lemma stands_parts:
  assumes "stands cfg c e M m s"
  shows "pool_at cfg c m (CandidatePool s)" and "cm_bond m \<le> cm_total_counted m"
    and "cm_total_counted m \<le> u128_max"
    and "cm_bond m + sum_mset (image_mset b_amount M) + e \<le> u128_max"
proof -
  obtain hi lo where held: "held cfg c e hi lo m s" and M: "M = mset hi + mset lo"
    using assms by (auto simp: stands_held)
  note h = held_ranked [OF held]
  show "pool_at cfg c m (CandidatePool s)" by (rule h(4))
  show "cm_bond m \<le> cm_total_counted m" "cm_total_counted m \<le> u128_max"
    using h(5) by (simp_all add: held_cached [OF held])
  show "cm_bond m + sum_mset (image_mset b_amount M) + e \<le> u128_max"
    using h(5) by (simp add: M flip: sum_mset_sum_list)
qed

lemma self_bonded_stands:
  assumes "stands cfg c e M m s" and "v + sum_mset (image_mset b_amount M) + e \<le> u128_max"
    and "m' = (with_bond v m)\<lparr>cm_request := req\<rparr>"
    and "CandidatePool s' = CandidatePool (self_bonded c m m' s)"
    and "TopDelegations s' = TopDelegations s" "BottomDelegations s' = BottomDelegations s"
  shows "stands cfg c e M m' s'"
proof -
  obtain t b where tb: "TopDelegations s c = Some t" "BottomDelegations s c = Some b"
    "candidate_ok cfg e m t b" "book t b = M" and at: "pool_at cfg c m (CandidatePool s)"
    using assms(1) by (auto simp: stands_def)
  have sum: "amounts (ds_delegations t) + amounts (ds_delegations b)
      = sum_mset (image_mset b_amount M)"
    unfolding tb(4) [symmetric] by (simp flip: sum_mset_sum_list)
  have ok: "candidate_ok cfg e m' t b"
    using tb(3) assms(2) sum by (simp add: candidate_ok_def assms(3) with_bond_def)
  have act: "is_active m' = is_active m" by (simp add: assms(3) with_bond_def is_active_def)
  have "pool_at cfg c m' (CandidatePool (self_bonded c m m' s))"
  proof (cases "is_active m")
    case True
    then have ks: "key_sorted b_owner (CandidatePool s)" and own: "c \<in> owners (CandidatePool s)"
      and pok: "pool_ok cfg (CandidatePool s)"
      using at pool_lookup_present [of "CandidatePool s" c] by (auto simp: pool_at_def pool_ok_def)
    from candidate_pool.inv_upd [OF pok pool_put_present [OF pok own]]
    show ?thesis using True act
      by (simp add: pool_at_def self_bonded_def pool_lookup_replace [OF ks])
  next
    case False
    with at act show ?thesis by (simp add: pool_at_def self_bonded_def)
  qed
  with tb ok assms(4-6) show ?thesis by (simp add: stands_def)
qed

lemma wp_candidate_bond_more:
  assumes "CandidateInfo s c = Some m" and "stands cfg c e M m s"
    and "cm_bond m + sum_mset (image_mset b_amount M) + e + x \<le> u128_max"
  shows "wp (candidate_bond_more_inner cfg c x) Q E s =
    (if x \<le> free_balance cfg (world s) c - cm_bond m
     then Q () (self_bonded c m (with_bond (cm_bond m + x) m)
       (s\<lparr>Total := sat_add_u128 (Total s) x,
          world := set_lock cfg COLLATOR_LOCK_ID c (cm_bond m + x) (world s),
          Events := Events s @ [CandidateBondedMore c x (cm_bond m + x)]\<rparr>))
     else E (Module InsufficientBalance) s)"
proof -
  note parts = stands_parts [OF assms(2)]
  obtain hi lo where held: "held cfg c e hi lo m s" and M: "M = mset hi + mset lo"
    using assms(2) by (auto simp: stands_held)
  have "cm_bond m + amounts hi + amounts lo + e + x \<le> u128_max"
    using assms(3) unfolding M by (simp flip: sum_mset_sum_list)
  then have fits: "cm_bond m + x \<le> u128_max" "cm_total_counted m + x \<le> u128_max"
    by (simp_all add: held_cached [OF held])
  have m': "m\<lparr>cm_bond := cm_bond m + x, cm_total_counted := cm_total_counted m + x\<rparr>
      = with_bond (cm_bond m + x) m"
    using parts(2) by (intro CandidateMetadata.equality) (simp_all add: with_bond_def)
  let ?s = "s\<lparr>Total := sat_add_u128 (Total s) x,
      world := set_lock cfg COLLATOR_LOCK_ID c (cm_bond m + x) (world s),
      Events := Events s @ [CandidateBondedMore c x (cm_bond m + x)],
      CandidateInfo := (CandidateInfo s)(c \<mapsto> with_bond (cm_bond m + x) m)\<rparr>"
  have at: "pool_at cfg c m (CandidatePool ?s)" using parts(1) by simp
  have act: "is_active (with_bond (cm_bond m + x) m) = is_active m"
    by (simp add: with_bond_def is_active_def)
  show ?thesis
    using assms(1) wp_update_active [OF at]
    by (simp add: candidate_bond_more_inner_def bond_more_def wp_simps Let_def sat_add_u128_exact fits m'
        get_collator_stakable_free_balance_def act not_le self_bonded_def)
qed

lemma wp_bond_less:
  assumes "stands cfg c e M m s" and "x \<le> cm_bond m"
  shows "wp (bond_less cfg c x m) Q E s =
    (let m' = with_bond (cm_bond m - x) m
     in Q m' (s\<lparr>Total := Total s - x,
          world := (if cm_bond m - x = 0 then remove_lock cfg COLLATOR_LOCK_ID c
            else set_lock cfg COLLATOR_LOCK_ID c (cm_bond m - x)) (world s),
          CandidatePool := CandidatePool (self_bonded c m m' s),
          Events := Events s @ [CandidateBondedLess c x (cm_bond m - x)]\<rparr>))"
proof -
  note parts = stands_parts [OF assms(1)]
  have m': "m\<lparr>cm_bond := cm_bond m - x, cm_total_counted := cm_total_counted m - x\<rparr>
      = with_bond (cm_bond m - x) m"
    using parts(2) assms(2) by (intro CandidateMetadata.equality) (simp_all add: with_bond_def)
  have act: "is_active (with_bond (cm_bond m - x) m) = is_active m"
    by (simp add: with_bond_def is_active_def)
  have tc: "cm_total_counted (with_bond (cm_bond m - x) m) = cm_total_counted m - x"
    by (simp flip: m')
  have at: "pool_at cfg c m (CandidatePool s1)" if "CandidatePool s1 = CandidatePool s" for s1
    using parts(1) that by simp
  have act': "is_active (m\<lparr>cm_bond := v\<rparr>) = is_active m" for v by (simp add: is_active_def)
  show ?thesis
  proof (cases "x = cm_bond m")
    case True
    have zero: "cm_total_counted (with_bond 0 m) = cm_total_counted m - cm_bond m"
      by (simp add: with_bond_def)
    have "m\<lparr>cm_bond := 0, cm_total_counted := cm_total_counted m - cm_bond m\<rparr> = with_bond 0 m"
      using m' True by simp
    with True show ?thesis
      by (auto simp: bond_less_def wp_simps Let_def act act' zero self_bonded_def wp_update_active [OF at])
  next
    case False
    with assms(2) have "x < cm_bond m" by simp
    then show ?thesis
      by (auto simp: bond_less_def wp_simps Let_def m' act act' tc self_bonded_def
          wp_update_active [OF at])
  qed
qed

definition bond_less_due :: "CandidateMetadata \<Rightarrow> Balance \<Rightarrow> 'w staking \<Rightarrow> bool" where
  "bond_less_due m x s \<longleftrightarrow>
     (\<exists>req. cm_request m = Some req \<and> br_amount req = x \<and> br_when_executable req \<le> r_current (Round s))"

lemma wp_execute_bond_less:
  assumes "CandidateInfo s c = Some m" and "stands cfg c e M m s"
    and "bond_less_due m x s" and "x \<le> cm_bond m"
  shows "wp (execute_candidate_bond_less_inner cfg c) Q E s =
    (let m' = (with_bond (cm_bond m - x) m)\<lparr>cm_request := None\<rparr>
     in Q () (self_bonded c m m' (s\<lparr>Total := Total s - x,
          world := (if cm_bond m - x = 0 then remove_lock cfg COLLATOR_LOCK_ID c
            else set_lock cfg COLLATOR_LOCK_ID c (cm_bond m - x)) (world s),
          Events := Events s @ [CandidateBondedLess c x (cm_bond m - x)]\<rparr>)))"
proof -
  obtain req where req: "cm_request m = Some req" "br_amount req = x"
    "br_when_executable req \<le> r_current (Round s)"
    using assms(3) by (auto simp: bond_less_due_def)
  show ?thesis
    using assms(1) req(1,3)
    by (simp add: execute_candidate_bond_less_inner_def execute_bond_less_def wp_simps req(2)
        wp_bond_less [OF assms(2,4)] Let_def)
      (auto simp: self_bonded_def with_bond_def intro!: arg_cong [of _ _ "Q ()"] staking.equality)
qed

text \<open>Setting the bond to zero leaves the pending request where it is.\<close>

lemma wp_bond_to_zero:
  assumes "CandidateInfo s c = Some m" and "stands cfg c e M m s"
  shows "wp (set_candidate_bond_to_zero cfg c) Q E s =
    (let m' = with_bond 0 m
     in Q () (self_bonded c m m' (s\<lparr>Total := Total s - cm_bond m,
          world := remove_lock cfg COLLATOR_LOCK_ID c (world s),
          Events := Events s @ [CandidateBondedLess c (cm_bond m) 0]\<rparr>)))"
  using assms(1)
  by (simp add: set_candidate_bond_to_zero_def wp_simps wp_bond_less [OF assms(2)] Let_def)
    (auto simp: self_bonded_def intro!: arg_cong [of _ _ "Q ()"] staking.equality)

end
