(* ===== verification/Leaving.thy ===== *)
theory Leaving
  imports Lifecycle
begin

text \<open>
  A candidate that leaves returns the stake of every delegator: the loop over its two lists is
  reduced to a fold of one storage transformer, whose effect on each delegator is read off.
\<close>

section \<open>Returning one stake\<close>

definition returned :: "'w config \<Rightarrow> AccountId \<Rightarrow> Bond \<Rightarrow> 'w staking \<Rightarrow> 'w staking" where
  "returned cfg c k s =
     (case DelegatorState s (b_owner k) of
        None \<Rightarrow> s
      | Some st \<Rightarrow>
          (let st1 = drop_bond (bond c (b_amount k)) st;
               st2 = st1\<lparr>d_less_total := d_less_total st1
                 - request_amount (b_owner k) (DelegationScheduledRequests s c)\<rparr>;
               gone = (d_total st1 = 0)
           in s\<lparr>DelegatorState := (DelegatorState s)(b_owner k := (if gone then None else Some st2)),
                DelegationScheduledRequests := (DelegationScheduledRequests s)
                  (c := filter (\<lambda>req. sr_delegator req \<noteq> b_owner k) (DelegationScheduledRequests s c)),
                AutoCompoundingDelegations := (AutoCompoundingDelegations s)
                  (c := filter (\<lambda>x. ac_delegator x \<noteq> b_owner k) (AutoCompoundingDelegations s c)),
                world := (if gone then remove_lock cfg DELEGATOR_LOCK_ID (b_owner k)
                  (relock cfg st1 (world s)) else relock cfg st1 (world s))\<rparr>))"

lemma returned_simps [simp]:
  "TopDelegations (returned cfg c k s) = TopDelegations s"
  "BottomDelegations (returned cfg c k s) = BottomDelegations s"
  "CandidatePool (returned cfg c k s) = CandidatePool s"
  "CandidateInfo (returned cfg c k s) = CandidateInfo s"
  "Total (returned cfg c k s) = Total s"
  "Round (returned cfg c k s) = Round s"
  "Events (returned cfg c k s) = Events s"
  "k' \<noteq> c \<Longrightarrow> DelegationScheduledRequests (returned cfg c k s) k' = DelegationScheduledRequests s k'"
  "k' \<noteq> c \<Longrightarrow> AutoCompoundingDelegations (returned cfg c k s) k' = AutoCompoundingDelegations s k'"
  by (auto simp: returned_def Let_def split: option.split)

lemma wp_return_stake:
  assumes "backed c k s"
  shows "wp (return_stake cfg c k) Q E s = Q () (returned cfg c k s)"
proof -
  obtain st where st: "DelegatorState s (b_owner k) = Some st" "delegator_ok st"
    "bond c (b_amount k) \<in> set (d_delegations st)"
    and rq: "requests_ok (DelegationScheduledRequests s c)"
    and ac: "key_sorted ac_delegator (AutoCompoundingDelegations s c)"
    using assms by (auto simp: backed_def)
  have tot: "d_total (drop_bond (bond c (b_amount k)) st) = d_total st - b_amount k"
    by (simp add: drop_bond_def)
  show ?thesis
    using st(1) rq ac
    by (simp add: return_stake_def wp_simps Let_def wp_delegator_rm_delegation [OF st(2)]
        delegator_by_key(1) [OF st(2,3)] wp_remove_request wp_remove_auto_compound returned_def tot)
      (auto intro!: arg_cong [of _ _ "Q ()"] staking.equality)
qed

lemma returned_other:
  assumes "d \<noteq> b_owner k"
  shows "DelegatorState (returned cfg c k s) d = DelegatorState s d"
    and "request_amount d (DelegationScheduledRequests (returned cfg c k s) c)
      = request_amount d (DelegationScheduledRequests s c)"
  using assms
  by (auto simp: returned_def Let_def request_amount_def request_of_filter_other split: option.split)

lemma backed_returned:
  assumes "backed c k' s" and "b_owner k' \<noteq> b_owner k"
  shows "backed c k' (returned cfg c k s)"
  using assms
  by (auto simp: backed_def returned_def Let_def requests_ok_filter key_sorted_filter split: option.split)

lemma backed_fold_returned:
  "backed c k s \<Longrightarrow> b_owner k \<notin> owners xs \<Longrightarrow> backed c k (fold (returned cfg c) xs s)"
  by (induction xs arbitrary: s) (auto intro: backed_returned)

lemma wp_return_stakes:
  assumes "distinct (map b_owner xs)" and "\<And>k. k \<in> set xs \<Longrightarrow> backed c k s"
  shows "wp (for_each_m (return_stake cfg c) xs) Q E s = Q () (fold (returned cfg c) xs s)"
  using assms
proof (induction xs arbitrary: s)
  case (Cons x xs)
  have "backed c k (returned cfg c x s)" if "k \<in> set xs" for k
    using Cons.prems that by (intro backed_returned) (auto simp: image_iff)
  with Cons show ?case by (simp add: wp_simps wp_return_stake)
qed (simp add: wp_simps)

section \<open>All of them\<close>

lemma fold_returned_simps [simp]:
  "TopDelegations (fold (returned cfg c) xs s) = TopDelegations s"
  "BottomDelegations (fold (returned cfg c) xs s) = BottomDelegations s"
  "CandidatePool (fold (returned cfg c) xs s) = CandidatePool s"
  "CandidateInfo (fold (returned cfg c) xs s) = CandidateInfo s"
  "Total (fold (returned cfg c) xs s) = Total s"
  "Round (fold (returned cfg c) xs s) = Round s"
  "Events (fold (returned cfg c) xs s) = Events s"
  "k' \<noteq> c \<Longrightarrow> DelegationScheduledRequests (fold (returned cfg c) xs s) k' = DelegationScheduledRequests s k'"
  "k' \<noteq> c \<Longrightarrow> AutoCompoundingDelegations (fold (returned cfg c) xs s) k' = AutoCompoundingDelegations s k'"
  by (induction xs arbitrary: s) simp_all

lemma fold_returned_other:
  "d \<notin> owners xs \<Longrightarrow> DelegatorState (fold (returned cfg c) xs s) d = DelegatorState s d"
  by (induction xs arbitrary: s) (auto simp: returned_other)

text \<open>What a delegator has back: its bond is gone, and its record with it when it was the last.\<close>

definition stake_returned :: "AccountId \<Rightarrow> Bond \<Rightarrow> 'w staking \<Rightarrow> 'w staking \<Rightarrow> bool" where
  "stake_returned c k s s' \<longleftrightarrow>
     (case DelegatorState s (b_owner k) of
        None \<Rightarrow> False
      | Some st \<Rightarrow>
          if d_total st = b_amount k then DelegatorState s' (b_owner k) = None
          else (case DelegatorState s' (b_owner k) of
                  None \<Rightarrow> False
                | Some st' \<Rightarrow> d_id st' = d_id st \<and> delegator_ok st' \<and> d_total st' = d_total st - b_amount k
                    \<and> d_delegations st' = without c (d_delegations st)))"

lemma stake_returned_cong:
  "DelegatorState t (b_owner k) = DelegatorState s (b_owner k)
    \<Longrightarrow> DelegatorState t' (b_owner k) = DelegatorState s' (b_owner k)
    \<Longrightarrow> stake_returned c k t t' = stake_returned c k s s'"
  unfolding stake_returned_def by (simp cong: option.case_cong if_cong)

lemma returned_returns:
  assumes "backed c k s"
  shows "stake_returned c k s (returned cfg c k s)"
proof -
  obtain st where st: "DelegatorState s (b_owner k) = Some st" "delegator_ok st"
    "bond c (b_amount k) \<in> set (d_delegations st)"
    using assms by (auto simp: backed_def)
  have le: "b_amount k \<le> d_total st"
    using st(2,3) member_le_sum_list [of "b_amount k" "map b_amount (d_delegations st)"]
    by (force simp: delegator_ok_def image_iff)
  then have gone: "d_total st - b_amount k = 0 \<longleftrightarrow> d_total st = b_amount k" by auto
  let ?st = "(drop_bond (bond c (b_amount k)) st)\<lparr>d_less_total := d_less_total st
    - request_amount (b_owner k) (DelegationScheduledRequests s c)\<rparr>"
  have "DelegatorState (returned cfg c k s) (b_owner k)
      = (if d_total st = b_amount k then None else Some ?st)"
    using st(1) le by (auto simp: returned_def Let_def drop_bond_def)
  moreover have "delegator_ok ?st"
    using drop_bond_ok [OF st(2,3)] by (simp add: delegator_ok_def)
  ultimately show ?thesis using st(1) by (simp add: stake_returned_def drop_bond_def)
qed

lemma fold_returned_returns:
  assumes "distinct (map b_owner xs)" and "\<And>k. k \<in> set xs \<Longrightarrow> backed c k s" and "k \<in> set xs"
  shows "stake_returned c k s (fold (returned cfg c) xs s)"
  using assms
proof (induction xs arbitrary: s)
  case (Cons x xs)
  show ?case
  proof (cases "k = x")
    case True
    then have same: "DelegatorState (fold (returned cfg c) (x # xs) s) (b_owner k)
        = DelegatorState (returned cfg c k s) (b_owner k)"
      using Cons.prems(1) fold_returned_other [of "b_owner k" xs cfg c] by simp
    from returned_returns [of c k s cfg] Cons.prems(2,3) show ?thesis
      by (subst stake_returned_cong [OF refl same]) simp
  next
    case False
    with Cons.prems(3) have mem: "k \<in> set xs" by simp
    then have ne: "b_owner k \<noteq> b_owner x" using Cons.prems(1) by (auto simp: image_iff)
    have bk: "backed c k' (returned cfg c x s)" if "k' \<in> set xs" for k'
      using Cons.prems(1,2) that by (intro backed_returned) (auto simp: image_iff)
    with Cons.IH [of "returned cfg c x s"] Cons.prems(1) mem
    have "stake_returned c k (returned cfg c x s) (fold (returned cfg c) (x # xs) s)" by simp
    then show ?thesis by (subst (asm) stake_returned_cong [OF returned_other(1) [OF ne] refl])
  qed
qed simp

section \<open>The candidate's exit\<close>

definition has_left ::
  "AccountId \<Rightarrow> Balance \<Rightarrow> Bond multiset \<Rightarrow> CandidateMetadata \<Rightarrow> 'w staking \<Rightarrow> 'w staking \<Rightarrow> bool" where
  "has_left c e M m s s' \<longleftrightarrow>
     CandidateInfo s' = (CandidateInfo s)(c := None) \<and> CandidatePool s' = CandidatePool s
     \<and> TopDelegations s' = (TopDelegations s)(c := None)
     \<and> BottomDelegations s' = (BottomDelegations s)(c := None)
     \<and> DelegationScheduledRequests s' c = [] \<and> AutoCompoundingDelegations s' c = []
     \<and> (\<forall>k. k \<noteq> c \<longrightarrow> DelegationScheduledRequests s' k = DelegationScheduledRequests s k
          \<and> AutoCompoundingDelegations s' k = AutoCompoundingDelegations s k)
     \<and> (\<forall>k. k \<in># M \<longrightarrow> stake_returned c k s s')
     \<and> (\<forall>d. d \<notin> b_owner ` set_mset M \<longrightarrow> DelegatorState s' d = DelegatorState s d)
     \<and> Total s' = Total s - (cm_bond m + sum_mset (image_mset b_amount M) + e)"

lemma backed_fields [simp]:
  "backed c k (s\<lparr>TopDelegations := t\<rparr>) = backed c k s"
  "backed c k (s\<lparr>BottomDelegations := t\<rparr>) = backed c k s"
  by (simp_all add: backed_def)

lemma returned_swap [simp]:
  "fold (returned cfg c) xs (s\<lparr>TopDelegations := t\<rparr>) = (fold (returned cfg c) xs s)\<lparr>TopDelegations := t\<rparr>"
  "fold (returned cfg c) xs (s\<lparr>BottomDelegations := t\<rparr>) = (fold (returned cfg c) xs s)\<lparr>BottomDelegations := t\<rparr>"
proof (induction xs arbitrary: s)
  have "returned cfg c x (s\<lparr>TopDelegations := t\<rparr>) = (returned cfg c x s)\<lparr>TopDelegations := t\<rparr>"
    and "returned cfg c x (s\<lparr>BottomDelegations := t\<rparr>) = (returned cfg c x s)\<lparr>BottomDelegations := t\<rparr>" for x s
    by (auto simp: returned_def Let_def split: option.split)
  note step = this
  {
    case (Cons x xs)
    { case 1 show ?case using Cons.IH(1) by (simp add: step) }
    { case 2 show ?case using Cons.IH(2) by (simp add: step) }
  }
qed simp_all

lemma wp_execute_leave:
  assumes "site_ok cfg c e M m s"
  shows "wp (execute_leave_candidates_inner cfg c)
    (\<lambda>_ s'. (\<exists>r. cm_status m = Leaving r \<and> r \<le> r_current (Round s)) \<and> has_left c e M m s s')
    (\<lambda>er s'. s' = s \<and>
      (case cm_status m of Leaving r \<Rightarrow> r_current (Round s) < r \<and> er = Module CandidateCannotLeaveYet
        | _ \<Rightarrow> er = Module CandidateNotLeaving)) s"
proof -
  have site: "CandidateInfo s c = Some m" "stands cfg c e M m s" "\<And>k. k \<in># M \<Longrightarrow> backed c k s"
    using assms by (auto simp: site_ok_def)
  obtain hi lo where held: "held cfg c e hi lo m s" and M: "M = mset hi + mset lo"
    using site(2) by (auto simp: stands_held)
  note h = held_ranked [OF held]
  note p = ranked_parts [OF h(1)]
  have sum: "sum_mset (image_mset b_amount M) = amounts hi + amounts lo"
    by (simp add: M flip: sum_mset_sum_list)
  have bk: "backed c k s" if "k \<in> set hi \<union> set lo" for k using site(3) M that by auto
  have top: "wp (for_each_m (return_stake cfg c) hi) Q E (s\<lparr>TopDelegations := t\<rparr>)
      = Q () ((fold (returned cfg c) hi s)\<lparr>TopDelegations := t\<rparr>)" for Q E t
    using bk by (subst wp_return_stakes) (simp_all add: p(4))
  have bk2: "backed c k (fold (returned cfg c) hi s)" if "k \<in> set lo" for k
    using bk p(6) that by (intro backed_fold_returned) auto
  have bot: "wp (for_each_m (return_stake cfg c) lo) Q E
      ((fold (returned cfg c) hi s)\<lparr>TopDelegations := t, BottomDelegations := b\<rparr>)
      = Q () ((fold (returned cfg c) (hi @ lo) s)\<lparr>TopDelegations := t, BottomDelegations := b\<rparr>)" for Q E t b
    using bk2 by (subst wp_return_stakes) (simp_all add: p(5))
  let ?f = "fold (returned cfg c) (hi @ lo) s"
  have "stake_returned c k s ?f" if "k \<in># M" for k
    using bk that M by (intro fold_returned_returns [OF p(7)]) auto
  moreover have "DelegatorState ?f d = DelegatorState s d" if "d \<notin> b_owner ` set_mset M" for d
    using that M by (intro fold_returned_other) auto
  ultimately have stakes: "(\<forall>k. k \<in># M \<longrightarrow> stake_returned c k s s')
      \<and> (\<forall>d. d \<notin> b_owner ` set_mset M \<longrightarrow> DelegatorState s' d = DelegatorState s d)"
    if "DelegatorState s' = DelegatorState ?f" for s'
    using that by (metis stake_returned_cong)
  note run = execute_leave_candidates_inner_def can_leave_def wp_simps site(1) Let_def
    take_top_delegations_def take_bottom_delegations_def h(2,3) top bot forget_candidate_def
    sat_add_u128_exact
  show ?thesis
  proof (cases "cm_status m")
    case (Leaving r)
    show ?thesis
    proof (cases "r \<le> r_current (Round s)")
      case True
      show ?thesis using h(5) Leaving True
        by (simp add: run has_left_def sum) (use stakes in auto)
    qed (simp add: run Leaving)
  qed (simp_all add: run)
qed

end
