(* ===== verification/Flow_Properties.thy ===== *)
theory Flow_Properties
  imports Leaving Candidate_Properties
begin

text \<open>
  What the dispatched calls of delegators guarantee on both sides of a delegation: the
  candidate's book, the delegator's record, the lock, the requests and the total move together.
\<close>

section \<open>A delegation before and after\<close>

lemma raised_linked:
  assumes "raised cfg c d a x e M m st s s'" and "linked cfg c d a e M m st s"
  shows "\<exists>m' st'. linked cfg c d (a + x) e (rebonded M (bond d a) (a + x)) m' st' s'
    \<and> d_total st' = d_total st + x \<and> world s' = relock cfg st' (world s) \<and> Total s' = Total s + x"
proof -
  from assms(1) obtain m' s2 st' where r: "st' = rebond c (\<lambda>y. y + x) (\<lambda>y. y + x) st"
    "reached cfg c e (rebonded M (bond d a) (a + x)) m (s\<lparr>world := relock cfg st' (world s)\<rparr>) m' s2"
    "s' = s2\<lparr>CandidateInfo := (CandidateInfo s)(c \<mapsto> m'), Total := Total s + x,
      DelegatorState := (DelegatorState s)(d \<mapsto> st')\<rparr>"
    by (auto simp: raised_def)
  have l: "delegator_ok st" "bond c a \<in> set (d_delegations st)" "d_id st = d"
    using assms(2) by (auto simp: linked_def)
  note ok = rebond_ok [OF l(1,2), of "\<lambda>y. y + x" "\<lambda>y. y + x", simplified, folded r(1)]
  have stands: "stands cfg c e (rebonded M (bond d a) (a + x)) m' s2"
    and only: "only_candidate c (s\<lparr>world := relock cfg st' (world s)\<rparr>) s2"
    using r(2) by (auto simp: reached_def)
  note same = only_candidate_fields [OF only]
  have "linked cfg c d (a + x) e (rebonded M (bond d a) (a + x)) m' st' s'"
    using stands ok l(3) assms(2) by (simp add: linked_def r(3) same)
  then show ?thesis using ok by (intro exI [of _ m'] exI [of _ st']) (simp add: r(3) same)
qed

lemma lowered_linked:
  assumes "lowered cfg c d a x e M m st s s'" and "linked cfg c d a e M m st s" and "x < a"
  shows "\<exists>m' st'. linked cfg c d (a - x) (if in_bottom c (bond d a) s then e + x else e)
        (rebonded M (bond d a) (a - x)) m' st' s'
    \<and> d_total st' = d_total st - x \<and> d_less_total st' = d_less_total st - x
    \<and> world s' = relock cfg st' (world s) \<and> Total s' = Total s - x
    \<and> request_of d (DelegationScheduledRequests s' c) = None"
proof -
  from assms(1) obtain m' s2 st' in_top where
    r: "st' = (rebond c (\<lambda>b. b - x) (\<lambda>t. t - x) st)\<lparr>d_less_total := d_less_total st - x\<rparr>"
    "reached cfg c (if in_bottom c (bond d a) s then e + x else e) (rebonded M (bond d a) (a - x)) m
      (s\<lparr>world := relock cfg st' (world s)\<rparr>) m' s2"
    "s' = s2\<lparr>CandidateInfo := (CandidateInfo s)(c \<mapsto> m'), Total := Total s - x,
             DelegationScheduledRequests := (DelegationScheduledRequests s)
               (c := filter (\<lambda>req. sr_delegator req \<noteq> d) (DelegationScheduledRequests s c)),
             DelegatorState := (DelegatorState s)(d \<mapsto> st'),
             Events := Events s @ [DelegationDecreased d c x in_top]\<rparr>"
    by (auto simp: lowered_def)
  have l: "delegator_ok st" "bond c a \<in> set (d_delegations st)" "d_id st = d"
    using assms(2) by (auto simp: linked_def)
  have "d_total st - x + a = d_total st + (a - x)"
    using linked_bound(2) [OF assms(2)] assms(3) by simp
  note ok = rebond_ok [OF l(1,2), of "\<lambda>t. t - x" "\<lambda>b. b - x", OF this]
  have ok': "delegator_ok st'" "bond c (a - x) \<in> set (d_delegations st')" "d_id st' = d_id st"
    "d_total st' = d_total st - x"
    using ok by (simp_all add: r(1) delegator_ok_def)
  have stands: "stands cfg c (if in_bottom c (bond d a) s then e + x else e)
      (rebonded M (bond d a) (a - x)) m' s2"
    and only: "only_candidate c (s\<lparr>world := relock cfg st' (world s)\<rparr>) s2"
    using r(2) by (auto simp: reached_def)
  note same = only_candidate_fields [OF only]
  have "linked cfg c d (a - x) (if in_bottom c (bond d a) s then e + x else e)
        (rebonded M (bond d a) (a - x)) m' st' s'"
    using stands ok' l(3) assms(2)
    by (simp add: linked_def r(3) same requests_ok_filter)
  moreover have "d_less_total st' = d_less_total st - x" by (simp add: r(1))
  ultimately show ?thesis using ok'
    by (intro exI [of _ m'] exI [of _ st']) (simp add: r(3) same request_of_filter_other)
qed

section \<open>Bonding more\<close>

text \<open>C9: bonding more changes exactly that delegation, on the candidate's side and on the
  delegator's, by the amount given; the lock follows the delegator's total and the total at stake
  grows by the same amount. The call neither fails nor panics when the delegator has the funds and
  no revocation is pending.\<close>

theorem delegator_bond_more_correct:
  assumes "linked cfg c d a e M m st s" and "params_ok cfg"
    and "\<not> delegation_request_revoke_exists c d s"
    and "x \<le> get_delegator_stakable_balance cfg d s"
    and "cm_bond m + sum_mset (image_mset b_amount M) + e + x \<le> u128_max"
    and "d_total st + x \<le> u128_max" and "Total s + x \<le> u128_max"
  shows "\<exists>s' m' st'. delegator_bond_more cfg (Signed d) c x s = (Ok (), s')
    \<and> linked cfg c d (a + x) e (rebonded M (bond d a) (a + x)) m' st' s'
    \<and> d_total st' = d_total st + x \<and> world s' = relock cfg st' (world s) \<and> Total s' = Total s + x"
proof -
  have field: "linked cfg c d a' e' M' m' st' (t\<lparr>Events := evs\<rparr>) = linked cfg c d a' e' M' m' st' t"
    for a' e' M' m' st' t evs by (simp add: linked_def)
  have "wp (delegator_bond_more cfg (Signed d) c x) (\<lambda>_ s'. \<exists>m' st'.
      linked cfg c d (a + x) e (rebonded M (bond d a) (a + x)) m' st' s'
      \<and> d_total st' = d_total st + x \<and> world s' = relock cfg st' (world s) \<and> Total s' = Total s + x)
    (\<lambda>_ _. False) s"
    unfolding delegator_bond_more_def
    using wp_bond_more [OF assms] raised_linked [OF _ assms(1)]
    by (auto simp: wp_simps field elim!: wp_mono)
  from wp_total [OF this] show ?thesis by auto
qed

lemma sample_linked: "linked sample_cfg 1 13 30 0 sample_book sample_meta (sample_delegator 13 30) sample_state"
  using sample_stands
  by (simp add: linked_def) (simp add: sample_defs delegator_ok_def requests_ok_def)

lemma sample_totals [simp]: "d_total (sample_delegator d v) = v" "Total sample_state = 220"
  by (simp_all add: sample_defs)

theorem delegator_bond_more_witness:
  "\<exists>s' m' st'. delegator_bond_more sample_cfg (Signed 13) 1 15 sample_state = (Ok (), s')
    \<and> linked sample_cfg 1 13 45 0 {#bond_of 13 45, bond_of 11 50, bond_of 12 40#} m' st' s'
    \<and> d_total st' = 45 \<and> Total s' = 235"
proof -
  have "\<not> delegation_request_revoke_exists 1 13 sample_state"
    and "15 \<le> get_delegator_stakable_balance sample_cfg 13 sample_state"
    and "cm_bond sample_meta + sum_mset (image_mset b_amount sample_book) + 0 + 15 \<le> u128_max"
    and "d_total (sample_delegator 13 30) + 15 \<le> u128_max" and "Total sample_state + 15 \<le> u128_max"
    by (simp_all add: sample_defs delegation_request_revoke_exists_def get_delegator_stakable_balance_def
        sat_add_u128_def u128_max_def)
  from delegator_bond_more_correct [OF sample_linked sample_params this]
  show ?thesis by (auto simp: bond_of_def)
qed

section \<open>Executing a request\<close>

text \<open>C7: a due revocation takes the delegation out of the candidate's book and out of the
  delegator's record with its request and its auto-compounding; the delegator disappears with its
  last delegation. It is refused, with the storage unchanged, exactly when other delegations would
  stay whose total is below the minimum.\<close>

theorem execute_revoke_correct:
  assumes "linked cfg c d a e M m st s" and "params_ok cfg"
    and "request_of d (DelegationScheduledRequests s c) = Some req" and "sr_action req = Revoke a"
    and "sr_when_executable req \<le> r_current (Round s)"
  shows "if length (d_delegations st) = 1 \<or> MinDelegation cfg + a \<le> d_total st \<or> a = 0
    then \<exists>s' m'. execute_delegation_request cfg (Signed who) d c s = (Ok (), s')
      \<and> CandidateInfo s' = (CandidateInfo s)(c \<mapsto> m') \<and> stands cfg c e (M - {#bond d a#}) m' s'
      \<and> DelegatorState s' = (DelegatorState s)(d := if length (d_delegations st) = 1 then None
          else Some ((drop_bond (bond c a) st)\<lparr>d_less_total := d_less_total st - a\<rparr>))
      \<and> Total s' = Total s - a \<and> request_of d (DelegationScheduledRequests s' c) = None
      \<and> get_for_delegator d (AutoCompoundingDelegations s' c) = None
    else execute_delegation_request cfg (Signed who) d c s = (Err (Module DelegatorBondBelowMin), s)"
proof -
  let ?ok = "length (d_delegations st) = 1 \<or> a \<le> d_total st - MinDelegation cfg"
  have ks: "key_sorted ac_delegator (AutoCompoundingDelegations s c)" using assms(1) by (simp add: linked_def)
  have guard: "?ok \<longleftrightarrow> length (d_delegations st) = 1 \<or> MinDelegation cfg + a \<le> d_total st \<or> a = 0"
    by auto
  have "wp (execute_delegation_request cfg (Signed who) d c)
      (\<lambda>_ s'. ?ok \<and> revoked cfg c d a e M m st s s')
      (\<lambda>er s'. \<not> ?ok \<and> er = Module DelegatorBondBelowMin \<and> s' = s) s"
    unfolding execute_delegation_request_def
    using wp_revoke_due [OF assms] by (auto simp: wp_simps not_le elim!: wp_mono)
  moreover have "\<exists>m'. CandidateInfo s' = (CandidateInfo s)(c \<mapsto> m')
      \<and> stands cfg c e (M - {#bond d a#}) m' s'
      \<and> DelegatorState s' = (DelegatorState s)(d := if length (d_delegations st) = 1 then None
          else Some ((drop_bond (bond c a) st)\<lparr>d_less_total := d_less_total st - a\<rparr>))
      \<and> Total s' = Total s - a \<and> request_of d (DelegationScheduledRequests s' c) = None
      \<and> get_for_delegator d (AutoCompoundingDelegations s' c) = None"
    if rev: "revoked cfg c d a e M m st s s'" for s'
  proof -
    let ?ac = "filter (\<lambda>x. ac_delegator x \<noteq> d) (AutoCompoundingDelegations s c)"
    have "by_key ac_delegator ?ac d = None" by (auto simp: by_key_None_iff)
    then have none: "get_for_delegator d ?ac = None"
      by (simp add: get_for_delegator_eq key_sorted_filter ks)
    from rev show ?thesis unfolding revoked_def reached_def
      using none by (auto simp: only_candidate_fields(5) request_of_filter_other)
  qed
  ultimately show ?thesis unfolding guard [symmetric] wp_iff by auto
qed

definition sample_due :: "DelegationAction \<Rightarrow> ledger staking" where
  "sample_due act = sample_state\<lparr>DelegationScheduledRequests := (\<lambda>_. [])(1 :=
     [\<lparr>sr_delegator = 13, sr_when_executable = 4, sr_action = act\<rparr>])\<rparr>"

lemma sample_due_linked:
  "linked sample_cfg 1 13 30 0 sample_book sample_meta (sample_delegator 13 30) (sample_due act)"
  "request_of 13 (DelegationScheduledRequests (sample_due act) 1)
    = Some \<lparr>sr_delegator = 13, sr_when_executable = 4, sr_action = act\<rparr>"
  "4 \<le> r_current (Round (sample_due act))"
  using sample_linked
  by (simp_all add: linked_def sample_due_def requests_ok_def request_of_def)
    (simp add: sample_defs round_new_def)

theorem execute_revoke_witness:
  "\<exists>s' m'. execute_delegation_request sample_cfg (Signed 7) 13 1 (sample_due (Revoke 30)) = (Ok (), s')
    \<and> stands sample_cfg 1 0 {#bond_of 11 50, bond_of 12 40#} m' s' \<and> DelegatorState s' 13 = None
    \<and> Total s' = 190"
proof -
  have "length (d_delegations (sample_delegator 13 30)) = 1" and "Total (sample_due (Revoke 30)) = 220"
    by (simp_all add: sample_delegator_def sample_due_def)
  then show ?thesis
    using execute_revoke_correct [OF sample_due_linked(1) sample_params sample_due_linked(2) _ , of "Revoke 30" 7]
      sample_due_linked(3)
    by (auto simp: bond_of_def)
qed

text \<open>C8: a due decrease lowers exactly that delegation by the amount requested, on both sides,
  clears the request and lowers the total at stake and the lock. It is refused, with the storage
  unchanged, exactly when the delegation would vanish or the delegator fall below the minimum.\<close>

theorem execute_decrease_correct:
  assumes "linked cfg c d a e M m st s" and "params_ok cfg"
    and "request_of d (DelegationScheduledRequests s c) = Some req" and "sr_action req = Decrease x"
    and "sr_when_executable req \<le> r_current (Round s)"
  shows "if x < a \<and> MinDelegation cfg \<le> d_total st - x
    then \<exists>s' m' st'. execute_delegation_request cfg (Signed who) d c s = (Ok (), s')
      \<and> linked cfg c d (a - x) (if in_bottom c (bond d a) s then e + x else e)
          (rebonded M (bond d a) (a - x)) m' st' s'
      \<and> d_total st' = d_total st - x \<and> d_less_total st' = d_less_total st - x
      \<and> world s' = relock cfg st' (world s) \<and> Total s' = Total s - x
      \<and> request_of d (DelegationScheduledRequests s' c) = None
    else execute_delegation_request cfg (Signed who) d c s = (Err (Module DelegationBelowMin), s)"
proof -
  have "wp (execute_delegation_request cfg (Signed who) d c)
      (\<lambda>_ s'. (x < a \<and> MinDelegation cfg \<le> d_total st - x) \<and> lowered cfg c d a x e M m st s s')
      (\<lambda>er s'. \<not> (x < a \<and> MinDelegation cfg \<le> d_total st - x)
         \<and> er = Module DelegationBelowMin \<and> s' = s) s"
    unfolding execute_delegation_request_def
    using wp_decrease_due [OF assms] by (auto simp: wp_simps not_le not_less elim!: wp_mono)
  then consider (ok) s' where "x < a \<and> MinDelegation cfg \<le> d_total st - x"
      "execute_delegation_request cfg (Signed who) d c s = (Ok (), s')" "lowered cfg c d a x e M m st s s'"
    | (refused) "\<not> (x < a \<and> MinDelegation cfg \<le> d_total st - x)"
      "execute_delegation_request cfg (Signed who) d c s = (Err (Module DelegationBelowMin), s)"
    unfolding wp_iff by auto
  then show ?thesis
  proof cases
    case ok
    from lowered_linked [OF ok(3) assms(1)] ok(1) show ?thesis unfolding if_P [OF ok(1)] ok(2) by blast
  next
    case refused
    then show ?thesis unfolding if_not_P [OF refused(1)] by blast
  qed
qed

theorem execute_decrease_witness:
  "\<exists>s' m' st'. execute_delegation_request sample_cfg (Signed 7) 13 1 (sample_due (Decrease 10)) = (Ok (), s')
    \<and> linked sample_cfg 1 13 20 10 {#bond_of 13 20, bond_of 11 50, bond_of 12 40#} m' st' s'
    \<and> Total s' = 210"
proof -
  have "Total (sample_due (Decrease 10)) = 220" and "in_bottom 1 (bond 13 30) (sample_due (Decrease 10))"
    by (simp_all add: sample_due_def in_bottom_def sample_defs)
  then show ?thesis
    using execute_decrease_correct [OF sample_due_linked(1) sample_params sample_due_linked(2) _ , of "Decrease 10" 10 7]
      sample_due_linked(3)
    by (auto simp: bond_of_def)
qed

section \<open>Delegating\<close>

text \<open>C5: a delegation is accepted exactly when the caller has the funds, the amount is no less
  than the minimum, the caller is no candidate, does not delegate to this candidate yet and has a
  delegation left, the weight hints are large enough, and the book has room or holds a smaller
  bond. It then stands in the book and in the delegator's record alike, all other bonds being kept
  but for the one that makes place; otherwise the storage is unchanged.\<close>

theorem delegate_correct:
  assumes "site_ok cfg c e M m s" and "params_ok cfg" and "locks_move_nothing cfg"
    and "newcomer_ok c d a M s"
    and "cm_bond m + sum_mset (image_mset b_amount M) + e + a \<le> u128_max"
    and "Total s + a \<le> u128_max"
  shows "if can_delegate cfg c d a v h1 h2 h3 M s
    then \<exists>s' M' m' st'. delegate_with_auto_compound cfg (Signed d) c a v h1 h2 h3 s = (Ok (), s')
      \<and> delegated cfg c d a v e M m s s'
      \<and> M' \<subseteq># M \<and> size M \<le> Suc (size M') \<and> (size M < book_capacity cfg \<longrightarrow> M' = M)
      \<and> site_ok cfg c e (add_mset (bond d a) M') m' s'
      \<and> linked cfg c d a e (add_mset (bond d a) M') m' st' s'
    else \<exists>er. delegate_with_auto_compound cfg (Signed d) c a v h1 h2 h3 s = (Err er, s)"
proof -
  let ?can = "can_delegate cfg c d a v h1 h2 h3 M s"
  have "wp (delegate_with_auto_compound cfg (Signed d) c a v h1 h2 h3)
      (\<lambda>_ s'. ?can \<and> delegated cfg c d a v e M m s s') (\<lambda>_ s'. \<not> ?can \<and> s' = s) s"
    unfolding delegate_with_auto_compound_def
    using wp_delegate [OF assms, of v h1 h2 h3] by (auto simp: wp_simps elim!: wp_mono)
  then consider (ok) s' where "?can" "delegated cfg c d a v e M m s s'"
      "delegate_with_auto_compound cfg (Signed d) c a v h1 h2 h3 s = (Ok (), s')"
    | (refused) er where "\<not> ?can" "delegate_with_auto_compound cfg (Signed d) c a v h1 h2 h3 s = (Err er, s)"
    unfolding wp_iff by auto
  then show ?thesis
  proof cases
    case ok
    have "c \<notin> owners (d_delegations st)" if "DelegatorState s d = Some st" for st
      using ok(1) that by (simp add: can_delegate_def)
    from delegated_site [OF ok(2) assms(1,4) this] ok(2,3) show ?thesis unfolding if_P [OF ok(1)] by blast
  next
    case refused
    then show ?thesis unfolding if_not_P [OF refused(1)] by blast
  qed
qed

lemma sample_site: "site_ok sample_cfg 1 0 sample_book sample_meta sample_state"
  using sample_stands sample_backed
  by (simp add: site_ok_def) (simp add: sample_defs requests_ok_def)

lemma sample_locks: "locks_move_nothing sample_cfg"
  by (simp add: locks_move_nothing_def)

theorem delegate_witness:
  "\<exists>s'. delegate_with_auto_compound sample_cfg (Signed 14) 1 60 0 9 9 9 sample_state = (Ok (), s')
    \<and> delegated sample_cfg 1 14 60 0 0 sample_book sample_meta sample_state s'"
proof -
  have "newcomer_ok 1 14 60 sample_book sample_state"
    and "cm_bond sample_meta + sum_mset (image_mset b_amount sample_book) + 0 + 60 \<le> u128_max"
    and "Total sample_state + 60 \<le> u128_max"
    by (simp_all add: newcomer_ok_def sample_defs u128_max_def)
  moreover have "can_delegate sample_cfg 1 14 60 0 9 9 9 sample_book sample_state"
    by (simp add: can_delegate_def sample_defs get_delegator_stakable_balance_def sat_add_u128_def
        u128_max_def book_capacity_def)
  ultimately show ?thesis
    using delegate_correct [OF sample_site sample_params sample_locks, of 14 60 0 9 9 9] by auto
qed

end
