(* ===== verification/Lifecycle_Properties.thy ===== *)
theory Lifecycle_Properties
  imports Leaving Candidate_Properties
begin

text \<open>
  What the dispatched calls of a candidate guarantee, from joining to leaving, each instantiated
  at the sample storage.
\<close>

section \<open>Joining\<close>

text \<open>C18: an account becomes a candidate exactly when it is neither candidate nor delegator, brings
  the minimum bond and has it free, the pool has room, and the weight hint is large enough. It then
  stands with an empty book, is in the pool with its bond, and nobody else's entry has moved;
  otherwise the storage is unchanged.\<close>

theorem join_candidates_correct:
  assumes "pool_ok cfg (CandidatePool s)" and "MaxCandidates cfg \<le> u32_max" and "params_ok cfg"
    and "b \<le> u128_max"
  shows "if can_join cfg acc b hint s
    then \<exists>s'. join_candidates cfg (Signed acc) b hint s = (Ok (), s')
      \<and> CandidateInfo s' = (CandidateInfo s)(acc \<mapsto> candidate_new b)
      \<and> stands cfg acc 0 {#} (candidate_new b) s'
      \<and> pool_lookup (CandidatePool s') = (pool_lookup (CandidatePool s))(acc \<mapsto> b)
      \<and> world s' = set_lock cfg COLLATOR_LOCK_ID acc b (world s)
      \<and> Total s' = min (Total s + b) u128_max
    else \<exists>er. join_candidates cfg (Signed acc) b hint s = (Err er, s)"
proof -
  from wp_join [OF assms(1,2), of acc b hint] consider
      (ok) "can_join cfg acc b hint s" "join_candidates cfg (Signed acc) b hint s = (Ok (), has_joined cfg acc b s)"
    | (refused) er where "\<not> can_join cfg acc b hint s" "join_candidates cfg (Signed acc) b hint s = (Err er, s)"
    unfolding wp_iff by auto
  then show ?thesis
  proof cases
    case ok
    have free: "acc \<notin> owners (CandidatePool s)" "length (CandidatePool s) < MaxCandidates cfg"
      using ok(1) by (auto simp: can_join_def)
    note pool = pool_insert_ok [OF assms(1) free, of b]
    show ?thesis unfolding if_P [OF ok(1)] ok(2)
      using has_joined_stands [OF assms(1) free assms(4,3)] pool(2)
      by (auto simp: has_joined_def sat_add_u128_def)
  next
    case refused
    then show ?thesis unfolding if_not_P [OF refused(1)] by blast
  qed
qed

lemma sample_pool_ok: "pool_ok sample_cfg (CandidatePool sample_state)"
  by (simp add: pool_ok_def sample_defs)

theorem join_candidates_witness:
  "\<exists>s'. join_candidates sample_cfg (Signed 2) 50 5 sample_state = (Ok (), s')
    \<and> pool_lookup (CandidatePool s') = [1 \<mapsto> 190, 2 \<mapsto> 50]"
proof -
  have "can_join sample_cfg 2 50 5 sample_state" by (simp add: can_join_def sample_defs)
  moreover have "MaxCandidates sample_cfg \<le> u32_max" "(50::nat) \<le> u128_max"
    by (simp_all add: u32_max_def u128_max_def)
  moreover have "pool_lookup (CandidatePool sample_state) = [1 \<mapsto> 190]"
    by (simp add: sample_defs pool_lookup_def by_key_def fun_eq_iff)
  ultimately show ?thesis
    using join_candidates_correct [OF sample_pool_ok _ sample_params, of 50 2 5] by auto
qed

section \<open>Out of the pool and back\<close>

lemma sample_active: "CandidateInfo sample_state 1 = Some sample_meta" "is_active sample_meta"
  "pool_lookup (CandidatePool sample_state) 1 = Some (cm_total_counted sample_meta)"
  by (simp_all add: sample_defs is_active_def pool_lookup_def by_key_def)

text \<open>A candidate that goes offline leaves the pool, and going back online restores the
  storage but for the two events.\<close>

theorem offline_online_roundtrip:
  assumes "CandidateInfo s c = Some m" and "is_active m" and "pool_ok cfg (CandidatePool s)"
    and "pool_lookup (CandidatePool s) c = Some (cm_total_counted m)"
  shows "\<exists>s1. go_offline_call (Signed c) s = (Ok (), s1) \<and> pool_lookup (CandidatePool s1) c = None
    \<and> go_online_call cfg (Signed c) s1
      = (Ok (), s\<lparr>Events := Events s @ [CandidateWentOffline c, CandidateBackOnline c]\<rparr>)"
  using offline_and_back [OF assms]
  by (auto simp del: ensure_signed.simps simp: go_offline_call_def go_online_call_def transactional_def)

theorem offline_online_witness:
  "\<exists>s1. go_offline_call (Signed 1) sample_state = (Ok (), s1)
    \<and> go_online_call sample_cfg (Signed 1) s1
      = (Ok (), sample_state\<lparr>Events := [CandidateWentOffline 1, CandidateBackOnline 1]\<rparr>)"
  using offline_online_roundtrip [OF sample_active(1,2) sample_pool_ok sample_active(3)]
  by (auto simp: sample_defs)

text \<open>Scheduling the exit of an active candidate takes it out of the pool and records the
  round after the delay; cancelling the exit restores the storage but for the two events.\<close>

theorem exit_cancel_roundtrip:
  assumes "CandidateInfo s c = Some m" and "is_active m" and "pool_ok cfg (CandidatePool s)"
    and "pool_lookup (CandidatePool s) c = Some (cm_total_counted m)"
    and "MaxCandidates cfg \<le> u32_max" and "length (CandidatePool s) \<le> hint"
    and "r_current (Round s) + LeaveCandidatesDelay cfg \<le> u32_max"
  shows "\<exists>s1 m1. schedule_leave_candidates cfg (Signed c) hint s = (Ok (), s1)
    \<and> pool_lookup (CandidatePool s1) c = None \<and> CandidateInfo s1 c = Some m1
    \<and> cm_status m1 = Leaving (r_current (Round s) + LeaveCandidatesDelay cfg)
    \<and> cancel_leave_candidates cfg (Signed c) hint s1
      = (Ok (), s\<lparr>Events := Events s @ [CandidateScheduledExit (r_current (Round s)) c
          (r_current (Round s) + LeaveCandidatesDelay cfg), CancelledCandidateExit c]\<rparr>)"
  by (rule exit_and_back [OF assms])

theorem exit_cancel_witness:
  "\<exists>s1. schedule_leave_candidates sample_cfg (Signed 1) 3 sample_state = (Ok (), s1)
    \<and> cancel_leave_candidates sample_cfg (Signed 1) 3 s1
      = (Ok (), sample_state\<lparr>Events := [CandidateScheduledExit 5 1 9, CancelledCandidateExit 1]\<rparr>)"
proof -
  have "MaxCandidates sample_cfg \<le> u32_max" "length (CandidatePool sample_state) \<le> 3"
    "r_current (Round sample_state) + LeaveCandidatesDelay sample_cfg \<le> u32_max"
    by (simp_all add: u32_max_def sample_defs round_new_def)
  from exit_cancel_roundtrip [OF sample_active(1,2) sample_pool_ok sample_active(3) this]
  show ?thesis by (auto simp: sample_defs round_new_def)
qed

section \<open>The self bond\<close>

lemma self_bonded_simps [simp]:
  "CandidateInfo (self_bonded c m m' s) = (CandidateInfo s)(c \<mapsto> m')"
  "Total (self_bonded c m m' s) = Total s" "world (self_bonded c m m' s) = world s"
  "TopDelegations (self_bonded c m m' s) = TopDelegations s"
  "BottomDelegations (self_bonded c m m' s) = BottomDelegations s"
  "Round (self_bonded c m m' s) = Round s"
  by (simp_all add: self_bonded_def)

lemma with_bond_simps [simp]:
  "cm_bond (with_bond v m) = v" "cm_status (with_bond v m) = cm_status m"
  "cm_request (with_bond v m) = cm_request m"
  "cm_total_counted (with_bond v m) = cm_total_counted m - cm_bond m + v"
  "is_active (with_bond v m) = is_active m"
  by (simp_all add: with_bond_def is_active_def)

text \<open>a candidate can add to its bond exactly what it has free beyond it; the bond, the
  counted stake, the pool entry, the lock and the total at stake then grow by that amount, and the
  candidate's invariant is kept.\<close>

theorem candidate_bond_more_correct:
  assumes "CandidateInfo s c = Some m" and "stands cfg c e M m s"
    and "cm_bond m + sum_mset (image_mset b_amount M) + e + x \<le> u128_max"
  shows "if x \<le> free_balance cfg (world s) c - cm_bond m
    then \<exists>s' m'. candidate_bond_more cfg (Signed c) x s = (Ok (), s')
      \<and> CandidateInfo s' = (CandidateInfo s)(c \<mapsto> m') \<and> stands cfg c e M m' s'
      \<and> cm_bond m' = cm_bond m + x \<and> cm_total_counted m' = cm_total_counted m + x
      \<and> cm_status m' = cm_status m \<and> cm_request m' = cm_request m
      \<and> world s' = set_lock cfg COLLATOR_LOCK_ID c (cm_bond m + x) (world s)
      \<and> Total s' = min (Total s + x) u128_max
    else candidate_bond_more cfg (Signed c) x s = (Err (Module InsufficientBalance), s)"
proof -
  let ?ok = "x \<le> free_balance cfg (world s) c - cm_bond m"
  let ?m = "with_bond (cm_bond m + x) m"
  let ?s = "self_bonded c m ?m (s\<lparr>Total := sat_add_u128 (Total s) x,
          world := set_lock cfg COLLATOR_LOCK_ID c (cm_bond m + x) (world s),
          Events := Events s @ [CandidateBondedMore c x (cm_bond m + x)]\<rparr>)"
  have "wp (candidate_bond_more cfg (Signed c) x) (\<lambda>_ s'. ?ok \<and> s' = ?s)
      (\<lambda>er s'. \<not> ?ok \<and> er = Module InsufficientBalance \<and> s' = s) s"
    by (simp del: ensure_signed.simps add: candidate_bond_more_def wp_transactional
        wp_candidate_bond_more [OF assms])
  then consider (ok) "?ok" "candidate_bond_more cfg (Signed c) x s = (Ok (), ?s)"
    | (refused) "\<not> ?ok" "candidate_bond_more cfg (Signed c) x s = (Err (Module InsufficientBalance), s)"
    unfolding wp_iff by auto
  then show ?thesis
  proof cases
    case ok
    have m: "?m = (with_bond (cm_bond m + x) m)\<lparr>cm_request := cm_request m\<rparr>" by (simp add: with_bond_def)
    have room: "cm_bond m + x + sum_mset (image_mset b_amount M) + e \<le> u128_max" using assms(3) by simp
    have "stands cfg c e M ?m ?s"
      by (rule self_bonded_stands [OF assms(2) room m]) (simp_all add: self_bonded_def)
    then show ?thesis unfolding if_P [OF ok(1)] ok(2) using stands_parts(2) [OF assms(2)]
      by (intro exI [of _ ?s] exI [of _ ?m]) (simp add: sat_add_u128_def)
  next
    case refused
    then show ?thesis unfolding if_not_P [OF refused(1)] by blast
  qed
qed

theorem candidate_bond_more_witness:
  "\<exists>s' m'. candidate_bond_more sample_cfg (Signed 1) 25 sample_state = (Ok (), s')
    \<and> stands sample_cfg 1 0 sample_book m' s' \<and> cm_bond m' = 125"
proof -
  have "cm_bond sample_meta + sum_mset (image_mset b_amount sample_book) + 0 + 25 \<le> u128_max"
    by (simp add: sample_defs u128_max_def)
  from candidate_bond_more_correct [OF sample_active(1) sample_stands this]
  show ?thesis by (auto simp: sample_meta_def)
qed

text \<open>a scheduled decrease of the self bond takes effect exactly when its round has come; the
  bond, the counted stake, the pool entry, the lock and the total at stake then fall by the amount
  requested, the request is cleared and the candidate's invariant is kept. Before that, or without
  a request, the call is refused and the storage unchanged.\<close>

theorem execute_bond_less_correct:
  assumes "CandidateInfo s c = Some m" and "stands cfg c e M m s"
    and "\<forall>req. cm_request m = Some req \<longrightarrow> br_amount req \<le> cm_bond m"
  shows "case cm_request m of
      None \<Rightarrow> execute_candidate_bond_less cfg (Signed who) c s
        = (Err (Module PendingCandidateRequestsDNE), s)
    | Some req \<Rightarrow>
        if br_when_executable req \<le> r_current (Round s)
        then \<exists>s' m'. execute_candidate_bond_less cfg (Signed who) c s = (Ok (), s')
          \<and> CandidateInfo s' = (CandidateInfo s)(c \<mapsto> m') \<and> stands cfg c e M m' s'
          \<and> cm_bond m' + br_amount req = cm_bond m
          \<and> cm_total_counted m' + br_amount req = cm_total_counted m
          \<and> cm_request m' = None \<and> cm_status m' = cm_status m
          \<and> world s' = (if cm_bond m' = 0 then remove_lock cfg COLLATOR_LOCK_ID c (world s)
              else set_lock cfg COLLATOR_LOCK_ID c (cm_bond m') (world s))
          \<and> Total s' = Total s - br_amount req
        else execute_candidate_bond_less cfg (Signed who) c s
          = (Err (Module PendingCandidateRequestNotDueYet), s)"
proof (cases "cm_request m")
  case None
  have "wp (execute_candidate_bond_less cfg (Signed who) c) (\<lambda>_ _. False)
      (\<lambda>er s'. er = Module PendingCandidateRequestsDNE \<and> s' = s) s"
    using assms(1) None by (simp add: execute_candidate_bond_less_def
        execute_candidate_bond_less_inner_def execute_bond_less_def wp_simps)
  then show ?thesis using None by (auto simp: wp_iff)
next
  case (Some req)
  let ?x = "br_amount req"
  have le: "?x \<le> cm_bond m" using assms(3) Some by blast
  show ?thesis
  proof (cases "br_when_executable req \<le> r_current (Round s)")
    case False
    have "wp (execute_candidate_bond_less cfg (Signed who) c) (\<lambda>_ _. False)
        (\<lambda>er s'. er = Module PendingCandidateRequestNotDueYet \<and> s' = s) s"
      using assms(1) Some False by (simp add: execute_candidate_bond_less_def
          execute_candidate_bond_less_inner_def execute_bond_less_def wp_simps)
    then show ?thesis using Some False by (auto simp: wp_iff)
  next
    case True
    then have due: "bond_less_due m ?x s" using Some by (auto simp: bond_less_due_def)
    let ?m = "(with_bond (cm_bond m - ?x) m)\<lparr>cm_request := None\<rparr>"
    let ?s = "self_bonded c m ?m (s\<lparr>Total := Total s - ?x,
          world := (if cm_bond m - ?x = 0 then remove_lock cfg COLLATOR_LOCK_ID c
            else set_lock cfg COLLATOR_LOCK_ID c (cm_bond m - ?x)) (world s),
          Events := Events s @ [CandidateBondedLess c ?x (cm_bond m - ?x)]\<rparr>)"
    have "wp (execute_candidate_bond_less cfg (Signed who) c) (\<lambda>_ s'. s' = ?s) (\<lambda>_ _. False) s"
      by (simp del: ensure_signed.simps add: execute_candidate_bond_less_def wp_transactional
          wp_execute_bond_less [OF assms(1,2) due le])
    then have run: "execute_candidate_bond_less cfg (Signed who) c s = (Ok (), ?s)" by (auto simp: wp_iff)
    note parts = stands_parts [OF assms(2)]
    have "cm_bond m - ?x + sum_mset (image_mset b_amount M) + e \<le> u128_max" using parts(4) by linarith
    then have "stands cfg c e M ?m ?s"
      by (rule self_bonded_stands [OF assms(2), of _ _ None]) (auto simp: self_bonded_def)
    then have "\<exists>s' m'. execute_candidate_bond_less cfg (Signed who) c s = (Ok (), s')
          \<and> CandidateInfo s' = (CandidateInfo s)(c \<mapsto> m') \<and> stands cfg c e M m' s'
          \<and> cm_bond m' + br_amount req = cm_bond m
          \<and> cm_total_counted m' + br_amount req = cm_total_counted m
          \<and> cm_request m' = None \<and> cm_status m' = cm_status m
          \<and> world s' = (if cm_bond m' = 0 then remove_lock cfg COLLATOR_LOCK_ID c (world s)
              else set_lock cfg COLLATOR_LOCK_ID c (cm_bond m') (world s))
          \<and> Total s' = Total s - br_amount req"
      unfolding run using le parts(2) by (intro exI [of _ ?s] exI [of _ ?m]) simp
    then show ?thesis using Some True by simp
  qed
qed

lemma stands_request: "stands cfg c e M (m\<lparr>cm_request := q\<rparr>) s = stands cfg c e M m s"
  by (simp add: stands_def candidate_ok_def pool_at_def is_active_def)

definition sample_asked :: "RoundIndex \<Rightarrow> ledger staking" where
  "sample_asked r = sample_state\<lparr>CandidateInfo := [1 \<mapsto> sample_meta\<lparr>cm_request :=
     Some \<lparr>br_amount = 20, br_when_executable = r\<rparr>\<rparr>]\<rparr>"

lemma sample_asked_stands:
  "stands sample_cfg 1 0 sample_book
    (sample_meta\<lparr>cm_request := Some \<lparr>br_amount = 20, br_when_executable = r\<rparr>\<rparr>) (sample_asked r)"
  using sample_stands by (simp add: stands_request) (simp add: stands_def sample_asked_def)

theorem execute_bond_less_witness:
  "\<exists>s'. execute_candidate_bond_less sample_cfg (Signed 7) 1 (sample_asked 5) = (Ok (), s') \<and> Total s' = 200"
proof -
  let ?m = "sample_meta\<lparr>cm_request := Some \<lparr>br_amount = 20, br_when_executable = 5\<rparr>\<rparr>"
  have "CandidateInfo (sample_asked 5) 1 = Some ?m" by (simp add: sample_asked_def)
  moreover have "\<forall>req. cm_request ?m = Some req \<longrightarrow> br_amount req \<le> cm_bond ?m"
    by (simp add: sample_meta_def)
  moreover have "r_current (Round (sample_asked 5)) = 5" "Total (sample_asked 5) = 220"
    by (simp_all add: sample_asked_def sample_defs round_new_def)
  ultimately show ?thesis
    using execute_bond_less_correct [OF _ sample_asked_stands, of 5 7] by auto
qed

text \<open>setting the bond of a candidate to zero while a decrease is pending leaves the request in
  place. Executing it afterwards succeeds and takes its amount a second time: off the total at
  stake, and off the counted stake, which then is less than the delegations it counts.\<close>

theorem bond_to_zero_subtracts_twice:
  assumes "CandidateInfo s c = Some m" and "stands cfg c e M m s"
    and "cm_request m = Some req" and "br_when_executable req \<le> r_current (Round s)"
  shows "\<exists>s1 s2 m2. set_candidate_bond_to_zero cfg c s = (Ok (), s1)
    \<and> execute_candidate_bond_less cfg (Signed who) c s1 = (Ok (), s2)
    \<and> CandidateInfo s2 c = Some m2 \<and> cm_bond m2 = 0
    \<and> cm_total_counted m2 = cm_total_counted m - cm_bond m - br_amount req
    \<and> TopDelegations s2 c = TopDelegations s c
    \<and> Total s1 = Total s - cm_bond m \<and> Total s2 = Total s1 - br_amount req"
proof -
  let ?m = "with_bond 0 m"
  let ?s1 = "self_bonded c m ?m (s\<lparr>Total := Total s - cm_bond m,
          world := remove_lock cfg COLLATOR_LOCK_ID c (world s),
          Events := Events s @ [CandidateBondedLess c (cm_bond m) 0]\<rparr>)"
  have "wp (set_candidate_bond_to_zero cfg c) (\<lambda>_ s'. s' = ?s1) (\<lambda>_ _. False) s"
    by (simp add: wp_bond_to_zero [OF assms(1,2)] Let_def)
  then have zero: "set_candidate_bond_to_zero cfg c s = (Ok (), ?s1)" by (auto simp: wp_iff)
  have "0 + sum_mset (image_mset b_amount M) + e \<le> u128_max"
    using stands_parts(4) [OF assms(2)] by linarith
  then have st: "stands cfg c e M ?m ?s1"
    by (rule self_bonded_stands [OF assms(2), of 0 ?m "cm_request m"])
      (simp_all add: self_bonded_def with_bond_def)
  note at = stands_parts(1) [OF st]
  have at': "pool_at cfg c ?m (CandidatePool (?s1\<lparr>Total := t, world := w\<rparr>))" for t w using at by simp
  have act: "is_active (m'\<lparr>cm_bond := 0\<rparr>) = is_active m'" for m' by (simp add: is_active_def)
  have "wp (execute_candidate_bond_less cfg (Signed who) c) (\<lambda>_ s2. \<exists>m2.
      CandidateInfo s2 c = Some m2 \<and> cm_bond m2 = 0
    \<and> cm_total_counted m2 = cm_total_counted m - cm_bond m - br_amount req
    \<and> TopDelegations s2 c = TopDelegations s c \<and> Total s2 = Total ?s1 - br_amount req) (\<lambda>_ _. False) ?s1"
    using assms(3,4)
    by (simp del: ensure_signed.simps add: execute_candidate_bond_less_def wp_transactional
        execute_candidate_bond_less_inner_def execute_bond_less_def bond_less_def wp_simps Let_def act
        wp_update_active [OF at'])
  then obtain s2 where "execute_candidate_bond_less cfg (Signed who) c ?s1 = (Ok (), s2)"
    "\<exists>m2. CandidateInfo s2 c = Some m2 \<and> cm_bond m2 = 0
    \<and> cm_total_counted m2 = cm_total_counted m - cm_bond m - br_amount req
    \<and> TopDelegations s2 c = TopDelegations s c \<and> Total s2 = Total ?s1 - br_amount req"
    by (auto simp: wp_iff)
  with zero show ?thesis by (intro exI [of _ ?s1] exI [of _ s2]) auto
qed

theorem bond_to_zero_witness:
  "\<exists>s1 s2. set_candidate_bond_to_zero sample_cfg 1 (sample_asked 5) = (Ok (), s1)
    \<and> execute_candidate_bond_less sample_cfg (Signed 7) 1 s1 = (Ok (), s2)
    \<and> Total s1 = 120 \<and> Total s2 = 100"
proof -
  let ?m = "sample_meta\<lparr>cm_request := Some \<lparr>br_amount = 20, br_when_executable = 5\<rparr>\<rparr>"
  have info: "CandidateInfo (sample_asked 5) 1 = Some ?m"
    and "cm_request ?m = Some \<lparr>br_amount = 20, br_when_executable = 5\<rparr>"
    and "br_when_executable \<lparr>br_amount = 20, br_when_executable = 5\<rparr> \<le> r_current (Round (sample_asked 5))"
    and "Total (sample_asked 5) = 220" "cm_bond sample_meta = 100"
    by (simp_all add: sample_asked_def sample_defs round_new_def)
  then show ?thesis
    using bond_to_zero_subtracts_twice [OF info sample_asked_stands, where who = 7] by auto
qed

section \<open>Leaving\<close>

text \<open>C6: a candidate leaves exactly when its exit is scheduled and due and the weight hint covers
  its delegations. Everything stored about it is then gone, every delegator has its bond back (and
  disappears when it was the last), nobody else's record has moved, and the total at stake falls by
  the self bond, the delegations, and the excess \<open>e\<close> of the stored bottom total, which is what was
  once taken off bottom delegations a second time. Otherwise the storage is unchanged.\<close>

theorem execute_leave_correct:
  assumes "site_ok cfg c e M m s"
  shows "(\<exists>r s'. execute_leave_candidates cfg (Signed who) c hint s = (Ok (), s')
      \<and> cm_status m = Leaving r \<and> r \<le> r_current (Round s) \<and> size M \<le> hint \<and> has_left c e M m s s')
    \<or> (\<exists>er. execute_leave_candidates cfg (Signed who) c hint s = (Err er, s)
      \<and> (case cm_status m of Leaving r \<Rightarrow> r_current (Round s) < r \<or> hint < size M | _ \<Rightarrow> True))"
proof -
  have info: "CandidateInfo s c = Some m" using assms by (simp add: site_ok_def)
  obtain hi lo where "held cfg c e hi lo m s" "M = mset hi + mset lo"
    using assms by (auto simp: site_ok_def stands_held)
  then have count: "cm_delegation_count m = size M" by (simp add: held_cached)
  have "wp (execute_leave_candidates cfg (Signed who) c hint)
      (\<lambda>_ s'. size M \<le> hint \<and> (\<exists>r. cm_status m = Leaving r \<and> r \<le> r_current (Round s)) \<and> has_left c e M m s s')
      (\<lambda>er s'. s' = s \<and> (case cm_status m of Leaving r \<Rightarrow> r_current (Round s) < r \<or> hint < size M | _ \<Rightarrow> True)) s"
    using info count wp_execute_leave [OF assms]
    by (auto simp: execute_leave_candidates_def wp_simps not_le elim!: wp_mono
        split: CollatorStatus.splits)
  then show ?thesis unfolding wp_iff by auto
qed

definition sample_exit :: "RoundIndex \<Rightarrow> ledger staking" where
  "sample_exit r = sample_state\<lparr>CandidateInfo := [1 \<mapsto> sample_meta\<lparr>cm_status := Leaving r\<rparr>],
     CandidatePool := []\<rparr>"

lemma sample_exit_site:
  "site_ok sample_cfg 1 0 sample_book (sample_meta\<lparr>cm_status := Leaving r\<rparr>) (sample_exit r)"
proof -
  have "stands sample_cfg 1 0 sample_book (sample_meta\<lparr>cm_status := Leaving r\<rparr>) (sample_exit r)"
    using sample_stands
    by (auto simp: stands_def candidate_ok_def pool_at_def is_active_def sample_exit_def pool_ok_def)
  moreover have "backed 1 k (sample_exit r) = backed 1 k sample_state" for k
    by (simp add: backed_def sample_exit_def)
  with sample_backed have "backed 1 k (sample_exit r)" if "k \<in># sample_book" for k using that by blast
  ultimately show ?thesis
    by (simp add: site_ok_def) (simp add: sample_exit_def sample_defs requests_ok_def)
qed

theorem execute_leave_witness:
  "\<exists>s'. execute_leave_candidates sample_cfg (Signed 7) 1 3 (sample_exit 5) = (Ok (), s')
    \<and> DelegatorState s' 11 = None \<and> CandidateInfo s' 1 = None \<and> Total s' = 0"
proof -
  have "Total (sample_exit 5) = 220" "r_current (Round (sample_exit 5)) = 5"
    "DelegatorState (sample_exit 5) 11 = Some (sample_delegator 11 50)"
    by (simp_all add: sample_exit_def sample_defs round_new_def)
  note at = this
  obtain s' where s': "execute_leave_candidates sample_cfg (Signed 7) 1 3 (sample_exit 5) = (Ok (), s')"
    "has_left 1 0 sample_book (sample_meta\<lparr>cm_status := Leaving 5\<rparr>) (sample_exit 5) s'"
    using execute_leave_correct [OF sample_exit_site [of 5], where who = 7 and hint = 3] at(2) by auto
  from s'(2) have "stake_returned 1 (bond_of 11 50) (sample_exit 5) s'" unfolding has_left_def by simp
  then have "DelegatorState s' 11 = None"
    using at(3) by (simp add: stake_returned_def bond_of_def sample_delegator_def)
  moreover have "CandidateInfo s' 1 = None" "Total s' = 0"
    using s'(2) at(1) unfolding has_left_def by (simp_all add: sample_meta_def bond_of_def)
  ultimately show ?thesis using s'(1) by blast
qed

end
