(* ===== verification/Selection.thy ===== *)
theory Selection
  imports Sample
begin

text \<open>
  The selection of a round's collators: which candidates \<open>compute_top_candidates\<close> chooses, and the
  snapshot that \<open>select_top_candidates\<close> takes of each.
\<close>

section \<open>The choice\<close>

abbreviation stake_key :: "Bond \<Rightarrow> Balance \<times> AccountId" where
  "stake_key b \<equiv> (b_amount b, b_owner b)"

definition pool_sorted :: "Bond list \<Rightarrow> bool" where
  "pool_sorted pool \<longleftrightarrow> sorted_wrt (<) (map b_owner pool)"

definition best_first :: "Bond list \<Rightarrow> Bond list" where
  "best_first pool = rev (sort_key stake_key pool)"

lemma best_first_mset: "mset (best_first pool) = mset pool"
  by (simp add: best_first_def)

lemma best_first_set [simp]: "set (best_first pool) = set pool"
  by (simp add: best_first_def)

lemma distinct_owners_best_first:
  "distinct (map b_owner pool) \<Longrightarrow> distinct (map b_owner (best_first pool))"
  by (metis best_first_mset mset_eq_imp_distinct_iff mset_map)

lemma best_first_sorted:
  assumes "distinct (map b_owner pool)"
  shows "sorted_wrt (\<lambda>a b. stake_key b < stake_key a) (best_first pool)"
proof -
  have "distinct (map stake_key (sort_key stake_key pool))"
    using distinct_owners_best_first [OF assms]
    by (auto simp: best_first_def distinct_map inj_on_def)
  then have "sorted_wrt (<) (map stake_key (sort_key stake_key pool))"
    by (simp add: strict_sorted_iff)
  then show ?thesis by (simp add: best_first_def sorted_wrt_rev sorted_wrt_map)
qed

text \<open>The best candidates are those the choice takes; none left out ranks above one taken.\<close>

definition best :: "nat \<Rightarrow> Bond list \<Rightarrow> AccountId list \<Rightarrow> bool" where
  "best n pool chosen \<longleftrightarrow> sorted_wrt (<) chosen \<and> length chosen = min n (length pool)
     \<and> set chosen \<subseteq> b_owner ` set pool
     \<and> (\<forall>a \<in> set pool. \<forall>b \<in> set pool. b_owner a \<in> set chosen \<and> b_owner b \<notin> set chosen
          \<longrightarrow> stake_key b < stake_key a)"

lemma take_best:
  assumes "distinct (map b_owner pool)" and "a \<in> set pool" and "b \<in> set pool"
    and "b_owner a \<in> b_owner ` set (take n (best_first pool))"
    and "b_owner b \<notin> b_owner ` set (take n (best_first pool))"
  shows "stake_key b < stake_key a"
proof -
  let ?xs = "best_first pool"
  have inj: "inj_on b_owner (set pool)" using assms(1) by (simp add: distinct_map)
  obtain a' where "a' \<in> set (take n ?xs)" "b_owner a' = b_owner a" using assms(4) by auto
  moreover from this have "a' \<in> set pool" using in_set_takeD by fastforce
  ultimately have a: "a \<in> set (take n ?xs)" using inj assms(2) by (metis inj_onD)
  have "b \<in> set (take n ?xs) \<union> set (drop n ?xs)" using assms(3) by (simp flip: set_append)
  then have "b \<in> set (drop n ?xs)" using assms(5) by auto
  moreover have "sorted_wrt (\<lambda>a b. stake_key b < stake_key a) (take n ?xs @ drop n ?xs)"
    using best_first_sorted [OF assms(1)] by simp
  ultimately show ?thesis using a by (auto simp only: sorted_wrt_append)
qed

lemma compute_top_best:
  assumes "pool_sorted (CandidatePool s)"
  shows "best (TotalSelected s) (CandidatePool s) (compute_top_candidates s)"
proof -
  let ?p = "CandidatePool s" and ?n = "TotalSelected s"
  have d: "distinct (map b_owner ?p)"
    using assms by (simp add: pool_sorted_def strict_sorted_iff)
  consider "?n = 0" | "?n \<noteq> 0" "length ?p \<le> ?n" | "?n \<noteq> 0" "?n < length ?p" by linarith
  then show ?thesis
  proof cases
    case 1
    then show ?thesis by (simp add: best_def compute_top_candidates_def)
  next
    case 2
    then show ?thesis using assms
      by (simp add: best_def compute_top_candidates_def pool_sorted_def Let_def)
  next
    case 3
    let ?c = "map b_owner (take ?n (best_first ?p))"
    have c: "compute_top_candidates s = sort ?c"
      using 3 by (simp add: compute_top_candidates_def best_first_def Let_def)
    have "distinct ?c"
      using distinct_owners_best_first [OF d] by (simp add: take_map [symmetric])
    then have "sorted_wrt (<) (sort ?c)" by (simp add: strict_sorted_iff)
    moreover have "length (best_first ?p) = length ?p" by (simp add: best_first_def)
    moreover have "set (take ?n (best_first ?p)) \<subseteq> set ?p"
      using set_take_subset [of ?n "best_first ?p"] by simp
    moreover have "\<forall>a \<in> set ?p. \<forall>b \<in> set ?p. b_owner a \<in> set (sort ?c) \<and> b_owner b \<notin> set (sort ?c)
        \<longrightarrow> stake_key b < stake_key a"
      by (intro ballI impI take_best [OF d, where n = ?n]) simp_all
    ultimately show ?thesis using 3 unfolding best_def c by (intro conjI) auto
  qed
qed

section \<open>The snapshots\<close>

definition pending_actions :: "AccountId \<Rightarrow> 'w staking \<Rightarrow> AccountId \<rightharpoonup> DelegationAction" where
  "pending_actions c s =
     collect_map (map (\<lambda>x. (sr_delegator x, sr_action x)) (DelegationScheduledRequests s c))"

definition compounding :: "AccountId \<Rightarrow> 'w staking \<Rightarrow> AccountId \<rightharpoonup> Percent" where
  "compounding c s = collect_map (map (\<lambda>x. (ac_delegator x, ac_value x)) (AutoCompoundingDelegations s c))"

definition snapshot_of :: "CandidateMetadata \<Rightarrow> Bond list \<Rightarrow> AccountId \<Rightarrow> 'w staking \<Rightarrow> CollatorSnapshot" where
  "snapshot_of m tops c s =
     (case rewardable_bonds (pending_actions c s) 0 tops of (uncounted, bonds) \<Rightarrow>
        \<lparr>snap_bond = cm_bond m,
         snap_delegations = map (\<lambda>d. \<lparr>bac_owner = b_owner d, bac_amount = b_amount d,
             bac_auto_compound = (case compounding c s (b_owner d) of Some v \<Rightarrow> v | None \<Rightarrow> 0)\<rparr>) bonds,
         snap_total = cm_total_counted m - uncounted\<rparr>)"

definition snapshot_at :: "'w staking \<Rightarrow> AccountId \<Rightarrow> CollatorSnapshot" where
  "snapshot_at s c =
     snapshot_of (the (CandidateInfo s c)) (ds_delegations (the (TopDelegations s c))) c s"

definition counted_at :: "'w staking \<Rightarrow> AccountId \<Rightarrow> Balance" where
  "counted_at s c = cm_total_counted (the (CandidateInfo s c))"

definition snapshots_taken ::
  "'w config \<Rightarrow> RoundIndex \<Rightarrow> AccountId list \<Rightarrow> 'w staking \<Rightarrow> 'w staking" where
  "snapshots_taken cfg now cs s = s\<lparr>
     AtStake := (AtStake s)(now :=
       fold (\<lambda>c. prefix_insert (key_order cfg) c (snapshot_at s c)) cs (AtStake s now)),
     Events := Events s @ map (\<lambda>c. CollatorChosen now c (counted_at s c)) cs\<rparr>"

lemma snapshots_taken_Nil: "snapshots_taken cfg now [] s = s"
  by (simp add: snapshots_taken_def)

lemma wp_snapshot_collator:
  assumes "CandidateInfo s c \<noteq> None" and "TopDelegations s c \<noteq> None"
  shows "wp (snapshot_collator cfg now acc c)
    (\<lambda>_. (=) (snapshots_taken cfg now (cs @ [c]) s)) E (snapshots_taken cfg now cs s)"
proof -
  obtain m ds where "CandidateInfo s c = Some m" "TopDelegations s c = Some ds" using assms by auto
  then show ?thesis
    by (cases acc) (simp add: snapshot_collator_def get_rewardable_delegators_def insert_at_stake_def
        snapshots_taken_def snapshot_at_def snapshot_of_def counted_at_def pending_actions_def
        compounding_def wp_simps Let_def split: prod.split)
qed

lemma wp_snapshots:
  assumes "\<forall>c \<in> set cs. CandidateInfo s c \<noteq> None \<and> TopDelegations s c \<noteq> None"
  shows "wp (fold_m (snapshot_collator cfg now) acc cs) (\<lambda>_. (=) (snapshots_taken cfg now cs s)) E s"
proof -
  have "wp (fold_m (snapshot_collator cfg now) acc cs)
      (\<lambda>_ t. \<exists>xs. cs = xs @ [] \<and> t = snapshots_taken cfg now xs s) E s"
  proof (rule wp_fold [where I = "\<lambda>_ ys t. \<exists>xs. cs = xs @ ys \<and> t = snapshots_taken cfg now xs s"])
    show "\<exists>xs. cs = xs @ cs \<and> s = snapshots_taken cfg now xs s" by (simp add: snapshots_taken_Nil)
  next
    fix acc c ys t assume "\<exists>xs. cs = xs @ c # ys \<and> t = snapshots_taken cfg now xs s"
    then obtain xs where xs: "cs = xs @ c # ys" "t = snapshots_taken cfg now xs s" by blast
    have "wp (snapshot_collator cfg now acc c) (\<lambda>_. (=) (snapshots_taken cfg now (xs @ [c]) s)) E t"
      using assms xs wp_snapshot_collator [of s c cfg now acc xs] by simp
    then show "wp (snapshot_collator cfg now acc c)
        (\<lambda>_ t. \<exists>xs. cs = xs @ ys \<and> t = snapshots_taken cfg now xs s) E t"
      by (rule wp_mono) (use xs in \<open>auto intro!: exI [of _ "xs @ [c]"]\<close>)
  qed
  then show ?thesis by (rule wp_mono) auto
qed

lemma map_of_fold_insert:
  assumes "prefix_ordered h xs" and "inj h"
  shows "prefix_ordered h (fold (\<lambda>c. prefix_insert h c (f c)) cs xs)
    \<and> map_of (fold (\<lambda>c. prefix_insert h c (f c)) cs xs) =
        (\<lambda>c. if c \<in> set cs then Some (f c) else map_of xs c)"
  using assms(1)
proof (induction cs arbitrary: xs)
  case Nil
  then show ?case by simp
next
  case (Cons c cs)
  from Cons.IH [OF prefix_ordered_insert [OF assms(2) Cons.prems]] show ?case
    by (auto simp: map_of_prefix_insert [OF Cons.prems assms(2)])
qed

section \<open>A snapshot adds up\<close>

text \<open>Every pending decrease is within its bond, as the scheduling demanded.\<close>

definition actions_fit :: "(AccountId \<rightharpoonup> DelegationAction) \<Rightarrow> Bond list \<Rightarrow> bool" where
  "actions_fit acts bonds \<longleftrightarrow>
     (\<forall>b \<in> set bonds. \<forall>v. acts (b_owner b) = Some (Decrease v) \<longrightarrow> v \<le> b_amount b)"

lemma rewardable_bonds_sum:
  assumes "actions_fit acts bonds" and "u + sum_list (map b_amount bonds) \<le> u128_max"
    and "rewardable_bonds acts u bonds = (u', bonds')"
  shows "u' + sum_list (map b_amount bonds') = u + sum_list (map b_amount bonds)
    \<and> map b_owner bonds' = map b_owner bonds"
  using assms
proof (induction acts u bonds arbitrary: u' bonds' rule: rewardable_bonds.induct)
  case (1 acts u)
  then show ?case by simp
next
  case (2 acts u b bs)
  have fit: "actions_fit acts bs" using 2 by (simp add: actions_fit_def)
  have step: "\<exists>v a. (case acts (b_owner b) of None \<Rightarrow> (u, b_amount b)
        | Some (Revoke _) \<Rightarrow> (sat_add_u128 u (b_amount b), 0)
        | Some (Decrease w) \<Rightarrow> (sat_add_u128 u w, b_amount b - w)) = (v, a) \<and> v + a = u + b_amount b"
    using 2(2,3)
    by (force simp: actions_fit_def sat_add_u128_exact split: option.split DelegationAction.split)
  then obtain v a where va: "(case acts (b_owner b) of None \<Rightarrow> (u, b_amount b)
        | Some (Revoke _) \<Rightarrow> (sat_add_u128 u (b_amount b), 0)
        | Some (Decrease w) \<Rightarrow> (sat_add_u128 u w, b_amount b - w)) = (v, a)" "v + a = u + b_amount b"
    by blast
  obtain u'' rest where rest: "rewardable_bonds acts v bs = (u'', rest)"
    by (cases "rewardable_bonds acts v bs")
  have "u'' + sum_list (map b_amount rest) = v + sum_list (map b_amount bs)
      \<and> map b_owner rest = map b_owner bs"
    using 2(1) [OF va(1) [symmetric] refl fit _ rest] va(2) 2(3) by simp
  then show ?case using va rest 2(4) by auto
qed

lemma rewardable_amounts:
  "rewardable_bonds acts u bonds = (u', bonds') \<Longrightarrow> map b_amount bonds' = map (\<lambda>b.
     case acts (b_owner b) of None \<Rightarrow> b_amount b | Some (Revoke _) \<Rightarrow> 0
     | Some (Decrease v) \<Rightarrow> b_amount b - v) bonds"
proof (induction bonds arbitrary: u bonds')
  case Nil
  then show ?case by simp
next
  case (Cons b bonds)
  show ?case using Cons.prems
    by (auto split: prod.splits option.splits DelegationAction.splits dest: Cons.IH)
qed

end
