(* ===== verification/Frames.thy ===== *)
theory Frames
  imports Calls
begin

text \<open>
  Judgements on programs from any state: a view of the state that a program leaves alone, a bound
  on how much it adds to a measure of the state, both whatever the outcome, and that it returns.
\<close>

section \<open>What a program leaves alone\<close>

definition leaves :: "('s \<Rightarrow> 'b) \<Rightarrow> ('s, 'e, 'a) prog \<Rightarrow> bool" where
  "leaves f m \<longleftrightarrow> (\<forall>s. f (snd (m s)) = f s)"

named_theorems leaves_intro \<open>introduction rules of the judgement, one per combinator\<close>

lemma leaves_snd: "leaves f m \<Longrightarrow> m s = (r, t) \<Longrightarrow> f t = f s"
  by (metis leaves_def snd_conv)

lemma leaves_atomic [leaves_intro]:
  "leaves f (return_m x)" "leaves f (fail_m e)" "leaves f panic_m" "leaves f (gets_m g)"
  "leaves f (ensure_m b e)" "leaves f (ok_or_m y e)" "leaves f (expect_m y)"
  by (simp_all add: leaves_def prog_defs split: option.split)

lemma leaves_modify [leaves_intro]: "(\<And>s. f (g s) = f s) \<Longrightarrow> leaves f (modify_m g)"
  by (simp add: leaves_def modify_m_def)

lemma leaves_bind [leaves_intro]:
  assumes "leaves f m" and "\<And>x. leaves f (n x)"
  shows "leaves f (bind_m m n)"
  unfolding leaves_def
proof
  fix s
  obtain r t where m: "m s = (r, t)" by (cases "m s")
  with assms(1) have "f t = f s" by (rule leaves_snd)
  with m assms(2) show "f (snd (bind_m m n s)) = f s"
    by (cases r) (simp_all add: bind_m_def leaves_def)
qed

lemma leaves_then [leaves_intro]: "leaves f m \<Longrightarrow> leaves f n \<Longrightarrow> leaves f (then_m m n)"
  unfolding then_m_def by (rule leaves_bind)

lemma leaves_attempt [leaves_intro]: "leaves f m \<Longrightarrow> leaves f (attempt_m m)"
  unfolding leaves_def attempt_m_def by (auto split: prod.split outcome.split) (metis snd_conv)+

lemma leaves_if [leaves_intro]: "leaves f m \<Longrightarrow> leaves f n \<Longrightarrow> leaves f (if b then m else n)"
  by simp

lemma leaves_let [leaves_intro]: "leaves f (m x) \<Longrightarrow> leaves f (let y = x in m y)"
  by simp

lemma leaves_cases [leaves_intro]:
  "leaves f m \<Longrightarrow> (\<And>y. leaves f (n y)) \<Longrightarrow> leaves f (case x of None \<Rightarrow> m | Some y \<Rightarrow> n y)"
  "(\<And>a b. leaves f (k a b)) \<Longrightarrow> leaves f (case p of (a, b) \<Rightarrow> k a b)"
  "(\<And>e. leaves f (l e)) \<Longrightarrow> (\<And>v. leaves f (l' v)) \<Longrightarrow> leaves f (case r of Inl e \<Rightarrow> l e | Inr v \<Rightarrow> l' v)"
  by (simp_all split: option.split prod.split sum.split)

lemma leaves_for_each [leaves_intro]:
  "(\<And>x. leaves f (m x)) \<Longrightarrow> leaves f (for_each_m m xs)"
  by (induction xs) (auto intro: leaves_intro)

section \<open>What a program adds\<close>

definition adds_at_most :: "('s \<Rightarrow> nat) \<Rightarrow> nat \<Rightarrow> ('s, 'e, 'a) prog \<Rightarrow> bool" where
  "adds_at_most f n m \<longleftrightarrow> (\<forall>s. f (snd (m s)) \<le> f s + n)"

lemma adds_leaves: "leaves f m \<Longrightarrow> adds_at_most f n m"
  by (simp add: leaves_def adds_at_most_def)

lemma adds_mono: "adds_at_most f n m \<Longrightarrow> n \<le> n' \<Longrightarrow> adds_at_most f n' m"
  unfolding adds_at_most_def by (meson add_left_mono le_trans)

lemma adds_bind:
  assumes "adds_at_most f k m" and "\<And>x. adds_at_most f n (g x)"
  shows "adds_at_most f (k + n) (bind_m m g)"
  unfolding adds_at_most_def
proof
  fix s
  obtain r t where m: "m s = (r, t)" by (cases "m s")
  have t: "f t \<le> f s + k" using assms(1) m by (metis adds_at_most_def snd_conv)
  show "f (snd (bind_m m g s)) \<le> f s + (k + n)"
  proof (cases r)
    case (Ok x)
    have "f (snd (g x t)) \<le> f t + n" using assms(2) by (simp add: adds_at_most_def)
    with t m Ok show ?thesis by (simp add: bind_m_def)
  qed (use t m in \<open>simp_all add: bind_m_def\<close>)
qed

lemma adds_then:
  "adds_at_most f k m \<Longrightarrow> adds_at_most f n m' \<Longrightarrow> adds_at_most f (k + n) (then_m m m')"
  unfolding then_m_def by (rule adds_bind)

lemma adds_bind_leaves:
  "leaves f m \<Longrightarrow> (\<And>x. adds_at_most f n (g x)) \<Longrightarrow> adds_at_most f n (bind_m m g)"
  using adds_bind [of f 0 m n g] by (simp add: adds_leaves)

lemma adds_then_leaves:
  "adds_at_most f n m \<Longrightarrow> leaves f m' \<Longrightarrow> adds_at_most f n (then_m m m')"
  using adds_then [of f n m 0 m'] by (simp add: adds_leaves)

lemma adds_if:
  "(b \<Longrightarrow> adds_at_most f n m) \<Longrightarrow> (\<not> b \<Longrightarrow> adds_at_most f n m') \<Longrightarrow>
    adds_at_most f n (if b then m else m')"
  by simp

lemma adds_case_option:
  "adds_at_most f n m \<Longrightarrow> (\<And>y. x = Some y \<Longrightarrow> adds_at_most f n (m' y)) \<Longrightarrow>
    adds_at_most f n (case x of None \<Rightarrow> m | Some y \<Rightarrow> m' y)"
  by (simp split: option.split)

lemma adds_for_each:
  "(\<And>x. adds_at_most f (n x) (m x)) \<Longrightarrow> adds_at_most f (sum_list (map n xs)) (for_each_m m xs)"
  by (induction xs) (auto intro: adds_then adds_leaves leaves_intro)

section \<open>Programs that return\<close>

definition returns :: "('s, 'e, 'a) prog \<Rightarrow> bool" where
  "returns m \<longleftrightarrow> (\<forall>s. \<exists>x. fst (m s) = Ok x)"

named_theorems returns_intro \<open>introduction rules of the judgement\<close>

lemma returns_Ok:
  assumes "returns m"
  obtains x where "m s = (Ok x, snd (m s))"
  using assms unfolding returns_def by (metis prod.collapse)

lemma returns_atomic [returns_intro]:
  "returns (return_m x)" "returns (modify_m g)" "returns (gets_m h)"
  by (simp_all add: returns_def prog_defs)

lemma returns_bind [returns_intro]:
  assumes "returns m" and "\<And>x. returns (n x)"
  shows "returns (bind_m m n)"
  unfolding returns_def
proof
  fix s
  obtain x t where "m s = (Ok x, t)" using returns_Ok [OF assms(1)] by metis
  moreover obtain y u where "n x t = (Ok y, u)" using returns_Ok [OF assms(2)] by metis
  ultimately show "\<exists>y. fst (bind_m m n s) = Ok y" by (simp add: bind_m_def)
qed

lemma returns_then [returns_intro]: "returns m \<Longrightarrow> returns n \<Longrightarrow> returns (then_m m n)"
  unfolding then_m_def by (rule returns_bind)

lemma returns_if: "(b \<Longrightarrow> returns m) \<Longrightarrow> (\<not> b \<Longrightarrow> returns n) \<Longrightarrow> returns (if b then m else n)"
  by simp

lemma returns_case_option [returns_intro]:
  "returns m \<Longrightarrow> (\<And>y. returns (n y)) \<Longrightarrow> returns (case x of None \<Rightarrow> m | Some y \<Rightarrow> n y)"
  by (simp split: option.split)

lemma returns_case_prod [returns_intro]:
  "(\<And>a b. returns (k a b)) \<Longrightarrow> returns (case p of (a, b) \<Rightarrow> k a b)"
  by (simp split: prod.split)

lemma returns_for_each:
  "(\<And>x. x \<in> set xs \<Longrightarrow> returns (m x)) \<Longrightarrow> returns (for_each_m m xs)"
  by (induction xs) (auto intro: returns_intro)

end
