(* ===== verification/Pallet_Support.thy ===== *)
theory Pallet_Support
  imports Staking_Types
begin

text \<open>
  What the pallets beside the staking pallet share: dispatch errors over a pallet's own error type,
  the origin checks, and the iteration of a storage map that rewrites its values.
\<close>

section \<open>Dispatch errors and origins\<close>

datatype 'e pallet_error = PalletError 'e | NotAllowed | LookupFailed | Foreign string

definition ensure_p :: "bool \<Rightarrow> 'e \<Rightarrow> ('s, 'e pallet_error, unit) prog" where
  "ensure_p b e = ensure_m b (PalletError e)"

definition ok_or_p :: "'a option \<Rightarrow> 'e \<Rightarrow> ('s, 'e pallet_error, 'a) prog" where
  "ok_or_p x e = ok_or_m x (PalletError e)"

definition err_p :: "'e \<Rightarrow> ('s, 'e pallet_error, 'a) prog" where
  "err_p e = fail_m (PalletError e)"

fun signed_p :: "origin \<Rightarrow> ('s, 'e pallet_error, AccountId) prog" where
  "signed_p (Signed acc) = return_m acc"
| "signed_p _ = fail_m NotAllowed"

text \<open>\<open>EnsureOrigin::ensure_origin\<close>, given the origins it lets through.\<close>

definition origin_p :: "(origin \<Rightarrow> bool) \<Rightarrow> origin \<Rightarrow> ('s, 'e pallet_error, unit) prog" where
  "origin_p allowed o' = ensure_m (allowed o') NotAllowed"

lemma wp_pallet [wp_simps]:
  "wp (ensure_p b e) Q E s = (if b then Q () s else E (PalletError e) s)"
  "wp (ok_or_p x e) P E s = (case x of None \<Rightarrow> E (PalletError e) s | Some y \<Rightarrow> P y s)"
  "wp (err_p e) R E s = E (PalletError e) s"
  "wp (origin_p allowed o') Q E s = (if allowed o' then Q () s else E NotAllowed s)"
  by (simp_all add: ensure_p_def ok_or_p_def err_p_def origin_p_def wp_simps)

lemma wp_signed_p [wp_simps]:
  "wp (signed_p o') Q E s =
     (case o' of Signed acc \<Rightarrow> Q acc s | Root \<Rightarrow> E NotAllowed s | Unsigned \<Rightarrow> E NotAllowed s)"
  by (cases o') (simp_all add: wp_simps)

section \<open>What a successful program did\<close>

named_theorems ok_simps \<open>the runs of the combinators that end with a value\<close>

lemma ok_prog [ok_simps]:
  "return_m x s = (Ok y, t) \<longleftrightarrow> y = x \<and> t = s"
  "fail_m e s = (Ok z, t) \<longleftrightarrow> False"
  "err_p e' s = (Ok z', t) \<longleftrightarrow> False"
  "bind_m m f s = (Ok w, t) \<longleftrightarrow> (\<exists>x u. m s = (Ok x, u) \<and> f x u = (Ok w, t))"
  "then_m m n s = (Ok w, t) \<longleftrightarrow> (\<exists>x u. m s = (Ok x, u) \<and> n u = (Ok w, t))"
  "gets_m g s = (Ok v, t) \<longleftrightarrow> v = g s \<and> t = s"
  "modify_m h s = (Ok (), t) \<longleftrightarrow> t = h s"
  "ensure_p b e' s = (Ok (), t) \<longleftrightarrow> b \<and> t = s"
  "origin_p allowed o' s = (Ok (), t) \<longleftrightarrow> allowed o' \<and> t = s"
  "ok_or_p x' e' s = (Ok x, t) \<longleftrightarrow> x' = Some x \<and> t = s"
  by (auto simp: return_m_def err_p_def fail_m_def bind_m_def then_m_def gets_m_def modify_m_def
      ensure_p_def ensure_m_def origin_p_def ok_or_p_def ok_or_m_def
      split: prod.splits outcome.splits option.splits if_splits)

lemma ok_signed [ok_simps]: "signed_p o' s = (Ok a, t) \<longleftrightarrow> o' = Signed a \<and> t = s"
  by (cases o') (auto simp: return_m_def fail_m_def)

section \<open>Storage maps in their iteration order\<close>

text \<open>Looking an entry up, taking it out.\<close>

definition prefix_get :: "('k \<times> 'v) list \<Rightarrow> 'k \<Rightarrow> 'v option" where
  "prefix_get xs k = map_of xs k"

definition prefix_remove :: "'k \<Rightarrow> ('k \<times> 'v) list \<Rightarrow> ('k \<times> 'v) list" where
  "prefix_remove k xs = filter (\<lambda>p. fst p \<noteq> k) xs"

text \<open>
  \<open>StorageMap::translate\<close>: the entries in order, each replaced by what the function returns for
  it, or removed. The function is given no access to the map itself, so writing all results back
  at the end is writing each as it comes.
\<close>

fun translate_entries ::
  "('k \<Rightarrow> 'v \<Rightarrow> ('s, 'e, 'v option) prog) \<Rightarrow> ('k \<times> 'v) list \<Rightarrow> ('s, 'e, ('k \<times> 'v) list) prog" where
  "translate_entries f [] = return_m []"
| "translate_entries f ((k, v) # xs) =
     bind_m (f k v) (\<lambda>r.
     bind_m (translate_entries f xs) (\<lambda>ys.
     return_m (case r of None \<Rightarrow> ys | Some v' \<Rightarrow> (k, v') # ys)))"

lemma set_prefix_insert_subset: "set (prefix_insert h k v xs) \<subseteq> insert (k, v) (set xs)"
  by (induction h k v xs rule: prefix_insert.induct) auto

lemma map_of_prefix_remove: "map_of (prefix_remove k xs) = (map_of xs)(k := None)"
  by (induction xs) (auto simp: prefix_remove_def fun_eq_iff)

lemma prefix_ordered_distinct: "prefix_ordered h xs \<Longrightarrow> distinct (map fst xs)"
proof -
  assume "prefix_ordered h xs"
  then have "distinct (map h (map fst xs))"
    by (auto simp: prefix_ordered_def strict_sorted_iff)
  then show ?thesis by (auto simp: distinct_map inj_on_def)
qed

lemma prefix_ordered_remove: "prefix_ordered h xs \<Longrightarrow> prefix_ordered h (prefix_remove k xs)"
  by (auto simp: prefix_ordered_def prefix_remove_def comp_def sorted_wrt_map
      intro: sorted_wrt_filter)

lemma prefix_ordered_keys:
  "map fst ys = map fst xs \<Longrightarrow> prefix_ordered h ys = prefix_ordered h xs"
  by (simp add: prefix_ordered_def flip: map_map)

end
