(* ===== verification/Orbiters.thy ===== *)
theory Orbiters
  imports Pallet_Support
begin

text \<open>
  pallet-moonbeam-orbiters: the pool of orbiters behind a collator and its rotation
  (\<open>types.rs\<close>), the storage, calls, hooks and account lookup of \<open>lib.rs\<close>. Weights are left out.
\<close>

section \<open>The pool of a collator\<close>

record CurrentOrbiter =
  co_account_id :: AccountId
  co_removed :: bool

datatype RemoveOrbiterResult = OrbiterNotInPool | OrbiterRemoved | OrbiterRemoveScheduled

record RotateOrbiterResult =
  maybe_old_orbiter :: "CurrentOrbiter option"
  maybe_next_orbiter :: "AccountId option"

record CollatorPoolInfo =
  orbiters :: "AccountId list"
  maybe_current_orbiter :: "CurrentOrbiter option"
  next_orbiter :: nat

definition pool_default :: CollatorPoolInfo where
  "pool_default = \<lparr>orbiters = [], maybe_current_orbiter = None, next_orbiter = 0\<rparr>"

text \<open>\<open>Vec::insert\<close> panics past the end; the guard before it keeps the index in range.\<close>

definition add_orbiter :: "CollatorPoolInfo \<Rightarrow> AccountId \<Rightarrow> CollatorPoolInfo option" where
  "add_orbiter self orbiter =
     (let n = (if next_orbiter self > as_u32 (length (orbiters self)) then 0 else next_orbiter self)
      in if n \<le> length (orbiters self)
         then Some (self\<lparr>orbiters := vec_insert n orbiter (orbiters self),
                         next_orbiter := wrap_add_u32 n 1\<rparr>)
         else None)"

definition contains_orbiter :: "CollatorPoolInfo \<Rightarrow> AccountId \<Rightarrow> bool" where
  "contains_orbiter self orbiter =
     ((case maybe_current_orbiter self of
         Some current \<Rightarrow> co_account_id current = orbiter
       | None \<Rightarrow> False)
      \<or> list_ex (\<lambda>orbiter'. orbiter' = orbiter) (orbiters self))"

definition remove_orbiter ::
  "CollatorPoolInfo \<Rightarrow> AccountId \<Rightarrow> RemoveOrbiterResult \<times> CollatorPoolInfo" where
  "remove_orbiter self orbiter =
     (case position (\<lambda>orbiter'. orbiter' = orbiter) (orbiters self) of
        None \<Rightarrow> (OrbiterNotInPool, self)
      | Some index \<Rightarrow>
          (let self = self\<lparr>orbiters := vec_remove index (orbiters self)\<rparr> in
           case maybe_current_orbiter self of
             Some current \<Rightarrow>
               (if co_account_id current = orbiter
                then (OrbiterRemoveScheduled,
                      self\<lparr>maybe_current_orbiter := Some (current\<lparr>co_removed := True\<rparr>)\<rparr>)
                else (OrbiterRemoved, self))
           | None \<Rightarrow> (OrbiterRemoved, self)))"

definition rotate_orbiter :: "CollatorPoolInfo \<Rightarrow> RotateOrbiterResult \<times> CollatorPoolInfo" where
  "rotate_orbiter self =
     (let old = maybe_current_orbiter self;
          self = (if next_orbiter self \<ge> as_u32 (length (orbiters self))
                  then self\<lparr>next_orbiter := 0\<rparr> else self)
      in if next_orbiter self < length (orbiters self)
         then (let next = orbiters self ! next_orbiter self in
               (\<lparr>maybe_old_orbiter = old, maybe_next_orbiter = Some next\<rparr>,
                self\<lparr>maybe_current_orbiter := Some \<lparr>co_account_id = next, co_removed = False\<rparr>,
                     next_orbiter := wrap_add_u32 (next_orbiter self) 1\<rparr>))
         else (\<lparr>maybe_old_orbiter = old, maybe_next_orbiter = None\<rparr>, self))"

section \<open>The authors of a round\<close>

record RoundAuthors =
  ra_data :: "(AccountId \<times> nat) list"
  ra_blocks_count :: nat

definition round_authors_default :: RoundAuthors where
  "round_authors_default = \<lparr>ra_data = [], ra_blocks_count = 0\<rparr>"

definition add_author :: "RoundAuthors \<Rightarrow> AccountId \<Rightarrow> RoundAuthors" where
  "add_author self author =
     (let data = (case binary_search_by (\<lambda>p. cmp (fst p) author) (ra_data self) of
            Inr index \<Rightarrow> (ra_data self)[index := (fst (ra_data self ! index),
                                            sat_add_u32 (snd (ra_data self ! index)) 1)]
          | Inl index \<Rightarrow> vec_insert index (author, 1) (ra_data self))
      in \<lparr>ra_data = data, ra_blocks_count = wrap_add_u32 (ra_blocks_count self) 1\<rparr>)"

definition into_data :: "RoundAuthors \<Rightarrow> (AccountId \<times> nat) list \<times> nat" where
  "into_data self = (ra_data self, ra_blocks_count self)"

section \<open>Errors, events, storage, configuration\<close>

datatype orbiters_error =
    CollatorAlreadyAdded | CollatorNotFound | CollatorPoolTooLarge | CollatorsPoolCountTooLow
  | MinOrbiterDepositNotSet | OrbiterAlreadyInPool | OrbiterDepositNotFound | OrbiterNotFound
  | OrbiterStillInAPool

datatype orbiters_event =
    OrbiterJoinCollatorPool AccountId AccountId
  | OrbiterLeaveCollatorPool AccountId AccountId
  | OrbiterRewarded AccountId Balance
  | OrbiterRotation AccountId "AccountId option" "AccountId option"
  | OrbiterRegistered AccountId Balance
  | OrbiterUnregistered AccountId

text \<open>
  \<open>CollatorsPool\<close> is counted and iterated: its entries in trie order, the counter of
  \<open>CountedStorageMap\<close> being their number. \<open>orb_world\<close> is the storage of the other pallets.
\<close>

record 'w orbiters_state =
  AccountLookupOverride :: "AccountId \<rightharpoonup> AccountId option"
  CollatorsPool :: "(AccountId \<times> CollatorPoolInfo) list"
  CurrentRound :: RoundIndex
  ForceRotation :: bool
  MinOrbiterDeposit :: "Balance option"
  OrbiterPerRound :: "RoundIndex \<Rightarrow> AccountId \<rightharpoonup> AccountId"
  RegisteredOrbiter :: "AccountId \<rightharpoonup> bool"
  orb_events :: "orbiters_event list"
  orb_world :: 'w

type_synonym ('w, 'a) orbiters_m = "('w orbiters_state, orbiters_error pallet_error, 'a) prog"

text \<open>
  The associated types: the named reserves and deposits of the currency, under this pallet's
  reserve identifier, the address lookup of frame-system, the two privileged origins, the
  author lookup that the pallet wraps, and the trie order of \<open>CollatorsPool\<close>.
\<close>

record 'w orbiters_config =
  MaxPoolSize :: nat
  MaxRoundArchive :: RoundIndex
  RotatePeriod :: RoundIndex
  source_lookup :: "AccountId \<Rightarrow> AccountId option"
  inner_lookup_account :: "'w \<Rightarrow> nat \<Rightarrow> AccountId option"
  is_add_collator_origin :: "origin \<Rightarrow> bool"
  is_del_collator_origin :: "origin \<Rightarrow> bool"
  reserved_balance_named :: "'w \<Rightarrow> AccountId \<Rightarrow> Balance"
  ensure_reserved_named :: "AccountId \<Rightarrow> Balance \<Rightarrow> 'w \<Rightarrow> 'w option"
  unreserve_all_named :: "AccountId \<Rightarrow> 'w \<Rightarrow> 'w"
  orb_deposit_into_existing :: "AccountId \<Rightarrow> Balance \<Rightarrow> 'w \<Rightarrow> 'w option"
  pool_key_order :: "AccountId \<Rightarrow> nat"

definition deposit_orbiters_event :: "orbiters_event \<Rightarrow> ('w, unit) orbiters_m" where
  "deposit_orbiters_event e = modify_m (\<lambda>s. s\<lparr>orb_events := orb_events s @ [e]\<rparr>)"

definition put_pool :: "'w orbiters_config \<Rightarrow> AccountId \<Rightarrow> CollatorPoolInfo \<Rightarrow> ('w, unit) orbiters_m" where
  "put_pool cfg c pool =
     modify_m (\<lambda>s. s\<lparr>CollatorsPool := prefix_insert (pool_key_order cfg) c pool (CollatorsPool s)\<rparr>)"

definition remove_override :: "AccountId \<Rightarrow> ('w, unit) orbiters_m" where
  "remove_override a =
     modify_m (\<lambda>s. s\<lparr>AccountLookupOverride := (AccountLookupOverride s)(a := None)\<rparr>)"

definition put_override :: "AccountId \<Rightarrow> AccountId option \<Rightarrow> ('w, unit) orbiters_m" where
  "put_override a o' =
     modify_m (\<lambda>s. s\<lparr>AccountLookupOverride := (AccountLookupOverride s)(a \<mapsto> o')\<rparr>)"

definition lookup_source :: "'w orbiters_config \<Rightarrow> AccountId \<Rightarrow> ('w, AccountId) orbiters_m" where
  "lookup_source cfg a = ok_or_m (source_lookup cfg a) LookupFailed"

lemma wp_orbiters [wp_simps]:
  "wp (deposit_orbiters_event e) Q E s = Q () (s\<lparr>orb_events := orb_events s @ [e]\<rparr>)"
  "wp (put_pool cfg c pool) Q E s =
     Q () (s\<lparr>CollatorsPool := prefix_insert (pool_key_order cfg) c pool (CollatorsPool s)\<rparr>)"
  "wp (remove_override a) Q E s = Q () (s\<lparr>AccountLookupOverride := (AccountLookupOverride s)(a := None)\<rparr>)"
  "wp (put_override a o') Q E s = Q () (s\<lparr>AccountLookupOverride := (AccountLookupOverride s)(a \<mapsto> o')\<rparr>)"
  "wp (lookup_source cfg a) R E s =
     (case source_lookup cfg a of None \<Rightarrow> E LookupFailed s | Some b \<Rightarrow> R b s)"
  by (simp_all add: deposit_orbiters_event_def put_pool_def remove_override_def put_override_def
      lookup_source_def wp_simps)

section \<open>Calls\<close>

definition collator_add_orbiter ::
  "'w orbiters_config \<Rightarrow> origin \<Rightarrow> AccountId \<Rightarrow> ('w, unit) orbiters_m" where
  "collator_add_orbiter cfg o' source =
     bind_m (signed_p o') (\<lambda>collator.
     bind_m (lookup_source cfg source) (\<lambda>orbiter.
     bind_m (gets_m (\<lambda>s. prefix_get (CollatorsPool s) collator)) (\<lambda>found.
     bind_m (ok_or_p found CollatorNotFound) (\<lambda>collator_pool.
     then_m (ensure_p (as_u32 (length (orbiters collator_pool)) < MaxPoolSize cfg)
               CollatorPoolTooLarge)
    (then_m (if list_ex (\<lambda>orbiter'. orbiter' = orbiter) (orbiters collator_pool)
             then err_p OrbiterAlreadyInPool else return_m ())
    (bind_m (gets_m (\<lambda>s. reserved_balance_named cfg (orb_world s) orbiter)) (\<lambda>orbiter_deposit.
     then_m (ensure_p (orbiter_deposit > 0) OrbiterDepositNotFound)
    (bind_m (expect_m (add_orbiter collator_pool orbiter)) (\<lambda>collator_pool.
     then_m (put_pool cfg collator collator_pool)
            (deposit_orbiters_event (OrbiterJoinCollatorPool collator orbiter)))))))))))"

definition do_remove_orbiter_from_pool ::
  "'w orbiters_config \<Rightarrow> AccountId \<Rightarrow> AccountId \<Rightarrow> ('w, unit) orbiters_m" where
  "do_remove_orbiter_from_pool cfg collator orbiter =
     bind_m (gets_m (\<lambda>s. prefix_get (CollatorsPool s) collator)) (\<lambda>found.
     bind_m (ok_or_p found CollatorNotFound) (\<lambda>collator_pool.
     case remove_orbiter collator_pool orbiter of (result, collator_pool) \<Rightarrow>
     then_m (case result of
               OrbiterNotInPool \<Rightarrow> err_p OrbiterNotFound
             | OrbiterRemoved \<Rightarrow> deposit_orbiters_event (OrbiterLeaveCollatorPool collator orbiter)
             | OrbiterRemoveScheduled \<Rightarrow> return_m ())
            (put_pool cfg collator collator_pool)))"

definition collator_remove_orbiter ::
  "'w orbiters_config \<Rightarrow> origin \<Rightarrow> AccountId \<Rightarrow> ('w, unit) orbiters_m" where
  "collator_remove_orbiter cfg o' source =
     bind_m (signed_p o') (\<lambda>collator.
     bind_m (lookup_source cfg source) (\<lambda>orbiter.
     do_remove_orbiter_from_pool cfg collator orbiter))"

definition orbiter_leave_collator_pool ::
  "'w orbiters_config \<Rightarrow> origin \<Rightarrow> AccountId \<Rightarrow> ('w, unit) orbiters_m" where
  "orbiter_leave_collator_pool cfg o' source =
     bind_m (signed_p o') (\<lambda>orbiter.
     bind_m (lookup_source cfg source) (\<lambda>collator.
     do_remove_orbiter_from_pool cfg collator orbiter))"

definition orbiter_register :: "'w orbiters_config \<Rightarrow> origin \<Rightarrow> ('w, unit) orbiters_m" where
  "orbiter_register cfg o' =
     bind_m (signed_p o') (\<lambda>orbiter.
     bind_m (gets_m MinOrbiterDeposit) (\<lambda>minimum.
     case minimum of
       Some min_orbiter_deposit \<Rightarrow>
         bind_m (gets_m (\<lambda>s. ensure_reserved_named cfg orbiter min_orbiter_deposit (orb_world s)))
           (\<lambda>reserved.
         bind_m (ok_or_m reserved (Foreign ''ensure_reserved_named'')) (\<lambda>w.
         then_m (modify_m (\<lambda>s. s\<lparr>orb_world := w\<rparr>))
        (then_m (modify_m (\<lambda>s. s\<lparr>RegisteredOrbiter := (RegisteredOrbiter s)(orbiter \<mapsto> True)\<rparr>))
                (deposit_orbiters_event (OrbiterRegistered orbiter min_orbiter_deposit)))))
     | None \<Rightarrow> err_p MinOrbiterDepositNotSet))"

definition orbiter_unregister ::
  "'w orbiters_config \<Rightarrow> origin \<Rightarrow> nat \<Rightarrow> ('w, unit) orbiters_m" where
  "orbiter_unregister cfg o' collators_pool_count =
     bind_m (signed_p o') (\<lambda>orbiter.
     bind_m (gets_m CollatorsPool) (\<lambda>pools.
     then_m (ensure_p (collators_pool_count \<ge> length pools) CollatorsPoolCountTooLow)
    (then_m (ensure_p (\<not> list_ex (\<lambda>p. contains_orbiter (snd p) orbiter) pools) OrbiterStillInAPool)
    (then_m (modify_m (\<lambda>s. s\<lparr>orb_world := unreserve_all_named cfg orbiter (orb_world s)\<rparr>))
    (then_m (modify_m (\<lambda>s. s\<lparr>RegisteredOrbiter := (RegisteredOrbiter s)(orbiter := None)\<rparr>))
            (deposit_orbiters_event (OrbiterUnregistered orbiter)))))))"

definition add_collator :: "'w orbiters_config \<Rightarrow> origin \<Rightarrow> AccountId \<Rightarrow> ('w, unit) orbiters_m" where
  "add_collator cfg o' source =
     then_m (origin_p (is_add_collator_origin cfg) o')
    (bind_m (lookup_source cfg source) (\<lambda>collator.
     bind_m (gets_m (\<lambda>s. prefix_get (CollatorsPool s) collator)) (\<lambda>found.
     then_m (ensure_p (found = None) CollatorAlreadyAdded)
            (put_pool cfg collator pool_default))))"

definition remove_collator :: "'w orbiters_config \<Rightarrow> origin \<Rightarrow> AccountId \<Rightarrow> ('w, unit) orbiters_m" where
  "remove_collator cfg o' source =
     then_m (origin_p (is_del_collator_origin cfg) o')
    (bind_m (lookup_source cfg source) (\<lambda>collator.
     bind_m (gets_m (\<lambda>s. prefix_get (CollatorsPool s) collator)) (\<lambda>found.
     then_m (modify_m (\<lambda>s. s\<lparr>CollatorsPool := prefix_remove collator (CollatorsPool s)\<rparr>))
    (bind_m (ok_or_p found CollatorNotFound) (\<lambda>collator_pool.
     then_m (for_each_m remove_override (orbiters collator_pool))
            (remove_override collator))))))"

section \<open>Rotation and rewards\<close>

text \<open>The rounds of a period, from \<open>i\<close> on.\<close>

function assign_rounds ::
  "RoundIndex \<Rightarrow> RoundIndex \<Rightarrow> AccountId \<Rightarrow> AccountId \<Rightarrow> RoundIndex
   \<Rightarrow> (RoundIndex \<Rightarrow> AccountId \<rightharpoonup> AccountId) \<Rightarrow> RoundIndex \<Rightarrow> AccountId \<rightharpoonup> AccountId" where
  "assign_rounds period round_index collator orbiter i m =
     (if i < period
      then assign_rounds period round_index collator orbiter (i + 1)
             (m(sat_add_u32 round_index i :=
                 (m (sat_add_u32 round_index i))(collator \<mapsto> orbiter)))
      else m)"
  by pat_completeness auto
termination
  by (relation "measure (\<lambda>(period, r, c, orbiter, i, m). period - i)") auto

declare assign_rounds.simps [simp del]

definition rotate_pool ::
  "'w orbiters_config \<Rightarrow> RoundIndex \<Rightarrow> AccountId \<Rightarrow> CollatorPoolInfo
   \<Rightarrow> ('w, CollatorPoolInfo option) orbiters_m" where
  "rotate_pool cfg round_index collator pool =
     (case rotate_orbiter pool of (result, pool) \<Rightarrow>
      then_m (case maybe_old_orbiter result of
          Some current \<Rightarrow>
            then_m (if co_removed current
                    then deposit_orbiters_event (OrbiterLeaveCollatorPool collator (co_account_id current))
                    else return_m ())
                   (remove_override (co_account_id current))
        | None \<Rightarrow> return_m ())
     (then_m (case maybe_next_orbiter result of
          Some next \<Rightarrow>
            then_m (put_override collator None)
           (then_m (put_override next (Some collator))
           (then_m (modify_m (\<lambda>s. s\<lparr>OrbiterPerRound :=
                      assign_rounds (RotatePeriod cfg) round_index collator next 0 (OrbiterPerRound s)\<rparr>))
                   (deposit_orbiters_event (OrbiterRotation collator
                      (map_option co_account_id (maybe_old_orbiter result)) (Some next)))))
        | None \<Rightarrow>
            then_m (remove_override collator)
                   (deposit_orbiters_event (OrbiterRotation collator
                      (map_option co_account_id (maybe_old_orbiter result)) None)))
      (return_m (Some pool))))"

definition on_rotate :: "'w orbiters_config \<Rightarrow> RoundIndex \<Rightarrow> ('w, unit) orbiters_m" where
  "on_rotate cfg round_index =
     bind_m (gets_m CollatorsPool) (\<lambda>pools.
     bind_m (translate_entries (rotate_pool cfg round_index) pools) (\<lambda>pools.
     modify_m (\<lambda>s. s\<lparr>CollatorsPool := pools\<rparr>)))"

text \<open>The remainder by a zero \<open>RotatePeriod\<close> panics.\<close>

definition orbiters_on_new_round :: "'w orbiters_config \<Rightarrow> RoundIndex \<Rightarrow> ('w, unit) orbiters_m" where
  "orbiters_on_new_round cfg round_index =
     then_m (modify_m (\<lambda>s. s\<lparr>CurrentRound := round_index\<rparr>))
    (bind_m (gets_m ForceRotation) (\<lambda>forced.
     if forced
     then then_m (modify_m (\<lambda>s. s\<lparr>ForceRotation := False\<rparr>)) (on_rotate cfg round_index)
     else if RotatePeriod cfg = 0 then panic_m
     else if round_index mod RotatePeriod cfg = 0 then on_rotate cfg round_index
     else return_m ()))"

definition distribute_rewards ::
  "'w orbiters_config \<Rightarrow> RoundIndex \<Rightarrow> AccountId \<Rightarrow> Balance \<Rightarrow> ('w, unit) orbiters_m" where
  "distribute_rewards cfg pay_for_round collator amount =
     bind_m (gets_m (\<lambda>s. OrbiterPerRound s pay_for_round collator)) (\<lambda>taken.
     then_m (modify_m (\<lambda>s. s\<lparr>OrbiterPerRound := (OrbiterPerRound s)
               (pay_for_round := (OrbiterPerRound s pay_for_round)(collator := None))\<rparr>))
    (case taken of
       Some orbiter \<Rightarrow>
         bind_m (gets_m (\<lambda>s. orb_deposit_into_existing cfg orbiter amount (orb_world s))) (\<lambda>paid.
         case paid of
           Some w \<Rightarrow> then_m (modify_m (\<lambda>s. s\<lparr>orb_world := w\<rparr>))
                            (deposit_orbiters_event (OrbiterRewarded orbiter amount))
         | None \<Rightarrow> return_m ())
     | None \<Rightarrow> return_m ()))"

definition is_collator_pool_with_active_orbiter ::
  "RoundIndex \<Rightarrow> AccountId \<Rightarrow> 'w orbiters_state \<Rightarrow> bool" where
  "is_collator_pool_with_active_orbiter for_round collator s =
     (OrbiterPerRound s for_round collator \<noteq> None)"

section \<open>Hooks, genesis, lookup\<close>

definition orbiters_on_initialize :: "'w orbiters_config \<Rightarrow> ('w, unit) orbiters_m" where
  "orbiters_on_initialize cfg =
     modify_m (\<lambda>s. if MaxRoundArchive cfg \<le> CurrentRound s
       then s\<lparr>OrbiterPerRound := (OrbiterPerRound s)(CurrentRound s - MaxRoundArchive cfg := Map.empty)\<rparr>
       else s)"

definition genesis_default_deposit :: Balance where
  "genesis_default_deposit = 1"

definition orbiters_genesis :: "Balance \<Rightarrow> ('w, unit) orbiters_m" where
  "orbiters_genesis min_deposit =
     then_m (if min_deposit > 0 then return_m () else panic_m)
            (modify_m (\<lambda>s. s\<lparr>MinOrbiterDeposit := Some min_deposit\<rparr>))"

definition lookup_account :: "'w orbiters_config \<Rightarrow> 'w orbiters_state \<Rightarrow> nat \<Rightarrow> AccountId option" where
  "lookup_account cfg s nimbus_id =
     (case inner_lookup_account cfg (orb_world s) nimbus_id of
        None \<Rightarrow> None
      | Some account_id \<Rightarrow>
          (case AccountLookupOverride s account_id of
             Some override \<Rightarrow> override
           | None \<Rightarrow> Some account_id))"

end
