(* ===== verification/Orbiter_Pools.thy ===== *)
theory Orbiter_Pools
  imports Orbiters
begin

text \<open>
  The pure part of the orbiters pallet: whose turn it is in a pool, what adding and removing an
  orbiter do to the turns, the well-formedness of a pool, and the counts of \<open>RoundAuthors\<close>.
\<close>

section \<open>Turns\<close>

text \<open>The index the next rotation reads, and the orbiter of the \<open>k\<close>-th rotation from now.\<close>

definition turn_start :: "CollatorPoolInfo \<Rightarrow> nat" where
  "turn_start p = (if next_orbiter p \<ge> length (orbiters p) then 0 else next_orbiter p)"

definition turn :: "CollatorPoolInfo \<Rightarrow> nat \<Rightarrow> AccountId" where
  "turn p k = orbiters p ! ((turn_start p + k) mod length (orbiters p))"

definition rotated :: "CollatorPoolInfo \<Rightarrow> CollatorPoolInfo" where
  "rotated p = snd (rotate_orbiter p)"

abbreviation small_pool :: "CollatorPoolInfo \<Rightarrow> bool" where
  "small_pool p \<equiv> length (orbiters p) < u32_max"

lemma turn_start_less: "orbiters p \<noteq> [] \<Longrightarrow> turn_start p < length (orbiters p)"
  by (simp add: turn_start_def)

lemma rotate_orbiter_turn:
  assumes "orbiters p \<noteq> []" and "small_pool p"
  shows "rotate_orbiter p =
    (\<lparr>maybe_old_orbiter = maybe_current_orbiter p, maybe_next_orbiter = Some (turn p 0)\<rparr>,
     p\<lparr>maybe_current_orbiter := Some \<lparr>co_account_id = turn p 0, co_removed = False\<rparr>,
       next_orbiter := Suc (turn_start p)\<rparr>)"
  using assms turn_start_less [OF assms(1)]
  by (simp add: rotate_orbiter_def turn_def turn_start_def as_u32_exact wrap_add_u32_exact Let_def)

lemma rotate_orbiter_empty:
  "orbiters p = [] \<Longrightarrow> rotate_orbiter p =
    (\<lparr>maybe_old_orbiter = maybe_current_orbiter p, maybe_next_orbiter = None\<rparr>, p\<lparr>next_orbiter := 0\<rparr>)"
  by (simp add: rotate_orbiter_def as_u32_def)

lemma rotated_orbiters [simp]: "orbiters (rotated p) = orbiters p"
  by (simp add: rotated_def rotate_orbiter_def Let_def)

lemma rotated_current:
  "orbiters p \<noteq> [] \<Longrightarrow> small_pool p \<Longrightarrow>
    maybe_current_orbiter (rotated p) = Some \<lparr>co_account_id = turn p 0, co_removed = False\<rparr>"
  by (simp add: rotated_def rotate_orbiter_turn)

lemma turn_rotated:
  assumes "orbiters p \<noteq> []" and "small_pool p"
  shows "turn (rotated p) k = turn p (Suc k)"
proof -
  have "turn_start (rotated p) = Suc (turn_start p) mod length (orbiters p)"
    using assms turn_start_less [OF assms(1)]
    by (auto simp: rotated_def rotate_orbiter_turn turn_start_def [of "p\<lparr>next_orbiter := _\<rparr>"]
        turn_start_def [of "p\<lparr>maybe_current_orbiter := _, next_orbiter := _\<rparr>"] mod_Suc)
  then show ?thesis by (simp add: turn_def mod_add_left_eq)
qed

lemma turn_rotations:
  "orbiters p \<noteq> [] \<Longrightarrow> small_pool p \<Longrightarrow>
    orbiters ((rotated ^^ j) p) = orbiters p \<and> turn ((rotated ^^ j) p) k = turn p (j + k)"
  by (induction j arbitrary: k) (simp_all add: turn_rotated)

lemma turn_mem: "orbiters p \<noteq> [] \<Longrightarrow> turn p k \<in> set (orbiters p)"
  by (simp add: turn_def)

lemma turn_covers:
  assumes "orbiter \<in> set (orbiters p)"
  obtains k where "k < length (orbiters p)" and "turn p k = orbiter"
proof -
  let ?n = "length (orbiters p)" and ?s = "turn_start p"
  from assms obtain i where i: "i < ?n" "orbiters p ! i = orbiter" by (auto simp: in_set_conv_nth)
  have s: "?s < ?n" using assms by (intro turn_start_less) auto
  have "(?s + (i + ?n - ?s) mod ?n) mod ?n = i"
    using i(1) s by (simp add: mod_add_right_eq)
  moreover have "(i + ?n - ?s) mod ?n < ?n" using s by (intro mod_less_divisor) linarith
  ultimately show ?thesis using i(2) by (intro that [of "(i + ?n - ?s) mod ?n"]) (simp_all add: turn_def)
qed

section \<open>Adding and removing\<close>

lemma add_orbiter_insert:
  assumes "length (orbiters p) + 1 < u32_max"
  shows "add_orbiter p orbiter =
    (let n = (if next_orbiter p > length (orbiters p) then 0 else next_orbiter p)
     in Some (p\<lparr>orbiters := vec_insert n orbiter (orbiters p), next_orbiter := Suc n\<rparr>))"
  using assms by (simp add: add_orbiter_def as_u32_exact wrap_add_u32_exact Let_def)

text \<open>The orbiters in the order of their turns, and a newcomer at the end of it.\<close>

definition turn_order :: "CollatorPoolInfo \<Rightarrow> AccountId list" where
  "turn_order p = drop (turn_start p) (orbiters p) @ take (turn_start p) (orbiters p)"

lemma length_turn_order [simp]: "length (turn_order p) = length (orbiters p)"
  by (simp add: turn_order_def turn_start_def)

lemma turn_order_nth:
  assumes "k < length (orbiters p)"
  shows "turn_order p ! k = turn p k"
proof -
  have "turn_start p < length (orbiters p)" using assms by (intro turn_start_less) auto
  then show ?thesis using assms
    by (auto simp: turn_order_def turn_def nth_append mod_if add.commute)
qed

lemma turn_order_add:
  assumes "length (orbiters p) + 1 < u32_max" and "add_orbiter p orbiter = Some p'"
  shows "turn_order p' = turn_order p @ [orbiter]"
  using assms
  by (auto simp: add_orbiter_insert turn_order_def turn_start_def vec_insert_def Let_def min_def
      split: if_splits)

lemma vec_remove_position:
  "position (\<lambda>y. y = x) xs = Some i \<Longrightarrow> vec_remove i xs = remove1 x xs"
  by (induction xs arbitrary: i) (auto simp: vec_remove_def split: if_splits)

lemma remove_orbiter_cases:
  "remove_orbiter p orbiter =
    (if orbiter \<notin> set (orbiters p) then (OrbiterNotInPool, p)
     else if map_option co_account_id (maybe_current_orbiter p) = Some orbiter
     then (OrbiterRemoveScheduled,
           p\<lparr>orbiters := remove1 orbiter (orbiters p),
             maybe_current_orbiter :=
               map_option (co_removed_update (\<lambda>_. True)) (maybe_current_orbiter p)\<rparr>)
     else (OrbiterRemoved, p\<lparr>orbiters := remove1 orbiter (orbiters p)\<rparr>))"
proof (cases "position (\<lambda>x. x = orbiter) (orbiters p)")
  case None
  then show ?thesis by (auto simp add: remove_orbiter_def simp flip: position_None_iff)
    (auto simp: position_None_iff)
next
  case (Some i)
  then have "orbiter \<in> set (orbiters p)" by (auto simp: position_Some_iff)
  with Some show ?thesis
    by (auto simp: remove_orbiter_def vec_remove_position Let_def split: option.splits)
qed

lemma distinct_vec_insert [simp]: "distinct (vec_insert i x xs) \<longleftrightarrow> distinct xs \<and> x \<notin> set xs"
  using mset_eq_imp_distinct_iff [of "vec_insert i x xs" "x # xs"] by (simp add: mset_vec_insert conj_commute)

section \<open>Well-formed pools\<close>

text \<open>
  No orbiter twice, no more than the limit; the current orbiter is a member of the pool unless it
  is marked as removed.
\<close>

definition collator_pool_ok :: "nat \<Rightarrow> CollatorPoolInfo \<Rightarrow> bool" where
  "collator_pool_ok limit p \<longleftrightarrow> distinct (orbiters p) \<and> length (orbiters p) \<le> limit
     \<and> (case maybe_current_orbiter p of
          None \<Rightarrow> True
        | Some c \<Rightarrow> co_removed c \<or> co_account_id c \<in> set (orbiters p))"

lemma collator_pool_ok_default: "collator_pool_ok limit pool_default"
  by (simp add: collator_pool_ok_def pool_default_def)

lemma collator_pool_ok_rotated: "collator_pool_ok limit p \<Longrightarrow> limit < u32_max \<Longrightarrow> collator_pool_ok limit (rotated p)"
  by (cases "orbiters p = []")
    (auto simp: collator_pool_ok_def rotated_def rotate_orbiter_empty rotate_orbiter_turn turn_mem
      split: option.splits)

lemma collator_pool_ok_add:
  assumes "collator_pool_ok limit p" and "length (orbiters p) < limit" and "limit < u32_max"
    and "orbiter \<notin> set (orbiters p)"
  obtains p' where "add_orbiter p orbiter = Some p'" and "collator_pool_ok limit p'"
    and "set (orbiters p') = insert orbiter (set (orbiters p))"
    and "maybe_current_orbiter p' = maybe_current_orbiter p"
  using assms
  by (auto simp: add_orbiter_insert collator_pool_ok_def Let_def split: option.splits)

lemma collator_pool_ok_remove:
  assumes "collator_pool_ok limit p" and "remove_orbiter p orbiter = (r, p')"
  shows "collator_pool_ok limit p' \<and> (\<forall>a. contains_orbiter p' a \<longrightarrow> contains_orbiter p a)"
  using assms
  by (auto simp: remove_orbiter_cases collator_pool_ok_def contains_orbiter_def list_ex_iff length_remove1
      split: if_splits option.splits dest: notin_set_remove1)

section \<open>The authors of a round\<close>

definition authors_ok :: "RoundAuthors \<Rightarrow> bool" where
  "authors_ok ra \<longleftrightarrow> sorted_wrt (<) (map fst (ra_data ra))"

lemma sorted_vec_insert:
  assumes "sorted_wrt (<) (map fst xs)"
    and "\<forall>x \<in> set (take i xs). fst x < (k :: nat)" and "\<forall>x \<in> set (drop i xs). k < fst x"
  shows "sorted_wrt (<) (map fst (vec_insert i (k, v) xs))"
proof -
  have "sorted_wrt (<) (map fst (take i xs) @ map fst (drop i xs))"
    using assms(1) by (metis append_take_drop_id map_append)
  with assms(2,3) show ?thesis by (auto simp: vec_insert_def sorted_wrt_append)
qed

lemma map_of_vec_insert:
  assumes "\<forall>x \<in> set (take i xs). fst x \<noteq> k"
  shows "map_of (vec_insert i (k, v) xs) = (map_of xs)(k \<mapsto> v)"
proof -
  have "map_of xs = map_of (drop i xs) ++ map_of (take i xs)"
    by (metis append_take_drop_id map_of_append)
  moreover have "map_of (take i xs) k = None" using assms by (auto simp: map_of_eq_None_iff)
  ultimately show ?thesis
    by (auto simp: vec_insert_def fun_eq_iff map_add_def split: option.split)
qed

lemma map_of_update_nth:
  assumes "distinct (map fst xs)" and "i < length xs"
  shows "map_of (xs[i := (fst (xs ! i), v)]) = (map_of xs)(fst (xs ! i) \<mapsto> v)"
  using assms
proof (induction xs arbitrary: i)
  case Nil
  then show ?case by simp
next
  case (Cons x xs)
  then show ?case by (cases i) (auto simp: fun_eq_iff, metis imageI nth_mem)
qed

lemma map_fst_update_nth: "i < length xs \<Longrightarrow> map fst (xs[i := (fst (xs ! i), v)]) = map fst xs"
  using list_update_id [of "map fst xs" i] by (simp add: map_update del: list_update_id)

text \<open>One author more: the list stays sorted, that author's count goes up by one.\<close>

lemma add_author_step:
  assumes "authors_ok ra"
  shows "authors_ok (add_author ra a)
    \<and> map_of (ra_data (add_author ra a)) =
        (map_of (ra_data ra))(a \<mapsto> (case map_of (ra_data ra) a of None \<Rightarrow> 1 | Some n \<Rightarrow> sat_add_u32 n 1))"
proof -
  let ?d = "ra_data ra" and ?f = "\<lambda>p. cmp (fst p) a"
  have sorted: "sorted (map ?f ?d)"
    using assms unfolding authors_ok_def sorted_wrt_map
    by (elim sorted_wrt_mono_rel [rotated]) (auto simp: cmp_def)
  show ?thesis
  proof (cases "binary_search_by ?f ?d")
    case (Inr i)
    have i: "i < length ?d" "fst (?d ! i) = a" using binary_search_by_found [OF sorted Inr] by auto
    have "distinct (map fst ?d)"
      using assms by (simp add: authors_ok_def strict_sorted_iff)
    moreover from this i have "map_of ?d a = Some (snd (?d ! i))" by (auto simp: map_of_eq_Some_iff)
    ultimately show ?thesis using assms i Inr
      by (auto simp: add_author_def authors_ok_def map_fst_update_nth [of i, unfolded i]
          map_of_update_nth [of _ i, unfolded i])
  next
    case (Inl i)
    have i: "\<forall>x \<in> set (take i ?d). fst x < a" "\<forall>x \<in> set (drop i ?d). a < fst x"
      using binary_search_by_missing [OF sorted Inl] by auto
    have "a \<notin> fst ` (set (take i ?d) \<union> set (drop i ?d))" using i by auto
    then have "map_of ?d a = None" by (metis append_take_drop_id map_of_eq_None_iff set_append)
    moreover have "\<forall>x \<in> set (take i ?d). fst x \<noteq> a" using i by auto
    ultimately show ?thesis using assms i Inl
      by (auto simp: add_author_def authors_ok_def sorted_vec_insert map_of_vec_insert)
  qed
qed

text \<open>A whole round: every author with the number of its blocks.\<close>

definition tally :: "AccountId list \<Rightarrow> AccountId \<rightharpoonup> nat" where
  "tally xs a = (if a \<in> set xs then Some (count_list xs a) else None)"

lemma tally_snoc:
  "tally (xs @ [a]) = (tally xs)(a \<mapsto> (case tally xs a of None \<Rightarrow> 1 | Some n \<Rightarrow> n + 1))"
  by (auto simp: tally_def fun_eq_iff count_list_0_iff)

lemma add_authors:
  assumes "length xs \<le> u32_max"
  shows "authors_ok (foldl add_author round_authors_default xs)
    \<and> ra_blocks_count (foldl add_author round_authors_default xs) = length xs
    \<and> map_of (ra_data (foldl add_author round_authors_default xs)) = tally xs"
  using assms
proof (induction xs rule: rev_induct)
  case Nil
  then show ?case by (simp add: round_authors_default_def authors_ok_def tally_def fun_eq_iff)
next
  case (snoc a xs)
  let ?ra = "foldl add_author round_authors_default xs"
  have ih: "authors_ok ?ra" "ra_blocks_count ?ra = length xs" "map_of (ra_data ?ra) = tally xs"
    using snoc by simp_all
  have "count_list xs a \<le> length xs" by (rule count_le_length)
  then have "sat_add_u32 (count_list xs a) 1 = count_list xs a + 1"
    using snoc.prems by (intro sat_add_u32_exact) simp
  then have "(case tally xs a of None \<Rightarrow> 1 | Some n \<Rightarrow> sat_add_u32 n 1) =
      (case tally xs a of None \<Rightarrow> 1 | Some n \<Rightarrow> n + 1)" by (simp add: tally_def)
  moreover have "ra_blocks_count (add_author ?ra a) = length xs + 1"
    using ih(2) snoc.prems by (simp add: add_author_def Let_def wrap_add_u32_exact)
  ultimately show ?case
    using add_author_step [OF ih(1), of a] ih(3)
    by (simp add: tally_snoc del: One_nat_def)
qed

end
