(* ===== verification/Orbiter_Rotation.thy ===== *)
theory Orbiter_Rotation
  imports Orbiter_Pools
begin

text \<open>
  What one rotation does to the storage: the effect of rotating one pool as a function of the
  state, the rotation of all pools as its fold over them, and the rounds it assigns.
\<close>

section \<open>The rounds of a period\<close>

lemma assign_rounds_other:
  "c' \<noteq> c \<Longrightarrow> assign_rounds period r c a i m r' c' = m r' c'"
  by (induction period r c a i m rule: assign_rounds.induct) (subst assign_rounds.simps, simp)

lemma assign_rounds_own:
  "r + period \<le> u32_max \<Longrightarrow>
    assign_rounds period r c a i m r' c = (if r + i \<le> r' \<and> r' < r + period then Some a else m r' c)"
proof (induction period r c a i m rule: assign_rounds.induct)
  case (1 period r c a i m)
  show ?case
  proof (cases "i < period")
    case True
    then have sat: "sat_add_u32 r i = r + i" using "1.prems" by (intro sat_add_u32_exact) simp
    let ?m = "m(r + i := (m (r + i))(c \<mapsto> a))"
    have "assign_rounds period r c a (i + 1) ?m r' c =
        (if r + (i + 1) \<le> r' \<and> r' < r + period then Some a else ?m r' c)"
      using "1.IH" [OF True "1.prems"] unfolding sat .
    moreover have "assign_rounds period r c a i m = assign_rounds period r c a (i + 1) ?m"
      using True sat by (subst assign_rounds.simps) simp
    ultimately show ?thesis using True by (simp only: split: if_splits) auto
  next
    case False
    then show ?thesis by (subst assign_rounds.simps) auto
  qed
qed

section \<open>One pool\<close>

definition leave_event :: "AccountId \<Rightarrow> CollatorPoolInfo \<Rightarrow> orbiters_event list" where
  "leave_event c p = (case maybe_current_orbiter p of
      Some o' \<Rightarrow> (if co_removed o' then [OrbiterLeaveCollatorPool c (co_account_id o')] else [])
    | None \<Rightarrow> [])"

definition next_turn :: "CollatorPoolInfo \<Rightarrow> AccountId option" where
  "next_turn p = maybe_next_orbiter (fst (rotate_orbiter p))"

definition current_account :: "CollatorPoolInfo \<Rightarrow> AccountId option" where
  "current_account p = map_option co_account_id (maybe_current_orbiter p)"

text \<open>The overrides after the rotation of one pool.\<close>

definition rotate_overrides ::
  "AccountId \<Rightarrow> CollatorPoolInfo \<Rightarrow> (AccountId \<rightharpoonup> AccountId option) \<Rightarrow> (AccountId \<rightharpoonup> AccountId option)" where
  "rotate_overrides c p m =
     (let m = (case current_account p of None \<Rightarrow> m | Some old \<Rightarrow> m(old := None)) in
      case next_turn p of
        None \<Rightarrow> m(c := None)
      | Some next \<Rightarrow> m(c \<mapsto> None, next \<mapsto> Some c))"

definition rotate_rounds ::
  "RoundIndex \<Rightarrow> RoundIndex \<Rightarrow> AccountId \<Rightarrow> CollatorPoolInfo
   \<Rightarrow> (RoundIndex \<Rightarrow> AccountId \<rightharpoonup> AccountId) \<Rightarrow> RoundIndex \<Rightarrow> AccountId \<rightharpoonup> AccountId" where
  "rotate_rounds period r c p m =
     (case next_turn p of None \<Rightarrow> m | Some next \<Rightarrow> assign_rounds period r c next 0 m)"

definition rotate_effect ::
  "'w orbiters_config \<Rightarrow> RoundIndex \<Rightarrow> AccountId \<times> CollatorPoolInfo \<Rightarrow> 'w orbiters_state \<Rightarrow> 'w orbiters_state" where
  "rotate_effect cfg r = (\<lambda>(c, p) s. s\<lparr>
     AccountLookupOverride := rotate_overrides c p (AccountLookupOverride s),
     OrbiterPerRound := rotate_rounds (RotatePeriod cfg) r c p (OrbiterPerRound s),
     orb_events := orb_events s @ leave_event c p @ [OrbiterRotation c (current_account p) (next_turn p)]\<rparr>)"

lemma rotate_orbiter_old: "maybe_old_orbiter (fst (rotate_orbiter p)) = maybe_current_orbiter p"
  by (simp add: rotate_orbiter_def Let_def)

lemma rotate_pool_run:
  "rotate_pool cfg r c p s = (Ok (Some (rotated p)), rotate_effect cfg r (c, p) s)"
proof -
  obtain res p' where rot: "rotate_orbiter p = (res, p')" by (cases "rotate_orbiter p") auto
  then have "maybe_old_orbiter res = maybe_current_orbiter p" "rotated p = p'"
    "maybe_next_orbiter res = next_turn p"
    using rotate_orbiter_old [of p] by (simp_all add: rotated_def next_turn_def)
  then show ?thesis
    by (simp add: rotate_pool_def rot prog_defs deposit_orbiters_event_def remove_override_def
        put_override_def rotate_effect_def rotate_overrides_def rotate_rounds_def leave_event_def
        current_account_def Let_def split: option.split)
qed

section \<open>All pools\<close>

definition rotated_pools :: "(AccountId \<times> CollatorPoolInfo) list \<Rightarrow> (AccountId \<times> CollatorPoolInfo) list" where
  "rotated_pools = map (\<lambda>(c, p). (c, rotated p))"

lemma translate_rotate:
  "translate_entries (rotate_pool cfg r) xs s = (Ok (rotated_pools xs), fold (rotate_effect cfg r) xs s)"
  by (induction xs arbitrary: s)
    (auto simp: rotated_pools_def prog_defs rotate_pool_run split: prod.splits)

lemma on_rotate_run:
  "on_rotate cfg r s =
    (Ok (), (fold (rotate_effect cfg r) (CollatorsPool s) s)\<lparr>CollatorsPool := rotated_pools (CollatorsPool s)\<rparr>)"
  by (simp add: on_rotate_def prog_defs translate_rotate)

lemma fold_rotate_effect:
  "CollatorsPool (fold (rotate_effect cfg r) xs s) = CollatorsPool s"
  "CurrentRound (fold (rotate_effect cfg r) xs s) = CurrentRound s"
  "ForceRotation (fold (rotate_effect cfg r) xs s) = ForceRotation s"
  "MinOrbiterDeposit (fold (rotate_effect cfg r) xs s) = MinOrbiterDeposit s"
  "RegisteredOrbiter (fold (rotate_effect cfg r) xs s) = RegisteredOrbiter s"
  "orb_world (fold (rotate_effect cfg r) xs s) = orb_world s"
  "AccountLookupOverride (fold (rotate_effect cfg r) xs s) =
     fold (\<lambda>(c, p). rotate_overrides c p) xs (AccountLookupOverride s)"
  "OrbiterPerRound (fold (rotate_effect cfg r) xs s) =
     fold (\<lambda>(c, p). rotate_rounds (RotatePeriod cfg) r c p) xs (OrbiterPerRound s)"
  by (induction xs arbitrary: s) (auto simp: rotate_effect_def)

lemma next_turn_simps:
  "orbiters p = [] \<Longrightarrow> next_turn p = None"
  "orbiters p \<noteq> [] \<Longrightarrow> small_pool p \<Longrightarrow> next_turn p = Some (turn p 0)"
  by (simp_all add: next_turn_def rotate_orbiter_empty rotate_orbiter_turn)

lemma next_turn_mem: "next_turn p = Some a \<Longrightarrow> a \<in> set (orbiters p)"
  by (auto simp: next_turn_def rotate_orbiter_def Let_def split: if_splits)

subsection \<open>The rounds assigned\<close>

lemma rotate_rounds_other: "c \<noteq> c' \<Longrightarrow> rotate_rounds period r c' p m r' c = m r' c"
  by (simp add: rotate_rounds_def assign_rounds_other split: option.split)

lemma fold_rotate_rounds:
  assumes "distinct (map fst xs)" and "r + period \<le> u32_max"
  shows "fold (\<lambda>(c, p). rotate_rounds period r c p) xs m r' c =
    (case map_of xs c of
       None \<Rightarrow> m r' c
     | Some p \<Rightarrow>
         (case next_turn p of
            None \<Rightarrow> m r' c
          | Some a \<Rightarrow> if r \<le> r' \<and> r' < r + period then Some a else m r' c))"
  using assms(1)
proof (induction xs arbitrary: m)
  case Nil
  then show ?case by simp
next
  case (Cons x xs)
  obtain c' p where x: "x = (c', p)" by (cases x)
  show ?case
  proof (cases "c' = c")
    case True
    then have "map_of xs c = None" using Cons.prems x by (auto simp: map_of_eq_None_iff)
    then show ?thesis using True Cons assms(2) x
      by (simp add: rotate_rounds_def assign_rounds_own split: option.split)
  next
    case False
    then have other: "rotate_rounds period r c' p m r' c = m r' c" by (intro rotate_rounds_other) simp
    show ?thesis
      using Cons.IH [of "rotate_rounds period r c' p m", unfolded other] Cons.prems False x by simp
  qed
qed

subsection \<open>The overrides\<close>

text \<open>The accounts a pool's rotation may touch.\<close>

definition pool_accounts :: "AccountId \<times> CollatorPoolInfo \<Rightarrow> AccountId set" where
  "pool_accounts = (\<lambda>(c, p). insert c (set (orbiters p) \<union> set_option (current_account p)))"

text \<open>
  Every account serves at most one pool, and no collator of the program is an orbiter in its own.
\<close>

definition pools_apart :: "(AccountId \<times> CollatorPoolInfo) list \<Rightarrow> bool" where
  "pools_apart xs \<longleftrightarrow> distinct (map fst xs)
     \<and> (\<forall>x \<in> set xs. \<forall>y \<in> set xs. fst x \<noteq> fst y \<longrightarrow> pool_accounts x \<inter> pool_accounts y = {})
     \<and> (\<forall>(c, p) \<in> set xs. c \<notin> set (orbiters p) \<and> current_account p \<noteq> Some c)"

lemma rotate_overrides_outside:
  "a \<notin> pool_accounts (c, p) \<Longrightarrow> rotate_overrides c p m a = m a"
  using next_turn_mem [of p]
  by (fastforce simp: rotate_overrides_def pool_accounts_def Let_def split: option.splits)

lemma fold_rotate_overrides_outside:
  "\<forall>x \<in> set xs. a \<notin> pool_accounts x \<Longrightarrow> fold (\<lambda>(c, p). rotate_overrides c p) xs m a = m a"
proof (induction xs arbitrary: m)
  case Nil
  then show ?case by simp
next
  case (Cons x xs)
  then show ?case by (cases x) (simp add: rotate_overrides_outside)
qed

lemma fold_rotate_overrides:
  assumes "pools_apart xs" and "(c, p) \<in> set xs" and "a \<in> pool_accounts (c, p)"
  shows "\<exists>m'. fold (\<lambda>(c, p). rotate_overrides c p) xs m a = rotate_overrides c p m' a \<and> m' a = m a"
  using assms
proof (induction xs arbitrary: m)
  case Nil
  then show ?case by simp
next
  case (Cons x xs)
  have apart: "pools_apart xs" using Cons.prems(1) by (auto simp: pools_apart_def)
  show ?case
  proof (cases "x = (c, p)")
    case True
    have "\<forall>y \<in> set xs. a \<notin> pool_accounts y"
      using Cons.prems(1,3) True by (fastforce simp: pools_apart_def)
    then show ?thesis using True by (auto simp: fold_rotate_overrides_outside)
  next
    case False
    then have mem: "(c, p) \<in> set xs" using Cons.prems(2) by auto
    obtain c' p' where x: "x = (c', p')" by (cases x)
    have "fst x \<noteq> c" using Cons.prems(1) mem by (force simp: pools_apart_def)
    then have "a \<notin> pool_accounts (c', p')"
      using Cons.prems x mem by (auto simp: pools_apart_def)
    then have "rotate_overrides c' p' m a = m a" by (rule rotate_overrides_outside)
    with Cons.IH [OF apart mem Cons.prems(3), of "rotate_overrides c' p' m"] show ?thesis
      by (simp add: x)
  qed
qed

end
