(* ===== verification/Orbiter_Invariants.thy ===== *)
theory Orbiter_Invariants
  imports Orbiter_Rotation
begin

text \<open>
  The orbiters pallet as a transition system: the calls under the dispatch layer, the hooks the
  runtime fires, and the moves of the other pallets; and the invariant all of them keep.
\<close>

section \<open>The calls\<close>

datatype orbiters_call =
    CollatorAddOrbiter AccountId
  | CollatorRemoveOrbiter AccountId
  | OrbiterLeaveCollatorPoolCall AccountId
  | OrbiterRegister
  | OrbiterUnregister nat
  | AddCollator AccountId
  | RemoveCollator AccountId

fun orbiters_call_body :: "'w orbiters_config \<Rightarrow> origin \<Rightarrow> orbiters_call \<Rightarrow> ('w, unit) orbiters_m" where
  "orbiters_call_body cfg o' (CollatorAddOrbiter a) = collator_add_orbiter cfg o' a"
| "orbiters_call_body cfg o' (CollatorRemoveOrbiter a) = collator_remove_orbiter cfg o' a"
| "orbiters_call_body cfg o' (OrbiterLeaveCollatorPoolCall a) = orbiter_leave_collator_pool cfg o' a"
| "orbiters_call_body cfg o' OrbiterRegister = orbiter_register cfg o'"
| "orbiters_call_body cfg o' (OrbiterUnregister n) = orbiter_unregister cfg o' n"
| "orbiters_call_body cfg o' (AddCollator a) = add_collator cfg o' a"
| "orbiters_call_body cfg o' (RemoveCollator a) = remove_collator cfg o' a"

definition orbiters_dispatch :: "'w orbiters_config \<Rightarrow> origin \<Rightarrow> orbiters_call \<Rightarrow> ('w, unit) orbiters_m" where
  "orbiters_dispatch cfg o' c = transactional (orbiters_call_body cfg o' c)"

section \<open>Laws of the parameters\<close>

text \<open>
  Documented behaviour of \<open>NamedReservableCurrency\<close>, for the reserves under this pallet's
  identifier: \<open>ensure_reserved_named\<close> sets the reserve to the amount, \<open>unreserve_all_named\<close>
  empties it, a deposit of free balance leaves it alone, and neither touches other accounts.
\<close>

definition reserve_laws :: "'w orbiters_config \<Rightarrow> bool" where
  "reserve_laws cfg \<longleftrightarrow>
     (\<forall>a v w w' b. ensure_reserved_named cfg a v w = Some w' \<longrightarrow>
        reserved_balance_named cfg w' b = (if b = a then v else reserved_balance_named cfg w b))
   \<and> (\<forall>a w b. reserved_balance_named cfg (unreserve_all_named cfg a w) b =
        (if b = a then 0 else reserved_balance_named cfg w b))
   \<and> (\<forall>a v w w' b. orb_deposit_into_existing cfg a v w = Some w' \<longrightarrow>
        reserved_balance_named cfg w' b = reserved_balance_named cfg w b)"

definition orbiters_config_ok :: "'w orbiters_config \<Rightarrow> bool" where
  "orbiters_config_ok cfg \<longleftrightarrow>
     inj (pool_key_order cfg) \<and> MaxPoolSize cfg < u32_max \<and> 0 < RotatePeriod cfg"

section \<open>The invariant\<close>

definition orbiters_ok :: "'w orbiters_config \<Rightarrow> 'w orbiters_state \<Rightarrow> bool" where
  "orbiters_ok cfg s \<longleftrightarrow>
     prefix_ordered (pool_key_order cfg) (CollatorsPool s)
   \<and> (\<forall>x \<in> set (CollatorsPool s). collator_pool_ok (MaxPoolSize cfg) (snd x))
   \<and> (\<forall>x \<in> set (CollatorsPool s). \<forall>a. contains_orbiter (snd x) a \<longrightarrow>
        0 < reserved_balance_named cfg (orb_world s) a)
   \<and> (\<forall>a. RegisteredOrbiter s a =
        (if 0 < reserved_balance_named cfg (orb_world s) a then Some True else None))
   \<and> (\<forall>d. MinOrbiterDeposit s = Some d \<longrightarrow> 0 < d)"

text \<open>Writing one pool.\<close>

lemma orbiters_ok_put:
  assumes "orbiters_ok cfg s" and "inj (pool_key_order cfg)" and "collator_pool_ok (MaxPoolSize cfg) p"
    and "\<And>a. contains_orbiter p a \<Longrightarrow> 0 < reserved_balance_named cfg (orb_world s) a"
  shows "orbiters_ok cfg (s\<lparr>CollatorsPool := prefix_insert (pool_key_order cfg) c p (CollatorsPool s)\<rparr>)"
  using assms set_prefix_insert_subset [of "pool_key_order cfg" c p "CollatorsPool s"]
  by (auto simp: orbiters_ok_def prefix_ordered_insert)

lemma orbiters_ok_frame [simp]:
  "orbiters_ok cfg (s\<lparr>orb_events := e\<rparr>) = orbiters_ok cfg s"
  "orbiters_ok cfg (s\<lparr>AccountLookupOverride := m\<rparr>) = orbiters_ok cfg s"
  "orbiters_ok cfg (s\<lparr>OrbiterPerRound := r\<rparr>) = orbiters_ok cfg s"
  "orbiters_ok cfg (s\<lparr>CurrentRound := n\<rparr>) = orbiters_ok cfg s"
  "orbiters_ok cfg (s\<lparr>ForceRotation := b\<rparr>) = orbiters_ok cfg s"
  "orbiters_ok cfg (s\<lparr>orb_events := e, CollatorsPool := q\<rparr>) = orbiters_ok cfg (s\<lparr>CollatorsPool := q\<rparr>)"
  by (simp_all add: orbiters_ok_def)

lemma orbiters_ok_found:
  "orbiters_ok cfg s \<Longrightarrow> map_of (CollatorsPool s) c = Some p \<Longrightarrow>
    collator_pool_ok (MaxPoolSize cfg) p
    \<and> (\<forall>a. contains_orbiter p a \<longrightarrow> 0 < reserved_balance_named cfg (orb_world s) a)"
  by (auto simp: orbiters_ok_def dest!: map_of_SomeD)

lemma orbiters_ok_drop:
  "orbiters_ok cfg s \<Longrightarrow> orbiters_ok cfg (s\<lparr>CollatorsPool := prefix_remove c (CollatorsPool s)\<rparr>)"
  by (auto simp: orbiters_ok_def prefix_ordered_remove) (auto simp: prefix_remove_def)

lemma orbiters_ok_world:
  "orbiters_ok cfg s \<Longrightarrow> \<forall>a. reserved_balance_named cfg w a = reserved_balance_named cfg (orb_world s) a
    \<Longrightarrow> orbiters_ok cfg (s\<lparr>orb_world := w\<rparr>)"
  by (simp add: orbiters_ok_def)

section \<open>Every operation keeps it\<close>

text \<open>\<open>keeps cfg m\<close>: from a state of the invariant the program does not panic and leaves one.\<close>

definition keeps :: "'w orbiters_config \<Rightarrow> ('w, 'a) orbiters_m \<Rightarrow> bool" where
  "keeps cfg m \<longleftrightarrow> (\<forall>s. orbiters_ok cfg s \<longrightarrow>
     wp m (\<lambda>_. orbiters_ok cfg) (\<lambda>_. orbiters_ok cfg) s)"

lemma keeps_add_orbiter:
  assumes "orbiters_config_ok cfg"
  shows "keeps cfg (collator_add_orbiter cfg o' a)"
  unfolding keeps_def
proof (intro allI impI)
  fix s assume ok: "orbiters_ok cfg s"
  have put: "\<exists>p'. add_orbiter p b = Some p'
      \<and> orbiters_ok cfg (s\<lparr>CollatorsPool := prefix_insert (pool_key_order cfg) c p' (CollatorsPool s)\<rparr>)"
    if asm: "map_of (CollatorsPool s) c = Some p" "length (orbiters p) < MaxPoolSize cfg"
      "b \<notin> set (orbiters p)" "0 < reserved_balance_named cfg (orb_world s) b" for c p b
  proof -
    note found = orbiters_ok_found [OF ok asm(1)]
    then obtain p' where p': "add_orbiter p b = Some p'" "collator_pool_ok (MaxPoolSize cfg) p'"
        "set (orbiters p') = insert b (set (orbiters p))"
        "maybe_current_orbiter p' = maybe_current_orbiter p"
      using assms collator_pool_ok_add [OF found [THEN conjunct1] asm(2) _ asm(3)]
      unfolding orbiters_config_ok_def by metis
    then have "0 < reserved_balance_named cfg (orb_world s) x" if "contains_orbiter p' x" for x
      using that asm(4) found
      by (auto simp: contains_orbiter_def list_ex_iff)
    then show ?thesis using p' ok assms
      by (auto simp: orbiters_config_ok_def intro!: orbiters_ok_put)
  qed
  have small: "as_u32 (length (orbiters p)) = length (orbiters p)"
    if "map_of (CollatorsPool s) c = Some p" for c p
    using orbiters_ok_found [OF ok that] assms
    by (simp add: collator_pool_ok_def orbiters_config_ok_def as_u32_exact)
  show "wp (collator_add_orbiter cfg o' a) (\<lambda>_. orbiters_ok cfg) (\<lambda>_. orbiters_ok cfg) s"
    using ok by (auto simp: collator_add_orbiter_def wp_simps prefix_get_def list_ex_iff small
        split: origin.split option.split dest: put)
qed

lemma keeps_remove:
  assumes "orbiters_config_ok cfg"
  shows "keeps cfg (do_remove_orbiter_from_pool cfg c a)"
  unfolding keeps_def
proof (intro allI impI)
  fix s assume ok: "orbiters_ok cfg s"
  have put: "orbiters_ok cfg (s\<lparr>CollatorsPool := prefix_insert (pool_key_order cfg) c p' (CollatorsPool s)\<rparr>)"
    if "map_of (CollatorsPool s) c = Some p" "remove_orbiter p a = (r, p')" for p r p'
    using orbiters_ok_found [OF ok that(1)] collator_pool_ok_remove [OF _ that(2)] ok assms
    by (auto simp: orbiters_config_ok_def intro!: orbiters_ok_put)
  show "wp (do_remove_orbiter_from_pool cfg c a) (\<lambda>_. orbiters_ok cfg) (\<lambda>_. orbiters_ok cfg) s"
    using ok put
    by (auto simp: do_remove_orbiter_from_pool_def wp_simps prefix_get_def
        split: option.split prod.split RemoveOrbiterResult.split)
qed

lemma keeps_register:
  assumes "reserve_laws cfg"
  shows "keeps cfg (orbiter_register cfg o')"
  unfolding keeps_def
proof (intro allI impI)
  fix s assume ok: "orbiters_ok cfg s"
  have put: "orbiters_ok cfg (s\<lparr>orb_world := w, RegisteredOrbiter := (RegisteredOrbiter s)(a \<mapsto> True)\<rparr>)"
    if "MinOrbiterDeposit s = Some d" "ensure_reserved_named cfg a d (orb_world s) = Some w" for a d w
    using ok that assms unfolding orbiters_ok_def reserve_laws_def by auto
  show "wp (orbiter_register cfg o') (\<lambda>_. orbiters_ok cfg) (\<lambda>_. orbiters_ok cfg) s"
    using ok by (auto simp: orbiter_register_def wp_simps put split: origin.split option.split)
qed

lemma keeps_unregister:
  assumes "reserve_laws cfg"
  shows "keeps cfg (orbiter_unregister cfg o' n)"
  unfolding keeps_def
proof (intro allI impI)
  fix s assume ok: "orbiters_ok cfg s"
  have drop: "orbiters_ok cfg (s\<lparr>orb_world := unreserve_all_named cfg a (orb_world s),
      RegisteredOrbiter := (RegisteredOrbiter s)(a := None)\<rparr>)"
    if "\<not> list_ex (\<lambda>p. contains_orbiter (snd p) a) (CollatorsPool s)" for a
    using ok that assms unfolding orbiters_ok_def reserve_laws_def by (auto simp: list_ex_iff)
  show "wp (orbiter_unregister cfg o' n) (\<lambda>_. orbiters_ok cfg) (\<lambda>_. orbiters_ok cfg) s"
    using ok by (auto simp: orbiter_unregister_def wp_simps drop split: origin.split)
qed

lemma contains_orbiter_default: "\<not> contains_orbiter pool_default a"
  by (simp add: contains_orbiter_def pool_default_def)

lemma keeps_add_collator:
  assumes "orbiters_config_ok cfg"
  shows "keeps cfg (add_collator cfg o' a)"
  using assms
  by (auto simp: keeps_def add_collator_def wp_simps orbiters_config_ok_def collator_pool_ok_default
      contains_orbiter_default split: option.split intro!: orbiters_ok_put)

lemma wp_remove_overrides:
  "orbiters_ok cfg s \<Longrightarrow> wp (for_each_m remove_override xs) (\<lambda>_. orbiters_ok cfg) E s"
  by (rule wp_for_each [where I = "\<lambda>_. orbiters_ok cfg"]) (simp_all add: wp_simps)

lemma keeps_remove_collator: "keeps cfg (remove_collator cfg o' a)"
  by (auto simp: keeps_def remove_collator_def wp_simps orbiters_ok_drop
      split: option.split intro!: wp_mono [OF wp_remove_overrides])

lemma keeps_call:
  assumes "orbiters_config_ok cfg" and "reserve_laws cfg"
  shows "keeps cfg (orbiters_call_body cfg o' c)"
proof (cases c)
  case (CollatorRemoveOrbiter a)
  then show ?thesis using keeps_remove [OF assms(1)]
    by (auto simp: keeps_def collator_remove_orbiter_def wp_simps split: origin.split option.split)
next
  case (OrbiterLeaveCollatorPoolCall a)
  then show ?thesis using keeps_remove [OF assms(1)]
    by (auto simp: keeps_def orbiter_leave_collator_pool_def wp_simps split: origin.split option.split)
qed (use assms in \<open>simp_all add: keeps_add_orbiter keeps_register keeps_unregister
  keeps_add_collator keeps_remove_collator\<close>)

lemma contains_rotated: "contains_orbiter (rotated p) a \<Longrightarrow> contains_orbiter p a"
  by (auto simp: contains_orbiter_def rotated_def rotate_orbiter_def Let_def list_ex_iff
      split: option.splits if_splits)

lemma orbiters_ok_rotate:
  assumes "orbiters_config_ok cfg" and "orbiters_ok cfg s"
  shows "wp (on_rotate cfg r) (\<lambda>_. orbiters_ok cfg) E s"
proof -
  let ?t = "fold (rotate_effect cfg r) (CollatorsPool s) s"
  have keys: "map fst (rotated_pools xs) = map fst xs" for xs
    by (induction xs) (auto simp: rotated_pools_def)
  have pools: "\<forall>x \<in> set (rotated_pools (CollatorsPool s)). collator_pool_ok (MaxPoolSize cfg) (snd x)
      \<and> (\<forall>a. contains_orbiter (snd x) a \<longrightarrow> 0 < reserved_balance_named cfg (orb_world s) a)"
    using assms unfolding orbiters_ok_def orbiters_config_ok_def rotated_pools_def
    by (fastforce simp: collator_pool_ok_rotated dest: contains_rotated)
  have "orbiters_ok cfg (?t\<lparr>CollatorsPool := rotated_pools (CollatorsPool s)\<rparr>)"
    using assms(2) pools
    by (simp add: orbiters_ok_def fold_rotate_effect prefix_ordered_keys [OF keys])
  then show ?thesis by (simp add: wp_def on_rotate_run)
qed

lemma keeps_new_round:
  assumes "orbiters_config_ok cfg"
  shows "keeps cfg (orbiters_on_new_round cfg r)"
  using assms orbiters_ok_rotate [OF assms]
  by (auto simp: keeps_def orbiters_on_new_round_def wp_simps orbiters_config_ok_def)

lemma keeps_distribute:
  assumes "reserve_laws cfg"
  shows "keeps cfg (distribute_rewards cfg r c v)"
  using assms
  by (auto simp: keeps_def distribute_rewards_def wp_simps reserve_laws_def
      intro!: orbiters_ok_world split: option.split)

lemma keeps_initialize: "keeps cfg (orbiters_on_initialize cfg)"
  by (auto simp: keeps_def orbiters_on_initialize_def wp_simps)

section \<open>The transition system\<close>

text \<open>
  A step is a dispatched call, the block hook, the notice of a new round, a payout, or a change
  of the other pallets' storage that leaves this pallet's reserves alone.
\<close>

inductive orbiters_step :: "'w orbiters_config \<Rightarrow> 'w orbiters_state \<Rightarrow> 'w orbiters_state \<Rightarrow> bool"
  for cfg :: "'w orbiters_config" where
  step_call: "orbiters_step cfg s (snd (orbiters_dispatch cfg o' c s))"
| step_initialize: "orbiters_step cfg s (snd (orbiters_on_initialize cfg s))"
| step_new_round: "orbiters_step cfg s (snd (orbiters_on_new_round cfg r s))"
| step_distribute: "orbiters_step cfg s (snd (distribute_rewards cfg r c v s))"
| step_world: "\<forall>a. reserved_balance_named cfg w a = reserved_balance_named cfg (orb_world s) a
    \<Longrightarrow> orbiters_step cfg s (s\<lparr>orb_world := w\<rparr>)"

inductive_cases orbiters_stepE: "orbiters_step cfg s t"

definition orbiters_empty :: "'w \<Rightarrow> 'w orbiters_state" where
  "orbiters_empty w =
     \<lparr>AccountLookupOverride = Map.empty, CollatorsPool = [], CurrentRound = 0, ForceRotation = False,
      MinOrbiterDeposit = None, OrbiterPerRound = \<lambda>_. Map.empty, RegisteredOrbiter = Map.empty,
      orb_events = [], orb_world = w\<rparr>"

inductive orbiters_reachable :: "'w orbiters_config \<Rightarrow> 'w orbiters_state \<Rightarrow> bool"
  for cfg :: "'w orbiters_config" where
  at_genesis: "orbiters_genesis d (orbiters_empty w) = (Ok (), s) \<Longrightarrow>
    \<forall>a. reserved_balance_named cfg w a = 0 \<Longrightarrow> orbiters_reachable cfg s"
| by_step: "orbiters_reachable cfg s \<Longrightarrow> orbiters_step cfg s t \<Longrightarrow> orbiters_reachable cfg t"

lemma keeps_state: "keeps cfg m \<Longrightarrow> orbiters_ok cfg s \<Longrightarrow> orbiters_ok cfg (snd (m s))"
  unfolding keeps_def wp_iff by fastforce

lemma keeps_transactional: "keeps cfg m \<Longrightarrow> keeps cfg (transactional m)"
  unfolding keeps_def by (auto simp: wp_simps elim!: wp_mono)

lemma genesis_ok:
  "orbiters_genesis d (orbiters_empty w) = (Ok (), s) \<Longrightarrow>
    \<forall>a. reserved_balance_named cfg w a = 0 \<Longrightarrow> orbiters_ok cfg s"
  by (auto simp: orbiters_genesis_def prog_defs orbiters_empty_def orbiters_ok_def
      prefix_ordered_def split: if_splits)

lemma step_keeps:
  assumes "orbiters_config_ok cfg" and "reserve_laws cfg"
    and "orbiters_step cfg s t" and "orbiters_ok cfg s"
  shows "orbiters_ok cfg t"
  using assms(3)
proof (cases rule: orbiters_step.cases)
  case (step_call o' c)
  then show ?thesis using keeps_call [OF assms(1,2)] assms(4)
    by (simp add: orbiters_dispatch_def keeps_transactional keeps_state)
qed (use assms in \<open>simp_all add: keeps_state keeps_initialize keeps_new_round keeps_distribute
  orbiters_ok_world\<close>)

lemma reachable_ok:
  assumes "orbiters_reachable cfg s" and "orbiters_config_ok cfg" and "reserve_laws cfg"
  shows "orbiters_ok cfg s"
  using assms by (induction rule: orbiters_reachable.induct) (auto intro: genesis_ok step_keeps)

end
