(* ===== verification/Orbiter_Runs.thy ===== *)
theory Orbiter_Runs
  imports Orbiter_Invariants
begin

text \<open>
  A run of consecutive rounds with no call in between: which orbiter each round is assigned to.
\<close>

section \<open>One round\<close>

definition run_rounds :: "'w orbiters_config \<Rightarrow> RoundIndex \<Rightarrow> nat \<Rightarrow> ('w, unit) orbiters_m" where
  "run_rounds cfg r n = for_each_m (orbiters_on_new_round cfg) [r ..< r + n]"

lemma for_each_append:
  "for_each_m f (xs @ ys) = then_m (for_each_m f xs) (for_each_m f ys)"
  by (induction xs) (auto simp: prog_defs fun_eq_iff split: prod.splits outcome.splits)

lemma run_rounds_add:
  "run_rounds cfg r (m + n) = then_m (run_rounds cfg r m) (run_rounds cfg (r + m) n)"
  using upt_add_eq_append [of r "r + m" n]
  by (simp add: run_rounds_def for_each_append add.assoc)

definition rotated_state :: "'w orbiters_config \<Rightarrow> RoundIndex \<Rightarrow> 'w orbiters_state \<Rightarrow> 'w orbiters_state" where
  "rotated_state cfg r s = snd (on_rotate cfg r s)"

lemma rotated_state_simps:
  "CollatorsPool (rotated_state cfg r s) = rotated_pools (CollatorsPool s)"
  "ForceRotation (rotated_state cfg r s) = ForceRotation s"
  "OrbiterPerRound (rotated_state cfg r s) =
     fold (\<lambda>(c, p). rotate_rounds (RotatePeriod cfg) r c p) (CollatorsPool s) (OrbiterPerRound s)"
  by (simp_all add: rotated_state_def on_rotate_run fold_rotate_effect)

lemma new_round_rotates:
  "\<not> ForceRotation s \<Longrightarrow> 0 < RotatePeriod cfg \<Longrightarrow> r mod RotatePeriod cfg = 0 \<Longrightarrow>
    orbiters_on_new_round cfg r s = (Ok (), rotated_state cfg r (s\<lparr>CurrentRound := r\<rparr>))"
  by (simp add: orbiters_on_new_round_def prog_defs on_rotate_run rotated_state_def)

lemma new_round_idle:
  "\<not> ForceRotation s \<Longrightarrow> r mod RotatePeriod cfg \<noteq> 0 \<Longrightarrow> 0 < RotatePeriod cfg \<Longrightarrow>
    orbiters_on_new_round cfg r s = (Ok (), s\<lparr>CurrentRound := r\<rparr>)"
  by (simp add: orbiters_on_new_round_def prog_defs)

section \<open>One period\<close>

lemma idle_rounds:
  assumes "\<not> ForceRotation s" and "0 < RotatePeriod cfg"
    and "\<forall>r \<in> set rs. r mod RotatePeriod cfg \<noteq> 0"
  shows "\<exists>n. for_each_m (orbiters_on_new_round cfg) rs s = (Ok (), s\<lparr>CurrentRound := n\<rparr>)"
  using assms
proof (induction rs arbitrary: s)
  case Nil
  then show ?case by (intro exI [of _ "CurrentRound s"]) (simp add: prog_defs)
next
  case (Cons r rs)
  then have "\<exists>n. for_each_m (orbiters_on_new_round cfg) rs (s\<lparr>CurrentRound := r\<rparr>) =
      (Ok (), s\<lparr>CurrentRound := r, CurrentRound := n\<rparr>)" by (intro Cons.IH) auto
  with Cons.prems show ?case by (auto simp: prog_defs new_round_idle)
qed

lemma one_period:
  assumes "\<not> ForceRotation s" and "0 < RotatePeriod cfg" and "r mod RotatePeriod cfg = 0"
  shows "\<exists>n. run_rounds cfg r (RotatePeriod cfg) s =
    (Ok (), rotated_state cfg r (s\<lparr>CurrentRound := r\<rparr>)\<lparr>CurrentRound := n\<rparr>)"
proof -
  have rs: "[r ..< r + RotatePeriod cfg] = r # [Suc r ..< r + RotatePeriod cfg]"
    using assms(2) by (simp add: upt_rec)
  have "\<forall>x \<in> set [Suc r ..< r + RotatePeriod cfg]. x mod RotatePeriod cfg \<noteq> 0"
  proof
    fix x assume "x \<in> set [Suc r ..< r + RotatePeriod cfg]"
    then have x: "r < x" "x - r < RotatePeriod cfg" by auto
    then have "x mod RotatePeriod cfg = (x - r) mod RotatePeriod cfg"
      using assms(3) by (metis add.left_neutral add_diff_inverse_nat less_imp_not_less mod_add_left_eq)
    with x show "x mod RotatePeriod cfg \<noteq> 0" by simp
  qed
  with idle_rounds [of "rotated_state cfg r (s\<lparr>CurrentRound := r\<rparr>)" cfg] assms
  show ?thesis unfolding run_rounds_def rs
    by (auto simp: prog_defs new_round_rotates rotated_state_simps)
qed

section \<open>Many periods\<close>

text \<open>After \<open>j\<close> periods from round \<open>r\<close>: pool \<open>c\<close> has rotated \<open>j\<close> times, and its rounds are taken in turn.\<close>

definition turns_taken ::
  "'w orbiters_config \<Rightarrow> RoundIndex \<Rightarrow> AccountId \<Rightarrow> CollatorPoolInfo \<Rightarrow> nat \<Rightarrow> 'w orbiters_state \<Rightarrow> bool" where
  "turns_taken cfg r c p j s \<longleftrightarrow> \<not> ForceRotation s \<and> distinct (map fst (CollatorsPool s))
     \<and> map_of (CollatorsPool s) c = Some ((rotated ^^ j) p)
     \<and> (\<forall>i < j * RotatePeriod cfg. OrbiterPerRound s (r + i) c = Some (turn p (i div RotatePeriod cfg)))"

lemma map_fst_rotated_pools [simp]: "map fst (rotated_pools xs) = map fst xs"
  by (induction xs) (auto simp: rotated_pools_def)

lemma map_of_rotated_pools: "map_of (rotated_pools xs) c = map_option rotated (map_of xs c)"
  by (induction xs) (auto simp: rotated_pools_def)

lemma turns_taken_Suc:
  assumes "turns_taken cfg r c p j s" and "orbiters p \<noteq> []" and "small_pool p"
    and "0 < RotatePeriod cfg" and "r + Suc j * RotatePeriod cfg \<le> u32_max"
  shows "turns_taken cfg r c p (Suc j)
    (rotated_state cfg (r + j * RotatePeriod cfg) (s\<lparr>CurrentRound := n\<rparr>)\<lparr>CurrentRound := n'\<rparr>)"
proof -
  let ?P = "RotatePeriod cfg"
  have "next_turn ((rotated ^^ j) p) = Some (turn p j)"
    using turn_rotations [OF assms(2,3), of j 0] assms(2,3) by (simp add: next_turn_simps)
  moreover have "r + j * ?P + ?P \<le> u32_max" using assms(5) by (simp add: algebra_simps)
  moreover have "i div ?P = j" if "j * ?P \<le> i" "i < ?P + j * ?P" for i
    using that by (intro div_nat_eqI) (auto simp: algebra_simps)
  ultimately show ?thesis using assms(1,4)
    by (auto simp: turns_taken_def rotated_state_simps map_of_rotated_pools fold_rotate_rounds)
qed

lemma turns_run:
  assumes "turns_taken cfg r c p 0 s" and "orbiters p \<noteq> []" and "small_pool p"
    and "0 < RotatePeriod cfg" and "r mod RotatePeriod cfg = 0"
    and "r + j * RotatePeriod cfg \<le> u32_max"
  shows "wp (run_rounds cfg r (j * RotatePeriod cfg)) (\<lambda>_. turns_taken cfg r c p j) E s"
  using assms(6)
proof (induction j)
  case 0
  then show ?case using assms(1) by (simp add: run_rounds_def wp_simps)
next
  case (Suc j)
  let ?P = "RotatePeriod cfg"
  have "wp (run_rounds cfg (r + j * ?P) ?P) (\<lambda>_. turns_taken cfg r c p (Suc j)) E t"
    if taken: "turns_taken cfg r c p j t" for t
  proof -
    have "(r + j * ?P) mod ?P = 0" using assms(5) by simp
    then obtain n where "run_rounds cfg (r + j * ?P) ?P t =
        (Ok (), rotated_state cfg (r + j * ?P) (t\<lparr>CurrentRound := r + j * ?P\<rparr>)\<lparr>CurrentRound := n\<rparr>)"
      using one_period [of t cfg "r + j * ?P"] taken assms(4) by (auto simp: turns_taken_def)
    then show ?thesis
      using turns_taken_Suc [OF taken assms(2,3,4)] Suc.prems by (simp add: wp_def)
  qed
  moreover have "Suc j * ?P = j * ?P + ?P" by simp
  ultimately show ?case using Suc
    by (simp only: run_rounds_add wp_then) (auto intro: wp_mono)
qed

end
