(* ===== verification/Moonbeam_Runtime.thy ===== *)
theory Moonbeam_Runtime
  imports Orbiter_Runs Calls
begin

text \<open>
  The Moonbeam runtime's composition of the staking and the orbiters pallets: its constants, and
  the handlers that make a new round rotate the orbiters, pay a collator's reward to the orbiter
  who served for it, and take an inactive collator offline unless orbiters run it.
\<close>

section \<open>Constants\<close>

definition SUPPLY_FACTOR :: Balance where "SUPPLY_FACTOR = 100"
definition MILLIGLMR :: Balance where "MILLIGLMR = 1000000000000000"
definition GLMR :: Balance where "GLMR = 1000000000000000000"

definition moonbeam_params :: params where
  "moonbeam_params =
     \<lparr>MinBlocksPerRound = 10, MaxOfflineRounds = 1, LeaveCandidatesDelay = 4 * 7,
      CandidateBondLessDelay = 4 * 7, LeaveDelegatorsDelay = 4 * 7, RevokeDelegationDelay = 4 * 7,
      DelegationBondLessDelay = 4 * 7, RewardPaymentDelay = 2, MinSelectedCandidates = 8,
      MaxTopDelegationsPerCandidate = 300, MaxBottomDelegationsPerCandidate = 50,
      MaxDelegationsPerDelegator = 100, MinCandidateStk = 5000 * GLMR * SUPPLY_FACTOR,
      MinDelegation = 500 * MILLIGLMR * SUPPLY_FACTOR, SlotDuration = 6000, BlockTime = 6000,
      MaxCandidates = 200, LinearInflationThreshold = None\<rparr>"

text \<open>
  \<open>OrbitersParts\<close>: what the runtime plugs into the orbiters pallet and this model leaves open:
  the author mapping, the balances pallet, and the general-admin origin beside root.
\<close>

record 'v orbiters_parts =
  op_author_mapping :: "'v \<Rightarrow> nat \<Rightarrow> AccountId option"
  op_is_general_admin :: "origin \<Rightarrow> bool"
  op_reserved_balance_named :: "'v \<Rightarrow> AccountId \<Rightarrow> Balance"
  op_ensure_reserved_named :: "AccountId \<Rightarrow> Balance \<Rightarrow> 'v \<Rightarrow> 'v option"
  op_unreserve_all_named :: "AccountId \<Rightarrow> 'v \<Rightarrow> 'v"
  op_deposit_into_existing :: "AccountId \<Rightarrow> Balance \<Rightarrow> 'v \<Rightarrow> (Balance \<times> 'v) option"
  op_pool_key_order :: "AccountId \<Rightarrow> nat"

definition moonbeam_orbiters :: "'v orbiters_parts \<Rightarrow> 'v orbiters_config" where
  "moonbeam_orbiters parts =
     \<lparr>MaxPoolSize = 8, MaxRoundArchive = 4, RotatePeriod = 1, source_lookup = Some,
      inner_lookup_account = op_author_mapping parts,
      is_add_collator_origin = (\<lambda>o'. o' = Root \<or> op_is_general_admin parts o'),
      is_del_collator_origin = (\<lambda>o'. o' = Root \<or> op_is_general_admin parts o'),
      reserved_balance_named = op_reserved_balance_named parts,
      ensure_reserved_named = op_ensure_reserved_named parts,
      unreserve_all_named = op_unreserve_all_named parts,
      orb_deposit_into_existing = (\<lambda>a v w. map_option snd (op_deposit_into_existing parts a v w)),
      pool_key_order = op_pool_key_order parts\<rparr>"

section \<open>The handlers\<close>

text \<open>
  A program of the orbiters pallet run from the staking pallet, whose \<open>world\<close> holds its storage.
  The hooks that run through it return no error.
\<close>

definition on_orbiters :: "('v, 'a) orbiters_m \<Rightarrow> ('v orbiters_state, 'a) staking_m" where
  "on_orbiters m = (\<lambda>s. case m (world s) of
      (Ok x, w) \<Rightarrow> (Ok x, s\<lparr>world := w\<rparr>)
    | (Err e, w) \<Rightarrow> (Err (OtherError ''orbiters''), s\<lparr>world := w\<rparr>)
    | (Panic, w) \<Rightarrow> (Panic, s\<lparr>world := w\<rparr>))"

definition moonbeam_on_new_round ::
  "'v orbiters_config \<Rightarrow> RoundIndex \<Rightarrow> ('v orbiters_state, unit) staking_m" where
  "moonbeam_on_new_round ocfg round_index = on_orbiters (orbiters_on_new_round ocfg round_index)"

definition moonbeam_payout_collator_reward ::
  "'v orbiters_state config \<Rightarrow> 'v orbiters_config \<Rightarrow> RoundIndex \<Rightarrow> AccountId \<Rightarrow> Balance
   \<Rightarrow> ('v orbiters_state, unit) staking_m" where
  "moonbeam_payout_collator_reward cfg ocfg for_round collator_id amount =
     bind_m (gets_m (\<lambda>s. is_collator_pool_with_active_orbiter for_round collator_id (world s)))
       (\<lambda>active.
     if active then on_orbiters (distribute_rewards ocfg for_round collator_id amount)
     else mint_collator_reward cfg for_round collator_id amount)"

definition moonbeam_on_inactive_collator ::
  "AccountId \<Rightarrow> RoundIndex \<Rightarrow> ('v orbiters_state, unit) staking_m" where
  "moonbeam_on_inactive_collator collator_id round' =
     bind_m (gets_m (\<lambda>s. is_collator_pool_with_active_orbiter round' collator_id (world s)))
       (\<lambda>active.
     if \<not> active then go_offline_inner collator_id else return_m ())"

text \<open>
  The staking pallet's configuration: the constants, the balances functions of \<open>base\<close> acting on
  the storage beside the orbiters pallet, and the handlers.
\<close>

definition in_orb :: "('v \<Rightarrow> 'v) \<Rightarrow> 'v orbiters_state \<Rightarrow> 'v orbiters_state" where
  "in_orb f w = w\<lparr>orb_world := f (orb_world w)\<rparr>"

definition moonbeam_base :: "'v config \<Rightarrow> 'v orbiters_state config" where
  "moonbeam_base base = params.extend moonbeam_params
     \<lparr>free_balance = \<lambda>w. free_balance base (orb_world w),
      reserved_balance = \<lambda>w. reserved_balance base (orb_world w),
      total_issuance = \<lambda>w. total_issuance base (orb_world w),
      set_lock = \<lambda>l a v. in_orb (set_lock base l a v),
      remove_lock = \<lambda>l a. in_orb (remove_lock base l a),
      deposit_into_existing = \<lambda>a v w. map_option (\<lambda>(x, w'). (x, w\<lparr>orb_world := w'\<rparr>))
        (deposit_into_existing base a v (orb_world w)),
      perbill_from_rational = perbill_from_rational base, perbill_mul = perbill_mul base,
      percent_mul = percent_mul base, percent_mul_ceil = percent_mul_ceil base,
      annual_to_round_rate = annual_to_round_rate base,
      is_monetary_governance = is_monetary_governance base,
      block_author = \<lambda>w. block_author base (orb_world w),
      current_slot = \<lambda>w. current_slot base (orb_world w), key_order = key_order base,
      payout_collator_reward = \<lambda>r c v. return_m (), on_collator_payout = on_collator_payout_unit,
      on_inactive_collator = moonbeam_on_inactive_collator, on_new_round = \<lambda>r. return_m ()\<rparr>"

definition moonbeam_config :: "'v config \<Rightarrow> 'v orbiters_parts \<Rightarrow> 'v orbiters_state config" where
  "moonbeam_config base parts =
     (let cfg = moonbeam_base base; ocfg = moonbeam_orbiters parts in
      cfg\<lparr>payout_collator_reward := moonbeam_payout_collator_reward cfg ocfg,
          on_new_round := moonbeam_on_new_round ocfg\<rparr>)"

section \<open>Running through the composition\<close>

lemma wp_on_orbiters [wp_simps]:
  "wp (on_orbiters m) Q E s = wp m (\<lambda>x w. Q x (s\<lparr>world := w\<rparr>))
     (\<lambda>_ w. E (OtherError ''orbiters'') (s\<lparr>world := w\<rparr>)) (world s)"
  by (auto simp: wp_def on_orbiters_def split: prod.split outcome.split)

lemma moonbeam_config_simps [simp]:
  "RewardPaymentDelay (moonbeam_config base parts) = 2"
  "payout_collator_reward (moonbeam_config base parts) =
     moonbeam_payout_collator_reward (moonbeam_base base) (moonbeam_orbiters parts)"
  "on_new_round (moonbeam_config base parts) = moonbeam_on_new_round (moonbeam_orbiters parts)"
  "on_inactive_collator (moonbeam_config base parts) = moonbeam_on_inactive_collator"
  "on_collator_payout (moonbeam_config base parts) = on_collator_payout_unit"
  by (simp_all add: moonbeam_config_def moonbeam_base_def params.defs moonbeam_params_def Let_def)

lemma moonbeam_orbiters_simps [simp]:
  "MaxPoolSize (moonbeam_orbiters parts) = 8" "MaxRoundArchive (moonbeam_orbiters parts) = 4"
  "RotatePeriod (moonbeam_orbiters parts) = 1"
  by (simp_all add: moonbeam_orbiters_def)

lemma moonbeam_base_deposit:
  "deposit_into_existing (moonbeam_base base) a v w =
     map_option (\<lambda>(x, w'). (x, w\<lparr>orb_world := w'\<rparr>)) (deposit_into_existing base a v (orb_world w))"
  by (simp add: moonbeam_base_def params.defs)

text \<open>
  A payout goes to the orbiter of the round when there is one, who is then struck off for that
  round, to the collator otherwise; nothing is minted for an account that does not exist.
\<close>

lemma moonbeam_payout_run:
  "payout_collator_reward (moonbeam_config base parts) r c v s =
    (Ok (), case OrbiterPerRound (world s) r c of
       Some a \<Rightarrow>
         (let w = (world s)\<lparr>OrbiterPerRound := (OrbiterPerRound (world s))
                     (r := (OrbiterPerRound (world s) r)(c := None))\<rparr> in
          case op_deposit_into_existing parts a v (orb_world (world s)) of
            None \<Rightarrow> s\<lparr>world := w\<rparr>
          | Some (_, b) \<Rightarrow> s\<lparr>world := w\<lparr>orb_world := b,
              orb_events := orb_events (world s) @ [OrbiterRewarded a v]\<rparr>\<rparr>)
     | None \<Rightarrow>
         (case deposit_into_existing base c v (orb_world (world s)) of
            None \<Rightarrow> s
          | Some (minted, b) \<Rightarrow> s\<lparr>world := (world s)\<lparr>orb_world := b\<rparr>,
              Events := Events s @ [Rewarded c minted]\<rparr>))"
  by (auto simp: moonbeam_payout_collator_reward_def is_collator_pool_with_active_orbiter_def prog_defs
      mint_collator_reward_def on_orbiters_def distribute_rewards_def deposit_orbiters_event_def
      moonbeam_base_deposit moonbeam_orbiters_def Let_def split: option.split)

end
