(* ===== verification/Payouts.thy ===== *)
theory Payouts
  imports Frames Moonbeam_Runtime
begin

text \<open>
  The payouts of a round: what paying one collator and its delegators may mint, and what a
  block of payouts does to the records of the round.
\<close>

section \<open>The payout's view of the state\<close>

text \<open>
  Compounding a reward moves bonds and locks; it mints nothing and leaves what drives the payouts.
\<close>

definition payout_view ::
  "'w config \<Rightarrow> 'w staking \<Rightarrow> Balance \<times> (RoundIndex \<Rightarrow> (AccountId \<times> CollatorSnapshot) list)
    \<times> (RoundIndex \<rightharpoonup> DelayedPayout) \<times> (RoundIndex \<Rightarrow> nat) \<times> (RoundIndex \<Rightarrow> AccountId \<Rightarrow> nat)" where
  "payout_view cfg s =
     (total_issuance cfg (world s), AtStake s, DelayedPayouts s, Points s, AwardedPts s)"

definition lock_laws :: "'w config \<Rightarrow> bool" where
  "lock_laws cfg \<longleftrightarrow>
     (\<forall>l a v w. total_issuance cfg (set_lock cfg l a v w) = total_issuance cfg w)
   \<and> (\<forall>l a w. total_issuance cfg (remove_lock cfg l a w) = total_issuance cfg w)"

lemma leaves_accessors [leaves_intro]:
  "leaves (payout_view cfg) (err e1)" "leaves (payout_view cfg) (ensure b e2)"
  "leaves (payout_view cfg) (ok_or x e3)" "leaves (payout_view cfg) (deposit_event ev)"
  "leaves (payout_view cfg) (put_candidate_info c m)" "leaves (payout_view cfg) (put_delegator_state c st)"
  "leaves (payout_view cfg) (put_top_delegations c ds)" "leaves (payout_view cfg) (put_bottom_delegations c ds)"
  "leaves (payout_view cfg) (put_candidate_pool pool)" "leaves (payout_view cfg) (put_total v)"
  by (auto simp: accessor_defs payout_view_def intro!: leaves_intro)

lemma leaves_adjust_lock:
  "lock_laws cfg \<Longrightarrow> leaves (payout_view cfg) (adjust_bond_lock cfg st adj)"
  unfolding adjust_bond_lock_def on_world_def
  by (cases adj) (auto simp: payout_view_def lock_laws_def intro!: leaves_intro)

lemma leaves_update_active [leaves_intro]: "leaves (payout_view cfg) (update_active cfg' c v)"
  unfolding update_active_def by (intro leaves_intro)

lemma leaves_reset_top [leaves_intro]: "leaves (payout_view cfg) (reset_top_data cfg' c ds m)"
  unfolding reset_top_data_def by (intro leaves_intro)

lemma leaves_or_else [leaves_intro]:
  "leaves f m \<Longrightarrow> leaves f n \<Longrightarrow> leaves f (or_else_dne m n)"
  unfolding or_else_dne_def by (intro leaves_intro)

lemma leaves_increase [leaves_intro]: "leaves (payout_view cfg) (increase_delegation cfg' c d a v m)"
  unfolding increase_delegation_def increase_top_delegation_def increase_bottom_delegation_def
  by (intro leaves_intro)

lemma leaves_bond_more:
  "lock_laws cfg \<Longrightarrow> leaves (payout_view cfg) (delegation_bond_more_without_event cfg d c v)"
  unfolding delegation_bond_more_without_event_def delegator_increase_delegation_def
  by (intro leaves_intro leaves_adjust_lock)

section \<open>Laws of the currency and of the shares\<close>

text \<open>
  Documented behaviour of the code outside the repository: locks do not change the issuance and
  \<open>deposit_into_existing\<close> mints no more than it is asked to; \<open>Perbill::from_rational\<close> rounds down
  and the product of a \<open>Perbill\<close> with a balance rounds to the nearest.
\<close>

definition mint_laws :: "'v config \<Rightarrow> 'v orbiters_parts \<Rightarrow> bool" where
  "mint_laws base parts \<longleftrightarrow> lock_laws base
     \<and> (\<forall>a v w i w'. deposit_into_existing base a v w = Some (i, w') \<longrightarrow>
          total_issuance base w' \<le> total_issuance base w + v)
     \<and> (\<forall>a v w i w'. op_deposit_into_existing parts a v w = Some (i, w') \<longrightarrow>
          total_issuance base w' \<le> total_issuance base w + v)"

definition share_laws :: "'v config \<Rightarrow> bool" where
  "share_laws base \<longleftrightarrow>
     (\<forall>p q. p \<le> q \<and> 0 < q \<longrightarrow> perbill_from_rational base p q * q \<le> p * 1000000000)
   \<and> (\<forall>p x. 2000000000 * perbill_mul base p x \<le> 2 * (p * x) + 1000000000)"

definition adds_up :: "CollatorSnapshot \<Rightarrow> bool" where
  "adds_up sn \<longleftrightarrow> 0 < snap_total sn
     \<and> snap_total sn = snap_bond sn + sum_list (map bac_amount (snap_delegations sn))"

abbreviation issued :: "'w config \<Rightarrow> 'w staking \<Rightarrow> Balance" where
  "issued cfg \<equiv> \<lambda>s. total_issuance cfg (world s)"

abbreviation minting_within :: "'w config \<Rightarrow> nat \<Rightarrow> ('w, 'a) staking_m \<Rightarrow> bool" where
  "minting_within cfg \<equiv> adds_at_most (issued cfg)"

lemma moonbeam_payout_simps:
  "percent_mul_ceil (moonbeam_config base parts) = percent_mul_ceil base"
  "total_issuance (moonbeam_config base parts) w = total_issuance base (orb_world w)"
  "perbill_mul (moonbeam_config base parts) = perbill_mul base"
  "perbill_from_rational (moonbeam_config base parts) = perbill_from_rational base"
  "deposit_into_existing (moonbeam_config base parts) a v w =
     map_option (\<lambda>(x, w'). (x, w\<lparr>orb_world := w'\<rparr>)) (deposit_into_existing base a v (orb_world w))"
  by (simp_all add: moonbeam_config_def moonbeam_base_def params.defs Let_def)

lemma moonbeam_lock_laws: "lock_laws base \<Longrightarrow> lock_laws (moonbeam_config base parts)"
  by (simp add: lock_laws_def moonbeam_config_def moonbeam_base_def params.defs Let_def in_orb_def)

section \<open>What a payout mints\<close>

lemma leaves_issued: "leaves (payout_view cfg) m \<Longrightarrow> leaves (issued cfg) m"
  by (simp add: leaves_def payout_view_def)

lemma payout_within:
  assumes "mint_laws base parts"
  shows "minting_within (moonbeam_config base parts) v
    (payout_collator_reward (moonbeam_config base parts) r c v)"
  using assms unfolding adds_at_most_def moonbeam_payout_run
  by (auto simp: moonbeam_payout_simps mint_laws_def Let_def split: option.split)

lemma compound_within:
  assumes "mint_laws base parts"
  shows "minting_within (moonbeam_config base parts) v
    (mint_and_compound (moonbeam_config base parts) v p c d)"
proof -
  let ?cfg = "moonbeam_config base parts"
  have locks: "lock_laws ?cfg" using assms by (simp add: mint_laws_def moonbeam_lock_laws)
  let ?rest = "\<lambda>x. (let k = percent_mul_ceil ?cfg p x in if k = 0 then return_m ()
      else bind_m (attempt_m (delegation_bond_more_without_event ?cfg d c k))
        (\<lambda>r. case r of Inl e \<Rightarrow> return_m () | Inr _ \<Rightarrow> deposit_event (Compounded d c k)))"
  have rest: "leaves (issued ?cfg) (then_m (deposit_event (Rewarded d x)) (?rest x))" for x
    by (intro leaves_issued leaves_intro leaves_bond_more locks)
  show ?thesis
    unfolding adds_at_most_def
  proof
    fix s
    show "issued ?cfg (snd (mint_and_compound ?cfg v p c d s)) \<le> issued ?cfg s + v"
    proof (cases "deposit_into_existing ?cfg d v (world s)")
      case None
      then show ?thesis by (simp add: mint_and_compound_def prog_defs)
    next
      case (Some xw)
      obtain x w where xw: "xw = (x, w)" by (cases xw)
      have "mint_and_compound ?cfg v p c d s =
          then_m (deposit_event (Rewarded d x)) (?rest x) (s\<lparr>world := w\<rparr>)"
        using Some xw by (simp add: mint_and_compound_def bind_m_def then_m_def gets_m_def
            on_world_def modify_m_def)
      moreover have "total_issuance ?cfg w \<le> issued ?cfg s + v"
        using Some xw assms by (auto simp: moonbeam_payout_simps mint_laws_def)
      ultimately show ?thesis using rest [of x] by (simp add: leaves_def)
    qed
  qed
qed

lemma delegator_within:
  "mint_laws base parts \<Longrightarrow> minting_within (moonbeam_config base parts)
    (perbill_mul base (perbill_from_rational base (bac_amount b) whole) amt)
    (pay_delegator (moonbeam_config base parts) c whole amt b)"
  unfolding pay_delegator_def Let_def moonbeam_payout_simps(3,4)
  by (intro adds_if compound_within adds_leaves leaves_atomic)

text \<open>Shares that add up to the whole pay out the whole, up to half a unit of rounding each.\<close>

lemma shares_le:
  assumes "share_laws base" and "0 < whole" and "sum_list as \<le> whole"
  shows "sum_list (map (\<lambda>a. perbill_from_rational base a whole) as) \<le> 1000000000"
proof -
  let ?p = "\<lambda>a. perbill_from_rational base a whole"
  have "?p a * whole \<le> a * 1000000000" if "a \<in> set as" for a
    using assms member_le_sum_list [of a as] that le_trans [of a "sum_list as" whole]
    unfolding share_laws_def by simp
  then have "sum_list (map ?p as) * whole \<le> sum_list as * 1000000000"
    by (induction as) (auto simp: algebra_simps add_mono)
  also have "\<dots> \<le> whole * 1000000000" using assms(3) by simp
  finally show ?thesis using assms(2) by (simp add: mult.commute)
qed

lemma rounded_sum:
  fixes f p :: "'e \<Rightarrow> nat"
  assumes "\<And>a. 2000000000 * f a \<le> 2 * (p a * x) + 1000000000" and "sum_list (map p as) \<le> 1000000000"
  shows "2 * sum_list (map f as) \<le> 2 * x + length as"
proof -
  let ?D = "1000000000 :: nat"
  have "2 * ?D * sum_list (map f as) \<le> 2 * (sum_list (map p as) * x) + length as * ?D"
  proof (induction as)
    case (Cons a as)
    with assms(1) [of a] show ?case by (simp add: algebra_simps)
  qed simp
  also have "\<dots> \<le> 2 * (?D * x) + length as * ?D" using assms(2) by simp
  also have "\<dots> = ?D * (2 * x + length as)" by (simp add: algebra_simps)
  finally have "?D * (2 * sum_list (map f as)) \<le> ?D * (2 * x + length as)"
    by (simp add: algebra_simps)
  then show ?thesis by (rule mult_left_le_imp_le) simp
qed

lemma shares_sum:
  assumes "share_laws base" and "0 < whole" and "sum_list as \<le> whole"
  shows "2 * sum_list (map (\<lambda>a. perbill_mul base (perbill_from_rational base a whole) x) as)
    \<le> 2 * x + length as"
  by (rule rounded_sum [OF _ shares_le [OF assms]]) (use assms(1) in \<open>simp add: share_laws_def\<close>)

text \<open>
  The reward of a collator and its delegators: the larger of the share of the pot and the
  commission, up to rounding.
\<close>

definition reward_bound :: "'v config \<Rightarrow> Perbill \<Rightarrow> DelayedPayout \<Rightarrow> Balance \<Rightarrow> Balance" where
  "reward_bound base pct info commission =
     max (perbill_mul base pct (dp_total_staking_reward info)) (perbill_mul base pct commission)"

definition rounding :: "CollatorSnapshot \<Rightarrow> nat" where
  "rounding sn = (length (snap_delegations sn) + 1) div 2"

lemma pay_unfold:
  "pay_collator_and_delegators (moonbeam_config base parts) r info commission c sn pct =
    (let cfg = moonbeam_config base parts; whole = perbill_mul base pct (dp_total_staking_reward info) in
     if snap_delegations sn = [] then then_m (payout_collator_reward cfg r c whole) (return_m ())
     else let com = perbill_mul base pct commission; amt = whole - com in
       then_m (payout_collator_reward cfg r c (sat_add_u128 (perbill_mul base
           (perbill_from_rational base (snap_bond sn) (snap_total sn)) amt) com))
      (then_m (return_m ())
        (for_each_m (pay_delegator cfg c (snap_total sn) amt) (snap_delegations sn))))"
  by (simp add: pay_collator_and_delegators_def Let_def moonbeam_payout_simps on_collator_payout_unit_def
      del: moonbeam_config_simps(2))

lemma pay_within:
  assumes "mint_laws base parts" and "share_laws base" and "adds_up sn"
  shows "minting_within (moonbeam_config base parts)
    (reward_bound base pct info commission + rounding sn)
    (pay_collator_and_delegators (moonbeam_config base parts) r info commission c sn pct)"
proof -
  let ?cfg = "moonbeam_config base parts" and ?T = "snap_total sn" and ?ds = "snap_delegations sn"
  let ?share = "\<lambda>a x. perbill_mul base (perbill_from_rational base a ?T) x"
  let ?whole = "perbill_mul base pct (dp_total_staking_reward info)"
  let ?com = "perbill_mul base pct commission"
  let ?amt = "?whole - ?com" and ?B = "reward_bound base pct info commission + rounding sn"
  let ?own = "sat_add_u128 (?share (snap_bond sn) ?amt) ?com"
  have alone: "minting_within ?cfg ?B (then_m (payout_collator_reward ?cfg r c ?whole) (return_m ()))"
    by (rule adds_mono [OF adds_then_leaves [OF payout_within [OF assms(1)] leaves_atomic(1)]])
      (simp add: reward_bound_def)
  have each: "minting_within ?cfg (sum_list (map (\<lambda>b. ?share (bac_amount b) ?amt) ?ds))
      (for_each_m (pay_delegator ?cfg c ?T ?amt) ?ds)"
    by (rule adds_for_each) (rule delegator_within [OF assms(1)])
  have "2 * sum_list (map (\<lambda>a. ?share a ?amt) (snap_bond sn # map bac_amount ?ds))
      \<le> 2 * ?amt + length (snap_bond sn # map bac_amount ?ds)"
    by (intro shares_sum) (use assms in \<open>auto simp: adds_up_def\<close>)
  moreover have "?own \<le> ?share (snap_bond sn) ?amt + ?com" by (rule sat_add_u128_le)
  ultimately have "?own + (0 + sum_list (map (\<lambda>b. ?share (bac_amount b) ?amt) ?ds)) \<le> ?B"
    by (simp add: reward_bound_def rounding_def comp_def)
  with adds_then [OF payout_within [OF assms(1)] adds_then [OF adds_leaves [OF leaves_atomic(1)] each]]
  have "minting_within ?cfg ?B (then_m (payout_collator_reward ?cfg r c ?own)
      (then_m (return_m ()) (for_each_m (pay_delegator ?cfg c ?T ?amt) ?ds)))"
    by (rule adds_mono)
  with alone show ?thesis by (simp add: pay_unfold Let_def del: moonbeam_config_simps(2))
qed

section \<open>One block\<close>

lemma payouts_run:
  assumes "RewardPaymentDelay cfg \<le> now" and "r = now - RewardPaymentDelay cfg"
    and "DelayedPayouts s r = Some info" and "Points s r \<noteq> 0" and "AtStake s r = (c, sn) # rest"
  shows "handle_delayed_payouts cfg now s =
    (let s' = s\<lparr>AtStake := (AtStake s)(r := rest),
             AwardedPts := (AwardedPts s)(r := (AwardedPts s r)(c := 0))\<rparr>
     in if AwardedPts s r c = 0 then (Ok (), s')
        else then_m (pay_collator_and_delegators cfg r info
               (perbill_mul cfg (dp_collator_commission info) (dp_round_issuance info)) c sn
               (perbill_from_rational cfg (AwardedPts s r c) (Points s r)))
             (return_m ()) s')"
  using assms
  by (simp add: handle_delayed_payouts_def pay_one_collator_reward_def drain_at_stake_def
      take_awarded_pts_def prog_defs Let_def split: outcome.split prod.split)

lemma payouts_finish:
  assumes "RewardPaymentDelay cfg \<le> now" and "r = now - RewardPaymentDelay cfg"
    and "DelayedPayouts s r \<noteq> None" and "AtStake s r = []"
  shows "handle_delayed_payouts cfg now s =
    (Ok (), s\<lparr>DelayedPayouts := (DelayedPayouts s)(r := None), Points := (Points s)(r := 0)\<rparr>)"
  using assms
  by (cases "Points s r = 0")
    (auto simp: handle_delayed_payouts_def pay_one_collator_reward_def drain_at_stake_def prog_defs Let_def)

lemma leaves_pay:
  assumes "lock_laws base"
  shows "leaves (\<lambda>s. (AtStake s, DelayedPayouts s, Points s, AwardedPts s))
    (pay_collator_and_delegators (moonbeam_config base parts) r info commission c sn pct)"
proof -
  let ?cfg = "moonbeam_config base parts" and ?f = "\<lambda>s. (AtStake s, DelayedPayouts s, Points s, AwardedPts s)"
  have locks: "lock_laws ?cfg" using assms by (rule moonbeam_lock_laws)
  have hook: "leaves ?f (payout_collator_reward ?cfg r c v)" for v
    unfolding leaves_def moonbeam_payout_run by (simp add: Let_def split: option.split)
  have more: "leaves ?f (delegation_bond_more_without_event ?cfg d c v)" for d v
    using leaves_bond_more [OF locks, of d c v] by (simp add: leaves_def payout_view_def)
  have "leaves ?f (deposit_event e)" "leaves ?f (on_world g)" for e g
    by (auto simp: deposit_event_def on_world_def intro!: leaves_intro)
  with more have "leaves ?f (mint_and_compound ?cfg v p c d)" for v p d
    unfolding mint_and_compound_def by (intro leaves_intro)
  then have "leaves ?f (pay_delegator ?cfg c whole amt b)" for whole amt b
    unfolding pay_delegator_def by (intro leaves_intro)
  with hook show ?thesis unfolding pay_unfold by (intro leaves_intro)
qed

text \<open>The effect of the block hook's payout, whatever its outcome.\<close>

definition payout_block :: "'w config \<Rightarrow> RoundIndex \<Rightarrow> 'w staking \<Rightarrow> 'w staking" where
  "payout_block cfg now s = snd (handle_delayed_payouts cfg now s)"

definition collator_bound :: "'v config \<Rightarrow> DelayedPayout \<Rightarrow> nat \<Rightarrow> nat \<Rightarrow> CollatorSnapshot \<Rightarrow> Balance" where
  "collator_bound base info pts points sn =
     reward_bound base (perbill_from_rational base pts points) info
       (perbill_mul base (dp_collator_commission info) (dp_round_issuance info)) + rounding sn"

lemma payout_block_run:
  assumes "2 \<le> now" and "DelayedPayouts s (now - 2) = Some info" and "Points s (now - 2) \<noteq> 0"
    and "AtStake s (now - 2) = (c, sn) # rest"
  shows "handle_delayed_payouts (moonbeam_config base parts) now s =
    (let r = now - 2; s' = s\<lparr>AtStake := (AtStake s)(r := rest), AwardedPts := (AwardedPts s)(r := (AwardedPts s r)(c := 0))\<rparr>
     in if AwardedPts s r c = 0 then (Ok (), s')
        else then_m (pay_collator_and_delegators (moonbeam_config base parts) r info
               (perbill_mul base (dp_collator_commission info) (dp_round_issuance info)) c sn
               (perbill_from_rational base (AwardedPts s r c) (Points s r))) (return_m ()) s')"
  using payouts_run [of "moonbeam_config base parts" now "now - 2" s info c sn rest] assms
  by (simp add: Let_def moonbeam_payout_simps)

lemma payout_block_step:
  assumes "lock_laws base"
    and "2 \<le> now" and "DelayedPayouts s (now - 2) = Some info" and "Points s (now - 2) \<noteq> 0"
    and "AtStake s (now - 2) = (c, sn) # rest"
  shows "AtStake (payout_block (moonbeam_config base parts) now s) = (AtStake s)(now - 2 := rest)"
    and "DelayedPayouts (payout_block (moonbeam_config base parts) now s) = DelayedPayouts s"
    and "Points (payout_block (moonbeam_config base parts) now s) = Points s"
    and "c' \<noteq> c \<Longrightarrow> AwardedPts (payout_block (moonbeam_config base parts) now s) (now - 2) c' =
      AwardedPts s (now - 2) c'"
    and "mint_laws base parts \<Longrightarrow> share_laws base \<Longrightarrow> adds_up sn \<Longrightarrow>
      issued (moonbeam_config base parts) (payout_block (moonbeam_config base parts) now s)
      \<le> issued (moonbeam_config base parts) s
        + collator_bound base info (AwardedPts s (now - 2) c) (Points s (now - 2)) sn"
proof -
  let ?cfg = "moonbeam_config base parts" and ?r = "now - 2"
  let ?s = "s\<lparr>AtStake := (AtStake s)(?r := rest), AwardedPts := (AwardedPts s)(?r := (AwardedPts s ?r)(c := 0))\<rparr>"
  let ?pay = "then_m (pay_collator_and_delegators ?cfg ?r info
      (perbill_mul base (dp_collator_commission info) (dp_round_issuance info)) c sn
      (perbill_from_rational base (AwardedPts s ?r c) (Points s ?r))) (return_m ())"
  have run: "payout_block ?cfg now s = (if AwardedPts s ?r c = 0 then ?s else snd (?pay ?s))"
    by (simp add: payout_block_def payout_block_run [OF assms(2-5)] Let_def)
  have view: "leaves (\<lambda>s. (AtStake s, DelayedPayouts s, Points s, AwardedPts s)) ?pay"
    by (intro leaves_intro leaves_pay assms(1))
  then have same: "AtStake (snd (?pay ?s)) = AtStake ?s" "DelayedPayouts (snd (?pay ?s)) = DelayedPayouts ?s"
    "Points (snd (?pay ?s)) = Points ?s" "AwardedPts (snd (?pay ?s)) = AwardedPts ?s"
    unfolding leaves_def by blast+
  show "AtStake (payout_block ?cfg now s) = (AtStake s)(?r := rest)"
    "DelayedPayouts (payout_block ?cfg now s) = DelayedPayouts s"
    "Points (payout_block ?cfg now s) = Points s"
    "c' \<noteq> c \<Longrightarrow> AwardedPts (payout_block ?cfg now s) ?r c' = AwardedPts s ?r c'"
    by (simp_all add: run same)
  assume laws: "mint_laws base parts" "share_laws base" "adds_up sn"
  have "minting_within ?cfg (collator_bound base info (AwardedPts s ?r c) (Points s ?r) sn) ?pay"
    unfolding collator_bound_def by (intro adds_then_leaves pay_within laws leaves_atomic)
  then have "issued ?cfg (snd (?pay ?s)) \<le> issued ?cfg ?s
      + collator_bound base info (AwardedPts s ?r c) (Points s ?r) sn"
    unfolding adds_at_most_def by blast
  then show "issued ?cfg (payout_block ?cfg now s) \<le> issued ?cfg s
      + collator_bound base info (AwardedPts s ?r c) (Points s ?r) sn"
    by (simp add: run moonbeam_payout_simps)
qed

section \<open>A round\<close>

lemma payout_blocks:
  assumes "mint_laws base parts" and "share_laws base" and "2 \<le> now"
    and "DelayedPayouts s (now - 2) = Some info" and "Points s (now - 2) \<noteq> 0"
    and "AtStake s (now - 2) = es" and "distinct (map fst es)" and "\<forall>(c, sn) \<in> set es. adds_up sn"
  shows "AtStake ((payout_block (moonbeam_config base parts) now ^^ length es) s) (now - 2) = []
    \<and> DelayedPayouts ((payout_block (moonbeam_config base parts) now ^^ length es) s) = DelayedPayouts s
    \<and> issued (moonbeam_config base parts) ((payout_block (moonbeam_config base parts) now ^^ length es) s)
      \<le> issued (moonbeam_config base parts) s
        + sum_list (map (\<lambda>(c, sn). collator_bound base info (AwardedPts s (now - 2) c) (Points s (now - 2)) sn) es)"
  using assms(4-8)
proof (induction es arbitrary: s)
  case Nil
  then show ?case by simp
next
  case (Cons x es)
  obtain c sn where x: "x = (c, sn)" by (cases x)
  let ?cfg = "moonbeam_config base parts" and ?r = "now - 2"
  let ?t = "payout_block ?cfg now s"
  have sn: "adds_up sn" using Cons.prems(5) x by simp
  have es: "AtStake s ?r = (c, sn) # es" using Cons.prems(3) x by simp
  have "lock_laws base" using assms(1) by (simp add: mint_laws_def)
  note step = payout_block_step [OF this assms(3) Cons.prems(1,2) es]
  have "AwardedPts ?t ?r (fst y) = AwardedPts s ?r (fst y)" if "y \<in> set es" for y
    using that Cons.prems(4) x by (intro step(4)) force
  then have same: "map (\<lambda>(c, sn). collator_bound base info (AwardedPts ?t ?r c) (Points ?t ?r) sn) es =
      map (\<lambda>(c, sn). collator_bound base info (AwardedPts s ?r c) (Points s ?r) sn) es"
    by (force simp: step(3))
  have "DelayedPayouts ?t ?r = Some info" "Points ?t ?r \<noteq> 0" "AtStake ?t ?r = es"
    "distinct (map fst es)" "\<forall>(c, sn) \<in> set es. adds_up sn"
    using Cons.prems step(1-3) by simp_all
  note rest = Cons.IH [OF this, unfolded same]
  then show ?case using step(2) step(5) [OF assms(1,2) sn] x by (simp add: funpow_Suc_right del: funpow.simps)
qed

lemma reward_bound_share:
  assumes "share_laws base"
  shows "2000000000 * reward_bound base p info com
    \<le> 2 * (p * max (dp_total_staking_reward info) com) + 1000000000"
proof -
  have "2000000000 * perbill_mul base p x \<le> 2 * (p * max (dp_total_staking_reward info) com) + 1000000000"
    if "x \<le> max (dp_total_staking_reward info) com" for x
  proof -
    have "2000000000 * perbill_mul base p x \<le> 2 * (p * x) + 1000000000"
      using assms by (simp add: share_laws_def)
    moreover have "p * x \<le> p * max (dp_total_staking_reward info) com"
      using that by (rule mult_le_mono2)
    ultimately show ?thesis by linarith
  qed
  then show ?thesis unfolding reward_bound_def
    by (cases "perbill_mul base p (dp_total_staking_reward info) \<le> perbill_mul base p com")
      (simp_all only: max_def if_True if_False, simp_all add: max_def)
qed

lemma round_bound_sum:
  assumes "share_laws base" and "0 < points" and "sum_list (map f es) \<le> points"
  shows "2 * sum_list (map (\<lambda>e. collator_bound base info (f e) points (g e)) es)
    \<le> 2 * max (dp_total_staking_reward info)
          (perbill_mul base (dp_collator_commission info) (dp_round_issuance info))
      + sum_list (map (\<lambda>e. 2 * rounding (g e) + 1) es)"
proof -
  let ?com = "perbill_mul base (dp_collator_commission info) (dp_round_issuance info)"
  let ?p = "\<lambda>e. perbill_from_rational base (f e) points"
  have "sum_list (map ?p es) \<le> 1000000000"
    using shares_le [OF assms] by (simp add: comp_def)
  from rounded_sum [OF reward_bound_share [OF assms(1)] this]
  have "2 * sum_list (map (\<lambda>e. reward_bound base (?p e) info ?com) es)
      \<le> 2 * max (dp_total_staking_reward info) ?com + length es" .
  moreover have "sum_list (map (\<lambda>e. collator_bound base info (f e) points (g e)) es) =
      sum_list (map (\<lambda>e. reward_bound base (?p e) info ?com) es) + sum_list (map (\<lambda>e. rounding (g e)) es)"
    by (simp add: collator_bound_def sum_list_addf)
  moreover have "sum_list (map (\<lambda>e. 2 * rounding (g e) + 1) es) =
      2 * sum_list (map (\<lambda>e. rounding (g e)) es) + length es"
    by (induction es) simp_all
  ultimately show ?thesis by linarith
qed

text \<open>A number of blocks with a payout each, as a program.\<close>

definition payouts_of_blocks :: "'w config \<Rightarrow> RoundIndex \<Rightarrow> nat \<Rightarrow> ('w, unit) staking_m" where
  "payouts_of_blocks cfg now k = for_each_m (\<lambda>_. handle_delayed_payouts cfg now) (replicate k ())"

lemma payouts_of_blocks_Suc:
  "handle_delayed_payouts cfg now s = (Ok (), t) \<Longrightarrow>
    payouts_of_blocks cfg now (Suc k) s = payouts_of_blocks cfg now k t"
  by (simp add: payouts_of_blocks_def then_m_def bind_m_def)

end
