(* ===== verification/Selection_Properties.thy ===== *)
theory Selection_Properties
  imports Selection Payouts Candidate_Properties
begin

text \<open>
  Properties of the selection of a round's collators and of the snapshots their payouts go by.
\<close>

section \<open>The selection\<close>

text \<open>C12: The collators of a round are the best of the pool: as many as the configured number, or
  the whole pool when it is smaller, none left out ranking above one taken in the order by stake
  and, for equal stakes, account; they are stored in account order. Each gets the snapshot of its
  bond, its counted delegations and their auto-compounding under its key, with a
  \<open>CollatorChosen\<close> event; nothing else is written, and the selection neither fails nor panics.\<close>

theorem selection_correct:
  assumes "pool_sorted (CandidatePool s)" and "CandidatePool s \<noteq> []"
    and "0 < TotalSelected s" and "TotalSelected s \<le> MaxCandidates cfg"
    and "\<forall>b \<in> set (CandidatePool s).
      CandidateInfo s (b_owner b) \<noteq> None \<and> TopDelegations s (b_owner b) \<noteq> None"
    and "prefix_ordered (key_order cfg) (AtStake s now)" and "inj (key_order cfg)"
  shows "wp (select_top_candidates cfg now)
    (\<lambda>_ t. best (TotalSelected s) (CandidatePool s) (SelectedCandidates t)
      \<and> map_of (AtStake t now) = (\<lambda>c. if c \<in> set (SelectedCandidates t) then Some (snapshot_at s c)
          else map_of (AtStake s now) c)
      \<and> t = s\<lparr>AtStake := (AtStake s)(now := AtStake t now), SelectedCandidates := SelectedCandidates t,
          Events := Events s @ map (\<lambda>c. CollatorChosen now c (counted_at s c)) (SelectedCandidates t)\<rparr>)
    (\<lambda>_ _. False) s"
proof -
  let ?cs = "compute_top_candidates s"
  have best: "best (TotalSelected s) (CandidatePool s) ?cs" by (rule compute_top_best [OF assms(1)])
  then have "length ?cs = min (TotalSelected s) (length (CandidatePool s))"
    and sub: "set ?cs \<subseteq> b_owner ` set (CandidatePool s)"
    by (simp_all add: best_def)
  moreover have "0 < min (TotalSelected s) (length (CandidatePool s))" using assms(2,3) by simp
  ultimately have len: "?cs \<noteq> []" "length ?cs \<le> MaxCandidates cfg" using assms(4) by fastforce+
  have present: "\<forall>c \<in> set ?cs. CandidateInfo s c \<noteq> None \<and> TopDelegations s c \<noteq> None"
    using sub assms(5) by blast
  have run: "wp (fold_m (snapshot_collator cfg now) (0, 0, 0) ?cs)
      (\<lambda>_. (=) (snapshots_taken cfg now ?cs s)) (\<lambda>_ _. False) s"
    by (rule wp_snapshots [OF present])
  from map_of_fold_insert [OF assms(6,7), of "snapshot_at s" ?cs] best len show ?thesis
    by (simp add: select_top_candidates_def wp_simps)
      (rule wp_mono [OF run], auto simp: snapshots_taken_def wp_simps)
qed

definition selection_state :: "ledger staking" where
  "selection_state = sample_state\<lparr>
     CandidateInfo := [1 \<mapsto> sample_meta, 2 \<mapsto> candidate_new 190, 3 \<mapsto> candidate_new 70],
     TopDelegations := [1 \<mapsto> sample_top, 2 \<mapsto> delegations_default, 3 \<mapsto> delegations_default],
     CandidatePool := [bond_of 1 190, bond_of 2 190, bond_of 3 70], TotalSelected := 1\<rparr>"

text \<open>Candidates 1 and 2 have the same stake: the larger account is chosen.\<close>

lemma selection_correct_witness:
  "\<exists>r t. select_top_candidates sample_cfg 6 selection_state = (Ok r, t) \<and> SelectedCandidates t = [2]"
proof -
  have "wp (select_top_candidates sample_cfg 6)
      (\<lambda>_ t. best 1 (CandidatePool selection_state) (SelectedCandidates t)) (\<lambda>_ _. False) selection_state"
    by (rule wp_mono [OF selection_correct])
      (auto simp: selection_state_def sample_defs pool_sorted_def prefix_ordered_def inj_def)
  then obtain r t where t: "select_top_candidates sample_cfg 6 selection_state = (Ok r, t)"
    "best 1 (CandidatePool selection_state) (SelectedCandidates t)"
    using wp_total by metis
  have "xs = [2]" if "best 1 (CandidatePool selection_state) xs" for xs
    using that by (cases xs) (auto simp: best_def selection_state_def sample_defs)
  with t show ?thesis by blast
qed

section \<open>The snapshots\<close>

text \<open>C13: A collator's snapshot adds up: taken of a candidate whose cached fields are in step with its
  lists, its total is the collator's bond plus the amounts of its delegations as the snapshot
  counts them, which are the top delegations in their order, each less what its delegator has
  asked to withdraw. The payouts divide by this total.\<close>

theorem snapshot_adds_up:
  assumes "CandidateInfo s c = Some m" and "stands cfg c e M m s" and "0 < cm_bond m"
    and "TopDelegations s c = Some ds" and "actions_fit (pending_actions c s) (ds_delegations ds)"
    and "prefix_ordered (key_order cfg) (AtStake s now)" and "inj (key_order cfg)"
  shows "wp (snapshot_collator cfg now acc c)
    (\<lambda>_ t. \<exists>sn. map_of (AtStake t now) c = Some sn \<and> adds_up sn \<and> snap_bond sn = cm_bond m
      \<and> map bac_owner (snap_delegations sn) = map b_owner (ds_delegations ds)
      \<and> map bac_amount (snap_delegations sn) = map (\<lambda>b.
          case pending_actions c s (b_owner b) of None \<Rightarrow> b_amount b | Some (Revoke _) \<Rightarrow> 0
          | Some (Decrease v) \<Rightarrow> b_amount b - v) (ds_delegations ds))
    (\<lambda>_ _. False) s"
proof -
  let ?ds = "ds_delegations ds" and ?acts = "pending_actions c s"
  obtain u bs where r: "rewardable_bonds ?acts 0 ?ds = (u, bs)" by (cases "rewardable_bonds ?acts 0 ?ds")
  have counted: "cm_total_counted m = cm_bond m + amounts ?ds" "amounts ?ds \<le> u128_max"
    using assms(2,4) by (auto simp: stands_def candidate_ok_def)
  then have sum: "u + amounts bs = amounts ?ds" "map b_owner bs = map b_owner ?ds"
    using rewardable_bonds_sum [OF assms(5) _ r] by simp_all
  let ?sn = "snapshot_at s c"
  have sn: "?sn = snapshot_of m ?ds c s" using assms(1,4) by (simp add: snapshot_at_def)
  have "adds_up ?sn"
    using counted sum assms(3) by (simp add: sn snapshot_of_def r adds_up_def comp_def)
  moreover have "map bac_amount (snap_delegations ?sn) = map (\<lambda>b.
      case ?acts (b_owner b) of None \<Rightarrow> b_amount b | Some (Revoke _) \<Rightarrow> 0
      | Some (Decrease v) \<Rightarrow> b_amount b - v) ?ds"
    using rewardable_amounts [OF r] by (simp add: sn snapshot_of_def r comp_def)
  moreover have "snap_bond ?sn = cm_bond m" "map bac_owner (snap_delegations ?sn) = map b_owner ?ds"
    using sum by (simp_all add: sn snapshot_of_def r comp_def)
  ultimately have entry: "map_of (AtStake (snapshots_taken cfg now [c] s) now) c = Some ?sn \<and> adds_up ?sn
      \<and> snap_bond ?sn = cm_bond m \<and> map bac_owner (snap_delegations ?sn) = map b_owner ?ds
      \<and> map bac_amount (snap_delegations ?sn) = map (\<lambda>b.
          case ?acts (b_owner b) of None \<Rightarrow> b_amount b | Some (Revoke _) \<Rightarrow> 0
          | Some (Decrease v) \<Rightarrow> b_amount b - v) ?ds"
    by (simp add: snapshots_taken_def map_of_prefix_insert [OF assms(6,7)])
  have "wp (snapshot_collator cfg now acc c) (\<lambda>_. (=) (snapshots_taken cfg now [c] s)) (\<lambda>_ _. False) s"
    using wp_snapshot_collator [of s c cfg now acc "[]"] assms(1,4) by (simp add: snapshots_taken_Nil)
  then show ?thesis by (rule wp_mono) (use entry in blast)+
qed

lemma snapshot_adds_up_witness:
  "wp (snapshot_collator sample_cfg 6 (0, 0, 0) 1)
    (\<lambda>_ t. \<exists>sn. map_of (AtStake t 6) 1 = Some sn \<and> adds_up sn \<and> map bac_amount (snap_delegations sn) = [45, 40])
    (\<lambda>_ _. False)
    (sample_state\<lparr>DelegationScheduledRequests := (\<lambda>_. [])(1 :=
       [\<lparr>sr_delegator = 11, sr_when_executable = 9, sr_action = Decrease 5\<rparr>])\<rparr>)"
proof -
  let ?s = "sample_state\<lparr>DelegationScheduledRequests := (\<lambda>_. [])(1 :=
     [\<lparr>sr_delegator = 11, sr_when_executable = 9, sr_action = Decrease 5\<rparr>])\<rparr>"
  have "stands sample_cfg 1 0 sample_book sample_meta ?s" using sample_stands by (simp add: stands_def)
  moreover have acts: "pending_actions 1 ?s = [11 \<mapsto> Decrease 5]"
    by (simp add: pending_actions_def collect_map_def fun_eq_iff)
  ultimately have "wp (snapshot_collator sample_cfg 6 (0, 0, 0) 1)
    (\<lambda>_ t. \<exists>sn. map_of (AtStake t 6) 1 = Some sn \<and> adds_up sn \<and> snap_bond sn = cm_bond sample_meta
      \<and> map bac_owner (snap_delegations sn) = map b_owner (ds_delegations sample_top)
      \<and> map bac_amount (snap_delegations sn) = map (\<lambda>b.
          case pending_actions 1 ?s (b_owner b) of None \<Rightarrow> b_amount b | Some (Revoke _) \<Rightarrow> 0
          | Some (Decrease v) \<Rightarrow> b_amount b - v) (ds_delegations sample_top))
    (\<lambda>_ _. False) ?s"
    by (intro snapshot_adds_up) (auto simp: sample_defs actions_fit_def prefix_ordered_def inj_def)
  then show ?thesis unfolding acts by (rule wp_mono) (auto simp: sample_top_def bond_of_def)
qed

end
