(* ===== verification/Orbiter_Properties.thy ===== *)
theory Orbiter_Properties
  imports Moonbeam_Runtime
begin

text \<open>
  The properties of the orbiters pallet and of its composition with the staking pallet, each with
  a witness over a small currency: a world holds the reserves and the balances minted.
\<close>

section \<open>A sample\<close>

type_synonym orb_ledger = "(AccountId \<Rightarrow> Balance) \<times> (AccountId \<times> Balance) list"

definition sample_parts :: "orb_ledger orbiters_parts" where
  "sample_parts =
     \<lparr>op_author_mapping = \<lambda>w k. Some k, op_is_general_admin = \<lambda>o'. False,
      op_reserved_balance_named = \<lambda>w a. fst w a,
      op_ensure_reserved_named = \<lambda>a v w. Some ((fst w)(a := v), snd w),
      op_unreserve_all_named = \<lambda>a w. ((fst w)(a := 0), snd w),
      op_deposit_into_existing = \<lambda>a v w. Some (v, (fst w, (a, v) # snd w)),
      op_pool_key_order = \<lambda>k. k\<rparr>"

definition sample_orbiters :: "orb_ledger orbiters_config" where
  "sample_orbiters = moonbeam_orbiters sample_parts"

lemma sample_orbiters_simps [simp]:
  "MaxPoolSize sample_orbiters = 8" "MaxRoundArchive sample_orbiters = 4"
  "RotatePeriod sample_orbiters = 1" "source_lookup sample_orbiters = Some"
  "inner_lookup_account sample_orbiters w k = Some k"
  "reserved_balance_named sample_orbiters w a = fst w a"
  "ensure_reserved_named sample_orbiters a v w = Some ((fst w)(a := v), snd w)"
  "unreserve_all_named sample_orbiters a w = ((fst w)(a := 0), snd w)"
  "orb_deposit_into_existing sample_orbiters a v w = Some (fst w, (a, v) # snd w)"
  "pool_key_order sample_orbiters k = k"
  "is_add_collator_origin sample_orbiters o' = (o' = Root)"
  by (simp_all add: sample_orbiters_def moonbeam_orbiters_def sample_parts_def)

lemma sample_orbiters_ok: "orbiters_config_ok sample_orbiters" "reserve_laws sample_orbiters"
  by (simp_all add: orbiters_config_ok_def reserve_laws_def inj_def u32_max_def)

text \<open>Collator 1 with the orbiters 11 and 12, of whom 11 is serving; 12 is next.\<close>

definition sample_pool :: CollatorPoolInfo where
  "sample_pool =
     \<lparr>orbiters = [11, 12], maybe_current_orbiter = Some \<lparr>co_account_id = 11, co_removed = False\<rparr>,
      next_orbiter = 1\<rparr>"

definition sample_orbiters_state :: "orb_ledger orbiters_state" where
  "sample_orbiters_state = (orbiters_empty (\<lambda>a. if a \<in> {11, 12, 13} then 100 else 0, []))
     \<lparr>CollatorsPool := [(1, sample_pool)], CurrentRound := 6, MinOrbiterDeposit := Some 100,
      RegisteredOrbiter := (\<lambda>a. if a \<in> {11, 12, 13} then Some True else None),
      AccountLookupOverride := [1 \<mapsto> None, 11 \<mapsto> Some 1]\<rparr>"

lemmas sample_orb_defs = sample_pool_def sample_orbiters_state_def orbiters_empty_def

lemma small_sample: "n < 100 \<Longrightarrow> n < u32_max" by (simp add: u32_max_def)

section \<open>The invariant\<close>

text \<open>C21: In every reachable state every pool has distinct orbiters, at most the limit of them,
  all with a deposit, accounts are registered exactly while they have one, and no call panics.\<close>

theorem orbiters_invariant:
  assumes "orbiters_reachable cfg s" and "orbiters_config_ok cfg" and "reserve_laws cfg"
  shows "orbiters_ok cfg s \<and> fst (orbiters_dispatch cfg o' c s) \<noteq> Panic"
proof -
  note ok = reachable_ok [OF assms]
  have "wp (orbiters_dispatch cfg o' c) (\<lambda>_. orbiters_ok cfg) (\<lambda>_. orbiters_ok cfg) s"
    using keeps_transactional [OF keeps_call [OF assms(2,3)]] ok
    by (simp add: orbiters_dispatch_def keeps_def)
  with ok show ?thesis by (simp add: wp_not_Panic)
qed

lemma orbiters_invariant_witness:
  "\<exists>s. CollatorsPool s = [(1, pool_default)] \<and> orbiters_ok sample_orbiters s
     \<and> fst (orbiters_dispatch sample_orbiters (Signed 1) (CollatorAddOrbiter 11) s) \<noteq> Panic"
proof -
  let ?w = "(\<lambda>_. 0, []) :: orb_ledger"
  let ?s = "(orbiters_empty ?w)\<lparr>MinOrbiterDeposit := Some 100\<rparr>"
  have "orbiters_reachable sample_orbiters ?s"
    by (rule at_genesis [of 100 ?w]) (simp_all add: orbiters_genesis_def prog_defs)
  then have "orbiters_reachable sample_orbiters
      (snd (orbiters_dispatch sample_orbiters Root (AddCollator 1) ?s))"
    by (rule by_step) (rule step_call)
  moreover have "snd (orbiters_dispatch sample_orbiters Root (AddCollator 1) ?s) =
      ?s\<lparr>CollatorsPool := [(1, pool_default)]\<rparr>"
    by (simp add: orbiters_dispatch_def add_collator_def prog_defs origin_p_def lookup_source_def
        prefix_get_def ensure_p_def put_pool_def orbiters_empty_def)
  ultimately have "orbiters_reachable sample_orbiters (?s\<lparr>CollatorsPool := [(1, pool_default)]\<rparr>)"
    by simp
  from orbiters_invariant [OF this sample_orbiters_ok]
  show ?thesis by (intro exI [of _ "?s\<lparr>CollatorsPool := [(1, pool_default)]\<rparr>"]) simp
qed

section \<open>Rotation\<close>

text \<open>C23: When no account serves two pools, a rotation hands every pool's blocks to the orbiter
  whose turn it is and takes them from the one before: the collator of a pool with orbiters
  authors nothing, its new orbiter authors for it, the old one for himself, and a collator whose
  pool is empty authors for himself; accounts outside the pools keep their lookup.\<close>

theorem rotation_hands_over:
  assumes "pools_apart (CollatorsPool s)" and "\<forall>x \<in> set (CollatorsPool s). small_pool (snd x)"
    and "inner_lookup_account cfg (orb_world s) k = Some a"
  shows "\<exists>t. on_rotate cfg r s = (Ok (), t)
    \<and> (\<forall>(c, p) \<in> set (CollatorsPool s).
        (a = c \<longrightarrow> lookup_account cfg t k = (if orbiters p = [] then Some c else None))
      \<and> (orbiters p \<noteq> [] \<and> a = turn p 0 \<longrightarrow> lookup_account cfg t k = Some c)
      \<and> (current_account p = Some a \<and> (orbiters p = [] \<or> a \<noteq> turn p 0)
          \<longrightarrow> lookup_account cfg t k = Some a))
    \<and> ((\<forall>x \<in> set (CollatorsPool s). a \<notin> pool_accounts x)
        \<longrightarrow> lookup_account cfg t k = lookup_account cfg s k)"
proof -
  let ?t = "snd (on_rotate cfg r s)" and ?m = "AccountLookupOverride s"
  have ov: "AccountLookupOverride ?t = fold (\<lambda>(c, p). rotate_overrides c p) (CollatorsPool s) ?m"
    and w: "orb_world ?t = orb_world s"
    by (simp_all add: on_rotate_run fold_rotate_effect)
  have look: "lookup_account cfg ?t k = (case AccountLookupOverride ?t a of Some o' \<Rightarrow> o' | None \<Rightarrow> Some a)"
    using assms(3) w by (simp add: lookup_account_def)
  have "(a = c \<longrightarrow> lookup_account cfg ?t k = (if orbiters p = [] then Some c else None))
      \<and> (orbiters p \<noteq> [] \<and> a = turn p 0 \<longrightarrow> lookup_account cfg ?t k = Some c)
      \<and> (current_account p = Some a \<and> (orbiters p = [] \<or> a \<noteq> turn p 0)
          \<longrightarrow> lookup_account cfg ?t k = Some a)" if x: "(c, p) \<in> set (CollatorsPool s)" for c p
  proof (cases "a \<in> pool_accounts (c, p)")
    case False
    then show ?thesis using turn_mem [of p 0] by (auto simp: pool_accounts_def)
  next
    case True
    obtain m' where "AccountLookupOverride ?t a = rotate_overrides c p m' a"
      using fold_rotate_overrides [OF assms(1) x True, of ?m] ov by auto
    moreover have "c \<notin> set (orbiters p)" "current_account p \<noteq> Some c" "small_pool p"
      using assms(1,2) x by (force simp: pools_apart_def)+
    ultimately show ?thesis using look turn_mem [of p 0]
      by (cases "orbiters p = []")
        (auto simp: rotate_overrides_def next_turn_simps Let_def split: option.splits)
  qed
  moreover have "lookup_account cfg ?t k = lookup_account cfg s k"
    if "\<forall>x \<in> set (CollatorsPool s). a \<notin> pool_accounts x"
    using fold_rotate_overrides_outside [OF that, of ?m] assms(3) ov w by (simp add: lookup_account_def)
  ultimately show ?thesis
    by (intro exI [of _ ?t] conjI) (auto simp: on_rotate_run)
qed

lemma rotation_hands_over_witness:
  "\<exists>t. on_rotate sample_orbiters 7 sample_orbiters_state = (Ok (), t)
    \<and> lookup_account sample_orbiters t 12 = Some 1"
proof -
  have "pools_apart (CollatorsPool sample_orbiters_state)"
    "\<forall>x \<in> set (CollatorsPool sample_orbiters_state). small_pool (snd x)"
    by (simp_all add: sample_orb_defs pools_apart_def current_account_def u32_max_def)
  from rotation_hands_over [OF this, of sample_orbiters 12 12 7]
  show ?thesis by (auto simp: sample_orb_defs turn_def turn_start_def)
qed

text \<open>C22: Between calls the orbiters of a pool serve in turn, without a hole: over \<open>n\<close> periods of a
  pool of \<open>n\<close>, every round is assigned, the \<open>i\<close>-th period's rounds to the \<open>i\<close>-th in turn, and
  every orbiter of the pool is assigned a full period.
\<close>

theorem orbiters_take_turns:
  assumes "\<not> ForceRotation s" and "distinct (map fst (CollatorsPool s))"
    and "map_of (CollatorsPool s) c = Some p" and "orbiters p \<noteq> []" and "small_pool p"
    and "0 < RotatePeriod cfg" and "r mod RotatePeriod cfg = 0"
    and "r + length (orbiters p) * RotatePeriod cfg \<le> u32_max"
  shows "\<exists>t. run_rounds cfg r (length (orbiters p) * RotatePeriod cfg) s = (Ok (), t)
    \<and> (\<forall>i < length (orbiters p) * RotatePeriod cfg.
         OrbiterPerRound t (r + i) c = Some (turn p (i div RotatePeriod cfg)))
    \<and> (\<forall>a \<in> set (orbiters p). \<exists>k < length (orbiters p). \<forall>i < RotatePeriod cfg.
         OrbiterPerRound t (r + k * RotatePeriod cfg + i) c = Some a)"
proof -
  let ?n = "length (orbiters p)" and ?P = "RotatePeriod cfg"
  have start: "turns_taken cfg r c p 0 s" using assms by (simp add: turns_taken_def)
  obtain t where run: "run_rounds cfg r (?n * ?P) s = (Ok (), t)" and t: "turns_taken cfg r c p ?n t"
    using wp_total [OF turns_run [OF start assms(4-8)]] by auto
  then have rounds: "\<forall>i < ?n * ?P. OrbiterPerRound t (r + i) c = Some (turn p (i div ?P))"
    by (simp add: turns_taken_def)
  have "\<exists>k < ?n. \<forall>i < ?P. OrbiterPerRound t (r + k * ?P + i) c = Some a"
    if mem: "a \<in> set (orbiters p)" for a
  proof -
    obtain k where k: "k < ?n" "turn p k = a" using turn_covers [OF mem] by blast
    have "k * ?P + i < ?n * ?P" "(k * ?P + i) div ?P = k" if "i < ?P" for i
      using that k(1) mult_le_mono1 [of "Suc k" ?n ?P] by auto
    then show ?thesis using rounds k by (metis add.assoc)
  qed
  with run rounds show ?thesis by blast
qed

lemma orbiters_take_turns_witness:
  "\<exists>t. run_rounds sample_orbiters 7 2 sample_orbiters_state = (Ok (), t)
    \<and> OrbiterPerRound t 7 1 = Some 12 \<and> OrbiterPerRound t 8 1 = Some 11"
proof -
  have s: "map_of (CollatorsPool sample_orbiters_state) 1 = Some sample_pool"
    "\<not> ForceRotation sample_orbiters_state" "distinct (map fst (CollatorsPool sample_orbiters_state))"
    by (simp_all add: sample_orbiters_state_def orbiters_empty_def)
  have p: "orbiters sample_pool \<noteq> []" "length (orbiters sample_pool) = 2"
    "turn sample_pool 0 = 12" "turn sample_pool (Suc 0) = 11"
    by (simp_all add: sample_pool_def turn_def turn_start_def)
  obtain t where run: "run_rounds sample_orbiters 7 2 sample_orbiters_state = (Ok (), t)"
    and t: "\<forall>i < 2. OrbiterPerRound t (7 + i) 1 = Some (turn sample_pool i)"
    using orbiters_take_turns [OF s(2,3,1) p(1), of sample_orbiters 7] p(2) by (auto simp: u32_max_def)
  from t [rule_format, of 0] t [rule_format, of 1] run p show ?thesis by auto
qed

section \<open>Joining a pool\<close>

text \<open>A collator adds an orbiter exactly when the pool exists and has room, the orbiter is not in
  it and has a deposit; the newcomer then waits until every other orbiter of the pool has had his
  turn, and nothing but the pool changes. Every refusal leaves the storage as it was.
\<close>

theorem collator_add_orbiter_correct:
  assumes "orbiters_ok cfg s" and "orbiters_config_ok cfg" and "source_lookup cfg src = Some a"
  shows "wp (collator_add_orbiter cfg (Signed c) src)
    (\<lambda>_ t. \<exists>p p'. map_of (CollatorsPool s) c = Some p \<and> length (orbiters p) < MaxPoolSize cfg
        \<and> a \<notin> set (orbiters p) \<and> 0 < reserved_balance_named cfg (orb_world s) a
        \<and> map_of (CollatorsPool t) = (map_of (CollatorsPool s))(c \<mapsto> p')
        \<and> turn_order p' = turn_order p @ [a] \<and> maybe_current_orbiter p' = maybe_current_orbiter p
        \<and> t = s\<lparr>CollatorsPool := CollatorsPool t, orb_events := orb_events s @ [OrbiterJoinCollatorPool c a]\<rparr>)
    (\<lambda>e t. t = s \<and> (case map_of (CollatorsPool s) c of
          None \<Rightarrow> e = PalletError CollatorNotFound
        | Some p \<Rightarrow>
            e = PalletError CollatorPoolTooLarge \<and> MaxPoolSize cfg \<le> length (orbiters p)
          \<or> e = PalletError OrbiterAlreadyInPool \<and> a \<in> set (orbiters p)
          \<or> e = PalletError OrbiterDepositNotFound \<and> reserved_balance_named cfg (orb_world s) a = 0)) s"
proof (cases "map_of (CollatorsPool s) c")
  case None
  then show ?thesis using assms(3) by (simp add: collator_add_orbiter_def wp_simps prefix_get_def)
next
  case (Some p)
  have pool: "collator_pool_ok (MaxPoolSize cfg) p" "MaxPoolSize cfg < u32_max" "inj (pool_key_order cfg)"
    "prefix_ordered (pool_key_order cfg) (CollatorsPool s)"
    using orbiters_ok_found [OF assms(1) Some] assms(1,2)
    by (simp_all add: orbiters_config_ok_def orbiters_ok_def)
  then have small: "as_u32 (length (orbiters p)) = length (orbiters p)"
    by (simp add: collator_pool_ok_def as_u32_exact)
  have added: "\<exists>p'. add_orbiter p a = Some p' \<and> turn_order p' = turn_order p @ [a]
      \<and> maybe_current_orbiter p' = maybe_current_orbiter p"
    if asm: "length (orbiters p) < MaxPoolSize cfg" "a \<notin> set (orbiters p)"
  proof -
    obtain p' where "add_orbiter p a = Some p'" "maybe_current_orbiter p' = maybe_current_orbiter p"
      using collator_pool_ok_add [OF pool(1) asm(1) pool(2) asm(2)] by metis
    then show ?thesis using turn_order_add [of p a p'] asm(1) pool(2) by auto
  qed
  show ?thesis
    using assms(3) Some small added
    by (auto simp: collator_add_orbiter_def wp_simps prefix_get_def list_ex_iff
        map_of_prefix_insert [OF pool(4,3)]) blast
qed

lemma collator_add_orbiter_correct_witness:
  "wp (collator_add_orbiter sample_orbiters (Signed 1) 13)
    (\<lambda>_ t. \<exists>p'. map_of (CollatorsPool t) 1 = Some p' \<and> turn_order p' = [12, 11, 13])
    (\<lambda>_ _. False) sample_orbiters_state"
proof -
  have ok: "orbiters_ok sample_orbiters sample_orbiters_state"
    by (auto simp: orbiters_ok_def sample_orb_defs prefix_ordered_def collator_pool_ok_def contains_orbiter_def)
  show ?thesis
    by (rule wp_mono [OF collator_add_orbiter_correct [OF ok sample_orbiters_ok(1), of 13 13 1]])
      (auto simp: sample_orb_defs turn_order_def turn_start_def)
qed

section \<open>Two pools with one orbiter\<close>

definition shared_pools :: "(AccountId \<times> CollatorPoolInfo) list" where
  "shared_pools =
     [(1, \<lparr>orbiters = [11], maybe_current_orbiter = None, next_orbiter = 0\<rparr>),
      (2, \<lparr>orbiters = [11, 12],
           maybe_current_orbiter = Some \<lparr>co_account_id = 11, co_removed = False\<rparr>, next_orbiter = 1\<rparr>)]"

definition shared_state :: "orb_ledger orbiters_state" where
  "shared_state = sample_orbiters_state\<lparr>CollatorsPool := shared_pools,
     AccountLookupOverride := [2 \<mapsto> None, 11 \<mapsto> Some 2]\<rparr>"

text \<open>Nothing keeps an orbiter from serving two collators, and then a rotation may lose blocks:
  here orbiter 11 leaves collator 2 in the rotation in which he starts for collator 1, whose pool
  rotates first; clearing the old override of pool 2 erases the new one of pool 1, so that for a
  whole period neither collator 1 nor its orbiter authors for collator 1.
\<close>

theorem shared_orbiter_loses_override:
  "orbiters_ok sample_orbiters shared_state
    \<and> (\<exists>t. on_rotate sample_orbiters 7 shared_state = (Ok (), t)
        \<and> OrbiterPerRound t 7 1 = Some 11
        \<and> (\<forall>k. lookup_account sample_orbiters t k \<noteq> Some 1))"
proof -
  let ?t = "snd (on_rotate sample_orbiters 7 shared_state)"
  have turns: "next_turn (snd (shared_pools ! 0)) = Some 11" "next_turn (snd (shared_pools ! 1)) = Some 12"
    "current_account (snd (shared_pools ! 0)) = None" "current_account (snd (shared_pools ! 1)) = Some 11"
    by (simp_all add: shared_pools_def next_turn_def current_account_def rotate_orbiter_def as_u32_def)
  have ok: "orbiters_ok sample_orbiters shared_state"
    by (auto simp: orbiters_ok_def shared_state_def shared_pools_def sample_orb_defs
        prefix_ordered_def collator_pool_ok_def contains_orbiter_def)
  have "fold (\<lambda>(c, p). rotate_overrides c p) shared_pools [2 \<mapsto> None, 11 \<mapsto> Some 2] =
      [1 \<mapsto> None, 2 \<mapsto> None, 12 \<mapsto> Some 2]"
    using turns by (auto simp: shared_pools_def rotate_overrides_def fun_eq_iff)
  then have "AccountLookupOverride ?t = [1 \<mapsto> None, 2 \<mapsto> None, 12 \<mapsto> Some 2]"
    by (simp add: on_rotate_run fold_rotate_effect shared_state_def)
  then have "\<forall>k. lookup_account sample_orbiters ?t k \<noteq> Some 1"
    by (auto simp: lookup_account_def)
  moreover have "fold (\<lambda>(c, p). rotate_rounds 1 7 c p) shared_pools m 7 1 = Some 11" for m
    using turns fold_rotate_rounds [of shared_pools 7 1 m 7 1] by (simp add: shared_pools_def u32_max_def)
  then have "OrbiterPerRound ?t 7 1 = Some 11"
    by (simp add: on_rotate_run fold_rotate_effect shared_state_def)
  ultimately show ?thesis using ok
    by (intro conjI exI [of _ ?t]) (simp_all add: on_rotate_run)
qed

section \<open>The authors of a round\<close>

text \<open>Counting the authors of a round's blocks one by one gives every author with the number of
  his blocks, in the order of the accounts and without repetition, and the number of blocks.
\<close>

theorem round_authors_count:
  assumes "length authors \<le> u32_max"
  shows "case into_data (foldl add_author round_authors_default authors) of (data, blocks) \<Rightarrow>
    sorted_wrt (<) (map fst data) \<and> blocks = length authors
    \<and> (\<forall>a. map_of data a = (if a \<in> set authors then Some (count_list authors a) else None))"
  using add_authors [OF assms] by (simp add: into_data_def authors_ok_def tally_def)

lemma round_authors_count_witness:
  "case into_data (foldl add_author round_authors_default [3, 1, 3]) of (data, blocks) \<Rightarrow>
    blocks = 3 \<and> map_of data 3 = Some 2 \<and> map_of data 2 = None"
  using round_authors_count [of "[3, 1, 3]"] by (auto simp: u32_max_def split: prod.splits)

end
