(* ===== verification/Runtime_Properties.thy ===== *)
theory Runtime_Properties
  imports Orbiter_Properties
begin

text \<open>
  The composition of the staking and the orbiters pallets in the runtime: an assignment of a round
  outlives the rounds until its payout, and the payout goes to the orbiter of that round.
\<close>

section \<open>Rounds and blocks\<close>

text \<open>A new round followed by \<open>k\<close> blocks, whose hook prunes the archive; and several of them.\<close>

definition round_blocks :: "'w orbiters_config \<Rightarrow> RoundIndex \<times> nat \<Rightarrow> ('w, unit) orbiters_m" where
  "round_blocks cfg = (\<lambda>(r, k). then_m (orbiters_on_new_round cfg r)
     (for_each_m (\<lambda>_. orbiters_on_initialize cfg) (replicate k ())))"

definition rounds_blocks :: "'w orbiters_config \<Rightarrow> RoundIndex \<Rightarrow> nat list \<Rightarrow> ('w, unit) orbiters_m" where
  "rounds_blocks cfg r ks = for_each_m (round_blocks cfg) (zip [r ..< r + length ks] ks)"

definition assigned ::
  "'w orbiters_config \<Rightarrow> RoundIndex \<Rightarrow> AccountId \<Rightarrow> AccountId \<Rightarrow> 'w \<Rightarrow> 'w orbiters_state \<Rightarrow> bool" where
  "assigned cfg r c a w s \<longleftrightarrow> \<not> ForceRotation s \<and> distinct (map fst (CollatorsPool s))
     \<and> OrbiterPerRound s r c = Some a \<and> orb_world s = w"

lemma rotated_state_world: "orb_world (rotated_state cfg r s) = orb_world s"
  "CurrentRound (rotated_state cfg r s) = CurrentRound s"
  by (simp_all add: rotated_state_def on_rotate_run fold_rotate_effect)

lemma assigned_initialize:
  assumes "assigned cfg r c a w s" and "CurrentRound s < r + MaxRoundArchive cfg"
  shows "wp (for_each_m (\<lambda>_. orbiters_on_initialize cfg) us) (\<lambda>_. assigned cfg r c a w) E s"
proof -
  have "wp (for_each_m (\<lambda>_. orbiters_on_initialize cfg) us)
      (\<lambda>_ t. assigned cfg r c a w t \<and> CurrentRound t < r + MaxRoundArchive cfg) E s"
    using assms
    by (intro wp_for_each [where I = "\<lambda>_ t. assigned cfg r c a w t \<and> CurrentRound t < r + MaxRoundArchive cfg"])
      (auto simp: orbiters_on_initialize_def wp_simps assigned_def)
  then show ?thesis by (rule wp_mono) auto
qed

lemma assigned_new_round:
  assumes "assigned cfg r c a w s" and "r < r'" and "r' + RotatePeriod cfg \<le> u32_max"
    and "0 < RotatePeriod cfg"
  shows "wp (orbiters_on_new_round cfg r') (\<lambda>_ t. assigned cfg r c a w t \<and> CurrentRound t = r') E s"
proof (cases "r' mod RotatePeriod cfg = 0")
  case True
  then show ?thesis using assms
    by (auto simp: wp_def new_round_rotates assigned_def rotated_state_simps rotated_state_world
        fold_rotate_rounds split: option.split)
next
  case False
  then show ?thesis using assms by (simp add: wp_def new_round_idle assigned_def)
qed

lemma assigned_later:
  assumes "assigned cfg r c a w s" and "0 < RotatePeriod cfg"
    and "\<forall>(r', k) \<in> set xs. r < r' \<and> r' < r + MaxRoundArchive cfg \<and> r' + RotatePeriod cfg \<le> u32_max"
  shows "wp (for_each_m (round_blocks cfg) xs) (\<lambda>_. assigned cfg r c a w) E s"
proof -
  have "wp (for_each_m (round_blocks cfg) xs) (\<lambda>_ t. assigned cfg r c a w t \<and> set [] \<subseteq> set xs) E s"
    using assms
    by (intro wp_for_each [where I = "\<lambda>ys t. assigned cfg r c a w t \<and> set ys \<subseteq> set xs"])
      (auto simp: round_blocks_def wp_simps intro!: wp_mono [OF assigned_new_round]
        wp_mono [OF assigned_initialize])
  then show ?thesis by (rule wp_mono) auto
qed

lemma assigned_first:
  assumes "\<not> ForceRotation s" and "distinct (map fst (CollatorsPool s))"
    and "map_of (CollatorsPool s) c = Some p" and "orbiters p \<noteq> []" and "small_pool p"
    and "0 < RotatePeriod cfg" and "r mod RotatePeriod cfg = 0" and "r + RotatePeriod cfg \<le> u32_max"
  shows "wp (orbiters_on_new_round cfg r)
    (\<lambda>_ t. assigned cfg r c (turn p 0) (orb_world s) t \<and> CurrentRound t = r) E s"
  using assms
  by (simp add: wp_def new_round_rotates assigned_def rotated_state_simps rotated_state_world
      fold_rotate_rounds next_turn_simps)

lemma assigned_rounds_blocks:
  assumes "\<not> ForceRotation s" and "distinct (map fst (CollatorsPool s))"
    and "map_of (CollatorsPool s) c = Some p" and "orbiters p \<noteq> []" and "small_pool p"
    and "0 < RotatePeriod cfg" and "r mod RotatePeriod cfg = 0"
    and "ks \<noteq> []" and "length ks \<le> MaxRoundArchive cfg"
    and "r + length ks + RotatePeriod cfg \<le> u32_max"
  shows "wp (rounds_blocks cfg r ks) (\<lambda>_. assigned cfg r c (turn p 0) (orb_world s)) E s"
proof -
  obtain k ks' where ks: "ks = k # ks'" using assms(8) by (cases ks) auto
  have zip: "zip [r ..< r + length ks] ks = (r, k) # zip [Suc r ..< r + length ks] ks'"
    by (simp add: ks upt_conv_Cons del: upt_Suc)
  have later: "\<forall>(r', k) \<in> set (zip [Suc r ..< r + length ks] ks').
      r < r' \<and> r' < r + MaxRoundArchive cfg \<and> r' + RotatePeriod cfg \<le> u32_max"
    using assms(9,10) by (auto dest!: set_zip_leftD)
  have arch: "0 < MaxRoundArchive cfg" using assms(8,9) by (cases ks) auto
  show ?thesis
    unfolding rounds_blocks_def zip for_each_m.simps wp_then round_blocks_def [of cfg] prod.case
    using assms arch later
    by (auto intro!: wp_mono [OF assigned_first] wp_mono [OF assigned_initialize]
        assigned_later simp: round_blocks_def [symmetric])
qed

section \<open>Payouts\<close>

lemma wp_distribute:
  "OrbiterPerRound s r c = Some a \<Longrightarrow>
    wp (distribute_rewards cfg r c v) (\<lambda>_ t. OrbiterPerRound t r c = None \<and>
      orb_world t = (case orb_deposit_into_existing cfg a v (orb_world s) of
        Some w \<Rightarrow> w | None \<Rightarrow> orb_world s)) E s"
  by (simp add: distribute_rewards_def wp_simps split: option.split)

text \<open>C24: The reward of a round goes to the orbiter who served in it: a pool rotates at round \<open>r\<close>,
  any number of further rounds and blocks pass, fewer than the archive keeps (the payment delay
  is below that), and the runtime's payout for round \<open>r\<close> deposits the amount for the orbiter whose
  turn \<open>r\<close> was, though others rotated in since; it leaves the staking storage alone, and the round
  cannot be paid to an orbiter again.
\<close>

theorem reward_reaches_round_orbiter:
  assumes "\<not> ForceRotation (world s)" and "distinct (map fst (CollatorsPool (world s)))"
    and "map_of (CollatorsPool (world s)) c = Some p" and "orbiters p \<noteq> []" and "small_pool p"
    and "ks \<noteq> []" and "length ks \<le> MaxRoundArchive (moonbeam_orbiters parts)"
    and "r + length ks < u32_max"
  shows "wp (then_m (on_orbiters (rounds_blocks (moonbeam_orbiters parts) r ks))
      (payout_collator_reward (moonbeam_config base parts) r c v))
    (\<lambda>_ t. t = s\<lparr>world := world t\<rparr>
      \<and> orb_world (world t) =
          (case op_deposit_into_existing parts (turn p 0) v (orb_world (world s)) of
             Some (_, w) \<Rightarrow> w | None \<Rightarrow> orb_world (world s))
      \<and> \<not> is_collator_pool_with_active_orbiter r c (world t))
    (\<lambda>_ _. False) s"
proof -
  let ?o = "moonbeam_orbiters parts" and ?a = "turn p 0" and ?w = "orb_world (world s)"
  have rounds: "wp (rounds_blocks ?o r ks) (\<lambda>_. assigned ?o r c ?a ?w) (\<lambda>_ _. False) (world s)"
    using assms by (intro assigned_rounds_blocks) auto
  have dep: "orb_deposit_into_existing ?o a v w = map_option snd (op_deposit_into_existing parts a v w)" for a w
    by (simp add: moonbeam_orbiters_def)
  have pay: "wp (distribute_rewards ?o r c v)
      (\<lambda>_ t. orb_world t = (case op_deposit_into_existing parts ?a v ?w of Some (_, w) \<Rightarrow> w | None \<Rightarrow> ?w)
        \<and> \<not> is_collator_pool_with_active_orbiter r c t) (\<lambda>_ _. False) t"
    if "assigned ?o r c ?a ?w t" for t
    using that
    by (intro wp_mono [OF wp_distribute [of t r c ?a]])
      (auto simp: assigned_def dep is_collator_pool_with_active_orbiter_def split: option.splits)
  have active: "is_collator_pool_with_active_orbiter r c t" if "assigned ?o r c ?a ?w t" for t
    using that by (simp add: assigned_def is_collator_pool_with_active_orbiter_def)
  show ?thesis
    by (simp add: wp_simps moonbeam_payout_collator_reward_def)
      (rule wp_mono [OF rounds], auto simp: active intro!: wp_mono [OF pay])
qed

definition runtime_state :: "orb_ledger orbiters_state staking" where
  "runtime_state =
     \<lparr>CollatorCommission = 0, TotalSelected = 8,
      InflationDistributionInfo = inflation_distribution_config_default,
      Round = round_new 6 100 20 50, DelegatorState = Map.empty, CandidateInfo = Map.empty,
      DelegationScheduledRequests = \<lambda>_. [], AutoCompoundingDelegations = \<lambda>_. [],
      TopDelegations = Map.empty, BottomDelegations = Map.empty, SelectedCandidates = [],
      Total = 0, CandidatePool = [], AtStake = \<lambda>_. [], WasInactive = \<lambda>_. [],
      DelayedPayouts = Map.empty, InflationConfig = inflation_info_default, Points = \<lambda>_. 0,
      AwardedPts = \<lambda>_ _. 0, EnableMarkingOffline = True, Events = [],
      world = sample_orbiters_state\<rparr>"

lemma reward_reaches_round_orbiter_witness:
  "\<exists>t. then_m (on_orbiters (rounds_blocks sample_orbiters 7 [3, 3, 1]))
      (payout_collator_reward (moonbeam_config undefined sample_parts) 7 1 50) runtime_state = (Ok (), t)
    \<and> snd (orb_world (world t)) = [(12, 50)]"
proof -
  have "wp (then_m (on_orbiters (rounds_blocks sample_orbiters 7 [3, 3, 1]))
      (payout_collator_reward (moonbeam_config undefined sample_parts) 7 1 50))
    (\<lambda>_ t. snd (orb_world (world t)) = [(12, 50)]) (\<lambda>_ _. False) runtime_state"
    unfolding sample_orbiters_def
    by (rule wp_mono [OF reward_reaches_round_orbiter [where p = sample_pool]])
      (auto simp: runtime_state_def sample_orb_defs turn_def turn_start_def sample_parts_def u32_max_def
        moonbeam_orbiters_def)
  from wp_total [OF this] show ?thesis by (metis old.unit.exhaust)
qed

end
