(* ===== verification/Payout_Properties.thy ===== *)
theory Payout_Properties
  imports Payouts Runtime_Properties
begin

text \<open>
  Properties of the payouts of a round in the runtime: what they mint in all is bounded by what was
  set aside for it.
\<close>

section \<open>A sample round\<close>

text \<open>The issuance is what was minted; the collator 1 is served by an orbiter, 2 is not.\<close>

definition minting_base :: "orb_ledger config" where
  "minting_base = params.extend moonbeam_params
     \<lparr>free_balance = \<lambda>w a. 1000, reserved_balance = \<lambda>w a. 0,
      total_issuance = \<lambda>w. sum_list (map snd (snd w)),
      set_lock = \<lambda>l a b w. w, remove_lock = \<lambda>l a w. w,
      deposit_into_existing = \<lambda>a v w. Some (v, (fst w, (a, v) # snd w)),
      perbill_from_rational = \<lambda>p q. if q = 0 then 1000000000 else min 1000000000 (p * 1000000000 div q),
      perbill_mul = \<lambda>p x. p * x div 1000000000,
      percent_mul = \<lambda>p x. p * x div 100, percent_mul_ceil = \<lambda>p x. (p * x + 99) div 100,
      annual_to_round_rate = \<lambda>a n. a div n,
      is_monetary_governance = \<lambda>o'. o' = Root, block_author = \<lambda>w. 1, current_slot = \<lambda>w. 100,
      key_order = \<lambda>k. k,
      payout_collator_reward = \<lambda>r c a. return_m (), on_collator_payout = \<lambda>r c a. return_m (),
      on_inactive_collator = \<lambda>c r. return_m (), on_new_round = \<lambda>r. return_m ()\<rparr>"

lemma minting_base_simps:
  "total_issuance minting_base w = sum_list (map snd (snd w))"
  "set_lock minting_base l a v w = w" "remove_lock minting_base l a w = w"
  "deposit_into_existing minting_base a v w = Some (v, (fst w, (a, v) # snd w))"
  "perbill_mul minting_base p x = p * x div 1000000000"
  "perbill_from_rational minting_base p q =
     (if q = 0 then 1000000000 else min 1000000000 (p * 1000000000 div q))"
  "percent_mul_ceil minting_base p x = (p * x + 99) div 100"
  by (simp_all add: minting_base_def params.defs)

lemma minting_base_laws: "mint_laws minting_base sample_parts" "share_laws minting_base"
proof -
  show "mint_laws minting_base sample_parts"
    by (simp add: mint_laws_def lock_laws_def minting_base_simps sample_parts_def)
  have "min 1000000000 (p * 1000000000 div q) * q \<le> p * 1000000000" for p q :: nat
    by (rule le_trans [OF mult_le_mono1 [OF min.cobounded2] div_times_less_eq_dividend])
  moreover have "2000000000 * (n div 1000000000) \<le> 2 * n + 1000000000" for n :: nat
    using div_times_less_eq_dividend [of n 1000000000] by linarith
  ultimately show "share_laws minting_base"
    by (simp add: share_laws_def minting_base_simps)
qed

definition sample_snapshot :: "Balance \<Rightarrow> Balance \<Rightarrow> CollatorSnapshot" where
  "sample_snapshot a b =
     \<lparr>snap_bond = a, snap_delegations = [\<lparr>bac_owner = 21, bac_amount = b, bac_auto_compound = 0\<rparr>],
      snap_total = a + b\<rparr>"

definition payout_state :: "orb_ledger orbiters_state staking" where
  "payout_state = runtime_state\<lparr>
     AtStake := (\<lambda>_. [])(5 := [(1, sample_snapshot 60 40), (2, sample_snapshot 80 20)]),
     DelayedPayouts := [5 \<mapsto> \<lparr>dp_round_issuance = 1000, dp_total_staking_reward = 700,
       dp_collator_commission = 200000000\<rparr>],
     Points := (\<lambda>_. 0)(5 := 40), AwardedPts := (\<lambda>_ _. 0)(5 := (\<lambda>_. 0)(1 := 20, 2 := 20))\<rparr>"

lemma payout_state_simps:
  "AtStake payout_state 5 = [(1, sample_snapshot 60 40), (2, sample_snapshot 80 20)]"
  "DelayedPayouts payout_state 5 = Some \<lparr>dp_round_issuance = 1000, dp_total_staking_reward = 700,
     dp_collator_commission = 200000000\<rparr>"
  "Points payout_state 5 = 40" "AwardedPts payout_state 5 1 = 20" "AwardedPts payout_state 5 2 = 20"
  "total_issuance minting_base (orb_world (world payout_state)) = 0"
  by (simp_all add: payout_state_def runtime_state_def sample_orb_defs minting_base_simps)

section \<open>A round mints what was set aside\<close>

text \<open>C10: The payouts of a whole round, whichever way each goes, to orbiters or collators and their
  delegators, compounded or not, mint no more than the larger of the reward set aside for the
  round and the commission of its collators, up to rounding: for each collator, half a unit for
  each of its delegations and one unit more. This is when the points of the collators are at most
  the points of the round, and the snapshots add up: the total of each is its bond and its
  delegations together, and not zero.\<close>

theorem round_mints_at_most_pot:
  assumes "mint_laws base parts" and "share_laws base" and "2 \<le> now"
    and "DelayedPayouts s (now - 2) = Some info" and "Points s (now - 2) \<noteq> 0"
    and "distinct (map fst (AtStake s (now - 2)))" and "\<forall>(c, sn) \<in> set (AtStake s (now - 2)). adds_up sn"
    and "sum_list (map (\<lambda>(c, sn). AwardedPts s (now - 2) c) (AtStake s (now - 2))) \<le> Points s (now - 2)"
    and "t = (payout_block (moonbeam_config base parts) now ^^ length (AtStake s (now - 2))) s"
  shows "AtStake t (now - 2) = []
    \<and> 2 * total_issuance base (orb_world (world t)) \<le> 2 * total_issuance base (orb_world (world s))
      + 2 * max (dp_total_staking_reward info)
          (perbill_mul base (dp_collator_commission info) (dp_round_issuance info))
      + sum_list (map (\<lambda>(c, sn). length (snap_delegations sn) + 2) (AtStake s (now - 2)))"
proof -
  let ?es = "AtStake s (now - 2)" and ?points = "Points s (now - 2)"
  let ?f = "\<lambda>e. AwardedPts s (now - 2) (fst e)"
  have "sum_list (map (\<lambda>e. 2 * rounding (snd e) + 1) ?es)
      \<le> sum_list (map (\<lambda>(c, sn). length (snap_delegations sn) + 2) ?es)"
    by (rule sum_list_mono) (auto simp: rounding_def)
  moreover have "2 * sum_list (map (\<lambda>e. collator_bound base info (?f e) ?points (snd e)) ?es)
      \<le> 2 * max (dp_total_staking_reward info)
          (perbill_mul base (dp_collator_commission info) (dp_round_issuance info))
        + sum_list (map (\<lambda>e. 2 * rounding (snd e) + 1) ?es)"
    by (rule round_bound_sum) (use assms in \<open>simp_all add: case_prod_beta'\<close>)
  moreover note payout_blocks [OF assms(1-5) refl assms(6,7), folded assms(9)]
  ultimately show ?thesis by (simp add: case_prod_beta' moonbeam_payout_simps)
qed

lemma round_mints_at_most_pot_witness:
  "2 * total_issuance minting_base (orb_world (world
     ((payout_block (moonbeam_config minting_base sample_parts) 7 ^^ 2) payout_state))) \<le> 2 * 700 + 6"
proof -
  have len: "length (AtStake payout_state (7 - 2)) = 2" by (simp add: payout_state_simps)
  have "map_option dp_total_staking_reward (DelayedPayouts payout_state (7 - 2)) = Some 700"
    by (simp add: payout_state_simps)
  then obtain info where info: "DelayedPayouts payout_state (7 - 2) = Some info" by auto
  then have "dp_total_staking_reward info = 700"
    "perbill_mul minting_base (dp_collator_commission info) (dp_round_issuance info) = 200"
    by (auto simp: payout_state_simps minting_base_simps)
  moreover have "distinct (map fst (AtStake payout_state (7 - 2)))" "Points payout_state (7 - 2) \<noteq> 0"
    "\<forall>(c, sn) \<in> set (AtStake payout_state (7 - 2)). adds_up sn"
    "sum_list (map (\<lambda>(c, sn). AwardedPts payout_state (7 - 2) c) (AtStake payout_state (7 - 2)))
      \<le> Points payout_state (7 - 2)"
    "sum_list (map (\<lambda>(c, sn). length (snap_delegations sn) + 2) (AtStake payout_state (7 - 2))) = 6"
    by (simp_all add: payout_state_simps sample_snapshot_def adds_up_def del: One_nat_def)
  ultimately show ?thesis
    using round_mints_at_most_pot [OF minting_base_laws _ info _ _ _ _ refl] len payout_state_simps(6) by simp
qed

end
