(* ===== verification/Weight_Trader.thy ===== *)
theory Weight_Trader
  imports Pallet_Support
begin

text \<open>
  pallet-xcm-weight-trader: the registry of the assets that may pay for XCM execution with their
  prices, and the \<open>Trader\<close> that sells weight for them. Logging is left out.
\<close>

section \<open>Types, errors, events, storage\<close>

text \<open>
  \<open>Weight\<close> is the two-dimensional weight of sp-weights. A location is a value of type \<open>'l\<close>. An
  \<open>Asset\<close> is one of xcm: a location and an amount, or one instance, by number.
\<close>

record Weight =
  ref_time :: nat
  proof_size :: nat

definition weight_zero :: Weight where
  "weight_zero = \<lparr>ref_time = 0, proof_size = 0\<rparr>"

definition weight_min :: "Weight \<Rightarrow> Weight \<Rightarrow> Weight" where
  "weight_min a b = \<lparr>ref_time = min (ref_time a) (ref_time b), proof_size = min (proof_size a) (proof_size b)\<rparr>"

text \<open>The subtraction of weights, whose operands are in order where the code uses it.\<close>

definition weight_sub :: "Weight \<Rightarrow> Weight \<Rightarrow> Weight" where
  "weight_sub a b = \<lparr>ref_time = ref_time a - ref_time b, proof_size = proof_size a - proof_size b\<rparr>"

datatype Fungibility = Fungible nat | NonFungible nat

record 'l Asset =
  asset_id :: 'l
  asset_fun :: Fungibility

definition fungible_asset :: "'l \<Rightarrow> nat \<Rightarrow> 'l Asset" where
  "fungible_asset l amount = \<lparr>asset_id = l, asset_fun = Fungible amount\<rparr>"

record 'l XcmWeightTraderAssetInfo =
  info_location :: 'l
  info_relative_price :: nat

definition RELATIVE_PRICE_DECIMALS :: nat where "RELATIVE_PRICE_DECIMALS = 18"

datatype trader_error =
    AssetAlreadyAdded | AssetAlreadyPaused | AssetNotFound | AssetNotPaused | XcmLocationFiltered
  | PriceCannotBeZero | PriceOverflow

datatype 'l trader_event =
    SupportedAssetAdded 'l nat
  | SupportedAssetEdited 'l nat
  | PauseAssetSupport 'l
  | ResumeAssetSupport 'l
  | SupportedAssetRemoved 'l

text \<open>The errors of xcm and of the payment API that the code returns.\<close>

datatype xcm_error = XcmOverflow | XcmAssetNotFound | XcmNotWithdrawable | XcmTooExpensive

datatype payment_api_error =
    VersionedConversionFailed | UnhandledXcmVersion | ApiAssetNotFound | WeightNotComputable

record ('l, 'w) trader_state =
  SupportedAssets :: "('l \<times> (bool \<times> nat)) list"
  trader_events :: "'l trader_event list"
  trader_world :: 'w

type_synonym ('l, 'w, 'a) trader_m = "(('l, 'w) trader_state, trader_error pallet_error, 'a) prog"

text \<open>
  The configuration: the five origins, the location filter, the native location, the fee of a
  weight with its conversion to 128 bits, the trie order of the registry, the holding of assets
  \<open>'h\<close> of the XCM executor (its first fungible asset, and what is left after taking an asset
  out), the transactor that deposits the fee for the fees account, and the versioned asset
  identifiers \<open>'v\<close> of xcm.
\<close>

record ('l, 'w, 'h, 'v) trader_config =
  AddSupportedAssetOrigin :: "origin \<Rightarrow> bool"
  EditSupportedAssetOrigin :: "origin \<Rightarrow> bool"
  PauseSupportedAssetOrigin :: "origin \<Rightarrow> bool"
  ResumeSupportedAssetOrigin :: "origin \<Rightarrow> bool"
  RemoveSupportedAssetOrigin :: "origin \<Rightarrow> bool"
  AssetLocationFilter :: "'l \<Rightarrow> bool"
  NativeLocation :: 'l
  weight_to_fee :: "Weight \<Rightarrow> nat"
  balance_to_u128 :: "nat \<Rightarrow> nat option"
  location_order :: "'l \<Rightarrow> nat"
  first_fungible :: "'h \<Rightarrow> 'l Asset option"
  holding_sub :: "'h \<Rightarrow> 'l Asset \<Rightarrow> 'h option"
  deposit_fees :: "'l Asset \<Rightarrow> 'w \<Rightarrow> 'w"
  versioned_v5 :: "'l \<Rightarrow> 'v"
  into_version :: "'v \<Rightarrow> nat \<Rightarrow> 'v option"
  as_v5 :: "'v \<Rightarrow> 'l option"

definition deposit_trader_event :: "'l trader_event \<Rightarrow> ('l, 'w, unit) trader_m" where
  "deposit_trader_event e = modify_m (\<lambda>s. s\<lparr>trader_events := trader_events s @ [e]\<rparr>)"

definition put_supported ::
  "('l, 'w, 'h, 'v) trader_config \<Rightarrow> 'l \<Rightarrow> bool \<times> nat \<Rightarrow> ('l, 'w, unit) trader_m" where
  "put_supported cfg l x =
     modify_m (\<lambda>s. s\<lparr>SupportedAssets := prefix_insert (location_order cfg) l x (SupportedAssets s)\<rparr>)"

definition get_supported :: "'l \<Rightarrow> ('l, 'w, (bool \<times> nat) option) trader_m" where
  "get_supported l = gets_m (\<lambda>s. prefix_get (SupportedAssets s) l)"

lemma wp_trader [wp_simps]:
  "wp (deposit_trader_event e) Q E s = Q () (s\<lparr>trader_events := trader_events s @ [e]\<rparr>)"
  "wp (put_supported cfg l x) Q E s =
     Q () (s\<lparr>SupportedAssets := prefix_insert (location_order cfg) l x (SupportedAssets s)\<rparr>)"
  "wp (get_supported l) R E s = R (map_of (SupportedAssets s) l) s"
  by (simp_all add: deposit_trader_event_def put_supported_def get_supported_def prefix_get_def wp_simps)

section \<open>Calls\<close>

definition do_add_asset ::
  "('l, 'w, 'h, 'v) trader_config \<Rightarrow> 'l \<Rightarrow> nat \<Rightarrow> ('l, 'w, unit) trader_m" where
  "do_add_asset cfg location relative_price =
     then_m (ensure_p (relative_price \<noteq> 0) PriceCannotBeZero)
    (bind_m (get_supported location) (\<lambda>found.
     then_m (ensure_p (found = None) AssetAlreadyAdded)
    (then_m (ensure_p (AssetLocationFilter cfg location) XcmLocationFiltered)
    (then_m (put_supported cfg location (True, relative_price))
            (deposit_trader_event (SupportedAssetAdded location relative_price))))))"

definition add_asset ::
  "('l, 'w, 'h, 'v) trader_config \<Rightarrow> origin \<Rightarrow> 'l \<Rightarrow> nat \<Rightarrow> ('l, 'w, unit) trader_m" where
  "add_asset cfg o' location relative_price =
     then_m (origin_p (AddSupportedAssetOrigin cfg) o') (do_add_asset cfg location relative_price)"

definition edit_asset ::
  "('l, 'w, 'h, 'v) trader_config \<Rightarrow> origin \<Rightarrow> 'l \<Rightarrow> nat \<Rightarrow> ('l, 'w, unit) trader_m" where
  "edit_asset cfg o' location relative_price =
     then_m (origin_p (EditSupportedAssetOrigin cfg) o')
    (then_m (ensure_p (relative_price \<noteq> 0) PriceCannotBeZero)
    (bind_m (get_supported location) (\<lambda>found.
     bind_m (ok_or_p found AssetNotFound) (\<lambda>(enabled, _).
     then_m (put_supported cfg location (enabled, relative_price))
            (deposit_trader_event (SupportedAssetEdited location relative_price))))))"

definition pause_asset_support ::
  "('l, 'w, 'h, 'v) trader_config \<Rightarrow> origin \<Rightarrow> 'l \<Rightarrow> ('l, 'w, unit) trader_m" where
  "pause_asset_support cfg o' location =
     then_m (origin_p (PauseSupportedAssetOrigin cfg) o')
    (bind_m (get_supported location) (\<lambda>found. case found of
       Some (enabled, relative_price) \<Rightarrow>
         if enabled
         then then_m (put_supported cfg location (False, relative_price))
                     (deposit_trader_event (PauseAssetSupport location))
         else err_p AssetAlreadyPaused
     | None \<Rightarrow> err_p AssetNotFound))"

definition resume_asset_support ::
  "('l, 'w, 'h, 'v) trader_config \<Rightarrow> origin \<Rightarrow> 'l \<Rightarrow> ('l, 'w, unit) trader_m" where
  "resume_asset_support cfg o' location =
     then_m (origin_p (ResumeSupportedAssetOrigin cfg) o')
    (bind_m (get_supported location) (\<lambda>found. case found of
       Some (enabled, relative_price) \<Rightarrow>
         if \<not> enabled
         then then_m (put_supported cfg location (True, relative_price))
                     (deposit_trader_event (ResumeAssetSupport location))
         else err_p AssetNotPaused
     | None \<Rightarrow> err_p AssetNotFound))"

definition remove_asset ::
  "('l, 'w, 'h, 'v) trader_config \<Rightarrow> origin \<Rightarrow> 'l \<Rightarrow> ('l, 'w, unit) trader_m" where
  "remove_asset cfg o' location =
     then_m (origin_p (RemoveSupportedAssetOrigin cfg) o')
    (bind_m (get_supported location) (\<lambda>found.
     then_m (ensure_p (found \<noteq> None) AssetNotFound)
    (then_m (modify_m (\<lambda>s. s\<lparr>SupportedAssets := prefix_remove location (SupportedAssets s)\<rparr>))
            (deposit_trader_event (SupportedAssetRemoved location)))))"

definition trader_genesis_default :: "'l XcmWeightTraderAssetInfo list" where
  "trader_genesis_default = []"

definition trader_genesis ::
  "('l, 'w, 'h, 'v) trader_config \<Rightarrow> 'l XcmWeightTraderAssetInfo list \<Rightarrow> ('l, 'w, unit) trader_m" where
  "trader_genesis cfg assets =
     for_each_m (\<lambda>asset. expect_ok_m (do_add_asset cfg (info_location asset) (info_relative_price asset)))
       assets"

section \<open>Queries\<close>

definition get_asset_relative_price :: "('l, 'w) trader_state \<Rightarrow> 'l \<Rightarrow> nat option" where
  "get_asset_relative_price s location =
     (case prefix_get (SupportedAssets s) location of
        Some (enabled, ratio) \<Rightarrow> (if enabled then Some ratio else None)
      | None \<Rightarrow> None)"

text \<open>Collecting into a \<open>Result\<close>: the first \<open>None\<close> decides.\<close>

fun collect_options :: "'a option list \<Rightarrow> 'a list option" where
  "collect_options [] = Some []"
| "collect_options (x # xs) =
     (case x of None \<Rightarrow> None | Some y \<Rightarrow> map_option ((#) y) (collect_options xs))"

definition query_acceptable_payment_assets ::
  "('l, 'w, 'h, 'v) trader_config \<Rightarrow> ('l, 'w) trader_state \<Rightarrow> nat \<Rightarrow> payment_api_error + 'v list" where
  "query_acceptable_payment_assets cfg s xcm_version =
     (let v5_assets = versioned_v5 cfg (NativeLocation cfg) #
            List.map_filter (\<lambda>(asset_location, enabled, _).
              if enabled then Some (versioned_v5 cfg asset_location) else None) (SupportedAssets s)
      in if xcm_version = 3 \<or> xcm_version = 4
         then (case collect_options (map (\<lambda>v. into_version cfg v xcm_version) v5_assets) of
                 Some vs \<Rightarrow> Inr vs
               | None \<Rightarrow> Inl VersionedConversionFailed)
         else if xcm_version = 5 then Inr v5_assets
         else Inl UnhandledXcmVersion)"

definition compute_amount_to_charge ::
  "('l, 'w, 'h, 'v) trader_config \<Rightarrow> ('l, 'w) trader_state \<Rightarrow> Weight \<Rightarrow> 'l \<Rightarrow> xcm_error + nat" where
  "compute_amount_to_charge cfg s weight asset_location =
     (if asset_location = NativeLocation cfg
      then (case balance_to_u128 cfg (weight_to_fee cfg weight) of
              Some amount \<Rightarrow> Inr amount
            | None \<Rightarrow> Inl XcmOverflow)
      else case get_asset_relative_price s asset_location of
        Some relative_price \<Rightarrow>
          (if relative_price = 0 then Inr 0
           else case balance_to_u128 cfg (weight_to_fee cfg weight) of
             Some native_amount \<Rightarrow>
               (if native_amount * 10 ^ RELATIVE_PRICE_DECIMALS \<le> u128_max
                then Inr (native_amount * 10 ^ RELATIVE_PRICE_DECIMALS div relative_price)
                else Inl XcmOverflow)
           | None \<Rightarrow> Inl XcmOverflow)
      | None \<Rightarrow> Inl XcmAssetNotFound)"

definition query_weight_to_asset_fee ::
  "('l, 'w, 'h, 'v) trader_config \<Rightarrow> ('l, 'w) trader_state \<Rightarrow> Weight \<Rightarrow> 'v \<Rightarrow> payment_api_error + nat" where
  "query_weight_to_asset_fee cfg s weight asset =
     (case into_version cfg asset 5 of
        None \<Rightarrow> Inl VersionedConversionFailed
      | Some v \<Rightarrow>
          (case as_v5 cfg v of
             Some asset_location \<Rightarrow>
               (case compute_amount_to_charge cfg s weight asset_location of
                  Inr amount \<Rightarrow> Inr amount
                | Inl e \<Rightarrow> Inl (if e = XcmAssetNotFound then ApiAssetNotFound else WeightNotComputable))
           | None \<Rightarrow> Inl UnhandledXcmVersion))"

section \<open>The trader\<close>

record 'l Trader =
  tr_weight :: Weight
  tr_asset :: "'l Asset option"

definition trader_new :: "'l Trader" where
  "trader_new = \<lparr>tr_weight = weight_zero, tr_asset = None\<rparr>"

definition buy_weight ::
  "('l, 'w, 'h, 'v) trader_config \<Rightarrow> ('l, 'w) trader_state \<Rightarrow> Weight \<Rightarrow> 'h \<Rightarrow> 'l Trader
   \<Rightarrow> (xcm_error + 'h) \<times> 'l Trader" where
  "buy_weight cfg s weight payment self =
     (if tr_asset self \<noteq> None then (Inl XcmNotWithdrawable, self)
      else case first_fungible cfg payment of
        None \<Rightarrow> (Inl XcmAssetNotFound, self)
      | Some first_asset \<Rightarrow>
          (case asset_fun first_asset of
             Fungible _ \<Rightarrow>
               (case compute_amount_to_charge cfg s weight (asset_id first_asset) of
                  Inl e \<Rightarrow> (Inl e, self)
                | Inr amount \<Rightarrow>
                    if amount = 0 then (Inr payment, self)
                    else let required = fungible_asset (asset_id first_asset) amount in
                      (case holding_sub cfg payment required of
                         None \<Rightarrow> (Inl XcmTooExpensive, self)
                       | Some unused \<Rightarrow>
                           (Inr unused, self\<lparr>tr_weight := weight, tr_asset := Some required\<rparr>)))
           | NonFungible _ \<Rightarrow> (Inl XcmAssetNotFound, self)))"

definition refund_weight ::
  "('l, 'w, 'h, 'v) trader_config \<Rightarrow> ('l, 'w) trader_state \<Rightarrow> Weight \<Rightarrow> 'l Trader
   \<Rightarrow> 'l Asset option \<times> 'l Trader" where
  "refund_weight cfg s actual_weight self =
     (let taken = tr_asset self; self = self\<lparr>tr_asset := None\<rparr> in
      case taken of
        None \<Rightarrow> (None, self)
      | Some asset \<Rightarrow>
          (case asset_fun asset of
             NonFungible _ \<Rightarrow> (None, self)
           | Fungible initial_amount \<Rightarrow>
               if actual_weight = tr_weight self
               then (None, self\<lparr>tr_asset := Some (fungible_asset (asset_id asset) initial_amount)\<rparr>)
               else let weight = weight_min actual_weight (tr_weight self);
                        amount = (case compute_amount_to_charge cfg s weight (asset_id asset) of
                                    Inr amount \<Rightarrow> amount | Inl _ \<Rightarrow> u128_max);
                        final_amount = min amount initial_amount;
                        amount_to_refund = initial_amount - final_amount
                    in (Some (fungible_asset (asset_id asset) amount_to_refund),
                        self\<lparr>tr_weight := weight_sub (tr_weight self) weight,
                             tr_asset := Some (fungible_asset (asset_id asset) final_amount)\<rparr>)))"

text \<open>Dropping a trader deposits what it keeps for the fees account; the result is ignored.\<close>

definition trader_drop ::
  "('l, 'w, 'h, 'v) trader_config \<Rightarrow> 'l Trader \<Rightarrow> ('l, 'w) trader_state \<Rightarrow> ('l, 'w) trader_state" where
  "trader_drop cfg self s =
     (case tr_asset self of
        Some asset \<Rightarrow> s\<lparr>trader_world := deposit_fees cfg asset (trader_world s)\<rparr>
      | None \<Rightarrow> s)"

end
