(* ===== verification/Trader_Properties.thy ===== *)
theory Trader_Properties
  imports Weight_Trader
begin

text \<open>
  The properties of the weight trader: the price of a weight, the money of one trader from the
  purchase through refunds to the fees account, and the registry of supported assets.
\<close>

section \<open>A sample\<close>

text \<open>Locations are numbers, 0 the native one; a holding is an amount of one asset.\<close>

type_synonym sample_holding = "nat \<times> nat"

definition sample_trader :: "(nat, (nat \<times> nat) list, sample_holding, nat) trader_config" where
  "sample_trader =
     \<lparr>AddSupportedAssetOrigin = \<lambda>o'. o' = Root, EditSupportedAssetOrigin = \<lambda>o'. o' = Root,
      PauseSupportedAssetOrigin = \<lambda>o'. o' = Root, ResumeSupportedAssetOrigin = \<lambda>o'. o' = Root,
      RemoveSupportedAssetOrigin = \<lambda>o'. o' = Root, AssetLocationFilter = \<lambda>l. l \<noteq> 0,
      NativeLocation = 0, weight_to_fee = \<lambda>w. ref_time w, balance_to_u128 = Some,
      location_order = \<lambda>l. l, first_fungible = \<lambda>h. Some (fungible_asset (fst h) (snd h)),
      holding_sub = \<lambda>h a. (case asset_fun a of
          Fungible n \<Rightarrow> if asset_id a = fst h \<and> n \<le> snd h then Some (fst h, snd h - n) else None
        | NonFungible _ \<Rightarrow> None),
      deposit_fees = \<lambda>a w. (case asset_fun a of Fungible n \<Rightarrow> (asset_id a, n) # w | NonFungible _ \<Rightarrow> w),
      versioned_v5 = \<lambda>l. l, into_version = \<lambda>v n. Some v, as_v5 = Some\<rparr>"

definition sample_registry :: "(nat, (nat \<times> nat) list) trader_state" where
  "sample_registry =
     \<lparr>SupportedAssets = [(1, True, 500000000000000000), (2, False, 7)], trader_events = [], trader_world = []\<rparr>"

lemma sample_trader_simps [simp]:
  "NativeLocation sample_trader = 0" "weight_to_fee sample_trader w = ref_time w"
  "balance_to_u128 sample_trader n = Some n" "location_order sample_trader l = l"
  "first_fungible sample_trader h = Some (fungible_asset (fst h) (snd h))"
  "holding_sub sample_trader h (fungible_asset l n) =
     (if l = fst h \<and> n \<le> snd h then Some (fst h, snd h - n) else None)"
  "deposit_fees sample_trader (fungible_asset l n) ds = (l, n) # ds"
  "AddSupportedAssetOrigin sample_trader o' = (o' = Root)" "AssetLocationFilter sample_trader l = (l \<noteq> 0)"
  "versioned_v5 sample_trader l = l"
  by (simp_all add: sample_trader_def fungible_asset_def)

definition weight_of :: "nat \<Rightarrow> Weight" where
  "weight_of n = \<lparr>ref_time = n, proof_size = 0\<rparr>"

section \<open>Prices\<close>

text \<open>The charge for a weight in a supported asset is its native fee times ten to the
  eighteenth over the price, rounded down, exactly, at 128 bits; it fails only when that product
  does not fit.\<close>

theorem charge_rounds_down:
  assumes "asset_location \<noteq> NativeLocation cfg"
    and "get_asset_relative_price s asset_location = Some price" and "price \<noteq> 0"
    and "balance_to_u128 cfg (weight_to_fee cfg weight) = Some native"
  shows "case compute_amount_to_charge cfg s weight asset_location of
      Inr amount \<Rightarrow> amount * price \<le> native * 10 ^ 18 \<and> native * 10 ^ 18 < (amount + 1) * price
        \<and> amount \<le> u128_max
    | Inl e \<Rightarrow> e = XcmOverflow \<and> u128_max < native * 10 ^ 18"
proof -
  let ?n = "native * 10 ^ 18"
  have "?n div price * price \<le> ?n" by (rule div_times_less_eq_dividend)
  moreover have "?n < (?n div price + 1) * price"
    using assms(3) dividend_less_div_times [of price ?n] by simp
  moreover have "?n div price \<le> u128_max" if "?n \<le> u128_max"
    using that by (rule le_trans [OF div_le_dividend])
  ultimately show ?thesis using assms
    by (auto simp: compute_amount_to_charge_def RELATIVE_PRICE_DECIMALS_def simp del: power_numeral)
qed

lemma charge_rounds_down_witness:
  "case compute_amount_to_charge sample_trader sample_registry (weight_of 10) 1 of
      Inr amount \<Rightarrow> amount * 500000000000000000 \<le> 10 * 10 ^ 18 | Inl e \<Rightarrow> e = XcmOverflow"
proof -
  have "get_asset_relative_price sample_registry 1 = Some 500000000000000000"
    by (simp add: get_asset_relative_price_def sample_registry_def prefix_get_def)
  from charge_rounds_down [OF _ this, of sample_trader "weight_of 10" 10] show ?thesis
    by (auto simp: weight_of_def split: sum.splits)
qed

section \<open>The money of a trader\<close>

text \<open>Refunds asked for one after another, at possibly different prices, and what they returned.\<close>

fun refunds ::
  "('l, 'w, 'h, 'v) trader_config \<Rightarrow> 'l Trader \<Rightarrow> (('l, 'w) trader_state \<times> Weight) list
   \<Rightarrow> 'l Asset list \<times> 'l Trader" where
  "refunds cfg tr [] = ([], tr)"
| "refunds cfg tr ((s, w) # ws) =
     (case refund_weight cfg s w tr of (r, tr) \<Rightarrow>
      case refunds cfg tr ws of (rs, tr) \<Rightarrow> ((case r of None \<Rightarrow> rs | Some a \<Rightarrow> a # rs), tr))"

definition asset_amount :: "'l Asset \<Rightarrow> nat" where
  "asset_amount a = (case asset_fun a of Fungible n \<Rightarrow> n | NonFungible _ \<Rightarrow> 0)"

lemma asset_amount_fungible [simp]: "asset_amount (fungible_asset l n) = n"
  "asset_id (fungible_asset l n) = l" "asset_fun (fungible_asset l n) = Fungible n"
  by (simp_all add: asset_amount_def fungible_asset_def)

lemma refund_weight_keeps:
  assumes "tr_asset tr = Some (fungible_asset l n)" and "refund_weight cfg s w tr = (r, tr')"
  shows "\<exists>kept. tr_asset tr' = Some (fungible_asset l kept)
    \<and> (case r of None \<Rightarrow> 0 | Some a \<Rightarrow> asset_amount a) + kept = n \<and> (\<forall>a. r = Some a \<longrightarrow> asset_id a = l)"
  using assms by (auto simp: refund_weight_def Let_def split: if_splits)

lemma refunds_keep:
  "tr_asset tr = Some (fungible_asset l n) \<Longrightarrow>
    \<exists>rs tr' kept. refunds cfg tr ws = (rs, tr') \<and> tr_asset tr' = Some (fungible_asset l kept)
      \<and> sum_list (map asset_amount rs) + kept = n \<and> (\<forall>r \<in> set rs. asset_id r = l)"
proof (induction ws arbitrary: tr n)
  case Nil
  then show ?case by simp
next
  case (Cons x ws)
  obtain s w where x: "x = (s, w)" by (cases x)
  obtain r tr' where run: "refund_weight cfg s w tr = (r, tr')" by (cases "refund_weight cfg s w tr")
  obtain kept where r: "tr_asset tr' = Some (fungible_asset l kept)"
    "(case r of None \<Rightarrow> 0 | Some a \<Rightarrow> asset_amount a) + kept = n" "\<forall>a. r = Some a \<longrightarrow> asset_id a = l"
    using refund_weight_keeps [OF Cons.prems run] by blast
  obtain rs tr'' kept' where "refunds cfg tr' ws = (rs, tr'')"
    "tr_asset tr'' = Some (fungible_asset l kept')"
    "sum_list (map asset_amount rs) + kept' = kept" "\<forall>r \<in> set rs. asset_id r = l"
    using Cons.IH [OF r(1)] by blast
  with run r x show ?case by (cases r) auto
qed

text \<open>C34: A trader neither creates nor loses money: what a purchase took from the payment is, after
  any sequence of refunds, the sum of the refunds and of what is deposited for the fees account
  when the trader is dropped, all in the asset of the purchase, which is the only one it makes.\<close>

theorem trader_conserves:
  assumes "first_fungible cfg payment = Some \<lparr>asset_id = l, asset_fun = Fungible have\<rparr>"
    and "compute_amount_to_charge cfg s w l = Inr amount" and "0 < amount"
    and "holding_sub cfg payment (fungible_asset l amount) = Some unused"
  shows "\<exists>bought rs final kept. buy_weight cfg s w payment trader_new = (Inr unused, bought)
    \<and> refunds cfg bought ws = (rs, final)
    \<and> sum_list (map asset_amount rs) + kept = amount \<and> (\<forall>r \<in> set rs. asset_id r = l)
    \<and> trader_drop cfg final t = t\<lparr>trader_world := deposit_fees cfg (fungible_asset l kept) (trader_world t)\<rparr>
    \<and> buy_weight cfg t w' payment' final = (Inl XcmNotWithdrawable, final)"
proof -
  let ?b = "trader_new\<lparr>tr_weight := w, tr_asset := Some (fungible_asset l amount)\<rparr>"
  have buy: "buy_weight cfg s w payment trader_new = (Inr unused, ?b)"
    using assms by (simp add: buy_weight_def trader_new_def Let_def)
  obtain rs final kept where "refunds cfg ?b ws = (rs, final)" "tr_asset final = Some (fungible_asset l kept)"
    "sum_list (map asset_amount rs) + kept = amount" "\<forall>r \<in> set rs. asset_id r = l"
    using refunds_keep [of ?b l amount cfg ws] by auto
  with buy show ?thesis
    by (intro exI [of _ ?b] exI [of _ rs] exI [of _ final] exI [of _ kept])
      (simp add: trader_drop_def buy_weight_def)
qed

lemma trader_conserves_witness:
  "\<exists>bought rs final kept.
      buy_weight sample_trader sample_registry (weight_of 10) (1, 100) trader_new = (Inr (1, 80), bought)
    \<and> refunds sample_trader bought [(sample_registry, weight_of 8)] = (rs, final)
    \<and> sum_list (map asset_amount rs) + kept = 20
    \<and> trader_world (trader_drop sample_trader final sample_registry) = [(1, kept)]"
proof -
  have "compute_amount_to_charge sample_trader sample_registry (weight_of 10) 1 = Inr 20"
    by (simp add: compute_amount_to_charge_def get_asset_relative_price_def prefix_get_def
        sample_registry_def weight_of_def RELATIVE_PRICE_DECIMALS_def u128_max_def)
  from trader_conserves [OF _ this, of "(1, 100)" 100 "(1, 80)" "[(sample_registry, weight_of 8)]"
      sample_registry "weight_of 0" "(1, 0)"]
  show ?thesis by (fastforce simp: fungible_asset_def sample_trader_def sample_registry_def)
qed

text \<open>\<open>refund_weight\<close> charges for its argument and returns the rest. The executor passes it the
  weight to give back, not the weight used: with a fee of \<open>k\<close> per unit, giving back \<open>m\<close> of \<open>n\<close>
  bought units returns the price of the \<open>n - m\<close> units that were used, and giving back all
  of them returns nothing.\<close>

theorem refund_returns_used_part:
  assumes "NativeLocation cfg = l" and "\<forall>w. weight_to_fee cfg w = k * ref_time w"
    and "\<forall>x \<le> u128_max. balance_to_u128 cfg x = Some x" and "k * n \<le> u128_max" and "m \<le> n"
  shows "refund_weight cfg s (weight_of m) \<lparr>tr_weight = weight_of n, tr_asset = Some (fungible_asset l (k * n))\<rparr> =
    (if m = n then (None, \<lparr>tr_weight = weight_of n, tr_asset = Some (fungible_asset l (k * n))\<rparr>)
     else (Some (fungible_asset l (k * (n - m))),
           \<lparr>tr_weight = weight_of (n - m), tr_asset = Some (fungible_asset l (k * m))\<rparr>))"
proof -
  have le: "k * m \<le> k * n" using assms(5) by simp
  moreover have "weight_min (weight_of m) (weight_of n) = weight_of m"
    "weight_sub (weight_of n) (weight_of m) = weight_of (n - m)"
    using assms(5) by (simp_all add: weight_min_def weight_sub_def weight_of_def)
  moreover have "weight_of m = weight_of n \<longleftrightarrow> m = n" by (simp add: weight_of_def)
  moreover have "compute_amount_to_charge cfg s (weight_of m) l = Inr (k * m)"
    using assms le_trans [OF le assms(4)]
    by (simp add: compute_amount_to_charge_def weight_of_def)
  ultimately show ?thesis
    by (auto simp: refund_weight_def Let_def min_def diff_mult_distrib2)
qed

lemma refund_returns_used_part_witness:
  "refund_weight sample_trader sample_registry (weight_of 1)
     \<lparr>tr_weight = weight_of 10, tr_asset = Some (fungible_asset 0 10)\<rparr> =
   (Some (fungible_asset 0 9), \<lparr>tr_weight = weight_of 9, tr_asset = Some (fungible_asset 0 1)\<rparr>)"
  using refund_returns_used_part [of sample_trader 0 1 10 1 sample_registry]
  by (simp add: u128_max_def)

section \<open>The registry\<close>

datatype 'l trader_call =
    AddAsset 'l nat
  | EditAsset 'l nat
  | PauseAsset 'l
  | ResumeAsset 'l
  | RemoveAsset 'l

fun trader_dispatch ::
  "('l, 'w, 'h, 'v) trader_config \<Rightarrow> origin \<Rightarrow> 'l trader_call \<Rightarrow> ('l, 'w, unit) trader_m" where
  "trader_dispatch cfg o' (AddAsset l p) = transactional (add_asset cfg o' l p)"
| "trader_dispatch cfg o' (EditAsset l p) = transactional (edit_asset cfg o' l p)"
| "trader_dispatch cfg o' (PauseAsset l) = transactional (pause_asset_support cfg o' l)"
| "trader_dispatch cfg o' (ResumeAsset l) = transactional (resume_asset_support cfg o' l)"
| "trader_dispatch cfg o' (RemoveAsset l) = transactional (remove_asset cfg o' l)"

text \<open>
  The abstract registry: a finite map from locations to prices with the set of paused ones. An
  event log determines it.
\<close>

fun replay :: "'l trader_event list \<Rightarrow> 'l \<Rightarrow> (bool \<times> nat) option" where
  "replay [] l = None"
| "replay (SupportedAssetAdded l' p # es) l = (if l = l' then Some (True, p) else replay es l)"
| "replay (SupportedAssetEdited l' p # es) l =
     (if l = l' then map_option (\<lambda>(b, _). (b, p)) (replay es l) else replay es l)"
| "replay (PauseAssetSupport l' # es) l =
     (if l = l' then map_option (\<lambda>(_, p). (False, p)) (replay es l) else replay es l)"
| "replay (ResumeAssetSupport l' # es) l =
     (if l = l' then map_option (\<lambda>(_, p). (True, p)) (replay es l) else replay es l)"
| "replay (SupportedAssetRemoved l' # es) l = (if l = l' then None else replay es l)"

definition registry_ok :: "('l, 'w, 'h, 'v) trader_config \<Rightarrow> ('l, 'w) trader_state \<Rightarrow> bool" where
  "registry_ok cfg s \<longleftrightarrow> prefix_ordered (location_order cfg) (SupportedAssets s)
     \<and> (\<forall>(l, _, price) \<in> set (SupportedAssets s). AssetLocationFilter cfg l \<and> price \<noteq> 0)
     \<and> map_of (SupportedAssets s) = replay (rev (trader_events s))"

lemma registry_ok_set:
  assumes "registry_ok cfg s" and "inj (location_order cfg)" and "AssetLocationFilter cfg l" and "p \<noteq> 0"
    and "replay (e # rev (trader_events s)) = (replay (rev (trader_events s)))(l \<mapsto> (b, p))"
  shows "registry_ok cfg (s\<lparr>SupportedAssets := prefix_insert (location_order cfg) l (b, p) (SupportedAssets s),
    trader_events := trader_events s @ [e]\<rparr>)"
proof -
  have "set (prefix_insert (location_order cfg) l (b, p) (SupportedAssets s))
      \<subseteq> insert (l, b, p) (set (SupportedAssets s))"
    by (rule set_prefix_insert_subset)
  then show ?thesis using assms
    by (auto simp: registry_ok_def prefix_ordered_insert map_of_prefix_insert)
qed

lemma registry_ok_removed:
  "registry_ok cfg s \<Longrightarrow> registry_ok cfg (s\<lparr>SupportedAssets := prefix_remove l (SupportedAssets s),
    trader_events := trader_events s @ [SupportedAssetRemoved l]\<rparr>)"
  by (auto simp: registry_ok_def prefix_ordered_remove map_of_prefix_remove fun_eq_iff)
    (auto simp: prefix_remove_def)

lemma registry_ok_at:
  assumes "registry_ok cfg s" and "map_of (SupportedAssets s) l = Some (b, p)"
  shows "AssetLocationFilter cfg l \<and> p \<noteq> 0 \<and> replay (rev (trader_events s)) l = Some (b, p)"
  using assms map_of_SomeD [OF assms(2)] by (auto simp: registry_ok_def)

lemma registry_add:
  assumes "registry_ok cfg s" and "inj (location_order cfg)"
  shows "wp (do_add_asset cfg l p) (\<lambda>_. registry_ok cfg) (\<lambda>_. registry_ok cfg) s"
  using assms by (auto simp: do_add_asset_def wp_simps fun_eq_iff intro!: registry_ok_set)

lemma registry_call:
  assumes "registry_ok cfg s" and "inj (location_order cfg)"
  shows "wp (trader_dispatch cfg o' c) (\<lambda>_. registry_ok cfg) (\<lambda>_ t. t = s) s"
proof -
  have at: "AssetLocationFilter cfg l" "p \<noteq> 0" "replay (rev (trader_events s)) l = Some (b, p)"
    if "map_of (SupportedAssets s) l = Some (b, p)" for l b p
    using registry_ok_at [OF assms(1) that] by auto
  show ?thesis
  proof (cases c)
    case (AddAsset l p)
    then show ?thesis using registry_add [OF assms, of l p]
      by (auto simp: add_asset_def wp_simps elim!: wp_mono)
  qed (use assms in \<open>auto simp: edit_asset_def pause_asset_support_def resume_asset_support_def
      remove_asset_def wp_simps fun_eq_iff at registry_ok_removed split: option.split
      intro!: registry_ok_set dest: at\<close>)
qed

inductive trader_reachable :: "('l, 'w, 'h, 'v) trader_config \<Rightarrow> ('l, 'w) trader_state \<Rightarrow> bool"
  for cfg :: "('l, 'w, 'h, 'v) trader_config" where
  trader_start: "trader_genesis cfg assets \<lparr>SupportedAssets = [], trader_events = [], trader_world = w\<rparr> = (Ok (), s)
    \<Longrightarrow> trader_reachable cfg s"
| trader_step: "trader_reachable cfg s \<Longrightarrow> trader_dispatch cfg o' c s = (r, t) \<Longrightarrow> trader_reachable cfg t"

lemma registry_genesis:
  assumes "registry_ok cfg s" and "inj (location_order cfg)" and "trader_genesis cfg assets s = (Ok (), t)"
  shows "registry_ok cfg t"
  using assms
proof (induction assets arbitrary: s)
  case Nil
  then show ?case by (simp add: trader_genesis_def prog_defs)
next
  case (Cons a assets)
  obtain r u where run: "do_add_asset cfg (info_location a) (info_relative_price a) s = (r, u)"
    by (cases "do_add_asset cfg (info_location a) (info_relative_price a) s")
  then have "registry_ok cfg u"
    using registry_add [OF Cons.prems(1,2), of "info_location a" "info_relative_price a"]
    by (cases r) (auto simp: wp_def)
  with Cons run show ?case
    by (cases r) (auto simp: trader_genesis_def then_m_def bind_m_def expect_ok_m_def)
qed

lemma reachable_registry:
  assumes "trader_reachable cfg s" and "inj (location_order cfg)"
  shows "registry_ok cfg s"
  using assms
proof (induction rule: trader_reachable.induct)
  case (trader_start assets w s)
  have "registry_ok cfg \<lparr>SupportedAssets = [], trader_events = [], trader_world = w\<rparr>"
    by (auto simp: registry_ok_def prefix_ordered_def fun_eq_iff)
  with trader_start show ?case by (auto intro: registry_genesis)
next
  case (trader_step s o' c r t)
  then have "registry_ok cfg s" by simp
  from registry_call [OF this trader_step.prems, of o' c] trader_step.hyps(2) \<open>registry_ok cfg s\<close>
  show ?case by (cases r) (auto simp: wp_def)
qed

text \<open>From genesis on the registry is what its events say: an asset is listed with the price of
  its last addition or edit, active unless paused since; every listed location passes the filter
  and no price is zero, so that a charge is never waived, and the payment assets offered in the
  current version are the native one and the active ones.\<close>

theorem registry_follows_events:
  assumes "trader_reachable cfg s" and "inj (location_order cfg)"
  shows "map_of (SupportedAssets s) = replay (rev (trader_events s))
    \<and> (\<forall>l p. get_asset_relative_price s l = Some p \<longleftrightarrow> replay (rev (trader_events s)) l = Some (True, p))
    \<and> (\<forall>l b p. replay (rev (trader_events s)) l = Some (b, p) \<longrightarrow> AssetLocationFilter cfg l \<and> p \<noteq> 0)
    \<and> (\<exists>vs. query_acceptable_payment_assets cfg s 5 = Inr vs
         \<and> set vs = insert (versioned_v5 cfg (NativeLocation cfg))
             (versioned_v5 cfg ` {l. \<exists>p. replay (rev (trader_events s)) l = Some (True, p)}))"
proof -
  note ok = reachable_registry [OF assms]
  then have m: "map_of (SupportedAssets s) = replay (rev (trader_events s))"
    and d: "distinct (map fst (SupportedAssets s))"
    by (auto simp: registry_ok_def dest: prefix_ordered_distinct)
  let ?R = "replay (rev (trader_events s))"
  let ?f = "\<lambda>(l, enabled, _ :: nat). if enabled then Some (versioned_v5 cfg l) else None"
  have mem: "(l, x) \<in> set (SupportedAssets s) \<longleftrightarrow> ?R l = Some x" for l x
    using d by (simp add: map_of_eq_Some_iff flip: m)
  have "set (List.map_filter ?f (SupportedAssets s)) =
      {v. \<exists>l b p. (l, b, p) \<in> set (SupportedAssets s) \<and> b \<and> v = versioned_v5 cfg l}"
    unfolding List.map_filter_def by (force split: if_splits)
  also have "\<dots> = versioned_v5 cfg ` {l. \<exists>p. ?R l = Some (True, p)}" by (auto simp: mem)
  finally have listed: "query_acceptable_payment_assets cfg s 5 =
      Inr (versioned_v5 cfg (NativeLocation cfg) # List.map_filter ?f (SupportedAssets s))"
    "set (versioned_v5 cfg (NativeLocation cfg) # List.map_filter ?f (SupportedAssets s)) =
      insert (versioned_v5 cfg (NativeLocation cfg)) (versioned_v5 cfg ` {l. \<exists>p. ?R l = Some (True, p)})"
    by (simp_all add: query_acceptable_payment_assets_def)
  have valid: "\<forall>l b p. ?R l = Some (b, p) \<longrightarrow> AssetLocationFilter cfg l \<and> p \<noteq> 0"
    using registry_ok_at [OF ok] by (simp add: m)
  have "\<forall>l p. get_asset_relative_price s l = Some p \<longleftrightarrow> ?R l = Some (True, p)"
    by (auto simp: get_asset_relative_price_def prefix_get_def m split: option.split)
  with m valid listed show ?thesis by blast
qed

lemma registry_follows_events_witness:
  "get_asset_relative_price (snd (trader_dispatch sample_trader Root (AddAsset 3 9)
     \<lparr>SupportedAssets = [], trader_events = [], trader_world = []\<rparr>)) 3 = Some 9"
proof -
  let ?s = "\<lparr>SupportedAssets = [], trader_events = [], trader_world = []\<rparr> :: (nat, (nat \<times> nat) list) trader_state"
  have "trader_reachable sample_trader ?s"
    by (rule trader_start [of _ "[]" "[]"]) (simp add: trader_genesis_def prog_defs)
  moreover have run: "trader_dispatch sample_trader Root (AddAsset 3 9) ?s =
      (Ok (), ?s\<lparr>SupportedAssets := [(3, True, 9)], trader_events := [SupportedAssetAdded 3 9]\<rparr>)"
    by (simp add: add_asset_def do_add_asset_def prog_defs origin_p_def ensure_p_def get_supported_def
        prefix_get_def put_supported_def deposit_trader_event_def)
  ultimately have "trader_reachable sample_trader
      (?s\<lparr>SupportedAssets := [(3, True, 9)], trader_events := [SupportedAssetAdded 3 9]\<rparr>)"
    by (rule trader_step)
  moreover have "inj (location_order sample_trader)" by (simp add: inj_def)
  ultimately show ?thesis using registry_follows_events
    by (fastforce simp: run simp del: trader_dispatch.simps)
qed

end
