(* ===== verification/Staking_State.thy ===== *)
theory Staking_State
  imports Delegating Lifecycle Leaving Frames
begin

text \<open>
  The whole storage of the staking pallet: every candidate's lists, metadata and pool entry agree,
  every delegator's record agrees with the books of its candidates, every pending request can be
  executed, and no more is counted as staked than is. Changing one candidate with its delegators
  keeps this when it holds of them afterwards.
\<close>

section \<open>Books and stakes\<close>

definition book_of :: "'w staking \<Rightarrow> AccountId \<Rightarrow> Bond multiset" where
  "book_of s c =
     (case TopDelegations s c of None \<Rightarrow> {#} | Some t \<Rightarrow> mset (ds_delegations t))
     + (case BottomDelegations s c of None \<Rightarrow> {#} | Some b \<Rightarrow> mset (ds_delegations b))"

text \<open>What the stored total of the bottom delegations is too high by.\<close>

definition excess_of :: "'w staking \<Rightarrow> AccountId \<Rightarrow> Balance" where
  "excess_of s c = (case BottomDelegations s c of None \<Rightarrow> 0
     | Some b \<Rightarrow> ds_total b - amounts (ds_delegations b))"

definition bonds_of :: "'w staking \<Rightarrow> AccountId \<Rightarrow> Bond set" where
  "bonds_of s d = (case DelegatorState s d of None \<Rightarrow> {} | Some st \<Rightarrow> set (d_delegations st))"

definition stake_at :: "'w staking \<Rightarrow> AccountId \<Rightarrow> Balance" where
  "stake_at s c = (case CandidateInfo s c of None \<Rightarrow> 0
     | Some m \<Rightarrow> cm_bond m + sum_mset (image_mset b_amount (book_of s c)))"

definition staked :: "'w staking \<Rightarrow> Balance" where
  "staked s = sum (stake_at s) (dom (CandidateInfo s))"

definition excesses :: "'w staking \<Rightarrow> Balance" where
  "excesses s = sum (excess_of s) (dom (CandidateInfo s))"

lemma bond_eta [simp]: "bond (b_owner k) (b_amount k) = k"
  by simp

section \<open>The invariant\<close>

definition request_fits :: "'w config \<Rightarrow> Bond multiset \<Rightarrow> ScheduledRequest \<Rightarrow> bool" where
  "request_fits cfg M req \<longleftrightarrow>
     (case sr_action req of
        Revoke a \<Rightarrow> bond (sr_delegator req) a \<in># M
      | Decrease x \<Rightarrow> \<exists>a. bond (sr_delegator req) a \<in># M \<and> x < a \<and> MinDelegation cfg \<le> a - x)"

definition pool_entry :: "CandidateMetadata option \<Rightarrow> Balance option" where
  "pool_entry info = (case info of None \<Rightarrow> None
     | Some m \<Rightarrow> if is_active m then Some (cm_total_counted m) else None)"

definition candidate_part :: "'w config \<Rightarrow> 'w staking \<Rightarrow> AccountId \<Rightarrow> bool" where
  "candidate_part cfg s c \<longleftrightarrow>
     pool_lookup (CandidatePool s) c = pool_entry (CandidateInfo s c)
     \<and> (case CandidateInfo s c of
          None \<Rightarrow> TopDelegations s c = None \<and> BottomDelegations s c = None
            \<and> DelegationScheduledRequests s c = [] \<and> AutoCompoundingDelegations s c = []
        | Some m \<Rightarrow> stands cfg c (excess_of s c) (book_of s c) m s
            \<and> (\<forall>req. cm_request m = Some req \<longrightarrow> br_amount req \<le> cm_bond m)
            \<and> requests_ok (DelegationScheduledRequests s c)
            \<and> (\<forall>req \<in> set (DelegationScheduledRequests s c). request_fits cfg (book_of s c) req)
            \<and> key_sorted ac_delegator (AutoCompoundingDelegations s c)
            \<and> ac_delegator ` set (AutoCompoundingDelegations s c) \<subseteq> b_owner ` set_mset (book_of s c))"

definition delegator_part :: "'w config \<Rightarrow> 'w staking \<Rightarrow> AccountId \<Rightarrow> bool" where
  "delegator_part cfg s d \<longleftrightarrow>
     (case DelegatorState s d of
        None \<Rightarrow> True
      | Some st \<Rightarrow> d_id st = d \<and> delegator_ok st \<and> d_delegations st \<noteq> []
          \<and> length (d_delegations st) \<le> MaxDelegationsPerDelegator cfg
          \<and> (\<forall>b \<in> set (d_delegations st). 0 < b_amount b \<and> MinDelegation cfg \<le> b_amount b)
          \<and> CandidateInfo s d = None)"

definition staking_ok :: "'w config \<Rightarrow> 'w staking \<Rightarrow> bool" where
  "staking_ok cfg s \<longleftrightarrow>
     finite (dom (CandidateInfo s)) \<and> pool_ok cfg (CandidatePool s)
     \<and> (\<forall>c. candidate_part cfg s c) \<and> (\<forall>d. delegator_part cfg s d)
     \<and> (\<forall>c d a. bond c a \<in> bonds_of s d \<longleftrightarrow> bond d a \<in># book_of s c)
     \<and> Total s \<le> staked s"

lemma staking_okD:
  assumes "staking_ok cfg s"
  shows "finite (dom (CandidateInfo s))" "pool_ok cfg (CandidatePool s)"
    "candidate_part cfg s c" "delegator_part cfg s d"
    "bond c a \<in> bonds_of s d \<longleftrightarrow> bond d a \<in># book_of s c" "Total s \<le> staked s"
  using assms by (auto simp: staking_ok_def)

section \<open>What the invariant reads\<close>

definition staking_view where
  "staking_view s = (CandidateInfo s, DelegatorState s, TopDelegations s, BottomDelegations s,
     DelegationScheduledRequests s, AutoCompoundingDelegations s, CandidatePool s, Total s)"

lemma staking_viewD:
  assumes "staking_view s' = staking_view s"
  shows "CandidateInfo s' = CandidateInfo s" "DelegatorState s' = DelegatorState s"
    "TopDelegations s' = TopDelegations s" "BottomDelegations s' = BottomDelegations s"
    "DelegationScheduledRequests s' = DelegationScheduledRequests s"
    "AutoCompoundingDelegations s' = AutoCompoundingDelegations s"
    "CandidatePool s' = CandidatePool s" "Total s' = Total s"
  using assms by (auto simp: staking_view_def)

lemma view_cong:
  assumes "staking_view s' = staking_view s"
  shows "book_of s' = book_of s" "excess_of s' = excess_of s" "bonds_of s' = bonds_of s"
    "stake_at s' = stake_at s" "staked s' = staked s" "excesses s' = excesses s"
    "staking_ok cfg s' = staking_ok cfg s"
proof -
  note v = staking_viewD [OF assms]
  show b: "book_of s' = book_of s" and e: "excess_of s' = excess_of s" and d: "bonds_of s' = bonds_of s"
    by (auto simp: fun_eq_iff book_of_def excess_of_def bonds_of_def v)
  show st: "stake_at s' = stake_at s" by (auto simp: fun_eq_iff stake_at_def v b cong: option.case_cong)
  then show "staked s' = staked s" "excesses s' = excesses s"
    by (simp_all add: staked_def excesses_def v e)
  moreover have "candidate_part cfg s' c = candidate_part cfg s c" for c
    by (simp add: candidate_part_def v b e stands_def cong: option.case_cong)
  moreover have "delegator_part cfg s' c = delegator_part cfg s c" for c
    by (simp add: delegator_part_def v cong: option.case_cong)
  ultimately show "staking_ok cfg s' = staking_ok cfg s"
    by (simp add: staking_ok_def v b d)
qed

lemma staking_ok_fields [simp]:
  "staking_ok cfg (s\<lparr>Events := evs\<rparr>) = staking_ok cfg s"
  "staking_ok cfg (s\<lparr>world := w\<rparr>) = staking_ok cfg s"
  by (intro view_cong; simp add: staking_view_def)+

section \<open>A candidate that stands\<close>

lemma stands_book:
  assumes "stands cfg c e M m s"
  shows "book_of s c = M" and "excess_of s c = e"
  using assms by (auto simp: stands_def candidate_ok_def book_of_def excess_of_def)

lemma candidate_partI:
  assumes "CandidateInfo s c = Some m" and "stands cfg c e M m s"
    and "is_active m \<or> c \<notin> owners (CandidatePool s)"
    and "\<And>req. cm_request m = Some req \<Longrightarrow> br_amount req \<le> cm_bond m"
    and "requests_ok (DelegationScheduledRequests s c)"
    and "\<And>req. req \<in> set (DelegationScheduledRequests s c) \<Longrightarrow> request_fits cfg M req"
    and "key_sorted ac_delegator (AutoCompoundingDelegations s c)"
    and "ac_delegator ` set (AutoCompoundingDelegations s c) \<subseteq> b_owner ` set_mset M"
  shows "candidate_part cfg s c"
proof -
  note sb = stands_book [OF assms(2)]
  have "pool_at cfg c m (CandidatePool s)" using assms(2) by (auto simp: stands_def)
  then have "pool_lookup (CandidatePool s) c = pool_entry (CandidateInfo s c)"
    using assms(1,3) pool_lookup_present [of "CandidatePool s" c]
    by (cases "pool_lookup (CandidatePool s) c") (auto simp: pool_at_def pool_entry_def)
  with assms sb show ?thesis by (simp add: candidate_part_def)
qed

lemma candidate_partD:
  assumes "staking_ok cfg s" and "CandidateInfo s c = Some m"
  shows "stands cfg c (excess_of s c) (book_of s c) m s"
    "pool_lookup (CandidatePool s) c = (if is_active m then Some (cm_total_counted m) else None)"
    "\<And>req. cm_request m = Some req \<Longrightarrow> br_amount req \<le> cm_bond m"
    "requests_ok (DelegationScheduledRequests s c)"
    "\<And>req. req \<in> set (DelegationScheduledRequests s c) \<Longrightarrow> request_fits cfg (book_of s c) req"
    "key_sorted ac_delegator (AutoCompoundingDelegations s c)"
    "ac_delegator ` set (AutoCompoundingDelegations s c) \<subseteq> b_owner ` set_mset (book_of s c)"
  using staking_okD(3) [OF assms(1), of c] assms(2)
  by (auto simp: candidate_part_def pool_entry_def)

lemma no_candidateD:
  assumes "staking_ok cfg s" and "CandidateInfo s c = None"
  shows "TopDelegations s c = None" "BottomDelegations s c = None" "book_of s c = {#}"
    "DelegationScheduledRequests s c = []" "AutoCompoundingDelegations s c = []"
    "pool_lookup (CandidatePool s) c = None"
  using staking_okD(3) [OF assms(1), of c] assms(2)
  by (auto simp: candidate_part_def pool_entry_def book_of_def)

lemma delegator_partD:
  assumes "staking_ok cfg s" and "DelegatorState s d = Some st"
  shows "d_id st = d" "delegator_ok st" "d_delegations st \<noteq> []"
    "length (d_delegations st) \<le> MaxDelegationsPerDelegator cfg"
    "\<And>b. b \<in> set (d_delegations st) \<Longrightarrow> 0 < b_amount b" "CandidateInfo s d = None"
    "bonds_of s d = set (d_delegations st)"
    "\<And>b. b \<in> set (d_delegations st) \<Longrightarrow> MinDelegation cfg \<le> b_amount b"
  using staking_okD(4) [OF assms(1), of d] assms(2)
  by (auto simp: delegator_part_def bonds_of_def)

section \<open>Changing one candidate\<close>

definition same_elsewhere :: "AccountId \<Rightarrow> 'w staking \<Rightarrow> 'w staking \<Rightarrow> bool" where
  "same_elsewhere c s s' \<longleftrightarrow>
     (\<forall>k. k \<noteq> c \<longrightarrow> CandidateInfo s' k = CandidateInfo s k
        \<and> TopDelegations s' k = TopDelegations s k \<and> BottomDelegations s' k = BottomDelegations s k
        \<and> DelegationScheduledRequests s' k = DelegationScheduledRequests s k
        \<and> AutoCompoundingDelegations s' k = AutoCompoundingDelegations s k
        \<and> pool_lookup (CandidatePool s') k = pool_lookup (CandidatePool s) k)"

lemma elsewhere:
  assumes "same_elsewhere c s s'" and "k \<noteq> c"
  shows "book_of s' k = book_of s k" "excess_of s' k = excess_of s k" "stake_at s' k = stake_at s k"
  using assms by (simp_all add: same_elsewhere_def book_of_def excess_of_def stake_at_def cong: option.case_cong)

lemma candidate_part_elsewhere:
  assumes "same_elsewhere c s s'" and "k \<noteq> c" and "candidate_part cfg s k"
    and "pool_ok cfg (CandidatePool s')"
  shows "candidate_part cfg s' k"
proof -
  have same: "CandidateInfo s' k = CandidateInfo s k" "TopDelegations s' k = TopDelegations s k"
    "BottomDelegations s' k = BottomDelegations s k"
    "DelegationScheduledRequests s' k = DelegationScheduledRequests s k"
    "AutoCompoundingDelegations s' k = AutoCompoundingDelegations s k"
    "pool_lookup (CandidatePool s') k = pool_lookup (CandidatePool s) k"
    using assms(1,2) by (auto simp: same_elsewhere_def)
  have "stands cfg k e M m s' = stands cfg k e M m s"
    if "pool_lookup (CandidatePool s) k = pool_entry (Some m)"
      "pool_ok cfg (CandidatePool s)" for e M m
    using that assms(4) by (auto simp: stands_def pool_at_def same pool_entry_def)
  moreover have "pool_ok cfg (CandidatePool s)" if "CandidateInfo s k = Some m" for m
    using assms(3) that by (auto simp: candidate_part_def stands_def pool_at_def)
  ultimately show ?thesis
    using assms(3) unfolding candidate_part_def same elsewhere [OF assms(1,2)]
    by (auto split: option.splits)
qed

lemma sum_elsewhere:
  assumes "same_elsewhere c s s'" and "finite (dom (CandidateInfo s))"
    and "\<And>k. k \<noteq> c \<Longrightarrow> f' k = f k" and "CandidateInfo s c = None \<Longrightarrow> f c = 0"
    and "CandidateInfo s' c = None \<Longrightarrow> f' c = (0 :: nat)"
  shows "finite (dom (CandidateInfo s'))"
    "sum f (dom (CandidateInfo s)) = sum f (dom (CandidateInfo s) - {c}) + f c"
    "sum f' (dom (CandidateInfo s')) = sum f (dom (CandidateInfo s) - {c}) + f' c"
proof -
  have dom: "dom (CandidateInfo s') - {c} = dom (CandidateInfo s) - {c}"
    using assms(1) by (auto simp: same_elsewhere_def)
  show fin: "finite (dom (CandidateInfo s'))" using assms(2) dom by (metis finite_insert finite.emptyI finite_Diff2)
  have split: "sum g A = sum g (A - {c}) + g c" if "finite A" "c \<notin> A \<Longrightarrow> g c = 0" for g :: "AccountId \<Rightarrow> nat" and A
    using that by (cases "c \<in> A") (simp_all add: sum.remove add.commute)
  show "sum f (dom (CandidateInfo s)) = sum f (dom (CandidateInfo s) - {c}) + f c"
    using assms(2,4) by (intro split) (auto simp: domIff)
  have "sum f' (dom (CandidateInfo s')) = sum f' (dom (CandidateInfo s') - {c}) + f' c"
    using fin assms(5) by (intro split) (auto simp: domIff)
  also have "sum f' (dom (CandidateInfo s') - {c}) = sum f (dom (CandidateInfo s) - {c})"
    unfolding dom using assms(3) by (intro sum.cong) auto
  finally show "sum f' (dom (CandidateInfo s')) = sum f (dom (CandidateInfo s) - {c}) + f' c" .
qed

lemma staked_elsewhere:
  assumes "same_elsewhere c s s'" and "finite (dom (CandidateInfo s))"
  obtains T where "staked s = T + stake_at s c" and "staked s' = T + stake_at s' c"
proof
  note sums = sum_elsewhere [OF assms, of "stake_at s'" "stake_at s"]
  show "staked s = sum (stake_at s) (dom (CandidateInfo s) - {c}) + stake_at s c"
    unfolding staked_def by (rule sums) (use elsewhere [OF assms(1)] in \<open>auto simp: stake_at_def\<close>)
  show "staked s' = sum (stake_at s) (dom (CandidateInfo s) - {c}) + stake_at s' c"
    unfolding staked_def by (rule sums) (use elsewhere [OF assms(1)] in \<open>auto simp: stake_at_def\<close>)
qed

lemma excesses_elsewhere:
  assumes "same_elsewhere c s s'" and "staking_ok cfg s" and "staking_ok cfg s'"
  obtains T where "excesses s = T + excess_of s c" and "excesses s' = T + excess_of s' c"
proof
  have none: "excess_of t c = 0" if "staking_ok cfg t" "CandidateInfo t c = None" for t :: "'a staking"
    using no_candidateD(2) [OF that] by (simp add: excess_of_def)
  note sums = sum_elsewhere [OF assms(1) staking_okD(1) [OF assms(2)], of "excess_of s'" "excess_of s"]
  show "excesses s = sum (excess_of s) (dom (CandidateInfo s) - {c}) + excess_of s c"
    unfolding excesses_def by (rule sums) (use elsewhere [OF assms(1)] none assms(2,3) in auto)
  show "excesses s' = sum (excess_of s) (dom (CandidateInfo s) - {c}) + excess_of s' c"
    unfolding excesses_def by (rule sums) (use elsewhere [OF assms(1)] none assms(2,3) in auto)
qed

theorem staking_step:
  assumes ok: "staking_ok cfg s" and same: "same_elsewhere c s s'"
    and pool: "pool_ok cfg (CandidatePool s')" and part: "candidate_part cfg s' c"
    and others: "\<And>d. d \<notin> D \<Longrightarrow> DelegatorState s' d = DelegatorState s d"
    and theirs: "\<And>d a. d \<notin> D \<Longrightarrow> bond d a \<in># book_of s' c \<longleftrightarrow> bond d a \<in># book_of s c"
    and parts: "\<And>d. d \<in> D \<Longrightarrow> delegator_part cfg s' d"
    and keep: "\<And>d b. d \<in> D \<Longrightarrow> b_owner b \<noteq> c \<Longrightarrow> b \<in> bonds_of s' d \<longleftrightarrow> b \<in> bonds_of s d"
    and link: "\<And>d a. d \<in> D \<Longrightarrow> bond c a \<in> bonds_of s' d \<longleftrightarrow> bond d a \<in># book_of s' c"
    and new: "CandidateInfo s c = None \<Longrightarrow> CandidateInfo s' c \<noteq> None \<Longrightarrow> DelegatorState s' c = None"
    and total: "\<And>T. Total s \<le> T + stake_at s c \<Longrightarrow> Total s' \<le> T + stake_at s' c"
  shows "staking_ok cfg s'"
proof -
  note o = staking_okD [OF ok]
  have "candidate_part cfg s' k" for k
    using part candidate_part_elsewhere [OF same _ o(3) pool] by (cases "k = c") auto
  moreover have "delegator_part cfg s' d" for d
  proof (cases "d \<in> D")
    case False
    show ?thesis
    proof (cases "d = c")
      case True
      show ?thesis
        using o(4) [of c] new others [OF False] True
        by (cases "CandidateInfo s' c") (auto simp: delegator_part_def split: option.splits)
    next
      case ne: False
      then have "CandidateInfo s' d = CandidateInfo s d" using same by (simp add: same_elsewhere_def)
      with o(4) [of d] others [OF False] show ?thesis
        by (simp add: delegator_part_def cong: option.case_cong)
    qed
  qed (rule parts)
  moreover have "bond k a \<in> bonds_of s' d \<longleftrightarrow> bond d a \<in># book_of s' k" for k d a
  proof (cases "d \<in> D")
    case True
    show ?thesis
    proof (cases "k = c")
      case False
      then show ?thesis using keep [OF True, of "bond k a"] o(5) elsewhere(1) [OF same False] by simp
    qed (use link True in simp)
  next
    case False
    have "bonds_of s' d = bonds_of s d" using others [OF False] by (simp add: bonds_of_def)
    then show ?thesis
      using o(5) theirs [OF False] elsewhere(1) [OF same] by (cases "k = c") auto
  qed
  moreover obtain T where T: "staked s = T + stake_at s c" "staked s' = T + stake_at s' c"
    using staked_elsewhere [OF same o(1)] .
  have "Total s' \<le> staked s'" using total [of T] o(6) T by simp
  moreover have "finite (dom (CandidateInfo s'))"
    using o(1) same by (rule_tac finite_subset [of _ "insert c (dom (CandidateInfo s))"])
      (auto simp: same_elsewhere_def)
  ultimately show ?thesis using pool by (simp add: staking_ok_def)
qed

end
