(* ===== verification/Candidate_Steps.thy ===== *)
theory Candidate_Steps
  imports Staking_State
begin

text \<open>
  The calls of a candidate keep the invariant: joining, going offline and online, changing the self
  bond, and leaving.
\<close>

definition safe_at :: "'w config \<Rightarrow> ('w, 'a) staking_m \<Rightarrow> 'w staking \<Rightarrow> bool" where
  "safe_at cfg m s \<longleftrightarrow> wp m (\<lambda>_. staking_ok cfg) (\<lambda>_ _. True) s"

section \<open>The metadata of a candidate\<close>

lemma candidate_ok_cong:
  assumes "candidate_ok cfg e m t b" and "cm_bond m' = cm_bond m"
    and "cm_total_counted m' = cm_total_counted m" and "cm_delegation_count m' = cm_delegation_count m"
    and "cm_lowest_top_delegation_amount m' = cm_lowest_top_delegation_amount m"
    and "cm_top_capacity m' = cm_top_capacity m"
    and "cm_lowest_bottom_delegation_amount m' = cm_lowest_bottom_delegation_amount m"
    and "cm_highest_bottom_delegation_amount m' = cm_highest_bottom_delegation_amount m"
    and "cm_bottom_capacity m' = cm_bottom_capacity m"
  shows "candidate_ok cfg e m' t b"
  using assms by (simp add: candidate_ok_def)

lemma meta_step:
  assumes ok: "staking_ok cfg s" and info: "CandidateInfo s c = Some m"
    and same: "CandidateInfo s' = (CandidateInfo s)(c \<mapsto> m')" "DelegatorState s' = DelegatorState s"
      "TopDelegations s' = TopDelegations s" "BottomDelegations s' = BottomDelegations s"
      "DelegationScheduledRequests s' = DelegationScheduledRequests s"
      "AutoCompoundingDelegations s' = AutoCompoundingDelegations s"
    and pool: "pool_ok cfg (CandidatePool s')"
      "pool_lookup (CandidatePool s') = (pool_lookup (CandidatePool s))(c := pool_entry (Some m'))"
    and stands: "stands cfg c (excess_of s c) (book_of s c) m' s'"
    and req: "\<And>req. cm_request m' = Some req \<Longrightarrow> br_amount req \<le> cm_bond m'"
    and total: "\<And>T. Total s \<le> T + cm_bond m \<Longrightarrow> Total s' \<le> T + cm_bond m'"
  shows "staking_ok cfg s'"
proof -
  note p = candidate_partD [OF ok info]
  have book: "book_of s' = book_of s" "bonds_of s' = bonds_of s"
    by (auto simp: fun_eq_iff book_of_def bonds_of_def same)
  have "c \<notin> owners (CandidatePool s')" if "\<not> is_active m'"
    using pool(2) that pool_lookup_present [of "CandidatePool s'" c] by (auto simp: pool_entry_def)
  then have "candidate_part cfg s' c"
    by (intro candidate_partI [OF _ stands]) (use p(4-7) req in \<open>auto simp: same\<close>)
  moreover have "same_elsewhere c s s'" by (simp add: same_elsewhere_def same pool(2))
  moreover have "Total s' \<le> T + stake_at s' c" if "Total s \<le> T + stake_at s c" for T
    using that total [of "T + sum_mset (image_mset b_amount (book_of s c))"]
    by (simp add: stake_at_def same info book)
  ultimately show ?thesis using pool(1)
    by (intro staking_step [OF ok, of c _ "{}"]) (simp_all add: book same info)
qed

lemma stands_meta:
  assumes "stands cfg c e M m s" and "\<And>t b. candidate_ok cfg e m t b \<Longrightarrow> candidate_ok cfg e m' t b"
    and "TopDelegations s' = TopDelegations s" "BottomDelegations s' = BottomDelegations s"
    and "pool_ok cfg (CandidatePool s')" "pool_lookup (CandidatePool s') c = pool_entry (Some m')"
  shows "stands cfg c e M m' s'"
  using assms by (auto simp: stands_def pool_at_def pool_entry_def)

text \<open>A change of status or request, with the entry of the pool to match.\<close>

lemma status_step:
  assumes ok: "staking_ok cfg s" and info: "CandidateInfo s c = Some m"
    and m': "m' = m\<lparr>cm_status := st, cm_request := rq\<rparr>"
    and req: "\<And>req. rq = Some req \<Longrightarrow> br_amount req \<le> cm_bond m"
    and pool: "pool_ok cfg pool" "pool_lookup pool = (pool_lookup (CandidatePool s))(c := pool_entry (Some m'))"
  shows "staking_ok cfg (s\<lparr>CandidatePool := pool, CandidateInfo := (CandidateInfo s)(c \<mapsto> m'), Events := evs\<rparr>)"
proof (rule meta_step [OF ok info])
  show "stands cfg c (excess_of s c) (book_of s c) m'
      (s\<lparr>CandidatePool := pool, CandidateInfo := (CandidateInfo s)(c \<mapsto> m'), Events := evs\<rparr>)"
    by (rule stands_meta [OF candidate_partD(1) [OF ok info]])
      (auto simp: m' pool elim: candidate_ok_cong)
qed (use req in \<open>auto simp: m' pool\<close>)

lemma status_stays:
  assumes "staking_ok cfg s" and "CandidateInfo s c = Some m"
    and "m' = m\<lparr>cm_request := rq\<rparr>" and "\<And>req. rq = Some req \<Longrightarrow> br_amount req \<le> cm_bond m"
  shows "staking_ok cfg (s\<lparr>CandidateInfo := (CandidateInfo s)(c \<mapsto> m')\<rparr>)"
proof -
  have m': "m' = m\<lparr>cm_status := cm_status m, cm_request := rq\<rparr>" using assms(3) by simp
  have "pool_lookup (CandidatePool s) = (pool_lookup (CandidatePool s))(c := pool_entry (Some m'))"
    using candidate_partD(2) [OF assms(1,2)]
    by (auto simp: fun_eq_iff pool_entry_def m' is_active_def split: CollatorStatus.splits)
  from status_step [OF assms(1,2) m' assms(4) staking_okD(2) [OF assms(1)] this, of "Events s"]
  show ?thesis by simp
qed

lemma fresh_owner:
  assumes "staking_ok cfg s" and "pool_entry (CandidateInfo s c) = None"
  shows "c \<notin> owners (CandidatePool s)"
  using staking_okD(3) [OF assms(1), of c] assms(2) pool_lookup_present [of "CandidatePool s" c]
  by (auto simp: candidate_part_def)

lemma safe_go_offline:
  assumes "staking_ok cfg s"
  shows "wp (go_offline_inner c) (\<lambda>_. staking_ok cfg) (\<lambda>_ s'. s' = s) s"
proof (cases "CandidateInfo s c")
  case None
  then show ?thesis by (simp add: go_offline_inner_def wp_simps)
next
  case (Some m)
  note pool = pool_ok_without [OF staking_okD(2) [OF assms], of c]
  have m': "m\<lparr>cm_status := Idle\<rparr> = m\<lparr>cm_status := Idle, cm_request := cm_request m\<rparr>" by simp
  show ?thesis
    unfolding wp_go_offline [OF Some staking_okD(2) [OF assms]]
    using status_step [OF assms Some m' candidate_partD(3) [OF assms Some] pool(1)] pool(2)
    by (auto simp: pool_entry_def is_active_def)
qed

lemma safe_go_online:
  assumes "staking_ok cfg s"
  shows "safe_at cfg (go_online_inner cfg c) s"
proof (cases "CandidateInfo s c")
  case None
  then show ?thesis by (simp add: safe_at_def go_online_inner_def wp_simps)
next
  case (Some m)
  show ?thesis
  proof (cases "cm_status m = Idle")
    case True
    then have out: "c \<notin> owners (CandidatePool s)"
      using Some by (intro fresh_owner [OF assms]) (simp add: pool_entry_def is_active_def)
    note pool = pool_insert_ok [OF staking_okD(2) [OF assms] out]
    have m': "m\<lparr>cm_status := Active\<rparr> = m\<lparr>cm_status := Active, cm_request := cm_request m\<rparr>" by simp
    show ?thesis
      unfolding safe_at_def wp_go_online [OF Some staking_okD(2) [OF assms] True out]
      using status_step [OF assms Some m' candidate_partD(3) [OF assms Some]] pool
      by (auto simp: pool_entry_def is_active_def)
  next
    case False
    then show ?thesis using Some
      by (auto simp: safe_at_def go_online_inner_def wp_simps is_active_def is_leaving_def
          split: CollatorStatus.splits)
  qed
qed

lemma safe_schedule_leave:
  assumes "staking_ok cfg s"
  shows "safe_at cfg (schedule_leave_candidates cfg origin' n) s"
proof -
  note ok = staking_okD(2) [OF assms]
  have "staking_ok cfg (s\<lparr>CandidatePool := without c (CandidatePool s),
      CandidateInfo := (CandidateInfo s)(c \<mapsto> m\<lparr>cm_status := Leaving r\<rparr>), Events := evs\<rparr>)"
    if "CandidateInfo s c = Some m" for c m r evs
    using pool_ok_without [OF ok, of c] candidate_partD(3) [OF assms that]
    by (intro status_step [OF assms that, where st = "Leaving r" and rq = "cm_request m"])
      (auto simp: pool_entry_def is_active_def)
  then show ?thesis
    unfolding safe_at_def schedule_leave_candidates_def schedule_leave_def
    by (cases origin') (auto simp: wp_simps Let_def wp_pool_drop [OF ok] split: option.split)
qed

lemma safe_cancel_leave:
  assumes "staking_ok cfg s"
  shows "safe_at cfg (cancel_leave_candidates cfg origin' n) s"
proof -
  note ok = staking_okD(2) [OF assms]
  have "staking_ok cfg (s\<lparr>CandidatePool := replace_by_key b_owner (bond c (cm_total_counted m)) (CandidatePool s),
      CandidateInfo := (CandidateInfo s)(c \<mapsto> m\<lparr>cm_status := Active\<rparr>), Events := evs\<rparr>)"
    if "CandidateInfo s c = Some m" "c \<notin> owners (CandidatePool s)"
      "length (CandidatePool s) < MaxCandidates cfg" for c m evs
    using pool_insert_ok [OF ok that(2,3)] candidate_partD(3) [OF assms that(1)]
    by (intro status_step [OF assms that(1), where st = Active and rq = "cm_request m"])
      (auto simp: pool_entry_def is_active_def)
  then show ?thesis
    unfolding safe_at_def cancel_leave_candidates_def go_online_def
    by (cases origin') (auto simp: wp_simps Let_def wp_pool_insert [OF ok] split: option.split)
qed

lemma safe_go_offline_call: "staking_ok cfg s \<Longrightarrow> safe_at cfg (go_offline_call origin') s"
  unfolding safe_at_def go_offline_call_def
  by (cases origin') (auto simp: wp_simps intro: wp_mono [OF safe_go_offline])

lemma safe_go_online_call: "staking_ok cfg s \<Longrightarrow> safe_at cfg (go_online_call cfg origin') s"
  using safe_go_online unfolding safe_at_def go_online_call_def
  by (cases origin') (auto simp: wp_simps)

section \<open>The self bond\<close>

lemma safe_schedule_bond_less:
  assumes "staking_ok cfg s"
  shows "safe_at cfg (schedule_candidate_bond_less cfg origin' x) s"
proof -
  have "staking_ok cfg (s\<lparr>CandidateInfo := (CandidateInfo s)(c \<mapsto> m\<lparr>cm_request :=
      Some \<lparr>br_amount = x, br_when_executable = w\<rparr>\<rparr>), Events := evs\<rparr>)"
    if "CandidateInfo s c = Some m" "x < cm_bond m" for c m w evs
    using that(2) status_stays [OF assms that(1) refl, of "Some \<lparr>br_amount = x, br_when_executable = w\<rparr>"]
    by simp
  then show ?thesis
    unfolding safe_at_def schedule_candidate_bond_less_def schedule_bond_less_def
    by (cases origin') (auto simp: wp_simps Let_def split: option.split)
qed

lemma safe_cancel_bond_less:
  assumes "staking_ok cfg s"
  shows "safe_at cfg (cancel_candidate_bond_less origin') s"
proof -
  have "staking_ok cfg (s\<lparr>Events := evs, CandidateInfo := (CandidateInfo s)(c \<mapsto> m\<lparr>cm_request := None\<rparr>)\<rparr>)"
    if "CandidateInfo s c = Some m" for c m evs
    using status_stays [of cfg "s\<lparr>Events := evs\<rparr>" c m _ None] assms that by simp
  then show ?thesis
    unfolding safe_at_def cancel_candidate_bond_less_def cancel_bond_less_def
    by (cases origin') (auto simp: wp_simps Let_def split: option.split)
qed

text \<open>There is room for \<open>x\<close> more: all that the lists record as staked fits with it in 128 bits.\<close>

definition room :: "'w staking \<Rightarrow> Balance \<Rightarrow> bool" where
  "room s x \<longleftrightarrow> staked s + excesses s + x \<le> u128_max"

lemma stake_le_staked:
  assumes "staking_ok cfg s" and "CandidateInfo s c = Some m"
  shows "stake_at s c \<le> staked s" and "excess_of s c \<le> excesses s"
  using assms staking_okD(1) [OF assms(1)]
  by (auto simp: staked_def excesses_def intro!: member_le_sum)

lemma roomD:
  assumes "room s x" and "staking_ok cfg s"
  shows "CandidateInfo s c = Some m \<Longrightarrow>
      cm_bond m + sum_mset (image_mset b_amount (book_of s c)) + excess_of s c + x \<le> u128_max"
    and "Total s + x \<le> u128_max" and "x \<le> u128_max"
proof -
  show "Total s + x \<le> u128_max" "x \<le> u128_max"
    using assms(1) staking_okD(6) [OF assms(2)] by (simp_all add: room_def)
  assume "CandidateInfo s c = Some m"
  with stake_le_staked [OF assms(2) this] assms(1)
  show "cm_bond m + sum_mset (image_mset b_amount (book_of s c)) + excess_of s c + x \<le> u128_max"
    by (simp add: room_def stake_at_def)
qed

text \<open>What is left of the room when one candidate's stake has grown.\<close>

lemma room_step:
  assumes "staking_ok cfg s" and "staking_ok cfg s'" and same: "same_elsewhere c s s'"
    and "stake_at s' c + excess_of s' c \<le> stake_at s c + excess_of s c + x" and "room s (x + y)"
  shows "room s' y"
proof -
  obtain T where "staked s = T + stake_at s c" "staked s' = T + stake_at s' c"
    by (rule staked_elsewhere [OF same staking_okD(1) [OF assms(1)]])
  moreover obtain U where "excesses s = U + excess_of s c" "excesses s' = U + excess_of s' c"
    by (rule excesses_elsewhere [OF same assms(1,2)])
  ultimately show ?thesis using assms(4,5) by (simp add: room_def)
qed

lemma self_bonded_step:
  assumes ok: "staking_ok cfg s" and info: "CandidateInfo s c = Some m"
    and fits: "v + sum_mset (image_mset b_amount (book_of s c)) + excess_of s c \<le> u128_max"
    and m': "m' = (with_bond v m)\<lparr>cm_request := rq\<rparr>"
    and req: "\<And>req. rq = Some req \<Longrightarrow> br_amount req \<le> v"
    and total: "\<And>T. Total s \<le> T + cm_bond m \<Longrightarrow> tot \<le> T + v"
  shows "staking_ok cfg (self_bonded c m m' (s\<lparr>Total := tot, world := w, Events := evs\<rparr>))"
    (is "staking_ok cfg ?t")
proof (rule meta_step [OF ok info])
  note p = candidate_partD [OF ok info]
  have act: "is_active m' = is_active m" by (simp add: m' with_bond_def is_active_def)
  have pool: "pool_ok cfg (CandidatePool ?t)
      \<and> pool_lookup (CandidatePool ?t) = (pool_lookup (CandidatePool s))(c := pool_entry (Some m'))"
  proof (cases "is_active m")
    case True
    have pok: "pool_ok cfg (CandidatePool s)" by (rule staking_okD(2) [OF ok])
    then have ks: "key_sorted b_owner (CandidatePool s)" by (simp add: pool_ok_def)
    have own: "c \<in> owners (CandidatePool s)"
      using p(2) True pool_lookup_present [of "CandidatePool s" c] by auto
    from candidate_pool.inv_upd [OF pok pool_put_present [OF pok own]] True act
    show ?thesis by (simp add: self_bonded_def pool_lookup_replace [OF ks] pool_entry_def)
  next
    case False
    then show ?thesis using p(2) act staking_okD(2) [OF ok]
      by (auto simp: self_bonded_def pool_entry_def)
  qed
  then show "pool_ok cfg (CandidatePool ?t)"
    "pool_lookup (CandidatePool ?t) = (pool_lookup (CandidatePool s))(c := pool_entry (Some m'))"
    by simp_all
  show "stands cfg c (excess_of s c) (book_of s c) m' ?t"
    by (rule self_bonded_stands [OF p(1) fits m']) (simp_all add: self_bonded_def)
  show "br_amount rq' \<le> cm_bond m'" if "cm_request m' = Some rq'" for rq'
    using req that by (simp add: m' with_bond_def)
  show "Total ?t \<le> T + cm_bond m'" if "Total s \<le> T + cm_bond m" for T
    using total [OF that] by (simp add: m' with_bond_def self_bonded_def)
qed (simp_all add: self_bonded_def)

lemma with_bond_request [simp]: "(with_bond v m)\<lparr>cm_request := cm_request m\<rparr> = with_bond v m"
  by (simp add: with_bond_def)

lemma safe_bond_more:
  assumes ok: "staking_ok cfg s" and room: "room s x"
  shows "safe_at cfg (candidate_bond_more cfg origin' x) s"
proof -
  have "wp (candidate_bond_more_inner cfg c x) (\<lambda>_. staking_ok cfg) (\<lambda>_ _. True) s" for c
  proof (cases "CandidateInfo s c")
    case None
    then show ?thesis by (simp add: candidate_bond_more_inner_def wp_simps)
  next
    case (Some m)
    note fits = roomD [OF room ok]
    have "staking_ok cfg (self_bonded c m (with_bond (cm_bond m + x) m)
        (s\<lparr>Total := Total s + x, world := w, Events := evs\<rparr>))" for w evs
    proof (rule self_bonded_step [OF ok Some, where rq = "cm_request m"])
      show "br_amount req \<le> cm_bond m + x" if "cm_request m = Some req" for req
        using candidate_partD(3) [OF ok Some that] by simp
    qed (use fits(1) [OF Some] in simp_all)
    then show ?thesis
      using fits(2)
      by (simp add: wp_candidate_bond_more [OF Some candidate_partD(1) [OF ok Some] fits(1) [OF Some]]
          sat_add_u128_exact)
  qed
  then show ?thesis
    unfolding safe_at_def candidate_bond_more_def by (cases origin') (simp_all add: wp_simps)
qed

lemma due_bond_less_executes:
  assumes ok: "staking_ok cfg s" and m: "CandidateInfo s c = Some m" "bond_less_due m x s"
  shows "wp (execute_candidate_bond_less_inner cfg c)
    (\<lambda>_ s'. staking_ok cfg s' \<and> (\<exists>m'. CandidateInfo s' c = Some m' \<and> cm_bond m' + x = cm_bond m))
    (\<lambda>_ _. False) s"
proof -
  note p = candidate_partD [OF ok m(1)]
  have le: "x \<le> cm_bond m" using m(2) p(3) by (auto simp: bond_less_due_def)
  let ?t = "\<lambda>w evs. self_bonded c m ((with_bond (cm_bond m - x) m)\<lparr>cm_request := None\<rparr>)
      (s\<lparr>Total := Total s - x, world := w, Events := evs\<rparr>)"
  have "staking_ok cfg (?t w evs)" for w evs
    using le stands_parts(4) [OF p(1)] by (intro self_bonded_step [OF ok m(1) _ refl]) auto
  moreover have "CandidateInfo (?t w evs) c = Some ((with_bond (cm_bond m - x) m)\<lparr>cm_request := None\<rparr>)" for w evs
    by (simp add: self_bonded_def)
  ultimately show ?thesis using le
    by (simp add: wp_execute_bond_less [OF m(1) p(1) m(2) le] Let_def with_bond_def)
qed

lemma safe_execute_bond_less:
  assumes ok: "staking_ok cfg s"
  shows "safe_at cfg (execute_candidate_bond_less cfg origin' c) s"
proof -
  have "wp (execute_candidate_bond_less_inner cfg c) (\<lambda>_. staking_ok cfg) (\<lambda>_ _. True) s"
  proof (cases "\<exists>m x. CandidateInfo s c = Some m \<and> bond_less_due m x s")
    case False
    then show ?thesis
      by (auto simp: execute_candidate_bond_less_inner_def execute_bond_less_def wp_simps
          bond_less_due_def split: option.split)
  next
    case True
    then obtain m x where m: "CandidateInfo s c = Some m" "bond_less_due m x s" by blast
    from due_bond_less_executes [OF ok m] show ?thesis by (rule wp_mono) auto
  qed
  then show ?thesis
    unfolding safe_at_def execute_candidate_bond_less_def by (cases origin') (simp_all add: wp_simps)
qed

section \<open>Joining\<close>

lemma safe_join_inner:
  assumes ok: "staking_ok cfg s" and room: "room s x" and params: "params_ok cfg" "MaxCandidates cfg \<le> u32_max"
  shows "wp (join_candidates_inner cfg c x n)
    (\<lambda>_ s'. staking_ok cfg s' \<and> (\<forall>y. room s (x + y) \<longrightarrow> room s' y)) (\<lambda>_ _. True) s"
proof -
  note pok = staking_okD(2) [OF ok]
  note fits = roomD [OF room ok]
  have "staking_ok cfg (has_joined cfg c x s) \<and> (\<forall>y. room s (x + y) \<longrightarrow> room (has_joined cfg c x s) y)"
      (is "staking_ok cfg ?t \<and> _")
    if c: "CandidateInfo s c = None" "DelegatorState s c = None" "c \<notin> owners (CandidatePool s)"
      "length (CandidatePool s) < MaxCandidates cfg"
  proof -
    note pool = pool_insert_ok [OF pok c(3,4), of x]
    note none = no_candidateD [OF ok c(1)]
    have st: "stands cfg c 0 {#} (candidate_new x) ?t"
      by (rule has_joined_stands [OF pok c(3,4) fits(3) params(1)])
    have info: "CandidateInfo ?t c = Some (candidate_new x)" by (simp add: has_joined_def)
    have "candidate_part cfg ?t c"
      using none by (intro candidate_partI [OF info st])
        (auto simp: has_joined_def candidate_new_def is_active_def requests_ok_def)
    moreover have same: "same_elsewhere c s ?t"
      using pool(2) by (simp add: same_elsewhere_def has_joined_def)
    moreover have stake: "stake_at ?t c = x" and book: "book_of ?t c = {#}"
      by (simp_all add: stake_at_def stands_book [OF st] info candidate_new_def)
    moreover have "stake_at s c = 0" by (simp add: stake_at_def c(1))
    ultimately have ok': "staking_ok cfg ?t" using pool(1) c none(3) fits(2)
      by (intro staking_step [OF ok, of c _ "{}"]) (auto simp: has_joined_def sat_add_u128_exact)
    then show ?thesis
      using room_step [OF ok ok' same, of x] by (simp add: stake stands_book(2) [OF st])
  qed
  then show ?thesis by (simp add: wp_join_inner [OF pok params(2)])
qed

lemma safe_join:
  assumes "staking_ok cfg s" and "room s x" and "params_ok cfg" and "MaxCandidates cfg \<le> u32_max"
  shows "safe_at cfg (join_candidates cfg origin' x n) s"
    and "safe_at cfg (force_join_candidates cfg origin' c x n) s"
  unfolding safe_at_def join_candidates_def force_join_candidates_def ensure_monetary_governance_def
  by (cases origin'; auto simp: wp_simps intro: wp_mono [OF safe_join_inner [OF assms]])+

section \<open>Leaving\<close>

lemma site_at:
  assumes ok: "staking_ok cfg s" and info: "CandidateInfo s c = Some m"
  shows "site_ok cfg c (excess_of s c) (book_of s c) m s"
proof -
  note p = candidate_partD [OF ok info]
  have "backed c k s" if "k \<in># book_of s c" for k
  proof -
    have "bond c (b_amount k) \<in> bonds_of s (b_owner k)"
      using staking_okD(5) [OF ok, of c "b_amount k" "b_owner k"] that unfolding bond_eta by blast
    then obtain st where "DelegatorState s (b_owner k) = Some st" "bond c (b_amount k) \<in> set (d_delegations st)"
      by (auto simp: bonds_of_def split: option.splits)
    with delegator_partD(2) [OF ok this(1)] p(4,6) show ?thesis by (auto simp: backed_def)
  qed
  with p info show ?thesis by (simp add: site_ok_def)
qed

lemma positive_total:
  assumes "delegator_ok st" and "\<forall>b \<in> set (d_delegations st). 0 < b_amount b"
    and "bond c a \<in> set (d_delegations st)" and "d_total st = a"
  shows "d_delegations st = [bond c a]"
proof -
  obtain xs ys where ds: "d_delegations st = xs @ bond c a # ys"
    using assms(3) by (meson split_list)
  have zero: "amounts xs + amounts ys = 0"
    using assms(1,4) by (simp add: delegator_ok_def ds)
  have "xs = []" using assms(2) zero by (cases xs) (auto simp: ds)
  moreover have "ys = []" using assms(2) zero by (cases ys) (auto simp: ds)
  ultimately show ?thesis by (simp add: ds)
qed

lemma has_left_ok:
  assumes ok: "staking_ok cfg s" and info: "CandidateInfo s c = Some m" "cm_status m = Leaving r"
    and left: "has_left c (excess_of s c) (book_of s c) m s s'"
  shows "staking_ok cfg s'"
proof -
  let ?D = "b_owner ` set_mset (book_of s c)"
  have l: "CandidateInfo s' = (CandidateInfo s)(c := None)" "CandidatePool s' = CandidatePool s"
    "TopDelegations s' = (TopDelegations s)(c := None)" "BottomDelegations s' = (BottomDelegations s)(c := None)"
    "DelegationScheduledRequests s' c = []" "AutoCompoundingDelegations s' c = []"
    "\<And>k. k \<noteq> c \<Longrightarrow> DelegationScheduledRequests s' k = DelegationScheduledRequests s k"
    "\<And>k. k \<noteq> c \<Longrightarrow> AutoCompoundingDelegations s' k = AutoCompoundingDelegations s k"
    "\<And>k. k \<in># book_of s c \<Longrightarrow> stake_returned c k s s'"
    "\<And>d. d \<notin> ?D \<Longrightarrow> DelegatorState s' d = DelegatorState s d"
    "Total s' = Total s - (cm_bond m + sum_mset (image_mset b_amount (book_of s c)) + excess_of s c)"
    using left by (auto simp: has_left_def)
  have part: "candidate_part cfg s' c"
    using candidate_partD(2) [OF ok info(1)] info(2)
    by (simp add: candidate_part_def l pool_entry_def is_active_def)
  have book: "book_of s' c = {#}" by (simp add: book_of_def l)
  have given_back: "delegator_part cfg s' d \<and> bonds_of s' d = {b \<in> bonds_of s d. b_owner b \<noteq> c}"
    if d: "d \<in> ?D" for d
  proof -
    from d obtain a where a: "bond d a \<in># book_of s c" by (metis bond_eta imageE)
    then have in_d: "bond c a \<in> bonds_of s d" using staking_okD(5) [OF ok] by blast
    then obtain st where st: "DelegatorState s d = Some st" "bond c a \<in> set (d_delegations st)"
      by (auto simp: bonds_of_def split: option.splits)
    note q = delegator_partD [OF ok st(1)]
    have ret: "stake_returned c (bond d a) s s'" by (rule l(9) [OF a])
    show ?thesis
    proof (cases "d_total st = a")
      case True
      from positive_total [OF q(2) _ st(2) True] q(5) have "d_delegations st = [bond c a]" by blast
      with ret st(1) True show ?thesis
        by (auto simp: stake_returned_def delegator_part_def bonds_of_def)
    next
      case False
      with ret st(1) obtain st' where st': "DelegatorState s' d = Some st'" "d_id st' = d_id st"
        "delegator_ok st'" "d_total st' = d_total st - a" "d_delegations st' = without c (d_delegations st)"
        by (auto simp: stake_returned_def split: option.splits)
      have ne: "d_delegations st' \<noteq> []"
      proof
        assume "d_delegations st' = []"
        then have "d_total st - a = 0" using st'(3,4) by (simp add: delegator_ok_def)
        moreover have "a \<le> d_total st"
          using q(2) st(2) member_le_sum_list [of a "map b_amount (d_delegations st)"]
          by (force simp: delegator_ok_def image_iff)
        ultimately show False using False by simp
      qed
      have "length (d_delegations st') \<le> MaxDelegationsPerDelegator cfg"
        unfolding st'(5) using q(4) le_trans [OF length_filter_le] by blast
      then show ?thesis using st' q ne st(1) by (auto simp: delegator_part_def bonds_of_def l)
    qed
  qed
  show ?thesis
  proof (rule staking_step [OF ok _ _ part, of ?D])
    show "same_elsewhere c s s'" by (simp add: same_elsewhere_def l)
    show "pool_ok cfg (CandidatePool s')" by (simp add: l staking_okD(2) [OF ok])
    show "bond d a \<in># book_of s' c \<longleftrightarrow> bond d a \<in># book_of s c" if "d \<notin> ?D" for d a
      using that by (force simp: book)
    show "Total s' \<le> T + stake_at s' c" if "Total s \<le> T + stake_at s c" for T
      using that by (simp add: l stake_at_def info)
  qed (use given_back l in \<open>auto simp: book\<close>)
qed

lemma due_exit_executes:
  assumes ok: "staking_ok cfg s" and m: "CandidateInfo s c = Some m"
    and due: "cm_status m = Leaving r" "r \<le> r_current (Round s)"
  shows "wp (execute_leave_candidates_inner cfg c)
    (\<lambda>_ s'. staking_ok cfg s' \<and> CandidateInfo s' c = None) (\<lambda>_ _. False) s"
  by (rule wp_mono [OF wp_execute_leave [OF site_at [OF ok m]]])
    (use has_left_ok [OF ok m due(1)] due in \<open>auto simp: has_left_def\<close>)

lemma safe_execute_leave:
  assumes ok: "staking_ok cfg s"
  shows "safe_at cfg (execute_leave_candidates cfg origin' c n) s"
proof (cases "CandidateInfo s c")
  case None
  then show ?thesis
    by (cases origin') (simp_all add: safe_at_def execute_leave_candidates_def wp_simps)
next
  case (Some m)
  have "wp (execute_leave_candidates_inner cfg c) (\<lambda>_. staking_ok cfg) (\<lambda>_ _. True) s"
    by (rule wp_mono [OF wp_execute_leave [OF site_at [OF ok Some]]])
      (auto intro: has_left_ok [OF ok Some])
  with Some show ?thesis
    by (cases origin') (simp_all add: safe_at_def execute_leave_candidates_def wp_simps)
qed

end
