(* ===== verification/Delegation_Steps.thy ===== *)
theory Delegation_Steps
  imports Candidate_Steps
begin

text \<open>
  The calls that change a candidate's book and delegators' records together keep the invariant:
  bonding more, executing, scheduling and cancelling requests, delegating, auto-compounding.
\<close>

section \<open>A step on one book\<close>

lemma flow_step:
  assumes ok: "staking_ok cfg s" and info: "CandidateInfo s c = Some m"
    and st: "stands cfg c e M m' s'" and same: "same_identity m m'"
    and info': "CandidateInfo s' = (CandidateInfo s)(c \<mapsto> m')"
    and frame: "\<And>k. k \<noteq> c \<Longrightarrow> TopDelegations s' k = TopDelegations s k
        \<and> BottomDelegations s' k = BottomDelegations s k
        \<and> DelegationScheduledRequests s' k = DelegationScheduledRequests s k
        \<and> AutoCompoundingDelegations s' k = AutoCompoundingDelegations s k
        \<and> pool_lookup (CandidatePool s') k = pool_lookup (CandidatePool s) k"
    and idle: "\<not> is_active m \<Longrightarrow> CandidatePool s' = CandidatePool s"
    and reqs: "requests_ok (DelegationScheduledRequests s' c)"
      "\<And>req. req \<in> set (DelegationScheduledRequests s' c) \<Longrightarrow> request_fits cfg M req"
    and autos: "key_sorted ac_delegator (AutoCompoundingDelegations s' c)"
      "ac_delegator ` set (AutoCompoundingDelegations s' c) \<subseteq> b_owner ` set_mset M"
    and others: "\<And>d. d \<notin> D \<Longrightarrow> DelegatorState s' d = DelegatorState s d"
    and theirs: "\<And>d a. d \<notin> D \<Longrightarrow> bond d a \<in># M \<longleftrightarrow> bond d a \<in># book_of s c"
    and parts: "\<And>d. d \<in> D \<Longrightarrow> delegator_part cfg s' d"
    and keep: "\<And>d b. d \<in> D \<Longrightarrow> b_owner b \<noteq> c \<Longrightarrow> b \<in> bonds_of s' d \<longleftrightarrow> b \<in> bonds_of s d"
    and link: "\<And>d a. d \<in> D \<Longrightarrow> bond c a \<in> bonds_of s' d \<longleftrightarrow> bond d a \<in># M"
    and total: "\<And>T. Total s \<le> T + sum_mset (image_mset b_amount (book_of s c))
      \<Longrightarrow> Total s' \<le> T + sum_mset (image_mset b_amount M)"
  shows "staking_ok cfg s'"
proof -
  note p = candidate_partD [OF ok info]
  note book = stands_book [OF st]
  have act: "is_active m' = is_active m" and bd: "cm_bond m' = cm_bond m" and rq: "cm_request m' = cm_request m"
    using same by (simp_all add: same_identity_def is_active_def)
  have out: "is_active m' \<or> c \<notin> owners (CandidatePool s')"
    using idle act p(2) pool_lookup_present [of "CandidatePool s" c] by auto
  have "candidate_part cfg s' c"
    by (rule candidate_partI [OF _ st out _ reqs autos]) (use p(3) info' in \<open>auto simp: rq bd\<close>)
  moreover have "same_elsewhere c s s'" using frame by (simp add: same_elsewhere_def info')
  moreover have "pool_ok cfg (CandidatePool s')" using st by (auto simp: stands_def pool_at_def)
  moreover have "Total s' \<le> T + stake_at s' c" if "Total s \<le> T + stake_at s c" for T
    using that total [of "T + cm_bond m"] by (simp add: stake_at_def info info' book bd)
  ultimately show ?thesis using assms book
    by (intro staking_step [OF ok, of c s' D]) simp_all
qed

lemma linked_at:
  assumes ok: "staking_ok cfg s" and st: "DelegatorState s d = Some st"
    and "bond c a \<in> set (d_delegations st)"
  obtains m where "CandidateInfo s c = Some m"
    and "linked cfg c d a (excess_of s c) (book_of s c) m st s" and "bond d a \<in># book_of s c"
proof -
  have mem: "bond d a \<in># book_of s c"
    using staking_okD(5) [OF ok, of c a d] assms(3) delegator_partD(7) [OF ok st] by simp
  then obtain m where m: "CandidateInfo s c = Some m"
    using no_candidateD(3) [OF ok, of c] by (cases "CandidateInfo s c") auto
  have "linked cfg c d a (excess_of s c) (book_of s c) m st s"
    unfolding linked_def using candidate_partD [OF ok m] delegator_partD [OF ok st] m mem assms by simp
  from m this mem show thesis by (rule that)
qed

text \<open>In a book an owner has one bond.\<close>

lemma one_bond:
  assumes "stands cfg c e M m s" and "bond d a \<in># M"
  shows "bond d a' \<in># M \<longleftrightarrow> a' = a" and "bond d a' \<notin># M - {#bond d a#}"
    and "d' \<noteq> d \<Longrightarrow> bond d' a' \<in># M - {#bond d a#} \<longleftrightarrow> bond d' a' \<in># M"
proof -
  obtain N where M: "M = add_mset (bond d a) N" using assms(2) by (metis mset_add)
  have out: "bond d x \<notin># N" for x using stands_distinct [OF assms, of "bond d x"] by (auto simp: M)
  show "bond d a' \<in># M \<longleftrightarrow> a' = a" using out by (auto simp: M)
  show "bond d a' \<notin># M - {#bond d a#}" using out by (simp add: M)
  show "d' \<noteq> d \<Longrightarrow> bond d' a' \<in># M - {#bond d a#} \<longleftrightarrow> bond d' a' \<in># M" by (simp add: M)
qed

lemma book_sum:
  assumes "x \<in># M"
  shows "sum_mset (image_mset b_amount M) = b_amount x + sum_mset (image_mset b_amount (M - {#x#}))"
  by (subst insert_DiffM [OF assms, symmetric]) (simp del: insert_DiffM)

section \<open>The records of a delegator\<close>

lemma set_rebond:
  assumes "delegator_ok st" and "bond c a \<in> set (d_delegations st)"
  shows "set (d_delegations (rebond c f g st)) = insert (bond c (f a)) {b \<in> set (d_delegations st). b_owner b \<noteq> c}"
    and "length (d_delegations (rebond c f g st)) = length (d_delegations st)"
proof -
  have dist: "distinct (map b_owner (d_delegations st))"
    using assms(1) by (simp add: delegator_ok_def key_sorted_distinct)
  have same: "x = bond c a" if "x \<in> set (d_delegations st)" "b_owner x = c" for x
    using that assms(2) dist inj_onD [of b_owner "set (d_delegations st)" x "bond c a"]
    by (simp add: distinct_map)
  show "set (d_delegations (rebond c f g st)) = insert (bond c (f a)) {b \<in> set (d_delegations st). b_owner b \<noteq> c}"
  proof -
    have "set (adjust_bond c f (d_delegations st)) = insert (bond c (f a)) {b \<in> set (d_delegations st). b_owner b \<noteq> c}"
      (is "?l = ?r")
    proof (intro set_eqI iffI)
      fix x assume "x \<in> ?l"
      then obtain y where "y \<in> set (d_delegations st)"
        "x = (if b_owner y = c then y\<lparr>b_amount := f (b_amount y)\<rparr> else y)"
        by (auto simp: adjust_bond_def)
      with same [of y] show "x \<in> ?r" by (cases "b_owner y = c") auto
    next
      fix x assume "x \<in> ?r"
      then show "x \<in> ?l" using assms(2) by (force simp: adjust_bond_def image_iff)
    qed
    then show ?thesis by (simp add: rebond_def update_first_bond_adjust [OF dist])
  qed
  show "length (d_delegations (rebond c f g st)) = length (d_delegations st)"
    by (simp add: rebond_def update_first_bond_adjust [OF dist] adjust_bond_def)
qed

lemma one_delegation:
  assumes "delegator_ok st" and "bond c a \<in> set (d_delegations st)"
  shows "bond c a' \<in> set (d_delegations st) \<longleftrightarrow> a' = a"
  using delegator_by_key(1) [OF assms] delegator_by_key(1) [OF assms(1), of c a'] assms(2) by auto

lemma rebond_part:
  assumes ok: "staking_ok cfg s" and st: "DelegatorState s d = Some st"
    and mem: "bond c a \<in> set (d_delegations st)" and pos: "0 < f a" "MinDelegation cfg \<le> f a"
    and tot: "g (d_total st) + a = d_total st + f a"
    and st': "DelegatorState s' d = Some ((rebond c f g st)\<lparr>d_less_total := l\<rparr>)"
    and info: "CandidateInfo s' d = None"
  shows "delegator_part cfg s' d"
    and "bonds_of s' d = insert (bond c (f a)) {b \<in> bonds_of s d. b_owner b \<noteq> c}"
proof -
  note q = delegator_partD [OF ok st]
  note r = rebond_ok [OF q(2) mem, of g f]
  note set = set_rebond [OF q(2) mem, of f g]
  have "d_delegations (rebond c f g st) \<noteq> []" using set(1) by auto
  then show "delegator_part cfg s' d"
    using r(1,3) tot q(1,4,5,8) set pos info st' by (auto simp: delegator_part_def delegator_ok_def)
  show "bonds_of s' d = insert (bond c (f a)) {b \<in> bonds_of s d. b_owner b \<noteq> c}"
    using set(1) q(7) st' by (simp add: bonds_of_def)
qed

lemma drop_part:
  assumes ok: "staking_ok cfg s" and st: "DelegatorState s d = Some st"
    and mem: "bond c a \<in> set (d_delegations st)"
    and st': "DelegatorState s' d = (if length (d_delegations st) = 1 then None
      else Some ((drop_bond (bond c a) st)\<lparr>d_less_total := l\<rparr>))"
    and info: "CandidateInfo s' d = None"
  shows "delegator_part cfg s' d" and "bonds_of s' d = {b \<in> bonds_of s d. b_owner b \<noteq> c}"
proof -
  note q = delegator_partD [OF ok st]
  note r = drop_bond_ok [OF q(2) mem]
  have dist: "distinct (map b_owner (d_delegations st))"
    using q(2) by (simp add: delegator_ok_def key_sorted_distinct)
  have "length (without c (d_delegations st)) \<noteq> 0" if "length (d_delegations st) \<noteq> 1"
    using that length_filter_unique [OF dist mem] by auto
  moreover have "length (without c (d_delegations st)) \<le> MaxDelegationsPerDelegator cfg"
    using q(4) le_trans [OF length_filter_le] by blast
  ultimately show "delegator_part cfg s' d"
    using r q(1,5,8) info st' by (auto simp: delegator_part_def drop_bond_def delegator_ok_def)
  show "bonds_of s' d = {b \<in> bonds_of s d. b_owner b \<noteq> c}"
  proof (cases "length (d_delegations st) = 1")
    case True
    then have "d_delegations st = [bond c a]" using mem by (auto simp: length_Suc_conv)
    then show ?thesis using q(7) st' True by (simp add: bonds_of_def)
  next
    case False
    then show ?thesis using q(7) st' by (auto simp: bonds_of_def drop_bond_def)
  qed
qed

section \<open>Bonding more, revoking, decreasing\<close>

lemma fits_other:
  assumes "request_fits cfg M req" and "\<And>a. bond (sr_delegator req) a \<in># M \<Longrightarrow> bond (sr_delegator req) a \<in># M'"
  shows "request_fits cfg M' req"
  using assms by (auto simp: request_fits_def split: DelegationAction.splits)

lemma owners_rebonded:
  "x \<in># M \<Longrightarrow> b_owner y = b_owner x \<Longrightarrow> b_owner ` set_mset (add_mset y (M - {#x#})) = b_owner ` set_mset M"
  by (metis image_insert insert_DiffM set_mset_add_mset_insert)

lemma raised_ok:
  assumes ok: "staking_ok cfg s" and st: "DelegatorState s d = Some st"
    and mem: "bond c a \<in> set (d_delegations st)" and info: "CandidateInfo s c = Some m"
    and no_revoke: "\<not> delegation_request_revoke_exists c d s"
    and raised: "raised cfg c d a x (excess_of s c) (book_of s c) m st s s'"
  shows "staking_ok cfg s'"
proof -
  let ?B = "book_of s c" and ?s1 = "s\<lparr>world := relock cfg (rebond c (\<lambda>b. b + x) (\<lambda>t. t + x) st) (world s)\<rparr>"
  let ?M = "add_mset (bond d (a + x)) (?B - {#bond d a#})"
  let ?st = "rebond c (\<lambda>b. b + x) (\<lambda>t. t + x) st"
  note p = candidate_partD [OF ok info]
  have inB: "bond d a \<in># ?B"
    using staking_okD(5) [OF ok, of c a d] mem delegator_partD(7) [OF ok st] by simp
  note one = one_bond [OF p(1) inB]
  obtain m' s2 where r: "reached cfg c (excess_of s c) ?M m ?s1 m' s2"
    and s': "s' = s2\<lparr>CandidateInfo := (CandidateInfo s)(c \<mapsto> m'), Total := Total s + x,
      DelegatorState := (DelegatorState s)(d \<mapsto> ?st)\<rparr>"
    using raised unfolding raised_def by auto
  have o: "only_candidate c ?s1 s2" and sid: "same_identity m m'"
    using r by (auto simp: reached_def)
  note f = only_candidate_fields [OF o]
  have st': "DelegatorState s' d = Some ((rebond c (\<lambda>b. b + x) (\<lambda>t. t + x) st)\<lparr>d_less_total := d_less_total st\<rparr>)"
    by (simp add: s' rebond_def)
  have "c \<noteq> d" using info delegator_partD(6) [OF ok st] by auto
  then have none: "CandidateInfo s' d = None" using delegator_partD(6) [OF ok st] by (simp add: s')
  have pos: "0 < a" "MinDelegation cfg \<le> a" using delegator_partD(5,8) [OF ok st mem] by simp_all
  note part = rebond_part [OF ok st mem _ _ _ st' none]
  have fits: "request_fits cfg ?M req" if q: "req \<in> set (DelegationScheduledRequests s c)" for req
  proof (cases "sr_delegator req = d")
    case True
    have "\<not> is_revoke (sr_action req)"
      using no_revoke q True by (auto simp: delegation_request_revoke_exists_def list_ex_iff)
    with p(5) [OF q] True one show ?thesis by (cases "sr_action req") (auto simp: request_fits_def)
  next
    case False
    then show ?thesis using one(3) by (intro fits_other [OF p(5) [OF q]]) auto
  qed
  show ?thesis
  proof (rule flow_step [OF ok info _ sid, where D = "{d}" and M = ?M])
    show "stands cfg c (excess_of s c) ?M m' s'" using r by (simp add: reached_def s')
    show "delegator_part cfg s' d'" if "d' \<in> {d}" for d' using part(1) pos that by simp
    show "b \<in> bonds_of s' d' \<longleftrightarrow> b \<in> bonds_of s d'" if "d' \<in> {d}" "b_owner b \<noteq> c" for d' b
      using part(2) pos that by auto
    show "bond c a' \<in> bonds_of s' d' \<longleftrightarrow> bond d' a' \<in># ?M" if "d' \<in> {d}" for d' a'
      using part(2) pos that one(2) by simp
    show "Total s' \<le> T + sum_mset (image_mset b_amount ?M)"
      if "Total s \<le> T + sum_mset (image_mset b_amount ?B)" for T
      using that book_sum [OF inB] by (simp add: s')
    show "ac_delegator ` set (AutoCompoundingDelegations s' c) \<subseteq> b_owner ` set_mset ?M"
      using p(7) owners_rebonded [OF inB, of "bond d (a + x)"] by (simp add: s' f)
  qed (use p r f one fits in \<open>auto simp: s' reached_def\<close>)
qed

text \<open>What is left of the room afterwards.\<close>

lemma raised_room:
  assumes ok: "staking_ok cfg s" and mem: "bond d a \<in># book_of s c" and info: "CandidateInfo s c = Some m"
    and raised: "raised cfg c d a x (excess_of s c) (book_of s c) m st s s'" and ok': "staking_ok cfg s'"
    and room: "room s (x + y)"
  shows "room s' y"
proof -
  let ?B = "book_of s c"
  let ?M = "add_mset (bond d (a + x)) (?B - {#bond d a#})"
  obtain m' s2 st' s1 where r: "stands cfg c (excess_of s c) ?M m' s2" "same_identity m m'"
    "only_candidate c s1 s2" and s1: "s1 = s\<lparr>world := relock cfg st' (world s)\<rparr>"
    and s': "s' = s2\<lparr>CandidateInfo := (CandidateInfo s)(c \<mapsto> m'), Total := Total s + x,
      DelegatorState := (DelegatorState s)(d \<mapsto> st')\<rparr>"
    using raised unfolding raised_def reached_def by auto
  note f = only_candidate_fields [OF r(3)]
  have same: "same_elsewhere c s s'" by (simp add: same_elsewhere_def s' f s1)
  have "stands cfg c (excess_of s c) ?M m' s'" using r(1) by (simp add: s')
  note book = stands_book [OF this]
  have info': "CandidateInfo s' c = Some m'" by (simp add: s')
  have "stake_at s' c = stake_at s c + x"
    using r(2) book_sum [OF mem] info' by (simp add: stake_at_def info book same_identity_def)
  then show ?thesis using room_step [OF ok ok' same _ room] book by simp
qed

lemma revoked_ok:
  assumes ok: "staking_ok cfg s" and st: "DelegatorState s d = Some st"
    and mem: "bond c a \<in> set (d_delegations st)" and info: "CandidateInfo s c = Some m"
    and revoked: "revoked cfg c d a (excess_of s c) (book_of s c) m st s s'"
  shows "staking_ok cfg s'"
proof -
  let ?B = "book_of s c"
  let ?M = "?B - {#bond d a#}"
  let ?st = "(drop_bond (bond c a) st)\<lparr>d_less_total := d_less_total st - a\<rparr>"
  let ?ac = "filter (\<lambda>x. ac_delegator x \<noteq> d) (AutoCompoundingDelegations s c)"
  let ?s1 = "s\<lparr>world := relock cfg ?st (world s),
    AutoCompoundingDelegations := (AutoCompoundingDelegations s)(c := ?ac)\<rparr>"
  note p = candidate_partD [OF ok info]
  have inB: "bond d a \<in># ?B"
    using staking_okD(5) [OF ok, of c a d] mem delegator_partD(7) [OF ok st] by simp
  note one = one_bond [OF p(1) inB]
  obtain m' s2 where r: "reached cfg c (excess_of s c) ?M m ?s1 m' s2"
    and s': "s' = s2\<lparr>CandidateInfo := (CandidateInfo s)(c \<mapsto> m'), Total := Total s - a,
             DelegationScheduledRequests := (DelegationScheduledRequests s)
               (c := filter (\<lambda>req. sr_delegator req \<noteq> d) (DelegationScheduledRequests s c)),
             DelegatorState := (DelegatorState s)
               (d := if length (d_delegations st) = 1 then None else Some ?st),
             Events := Events s @ DelegatorLeftCandidate d c a (cm_total_counted m')
               # DelegationRevoked d c a
               # (if length (d_delegations st) = 1 then [DelegatorLeft d a] else [])\<rparr>"
    using revoked unfolding revoked_def by auto
  have o: "only_candidate c ?s1 s2" and sid: "same_identity m m'"
    using r by (auto simp: reached_def)
  note f = only_candidate_fields [OF o]
  have st': "DelegatorState s' d = (if length (d_delegations st) = 1 then None else Some ?st)"
    by (simp add: s')
  have "c \<noteq> d" using info delegator_partD(6) [OF ok st] by auto
  then have none: "CandidateInfo s' d = None" using delegator_partD(6) [OF ok st] by (simp add: s')
  note part = drop_part [OF ok st mem st' none]
  have fits: "request_fits cfg ?M req"
    if "req \<in> set (DelegationScheduledRequests s c)" "sr_delegator req \<noteq> d" for req
    using that one(3) by (intro fits_other [OF p(5)]) auto
  have owners: "b_owner ` set_mset ?B \<subseteq> insert d (b_owner ` set_mset ?M)"
    by (subst insert_DiffM [OF inB, symmetric]) (simp del: insert_DiffM)
  show ?thesis
  proof (rule flow_step [OF ok info _ sid, where D = "{d}" and M = ?M])
    show "stands cfg c (excess_of s c) ?M m' s'" using r by (simp add: reached_def s')
    show "delegator_part cfg s' d'" if "d' \<in> {d}" for d' using part(1) that by simp
    show "b \<in> bonds_of s' d' \<longleftrightarrow> b \<in> bonds_of s d'" if "d' \<in> {d}" "b_owner b \<noteq> c" for d' b
      using part(2) that by auto
    show "bond c a' \<in> bonds_of s' d' \<longleftrightarrow> bond d' a' \<in># ?M" if "d' \<in> {d}" for d' a'
      using part(2) that one(2) by simp
    show "Total s' \<le> T + sum_mset (image_mset b_amount ?M)"
      if "Total s \<le> T + sum_mset (image_mset b_amount ?B)" for T
      using that book_sum [OF inB] by (simp add: s')
    show "ac_delegator ` set (AutoCompoundingDelegations s' c) \<subseteq> b_owner ` set_mset ?M"
      using p(7) owners by (auto simp: s' f)
  qed (use p r f one fits in \<open>auto simp: s' reached_def requests_ok_filter key_sorted_filter\<close>)
qed

lemma lowered_ok:
  assumes ok: "staking_ok cfg s" and st: "DelegatorState s d = Some st"
    and mem: "bond c a \<in> set (d_delegations st)" and info: "CandidateInfo s c = Some m"
    and less: "x < a" "MinDelegation cfg \<le> a - x"
    and lowered: "lowered cfg c d a x (excess_of s c) (book_of s c) m st s s'"
  shows "staking_ok cfg s'"
proof -
  let ?B = "book_of s c"
  let ?M = "add_mset (bond d (a - x)) (?B - {#bond d a#})"
  let ?e = "if in_bottom c (bond d a) s then excess_of s c + x else excess_of s c"
  let ?st = "(rebond c (\<lambda>b. b - x) (\<lambda>t. t - x) st)\<lparr>d_less_total := d_less_total st - x\<rparr>"
  let ?s1 = "s\<lparr>world := relock cfg ?st (world s)\<rparr>"
  note p = candidate_partD [OF ok info]
  note q = delegator_partD [OF ok st]
  have inB: "bond d a \<in># ?B" using staking_okD(5) [OF ok, of c a d] mem q(7) by simp
  note one = one_bond [OF p(1) inB]
  obtain m' s2 in_top where r: "reached cfg c ?e ?M m ?s1 m' s2"
    and s': "s' = s2\<lparr>CandidateInfo := (CandidateInfo s)(c \<mapsto> m'), Total := Total s - x,
             DelegationScheduledRequests := (DelegationScheduledRequests s)
               (c := filter (\<lambda>req. sr_delegator req \<noteq> d) (DelegationScheduledRequests s c)),
             DelegatorState := (DelegatorState s)(d \<mapsto> ?st),
             Events := Events s @ [DelegationDecreased d c x in_top]\<rparr>"
    using lowered unfolding lowered_def by auto
  have o: "only_candidate c ?s1 s2" and sid: "same_identity m m'"
    using r by (auto simp: reached_def)
  note f = only_candidate_fields [OF o]
  have st': "DelegatorState s' d = Some ?st" by (simp add: s')
  have "c \<noteq> d" using info q(6) by auto
  then have none: "CandidateInfo s' d = None" using q(6) by (simp add: s')
  have "a \<le> d_total st"
    using q(2) mem member_le_sum_list [of a "map b_amount (d_delegations st)"]
    by (force simp: delegator_ok_def image_iff)
  with less(1) have tot: "d_total st - x + a = d_total st + (a - x)" by simp
  note part = rebond_part [OF ok st mem _ _ tot st' none]
  have fits: "request_fits cfg ?M req"
    if "req \<in> set (DelegationScheduledRequests s c)" "sr_delegator req \<noteq> d" for req
    using that one(3) by (intro fits_other [OF p(5)]) auto
  show ?thesis
  proof (rule flow_step [OF ok info _ sid, where D = "{d}" and M = ?M])
    show "stands cfg c ?e ?M m' s'" using r by (simp add: reached_def s')
    show "delegator_part cfg s' d'" if "d' \<in> {d}" for d' using part(1) less that by simp
    show "b \<in> bonds_of s' d' \<longleftrightarrow> b \<in> bonds_of s d'" if "d' \<in> {d}" "b_owner b \<noteq> c" for d' b
      using part(2) less that by auto
    show "bond c a' \<in> bonds_of s' d' \<longleftrightarrow> bond d' a' \<in># ?M" if "d' \<in> {d}" for d' a'
      using part(2) less that one(2) by simp
    show "Total s' \<le> T + sum_mset (image_mset b_amount ?M)"
      if "Total s \<le> T + sum_mset (image_mset b_amount ?B)" for T
      using that book_sum [OF inB] less by (simp add: s')
    show "ac_delegator ` set (AutoCompoundingDelegations s' c) \<subseteq> b_owner ` set_mset ?M"
      using p(7) owners_rebonded [OF inB, of "bond d (a - x)"] by (simp add: s' f)
  qed (use p r f one fits in \<open>auto simp: s' reached_def requests_ok_filter\<close>)
qed

section \<open>The calls\<close>

lemma delegator_total_le:
  assumes ok: "staking_ok cfg s" and st: "DelegatorState s d = Some st"
  shows "d_total st \<le> staked s"
proof -
  note q = delegator_partD [OF ok st]
  have dist: "distinct (map b_owner (d_delegations st))"
    using q(2) by (simp add: delegator_ok_def key_sorted_distinct)
  have each: "b_owner b \<in> dom (CandidateInfo s) \<and> b_amount b \<le> stake_at s (b_owner b)"
    if "b \<in> set (d_delegations st)" for b
  proof -
    have "bond (b_owner b) (b_amount b) \<in> set (d_delegations st)" using that by simp
    from linked_at [OF ok st this] obtain m where m: "CandidateInfo s (b_owner b) = Some m"
      and mem: "bond d (b_amount b) \<in># book_of s (b_owner b)" by blast
    from book_sum [OF mem] m show ?thesis by (auto simp: stake_at_def)
  qed
  have "d_total st = (\<Sum>b \<in> set (d_delegations st). b_amount b)"
    using q(2) dist by (simp add: delegator_ok_def sum_list_distinct_conv_sum_set distinct_map)
  also have "\<dots> \<le> (\<Sum>b \<in> set (d_delegations st). stake_at s (b_owner b))"
    using each by (intro sum_mono) auto
  also have "\<dots> = sum (stake_at s) (b_owner ` set (d_delegations st))"
    using dist by (simp add: sum.reindex distinct_map o_def)
  also have "\<dots> \<le> staked s" unfolding staked_def
    using each staking_okD(1) [OF ok] by (intro sum_mono2) auto
  finally show ?thesis .
qed

text \<open>Bonding more changes nothing when it fails, so that a failed compounding does no harm.\<close>

lemma safe_bond_more_without_event:
  assumes ok: "staking_ok cfg s" and room: "room s x" and params: "params_ok cfg"
  shows "wp (delegation_bond_more_without_event cfg d c x)
    (\<lambda>_ s'. staking_ok cfg s' \<and> (\<forall>y. room s (x + y) \<longrightarrow> room s' y)) (\<lambda>_ s'. s' = s) s"
proof (cases "DelegatorState s d")
  case None
  then show ?thesis by (simp add: delegation_bond_more_without_event_def wp_simps)
next
  case (Some st)
  note q = delegator_partD [OF ok Some]
  show ?thesis
  proof (cases "delegation_request_revoke_exists c d s \<or> c \<notin> owners (d_delegations st)")
    case True
    have "find (\<lambda>b. b_owner b = c) (d_delegations st) = None" if "c \<notin> owners (d_delegations st)"
      using that by (auto simp: find_None_iff)
    with True Some show ?thesis
      by (auto simp: delegation_bond_more_without_event_def delegator_increase_delegation_def wp_simps)
  next
    case False
    then obtain a where mem: "bond c a \<in> set (d_delegations st)" by (metis bond_eta imageE)
    obtain m where m: "CandidateInfo s c = Some m"
      and l: "linked cfg c d a (excess_of s c) (book_of s c) m st s"
      and inB: "bond d a \<in># book_of s c" by (rule linked_at [OF ok Some mem])
    note fits = roomD [OF room ok]
    show ?thesis
    proof (cases "x \<le> get_delegator_stakable_balance cfg d s")
      case True
      have tot: "d_total st + x \<le> u128_max"
        using delegator_total_le [OF ok Some] room by (simp add: room_def)
      have no: "\<not> delegation_request_revoke_exists c d s" using False by simp
      from wp_bond_more [OF l params no True fits(1) [OF m] tot fits(2)]
      show ?thesis
      proof (rule wp_mono)
        fix s' assume r: "raised cfg c d a x (excess_of s c) (book_of s c) m st s s'"
        from raised_ok [OF ok Some mem m no r]
        show "staking_ok cfg s' \<and> (\<forall>y. room s (x + y) \<longrightarrow> room s' y)"
          using raised_room [OF ok inB m r] by blast
      qed simp
    next
      case stake: False
      with False Some show ?thesis
        by (auto simp: delegation_bond_more_without_event_def delegator_increase_delegation_def
            wp_simps delegator_by_key(2) [OF q(2) mem] Let_def adjust_bond_lock_def q(1))
    qed
  qed
qed

lemma safe_delegator_bond_more:
  assumes "staking_ok cfg s" and "room s x" and "params_ok cfg"
  shows "safe_at cfg (delegator_bond_more cfg origin' c x) s"
proof -
  have "wp (bind_m (delegation_bond_more_without_event cfg d c x)
      (\<lambda>in_top. deposit_event (DelegationIncreased d c x in_top))) (\<lambda>_. staking_ok cfg) (\<lambda>_ _. True) s" for d
    by (rule wp_bindI [OF wp_mono [OF safe_bond_more_without_event [OF assms, of d c]]])
      (auto simp: wp_simps)
  then show ?thesis unfolding safe_at_def delegator_bond_more_def by (cases origin') (simp_all add: wp_simps)
qed

lemma rest_above_minimum:
  assumes ok: "staking_ok cfg s" and st: "DelegatorState s d = Some st"
    and mem: "bond c a \<in> set (d_delegations st)" and more: "length (d_delegations st) \<noteq> 1"
  shows "a \<le> d_total st - MinDelegation cfg"
proof -
  note q = delegator_partD [OF ok st]
  obtain xs ys where ds: "d_delegations st = xs @ bond c a # ys" using mem by (meson split_list)
  then obtain b where b: "b \<in> set (xs @ ys)" using more by (cases xs; cases ys) auto
  have "MinDelegation cfg \<le> b_amount b" using q(8) b ds by auto
  also have "\<dots> \<le> amounts (xs @ ys)" using b by (intro member_le_sum_list) auto
  finally have "MinDelegation cfg + a \<le> amounts (d_delegations st)" by (simp add: ds)
  then show ?thesis using q(2) by (simp add: delegator_ok_def)
qed

text \<open>A request whose round has come is executed, whoever asks for it.\<close>

definition due_request :: "AccountId \<Rightarrow> AccountId \<Rightarrow> 'w staking \<Rightarrow> bool" where
  "due_request c d s \<longleftrightarrow> (case request_of d (DelegationScheduledRequests s c) of
     None \<Rightarrow> False | Some req \<Rightarrow> sr_when_executable req \<le> r_current (Round s))"

lemma due_request_executes:
  assumes ok: "staking_ok cfg s" and params: "params_ok cfg" and "due_request c d s"
  shows "wp (delegation_execute_scheduled_request cfg c d)
    (\<lambda>_ s'. staking_ok cfg s' \<and> request_of d (DelegationScheduledRequests s' c) = None) (\<lambda>_ _. False) s"
proof -
  obtain req where req: "request_of d (DelegationScheduledRequests s c) = Some req"
    and due: "sr_when_executable req \<le> r_current (Round s)"
    using assms(3) by (auto simp: due_request_def split: option.splits)
  have inR: "req \<in> set (DelegationScheduledRequests s c)" "sr_delegator req = d"
    using request_of_SomeD [OF req] by auto
  then obtain m where m: "CandidateInfo s c = Some m"
    using no_candidateD(4) [OF ok, of c] by (cases "CandidateInfo s c") auto
  note fits = candidate_partD(5) [OF ok m inR(1)]
  obtain a where inB: "bond d a \<in># book_of s c"
    and dec: "\<And>x. sr_action req = Decrease x \<Longrightarrow> x < a \<and> MinDelegation cfg \<le> a - x"
    and rev: "\<And>v. sr_action req = Revoke v \<Longrightarrow> v = a"
    using fits inR(2) by (cases "sr_action req") (auto simp: request_fits_def)
  then have "bond c a \<in> bonds_of s d" using staking_okD(5) [OF ok, of c a d] by simp
  then obtain st where st: "DelegatorState s d = Some st" and mem: "bond c a \<in> set (d_delegations st)"
    by (auto simp: bonds_of_def split: option.splits)
  obtain m' where "CandidateInfo s c = Some m'"
    and l: "linked cfg c d a (excess_of s c) (book_of s c) m' st s" by (rule linked_at [OF ok st mem])
  then have m': "m' = m" using m by simp
  have total: "a \<le> d_total st" using linked_bound(2) [OF l] .
  have gone: "lowered cfg c d a x e M n st s s' \<Longrightarrow> request_of d (DelegationScheduledRequests s' c) = None"
    "revoked cfg c d a e M n st s s' \<Longrightarrow> request_of d (DelegationScheduledRequests s' c) = None" for x e M n s'
    by (auto simp: lowered_def revoked_def request_of_filter_other)
  show ?thesis
  proof (cases "sr_action req")
    case (Revoke v)
    then have "sr_action req = Revoke a" using rev by simp
    from wp_revoke_due [OF l params req this due] show ?thesis
      using rest_above_minimum [OF ok st mem] revoked_ok [OF ok st mem m] gone(2)
      by (elim wp_mono) (auto simp: m')
  next
    case (Decrease x)
    from wp_decrease_due [OF l params req Decrease due] show ?thesis
      using dec [OF Decrease] total lowered_ok [OF ok st mem m] gone(1)
      by (elim wp_mono) (auto simp: m' not_less not_le)
  qed
qed

lemma safe_execute_request:
  assumes ok: "staking_ok cfg s" and params: "params_ok cfg"
  shows "safe_at cfg (execute_delegation_request cfg origin' d c) s"
proof -
  have "wp (delegation_execute_scheduled_request cfg c d) (\<lambda>_. staking_ok cfg) (\<lambda>_ _. True) s"
  proof (cases "due_request c d s")
    case False
    have "requests_ok (DelegationScheduledRequests s c)"
      using candidate_partD(4) [OF ok, of c] no_candidateD(4) [OF ok, of c]
      by (cases "CandidateInfo s c") (auto simp: requests_ok_def)
    from position_request [OF this, of d] False show ?thesis
      by (auto simp: delegation_execute_scheduled_request_def due_request_def wp_simps Let_def
          split: option.splits)
  next
    case True
    from due_request_executes [OF ok params True] show ?thesis by (rule wp_mono) auto
  qed
  then show ?thesis
    unfolding safe_at_def execute_delegation_request_def by (cases origin') (simp_all add: wp_simps)
qed

section \<open>Scheduling and cancelling\<close>

lemma request_step:
  assumes ok: "staking_ok cfg s" and st: "DelegatorState s d = Some st" and info: "CandidateInfo s c = Some m"
    and rs: "requests_ok rs" "\<And>req. req \<in> set rs \<Longrightarrow> request_fits cfg (book_of s c) req"
  shows "staking_ok cfg (s\<lparr>DelegationScheduledRequests := (DelegationScheduledRequests s)(c := rs),
    DelegatorState := (DelegatorState s)(d \<mapsto> st\<lparr>d_less_total := l\<rparr>)\<rparr>)" (is "staking_ok cfg ?t")
proof -
  note p = candidate_partD [OF ok info]
  note q = delegator_partD [OF ok st]
  have bonds: "bonds_of ?t d' = bonds_of s d'" for d' using st by (simp add: bonds_of_def)
  have part: "delegator_part cfg ?t d" using q by (simp add: delegator_part_def delegator_ok_def)
  show ?thesis
  proof (rule flow_step [OF ok info, where m' = m and M = "book_of s c" and D = "{d}"])
    show "same_identity m m" by (simp add: same_identity_def)
    show "stands cfg c (excess_of s c) (book_of s c) m ?t" using p(1) by simp
    show "CandidateInfo ?t = (CandidateInfo s)(c \<mapsto> m)" using info by (simp add: fun_upd_idem)
  qed (use p part rs staking_okD(5) [OF ok] in \<open>auto simp: bonds\<close>)
qed

lemma no_request_iff:
  "list_ex (\<lambda>req. sr_delegator req = d) rs \<longleftrightarrow> d \<in> sr_delegator ` set rs"
  by (auto simp: list_ex_iff)

lemma get_bond_amountD:
  assumes "get_bond_amount c st = Some a"
  shows "bond c a \<in> set (d_delegations st)"
proof -
  obtain b where "find (\<lambda>b. b_owner b = c) (d_delegations st) = Some b" "b_amount b = a"
    using assms by (auto simp: get_bond_amount_def)
  then have "b \<in> set (d_delegations st)" "b_owner b = c" by (auto simp: find_Some_iff)
  moreover from this \<open>b_amount b = a\<close> have "b = bond c a" by simp
  ultimately show ?thesis by simp
qed

lemma new_request_ok:
  assumes ok: "staking_ok cfg s" and st: "DelegatorState s d = Some st"
    and a: "get_bond_amount c st = Some a" and fresh: "d \<notin> sr_delegator ` set (DelegationScheduledRequests s c)"
    and fits: "act = Revoke a \<or> (\<exists>x. act = Decrease x \<and> x < a \<and> MinDelegation cfg \<le> a - x)"
  shows "staking_ok cfg (s\<lparr>DelegationScheduledRequests := (DelegationScheduledRequests s)
      (c := DelegationScheduledRequests s c @ [\<lparr>sr_delegator = d, sr_when_executable = w, sr_action = act\<rparr>]),
    DelegatorState := (DelegatorState s)(d \<mapsto> st\<lparr>d_less_total := l\<rparr>)\<rparr>)"
proof -
  obtain m where m: "CandidateInfo s c = Some m" and mem: "bond d a \<in># book_of s c"
    by (rule linked_at [OF ok st get_bond_amountD [OF a]])
  note p = candidate_partD [OF ok m]
  show ?thesis
    using p(4,5) fresh fits mem
    by (intro request_step [OF ok st m]) (auto simp: requests_ok_def request_fits_def)
qed

lemma safe_schedule_revoke:
  assumes "staking_ok cfg s"
  shows "safe_at cfg (schedule_revoke_delegation cfg origin' c) s"
  unfolding safe_at_def schedule_revoke_delegation_def delegation_schedule_revoke_def
  by (cases origin')
    (auto simp: wp_simps Let_def try_push_def no_request_iff split: option.split intro!: new_request_ok [OF assms])

lemma safe_schedule_decrease:
  assumes "staking_ok cfg s"
  shows "safe_at cfg (schedule_delegator_bond_less cfg origin' c x) s"
  unfolding safe_at_def schedule_delegator_bond_less_def delegation_schedule_bond_decrease_def
  by (cases origin')
    (auto simp: wp_simps Let_def try_push_def no_request_iff split: option.split intro!: new_request_ok [OF assms])

lemma request_listsD:
  assumes "staking_ok cfg s"
  shows "requests_ok (DelegationScheduledRequests s c)" "key_sorted ac_delegator (AutoCompoundingDelegations s c)"
  using candidate_partD(4,6) [OF assms, of c] no_candidateD(4,5) [OF assms, of c]
  by (cases "CandidateInfo s c"; simp add: requests_ok_def)+

lemma safe_cancel_request:
  assumes ok: "staking_ok cfg s"
  shows "safe_at cfg (cancel_delegation_request origin' c) s"
proof -
  have "staking_ok cfg (s\<lparr>DelegationScheduledRequests := (DelegationScheduledRequests s)
      (c := filter (\<lambda>req. sr_delegator req \<noteq> d) (DelegationScheduledRequests s c)),
    DelegatorState := (DelegatorState s)(d \<mapsto> st\<lparr>d_less_total := l\<rparr>)\<rparr>)"
    if st: "DelegatorState s d = Some st" and req: "request_of d (DelegationScheduledRequests s c) = Some req"
    for d st req l
  proof -
    obtain m where m: "CandidateInfo s c = Some m"
      using request_of_SomeD [OF req] no_candidateD(4) [OF ok, of c] by (cases "CandidateInfo s c") auto
    show ?thesis using candidate_partD [OF ok m]
      by (intro request_step [OF ok st m]) (auto simp: requests_ok_filter)
  qed
  then show ?thesis
    unfolding safe_at_def cancel_delegation_request_def delegation_cancel_request_def
    by (cases origin')
      (auto simp: wp_simps Let_def cancel_request_eq [OF request_listsD(1) [OF ok]] split: option.split)
qed

section \<open>Auto-compounding\<close>

lemma auto_step:
  assumes ok: "staking_ok cfg s" and info: "CandidateInfo s c = Some m"
    and "key_sorted ac_delegator ac" and "ac_delegator ` set ac \<subseteq> b_owner ` set_mset (book_of s c)"
  shows "staking_ok cfg (s\<lparr>AutoCompoundingDelegations := (AutoCompoundingDelegations s)(c := ac)\<rparr>)"
    (is "staking_ok cfg ?t")
proof (rule flow_step [OF ok info, where m' = m and M = "book_of s c" and D = "{}"])
  note p = candidate_partD [OF ok info]
  show "same_identity m m" by (simp add: same_identity_def)
  show "stands cfg c (excess_of s c) (book_of s c) m ?t" using p(1) by simp
  show "CandidateInfo ?t = (CandidateInfo s)(c \<mapsto> m)" using info by (simp add: fun_upd_idem)
qed (use candidate_partD [OF ok info] assms(3,4) in auto)

lemma safe_set_auto_compound:
  assumes ok: "staking_ok cfg s"
  shows "safe_at cfg (set_auto_compound cfg origin' c v h1 h2) s"
proof -
  have "staking_ok cfg (s\<lparr>AutoCompoundingDelegations := (AutoCompoundingDelegations s)(c := ac)\<rparr>)"
    if st: "DelegatorState s d = Some st" and own: "list_ex (\<lambda>b. b_owner b = c) (d_delegations st)"
      and ac: "ac = filter (\<lambda>x. ac_delegator x \<noteq> d) (AutoCompoundingDelegations s c)
        \<or> (\<exists>flag. set_for_delegator cfg d v (AutoCompoundingDelegations s c) = Inr (flag, ac))" for d st ac
  proof -
    obtain a where "bond c a \<in> set (d_delegations st)"
      using own by (auto simp: list_ex_iff) (metis bond_eta)
    then obtain m where m: "CandidateInfo s c = Some m" and mem: "bond d a \<in># book_of s c"
      by (rule linked_at [OF ok st])
    note p = candidate_partD [OF ok m]
    have own': "d \<in> b_owner ` set_mset (book_of s c)" using mem by force
    have "key_sorted ac_delegator ac \<and> ac_delegator ` set ac \<subseteq> b_owner ` set_mset (book_of s c)"
    proof (cases "ac = filter (\<lambda>x. ac_delegator x \<noteq> d) (AutoCompoundingDelegations s c)")
      case True
      then show ?thesis using p(6,7) by (auto simp: key_sorted_filter)
    next
      case False
      then have "auto_compound_put cfg d v (AutoCompoundingDelegations s c) = Some ac"
        using ac by (auto simp: auto_compound_put_def)
      from put_domain [OF p(6) this] p(7) own' show ?thesis by auto
    qed
    then show ?thesis by (intro auto_step [OF ok m]) auto
  qed
  then show ?thesis
    unfolding safe_at_def set_auto_compound_def set_auto_compound_inner_def
    by (cases origin') (auto simp: wp_simps Let_def ok remove_for_delegator_eq [OF request_listsD(2) [OF ok]]
        split: option.split sum.split)
qed

section \<open>Delegating\<close>

definition staking_params :: "'w config \<Rightarrow> bool" where
  "staking_params cfg \<longleftrightarrow> params_ok cfg \<and> MaxCandidates cfg \<le> u32_max
     \<and> MaxDelegationsPerDelegator cfg \<le> u32_max \<and> 0 < MaxDelegationsPerDelegator cfg \<and> 0 < MinDelegation cfg \<and> locks_move_nothing cfg"

lemma newcomer_at:
  assumes ok: "staking_ok cfg s" and params: "staking_params cfg" and room: "room s a"
  shows "newcomer_ok c d a (book_of s c) s"
proof (cases "DelegatorState s d")
  case None
  then have "bond d x \<notin># book_of s c" for x
    using staking_okD(5) [OF ok, of c x d] by (simp add: bonds_of_def)
  then have "d \<notin> b_owner ` set_mset (book_of s c)" by (metis bond_eta imageE)
  with None show ?thesis by (simp add: newcomer_ok_def)
next
  case (Some st)
  note q = delegator_partD [OF ok Some]
  have "d \<in> b_owner ` set_mset (book_of s c) \<longleftrightarrow> (\<exists>x. bond d x \<in># book_of s c)"
    by (auto simp: image_iff) (metis bond_eta, force)
  also have "\<dots> \<longleftrightarrow> (\<exists>x. bond c x \<in> set (d_delegations st))"
    using staking_okD(5) [OF ok, of c _ d, unfolded q(7)] by simp
  also have "\<dots> \<longleftrightarrow> c \<in> owners (d_delegations st)"
    by (auto simp: image_iff) (force, metis bond_eta)
  finally have own: "d \<in> b_owner ` set_mset (book_of s c) \<longleftrightarrow> c \<in> owners (d_delegations st)" .
  have "d_total st + a \<le> u128_max"
    using delegator_total_le [OF ok Some] room by (simp add: room_def)
  with Some q own params show ?thesis by (simp add: newcomer_ok_def staking_params_def)
qed

lemma joined_part:
  assumes ok: "staking_ok cfg s" and params: "staking_params cfg" and room: "room s a"
    and can: "can_delegate cfg c d a v h1 h2 h3 (book_of s c) s" and info: "CandidateInfo s c = Some m"
    and st': "DelegatorState s' d = Some (joined c d a s)" and none: "CandidateInfo s' d = None"
  shows "delegator_part cfg s' d" and "bonds_of s' d = insert (bond c a) (bonds_of s d)"
proof -
  have fresh: "c \<notin> owners (d_delegations st)" if "DelegatorState s d = Some st" for st
    using can that by (auto simp: can_delegate_def)
  note new = newcomer_at [OF ok params room, of c d]
  note j = joined_ok [OF new fresh]
  have pos: "0 < a" "MinDelegation cfg \<le> a" using can params by (auto simp: can_delegate_def staking_params_def)
  have "set (d_delegations (joined c d a s)) = insert (bond c a) (bonds_of s d)
      \<and> length (d_delegations (joined c d a s)) \<le> MaxDelegationsPerDelegator cfg"
  proof (cases "DelegatorState s d")
    case None
    have "key_sorted b_owner [bond c a]" by (simp add: key_sorted_def)
    then have "d_delegations (joined c d a s) = [bond c a]"
      using None by (simp add: joined_def delegator_new_def ordered_set_from_id)
    then show ?thesis using None params by (simp add: bonds_of_def staking_params_def)
  next
    case (Some st)
    note q = delegator_partD [OF ok Some]
    have ks: "key_sorted b_owner (d_delegations st)" using q(2) by (simp add: delegator_ok_def)
    have "delegator_add_delegation (bond c a) st = (True, joined c d a s)"
      by (rule joined_ok(6) [OF new _ Some]) (rule fresh)
    then have ds: "d_delegations (joined c d a s) = snd (ordered_set_insert b_owner (bond c a) (d_delegations st))"
      by (auto simp: delegator_add_delegation_def split: prod.splits bool.splits
          dest: arg_cong [where f = d_delegations])
    show ?thesis unfolding ds
      using set_insert_result [OF ks, of "bond c a"] fresh [OF Some] can Some q(7)
      by (simp add: can_delegate_def)
  qed
  note jj = this
  have "\<forall>b \<in> bonds_of s d. 0 < b_amount b \<and> MinDelegation cfg \<le> b_amount b"
    using staking_okD(4) [OF ok, of d] by (auto simp: delegator_part_def bonds_of_def split: option.splits)
  with jj j(2,3) pos st' none show "delegator_part cfg s' d" by (auto simp: delegator_part_def)
  show "bonds_of s' d = insert (bond c a) (bonds_of s d)" using jj st' by (simp add: bonds_of_def)
qed

text \<open>Whom the newcomer kicks out of a full book, if anyone.\<close>

lemma entered_book:
  assumes ok: "staking_ok cfg s" and info: "CandidateInfo s c = Some m"
    and ent: "entered cfg c e (book_of s c) (bond d a) m s m' less' s2"
  obtains K s1 where "reached cfg c e (add_mset (bond d a) (book_of s c - K)) m s1 m' s2"
    and "s1 = (case less' of None \<Rightarrow> s | Some l \<Rightarrow> kicked_out cfg c (the_elem (set_mset K)) s)"
    and "case less' of None \<Rightarrow> K = {#} | Some l \<Rightarrow> \<exists>k. K = {#k#} \<and> k \<in># book_of s c \<and> b_amount k = l \<and> l < a"
proof (cases less')
  case None
  then show ?thesis using ent by (intro that [of "{#}" s]) (auto simp: entered_def)
next
  case (Some l)
  then obtain k where "k \<in># book_of s c" "b_amount k = l" "l < a"
    "reached cfg c e (add_mset (bond d a) (book_of s c - {#k#})) m (kicked_out cfg c k s) m' s2"
    using ent by (auto simp: entered_def)
  then show ?thesis using Some by (intro that [of "{#k#}" "kicked_out cfg c k s"]) auto
qed

lemma kicked_out_eq:
  assumes "DelegatorState s (b_owner k) = Some st"
  shows "kicked_out cfg c k s = s\<lparr>
    DelegatorState := (DelegatorState s)(b_owner k := (if length (d_delegations st) = 1 then None
      else Some ((drop_bond (bond c (b_amount k)) st)\<lparr>d_less_total := d_less_total st
        - request_amount (b_owner k) (DelegationScheduledRequests s c)\<rparr>))),
    DelegationScheduledRequests := (DelegationScheduledRequests s)
      (c := filter (\<lambda>req. sr_delegator req \<noteq> b_owner k) (DelegationScheduledRequests s c)),
    AutoCompoundingDelegations := (AutoCompoundingDelegations s)
      (c := filter (\<lambda>x. ac_delegator x \<noteq> b_owner k) (AutoCompoundingDelegations s c)),
    Events := Events (kicked_out cfg c k s), world := world (kicked_out cfg c k s)\<rparr>"
  using assms by (simp add: kicked_out_def Let_def drop_bond_def)

lemma delegated_ok:
  assumes ok: "staking_ok cfg s" and params: "staking_params cfg" and room: "room s a"
    and can: "can_delegate cfg c d a v h1 h2 h3 (book_of s c) s" and info: "CandidateInfo s c = Some m"
    and delegated: "delegated cfg c d a v (excess_of s c) (book_of s c) m s s'"
  shows "staking_ok cfg s'" and "room s (a + y) \<Longrightarrow> room s' y"
proof -
  let ?B = "book_of s c"
  note p = candidate_partD [OF ok info]
  have fresh: "c \<notin> owners (d_delegations st)" if "DelegatorState s d = Some st" for st
    using can that by (auto simp: can_delegate_def)
  have d_out: "d \<notin> b_owner ` set_mset ?B"
    by (rule joined_ok(1) [OF newcomer_at [OF ok params room, of c d]]) (rule fresh)
  obtain m' pos less' s2 ac where ent: "entered cfg c (excess_of s c) ?B (bond d a) m s m' less' s2"
    and ac: "if v = 0 then ac = AutoCompoundingDelegations s2 c
           else auto_compound_put cfg d v (AutoCompoundingDelegations s2 c) = Some ac"
    and s': "s' = s2\<lparr>world := relock cfg (joined c d a s) (world s2),
             AutoCompoundingDelegations := (AutoCompoundingDelegations s2)(c := ac),
             Total := Total s + (case less' of None \<Rightarrow> a | Some l \<Rightarrow> a - l),
             CandidateInfo := (CandidateInfo s)(c \<mapsto> m'),
             DelegatorState := (DelegatorState s2)(d \<mapsto> joined c d a s),
             Events := Events s2 @ [Delegation d a c pos v]\<rparr>"
    using delegated by (auto simp: delegated_def)
  obtain K s1 where r: "reached cfg c (excess_of s c) (add_mset (bond d a) (?B - K)) m s1 m' s2"
    and s1: "s1 = (case less' of None \<Rightarrow> s | Some l \<Rightarrow> kicked_out cfg c (the_elem (set_mset K)) s)"
    and K: "case less' of None \<Rightarrow> K = {#} | Some l \<Rightarrow> \<exists>k. K = {#k#} \<and> k \<in># ?B \<and> b_amount k = l \<and> l < a"
    by (rule entered_book [OF ok info ent])
  have o: "only_candidate c s1 s2" and sid: "same_identity m m'" using r by (auto simp: reached_def)
  note f = only_candidate_fields [OF o]
  let ?M = "add_mset (bond d a) (?B - K)"
  let ?D = "insert d (b_owner ` set_mset K)"
  have ne: "CandidateInfo s d = None"
    using can delegator_partD(6) [OF ok, of d] by (cases "DelegatorState s d") (auto simp: can_delegate_def)
  then have none: "CandidateInfo s' d = None" using info by (auto simp: s')
  have d_in_K: "d \<notin> b_owner ` set_mset K" using K d_out by (auto split: option.splits)
  have st_d: "DelegatorState s' d = Some (joined c d a s)" by (simp add: s')
  note j = joined_part [OF ok params room can info st_d none]
  have kick: "DelegatorState s (b_owner k) = Some st \<Longrightarrow> b_owner k \<noteq> c" for k st
    using delegator_partD(6) [OF ok, of "b_owner k"] info by auto
  have recorded: "\<exists>st. DelegatorState s (b_owner k) = Some st \<and> bond c (b_amount k) \<in> set (d_delegations st)"
    if "k \<in># ?B" for k
    using staking_okD(5) [OF ok, of c "b_amount k" "b_owner k"] that
    by (auto simp: bonds_of_def split: option.splits)
  have s1_same: "CandidateInfo s1 = CandidateInfo s" "TopDelegations s1 = TopDelegations s"
    "BottomDelegations s1 = BottomDelegations s" "CandidatePool s1 = CandidatePool s"
    by (simp_all add: s1 split: option.split)
  have s1_lists: "DelegationScheduledRequests s1 = (DelegationScheduledRequests s)
      (c := filter (\<lambda>req. sr_delegator req \<notin> b_owner ` set_mset K) (DelegationScheduledRequests s c))
    \<and> AutoCompoundingDelegations s1 = (AutoCompoundingDelegations s)
      (c := filter (\<lambda>x. ac_delegator x \<notin> b_owner ` set_mset K) (AutoCompoundingDelegations s c))"
    using K by (auto simp: s1 kicked_out_def Let_def split: option.splits dest: recorded)
  have s1_others: "DelegatorState s1 d' = DelegatorState s d'" if "d' \<notin> b_owner ` set_mset K" for d'
    using K that by (auto simp: s1 kicked_out_def Let_def split: option.splits)
  have kicked: "delegator_part cfg s' (b_owner k) \<and> bonds_of s' (b_owner k) = {b \<in> bonds_of s (b_owner k). b_owner b \<noteq> c}"
    if "k \<in># K" for k
  proof -
    have k: "k \<in># ?B" "s1 = kicked_out cfg c k s" using K that by (auto simp: s1 split: option.splits)
    obtain st where st: "DelegatorState s (b_owner k) = Some st" "bond c (b_amount k) \<in> set (d_delegations st)"
      using recorded [OF k(1)] by blast
    have "b_owner k \<noteq> d" using d_in_K that by auto
    then have "DelegatorState s' (b_owner k) = DelegatorState s1 (b_owner k)" by (simp add: s' f)
    also have "\<dots> = (if length (d_delegations st) = 1 then None
      else Some ((drop_bond (bond c (b_amount k)) st)\<lparr>d_less_total := d_less_total st
        - request_amount (b_owner k) (DelegationScheduledRequests s c)\<rparr>))"
      unfolding k(2) by (subst kicked_out_eq [OF st(1)]) simp
    finally have st': "DelegatorState s' (b_owner k) = \<dots>" .
    have "CandidateInfo s' (b_owner k) = None"
      using delegator_partD(6) [OF ok st(1)] info by (auto simp: s')
    from drop_part [OF ok st st' this] show ?thesis by simp
  qed
  have sub: "x \<in># ?B - K \<longleftrightarrow> x \<in># ?B \<and> x \<notin># K" for x
  proof (cases less')
    case None
    then show ?thesis using K by simp
  next
    case (Some l)
    then obtain k where k: "K = {#k#}" "k \<in># ?B" using K by auto
    then obtain N where N: "?B = add_mset k N" by (metis mset_add)
    have "k \<notin># N" using one_bond(2) [OF p(1), of "b_owner k" "b_amount k" "b_amount k"] k(2) by (simp add: N)
    then show ?thesis by (auto simp: N k(1))
  qed
  have fits: "request_fits cfg ?M req"
    if "req \<in> set (DelegationScheduledRequests s c)" "sr_delegator req \<notin> b_owner ` set_mset K" for req
  proof -
    have "bond (sr_delegator req) x \<notin># K" for x using that(2) by force
    then show ?thesis using that sub by (intro fits_other [OF p(5)]) auto
  qed
  have owners: "b_owner ` set_mset ?B \<subseteq> b_owner ` set_mset (?B - K) \<union> b_owner ` set_mset K"
    using sub by auto
  have lists2: "key_sorted ac_delegator (AutoCompoundingDelegations s2 c)"
    "ac_delegator ` set (AutoCompoundingDelegations s2 c) \<subseteq> b_owner ` set_mset (?B - K)"
    using p(6,7) s1_lists owners by (auto simp: f key_sorted_filter)
  have autos: "key_sorted ac_delegator ac" "ac_delegator ` set ac \<subseteq> b_owner ` set_mset ?M"
    using ac lists2 put_domain [OF lists2(1), of cfg d v ac] by (auto split: if_splits)
  show ok': "staking_ok cfg s'"
  proof (rule flow_step [OF ok info _ sid, where D = ?D and M = ?M])
    show "stands cfg c (excess_of s c) ?M m' s'" using r by (simp add: reached_def s')
    show "delegator_part cfg s' d'" if "d' \<in> ?D" for d' using j(1) kicked that by auto
    show "b \<in> bonds_of s' d' \<longleftrightarrow> b \<in> bonds_of s d'" if "d' \<in> ?D" "b_owner b \<noteq> c" for d' b
      using j(2) kicked that by auto
    show "bond c a' \<in> bonds_of s' d' \<longleftrightarrow> bond d' a' \<in># ?M" if d': "d' \<in> ?D" for d' a'
    proof (cases "d' = d")
      case True
      have "bond d a' \<notin># ?B" using d_out by force
      moreover have "bond c a' \<notin> bonds_of s d" using staking_okD(5) [OF ok, of c a' d] \<open>bond d a' \<notin># ?B\<close> by simp
      ultimately show ?thesis using True j(2) sub by auto
    next
      case False
      then obtain k where k: "k \<in># K" "d' = b_owner k" using d' by auto
      have kB: "k \<in># ?B" using K k(1) by (auto split: option.splits)
      have "bond (b_owner k) a' \<in># ?B \<Longrightarrow> bond (b_owner k) a' = k"
        using one_bond(1) [OF p(1), of "b_owner k" "b_amount k" a'] kB by simp
      then have "bond (b_owner k) a' \<notin># ?B - K" using sub k(1) by metis
      then show ?thesis using kicked [OF k(1)] False k(2) by auto
    qed
    show "bond d' a' \<in># ?M \<longleftrightarrow> bond d' a' \<in># ?B" if "d' \<notin> ?D" for d' a'
    proof -
      have "bond d' a' \<notin># K" using that by force
      then show ?thesis using that sub by auto
    qed
    show "Total s' \<le> T + sum_mset (image_mset b_amount ?M)"
      if "Total s \<le> T + sum_mset (image_mset b_amount ?B)" for T
    proof (cases less')
      case None
      then show ?thesis using K that by (simp add: s')
    next
      case (Some l)
      then obtain k where k: "K = {#k#}" "k \<in># ?B" "b_amount k = l" "l < a" using K by auto
      then show ?thesis using that Some book_sum [OF k(2)] by (simp add: s')
    qed
    show "requests_ok (DelegationScheduledRequests s' c)"
      using p(4) s1_lists by (simp add: s' f requests_ok_filter)
    show "request_fits cfg ?M req" if "req \<in> set (DelegationScheduledRequests s' c)" for req
      using that fits s1_lists by (auto simp: s' f)
    show "CandidatePool s' = CandidatePool s" if "\<not> is_active m"
      using r that by (simp add: reached_def s' s1_same)
    show "DelegatorState s' d' = DelegatorState s d'" if "d' \<notin> ?D" for d'
      using that s1_others by (simp add: s' f)
  qed (use autos f s1_same s1_lists in \<open>auto simp: s'\<close>)
  have "stands cfg c (excess_of s c) ?M m' s'" using r by (simp add: reached_def s')
  note book = stands_book [OF this]
  have info': "CandidateInfo s' c = Some m'" by (simp add: s')
  have "sum_mset (image_mset b_amount (?B - K)) \<le> sum_mset (image_mset b_amount ?B)"
    by (metis diff_subset_eq_self le_add1 image_mset_union subset_mset.add_diff_inverse sum_mset.union)
  then have "stake_at s' c \<le> stake_at s c + a"
    using sid info' by (simp add: stake_at_def info book same_identity_def)
  moreover have "same_elsewhere c s s'"
    using r s1_lists by (simp add: same_elsewhere_def s' f s1_same reached_def)
  ultimately show "room s' y" if "room s (a + y)"
    using room_step [OF ok ok' _ _ that] book by simp
qed

lemma safe_delegate_inner:
  assumes ok: "staking_ok cfg s" and params: "staking_params cfg" and room: "room s a"
  shows "wp (delegate_with_auto_compound_inner cfg c d a v h1 h2 h3)
    (\<lambda>_ s'. staking_ok cfg s' \<and> (\<forall>y. room s (a + y) \<longrightarrow> room s' y)) (\<lambda>_ _. True) s"
proof (cases "CandidateInfo s c")
  case None
  show ?thesis
    using None by (auto simp: delegate_with_auto_compound_inner_def wp_simps Let_def
        split: option.split prod.split)
next
  case (Some m)
  have locks: "params_ok cfg" "locks_move_nothing cfg" using params by (auto simp: staking_params_def)
  from wp_delegate [OF site_at [OF ok Some] locks newcomer_at [OF ok params room]
      roomD(1) [OF room ok Some] roomD(2) [OF room ok]]
  show ?thesis by (rule wp_mono) (use delegated_ok [OF ok params room _ Some] in blast)+
qed

lemma safe_delegate:
  assumes "staking_ok cfg s" and "staking_params cfg" and "room s a"
  shows "safe_at cfg (delegate_with_auto_compound cfg origin' c a v h1 h2 h3) s"
  unfolding safe_at_def delegate_with_auto_compound_def
  by (cases origin') (auto simp: wp_simps intro: wp_mono [OF safe_delegate_inner [OF assms]])

end
