(* ===== verification/Staking_Invariant.thy ===== *)
theory Staking_Invariant
  imports Delegation_Steps Payouts Moonbeam_Runtime
begin

text \<open>
  The pallet as a transition system: its dispatched calls, its block hooks, and whatever other
  pallets do to their own storage. Every transition keeps the invariant of the whole storage, given
  the contract that the pallet's configured handlers have to meet.
\<close>

section \<open>Programs that leave the staking storage alone\<close>

lemma leaves_transactional [leaves_intro]: "leaves f m \<Longrightarrow> leaves f (transactional m)"
  unfolding leaves_def transactional_def by (auto split: prod.split outcome.split) (metis snd_conv)

lemma leaves_fold [leaves_intro]: "(\<And>a x. leaves f (m a x)) \<Longrightarrow> leaves f (fold_m m a xs)"
  by (induction xs arbitrary: a) (auto intro: leaves_intro)

lemma view_accessors [leaves_intro]:
  "leaves staking_view (err e1)" "leaves staking_view (ensure b e2)" "leaves staking_view (ok_or x e3)"
  "leaves staking_view (deposit_event ev)" "leaves staking_view (on_world f)"
  "leaves staking_view (ensure_monetary_governance cfg o1)" "leaves staking_view (ensure_root o2)"
  "leaves staking_view (put_inflation_config ic)"
  by (cases o2; auto simp: accessor_defs ensure_monetary_governance_def put_inflation_config_def
      staking_view_def intro!: leaves_intro)+

lemma leaves_ok:
  assumes "leaves staking_view m" and "staking_ok cfg s"
  shows "staking_ok cfg (snd (m s))"
proof -
  have "staking_view (snd (m s)) = staking_view s" using assms(1) by (simp add: leaves_def)
  from view_cong(7) [OF this] assms(2) show ?thesis by simp
qed

lemma view_inflation [leaves_intro]:
  "leaves staking_view (checked_quot a b)" "leaves staking_view (rounds_per_year cfg)"
  "leaves staking_view (perbill_annual_to_perbill_round cfg an n)" "leaves staking_view (annual_to_round cfg an)"
  "leaves staking_view (set_round_from_annual cfg an ic)" "leaves staking_view (reset_round cfg n ic)"
  "leaves staking_view (compute_issuance cfg n n')"
  by (simp_all add: checked_quot_def rounds_per_year_def perbill_annual_to_perbill_round_def
      annual_to_round_def set_round_from_annual_def reset_round_def compute_issuance_def Let_def leaves_intro)

lemma view_governance [leaves_intro]:
  "leaves staking_view (set_staking_expectations cfg o' r)"
  "leaves staking_view (set_inflation cfg o' r)"
  "leaves staking_view (set_total_selected cfg o' n)"
  "leaves staking_view (set_collator_commission cfg o' p)"
  "leaves staking_view (set_blocks_per_round cfg o' n)"
  "leaves staking_view (enable_marking_offline o' b)"
  "leaves staking_view (set_inflation_distribution_config cfg o' d)"
  by (simp_all add: set_staking_expectations_def set_inflation_def set_total_selected_def
      set_collator_commission_def set_blocks_per_round_def enable_marking_offline_def
      set_inflation_distribution_config_def Let_def leaves_intro staking_view_def)

lemma view_selection [leaves_intro]:
  "leaves staking_view (get_rewardable_delegators c)" "leaves staking_view (insert_at_stake cfg now c sn)"
  "leaves staking_view (snapshot_collator cfg now ctr c)" "leaves staking_view (repeat_snapshot cfg now ctr en)"
  "leaves staking_view (select_top_candidates cfg now)"
  by (auto simp: get_rewardable_delegators_def insert_at_stake_def snapshot_collator_def
      repeat_snapshot_def select_top_candidates_def Let_def staking_view_def
      intro!: leaves_intro split: prod.split)

lemma view_payouts [leaves_intro]:
  "leaves staking_view (distribute_inflation cfg n left en)" "leaves staking_view (prepare_staking_payouts cfg ri n)"
  "leaves staking_view (drain_at_stake r)" "leaves staking_view (take_awarded_pts r c)"
  "leaves staking_view (award_points_to_block_author cfg)" "leaves staking_view (mark_collators_as_inactive cfg r)"
  "leaves staking_view (cleanup_inactive_collator_info cfg)"
  by (auto simp: distribute_inflation_def prepare_staking_payouts_def drain_at_stake_def take_awarded_pts_def
      award_points_to_block_author_def mark_collators_as_inactive_def cleanup_inactive_collator_info_def
      Let_def staking_view_def intro!: leaves_intro split: prod.split list.split)

section \<open>Compounding\<close>

text \<open>What the documented behaviour of a deposit and of a percentage says of a compounded reward.\<close>

definition reward_laws :: "'w config \<Rightarrow> bool" where
  "reward_laws cfg \<longleftrightarrow>
     (\<forall>a v w i w'. deposit_into_existing cfg a v w = Some (i, w') \<longrightarrow> i \<le> v)
   \<and> (\<forall>p x y. x \<le> y \<longrightarrow> percent_mul_ceil cfg p x \<le> percent_mul_ceil cfg p y)"

lemma room_view: "staking_view t = staking_view s \<Longrightarrow> room t x = room (s :: 'w staking) x"
  for t :: "'w staking"
  using view_cong(5,6) [of t s] by (simp add: room_def)

lemma room_less: "room s x \<Longrightarrow> y \<le> x \<Longrightarrow> room s y"
  by (simp add: room_def)

lemma compound_ok:
  assumes ok: "staking_ok cfg s" and params: "params_ok cfg" and laws: "reward_laws cfg"
    and room: "room s (percent_mul_ceil cfg p v + y)"
  shows "wp (mint_and_compound cfg v p c d) (\<lambda>_ s'. staking_ok cfg s' \<and> room s' y) (\<lambda>_ _. False) s"
proof -
  have sub: "room s y" using room by (rule room_less) simp
  show ?thesis
  proof (cases "deposit_into_existing cfg d v (world s)")
    case None
    then show ?thesis using ok sub by (simp add: mint_and_compound_def wp_simps)
  next
    case (Some r)
    then obtain i w where r: "deposit_into_existing cfg d v (world s) = Some (i, w)" by (cases r) simp
    let ?k = "percent_mul_ceil cfg p i"
    let ?t = "s\<lparr>world := w, Events := Events s @ [Rewarded d i]\<rparr>"
    have view: "staking_view ?t = staking_view s" by (simp add: staking_view_def)
    have "?k \<le> percent_mul_ceil cfg p v" using laws r unfolding reward_laws_def by blast
    then have rm: "room ?t (?k + y)" using room room_view [OF view] by (auto intro: room_less)
    have okt: "staking_ok cfg ?t" using ok by simp
    have small: "room ?t ?k" by (rule room_less [OF rm]) simp
    have more: "wp (delegation_bond_more_without_event cfg d c ?k)
      (\<lambda>_ s'. staking_ok cfg s' \<and> room s' y) (\<lambda>_ s'. s' = ?t) ?t"
      by (rule wp_mono [OF safe_bond_more_without_event [OF okt small params, of d c]]) (use rm in blast)+
    have same: "staking_ok cfg (u\<lparr>Events := ev\<rparr>) \<and> room (u\<lparr>Events := ev\<rparr>) y"
      if "staking_ok cfg u \<and> room u y" for u :: "'a staking" and ev
      using that room_view [of "u\<lparr>Events := ev\<rparr>" u y] by (simp add: staking_view_def)
    have at_t: "staking_ok cfg ?t \<and> room ?t y" using ok sub room_view [OF view, of y] by simp
    have "wp (bind_m (attempt_m (delegation_bond_more_without_event cfg d c ?k))
        (\<lambda>r. case r of Inl e \<Rightarrow> return_m () | Inr _ \<Rightarrow> deposit_event (Compounded d c ?k)))
      (\<lambda>_ s'. staking_ok cfg s' \<and> room s' y) (\<lambda>_ _. False) ?t"
      unfolding wp_bind wp_attempt
      by (rule wp_mono [OF more]) (use same at_t in \<open>simp_all add: wp_simps\<close>)
    with at_t show ?thesis by (simp add: mint_and_compound_def wp_simps r Let_def del: staking_ok_fields)
  qed
qed

section \<open>The payout of a block\<close>

text \<open>What the delegators of a snapshot would compound, and what the payout of the next block would.\<close>

definition compounded :: "'w config \<Rightarrow> Balance \<Rightarrow> Balance \<Rightarrow> BondWithAutoCompound list \<Rightarrow> Balance" where
  "compounded cfg whole amt ds = sum_list (map (\<lambda>b. percent_mul_ceil cfg (bac_auto_compound b)
     (perbill_mul cfg (perbill_from_rational cfg (bac_amount b) whole) amt)) ds)"

definition collator_compounding ::
  "'w config \<Rightarrow> RoundIndex \<Rightarrow> 'w staking \<Rightarrow> DelayedPayout \<Rightarrow> AccountId \<Rightarrow> CollatorSnapshot \<Rightarrow> Balance" where
  "collator_compounding cfg r s info c sn =
     (let pct = perbill_from_rational cfg (AwardedPts s r c) (Points s r) in
      compounded cfg (snap_total sn)
        (perbill_mul cfg pct (dp_total_staking_reward info)
         - perbill_mul cfg pct (perbill_mul cfg (dp_collator_commission info) (dp_round_issuance info)))
        (snap_delegations sn))"

definition due_in_round :: "'w config \<Rightarrow> RoundIndex \<Rightarrow> 'w staking \<Rightarrow> Balance" where
  "due_in_round cfg r s =
     (case DelayedPayouts s r of None \<Rightarrow> 0 | Some info \<Rightarrow>
      (case AtStake s r of [] \<Rightarrow> 0 | (c, sn) # _ \<Rightarrow> collator_compounding cfg r s info c sn))"

definition due_compounding :: "'w config \<Rightarrow> 'w staking \<Rightarrow> Balance" where
  "due_compounding cfg s = due_in_round cfg (r_current (Round s) - RewardPaymentDelay cfg) s"

text \<open>What all collators of a round that are left to be paid would compound.\<close>

definition round_compounding :: "'w config \<Rightarrow> RoundIndex \<Rightarrow> 'w staking \<Rightarrow> Balance" where
  "round_compounding cfg r s =
     (case DelayedPayouts s r of None \<Rightarrow> 0 | Some info \<Rightarrow>
        sum_list (map (\<lambda>(c, sn). collator_compounding cfg r s info c sn) (AtStake s r)))"

text \<open>A program that compounds no more than \<open>x\<close>.\<close>

definition pays_safely :: "'w config \<Rightarrow> Balance \<Rightarrow> ('w, 'a) staking_m \<Rightarrow> 'w staking \<Rightarrow> bool" where
  "pays_safely cfg x m s \<longleftrightarrow> (\<forall>y. staking_ok cfg s \<and> room s (x + y) \<longrightarrow>
     wp m (\<lambda>_ t. staking_ok cfg t \<and> room t y) (\<lambda>_ _. False) s)"

lemma delegators_ok:
  assumes params: "params_ok cfg" and laws: "reward_laws cfg"
  shows "pays_safely cfg (compounded cfg whole amt ds) (for_each_m (pay_delegator cfg c whole amt) ds) s"
  unfolding pays_safely_def
proof (intro allI impI)
  fix y
  let ?I = "\<lambda>ds s. staking_ok cfg s \<and> room s (compounded cfg whole amt ds + y)"
  assume start: "?I ds s"
  have step: "wp (pay_delegator cfg c whole amt b) (\<lambda>_. ?I ds) (\<lambda>_ _. False) t" if "?I (b # ds) t" for b ds t
  proof -
    let ?due = "perbill_mul cfg (perbill_from_rational cfg (bac_amount b) whole) amt"
    have rm: "room t (percent_mul_ceil cfg (bac_auto_compound b) ?due + (compounded cfg whole amt ds + y))"
      using that by (simp add: compounded_def add.assoc)
    then have "room t (compounded cfg whole amt ds + y)" by (rule room_less) simp
    with that compound_ok [OF _ params laws rm] show ?thesis
      by (auto simp: pay_delegator_def wp_simps Let_def)
  qed
  have "wp (for_each_m (pay_delegator cfg c whole amt) ds) (\<lambda>_. ?I []) (\<lambda>_ _. False) s"
    by (rule wp_for_each [where I = ?I, OF start]) (rule step)
  then show "wp (for_each_m (pay_delegator cfg c whole amt) ds) (\<lambda>_ t. staking_ok cfg t \<and> room t y) (\<lambda>_ _. False) s"
    by (rule wp_mono) (auto simp: compounded_def)
qed

text \<open>
  What the pallet relies on its configured handlers for: paying and reporting a reward and rotating
  at a new round return without touching the staking storage; retiring an inactive collator keeps
  the storage in order.
\<close>

definition quiet :: "('w, 'a) staking_m \<Rightarrow> bool" where
  "quiet m \<longleftrightarrow> (\<forall>s. wp m (\<lambda>_ t. staking_view t = staking_view s) (\<lambda>_ _. False) s)"

locale staking_hooks =
  fixes cfg :: "'w config"
  assumes pays: "quiet (payout_collator_reward cfg r c v)"
    and reports: "quiet (on_collator_payout cfg r c v)"
    and rotates: "leaves staking_view (on_new_round cfg r)"
    and retires: "staking_ok cfg s \<Longrightarrow>
      wp (on_inactive_collator cfg c r) (\<lambda>_. staking_ok cfg) (\<lambda>_. staking_ok cfg) s"
begin

lemma after_payout:
  assumes "\<And>t. pays_safely cfg x n t"
  shows "pays_safely cfg x (then_m (payout_collator_reward cfg r c v) (then_m (on_collator_payout cfg r' c' v') n)) s"
  unfolding pays_safely_def
proof (intro allI impI)
  fix y
  assume start: "staking_ok cfg s \<and> room s (x + y)"
  have same: "staking_ok cfg t \<and> room t (x + y)" if "staking_view t = staking_view s" for t :: "'w staking"
    using start that view_cong(7) [OF that, of cfg] room_view [OF that, of "x + y"] by simp
  have two: "wp (on_collator_payout cfg r' c' v') (\<lambda>_ u. staking_view u = staking_view s) (\<lambda>_ _. False) t"
    if "staking_view t = staking_view s" for t :: "'w staking"
  proof -
    from reports have "wp (on_collator_payout cfg r' c' v') (\<lambda>_ u. staking_view u = staking_view t) (\<lambda>_ _. False) t"
      by (simp add: quiet_def)
    then show ?thesis using that by simp
  qed
  have "wp (payout_collator_reward cfg r c v) (\<lambda>_ u. staking_view u = staking_view s) (\<lambda>_ _. False) s"
    using pays by (simp add: quiet_def)
  then show "wp (then_m (payout_collator_reward cfg r c v) (then_m (on_collator_payout cfg r' c' v') n))
      (\<lambda>_ t. staking_ok cfg t \<and> room t y) (\<lambda>_ _. False) s"
    unfolding wp_then
    by (elim wp_mono) (use assms same in \<open>auto simp: pays_safely_def intro: wp_mono [OF two]\<close>)
qed

lemma collator_payout:
  assumes "params_ok cfg" and "reward_laws cfg"
    and amt: "amt = perbill_mul cfg pct (dp_total_staking_reward info) - perbill_mul cfg pct fee"
  shows "pays_safely cfg (compounded cfg (snap_total sn) amt (snap_delegations sn))
    (pay_collator_and_delegators cfg r info fee c sn pct) s"
proof -
  have none: "pays_safely cfg x (return_m ()) t" for x t
    by (auto simp: pays_safely_def wp_simps intro: room_less)
  show ?thesis
  proof (cases "snap_delegations sn = []")
    case True
    have "then_m m n = then_m m (then_m n (return_m ()))" for m n :: "('w, unit) staking_m"
      by (auto simp: then_m_def bind_m_def return_m_def fun_eq_iff split: prod.split outcome.split)
    with True after_payout [OF none] show ?thesis by (simp add: pay_collator_and_delegators_def Let_def)
  next
    case False
    then show ?thesis
      using after_payout [OF delegators_ok [OF assms(1,2)]]
      by (simp add: pay_collator_and_delegators_def Let_def amt)
  qed
qed

lemma handled_payouts:
  assumes "params_ok cfg" and "reward_laws cfg" and ok: "staking_ok cfg s"
    and room: "room s (due_in_round cfg (now - RewardPaymentDelay cfg) s + y)"
  shows "wp (handle_delayed_payouts cfg now) (\<lambda>_ t. staking_ok cfg t \<and> room t y) (\<lambda>_ _. False) s"
proof -
  let ?r = "now - RewardPaymentDelay cfg"
  have fields: "staking_ok cfg (t\<lparr>DelayedPayouts := f\<rparr>) = staking_ok cfg t"
    "staking_ok cfg (t\<lparr>Points := g\<rparr>) = staking_ok cfg t"
    "staking_ok cfg (t\<lparr>AtStake := h\<rparr>) = staking_ok cfg t"
    "staking_ok cfg (t\<lparr>AwardedPts := k\<rparr>) = staking_ok cfg t"
    "room (t\<lparr>DelayedPayouts := f\<rparr>) x = room t x" "room (t\<lparr>Points := g\<rparr>) x = room t x"
    "room (t\<lparr>AtStake := h\<rparr>) x = room t x" "room (t\<lparr>AwardedPts := k\<rparr>) x = room t x"
    for t :: "'w staking" and f g h k x
    by (intro view_cong room_view; simp add: staking_view_def)+
  have small: "room s y" using room by (rule room_less) simp
  show ?thesis
  proof (cases "now < RewardPaymentDelay cfg \<or> DelayedPayouts s ?r = None \<or> Points s ?r = 0 \<or> AtStake s ?r = []")
    case True
    then show ?thesis using ok small
      by (auto simp: handle_delayed_payouts_def pay_one_collator_reward_def drain_at_stake_def wp_simps
          Let_def fields split: option.split)
  next
    case False
    then obtain info c sn es where info: "DelayedPayouts s ?r = Some info" and es: "AtStake s ?r = (c, sn) # es"
      by (cases "AtStake s ?r") auto
    let ?pct = "perbill_from_rational cfg (AwardedPts s ?r c) (Points s ?r)"
    let ?fee = "perbill_mul cfg (dp_collator_commission info) (dp_round_issuance info)"
    let ?t = "s\<lparr>AtStake := (AtStake s)(?r := es),
      AwardedPts := (AwardedPts s)(?r := (AwardedPts s ?r)(c := 0))\<rparr>"
    have "due_in_round cfg ?r s = compounded cfg (snap_total sn)
        (perbill_mul cfg ?pct (dp_total_staking_reward info) - perbill_mul cfg ?pct ?fee) (snap_delegations sn)"
      by (simp add: due_in_round_def collator_compounding_def info es Let_def)
    with room have "room ?t (compounded cfg (snap_total sn)
        (perbill_mul cfg ?pct (dp_total_staking_reward info) - perbill_mul cfg ?pct ?fee) (snap_delegations sn) + y)"
      by (simp add: fields)
    then have paid: "wp (pay_collator_and_delegators cfg ?r info ?fee c sn ?pct)
        (\<lambda>_ t. staking_ok cfg t \<and> room t y) (\<lambda>_ _. False) ?t"
      using collator_payout [OF assms(1,2) refl, of sn ?pct info ?fee ?r c ?t] ok
      by (simp add: pays_safely_def fields)
    with False show ?thesis using ok small
      by (auto simp: handle_delayed_payouts_def pay_one_collator_reward_def drain_at_stake_def
          take_awarded_pts_def wp_simps Let_def info es fields intro!: wp_mono [OF paid])
  qed
qed

lemma initialized:
  assumes "params_ok cfg" and "reward_laws cfg" and ok: "staking_ok cfg s"
    and room: "room s (due_compounding cfg s)"
  shows "staking_ok cfg (snd (on_initialize cfg n s))"
proof (cases "should_update n (Round s)")
  case True
  have "leaves staking_view (then_m (on_new_round cfg (r_current r)) (then_m (prepare_staking_payouts cfg r d)
      (bind_m (select_top_candidates cfg (r_current r)) (\<lambda>(collator_count, _, total_staked).
        then_m (modify_m (\<lambda>s. s\<lparr>Round := r\<rparr>))
       (then_m (deposit_event (NewRound (r_first r) (r_current r) collator_count total_staked))
         (mark_collators_as_inactive cfg (r_current r)))))))" for r d
    by (auto intro!: leaves_intro rotates simp: staking_view_def split: prod.split)
  from leaves_ok [OF this ok] show ?thesis
    using True by (simp add: on_initialize_def bind_m_def gets_m_def Let_def)
next
  case False
  have "on_initialize cfg n s = handle_delayed_payouts cfg (r_current (Round s)) s"
    using False by (simp add: on_initialize_def bind_m_def gets_m_def)
  with wp_total [OF handled_payouts [OF assms(1-3), of _ 0]] room show ?thesis
    by (fastforce simp: due_compounding_def)
qed

lemma notified:
  assumes "staking_ok cfg s"
  shows "safe_at cfg (notify_inactive_collator cfg origin' c) s"
  using assms unfolding safe_at_def notify_inactive_collator_def
  by (cases origin') (auto simp: wp_simps Let_def intro: wp_mono [OF retires])

end

lemma finalized:
  assumes "staking_ok cfg s"
  shows "staking_ok cfg (snd (on_finalize cfg s))"
  by (rule leaves_ok [OF _ assms]) (simp add: on_finalize_def leaves_intro)

section \<open>The Moonbeam runtime meets the contract\<close>

interpretation moonbeam: staking_hooks "moonbeam_config base parts" for base parts
proof
  fix s :: "'a orbiters_state staking" and r c v
  let ?cfg = "moonbeam_config base parts"
  show "quiet (payout_collator_reward ?cfg r c v)"
    unfolding quiet_def wp_iff moonbeam_payout_run
    by (auto simp: staking_view_def Let_def split: option.split)
  show "quiet (on_collator_payout ?cfg r c v)"
    by (simp add: quiet_def on_collator_payout_unit_def wp_simps)
  show "leaves staking_view (on_new_round ?cfg r)"
    by (auto simp: moonbeam_on_new_round_def on_orbiters_def leaves_def staking_view_def
        split: prod.split outcome.split)
  show "wp (on_inactive_collator ?cfg c r) (\<lambda>_. staking_ok ?cfg) (\<lambda>_. staking_ok ?cfg) s"
    if "staking_ok ?cfg s"
    using that by (auto simp: moonbeam_on_inactive_collator_def wp_simps
        intro: wp_mono [OF safe_go_offline [OF that]])
qed

end
