(* ===== verification/Staking_Runs.thy ===== *)
theory Staking_Runs
  imports Staking_Invariant
begin

text \<open>
  The staking pallet from genesis on: its dispatched calls as a datatype, its block hooks, and
  every state they lead to. Each such state is in order.
\<close>

section \<open>The dispatched calls\<close>

datatype staking_call =
    Call_set_staking_expectations Range
  | Call_set_inflation Range
  | Call_set_total_selected nat
  | Call_set_collator_commission Perbill
  | Call_set_blocks_per_round nat
  | Call_join_candidates Balance nat
  | Call_schedule_leave_candidates nat
  | Call_execute_leave_candidates AccountId nat
  | Call_cancel_leave_candidates nat
  | Call_go_offline
  | Call_go_online
  | Call_candidate_bond_more Balance
  | Call_schedule_candidate_bond_less Balance
  | Call_execute_candidate_bond_less AccountId
  | Call_cancel_candidate_bond_less
  | Call_delegate_with_auto_compound AccountId Balance Percent nat nat nat
  | Call_schedule_revoke_delegation AccountId
  | Call_delegator_bond_more AccountId Balance
  | Call_schedule_delegator_bond_less AccountId Balance
  | Call_execute_delegation_request AccountId AccountId
  | Call_cancel_delegation_request AccountId
  | Call_set_auto_compound AccountId Percent nat nat
  | Call_notify_inactive_collator AccountId
  | Call_enable_marking_offline bool
  | Call_force_join_candidates AccountId Balance nat
  | Call_set_inflation_distribution_config InflationDistributionConfig

fun staking_dispatch :: "'w config \<Rightarrow> origin \<Rightarrow> staking_call \<Rightarrow> ('w, unit) staking_m" where
  "staking_dispatch cfg o' (Call_set_staking_expectations r) = set_staking_expectations cfg o' r"
| "staking_dispatch cfg o' (Call_set_inflation r) = set_inflation cfg o' r"
| "staking_dispatch cfg o' (Call_set_total_selected n) = set_total_selected cfg o' n"
| "staking_dispatch cfg o' (Call_set_collator_commission p) = set_collator_commission cfg o' p"
| "staking_dispatch cfg o' (Call_set_blocks_per_round n) = set_blocks_per_round cfg o' n"
| "staking_dispatch cfg o' (Call_join_candidates x n) = join_candidates cfg o' x n"
| "staking_dispatch cfg o' (Call_schedule_leave_candidates n) = schedule_leave_candidates cfg o' n"
| "staking_dispatch cfg o' (Call_execute_leave_candidates c n) = execute_leave_candidates cfg o' c n"
| "staking_dispatch cfg o' (Call_cancel_leave_candidates n) = cancel_leave_candidates cfg o' n"
| "staking_dispatch cfg o' Call_go_offline = go_offline_call o'"
| "staking_dispatch cfg o' Call_go_online = go_online_call cfg o'"
| "staking_dispatch cfg o' (Call_candidate_bond_more x) = candidate_bond_more cfg o' x"
| "staking_dispatch cfg o' (Call_schedule_candidate_bond_less x) = schedule_candidate_bond_less cfg o' x"
| "staking_dispatch cfg o' (Call_execute_candidate_bond_less c) = execute_candidate_bond_less cfg o' c"
| "staking_dispatch cfg o' Call_cancel_candidate_bond_less = cancel_candidate_bond_less o'"
| "staking_dispatch cfg o' (Call_delegate_with_auto_compound c a v h1 h2 h3) =
     delegate_with_auto_compound cfg o' c a v h1 h2 h3"
| "staking_dispatch cfg o' (Call_schedule_revoke_delegation c) = schedule_revoke_delegation cfg o' c"
| "staking_dispatch cfg o' (Call_delegator_bond_more c x) = delegator_bond_more cfg o' c x"
| "staking_dispatch cfg o' (Call_schedule_delegator_bond_less c x) = schedule_delegator_bond_less cfg o' c x"
| "staking_dispatch cfg o' (Call_execute_delegation_request d c) = execute_delegation_request cfg o' d c"
| "staking_dispatch cfg o' (Call_cancel_delegation_request c) = cancel_delegation_request o' c"
| "staking_dispatch cfg o' (Call_set_auto_compound c v h1 h2) = set_auto_compound cfg o' c v h1 h2"
| "staking_dispatch cfg o' (Call_notify_inactive_collator c) = notify_inactive_collator cfg o' c"
| "staking_dispatch cfg o' (Call_enable_marking_offline b) = enable_marking_offline o' b"
| "staking_dispatch cfg o' (Call_force_join_candidates c x n) = force_join_candidates cfg o' c x n"
| "staking_dispatch cfg o' (Call_set_inflation_distribution_config d) =
     set_inflation_distribution_config cfg o' d"

text \<open>What a call adds to the stakes when it succeeds, at most, and which calls set parameters only.\<close>

fun commits :: "staking_call \<Rightarrow> Balance" where
  "commits (Call_join_candidates x n) = x"
| "commits (Call_force_join_candidates c x n) = x"
| "commits (Call_candidate_bond_more x) = x"
| "commits (Call_delegate_with_auto_compound c a v h1 h2 h3) = a"
| "commits (Call_delegator_bond_more c x) = x"
| "commits _ = 0"

fun governs :: "staking_call \<Rightarrow> bool" where
  "governs (Call_set_staking_expectations r) = True"
| "governs (Call_set_inflation r) = True"
| "governs (Call_set_total_selected n) = True"
| "governs (Call_set_collator_commission p) = True"
| "governs (Call_set_blocks_per_round n) = True"
| "governs (Call_enable_marking_offline b) = True"
| "governs (Call_set_inflation_distribution_config d) = True"
| "governs _ = False"

section \<open>Every call keeps the invariant\<close>

context staking_hooks
begin

lemma dispatched:
  assumes "staking_ok cfg s" and "staking_params cfg" and "room s (commits call)" and "\<not> governs call"
  shows "safe_at cfg (staking_dispatch cfg o' call) s"
proof -
  have "params_ok cfg" "MaxCandidates cfg \<le> u32_max" using assms(2) by (auto simp: staking_params_def)
  with assms show ?thesis
    by (cases call) (simp_all add: safe_join safe_schedule_leave safe_execute_leave safe_cancel_leave
        safe_go_offline_call safe_go_online_call safe_bond_more safe_schedule_bond_less
        safe_execute_bond_less safe_cancel_bond_less safe_delegate safe_schedule_revoke
        safe_delegator_bond_more safe_schedule_decrease safe_execute_request safe_cancel_request
        safe_set_auto_compound notified)
qed

end

lemma governed: "governs call \<Longrightarrow> leaves staking_view (staking_dispatch cfg o' call)"
  by (cases call) (simp_all add: view_governance)

text \<open>A call that fails, or panics, is undone.\<close>

lemma dispatch_transactional: "\<exists>m. staking_dispatch cfg o' call = transactional m"
  by (cases call) (auto simp: set_staking_expectations_def set_inflation_def set_total_selected_def
      set_collator_commission_def set_blocks_per_round_def join_candidates_def schedule_leave_candidates_def
      execute_leave_candidates_def cancel_leave_candidates_def go_offline_call_def go_online_call_def
      candidate_bond_more_def schedule_candidate_bond_less_def execute_candidate_bond_less_def
      cancel_candidate_bond_less_def delegate_with_auto_compound_def schedule_revoke_delegation_def
      delegator_bond_more_def schedule_delegator_bond_less_def execute_delegation_request_def
      cancel_delegation_request_def set_auto_compound_def notify_inactive_collator_def
      enable_marking_offline_def force_join_candidates_def set_inflation_distribution_config_def)

lemma transactional_keeps:
  assumes "P s" and "\<And>x t. transactional m s = (Ok x, t) \<Longrightarrow> P t"
  shows "P (snd (transactional m s))"
  using assms by (cases "m s"; cases "fst (m s)") (auto simp: transactional_def)

lemma dispatch_keeps:
  assumes "P s" and "\<And>x t. staking_dispatch cfg o' call s = (Ok x, t) \<Longrightarrow> P t"
  shows "P (snd (staking_dispatch cfg o' call s))"
proof -
  obtain m where "staking_dispatch cfg o' call = transactional m" using dispatch_transactional by blast
  then show ?thesis using transactional_keeps [of P s m] assms by simp
qed

section \<open>Genesis\<close>

lemma bind_OkE:
  assumes "bind_m m f s = (Ok y, t)"
  obtains x u where "m s = (Ok x, u)" and "f x u = (Ok y, t)"
  using assms by (auto simp: bind_m_def split: prod.splits outcome.splits)

lemma then_OkE:
  assumes "then_m m n s = (Ok y, t)"
  obtains x u where "m s = (Ok x, u)" and "n u = (Ok y, t)"
  using assms by (auto simp: then_m_def elim: bind_OkE)

lemma fold_m_Ok:
  assumes "fold_m f a xs s = (Ok b, t)" and "I xs s"
    and "\<And>a x xs s b t. I (x # xs) s \<Longrightarrow> f a x s = (Ok b, t) \<Longrightarrow> I xs t"
  shows "I [] t"
  using assms(1,2)
proof (induction xs arbitrary: a s)
  case Nil
  then show ?case by (simp add: return_m_def)
next
  case (Cons x xs)
  from Cons.prems(1) obtain a' u where u: "f a x s = (Ok a', u)" "fold_m f a' xs u = (Ok b, t)"
    by (auto elim: bind_OkE)
  show ?case by (rule Cons.IH [OF u(2) assms(3) [OF Cons.prems(2) u(1)]])
qed

definition no_stakers :: "'w staking \<Rightarrow> bool" where
  "no_stakers s \<longleftrightarrow> CandidateInfo s = Map.empty \<and> DelegatorState s = Map.empty
     \<and> TopDelegations s = Map.empty \<and> BottomDelegations s = Map.empty
     \<and> DelegationScheduledRequests s = (\<lambda>_. []) \<and> AutoCompoundingDelegations s = (\<lambda>_. [])
     \<and> CandidatePool s = [] \<and> Total s = 0"

definition genesis_stakes :: "GenesisConfig \<Rightarrow> Balance" where
  "genesis_stakes g = sum_list (map snd (g_candidates g))
     + sum_list (map (\<lambda>(_, _, x, _). x) (g_delegations g))"

lemma no_stakers_ok:
  assumes "no_stakers s"
  shows "staking_ok cfg s" and "room s x \<longleftrightarrow> x \<le> u128_max"
  using assms by (auto simp: no_stakers_def staking_ok_def candidate_part_def delegator_part_def
      pool_entry_def pool_lookup_def pool_ok_def key_sorted_def bonds_of_def book_of_def staked_def
      excesses_def room_def)

lemma joined_at_genesis:
  assumes params: "staking_params cfg" and "genesis_candidate cfg n cx s = (Ok n', t)"
    and "staking_ok cfg s \<and> room s (snd cx + y)"
  shows "staking_ok cfg t \<and> room t y"
proof -
  obtain c x where cx: "cx = (c, x)" by (cases cx)
  have ok: "staking_ok cfg s" and rm: "room s (x + y)" using assms(3) by (simp_all add: cx)
  have sub: "room s x" "room s y" by (rule room_less [OF rm], simp)+
  have "params_ok cfg" "MaxCandidates cfg \<le> u32_max" using params by (auto simp: staking_params_def)
  note join = safe_join_inner [OF ok sub(1) this]
  have "wp (bind_m (attempt_m (join_candidates cfg (Signed c) x n)) (\<lambda>r. case r of
      Inl _ \<Rightarrow> return_m n | Inr _ \<Rightarrow> return_m (sat_add_u32 n 1)))
    (\<lambda>_ t. staking_ok cfg t \<and> room t y) (\<lambda>_ _. False) s"
    using ok rm sub by (auto simp: join_candidates_def wp_simps intro!: wp_mono [OF join])
  then show ?thesis
    by (rule wp_OkD [of _ "\<lambda>_ t. staking_ok cfg t \<and> room t y"])
      (use assms(2) in \<open>auto simp: genesis_candidate_def cx assert_m_def prog_defs split: if_splits\<close>)
qed

lemma delegated_at_genesis:
  assumes params: "staking_params cfg" and "genesis_delegation cfg n e s = (Ok n', t)"
    and "staking_ok cfg s \<and> room s ((case e of (_, _, x, _) \<Rightarrow> x) + y)"
  shows "staking_ok cfg t \<and> room t y"
proof -
  obtain d c x v where e: "e = (d, c, x, v)" by (cases e)
  obtain k1 k2 k3 where n: "n = (k1, k2, k3)" by (cases n)
  have ok: "staking_ok cfg s" and rm: "room s (x + y)" using assms(3) by (simp_all add: e)
  have sub: "room s x" "room s y" by (rule room_less [OF rm], simp)+
  note join = safe_delegate_inner [OF ok params sub(1)]
  have "wp (bind_m (attempt_m (delegate_with_auto_compound cfg (Signed d) c x v (counter k1 c)
      (counter k2 c) (counter k3 d))) (\<lambda>r. case r of Inl _ \<Rightarrow> return_m (k1, k2, k3)
      | Inr _ \<Rightarrow> return_m (count_up k1 c, (if v \<noteq> 0 then count_up k2 c else k2), count_up k3 d)))
    (\<lambda>_ t. staking_ok cfg t \<and> room t y) (\<lambda>_ _. False) s"
    using ok rm sub by (auto simp: delegate_with_auto_compound_def wp_simps intro!: wp_mono [OF join])
  then show ?thesis
    by (rule wp_OkD [of _ "\<lambda>_ t. staking_ok cfg t \<and> room t y"])
      (use assms(2) in \<open>auto simp: genesis_delegation_def e n assert_m_def prog_defs split: if_splits\<close>)
qed

lemma genesis_runs:
  assumes "then_m (assert_m b) (then_m (put_inflation_config ic)
    (bind_m m (\<lambda>_. bind_m n (\<lambda>_. tail)))) s = (Ok (), t)"
  obtains x u y v where "m (s\<lparr>InflationConfig := ic\<rparr>) = (Ok x, u)" and "n u = (Ok y, v)"
    and "tail v = (Ok (), t)"
  using assms by (auto elim!: bind_OkE then_OkE simp: assert_m_def put_inflation_config_def
      modify_m_def return_m_def panic_m_def split: if_splits)

lemma genesis_built:
  assumes params: "staking_params cfg" and start: "no_stakers s" and fits: "genesis_stakes g \<le> u128_max"
    and build: "genesis_build cfg g s = (Ok (), t)"
  shows "staking_ok cfg t"
proof -
  let ?C = "g_candidates g" and ?D = "g_delegations g" and ?amount = "\<lambda>(_ :: AccountId, _ :: AccountId, x :: Balance, _ :: Percent). x"
  let ?J = "\<lambda>(xs :: (AccountId \<times> Balance) list) s. staking_ok cfg s \<and> room s (sum_list (map snd xs) + sum_list (map ?amount ?D))"
  let ?K = "\<lambda>ds s. staking_ok cfg s \<and> room s (sum_list (map ?amount ds))"
  let ?s = "s\<lparr>InflationConfig := g_inflation_config g\<rparr>"
  let ?tail = "then_m (modify_m (\<lambda>s. s\<lparr>CollatorCommission := g_collator_commission g\<rparr>))
     (let pbr = \<lparr>ida_account = zero_account, ida_percent = g_parachain_bond_reserve_percent g\<rparr>;
          zeroed_account = \<lparr>ida_account = zero_account, ida_percent = 0\<rparr>
      in then_m (modify_m (\<lambda>s. s\<lparr>InflationDistributionInfo :=
                   InflationDistributionConfig pbr zeroed_account\<rparr>))
     (then_m (assert_m (g_num_selected_candidates g \<ge> MinSelectedCandidates cfg))
     (then_m (assert_m (g_num_selected_candidates g \<le> MaxCandidates cfg))
     (then_m (modify_m (\<lambda>s. s\<lparr>TotalSelected := g_num_selected_candidates g\<rparr>))
     (bind_m (select_top_candidates cfg 1) (\<lambda>(v_count, _, total_staked).
     then_m (modify_m (\<lambda>s. s\<lparr>Round := round_new 1 0 (g_blocks_per_round g) 0\<rparr>))
       (deposit_event (NewRound 0 1 v_count total_staked))))))))"
  obtain n u k v where joins: "fold_m (genesis_candidate cfg) 0 ?C ?s = (Ok n, u)"
    and delegates: "fold_m (genesis_delegation cfg) (Map.empty, Map.empty, Map.empty) ?D u = (Ok k, v)"
    and tail: "?tail v = (Ok (), t)"
    using build unfolding genesis_build_def by (rule genesis_runs)
  have "no_stakers ?s" using start by (simp add: no_stakers_def)
  note fresh = no_stakers_ok [OF this]
  have "?J ?C ?s" using fresh fits by (simp add: genesis_stakes_def)
  then have "?J [] u"
    by (rule fold_m_Ok [where I = ?J, OF joins]) (rule joined_at_genesis [OF params], auto simp: add.assoc)
  then have "?K ?D u" by simp
  then have "?K [] v"
    by (rule fold_m_Ok [where I = ?K, OF delegates]) (rule delegated_at_genesis [OF params], auto)
  moreover have "leaves staking_view ?tail"
    by (auto intro!: leaves_intro simp: assert_m_def Let_def staking_view_def split: prod.split)
  ultimately show ?thesis using leaves_ok [of ?tail cfg v] tail by simp
qed

section \<open>Reachable states\<close>

inductive staking_reachable :: "'w config \<Rightarrow> 'w staking \<Rightarrow> bool" for cfg where
  built: "no_stakers s \<Longrightarrow> genesis_stakes g \<le> u128_max \<Longrightarrow> genesis_build cfg g s = (Ok (), t)
    \<Longrightarrow> staking_reachable cfg t"
| called: "staking_reachable cfg s \<Longrightarrow> room s (commits call)
    \<Longrightarrow> staking_reachable cfg (snd (staking_dispatch cfg o' call s))"
| began: "staking_reachable cfg s \<Longrightarrow> room s (due_compounding cfg s)
    \<Longrightarrow> staking_reachable cfg (snd (on_initialize cfg n s))"
| ended: "staking_reachable cfg s \<Longrightarrow> staking_reachable cfg (snd (on_finalize cfg s))"
| elsewhere: "staking_reachable cfg s \<Longrightarrow> staking_reachable cfg (s\<lparr>world := w\<rparr>)"

context staking_hooks
begin

lemma dispatched_ok:
  assumes "staking_ok cfg s" and "staking_params cfg" and "room s (commits call)"
  shows "staking_ok cfg (snd (staking_dispatch cfg o' call s))"
proof (cases "governs call")
  case True
  show ?thesis by (rule leaves_ok [OF governed [OF True] assms(1)])
next
  case False
  have "wp (staking_dispatch cfg o' call) (\<lambda>_. staking_ok cfg) (\<lambda>_ _. True) s"
    using dispatched [OF assms False] by (simp add: safe_at_def)
  note result = wp_OkD [OF this]
  show ?thesis by (rule dispatch_keeps [where P = "staking_ok cfg", OF assms(1)]) (rule result)
qed

lemma reachable_in_order:
  assumes "staking_reachable cfg s" and "staking_params cfg" and "reward_laws cfg"
  shows "staking_ok cfg s"
proof -
  have "params_ok cfg" using assms(2) by (simp add: staking_params_def)
  show ?thesis
    using assms(1)
  proof induction
    case (built s g t)
    then show ?case by (rule genesis_built [OF assms(2)])
  next
    case (called s call o')
    then show ?case by (intro dispatched_ok assms(2))
  next
    case (began s n)
    then show ?case by (intro initialized assms(3) \<open>params_ok cfg\<close>)
  next
    case (ended s)
    then show ?case by (intro finalized)
  qed simp
qed

end

end
