(* ===== verification/Invariant_Properties.thy ===== *)
theory Invariant_Properties
  imports Staking_Runs Flow_Properties Payout_Properties
begin

text \<open>
  What holds of the staking pallet's whole storage in every state the runtime can reach: the
  candidates' books, the delegators' records, the requests, the pool and the total agree; calls do
  not panic, payouts do not fail, and whoever may have a stake back gets it.
\<close>

section \<open>The contract of the runtime's configuration\<close>

lemma moonbeam_laws:
  "locks_move_nothing base \<Longrightarrow> staking_params (moonbeam_config base parts)"
  "reward_laws base \<Longrightarrow> reward_laws (moonbeam_config base parts)"
  by (auto simp: staking_params_def params_ok_def locks_move_nothing_def moonbeam_config_def
      moonbeam_base_def params.defs moonbeam_params_def in_orb_def u32_max_def reward_laws_def
      GLMR_def MILLIGLMR_def SUPPLY_FACTOR_def Let_def)

section \<open>A chain with one candidate and one delegator\<close>

definition rich_base :: "orb_ledger config" where
  "rich_base = minting_base\<lparr>free_balance := \<lambda>w a. 10 ^ 30\<rparr>"

lemma rich_base_laws: "locks_move_nothing rich_base" "reward_laws rich_base"
  by (auto simp: locks_move_nothing_def reward_laws_def rich_base_def minting_base_simps
      minting_base_def params.defs intro!: div_le_mono)

abbreviation rich_cfg :: "orb_ledger orbiters_state config" where
  "rich_cfg \<equiv> moonbeam_config rich_base sample_parts"

definition chain_start :: "orb_ledger orbiters_state staking" where
  "chain_start = snd (genesis_build rich_cfg (genesis_default rich_cfg) runtime_state)"

definition chain_joined :: "orb_ledger orbiters_state staking" where
  "chain_joined = snd (staking_dispatch rich_cfg (Signed 7)
     (Call_join_candidates (10 ^ 24) 0) chain_start)"

definition chain_delegated :: "orb_ledger orbiters_state staking" where
  "chain_delegated = snd (staking_dispatch rich_cfg (Signed 21)
     (Call_delegate_with_auto_compound 7 (10 ^ 21) 50 0 0 0) chain_joined)"

lemma rich_cfg_simps:
  "MaxCandidates rich_cfg = 200" "MinSelectedCandidates rich_cfg = 8"
  "MinCandidateStk rich_cfg = 5000 * GLMR * SUPPLY_FACTOR"
  "MinDelegation rich_cfg = 500 * MILLIGLMR * SUPPLY_FACTOR"
  "free_balance rich_cfg w a = 10 ^ 30"  "reserved_balance rich_cfg w a = 0"
  "MaxTopDelegationsPerCandidate rich_cfg = 300" "MaxBottomDelegationsPerCandidate rich_cfg = 50"
  "MaxDelegationsPerDelegator rich_cfg = 100"
  "set_lock rich_cfg l a v w = w"
  by (simp_all add: moonbeam_config_def moonbeam_base_def params.defs moonbeam_params_def Let_def
      rich_base_def minting_base_def in_orb_def)

lemma chain_start_built:
  "genesis_build rich_cfg (genesis_default rich_cfg) runtime_state = (Ok (), chain_start)"
  and chain_start_fields: "CandidatePool chain_start = []" "CandidateInfo chain_start = Map.empty"
  "DelegatorState chain_start = Map.empty"
  by (simp_all add: chain_start_def genesis_build_def genesis_default_def assert_m_def put_inflation_config_def
      rich_cfg_simps select_top_candidates_def compute_top_candidates_def runtime_state_def prog_defs
      collect_map_def accessor_defs Let_def)

lemma no_stakers_runtime: "no_stakers runtime_state"
  by (simp add: no_stakers_def runtime_state_def)

lemma chain_start_reachable: "staking_reachable rich_cfg chain_start"
  by (rule built [OF no_stakers_runtime _ chain_start_built])
    (simp add: genesis_stakes_def genesis_default_def)

lemma rich_ok: "staking_reachable rich_cfg s \<Longrightarrow> staking_ok rich_cfg s"
  by (rule moonbeam.reachable_in_order [OF _ moonbeam_laws(1) [OF rich_base_laws(1)] moonbeam_laws(2) [OF rich_base_laws(2)]])

lemma chain_joined_eq: "chain_joined = has_joined rich_cfg 7 (10 ^ 24) chain_start"
proof -
  have "can_join rich_cfg 7 (10 ^ 24) 0 chain_start"
    by (simp add: can_join_def chain_start_fields rich_cfg_simps GLMR_def SUPPLY_FACTOR_def)
  moreover have "pool_ok rich_cfg (CandidatePool chain_start)" "MaxCandidates rich_cfg \<le> u32_max"
    by (simp_all add: chain_start_fields pool_ok_def key_sorted_def rich_cfg_simps u32_max_def)
  from wp_join [OF this, of 7 "10 ^ 24" 0]
  have "join_candidates rich_cfg (Signed 7) (10 ^ 24) 0 chain_start = (Ok (), has_joined rich_cfg 7 (10 ^ 24) chain_start)"
    using calculation by (auto simp: wp_iff)
  then show ?thesis by (simp add: chain_joined_def)
qed

lemma chain_start_room: "room chain_start x \<longleftrightarrow> x \<le> u128_max"
  by (simp add: room_def staked_def excesses_def chain_start_fields)

lemma chain_joined_room: "room chain_joined (10 ^ 21)"
proof -
  have "excess_of chain_joined 7 = 0" "stake_at chain_joined 7 = 10 ^ 24" "dom (CandidateInfo chain_joined) = {7}"
    by (auto simp: chain_joined_eq has_joined_def excess_of_def stake_at_def book_of_def
        delegations_default_def candidate_new_def chain_start_fields)
  then show ?thesis by (simp add: room_def staked_def excesses_def u128_max_def)
qed

lemma chain_reachable: "staking_reachable rich_cfg chain_joined" "staking_reachable rich_cfg chain_delegated"
proof -
  show "staking_reachable rich_cfg chain_joined"
    unfolding chain_joined_def
    by (rule called [OF chain_start_reachable]) (simp add: chain_start_room u128_max_def)
  then show "staking_reachable rich_cfg chain_delegated"
    unfolding chain_delegated_def by (rule called) (use chain_joined_room in simp)
qed

lemma chain_joined_info: "CandidateInfo chain_joined 7 = Some (candidate_new (10 ^ 24))"
  "DelegatorState chain_joined = Map.empty" "CandidateInfo chain_joined 21 = None"
  by (simp_all add: chain_joined_eq has_joined_def chain_start_fields)

lemma chain_delegated_bond: "bond 21 (10 ^ 21) \<in># book_of chain_delegated 7"
proof -
  let ?cfg = rich_cfg and ?s = chain_joined
  note ok = rich_ok [OF chain_reachable(1)]
  have params: "staking_params ?cfg" by (rule moonbeam_laws(1) [OF rich_base_laws(1)])
  then have locks: "params_ok ?cfg" "locks_move_nothing ?cfg" by (auto simp: staking_params_def)
  have M: "book_of ?s 7 = {#}"
    by (simp add: chain_joined_eq has_joined_def book_of_def delegations_default_def)
  have "AutoCompoundingDelegations ?s 7 = []"
    using candidate_partD(7) [OF ok chain_joined_info(1)] by (simp add: M)
  then have can: "can_delegate ?cfg 7 21 (10 ^ 21) 50 0 0 0 (book_of ?s 7) ?s"
    by (simp add: can_delegate_def M chain_joined_info rich_cfg_simps get_delegator_stakable_balance_def
        GLMR_def MILLIGLMR_def SUPPLY_FACTOR_def book_capacity_def candidate_new_def
        sat_add_u128_def u128_max_def)
  from wp_delegate [OF site_at [OF ok chain_joined_info(1)] locks
      newcomer_at [OF ok params chain_joined_room] roomD(1) [OF chain_joined_room ok chain_joined_info(1)]
      roomD(2) [OF chain_joined_room ok], of 21 50 0 0 0]
  obtain s' where run: "delegate_with_auto_compound_inner ?cfg 7 21 (10 ^ 21) 50 0 0 0 ?s = (Ok (), s')"
    and d: "delegated ?cfg 7 21 (10 ^ 21) 50 (excess_of ?s 7) (book_of ?s 7) (candidate_new (10 ^ 24)) ?s s'"
    using can by (auto simp: wp_iff)
  have "chain_delegated = s'"
    using run by (simp add: chain_delegated_def delegate_with_auto_compound_def prog_defs accessor_defs)
  moreover have "DelegatorState s' 21 = Some (joined 7 21 (10 ^ 21) ?s)" using d by (auto simp: delegated_def)
  ultimately have "bond 7 (10 ^ 21) \<in> bonds_of chain_delegated 21"
    by (simp add: bonds_of_def joined_def delegator_new_def ordered_set_from_def chain_joined_info)
  then show ?thesis using staking_okD(5) [OF rich_ok [OF chain_reachable(2)]] by simp
qed

section \<open>The storage stays in order\<close>

text \<open>C1: in every state the runtime reaches from genesis, by any calls, blocks and changes
  elsewhere, the whole staking storage is in order: each candidate's two lists, metadata and pool
  entry agree; a bond stands in a candidate's book exactly when it stands in the delegator's
  record; every pending request fits the bond it names; auto-compounding is set for delegators of
  the candidate only; no delegator is a candidate; and no more is counted as staked than is.\<close>

theorem staking_always_in_order:
  assumes "locks_move_nothing base" and "reward_laws base"
    and "staking_reachable (moonbeam_config base parts) s"
  shows "staking_ok (moonbeam_config base parts) s"
  using assms(3) moonbeam_laws(1) [OF assms(1)] moonbeam_laws(2) [OF assms(2)]
  by (rule moonbeam.reachable_in_order)

theorem staking_always_in_order_witness:
  "staking_ok rich_cfg chain_delegated \<and> bond 21 (10 ^ 21) \<in># book_of chain_delegated 7"
  using staking_always_in_order [OF rich_base_laws chain_reachable(2)] chain_delegated_bond by simp

text \<open>Every delegation of a book is kept once, under its delegator.\<close>

lemma stands_counted:
  assumes "stands cfg c e M m s"
  shows "cm_total_counted m = cm_bond m + largest (MaxTopDelegationsPerCandidate cfg) M"
    and "M = mset_set (set_mset M)"
proof -
  obtain hi lo where held: "held cfg c e hi lo m s" and M: "M = mset hi + mset lo"
    using assms by (auto simp: stands_held)
  note p = ranked_parts [OF held_ranked(1) [OF held]]
  have "distinct (hi @ lo)" using p(7) by (simp only: distinct_map)
  then show "M = mset_set (set_mset M)" by (simp add: M mset_set_set flip: mset_append set_append)
  show "cm_total_counted m = cm_bond m + largest (MaxTopDelegationsPerCandidate cfg) M"
    using held_counted [OF held] by (simp add: M)
qed

text \<open>C17: in every state the runtime reaches, the stake by which a candidate is ranked and rewarded is
  its self bond plus the 300 largest bonds that delegators hold on it by their own records; and an
  active candidate, and no other, stands in the pool, with this stake.\<close>

theorem counted_stake_is_largest:
  assumes "locks_move_nothing base" and "reward_laws base"
    and "staking_reachable (moonbeam_config base parts) s" and "CandidateInfo s c = Some m"
  shows "cm_total_counted m = cm_bond m
      + largest 300 (mset_set {k. bond c (b_amount k) \<in> bonds_of s (b_owner k)})
    \<and> pool_lookup (CandidatePool s) c = (if is_active m then Some (cm_total_counted m) else None)"
proof -
  let ?cfg = "moonbeam_config base parts"
  have ok: "staking_ok ?cfg s"
    using assms(3) moonbeam_laws(1) [OF assms(1)] moonbeam_laws(2) [OF assms(2)] by (rule moonbeam.reachable_in_order)
  note part = candidate_partD [OF ok assms(4)]
  have "{k. bond c (b_amount k) \<in> bonds_of s (b_owner k)} = set_mset (book_of s c)"
    using staking_okD(5) [OF ok, of c] by simp
  moreover have "MaxTopDelegationsPerCandidate ?cfg = 300"
    by (simp add: moonbeam_config_def moonbeam_base_def params.defs moonbeam_params_def Let_def)
  ultimately show ?thesis
    using stands_counted [OF part(1)] part(2) by simp
qed

theorem counted_stake_witness:
  "\<exists>m. CandidateInfo chain_delegated 7 = Some m
    \<and> cm_total_counted m = cm_bond m
        + largest 300 (mset_set {k. bond 7 (b_amount k) \<in> bonds_of chain_delegated (b_owner k)})
    \<and> bond 7 (10 ^ 21) \<in> bonds_of chain_delegated 21"
proof -
  note ok = rich_ok [OF chain_reachable(2)]
  have bond: "bond 7 (10 ^ 21) \<in> bonds_of chain_delegated 21"
    using chain_delegated_bond staking_okD(5) [OF ok] by simp
  obtain m where "CandidateInfo chain_delegated 7 = Some m"
    using chain_delegated_bond no_candidateD(3) [OF ok, of 7] by (cases "CandidateInfo chain_delegated 7") auto
  with counted_stake_is_largest [OF rich_base_laws chain_reachable(2) this] bond show ?thesis by blast
qed

text \<open>C3: no call of a candidate, a delegator or the chain's watchers panics in a reachable state,
  whatever its origin and arguments, as long as the stakes it would add up fit the balance type:
  every \<open>expect\<close>, unchecked index and overflow that the code could run into is out of reach.\<close>

theorem calls_never_panic:
  assumes "locks_move_nothing base" and "reward_laws base"
    and "staking_reachable (moonbeam_config base parts) s"
    and "room s (commits call)" and "\<not> governs call"
  shows "fst (staking_dispatch (moonbeam_config base parts) o' call s) \<noteq> Panic"
  using moonbeam.dispatched [OF moonbeam.reachable_in_order [OF assms(3)], of call o'] assms(4,5)
    moonbeam_laws [of base parts] assms(1,2)
  unfolding safe_at_def by (auto dest: wp_not_Panic)

theorem calls_never_panic_witness:
  "fst (staking_dispatch rich_cfg (Signed 21) (Call_delegate_with_auto_compound 7 (10 ^ 21) 50 0 0 0)
     chain_joined) \<noteq> Panic"
  by (rule calls_never_panic [OF rich_base_laws chain_reachable(1)]) (use chain_joined_room in simp_all)

section \<open>Payouts return\<close>

text \<open>Collator 2 of round 5 with one delegator, who compounds half of the reward that is due.\<close>

definition paying_bond :: Bond where
  "paying_bond = bond 21 (4 * 10 ^ 20)"

definition paying_meta :: CandidateMetadata where
  "paying_meta =
     \<lparr>cm_bond = 6 * 10 ^ 20, cm_delegation_count = 1, cm_total_counted = 10 ^ 21,
      cm_lowest_top_delegation_amount = 4 * 10 ^ 20, cm_highest_bottom_delegation_amount = 0,
      cm_lowest_bottom_delegation_amount = 0, cm_top_capacity = Partial,
      cm_bottom_capacity = Empty, cm_request = None, cm_status = Active\<rparr>"

definition paying_state :: "orb_ledger orbiters_state staking" where
  "paying_state = runtime_state\<lparr>
     Round := round_new 7 100 20 50,
     CandidateInfo := [2 \<mapsto> paying_meta], CandidatePool := [bond 2 (10 ^ 21)],
     TopDelegations := [2 \<mapsto> \<lparr>ds_delegations = [paying_bond], ds_total = 4 * 10 ^ 20\<rparr>],
     BottomDelegations := [2 \<mapsto> delegations_default],
     DelegatorState := [21 \<mapsto> delegator_new 21 2 (4 * 10 ^ 20)],
     AutoCompoundingDelegations := (\<lambda>_. [])(2 := [\<lparr>ac_delegator = 21, ac_value = 50\<rparr>]),
     Total := 10 ^ 21,
     AtStake := (\<lambda>_. [])(5 := [(2, \<lparr>snap_bond = 6 * 10 ^ 20,
       snap_delegations = [\<lparr>bac_owner = 21, bac_amount = 4 * 10 ^ 20, bac_auto_compound = 50\<rparr>],
       snap_total = 10 ^ 21\<rparr>)]),
     DelayedPayouts := [5 \<mapsto> \<lparr>dp_round_issuance = 1000, dp_total_staking_reward = 700,
       dp_collator_commission = 200000000\<rparr>],
     Points := (\<lambda>_. 0)(5 := 40), AwardedPts := (\<lambda>_ _. 0)(5 := (\<lambda>_. 0)(2 := 40))\<rparr>"

lemmas paying_defs = paying_state_def paying_meta_def paying_bond_def runtime_state_def

lemma paying_book: "book_of paying_state 2 = {#paying_bond#}" "c \<noteq> 2 \<Longrightarrow> book_of paying_state c = {#}"
  "excess_of paying_state 2 = 0"
  by (simp_all add: book_of_def excess_of_def paying_defs delegations_default_def)

lemma paying_totals: "stake_at paying_state 2 = 10 ^ 21" "dom (CandidateInfo paying_state) = {2}"
  "Total paying_state = 10 ^ 21" "Round paying_state = round_new 7 100 20 50"
  unfolding stake_at_def paying_book by (simp_all add: paying_defs)

lemma paying_stands: "stands rich_cfg 2 0 {#paying_bond#} paying_meta paying_state"
  unfolding stands_def
  by (intro exI [of _ "\<lparr>ds_delegations = [paying_bond], ds_total = 4 * 10 ^ 20\<rparr>"] exI [of _ delegations_default])
    (simp add: paying_defs candidate_ok_def ranked_def pool_at_def pool_ok_def is_active_def rich_cfg_simps
      pool_lookup_def top_capacity_def bottom_capacity_def as_u32_def u128_max_def delegations_default_def
      lowest_delegation_amount_def highest_delegation_amount_def key_sorted_def)

lemma paying_state_ok: "staking_ok rich_cfg paying_state"
proof -
  let ?s = paying_state
  have "candidate_part rich_cfg ?s c" for c
  proof (cases "c = 2")
    case True
    then show ?thesis
      using paying_stands unfolding candidate_part_def True paying_book
      by (simp add: paying_defs pool_entry_def pool_lookup_def is_active_def requests_ok_def key_sorted_def)
  next
    case False
    then show ?thesis
      by (simp add: candidate_part_def pool_entry_def paying_defs pool_lookup_def)
  qed
  moreover have "delegator_part rich_cfg ?s d" for d
    by (auto simp: delegator_part_def paying_defs delegator_new_ok delegator_new_def ordered_set_from_def
        rich_cfg_simps MILLIGLMR_def SUPPLY_FACTOR_def delegator_ok_def key_sorted_def)
  moreover have "bond c a \<in> bonds_of ?s d \<longleftrightarrow> bond d a \<in># book_of ?s c" for c d a
  proof -
    have "bonds_of ?s d = (if d = 21 then {bond 2 (4 * 10 ^ 20)} else {})"
      by (simp add: bonds_of_def paying_defs delegator_new_def ordered_set_from_def)
    then show ?thesis by (cases "c = 2") (auto simp: paying_book paying_bond_def)
  qed
  moreover have "pool_ok rich_cfg (CandidatePool ?s)"
    by (simp add: paying_defs pool_ok_def key_sorted_def rich_cfg_simps)
  ultimately show ?thesis by (simp add: staking_ok_def paying_totals staked_def)
qed

lemma rich_payments:
  "percent_mul_ceil rich_cfg p x = (p * x + 99) div 100"
  "perbill_mul rich_cfg p x = p * x div 1000000000"
  "perbill_from_rational rich_cfg p q = (if q = 0 then 1000000000 else min 1000000000 (p * 1000000000 div q))"
  "RewardPaymentDelay rich_cfg = 2"
  "deposit_into_existing rich_cfg a v w =
     Some (v, w\<lparr>orb_world := (fst (orb_world w), (a, v) # snd (orb_world w))\<rparr>)"
  "key_order rich_cfg k = k"
  by (simp_all add: moonbeam_config_def moonbeam_base_def params.defs moonbeam_params_def Let_def
      rich_base_def minting_base_def in_orb_def)

lemma paying_pool: "pool_put rich_cfg 2 x [bond 2 y] = Some [bond 2 x]"
proof -
  have "bs_loop f xs (Suc 0) base = base" for f and xs :: "Bond list" and base
    by (subst bs_loop.simps) simp
  then show ?thesis
    by (simp add: pool_put_def bounded_remove_def bounded_try_insert_def set_search_def binary_search_by_def
        vec_remove_def vec_insert_def bond_from_owner_def rich_cfg_simps cmp_def Let_def)
qed

lemma paid_out:
  "\<exists>t. handle_delayed_payouts rich_cfg 7 paying_state = (Ok (), t)
     \<and> book_of t 2 = {#bond 21 (4 * 10 ^ 20 + 100)#} \<and> AtStake t 5 = []"
  apply (simp add: handle_delayed_payouts_def pay_one_collator_reward_def drain_at_stake_def take_awarded_pts_def
      pay_collator_and_delegators_def rich_payments paying_defs prog_defs Let_def)
  apply (simp add: moonbeam_payout_collator_reward_def is_collator_pool_with_active_orbiter_def sample_orb_defs
      mint_collator_reward_def moonbeam_payout_simps moonbeam_base_def rich_base_def minting_base_def params.defs
      sat_add_u128_def u128_max_def prog_defs accessor_defs Let_def)
  apply (simp add: on_collator_payout_unit_def pay_delegator_def mint_and_compound_def rich_payments
      delegation_bond_more_without_event_def delegation_request_revoke_exists_def delegator_increase_delegation_def
      delegator_new_def ordered_set_from_def prog_defs accessor_defs Let_def)
  apply (simp add: adjust_bond_lock_def get_delegator_stakable_balance_def increase_delegation_def
      increase_top_delegation_def reset_top_data_def rich_cfg_simps sat_add_u128_def u128_max_def is_active_def
      prog_defs accessor_defs Let_def)
  apply (simp add: update_active_def paying_pool sort_greatest_to_least_def adjust_bond_def is_active_def
      book_of_def delegations_default_def prog_defs accessor_defs Let_def)
  done

text \<open>C4: the payout of a block within a round, with all deposits and all compounding of the rewards
  of one collator's delegators, returns whenever the storage is in order, as it is in every reachable
  state, and leaves it in order, as long as what is compounded fits the balance type.\<close>

theorem payout_returns:
  assumes "locks_move_nothing base" and "reward_laws base"
    and "staking_ok (moonbeam_config base parts) s"
    and "room s (due_compounding (moonbeam_config base parts) s)" and "\<not> should_update n (Round s)"
  shows "\<exists>t. on_initialize (moonbeam_config base parts) n s = (Ok (), t)
    \<and> staking_ok (moonbeam_config base parts) t"
proof -
  let ?cfg = "moonbeam_config base parts"
  have laws: "params_ok ?cfg" "reward_laws ?cfg"
    using moonbeam_laws [of base parts] assms(1,2) by (auto simp: staking_params_def)
  have "on_initialize ?cfg n s = handle_delayed_payouts ?cfg (r_current (Round s)) s"
    using assms(5) by (simp add: on_initialize_def bind_m_def gets_m_def)
  with wp_total [OF moonbeam.handled_payouts [OF laws assms(3), of _ 0]] assms(4) show ?thesis
    by (auto simp: due_compounding_def)
qed

theorem payout_returns_witness:
  "due_compounding rich_cfg paying_state = 100
   \<and> (\<exists>t. on_initialize rich_cfg 110 paying_state = (Ok (), t) \<and> staking_ok rich_cfg t
        \<and> book_of t 2 = {#bond 21 (4 * 10 ^ 20 + 100)#} \<and> AtStake t 5 = [])"
proof -
  have due: "due_compounding rich_cfg paying_state = 100"
    by (simp add: due_compounding_def due_in_round_def collator_compounding_def compounded_def paying_defs round_new_def rich_payments Let_def)
  have "room paying_state 100" and within: "\<not> should_update 110 (Round paying_state)"
    by (simp_all add: room_def staked_def excesses_def paying_book paying_totals u128_max_def should_update_def
        round_new_def wrap_sub_u32_def)
  with payout_returns [OF rich_base_laws paying_state_ok, unfolded due, of 110]
  obtain t where t: "on_initialize rich_cfg 110 paying_state = (Ok (), t)" "staking_ok rich_cfg t" by auto
  have "book_of t 2 = {#bond 21 (4 * 10 ^ 20 + 100)#} \<and> AtStake t 5 = []"
    using paid_out t(1) within
    by (auto simp: on_initialize_def prog_defs paying_totals round_new_def)
  with t due show ?thesis by blast
qed

text \<open>A number of blocks of a round: each pays one more collator and leaves the storage in order.\<close>

lemma payouts_in_order:
  assumes "lock_laws base" and "locks_move_nothing base" and "reward_laws base" and "2 \<le> now"
    and "staking_ok (moonbeam_config base parts) s"
    and "DelayedPayouts s (now - 2) \<noteq> None" and "Points s (now - 2) \<noteq> 0"
    and "AtStake s (now - 2) = es" and "distinct (map fst es)" and "k \<le> length es"
    and "room s (round_compounding (moonbeam_config base parts) (now - 2) s)"
  shows "\<exists>t. (\<forall>j. payouts_of_blocks (moonbeam_config base parts) now (k + j) s
        = payouts_of_blocks (moonbeam_config base parts) now j t)
    \<and> staking_ok (moonbeam_config base parts) t
    \<and> AtStake t = (AtStake s)(now - 2 := drop k es)
    \<and> DelayedPayouts t = DelayedPayouts s \<and> Points t = Points s"
  using assms(5-11)
proof (induction k arbitrary: s es)
  case 0
  then show ?case by (auto intro!: exI [of _ s])
next
  case (Suc k)
  let ?cfg = "moonbeam_config base parts" and ?r = "now - 2"
  let ?t = "payout_block ?cfg now s"
  obtain c sn rest where es: "es = (c, sn) # rest" using Suc.prems(6) by (cases es) auto
  obtain info where info: "DelayedPayouts s ?r = Some info" using Suc.prems(2) by auto
  have at: "AtStake s ?r = (c, sn) # rest" using Suc.prems(4) es by simp
  note step = payout_block_step [OF assms(1,4) info Suc.prems(3) at, where parts = parts]
  have pts: "AwardedPts ?t ?r (fst e) = AwardedPts s ?r (fst e)" if "e \<in> set rest" for e
    using that Suc.prems(5) es by (intro step(4)) force
  have "collator_compounding ?cfg ?r ?t info (fst e) sn = collator_compounding ?cfg ?r s info (fst e) sn"
    if "e \<in> set rest" for e sn
    by (simp add: collator_compounding_def pts [OF that] step(3))
  then have "round_compounding ?cfg ?r s = due_in_round ?cfg ?r s + round_compounding ?cfg ?r ?t"
    by (auto simp: round_compounding_def due_in_round_def step(1,2) info at intro!: arg_cong [where f = sum_list])
  then have room: "room s (due_in_round ?cfg (now - RewardPaymentDelay ?cfg) s + round_compounding ?cfg ?r ?t)"
    using Suc.prems(7) by simp
  have laws: "params_ok ?cfg" "reward_laws ?cfg"
    using moonbeam_laws [of base parts] assms(2,3) by (auto simp: staking_params_def)
  have run: "handle_delayed_payouts ?cfg now s = (Ok (), ?t)" "staking_ok ?cfg ?t"
    "room ?t (round_compounding ?cfg ?r ?t)"
    using wp_total [OF moonbeam.handled_payouts [OF laws Suc.prems(1) room]] by (auto simp: payout_block_def)
  have "DelayedPayouts ?t ?r \<noteq> None" "Points ?t ?r \<noteq> 0" "AtStake ?t ?r = rest"
    "distinct (map fst rest)" "k \<le> length rest"
    using step(1-3) Suc.prems es by simp_all
  note rest = Suc.IH [OF run(2) this run(3)]
  then show ?case using payouts_of_blocks_Suc [OF run(1)] es step(1-3)
    by (force simp: fun_upd_upd)
qed

text \<open>C11: the payout of a round ends: with the storage in order, rewards set aside for the round and
  points awarded in it, each block's payout returns, whatever it compounds, strikes off exactly the
  first collator of the round that is left, keeps the record of what is set aside and leaves the
  storage in order; and the block after the last collator removes that record and the points of the
  round, and nothing else. So the payout of a round with \<open>n\<close> collators takes \<open>n + 1\<close> blocks. What
  the delegators of the round compound in all has to fit the balance type.\<close>

theorem payouts_complete:
  assumes "lock_laws base" and "locks_move_nothing base" and "reward_laws base" and "2 \<le> now"
    and "staking_ok (moonbeam_config base parts) s"
    and "DelayedPayouts s (now - 2) \<noteq> None" and "Points s (now - 2) \<noteq> 0"
    and "distinct (map fst (AtStake s (now - 2)))" and "k \<le> length (AtStake s (now - 2))"
    and "room s (round_compounding (moonbeam_config base parts) (now - 2) s)"
  shows "\<exists>t. payouts_of_blocks (moonbeam_config base parts) now k s = (Ok (), t)
    \<and> staking_ok (moonbeam_config base parts) t
    \<and> AtStake t = (AtStake s)(now - 2 := drop k (AtStake s (now - 2)))
    \<and> DelayedPayouts t = DelayedPayouts s \<and> Points t = Points s
    \<and> (k = length (AtStake s (now - 2)) \<longrightarrow>
        payouts_of_blocks (moonbeam_config base parts) now (k + 1) s =
          (Ok (), t\<lparr>DelayedPayouts := (DelayedPayouts s)(now - 2 := None),
                    Points := (Points s)(now - 2 := 0)\<rparr>))"
proof -
  let ?cfg = "moonbeam_config base parts" and ?r = "now - 2"
  obtain t where run: "\<And>j. payouts_of_blocks ?cfg now (k + j) s = payouts_of_blocks ?cfg now j t"
    and t: "staking_ok ?cfg t" "AtStake t = (AtStake s)(?r := drop k (AtStake s ?r))"
      "DelayedPayouts t = DelayedPayouts s" "Points t = Points s"
    using payouts_in_order [OF assms(1-7) refl assms(8-10)] by blast
  have "payouts_of_blocks ?cfg now 1 t =
      (Ok (), t\<lparr>DelayedPayouts := (DelayedPayouts s)(?r := None), Points := (Points s)(?r := 0)\<rparr>)"
    if last: "k = length (AtStake s ?r)"
  proof -
    have "handle_delayed_payouts ?cfg now t =
        (Ok (), t\<lparr>DelayedPayouts := (DelayedPayouts t)(?r := None), Points := (Points t)(?r := 0)\<rparr>)"
      by (rule payouts_finish) (use assms(4,6) t last in simp_all)
    then show ?thesis using payouts_of_blocks_Suc [of ?cfg now t _ 0] t
      by (simp add: payouts_of_blocks_def return_m_def)
  qed
  moreover have "payouts_of_blocks ?cfg now k s = (Ok (), t)"
    using run [of 0] by (simp add: payouts_of_blocks_def return_m_def)
  ultimately show ?thesis using t run [of 1] by auto
qed

theorem payouts_complete_witness:
  "round_compounding rich_cfg 5 paying_state = 100
   \<and> (\<exists>t. payouts_of_blocks rich_cfg 7 1 paying_state = (Ok (), t) \<and> staking_ok rich_cfg t
       \<and> AtStake t 5 = [] \<and> DelayedPayouts t 5 \<noteq> None
       \<and> payouts_of_blocks rich_cfg 7 2 paying_state =
           (Ok (), t\<lparr>DelayedPayouts := Map.empty, Points := \<lambda>_. 0\<rparr>))"
proof -
  let ?s = paying_state
  have due: "round_compounding rich_cfg (7 - 2) ?s = 100"
    by (simp add: round_compounding_def collator_compounding_def compounded_def paying_defs round_new_def
        rich_payments Let_def)
  have "room ?s (round_compounding rich_cfg (7 - 2) ?s)"
    unfolding due by (simp add: room_def staked_def excesses_def paying_book paying_totals u128_max_def)
  moreover have fields: "length (AtStake ?s 5) = 1" "DelayedPayouts ?s 5 \<noteq> None" "Points ?s 5 \<noteq> 0"
    "distinct (map fst (AtStake ?s 5))" "(DelayedPayouts ?s)(5 := None) = Map.empty" "(Points ?s)(5 := 0) = (\<lambda>_. 0)"
    by (auto simp: paying_defs)
  moreover have "lock_laws rich_base" by (simp add: lock_laws_def rich_base_def minting_base_simps)
  ultimately obtain t where t: "payouts_of_blocks rich_cfg 7 1 ?s = (Ok (), t)" "staking_ok rich_cfg t"
    "AtStake t = (AtStake ?s)(5 := drop 1 (AtStake ?s 5))" "DelayedPayouts t = DelayedPayouts ?s"
    "payouts_of_blocks rich_cfg 7 (1 + 1) ?s = (Ok (), t\<lparr>DelayedPayouts := (DelayedPayouts ?s)(5 := None),
       Points := (Points ?s)(5 := 0)\<rparr>)"
    using payouts_complete [of rich_base 7 sample_parts ?s 1] paying_state_ok rich_base_laws by auto
  then show ?thesis using due fields by (intro conjI exI [of _ t]) (simp_all add: numeral_2_eq_2)
qed

section \<open>Stakes come back\<close>

text \<open>C2: whoever may have a stake back gets it, at anyone's request: with the storage in order, a
  delegation request whose round has come is executed and gone, a candidate's due decrease leaves
  exactly that much less in its bond, and a candidate whose exit is due leaves, given a weight hint
  that covers its delegations. None of the minimum and existence checks on the way can refuse.\<close>

theorem due_stakes_come_back:
  assumes "staking_ok cfg s" and "params_ok cfg"
  shows "(due_request c d s \<longrightarrow> (\<exists>t. execute_delegation_request cfg (Signed who) d c s = (Ok (), t)
        \<and> request_of d (DelegationScheduledRequests t c) = None))
    \<and> (\<forall>m x. CandidateInfo s c = Some m \<and> bond_less_due m x s \<longrightarrow>
        (\<exists>t m'. execute_candidate_bond_less cfg (Signed who) c s = (Ok (), t)
          \<and> CandidateInfo t c = Some m' \<and> cm_bond m' + x = cm_bond m))
    \<and> (\<forall>m r. CandidateInfo s c = Some m \<and> cm_status m = Leaving r \<and> r \<le> r_current (Round s)
          \<and> cm_delegation_count m \<le> hint \<longrightarrow>
        (\<exists>t. execute_leave_candidates cfg (Signed who) c hint s = (Ok (), t) \<and> CandidateInfo t c = None))"
proof (intro conjI allI impI)
  show "\<exists>t. execute_delegation_request cfg (Signed who) d c s = (Ok (), t)
      \<and> request_of d (DelegationScheduledRequests t c) = None" if "due_request c d s"
    using wp_total [OF due_request_executes [OF assms that]]
    by (auto simp: execute_delegation_request_def prog_defs accessor_defs)
  show "\<exists>t m'. execute_candidate_bond_less cfg (Signed who) c s = (Ok (), t)
      \<and> CandidateInfo t c = Some m' \<and> cm_bond m' + x = cm_bond m"
    if "CandidateInfo s c = Some m \<and> bond_less_due m x s" for m x
    using wp_total [OF due_bond_less_executes [OF assms(1), of c m x]] that
    by (auto simp: execute_candidate_bond_less_def prog_defs accessor_defs)
  show "\<exists>t. execute_leave_candidates cfg (Signed who) c hint s = (Ok (), t) \<and> CandidateInfo t c = None"
    if "CandidateInfo s c = Some m \<and> cm_status m = Leaving r \<and> r \<le> r_current (Round s)
      \<and> cm_delegation_count m \<le> hint" for m r
    using wp_total [OF due_exit_executes [OF assms(1), of c m r]] that
    by (auto simp: execute_leave_candidates_def prog_defs accessor_defs)
qed

text \<open>A candidate on its way out, with a decrease of its own and a revocation both due.\<close>

definition leaving_meta :: CandidateMetadata where
  "leaving_meta = sample_meta\<lparr>cm_status := Leaving 5,
     cm_request := Some \<lparr>br_amount = 10, br_when_executable = 5\<rparr>\<rparr>"

definition leaving_state :: "ledger staking" where
  "leaving_state = (sample_due (Revoke 30))\<lparr>CandidatePool := [],
     CandidateInfo := [1 \<mapsto> leaving_meta]\<rparr>"

lemma leaving_state_ok: "staking_ok sample_cfg leaving_state"
proof -
  let ?s = leaving_state
  have info: "CandidateInfo ?s = [1 \<mapsto> leaving_meta]" by (simp add: leaving_state_def)
  have st: "stands sample_cfg 1 0 sample_book leaving_meta ?s"
    by (rule stands_meta [OF sample_stands])
      (auto simp: leaving_meta_def candidate_ok_def leaving_state_def sample_due_def pool_ok_def
        pool_entry_def is_active_def pool_lookup_def)
  note book = stands_book [OF st]
  have c1: "candidate_part sample_cfg ?s 1"
    by (rule candidate_partI [OF _ st])
      (auto simp: info leaving_meta_def leaving_state_def sample_due_def sample_defs requests_ok_def
        request_fits_def bond_of_def)
  have "candidate_part sample_cfg ?s c" for c
    using c1 by (cases "c = 1")
      (auto simp: candidate_part_def pool_entry_def info leaving_state_def sample_due_def sample_defs pool_lookup_def)
  moreover have "delegator_part sample_cfg ?s d" for d
    by (auto simp: delegator_part_def leaving_state_def sample_due_def sample_defs delegator_ok_def)
  moreover have "bond c a \<in> bonds_of ?s d \<longleftrightarrow> bond d a \<in># book_of ?s c" for c d a
  proof (cases "c = 1")
    case True
    then show ?thesis unfolding True book(1)
      by (auto simp: bonds_of_def leaving_state_def sample_due_def sample_defs bond_of_def)
  next
    case False
    then show ?thesis
      by (auto simp: bonds_of_def book_of_def leaving_state_def sample_due_def sample_defs)
  qed
  moreover have "staked ?s = cm_bond leaving_meta + sum_mset (image_mset b_amount sample_book)"
    using book(1) by (simp add: staked_def info stake_at_def)
  moreover have "Total ?s = 220" "cm_bond leaving_meta = 100"
    by (simp_all add: leaving_state_def sample_due_def leaving_meta_def sample_defs)
  moreover have "pool_ok sample_cfg (CandidatePool ?s)" by (simp add: leaving_state_def pool_ok_def)
  ultimately show ?thesis by (simp add: staking_ok_def info bond_of_def)
qed

theorem due_stakes_come_back_witness:
  "(\<exists>t. execute_delegation_request sample_cfg (Signed 9) 13 1 leaving_state = (Ok (), t)
      \<and> request_of 13 (DelegationScheduledRequests t 1) = None)
   \<and> (\<exists>t m'. execute_candidate_bond_less sample_cfg (Signed 9) 1 leaving_state = (Ok (), t)
      \<and> CandidateInfo t 1 = Some m' \<and> cm_bond m' = 90)
   \<and> (\<exists>t. execute_leave_candidates sample_cfg (Signed 9) 1 3 leaving_state = (Ok (), t)
      \<and> CandidateInfo t 1 = None)"
proof -
  have "due_request 1 13 leaving_state" "CandidateInfo leaving_state 1 = Some leaving_meta"
    "bond_less_due leaving_meta 10 leaving_state" "cm_status leaving_meta = Leaving 5"
    "5 \<le> r_current (Round leaving_state)" "cm_delegation_count leaving_meta \<le> 3" "cm_bond leaving_meta = 100"
    by (simp_all add: due_request_def bond_less_due_def leaving_state_def sample_due_def request_of_def
        leaving_meta_def) (simp_all add: sample_defs round_new_def)
  with due_stakes_come_back [OF leaving_state_ok sample_params, of 1 13 9 3] show ?thesis by fastforce
qed

end
