(* ===== verification/Bytes.thy ===== *)
theory Bytes
  imports Pallet_Support "HOL-Library.Word"
begin

text \<open>
  Bytes as the EVM-facing code uses them: big-endian integers, UTF-8, 20-byte addresses; and a
  registry that maps identifiers and locations to each other, with the lemmas on keeping the two
  directions inverse.
\<close>

section \<open>Big-endian integers\<close>

type_synonym byte = "8 word"
type_synonym H160 = "byte list"
type_synonym U256 = "256 word"

text \<open>\<open>to_be_bytes\<close> of an integer of \<open>n\<close> bytes, and the integer a slice spells.\<close>

definition to_be_bytes :: "nat \<Rightarrow> nat \<Rightarrow> byte list" where
  "to_be_bytes n x = map (\<lambda>i. word_of_nat (x div 256 ^ i)) (rev [0..<n])"

definition from_be_bytes :: "byte list \<Rightarrow> nat" where
  "from_be_bytes bs = foldl (\<lambda>a b. a * 256 + unat b) 0 bs"

lemma length_to_be_bytes [simp]: "length (to_be_bytes n x) = n"
  by (simp add: to_be_bytes_def)

lemma to_be_bytes_Suc: "to_be_bytes (Suc n) x = word_of_nat (x div 256 ^ n) # to_be_bytes n x"
  by (simp add: to_be_bytes_def)

lemma foldl_be_bytes:
  "foldl (\<lambda>a b. a * 256 + unat b) acc (to_be_bytes n x) = acc * 256 ^ n + x mod 256 ^ n"
proof (induction n arbitrary: acc)
  case 0
  then show ?case by (simp add: to_be_bytes_def)
next
  case (Suc n)
  have "unat (word_of_nat (x div 256 ^ n) :: byte) = x div 256 ^ n mod 256"
    by (simp add: unat_of_nat)
  moreover have "x mod (256 ^ n * 256) = 256 ^ n * (x div 256 ^ n mod 256) + x mod 256 ^ n"
    by (rule mod_mult2_eq)
  moreover have "foldl (\<lambda>a b. a * 256 + unat b) acc (to_be_bytes (Suc n) x) =
      (acc * 256 + unat (word_of_nat (x div 256 ^ n) :: byte)) * 256 ^ n + x mod 256 ^ n"
    by (simp add: to_be_bytes_Suc Suc del: unat_of_nat)
  ultimately show ?case by (simp add: algebra_simps)
qed

lemma from_to_be_bytes: "x < 256 ^ n \<Longrightarrow> from_be_bytes (to_be_bytes n x) = x"
  by (simp add: from_be_bytes_def foldl_be_bytes)

section \<open>UTF-8\<close>

text \<open>\<open>core::str::from_utf8\<close>; a string is the list of its bytes.\<close>

definition continuation :: "byte \<Rightarrow> bool" where
  "continuation b \<longleftrightarrow> 0x80 \<le> b \<and> b \<le> 0xBF"

definition second_of_3 :: "byte \<Rightarrow> byte \<Rightarrow> bool" where
  "second_of_3 a b \<longleftrightarrow>
     (if a = 0xE0 then 0xA0 \<le> b \<and> b \<le> 0xBF
      else if a = 0xED then 0x80 \<le> b \<and> b \<le> 0x9F else continuation b)"

definition second_of_4 :: "byte \<Rightarrow> byte \<Rightarrow> bool" where
  "second_of_4 a b \<longleftrightarrow>
     (if a = 0xF0 then 0x90 \<le> b \<and> b \<le> 0xBF
      else if a = 0xF4 then 0x80 \<le> b \<and> b \<le> 0x8F else continuation b)"

fun utf8_valid :: "byte list \<Rightarrow> bool" where
  "utf8_valid [] = True"
| "utf8_valid (a # bs) =
     (if a < 0x80 then utf8_valid bs
      else if 0xC2 \<le> a \<and> a \<le> 0xDF then
        (case bs of b # cs \<Rightarrow> continuation b \<and> utf8_valid cs | _ \<Rightarrow> False)
      else if 0xE0 \<le> a \<and> a \<le> 0xEF then
        (case bs of b # c # cs \<Rightarrow> second_of_3 a b \<and> continuation c \<and> utf8_valid cs | _ \<Rightarrow> False)
      else if 0xF0 \<le> a \<and> a \<le> 0xF4 then
        (case bs of b # c # d # cs \<Rightarrow>
           second_of_4 a b \<and> continuation c \<and> continuation d \<and> utf8_valid cs | _ \<Rightarrow> False)
      else False)"

definition from_utf8 :: "byte list \<Rightarrow> byte list option" where
  "from_utf8 bs = (if utf8_valid bs then Some bs else None)"

definition ascii :: "string \<Rightarrow> byte list" where
  "ascii s = map of_char s"

section \<open>Errors of another type\<close>

text \<open>\<open>Result::map_err\<close>.\<close>

definition map_err_m :: "('e \<Rightarrow> 'f) \<Rightarrow> ('s, 'e, 'a) prog \<Rightarrow> ('s, 'f, 'a) prog" where
  "map_err_m f m = (\<lambda>s. case m s of
      (Ok x, t) \<Rightarrow> (Ok x, t)
    | (Err e, t) \<Rightarrow> (Err (f e), t)
    | (Panic, t) \<Rightarrow> (Panic, t))"

lemma wp_map_err [wp_simps]: "wp (map_err_m f m) Q E s = wp m Q (\<lambda>e. E (f e)) s"
  by (auto simp: wp_def map_err_m_def split: prod.splits outcome.splits)

section \<open>Two-way registries\<close>

definition inverse_maps :: "('i \<rightharpoonup> 'l) \<Rightarrow> ('l \<rightharpoonup> 'i) \<Rightarrow> bool" where
  "inverse_maps f g \<longleftrightarrow> (\<forall>i l. f i = Some l \<longleftrightarrow> g l = Some i)"

lemma inverse_maps_empty: "inverse_maps Map.empty Map.empty"
  by (simp add: inverse_maps_def)

lemma inverse_maps_add:
  "inverse_maps f g \<Longrightarrow> f i = None \<Longrightarrow> g l = None \<Longrightarrow> inverse_maps (f(i \<mapsto> l)) (g(l \<mapsto> i))"
  by (auto simp: inverse_maps_def) (metis option.distinct(1) option.inject)+

lemma inverse_maps_move:
  "inverse_maps f g \<Longrightarrow> f i = Some k \<Longrightarrow> g l = None \<Longrightarrow> inverse_maps (f(i \<mapsto> l)) (g(k := None, l \<mapsto> i))"
  by (auto simp: inverse_maps_def) (metis option.distinct(1) option.inject)+

lemma inverse_maps_remove:
  "inverse_maps f g \<Longrightarrow> f i = Some k \<Longrightarrow> inverse_maps (f(i := None)) (g(k := None))"
  by (auto simp: inverse_maps_def) (metis option.distinct(1) option.inject)+

lemma inverse_mapsD:
  "inverse_maps f g \<Longrightarrow> f i = Some l \<Longrightarrow> g l = Some i"
  "inverse_maps f g \<Longrightarrow> g l = Some i \<Longrightarrow> f i = Some l"
  "inverse_maps f g \<Longrightarrow> g l = None \<Longrightarrow> f i \<noteq> Some l"
  by (simp_all add: inverse_maps_def)

end
