(* ===== verification/Asset_Manager.thy ===== *)
theory Asset_Manager
  imports Bytes
begin

text \<open>
  pallet-asset-manager: the registry of the foreign assets that live in pallet-assets, with the
  type (the XCM location) of each. Weights are left out.
\<close>

section \<open>Errors, events, storage\<close>

datatype asset_manager_error =
    ErrorCreatingAsset | AssetAlreadyExists | AssetDoesNotExist | TooLowNumAssetsWeightHint
  | LocalAssetLimitReached | ErrorDestroyingAsset | NotSufficientDeposit | NonExistentLocalAsset

datatype ('i, 't, 'm) asset_manager_event =
    ForeignAssetRegistered 'i 't 'm
  | UnitsPerSecondChanged
  | AssetXcmLocationChanged 'i 't
  | ForeignAssetRemoved 'i 't
  | SupportedAssetTypeRemoved 't
  | ForeignAssetDestroyed 'i 't
  | LocalAssetDestroyed 'i

record ('i, 't, 'm, 'w) asset_manager =
  AssetIdType :: "'i \<rightharpoonup> 't"
  AssetTypeId :: "'t \<rightharpoonup> 'i"
  manager_events :: "('i, 't, 'm) asset_manager_event list"
  manager_world :: 'w

text \<open>
  The configuration: the origin, the conversion of an asset type to the identifier it is
  registered under, and the registrar, which creates and destroys the asset itself.
\<close>

record ('i, 't, 'm, 'w) asset_manager_config =
  type_into_id :: "'t \<Rightarrow> 'i"
  is_asset_modifier :: "origin \<Rightarrow> bool"
  registrar_create :: "'i \<Rightarrow> Balance \<Rightarrow> 'm \<Rightarrow> bool \<Rightarrow> 'w \<Rightarrow> 'w option"
  registrar_destroy :: "'i \<Rightarrow> 'w \<Rightarrow> 'w option"

type_synonym ('i, 't, 'm, 'w, 'a) asset_manager_m =
  "(('i, 't, 'm, 'w) asset_manager, asset_manager_error pallet_error, 'a) prog"

definition deposit_manager_event ::
  "('i, 't, 'm) asset_manager_event \<Rightarrow> ('i, 't, 'm, 'w, unit) asset_manager_m" where
  "deposit_manager_event e = modify_m (\<lambda>s. s\<lparr>manager_events := manager_events s @ [e]\<rparr>)"

text \<open>A call of the registrar whose error is replaced.\<close>

definition with_registrar ::
  "('w \<Rightarrow> 'w option) \<Rightarrow> asset_manager_error \<Rightarrow> ('i, 't, 'm, 'w, unit) asset_manager_m" where
  "with_registrar f e =
     bind_m (gets_m (\<lambda>s. f (manager_world s))) (\<lambda>r.
     bind_m (ok_or_p r e) (\<lambda>w. modify_m (\<lambda>s. s\<lparr>manager_world := w\<rparr>)))"

lemma wp_asset_manager [wp_simps]:
  "wp (deposit_manager_event ev) Q E s = Q () (s\<lparr>manager_events := manager_events s @ [ev]\<rparr>)"
  "wp (with_registrar f e) Q E s = (case f (manager_world s) of
     None \<Rightarrow> E (PalletError e) s | Some w \<Rightarrow> Q () (s\<lparr>manager_world := w\<rparr>))"
  by (simp_all add: deposit_manager_event_def with_registrar_def wp_simps split: option.split)

section \<open>Queries\<close>

definition get_asset_type :: "('i, 't, 'm, 'w) asset_manager \<Rightarrow> 'i \<Rightarrow> 't option" where
  "get_asset_type s i = AssetIdType s i"

definition get_asset_id :: "('i, 't, 'm, 'w) asset_manager \<Rightarrow> 't \<Rightarrow> 'i option" where
  "get_asset_id s t = AssetTypeId s t"

section \<open>Calls\<close>

definition register_foreign_asset ::
  "('i, 't, 'm, 'w) asset_manager_config \<Rightarrow> origin \<Rightarrow> 't \<Rightarrow> 'm \<Rightarrow> Balance \<Rightarrow> bool
    \<Rightarrow> ('i, 't, 'm, 'w, unit) asset_manager_m" where
  "register_foreign_asset cfg o' asset metadata min_amount is_sufficient =
     then_m (origin_p (is_asset_modifier cfg) o')
    (let asset_id = type_into_id cfg asset in
     bind_m (gets_m (\<lambda>s. AssetIdType s asset_id)) (\<lambda>found.
     then_m (ensure_p (found = None) AssetAlreadyExists)
    (then_m (with_registrar (registrar_create cfg asset_id min_amount metadata is_sufficient)
              ErrorCreatingAsset)
    (then_m (modify_m (\<lambda>s. s\<lparr>AssetIdType := (AssetIdType s)(asset_id \<mapsto> asset)\<rparr>))
    (then_m (modify_m (\<lambda>s. s\<lparr>AssetTypeId := (AssetTypeId s)(asset \<mapsto> asset_id)\<rparr>))
            (deposit_manager_event (ForeignAssetRegistered asset_id asset metadata)))))))"

definition change_existing_asset_type ::
  "('i, 't, 'm, 'w) asset_manager_config \<Rightarrow> origin \<Rightarrow> 'i \<Rightarrow> 't \<Rightarrow> ('i, 't, 'm, 'w, unit) asset_manager_m"
  where
  "change_existing_asset_type cfg o' asset_id new_asset_type =
     then_m (origin_p (is_asset_modifier cfg) o')
    (bind_m (gets_m (\<lambda>s. AssetIdType s asset_id)) (\<lambda>found.
     bind_m (ok_or_p found AssetDoesNotExist) (\<lambda>previous_asset_type.
     then_m (modify_m (\<lambda>s. s\<lparr>AssetIdType := (AssetIdType s)(asset_id \<mapsto> new_asset_type)\<rparr>))
    (then_m (modify_m (\<lambda>s. s\<lparr>AssetTypeId := (AssetTypeId s)(new_asset_type \<mapsto> asset_id)\<rparr>))
    (then_m (modify_m (\<lambda>s. s\<lparr>AssetTypeId := (AssetTypeId s)(previous_asset_type := None)\<rparr>))
            (deposit_manager_event (AssetXcmLocationChanged asset_id new_asset_type)))))))"

text \<open>What removing and destroying share: the two entries of the asset.\<close>

definition drop_asset_type ::
  "'i \<Rightarrow> ('i \<Rightarrow> 't \<Rightarrow> ('i, 't, 'm) asset_manager_event) \<Rightarrow> ('i, 't, 'm, 'w, unit) asset_manager_m" where
  "drop_asset_type asset_id ev =
     bind_m (gets_m (\<lambda>s. AssetIdType s asset_id)) (\<lambda>found.
     bind_m (ok_or_p found AssetDoesNotExist) (\<lambda>asset_type.
     then_m (modify_m (\<lambda>s. s\<lparr>AssetIdType := (AssetIdType s)(asset_id := None)\<rparr>))
    (then_m (modify_m (\<lambda>s. s\<lparr>AssetTypeId := (AssetTypeId s)(asset_type := None)\<rparr>))
            (deposit_manager_event (ev asset_id asset_type)))))"

definition remove_existing_asset_type ::
  "('i, 't, 'm, 'w) asset_manager_config \<Rightarrow> origin \<Rightarrow> 'i \<Rightarrow> ('i, 't, 'm, 'w, unit) asset_manager_m" where
  "remove_existing_asset_type cfg o' asset_id =
     then_m (origin_p (is_asset_modifier cfg) o') (drop_asset_type asset_id ForeignAssetRemoved)"

definition destroy_foreign_asset ::
  "('i, 't, 'm, 'w) asset_manager_config \<Rightarrow> origin \<Rightarrow> 'i \<Rightarrow> ('i, 't, 'm, 'w, unit) asset_manager_m" where
  "destroy_foreign_asset cfg o' asset_id =
     then_m (origin_p (is_asset_modifier cfg) o')
    (then_m (with_registrar (registrar_destroy cfg asset_id) ErrorDestroyingAsset)
            (drop_asset_type asset_id ForeignAssetDestroyed))"

datatype ('i, 't, 'm) asset_manager_call =
    RegisterForeignAsset 't 'm Balance bool
  | ChangeExistingAssetType 'i 't
  | RemoveExistingAssetType 'i
  | DestroyForeignAsset 'i

definition asset_manager_dispatch ::
  "('i, 't, 'm, 'w) asset_manager_config \<Rightarrow> origin \<Rightarrow> ('i, 't, 'm) asset_manager_call
    \<Rightarrow> ('i, 't, 'm, 'w, unit) asset_manager_m" where
  "asset_manager_dispatch cfg o' c = transactional (case c of
      RegisterForeignAsset t md v b \<Rightarrow> register_foreign_asset cfg o' t md v b
    | ChangeExistingAssetType i t \<Rightarrow> change_existing_asset_type cfg o' i t
    | RemoveExistingAssetType i \<Rightarrow> remove_existing_asset_type cfg o' i
    | DestroyForeignAsset i \<Rightarrow> destroy_foreign_asset cfg o' i)"

end
