(* ===== verification/Asset_Properties.thy ===== *)
theory Asset_Properties
  imports Asset_Manager
begin

text \<open>
  Properties of pallet-asset-manager: when its two maps stay inverse to each other, and the call
  that breaks them.
\<close>

definition asset_types_ok :: "('i, 't, 'm, 'w) asset_manager \<Rightarrow> bool" where
  "asset_types_ok s \<longleftrightarrow> inverse_maps (AssetIdType s) (AssetTypeId s)"

text \<open>The type a call gives to an asset is not in use; no call checks it.\<close>

fun fresh_type :: "('i, 't, 'm, 'w) asset_manager \<Rightarrow> ('i, 't, 'm) asset_manager_call \<Rightarrow> bool" where
  "fresh_type s (RegisterForeignAsset t md v b) = (AssetTypeId s t = None)"
| "fresh_type s (ChangeExistingAssetType i t) = (AssetTypeId s t = None)"
| "fresh_type s _ = True"

lemma asset_types_ok_fields [simp]:
  "asset_types_ok (s\<lparr>manager_events := es\<rparr>) = asset_types_ok s"
  "asset_types_ok (s\<lparr>manager_world := w\<rparr>) = asset_types_ok s"
  by (simp_all add: asset_types_ok_def)

text \<open>The type of the asset a call is about, once it has succeeded.\<close>

fun type_after :: "('i, 't, 'm, 'w) asset_manager_config \<Rightarrow> ('i, 't, 'm) asset_manager_call \<Rightarrow> 'i \<times> 't option" where
  "type_after cfg (RegisterForeignAsset t md v b) = (type_into_id cfg t, Some t)"
| "type_after cfg (ChangeExistingAssetType i t) = (i, Some t)"
| "type_after cfg (RemoveExistingAssetType i) = (i, None)"
| "type_after cfg (DestroyForeignAsset i) = (i, None)"

text \<open>As long as no asset is given a type that is in use, the two maps stay inverse to each other, and
  a call changes the type of the asset it names and of no other; a call that fails writes nothing,
  and none panics.\<close>

theorem asset_types_agree:
  assumes "asset_types_ok s" and "fresh_type s c"
  shows "wp (asset_manager_dispatch cfg o' c)
    (\<lambda>_ t. asset_types_ok t \<and> AssetIdType t = (AssetIdType s)(fst (type_after cfg c) := snd (type_after cfg c)))
    (\<lambda>_ t. t = s) s"
proof (cases c)
  case (RegisterForeignAsset t md v b)
  then show ?thesis using assms
    by (auto simp: asset_manager_dispatch_def register_foreign_asset_def wp_simps asset_types_ok_def Let_def
        intro: inverse_maps_add split: option.split)
next
  case (ChangeExistingAssetType i t)
  have "inverse_maps ((AssetIdType s)(i \<mapsto> t)) ((AssetTypeId s)(t \<mapsto> i, k := None))"
    if k: "AssetIdType s i = Some k" for k
  proof -
    have "k \<noteq> t" using assms k ChangeExistingAssetType by (auto simp: asset_types_ok_def inverse_maps_def)
    then have "(AssetTypeId s)(t \<mapsto> i, k := None) = (AssetTypeId s)(k := None, t \<mapsto> i)" by (auto simp: fun_eq_iff)
    with inverse_maps_move [of "AssetIdType s" "AssetTypeId s" i k t] k assms ChangeExistingAssetType
    show ?thesis by (simp add: asset_types_ok_def)
  qed
  then show ?thesis using ChangeExistingAssetType
    by (auto simp: asset_manager_dispatch_def change_existing_asset_type_def wp_simps asset_types_ok_def
        split: option.split)
next
  case (RemoveExistingAssetType i)
  then show ?thesis using assms
    by (auto simp: asset_manager_dispatch_def remove_existing_asset_type_def drop_asset_type_def wp_simps
        asset_types_ok_def intro: inverse_maps_remove split: option.split)
next
  case (DestroyForeignAsset i)
  then show ?thesis using assms
    by (auto simp: asset_manager_dispatch_def destroy_foreign_asset_def drop_asset_type_def wp_simps
        asset_types_ok_def intro: inverse_maps_remove split: option.split)
qed

definition sample_manager :: "(nat, nat, unit, unit) asset_manager_config" where
  "sample_manager = \<lparr>type_into_id = \<lambda>t. t + 1000, is_asset_modifier = \<lambda>o'. o' = Root,
     registrar_create = \<lambda>i v md b w. Some w, registrar_destroy = \<lambda>i w. Some w\<rparr>"

definition managed :: "(nat, nat, unit, unit) asset_manager" where
  "managed = \<lparr>AssetIdType = [1007 \<mapsto> 7], AssetTypeId = [7 \<mapsto> 1007], manager_events = [], manager_world = ()\<rparr>"

lemma managed_ok: "asset_types_ok managed"
  by (auto simp: asset_types_ok_def managed_def inverse_maps_def)

lemma asset_types_agree_witness:
  "\<exists>t. asset_manager_dispatch sample_manager Root (ChangeExistingAssetType 1007 9) managed = (Ok (), t)
    \<and> AssetIdType t 1007 = Some 9 \<and> AssetTypeId t 9 = Some 1007"
proof -
  have "fresh_type managed (ChangeExistingAssetType 1007 9)" by (simp add: managed_def)
  note run = asset_types_agree [OF managed_ok this, of sample_manager Root]
  have "wp (asset_manager_dispatch sample_manager Root (ChangeExistingAssetType 1007 9))
      (\<lambda>_ t. True) (\<lambda>_ _. False) managed"
    by (simp add: asset_manager_dispatch_def change_existing_asset_type_def wp_simps sample_manager_def managed_def)
  then obtain x t where t: "asset_manager_dispatch sample_manager Root (ChangeExistingAssetType 1007 9) managed = (Ok x, t)"
    using wp_total by metis
  from wp_OkD [OF run t] have "asset_types_ok t" "AssetIdType t 1007 = Some 9" by auto
  moreover from this have "AssetTypeId t 9 = Some 1007"
    unfolding asset_types_ok_def by (rule inverse_mapsD)
  ultimately show ?thesis using t by auto
qed

text \<open>Changing an asset's type to the type it has loses the way back from the type to the asset: the
  call succeeds, the asset keeps its type, and the type is no longer mapped to it.\<close>

theorem same_type_loses_reverse_entry:
  assumes "is_asset_modifier cfg o'" and "AssetIdType s i = Some ty"
  shows "\<exists>s'. asset_manager_dispatch cfg o' (ChangeExistingAssetType i ty) s = (Ok (), s')
    \<and> get_asset_type s' i = Some ty \<and> get_asset_id s' ty = None"
proof -
  have "wp (asset_manager_dispatch cfg o' (ChangeExistingAssetType i ty))
      (\<lambda>_ t. get_asset_type t i = Some ty \<and> get_asset_id t ty = None) (\<lambda>_ _. False) s"
    using assms by (simp add: asset_manager_dispatch_def change_existing_asset_type_def wp_simps
        get_asset_type_def get_asset_id_def)
  from wp_total [OF this] show ?thesis by (metis old.unit.exhaust)
qed

lemma same_type_witness:
  "\<exists>s'. asset_manager_dispatch sample_manager Root (ChangeExistingAssetType 1007 7) managed = (Ok (), s')
    \<and> get_asset_id s' 7 = None"
  using same_type_loses_reverse_entry [of sample_manager Root managed 1007 7]
  by (auto simp: sample_manager_def managed_def)

end
