(* ===== verification/Foreign_Evm.thy ===== *)
theory Foreign_Evm
  imports Bytes Weight_Trader
begin

text \<open>
  The calls of pallet-moonbeam-foreign-assets into its ERC-20 contracts (\<open>evm.rs\<close>): the call data,
  the gas and weight limits, and what becomes of the outcome. The EVM runner itself, the contract's
  bytecode, keccak and the Solidity encoder are parameters.
\<close>

section \<open>Addresses of foreign assets\<close>

type_synonym AssetId = "128 word"

definition FOREIGN_ASSETS_PREFIX :: "byte list" where
  "FOREIGN_ASSETS_PREFIX = [0xff, 0xff, 0xff, 0xff]"

definition contract_address_from_asset_id :: "AssetId \<Rightarrow> H160" where
  "contract_address_from_asset_id i = FOREIGN_ASSETS_PREFIX @ to_be_bytes 16 (unat i)"

text \<open>The runtime's conversions between an account, which is an address, and an asset.\<close>

definition account_to_asset_id :: "H160 \<Rightarrow> (byte list \<times> AssetId) option" where
  "account_to_asset_id h160_account =
     (let prefix_part = take 4 h160_account; id_part = drop 4 h160_account
      in if prefix_part = FOREIGN_ASSETS_PREFIX
         then Some (prefix_part, word_of_nat (from_be_bytes id_part)) else None)"

text \<open>A prefix of another length than that of the slice it is copied to panics (\<open>None\<close>).\<close>

definition asset_id_to_account :: "byte list \<Rightarrow> AssetId \<Rightarrow> H160 option" where
  "asset_id_to_account prefix i =
     (if length prefix = 4 then Some (prefix @ to_be_bytes 16 (unat i)) else None)"

section \<open>The runner\<close>

type_synonym rust_string = "byte list"

text \<open>The reasons an execution ends with; an error of the EVM is known by its debug text.\<close>

datatype ExitSucceed = Stopped | Returned | Suicided
datatype ExitReason = Succeed ExitSucceed | ExitError rust_string | Revert | Fatal rust_string

record exec_info =
  exit_reason :: ExitReason
  exit_value :: "byte list"

record ForeignErc20ConstructorArgs =
  owner :: H160
  ctor_decimals :: byte
  ctor_symbol :: rust_string
  token_name :: rust_string

record 'w evm_config =
  runner_call :: "H160 \<Rightarrow> H160 \<Rightarrow> byte list \<Rightarrow> U256 \<Rightarrow> nat \<Rightarrow> Weight option \<Rightarrow> nat option
    \<Rightarrow> 'w \<Rightarrow> (rust_string + exec_info) \<times> 'w"
  runner_create :: "H160 \<Rightarrow> byte list \<Rightarrow> U256 \<Rightarrow> nat \<Rightarrow> H160 \<Rightarrow> 'w \<Rightarrow> (rust_string + exec_info) \<times> 'w"
  gas_to_weight :: "nat \<Rightarrow> bool \<Rightarrow> Weight"
  keccak256 :: "string \<Rightarrow> byte list"
  erc20_initcode :: "byte list"
  encode_constructor :: "ForeignErc20ConstructorArgs \<Rightarrow> byte list"
  pallet_account :: H160

text \<open>The pallet's account as an address.\<close>

definition account_id :: "('w, 'z) evm_config_scheme \<Rightarrow> H160" where
  "account_id cfg = pallet_account cfg"

datatype foreign_assets_error =
    AssetAlreadyExists | AssetAlreadyFrozen | AssetDoesNotExist | AssetIdFiltered | AssetNotFrozen
  | CorruptedStorageOrphanLocation | Erc20ContractCreationFail | EvmCallPauseFail
  | EvmCallUnpauseFail | EvmCallMintIntoFail | EvmCallTransferFail | EvmInternalError
  | InsufficientBalance | CannotConvertLocationToAccount | LocationOutsideOfOrigin
  | AssetNotInSiblingPara | InvalidSymbol | InvalidTokenName | LocationAlreadyExists
  | TooManyForeignAssets

datatype EvmError =
    BurnFromFail rust_string
  | BalanceOfFail rust_string
  | ContractReturnInvalidValue
  | EvmDispatchError
  | EvmCallFail rust_string
  | MintIntoFail rust_string
  | TransferFail rust_string

definition ERC20_CREATE_GAS_LIMIT :: nat where "ERC20_CREATE_GAS_LIMIT = 3600000"
definition ERC20_BURN_FROM_GAS_LIMIT :: nat where "ERC20_BURN_FROM_GAS_LIMIT = 160000"
definition ERC20_MINT_INTO_GAS_LIMIT :: nat where "ERC20_MINT_INTO_GAS_LIMIT = 160000"
definition ERC20_PAUSE_GAS_LIMIT :: nat where "ERC20_PAUSE_GAS_LIMIT = 160000"
definition ERC20_TRANSFER_GAS_LIMIT :: nat where "ERC20_TRANSFER_GAS_LIMIT = 160000"
definition ERC20_APPROVE_GAS_LIMIT :: nat where "ERC20_APPROVE_GAS_LIMIT = 160000"
definition ERC20_UNPAUSE_GAS_LIMIT :: nat where "ERC20_UNPAUSE_GAS_LIMIT = 160000"
definition ERC20_BALANCE_OF_GAS_LIMIT :: nat where "ERC20_BALANCE_OF_GAS_LIMIT = 160000"

section \<open>What an execution that did not succeed says\<close>

definition BASE_MESSAGE :: rust_string where
  "BASE_MESSAGE = ascii ''VM Exception while processing transaction: revert''"

text \<open>\<open>usize\<close> has 32 bits; \<open>saturated_into\<close> and \<open>saturating_add\<close> stop at its maximum.\<close>

definition extract_revert_message :: "byte list \<Rightarrow> rust_string" where
  "extract_revert_message data =
     (if length data \<le> 68 then BASE_MESSAGE
      else let message_len = min (from_be_bytes (take 32 (drop 36 data))) u32_max;
               message_end = min (68 + message_len) u32_max
        in if length data < message_end then BASE_MESSAGE
           else let body = take (message_end - 68) (drop 68 data)
             in case from_utf8 body of
                  Some reason \<Rightarrow> BASE_MESSAGE @ ascii '' '' @ reason
                | None \<Rightarrow> BASE_MESSAGE)"

fun error_on_execution_failure :: "ExitReason \<Rightarrow> byte list \<Rightarrow> rust_string" where
  "error_on_execution_failure (Succeed _) data = []"
| "error_on_execution_failure (ExitError reason) data = ascii ''evm error: '' @ reason"
| "error_on_execution_failure (Fatal reason) data = ascii ''evm fatal: '' @ reason"
| "error_on_execution_failure Revert data = extract_revert_message data"

definition succeeded :: "exec_info \<Rightarrow> bool" where
  "succeeded info \<longleftrightarrow> exit_reason info \<in> {Succeed Returned, Succeed Stopped}"

definition failure_text :: "exec_info \<Rightarrow> rust_string" where
  "failure_text info = error_on_execution_failure (exit_reason info) (exit_value info)"

section \<open>Calls\<close>

text \<open>A run of the EVM on the storage of the chain, and the bytes of a call.\<close>

definition run_evm ::
  "('w \<Rightarrow> (rust_string + exec_info) \<times> 'w) \<Rightarrow> ('w, rust_string, exec_info) prog" where
  "run_evm f = (\<lambda>w. case f w of (Inl e, w') \<Rightarrow> (Err e, w') | (Inr info, w') \<Rightarrow> (Ok info, w'))"

definition selector :: "('w, 'z) evm_config_scheme \<Rightarrow> string \<Rightarrow> byte list" where
  "selector cfg signature = take 4 (keccak256 cfg signature)"

text \<open>\<open>H256::from(H160)\<close> and \<open>H256::from_uint\<close>.\<close>

definition h256_from :: "H160 \<Rightarrow> byte list" where
  "h256_from a = replicate 12 0 @ a"

definition h256_from_uint :: "U256 \<Rightarrow> byte list" where
  "h256_from_uint v = to_be_bytes 32 (unat v)"

definition erc20_create ::
  "('w, 'z) evm_config_scheme \<Rightarrow> AssetId \<Rightarrow> byte \<Rightarrow> rust_string \<Rightarrow> rust_string
    \<Rightarrow> ('w, foreign_assets_error, H160) prog" where
  "erc20_create cfg i decimals' symbol' token_name' =
     (let args = \<lparr>owner = account_id cfg, ctor_decimals = decimals', ctor_symbol = symbol',
                  token_name = token_name'\<rparr>;
          init = erc20_initcode cfg @ drop 32 (encode_constructor cfg args);
          contract_address = contract_address_from_asset_id i
      in bind_m (map_err_m (\<lambda>_. Erc20ContractCreationFail)
           (run_evm (runner_create cfg (account_id cfg) init 0 ERC20_CREATE_GAS_LIMIT contract_address)))
         (\<lambda>info. then_m (ensure_m (succeeded info) Erc20ContractCreationFail) (return_m contract_address)))"

definition erc20_mint_into ::
  "('w, 'z) evm_config_scheme \<Rightarrow> H160 \<Rightarrow> H160 \<Rightarrow> U256 \<Rightarrow> ('w, EvmError, unit) prog" where
  "erc20_mint_into cfg contract beneficiary amount =
     (let input = selector cfg ''mintInto(address,uint256)'' @ h256_from beneficiary @ h256_from_uint amount;
          weight_limit = gas_to_weight cfg ERC20_MINT_INTO_GAS_LIMIT True
      in bind_m (map_err_m MintIntoFail (run_evm (runner_call cfg (account_id cfg) contract input 0
           ERC20_MINT_INTO_GAS_LIMIT (Some weight_limit) (Some 0))))
         (\<lambda>info. ensure_m (succeeded info) (MintIntoFail (failure_text info))))"

definition erc20_transfer ::
  "('w, 'z) evm_config_scheme \<Rightarrow> H160 \<Rightarrow> H160 \<Rightarrow> H160 \<Rightarrow> U256 \<Rightarrow> ('w, EvmError, unit) prog" where
  "erc20_transfer cfg contract sender receiver amount =
     (let input = selector cfg ''transfer(address,uint256)'' @ h256_from receiver @ h256_from_uint amount;
          weight_limit = gas_to_weight cfg ERC20_TRANSFER_GAS_LIMIT True
      in bind_m (map_err_m TransferFail (run_evm (runner_call cfg sender contract input 0
           ERC20_TRANSFER_GAS_LIMIT (Some weight_limit) (Some 0))))
         (\<lambda>info. then_m (ensure_m (succeeded info) (TransferFail (failure_text info)))
           (ensure_m (exit_value info \<noteq> [] \<and> exit_value info = h256_from_uint 1)
             ContractReturnInvalidValue)))"

definition erc20_approve ::
  "('w, 'z) evm_config_scheme \<Rightarrow> H160 \<Rightarrow> H160 \<Rightarrow> H160 \<Rightarrow> U256 \<Rightarrow> ('w, EvmError, unit) prog" where
  "erc20_approve cfg contract owner' spender amount =
     (let input = selector cfg ''approve(address,uint256)'' @ h256_from spender @ h256_from_uint amount;
          weight_limit = gas_to_weight cfg ERC20_APPROVE_GAS_LIMIT True
      in bind_m (map_err_m EvmCallFail (run_evm (runner_call cfg owner' contract input 0
           ERC20_APPROVE_GAS_LIMIT (Some weight_limit) (Some 0))))
         (\<lambda>info. ensure_m (succeeded info) (EvmCallFail (failure_text info))))"

definition erc20_burn_from ::
  "('w, 'z) evm_config_scheme \<Rightarrow> H160 \<Rightarrow> H160 \<Rightarrow> U256 \<Rightarrow> ('w, EvmError, unit) prog" where
  "erc20_burn_from cfg contract who amount =
     (let input = selector cfg ''burnFrom(address,uint256)'' @ h256_from who @ h256_from_uint amount;
          weight_limit = gas_to_weight cfg ERC20_BURN_FROM_GAS_LIMIT True
      in bind_m (map_err_m EvmCallFail (run_evm (runner_call cfg (account_id cfg) contract input 0
           ERC20_BURN_FROM_GAS_LIMIT (Some weight_limit) (Some 0))))
         (\<lambda>info. ensure_m (succeeded info) (BurnFromFail (failure_text info))))"

text \<open>Pausing and unpausing, whose two errors are the pallet's.\<close>

definition erc20_pause ::
  "('w, 'z) evm_config_scheme \<Rightarrow> AssetId \<Rightarrow> ('w, foreign_assets_error, unit) prog" where
  "erc20_pause cfg i =
     (let input = selector cfg ''pause()'';
          weight_limit = gas_to_weight cfg ERC20_PAUSE_GAS_LIMIT True
      in bind_m (map_err_m (\<lambda>_. EvmInternalError) (run_evm (runner_call cfg (account_id cfg)
           (contract_address_from_asset_id i) input 0 ERC20_PAUSE_GAS_LIMIT (Some weight_limit) (Some 0))))
         (\<lambda>info. ensure_m (succeeded info) EvmCallPauseFail))"

definition erc20_unpause ::
  "('w, 'z) evm_config_scheme \<Rightarrow> AssetId \<Rightarrow> ('w, foreign_assets_error, unit) prog" where
  "erc20_unpause cfg i =
     (let input = selector cfg ''unpause()'';
          weight_limit = gas_to_weight cfg ERC20_UNPAUSE_GAS_LIMIT True
      in bind_m (map_err_m (\<lambda>_. EvmInternalError) (run_evm (runner_call cfg (account_id cfg)
           (contract_address_from_asset_id i) input 0 ERC20_UNPAUSE_GAS_LIMIT (Some weight_limit) (Some 0))))
         (\<lambda>info. ensure_m (succeeded info) EvmCallUnpauseFail))"

text \<open>\<open>U256::from_big_endian\<close> panics on more than 32 bytes.\<close>

definition erc20_balance_of ::
  "('w, 'z) evm_config_scheme \<Rightarrow> AssetId \<Rightarrow> H160 \<Rightarrow> ('w, EvmError, U256) prog" where
  "erc20_balance_of cfg i account =
     (let input = selector cfg ''balanceOf(address)'' @ h256_from account
      in bind_m (map_err_m EvmCallFail (run_evm (runner_call cfg (account_id cfg)
           (contract_address_from_asset_id i) input 0 ERC20_BALANCE_OF_GAS_LIMIT None None)))
         (\<lambda>info. then_m (ensure_m (succeeded info) (BalanceOfFail (failure_text info)))
           (if length (exit_value info) \<le> 32
            then return_m (word_of_nat (from_be_bytes (exit_value info))) else panic_m)))"

lemma wp_run_evm [wp_simps]:
  "wp (run_evm f) Q E w = (case f w of (Inl e, w') \<Rightarrow> E e w' | (Inr info, w') \<Rightarrow> Q info w')"
  by (simp add: wp_def run_evm_def split: prod.split sum.split)

end
