(* ===== verification/Foreign_Assets.thy ===== *)
theory Foreign_Assets
  imports Foreign_Evm
begin

text \<open>
  pallet-moonbeam-foreign-assets (\<open>lib.rs\<close>): the registry of foreign assets with an ERC-20
  contract each, its calls, and the transfers of these assets by XCM.
\<close>

section \<open>Types and storage\<close>

datatype 'l OriginType = XCM 'l | Governance

text \<open>\<open>MapSuccessToGovernance\<close> and \<open>MapSuccessToXcm\<close>, of an origin check given as a function.\<close>

definition map_success_to_governance :: "('o \<Rightarrow> bool) \<Rightarrow> 'o \<Rightarrow> 'l OriginType option" where
  "map_success_to_governance original o' = (if original o' then Some Governance else None)"

definition map_success_to_xcm :: "('o \<Rightarrow> 'l option) \<Rightarrow> 'o \<Rightarrow> 'l OriginType option" where
  "map_success_to_xcm original o' = map_option XCM (original o')"

datatype AssetStatus = Active | FrozenXcmDepositAllowed | FrozenXcmDepositForbidden

record 'l EvmForeignAssetInfo =
  fa_asset_id :: AssetId
  fa_xcm_location :: 'l
  fa_decimals :: byte
  fa_symbol :: rust_string
  fa_name :: rust_string

record AssetDepositDetails =
  deposit_account :: AccountId
  deposit_amount :: Balance

datatype 'l foreign_event =
    ForeignAssetCreated H160 AssetId 'l "Balance option"
  | ForeignAssetXcmLocationChanged AssetId 'l 'l
  | ForeignAssetFrozen AssetId 'l
  | ForeignAssetUnfrozen AssetId 'l
  | TokensLocked AccountId AssetId U256

text \<open>\<open>AssetsById\<close> is a counted map: its counter is stored beside it.\<close>

record ('l, 'w) foreign_state =
  AssetsById :: "AssetId \<rightharpoonup> 'l"
  AssetsByIdCount :: nat
  AssetsByLocation :: "'l \<rightharpoonup> AssetId \<times> AssetStatus"
  AssetsCreationDetails :: "AssetId \<rightharpoonup> AssetDepositDetails"
  foreign_events :: "'l foreign_event list"
  foreign_world :: 'w

text \<open>
  The configuration. A location is a value of type \<open>'l\<close>; \<open>unpack\<close> gives the number of its parents
  and its junctions, \<open>starts_with\<close> whether the second is a prefix of the first.
\<close>

datatype Junction = Parachain nat | OtherJunction nat

record ('l, 'o, 'w) foreign_config = "'w evm_config" +
  account_id_to_h160 :: "AccountId \<Rightarrow> H160"
  asset_id_filter :: "AssetId \<Rightarrow> bool"
  account_of_location :: "'l \<Rightarrow> AccountId option"
  h160_of_location :: "'l \<Rightarrow> H160 option"
  unpack :: "'l \<Rightarrow> nat \<times> Junction list"
  starts_with :: "'l \<Rightarrow> 'l \<Rightarrow> bool"
  ForeignAssetCreatorOrigin :: "'o \<Rightarrow> 'l OriginType option"
  ForeignAssetFreezerOrigin :: "'o \<Rightarrow> 'l OriginType option"
  ForeignAssetModifierOrigin :: "'o \<Rightarrow> 'l OriginType option"
  ForeignAssetUnfreezerOrigin :: "'o \<Rightarrow> 'l OriginType option"
  on_asset_created :: "'l \<Rightarrow> AssetId \<Rightarrow> 'w \<Rightarrow> 'w"
  MaxForeignAssets :: nat
  ForeignAssetCreationDeposit :: "'w \<Rightarrow> Balance"
  currency_reserve :: "AccountId \<Rightarrow> Balance \<Rightarrow> 'w \<Rightarrow> 'w option"

type_synonym ('l, 'w, 'a) foreign_m =
  "(('l, 'w) foreign_state, foreign_assets_error pallet_error, 'a) prog"

text \<open>The hook that does nothing.\<close>

definition on_asset_created_unit :: "'l \<Rightarrow> AssetId \<Rightarrow> 'w \<Rightarrow> 'w" where
  "on_asset_created_unit l i w = w"

definition in_world :: "('w, 'e, 'a) prog \<Rightarrow> (('l, 'w) foreign_state, 'e, 'a) prog" where
  "in_world m = (\<lambda>s. case m (foreign_world s) of (r, w) \<Rightarrow> (r, s\<lparr>foreign_world := w\<rparr>))"

definition deposit_foreign_event :: "'l foreign_event \<Rightarrow> ('l, 'w, unit) foreign_m" where
  "deposit_foreign_event e = modify_m (\<lambda>s. s\<lparr>foreign_events := foreign_events s @ [e]\<rparr>)"

text \<open>Inserting into the counted map counts a key that is new.\<close>

definition put_by_id :: "AssetId \<Rightarrow> 'l \<Rightarrow> ('l, 'w, unit) foreign_m" where
  "put_by_id i l = modify_m (\<lambda>s. s\<lparr>AssetsById := (AssetsById s)(i \<mapsto> l),
     AssetsByIdCount := (if AssetsById s i = None then sat_add_u32 (AssetsByIdCount s) 1
       else AssetsByIdCount s)\<rparr>)"

definition put_by_location :: "'l \<Rightarrow> AssetId \<times> AssetStatus \<Rightarrow> ('l, 'w, unit) foreign_m" where
  "put_by_location l x = modify_m (\<lambda>s. s\<lparr>AssetsByLocation := (AssetsByLocation s)(l \<mapsto> x)\<rparr>)"

definition ensure_foreign_origin :: "('o \<Rightarrow> 'l OriginType option) \<Rightarrow> 'o \<Rightarrow> ('l, 'w, 'l OriginType) foreign_m"
  where "ensure_foreign_origin check o' = ok_or_m (check o') NotAllowed"

lemma wp_in_world [wp_simps]:
  "wp (in_world m) Q E s = wp m (\<lambda>x w. Q x (s\<lparr>foreign_world := w\<rparr>)) (\<lambda>e w. E e (s\<lparr>foreign_world := w\<rparr>))
    (foreign_world s)"
  by (auto simp: wp_def in_world_def split: prod.splits outcome.splits)

lemma wp_foreign [wp_simps]:
  "wp (deposit_foreign_event e) Q E s = Q () (s\<lparr>foreign_events := foreign_events s @ [e]\<rparr>)"
  "wp (put_by_id i l) Q E s = Q () (s\<lparr>AssetsById := (AssetsById s)(i \<mapsto> l),
     AssetsByIdCount := (if AssetsById s i = None then sat_add_u32 (AssetsByIdCount s) 1
       else AssetsByIdCount s)\<rparr>)"
  "wp (put_by_location l x) Q E s = Q () (s\<lparr>AssetsByLocation := (AssetsByLocation s)(l \<mapsto> x)\<rparr>)"
  "wp (ensure_foreign_origin check o') P E s =
     (case check o' of None \<Rightarrow> E NotAllowed s | Some t \<Rightarrow> P t s)"
  by (simp_all add: deposit_foreign_event_def put_by_id_def put_by_location_def
      ensure_foreign_origin_def wp_simps)

section \<open>Guards\<close>

definition convert_location :: "('l, 'o, 'w) foreign_config \<Rightarrow> 'l \<Rightarrow> ('l, 'w, AccountId) foreign_m" where
  "convert_location cfg location =
     (case unpack cfg location of
        (Suc 0, [Parachain _]) \<Rightarrow>
          ok_or_p (account_of_location cfg location) CannotConvertLocationToAccount
      | _ \<Rightarrow> fail_m NotAllowed)"

definition ensure_origin_can_modify_location ::
  "('l, 'o, 'w) foreign_config \<Rightarrow> 'l OriginType \<Rightarrow> 'l \<Rightarrow> ('l, 'w, unit) foreign_m" where
  "ensure_origin_can_modify_location cfg origin_type location =
     (case origin_type of
        XCM origin_location \<Rightarrow> ensure_p (starts_with cfg location origin_location) LocationOutsideOfOrigin
      | Governance \<Rightarrow> return_m ())"

definition get_deposit_account ::
  "('l, 'o, 'w) foreign_config \<Rightarrow> 'l OriginType \<Rightarrow> ('l, 'w, AccountId option) foreign_m" where
  "get_deposit_account cfg origin_type =
     (case origin_type of
        XCM origin_location \<Rightarrow>
          bind_m (convert_location cfg origin_location) (\<lambda>account. return_m (Some account))
      | Governance \<Rightarrow> return_m None)"

section \<open>Operations\<close>

definition reserve_deposit ::
  "('l, 'o, 'w) foreign_config \<Rightarrow> AccountId \<Rightarrow> Balance \<Rightarrow> ('l, 'w, unit) foreign_m" where
  "reserve_deposit cfg account amount =
     bind_m (gets_m (\<lambda>s. currency_reserve cfg account amount (foreign_world s))) (\<lambda>r.
     bind_m (ok_or_m r (Foreign ''InsufficientBalance'')) (\<lambda>w.
     modify_m (\<lambda>s. s\<lparr>foreign_world := w\<rparr>)))"

definition do_create_asset ::
  "('l, 'o, 'w) foreign_config \<Rightarrow> AssetId \<Rightarrow> 'l \<Rightarrow> byte \<Rightarrow> byte list \<Rightarrow> byte list
    \<Rightarrow> AccountId option \<Rightarrow> ('l, 'w, unit) foreign_m" where
  "do_create_asset cfg i asset_xcm_location decimals' symbol' name' deposit_account' =
     bind_m (gets_m (\<lambda>s. AssetsById s i)) (\<lambda>known.
     then_m (ensure_p (known = None) AssetAlreadyExists)
    (bind_m (gets_m (\<lambda>s. AssetsByLocation s asset_xcm_location)) (\<lambda>taken.
     then_m (ensure_p (taken = None) LocationAlreadyExists)
    (bind_m (gets_m AssetsByIdCount) (\<lambda>count.
     then_m (ensure_p (count < MaxForeignAssets cfg) TooManyForeignAssets)
    (then_m (ensure_p (asset_id_filter cfg i) AssetIdFiltered)
    (bind_m (ok_or_p (from_utf8 symbol') InvalidSymbol) (\<lambda>symbol'.
     bind_m (ok_or_p (from_utf8 name') InvalidTokenName) (\<lambda>name'.
     bind_m (map_err_m PalletError (in_world (erc20_create cfg i decimals' symbol' name')))
      (\<lambda>contract_address.
     bind_m (case deposit_account' of
         Some account \<Rightarrow>
           bind_m (gets_m (\<lambda>s. ForeignAssetCreationDeposit cfg (foreign_world s))) (\<lambda>deposit.
           then_m (reserve_deposit cfg account deposit)
          (then_m (modify_m (\<lambda>s. s\<lparr>AssetsCreationDetails := (AssetsCreationDetails s)
                 (i \<mapsto> \<lparr>deposit_account = account, deposit_amount = deposit\<rparr>)\<rparr>))
             (return_m (Some deposit))))
       | None \<Rightarrow> return_m None) (\<lambda>deposit.
     then_m (put_by_id i asset_xcm_location)
    (then_m (put_by_location asset_xcm_location (i, Active))
    (then_m (modify_m (\<lambda>s. s\<lparr>foreign_world := on_asset_created cfg asset_xcm_location i (foreign_world s)\<rparr>))
            (deposit_foreign_event (ForeignAssetCreated contract_address i asset_xcm_location deposit)))))))))))))))"

definition register_evm_foreign_asset ::
  "('l, 'o, 'w) foreign_config \<Rightarrow> AssetId \<Rightarrow> 'l \<Rightarrow> byte \<Rightarrow> byte list \<Rightarrow> byte list \<Rightarrow> ('l, 'w, unit) foreign_m"
  where
  "register_evm_foreign_asset cfg i xcm_location decimals' symbol' name' =
     do_create_asset cfg i xcm_location decimals' symbol' name' None"

definition do_change_xcm_location :: "AssetId \<Rightarrow> 'l \<Rightarrow> 'l \<Rightarrow> ('l, 'w, unit) foreign_m" where
  "do_change_xcm_location i previous_xcm_location new_xcm_location =
     bind_m (gets_m (\<lambda>s. AssetsByLocation s new_xcm_location)) (\<lambda>taken.
     then_m (ensure_p (taken = None) LocationAlreadyExists)
    (bind_m (gets_m (\<lambda>s. AssetsByLocation s previous_xcm_location)) (\<lambda>entry.
     then_m (modify_m (\<lambda>s. s\<lparr>AssetsByLocation := (AssetsByLocation s)(previous_xcm_location := None)\<rparr>))
    (bind_m (ok_or_p entry CorruptedStorageOrphanLocation) (\<lambda>(_, asset_status).
     then_m (put_by_id i new_xcm_location)
    (then_m (put_by_location new_xcm_location (i, asset_status))
            (deposit_foreign_event
              (ForeignAssetXcmLocationChanged i previous_xcm_location new_xcm_location))))))))"

definition do_freeze_asset ::
  "('l, 'o, 'w) foreign_config \<Rightarrow> AssetId \<Rightarrow> 'l \<Rightarrow> bool \<Rightarrow> ('l, 'w, unit) foreign_m" where
  "do_freeze_asset cfg i xcm_location allow_xcm_deposit =
     bind_m (gets_m (\<lambda>s. AssetsByLocation s xcm_location)) (\<lambda>entry.
     bind_m (ok_or_p entry CorruptedStorageOrphanLocation) (\<lambda>(_, asset_status).
     then_m (ensure_p (asset_status = Active) AssetAlreadyFrozen)
    (then_m (map_err_m PalletError (in_world (erc20_pause cfg i)))
    (let new_asset_status = (if allow_xcm_deposit then FrozenXcmDepositAllowed
                             else FrozenXcmDepositForbidden)
     in then_m (put_by_location xcm_location (i, new_asset_status))
               (deposit_foreign_event (ForeignAssetFrozen i xcm_location))))))"

definition do_unfreeze_asset ::
  "('l, 'o, 'w) foreign_config \<Rightarrow> AssetId \<Rightarrow> 'l \<Rightarrow> ('l, 'w, unit) foreign_m" where
  "do_unfreeze_asset cfg i xcm_location =
     bind_m (gets_m (\<lambda>s. AssetsByLocation s xcm_location)) (\<lambda>entry.
     bind_m (ok_or_p entry CorruptedStorageOrphanLocation) (\<lambda>(_, asset_status).
     then_m (ensure_p (asset_status = FrozenXcmDepositAllowed \<or> asset_status = FrozenXcmDepositForbidden)
              AssetNotFrozen)
    (then_m (map_err_m PalletError (in_world (erc20_unpause cfg i)))
    (then_m (put_by_location xcm_location (i, Active))
            (deposit_foreign_event (ForeignAssetUnfrozen i xcm_location))))))"

section \<open>Calls\<close>

definition create_foreign_asset ::
  "('l, 'o, 'w) foreign_config \<Rightarrow> 'o \<Rightarrow> AssetId \<Rightarrow> 'l \<Rightarrow> byte \<Rightarrow> byte list \<Rightarrow> byte list
    \<Rightarrow> ('l, 'w, unit) foreign_m" where
  "create_foreign_asset cfg o' i asset_xcm_location decimals' symbol' name' =
     bind_m (ensure_foreign_origin (ForeignAssetCreatorOrigin cfg) o') (\<lambda>origin_type.
     then_m (ensure_origin_can_modify_location cfg origin_type asset_xcm_location)
    (bind_m (get_deposit_account cfg origin_type) (\<lambda>account.
     do_create_asset cfg i asset_xcm_location decimals' symbol' name' account)))"

definition change_xcm_location ::
  "('l, 'o, 'w) foreign_config \<Rightarrow> 'o \<Rightarrow> AssetId \<Rightarrow> 'l \<Rightarrow> ('l, 'w, unit) foreign_m" where
  "change_xcm_location cfg o' i new_xcm_location =
     bind_m (ensure_foreign_origin (ForeignAssetModifierOrigin cfg) o') (\<lambda>origin_type.
     then_m (ensure_origin_can_modify_location cfg origin_type new_xcm_location)
    (bind_m (gets_m (\<lambda>s. AssetsById s i)) (\<lambda>found.
     bind_m (ok_or_p found AssetDoesNotExist) (\<lambda>previous_location.
     then_m (ensure_origin_can_modify_location cfg origin_type previous_location)
            (do_change_xcm_location i previous_location new_xcm_location)))))"

definition freeze_foreign_asset ::
  "('l, 'o, 'w) foreign_config \<Rightarrow> 'o \<Rightarrow> AssetId \<Rightarrow> bool \<Rightarrow> ('l, 'w, unit) foreign_m" where
  "freeze_foreign_asset cfg o' i allow_xcm_deposit =
     bind_m (ensure_foreign_origin (ForeignAssetFreezerOrigin cfg) o') (\<lambda>origin_type.
     bind_m (gets_m (\<lambda>s. AssetsById s i)) (\<lambda>found.
     bind_m (ok_or_p found AssetDoesNotExist) (\<lambda>xcm_location.
     then_m (ensure_origin_can_modify_location cfg origin_type xcm_location)
            (do_freeze_asset cfg i xcm_location allow_xcm_deposit))))"

definition unfreeze_foreign_asset ::
  "('l, 'o, 'w) foreign_config \<Rightarrow> 'o \<Rightarrow> AssetId \<Rightarrow> ('l, 'w, unit) foreign_m" where
  "unfreeze_foreign_asset cfg o' i =
     bind_m (ensure_foreign_origin (ForeignAssetUnfreezerOrigin cfg) o') (\<lambda>origin_type.
     bind_m (gets_m (\<lambda>s. AssetsById s i)) (\<lambda>found.
     bind_m (ok_or_p found AssetDoesNotExist) (\<lambda>xcm_location.
     then_m (ensure_origin_can_modify_location cfg origin_type xcm_location)
            (do_unfreeze_asset cfg i xcm_location))))"

datatype 'l foreign_call =
    CreateForeignAsset AssetId 'l byte "byte list" "byte list"
  | ChangeXcmLocation AssetId 'l
  | FreezeForeignAsset AssetId bool
  | UnfreezeForeignAsset AssetId

definition foreign_dispatch ::
  "('l, 'o, 'w) foreign_config \<Rightarrow> 'o \<Rightarrow> 'l foreign_call \<Rightarrow> ('l, 'w, unit) foreign_m" where
  "foreign_dispatch cfg o' c = transactional (case c of
      CreateForeignAsset i l d sy n \<Rightarrow> create_foreign_asset cfg o' i l d sy n
    | ChangeXcmLocation i l \<Rightarrow> change_xcm_location cfg o' i l
    | FreezeForeignAsset i b \<Rightarrow> freeze_foreign_asset cfg o' i b
    | UnfreezeForeignAsset i \<Rightarrow> unfreeze_foreign_asset cfg o' i)"

definition foreign_genesis_default :: "'l EvmForeignAssetInfo list" where
  "foreign_genesis_default = []"

definition foreign_genesis ::
  "('l, 'o, 'w) foreign_config \<Rightarrow> 'l EvmForeignAssetInfo list \<Rightarrow> ('l, 'w, unit) foreign_m" where
  "foreign_genesis cfg assets =
     for_each_m (\<lambda>asset. expect_ok_m (register_evm_foreign_asset cfg (fa_asset_id asset)
       (fa_xcm_location asset) (fa_decimals asset) (fa_symbol asset) (fa_name asset))) assets"

section \<open>Functions for other pallets\<close>

definition mint_into ::
  "('l, 'o, 'w) foreign_config \<Rightarrow> AssetId \<Rightarrow> AccountId \<Rightarrow> U256 \<Rightarrow> (('l, 'w) foreign_state, EvmError, unit) prog"
  where
  "mint_into cfg i beneficiary amount = transactional (in_world
     (erc20_mint_into cfg (contract_address_from_asset_id i) (account_id_to_h160 cfg beneficiary) amount))"

definition transfer ::
  "('l, 'o, 'w) foreign_config \<Rightarrow> AssetId \<Rightarrow> AccountId \<Rightarrow> AccountId \<Rightarrow> U256
    \<Rightarrow> (('l, 'w) foreign_state, EvmError, unit) prog" where
  "transfer cfg i sender receiver amount = transactional (in_world
     (erc20_transfer cfg (contract_address_from_asset_id i) (account_id_to_h160 cfg sender)
       (account_id_to_h160 cfg receiver) amount))"

definition balance ::
  "('l, 'o, 'w) foreign_config \<Rightarrow> AssetId \<Rightarrow> AccountId \<Rightarrow> (('l, 'w) foreign_state, EvmError, U256) prog" where
  "balance cfg i who = in_world (erc20_balance_of cfg i (account_id_to_h160 cfg who))"

definition approve ::
  "('l, 'o, 'w) foreign_config \<Rightarrow> AssetId \<Rightarrow> AccountId \<Rightarrow> AccountId \<Rightarrow> U256
    \<Rightarrow> (('l, 'w) foreign_state, EvmError, unit) prog" where
  "approve cfg i owner' spender amount = transactional (in_world
     (erc20_approve cfg (contract_address_from_asset_id i) (account_id_to_h160 cfg owner')
       (account_id_to_h160 cfg spender) amount))"

definition weight_of_erc20_burn :: "('l, 'o, 'w) foreign_config \<Rightarrow> Weight" where
  "weight_of_erc20_burn cfg = gas_to_weight cfg ERC20_BURN_FROM_GAS_LIMIT True"

definition weight_of_erc20_mint :: "('l, 'o, 'w) foreign_config \<Rightarrow> Weight" where
  "weight_of_erc20_mint cfg = gas_to_weight cfg ERC20_MINT_INTO_GAS_LIMIT True"

definition weight_of_erc20_transfer :: "('l, 'o, 'w) foreign_config \<Rightarrow> Weight" where
  "weight_of_erc20_transfer cfg = gas_to_weight cfg ERC20_TRANSFER_GAS_LIMIT True"

text \<open>\<open>MaybeEquivalence\<close>: from a location to the asset and back.\<close>

definition convert :: "('l, 'w) foreign_state \<Rightarrow> 'l \<Rightarrow> AssetId option" where
  "convert s location = map_option fst (AssetsByLocation s location)"

definition convert_back :: "('l, 'w) foreign_state \<Rightarrow> AssetId \<Rightarrow> 'l option" where
  "convert_back s i = AssetsById s i"

section \<open>Transfers by XCM\<close>

datatype MatchError = AssetNotHandled | AccountIdConversionFailed
datatype transact_error = FromMatch MatchError | FailedToTransactAsset string

fun transact_error_from :: "EvmError \<Rightarrow> transact_error" where
  "transact_error_from (BurnFromFail e) = FailedToTransactAsset ''Erc20 contract call burnFrom fail''"
| "transact_error_from (BalanceOfFail e) = FailedToTransactAsset ''Erc20 contract call balanceOf fail''"
| "transact_error_from ContractReturnInvalidValue =
     FailedToTransactAsset ''Erc20 contract return invalid value''"
| "transact_error_from EvmDispatchError = FailedToTransactAsset ''storage layer error''"
| "transact_error_from (EvmCallFail e) = FailedToTransactAsset ''Fail to call erc20 contract''"
| "transact_error_from (MintIntoFail e) = FailedToTransactAsset ''Erc20 contract call mintInto fail+''"
| "transact_error_from (TransferFail e) = FailedToTransactAsset ''Erc20 contract call transfer fail''"

type_synonym ('l, 'w, 'a) transact_m = "(('l, 'w) foreign_state, transact_error, 'a) prog"

definition match_asset :: "'l Asset \<Rightarrow> ('l, 'w, H160 \<times> U256 \<times> AssetStatus) transact_m" where
  "match_asset asset =
     (case asset_fun asset of
        Fungible amount \<Rightarrow>
          bind_m (gets_m (\<lambda>s. AssetsByLocation s (asset_id asset))) (\<lambda>found. case found of
            Some (i, asset_status) \<Rightarrow>
              return_m (contract_address_from_asset_id i, word_of_nat amount, asset_status)
          | None \<Rightarrow> fail_m (FromMatch AssetNotHandled))
      | NonFungible _ \<Rightarrow> fail_m (FromMatch AssetNotHandled))"

definition location_to_h160 :: "('l, 'o, 'w) foreign_config \<Rightarrow> 'l \<Rightarrow> ('l, 'w, H160) transact_m" where
  "location_to_h160 cfg l = ok_or_m (h160_of_location cfg l) (FromMatch AccountIdConversionFailed)"

definition transact_evm :: "('w, EvmError, unit) prog \<Rightarrow> ('l, 'w, unit) transact_m" where
  "transact_evm m = map_err_m transact_error_from (transactional (in_world m))"

definition deposit_asset :: "('l, 'o, 'w) foreign_config \<Rightarrow> 'l Asset \<Rightarrow> 'l \<Rightarrow> ('l, 'w, unit) transact_m" where
  "deposit_asset cfg what who =
     bind_m (match_asset what) (\<lambda>(contract_address, amount, asset_status).
     then_m (ensure_m (asset_status \<noteq> FrozenXcmDepositForbidden) (FromMatch AssetNotHandled))
    (bind_m (location_to_h160 cfg who) (\<lambda>beneficiary.
     transact_evm (erc20_mint_into cfg contract_address beneficiary amount))))"

definition internal_transfer_asset ::
  "('l, 'o, 'w) foreign_config \<Rightarrow> 'l Asset \<Rightarrow> 'l \<Rightarrow> 'l \<Rightarrow> ('l, 'w, 'l Asset) transact_m" where
  "internal_transfer_asset cfg asset sender receiver =
     bind_m (match_asset asset) (\<lambda>(contract_address, amount, asset_status).
     then_m (ensure_m (asset_status \<notin> {FrozenXcmDepositForbidden, FrozenXcmDepositAllowed})
              (FromMatch AssetNotHandled))
    (bind_m (location_to_h160 cfg sender) (\<lambda>sender'.
     bind_m (location_to_h160 cfg receiver) (\<lambda>receiver'.
     then_m (transact_evm (erc20_transfer cfg contract_address sender' receiver' amount))
            (return_m asset)))))"

definition withdraw_asset :: "('l, 'o, 'w) foreign_config \<Rightarrow> 'l Asset \<Rightarrow> 'l \<Rightarrow> ('l, 'w, 'l Asset) transact_m"
  where
  "withdraw_asset cfg what who =
     bind_m (match_asset what) (\<lambda>(contract_address, amount, asset_status).
     bind_m (location_to_h160 cfg who) (\<lambda>who'.
     then_m (ensure_m (asset_status \<notin> {FrozenXcmDepositForbidden, FrozenXcmDepositAllowed})
              (FromMatch AssetNotHandled))
    (then_m (transact_evm (erc20_burn_from cfg contract_address who' amount))
            (return_m what))))"

end
