(* ===== verification/Foreign_Asset_Rules.thy ===== *)
theory Foreign_Asset_Rules
  imports Foreign_Assets
begin

text \<open>
  The foreign assets pallet as a transition system: the calls under the dispatch layer, the moves
  of the rest of the chain, and the invariant of the registry that all of them keep.
\<close>

section \<open>The invariant\<close>

text \<open>
  The two maps are inverse to each other, the counter counts, the limit holds, and a deposit is
  recorded for registered assets only.
\<close>

definition foreign_ok :: "('l, 'o, 'w) foreign_config \<Rightarrow> ('l, 'w) foreign_state \<Rightarrow> bool" where
  "foreign_ok cfg s \<longleftrightarrow> inverse_maps (AssetsById s) (convert s)
     \<and> finite (dom (AssetsById s)) \<and> AssetsByIdCount s = card (dom (AssetsById s))
     \<and> AssetsByIdCount s \<le> MaxForeignAssets cfg
     \<and> dom (AssetsCreationDetails s) \<subseteq> dom (AssetsById s)"

lemma convert_simps:
  "convert (s\<lparr>AssetsByLocation := (AssetsByLocation s)(l \<mapsto> (i, st))\<rparr>) = (convert s)(l \<mapsto> i)"
  "convert (s\<lparr>AssetsById := f\<rparr>) = convert s" "convert (s\<lparr>AssetsByIdCount := k\<rparr>) = convert s"
  "convert (s\<lparr>AssetsCreationDetails := g\<rparr>) = convert s" "convert (s\<lparr>foreign_world := w\<rparr>) = convert s"
  "convert (s\<lparr>foreign_events := es\<rparr>) = convert s"
  by (auto simp: convert_def fun_eq_iff)

lemma convert_None: "convert s l = None \<longleftrightarrow> AssetsByLocation s l = None"
  by (simp add: convert_def)

lemma foreign_ok_events [simp]:
  "foreign_ok cfg (s\<lparr>foreign_events := es\<rparr>) = foreign_ok cfg s"
  "foreign_ok cfg (s\<lparr>foreign_world := w\<rparr>) = foreign_ok cfg s"
  by (simp_all add: foreign_ok_def convert_simps)

text \<open>The storage with an asset added, moved to another location, or given another status.\<close>

definition asset_added ::
  "AssetId \<Rightarrow> 'l \<Rightarrow> AssetDepositDetails option \<Rightarrow> ('l, 'w) foreign_state \<Rightarrow> ('l, 'w) foreign_state" where
  "asset_added i l details s = s\<lparr>AssetsById := (AssetsById s)(i \<mapsto> l),
     AssetsByIdCount := sat_add_u32 (AssetsByIdCount s) 1,
     AssetsByLocation := (AssetsByLocation s)(l \<mapsto> (i, Active)),
     AssetsCreationDetails := (case details of None \<Rightarrow> AssetsCreationDetails s
       | Some d \<Rightarrow> (AssetsCreationDetails s)(i \<mapsto> d))\<rparr>"

definition asset_moved ::
  "AssetId \<Rightarrow> 'l \<Rightarrow> 'l \<Rightarrow> AssetStatus \<Rightarrow> ('l, 'w) foreign_state \<Rightarrow> ('l, 'w) foreign_state" where
  "asset_moved i k l st s = s\<lparr>AssetsById := (AssetsById s)(i \<mapsto> l),
     AssetsByLocation := (AssetsByLocation s)(k := None, l \<mapsto> (i, st))\<rparr>"

definition asset_marked ::
  "AssetId \<Rightarrow> 'l \<Rightarrow> AssetStatus \<Rightarrow> ('l, 'w) foreign_state \<Rightarrow> ('l, 'w) foreign_state" where
  "asset_marked i l st s = s\<lparr>AssetsByLocation := (AssetsByLocation s)(l \<mapsto> (i, st))\<rparr>"

lemmas asset_changes = asset_added_def asset_moved_def asset_marked_def

lemma foreign_ok_added:
  assumes "foreign_ok cfg s" and "AssetsById s i = None" and "AssetsByLocation s l = None"
    and "AssetsByIdCount s < MaxForeignAssets cfg" and "MaxForeignAssets cfg \<le> u32_max"
  shows "foreign_ok cfg (asset_added i l d s)"
proof -
  have inv: "inverse_maps ((AssetsById s)(i \<mapsto> l)) ((convert s)(l \<mapsto> i))"
    using assms(1-3) by (intro inverse_maps_add) (auto simp: foreign_ok_def convert_None)
  have "convert (asset_added i l d s) = (convert s)(l \<mapsto> i)"
    by (auto simp: convert_def asset_added_def fun_eq_iff)
  with inv have "inverse_maps (AssetsById (asset_added i l d s)) (convert (asset_added i l d s))"
    by (simp add: asset_added_def)
  moreover have "dom ((AssetsById s)(i \<mapsto> l)) = insert i (dom (AssetsById s))" by simp
  moreover have "i \<notin> dom (AssetsById s)" using assms(2) by auto
  ultimately show ?thesis using assms(1,4,5)
    by (auto simp: foreign_ok_def asset_added_def sat_add_u32_def split: option.split)
qed

lemma foreign_ok_moved:
  assumes "foreign_ok cfg s" and "AssetsById s i = Some k" and "AssetsByLocation s l = None"
  shows "foreign_ok cfg (asset_moved i k l st s)"
proof -
  have "inverse_maps ((AssetsById s)(i \<mapsto> l)) ((convert s)(k := None, l \<mapsto> i))"
    using assms by (intro inverse_maps_move) (auto simp: foreign_ok_def convert_None)
  moreover have "convert (asset_moved i k l st s) = (convert s)(k := None, l \<mapsto> i)"
    by (auto simp: convert_def asset_moved_def fun_eq_iff)
  moreover have "insert i (dom (AssetsById s)) = dom (AssetsById s)" using assms(2) by auto
  ultimately show ?thesis using assms(1) by (simp add: foreign_ok_def asset_moved_def)
qed

lemma foreign_ok_marked:
  assumes "foreign_ok cfg s" and "AssetsById s i = Some l"
  shows "foreign_ok cfg (asset_marked i l st s)"
proof -
  have "convert s l = Some i"
    using assms by (auto simp: foreign_ok_def dest: inverse_mapsD)
  then have "convert (asset_marked i l st s) = convert s"
    by (auto simp: asset_marked_def convert_simps fun_upd_idem)
  with assms(1) show ?thesis by (simp add: foreign_ok_def asset_marked_def)
qed

lemma registered_location:
  assumes "foreign_ok cfg s" and "AssetsById s i = Some l"
  obtains st where "AssetsByLocation s l = Some (i, st)"
proof -
  have "convert s l = Some i" using assms by (auto simp: foreign_ok_def dest: inverse_mapsD)
  then show thesis using that by (auto simp: convert_def)
qed

section \<open>What each operation does\<close>

text \<open>
  Up to the rest of the chain's storage and the events; \<open>registry_is s' s\<close> says that the registries
  of two states are the same.
\<close>

definition registry_is :: "('l, 'w) foreign_state \<Rightarrow> ('l, 'w) foreign_state \<Rightarrow> bool" where
  "registry_is s' s \<longleftrightarrow> (\<exists>w es. s = s'\<lparr>foreign_world := w, foreign_events := es\<rparr>)"

lemma registry_isI [intro]:
  "AssetsById s' = AssetsById s \<Longrightarrow> AssetsByIdCount s' = AssetsByIdCount s
    \<Longrightarrow> AssetsByLocation s' = AssetsByLocation s \<Longrightarrow> AssetsCreationDetails s' = AssetsCreationDetails s
    \<Longrightarrow> registry_is s' s"
  unfolding registry_is_def
  by (intro exI [of _ "foreign_world s"] exI [of _ "foreign_events s"]) (cases s; cases s'; simp)

lemma registry_isD:
  assumes "registry_is s' s"
  shows "AssetsById s = AssetsById s'" "AssetsByLocation s = AssetsByLocation s'"
    "AssetsByIdCount s = AssetsByIdCount s'" "AssetsCreationDetails s = AssetsCreationDetails s'"
    "foreign_ok cfg s = foreign_ok cfg s'"
  using assms by (auto simp: registry_is_def)

lemma registry_is_iff:
  "registry_is s' s \<longleftrightarrow> AssetsById s = AssetsById s' \<and> AssetsByLocation s = AssetsByLocation s'
    \<and> AssetsByIdCount s = AssetsByIdCount s' \<and> AssetsCreationDetails s = AssetsCreationDetails s'"
  using registry_isD [of s' s] by auto

lemma wp_do_create:
  "wp (do_create_asset cfg i l d sy n account)
    (\<lambda>_ t. AssetsById s i = None \<and> AssetsByLocation s l = None \<and> AssetsByIdCount s < MaxForeignAssets cfg
      \<and> (\<exists>w. registry_is (asset_added i l (map_option (\<lambda>a.
            \<lparr>deposit_account = a, deposit_amount = ForeignAssetCreationDeposit cfg w\<rparr>) account) s) t))
    (\<lambda>e _. e \<noteq> PalletError CorruptedStorageOrphanLocation) s"
  by (auto simp: do_create_asset_def reserve_deposit_def erc20_create_def wp_simps asset_added_def Let_def
      split: option.splits prod.splits sum.splits) (rule exI, rule registry_isI; simp)

lemma wp_do_change:
  assumes "AssetsByLocation s k = Some (i, st)"
  shows "wp (do_change_xcm_location i k l)
    (\<lambda>_ t. AssetsByLocation s l = None \<and> (AssetsById s i \<noteq> None \<longrightarrow> registry_is (asset_moved i k l st s) t))
    (\<lambda>e _. e \<noteq> PalletError CorruptedStorageOrphanLocation) s"
  using assms by (auto simp: do_change_xcm_location_def wp_simps asset_moved_def)

lemma wp_do_freeze:
  assumes "AssetsByLocation s l = Some (i, st)"
  shows "wp (do_freeze_asset cfg i l allow)
    (\<lambda>_ t. st = Active \<and> registry_is (asset_marked i l
       (if allow then FrozenXcmDepositAllowed else FrozenXcmDepositForbidden) s) t)
    (\<lambda>e _. e \<noteq> PalletError CorruptedStorageOrphanLocation) s"
  using assms by (auto simp: do_freeze_asset_def erc20_pause_def wp_simps asset_marked_def Let_def
      split: prod.splits sum.splits)

lemma wp_do_unfreeze:
  assumes "AssetsByLocation s l = Some (i, st)"
  shows "wp (do_unfreeze_asset cfg i l)
    (\<lambda>_ t. st \<noteq> Active \<and> registry_is (asset_marked i l Active s) t)
    (\<lambda>e _. e \<noteq> PalletError CorruptedStorageOrphanLocation) s"
  using assms by (auto simp: do_unfreeze_asset_def erc20_unpause_def wp_simps asset_marked_def Let_def
      split: prod.splits sum.splits)

section \<open>The registry as a transition system\<close>

definition may_modify :: "('l, 'o, 'w) foreign_config \<Rightarrow> 'l OriginType \<Rightarrow> 'l \<Rightarrow> bool" where
  "may_modify cfg ot l \<longleftrightarrow> (case ot of XCM origin_location \<Rightarrow> starts_with cfg l origin_location | Governance \<Rightarrow> True)"

text \<open>The origin check of a call, and the account that pays the deposit of a creation.\<close>

fun call_origin :: "('l, 'o, 'w) foreign_config \<Rightarrow> 'l foreign_call \<Rightarrow> 'o \<Rightarrow> 'l OriginType option" where
  "call_origin cfg (CreateForeignAsset i l d sy n) = ForeignAssetCreatorOrigin cfg"
| "call_origin cfg (ChangeXcmLocation i l) = ForeignAssetModifierOrigin cfg"
| "call_origin cfg (FreezeForeignAsset i b) = ForeignAssetFreezerOrigin cfg"
| "call_origin cfg (UnfreezeForeignAsset i) = ForeignAssetUnfreezerOrigin cfg"

definition deposit_details ::
  "('l, 'o, 'w) foreign_config \<Rightarrow> 'l OriginType \<Rightarrow> 'w \<Rightarrow> AssetDepositDetails option" where
  "deposit_details cfg ot w = (case ot of Governance \<Rightarrow> None
     | XCM l \<Rightarrow> map_option (\<lambda>a. \<lparr>deposit_account = a, deposit_amount = ForeignAssetCreationDeposit cfg w\<rparr>)
         (account_of_location cfg l))"

text \<open>The steps that a successful call takes.\<close>

inductive registry_step ::
  "('l, 'o, 'w) foreign_config \<Rightarrow> 'l OriginType \<Rightarrow> 'l foreign_call
    \<Rightarrow> ('l, 'w) foreign_state \<Rightarrow> ('l, 'w) foreign_state \<Rightarrow> bool"
  for cfg :: "('l, 'o, 'w) foreign_config" and ot :: "'l OriginType" where
  step_create: "AssetsById s i = None \<Longrightarrow> AssetsByLocation s l = None \<Longrightarrow> may_modify cfg ot l
    \<Longrightarrow> AssetsByIdCount s < MaxForeignAssets cfg
    \<Longrightarrow> registry_is (asset_added i l (deposit_details cfg ot w) s) t
    \<Longrightarrow> registry_step cfg ot (CreateForeignAsset i l d sy n) s t"
| step_change: "AssetsById s i = Some k \<Longrightarrow> AssetsByLocation s k = Some (i, st)
    \<Longrightarrow> AssetsByLocation s l = None \<Longrightarrow> may_modify cfg ot l \<Longrightarrow> may_modify cfg ot k
    \<Longrightarrow> registry_is (asset_moved i k l st s) t
    \<Longrightarrow> registry_step cfg ot (ChangeXcmLocation i l) s t"
| step_freeze: "AssetsById s i = Some l \<Longrightarrow> AssetsByLocation s l = Some (i, Active) \<Longrightarrow> may_modify cfg ot l
    \<Longrightarrow> registry_is (asset_marked i l (if allow then FrozenXcmDepositAllowed else FrozenXcmDepositForbidden) s) t
    \<Longrightarrow> registry_step cfg ot (FreezeForeignAsset i allow) s t"
| step_unfreeze: "AssetsById s i = Some l \<Longrightarrow> AssetsByLocation s l = Some (i, st) \<Longrightarrow> st \<noteq> Active
    \<Longrightarrow> may_modify cfg ot l \<Longrightarrow> registry_is (asset_marked i l Active s) t
    \<Longrightarrow> registry_step cfg ot (UnfreezeForeignAsset i) s t"

inductive_cases create_stepE: "registry_step cfg ot (CreateForeignAsset i l d sy n) s t"

lemma wp_origin_guard [wp_simps]:
  "wp (ensure_origin_can_modify_location cfg ot l) Q E s =
     (if may_modify cfg ot l then Q () s else E (PalletError LocationOutsideOfOrigin) s)"
  by (cases ot) (simp_all add: ensure_origin_can_modify_location_def may_modify_def wp_simps)

lemma wp_deposit_account:
  "wp (get_deposit_account cfg ot)
    (\<lambda>a t. t = s \<and> (\<forall>w. deposit_details cfg ot w = map_option (\<lambda>a.
       \<lparr>deposit_account = a, deposit_amount = ForeignAssetCreationDeposit cfg w\<rparr>) a))
    (\<lambda>e t. e \<noteq> PalletError CorruptedStorageOrphanLocation) s"
proof (cases ot)
  case (XCM l)
  then show ?thesis
    by (auto simp: get_deposit_account_def convert_location_def deposit_details_def wp_simps
        split: prod.split nat.split list.split Junction.split option.split)
qed (simp add: get_deposit_account_def deposit_details_def wp_simps)

text \<open>Every call under the dispatch layer takes such a step or none.\<close>

lemma create_steps:
  "wp (create_foreign_asset cfg o' i l d sy n)
    (\<lambda>_ t. \<exists>ot. ForeignAssetCreatorOrigin cfg o' = Some ot
      \<and> registry_step cfg ot (CreateForeignAsset i l d sy n) s t)
    (\<lambda>e _. e \<noteq> PalletError CorruptedStorageOrphanLocation) s"
proof (cases "ForeignAssetCreatorOrigin cfg o'")
  case (Some ot)
  have "wp (do_create_asset cfg i l d sy n a) (\<lambda>_ t. registry_step cfg ot (CreateForeignAsset i l d sy n) s t)
      (\<lambda>e _. e \<noteq> PalletError CorruptedStorageOrphanLocation) s"
    if may: "may_modify cfg ot l" and a: "\<forall>w. deposit_details cfg ot w = map_option (\<lambda>a.
       \<lparr>deposit_account = a, deposit_amount = ForeignAssetCreationDeposit cfg w\<rparr>) a" for a
    by (rule wp_mono [OF wp_do_create]) (auto intro: step_create simp: may simp flip: a)
  then show ?thesis
    by (auto simp: create_foreign_asset_def wp_simps Some intro: wp_mono [OF wp_deposit_account])
qed (simp add: create_foreign_asset_def wp_simps)

lemma change_steps:
  assumes "foreign_ok cfg s"
  shows "wp (change_xcm_location cfg o' i l)
    (\<lambda>_ t. \<exists>ot. ForeignAssetModifierOrigin cfg o' = Some ot \<and> registry_step cfg ot (ChangeXcmLocation i l) s t)
    (\<lambda>e _. e \<noteq> PalletError CorruptedStorageOrphanLocation) s"
proof (cases "AssetsById s i")
  case (Some k)
  from registered_location [OF assms Some] obtain st where st: "AssetsByLocation s k = Some (i, st)" .
  show ?thesis
    by (auto simp: change_xcm_location_def wp_simps Some split: option.split
        intro!: wp_mono [OF wp_do_change [OF st]] intro: step_change [OF Some st])
qed (auto simp: change_xcm_location_def wp_simps split: option.split)

lemma freeze_steps:
  assumes "foreign_ok cfg s"
  shows "wp (freeze_foreign_asset cfg o' i allow)
    (\<lambda>_ t. \<exists>ot. ForeignAssetFreezerOrigin cfg o' = Some ot \<and> registry_step cfg ot (FreezeForeignAsset i allow) s t)
    (\<lambda>e _. e \<noteq> PalletError CorruptedStorageOrphanLocation) s"
proof (cases "AssetsById s i")
  case (Some l)
  from registered_location [OF assms Some] obtain st where st: "AssetsByLocation s l = Some (i, st)" .
  show ?thesis
    by (auto simp: freeze_foreign_asset_def wp_simps Some st split: option.split simp del: if_split_asm
        intro!: wp_mono [OF wp_do_freeze [OF st]] intro: step_freeze [OF Some])
qed (auto simp: freeze_foreign_asset_def wp_simps split: option.split)

lemma unfreeze_steps:
  assumes "foreign_ok cfg s"
  shows "wp (unfreeze_foreign_asset cfg o' i)
    (\<lambda>_ t. \<exists>ot. ForeignAssetUnfreezerOrigin cfg o' = Some ot \<and> registry_step cfg ot (UnfreezeForeignAsset i) s t)
    (\<lambda>e _. e \<noteq> PalletError CorruptedStorageOrphanLocation) s"
proof (cases "AssetsById s i")
  case (Some l)
  from registered_location [OF assms Some] obtain st where st: "AssetsByLocation s l = Some (i, st)" .
  show ?thesis
    by (auto simp: unfreeze_foreign_asset_def wp_simps Some split: option.split
        intro!: wp_mono [OF wp_do_unfreeze [OF st]] intro: step_unfreeze [OF Some st])
qed (auto simp: unfreeze_foreign_asset_def wp_simps split: option.split)

lemma foreign_dispatch_steps:
  assumes "foreign_ok cfg s"
  shows "wp (foreign_dispatch cfg o' c)
    (\<lambda>_ t. \<exists>ot. call_origin cfg c o' = Some ot \<and> registry_step cfg ot c s t)
    (\<lambda>e t. t = s \<and> e \<noteq> PalletError CorruptedStorageOrphanLocation) s"
  using create_steps change_steps [OF assms] freeze_steps [OF assms] unfreeze_steps [OF assms]
  by (cases c) (simp_all add: foreign_dispatch_def wp_simps)

section \<open>Reachable states\<close>

lemma registry_step_ok:
  assumes "registry_step cfg ot c s t" and "foreign_ok cfg s" and "MaxForeignAssets cfg \<le> u32_max"
  shows "foreign_ok cfg t"
  using assms
proof (cases rule: registry_step.cases)
  case (step_create i l w d sy n)
  then show ?thesis using foreign_ok_added [OF assms(2)] assms(3) by (auto dest!: registry_isD(5) [where cfg = cfg])
next
  case (step_change i k st l)
  then show ?thesis using foreign_ok_moved [OF assms(2)] by (auto dest!: registry_isD(5) [where cfg = cfg])
next
  case (step_freeze i l allow)
  then show ?thesis using foreign_ok_marked [OF assms(2)] by (auto dest!: registry_isD(5) [where cfg = cfg])
next
  case (step_unfreeze i l st)
  then show ?thesis using foreign_ok_marked [OF assms(2)] by (auto dest!: registry_isD(5) [where cfg = cfg])
qed

text \<open>
  From genesis by calls, and by anything the rest of the chain does to its own storage, transfers of
  the assets included.
\<close>

inductive foreign_reachable :: "('l, 'o, 'w) foreign_config \<Rightarrow> ('l, 'w) foreign_state \<Rightarrow> bool"
  for cfg :: "('l, 'o, 'w) foreign_config" where
  foreign_start: "foreign_genesis cfg assets \<lparr>AssetsById = Map.empty, AssetsByIdCount = 0,
      AssetsByLocation = Map.empty, AssetsCreationDetails = Map.empty, foreign_events = [],
      foreign_world = w\<rparr> = (Ok (), s) \<Longrightarrow> foreign_reachable cfg s"
| foreign_call: "foreign_reachable cfg s \<Longrightarrow> foreign_dispatch cfg o' c s = (r, t) \<Longrightarrow> foreign_reachable cfg t"
| foreign_elsewhere: "foreign_reachable cfg s \<Longrightarrow> foreign_reachable cfg (s\<lparr>foreign_world := w\<rparr>)"

lemma wp_register:
  assumes "foreign_ok cfg s" and "MaxForeignAssets cfg \<le> u32_max"
  shows "wp (register_evm_foreign_asset cfg i l d sy n) (\<lambda>_. foreign_ok cfg) (\<lambda>_ _. True) s"
  unfolding register_evm_foreign_asset_def
  by (rule wp_mono [OF wp_do_create]) (auto simp: registry_isD(5) intro: foreign_ok_added [OF assms(1) _ _ _ assms(2)])

lemma foreign_genesis_ok:
  assumes "foreign_ok cfg s" and "MaxForeignAssets cfg \<le> u32_max" and "foreign_genesis cfg assets s = (Ok (), t)"
  shows "foreign_ok cfg t"
  using assms
proof (induction assets arbitrary: s)
  case Nil
  then show ?case by (simp add: foreign_genesis_def prog_defs)
next
  case (Cons a assets)
  obtain r u where run: "register_evm_foreign_asset cfg (fa_asset_id a) (fa_xcm_location a) (fa_decimals a)
      (fa_symbol a) (fa_name a) s = (r, u)" by fastforce
  with wp_register [OF Cons.prems(1,2)] have "r = Ok () \<Longrightarrow> foreign_ok cfg u"
    by (metis (mono_tags, lifting) wp_OkD)
  with Cons run show ?case
    by (cases r) (auto simp: foreign_genesis_def then_m_def bind_m_def expect_ok_m_def)
qed

lemma foreign_reachable_ok:
  assumes "foreign_reachable cfg s" and "MaxForeignAssets cfg \<le> u32_max"
  shows "foreign_ok cfg s"
  using assms(1)
proof induction
  case (foreign_start assets w s)
  have "foreign_ok cfg \<lparr>AssetsById = Map.empty, AssetsByIdCount = 0, AssetsByLocation = Map.empty,
      AssetsCreationDetails = Map.empty, foreign_events = [], foreign_world = w\<rparr>"
    by (simp add: foreign_ok_def convert_def inverse_maps_def)
  then show ?case by (rule foreign_genesis_ok [OF _ assms(2) foreign_start])
next
  case (foreign_call s o' c r t)
  from foreign_dispatch_steps [OF foreign_call.IH, of o' c] foreign_call.hyps(2) show ?case
    by (cases r) (auto simp: wp_def intro: registry_step_ok [OF _ foreign_call.IH assms(2)] foreign_call.IH)
qed simp

end
