(* ===== verification/Foreign_Properties.thy ===== *)
theory Foreign_Properties
  imports Foreign_Asset_Rules
begin

text \<open>
  Properties of the foreign assets: the registry in every reachable state, what a sibling chain may
  change, freezing, and the encodings on the way to and from the EVM.
\<close>

section \<open>A sample chain\<close>

text \<open>
  Locations are lists, a sibling chain's number first; an origin is a sibling or governance. The
  EVM keeps the calls it ran, all of which succeed with the word 1.
\<close>

type_synonym evm_log = "(H160 \<times> byte list) list"

definition sample_foreign :: "(nat list, nat option, evm_log) foreign_config" where
  "sample_foreign =
     \<lparr>runner_call = \<lambda>src to input v g wl pl w.
        (Inr \<lparr>exit_reason = Succeed Returned, exit_value = h256_from_uint 1\<rparr>, (to, input) # w),
      runner_create = \<lambda>src init v g to w.
        (Inr \<lparr>exit_reason = Succeed Returned, exit_value = []\<rparr>, (to, init) # w),
      gas_to_weight = \<lambda>g b. weight_zero, keccak256 = \<lambda>s. replicate 32 7, erc20_initcode = [],
      encode_constructor = \<lambda>args. replicate 32 0 @ ctor_symbol args, pallet_account = replicate 20 1,
      account_id_to_h160 = \<lambda>a. replicate 20 (word_of_nat a), asset_id_filter = \<lambda>i. True,
      account_of_location = \<lambda>l. Some (hd l), h160_of_location = \<lambda>l. Some (replicate 20 (word_of_nat (hd l))),
      unpack = \<lambda>l. (1, map Parachain (take 1 l) @ map OtherJunction (drop 1 l)),
      starts_with = \<lambda>l p. take (length p) l = p,
      ForeignAssetCreatorOrigin = \<lambda>o'. Some (case o' of Some p \<Rightarrow> XCM [p] | None \<Rightarrow> Governance),
      ForeignAssetFreezerOrigin = \<lambda>o'. Some (case o' of Some p \<Rightarrow> XCM [p] | None \<Rightarrow> Governance),
      ForeignAssetModifierOrigin = \<lambda>o'. Some (case o' of Some p \<Rightarrow> XCM [p] | None \<Rightarrow> Governance),
      ForeignAssetUnfreezerOrigin = \<lambda>o'. Some (case o' of Some p \<Rightarrow> XCM [p] | None \<Rightarrow> Governance),
      on_asset_created = on_asset_created_unit, MaxForeignAssets = 256,
      ForeignAssetCreationDeposit = \<lambda>w. 100, currency_reserve = \<lambda>a v w. if v \<le> 1000 then Some w else None\<rparr>"

lemma sample_foreign_simps [simp]:
  "MaxForeignAssets sample_foreign = 256" "starts_with sample_foreign l p = (take (length p) l = p)"
  "ForeignAssetCreatorOrigin sample_foreign o' = Some (case o' of Some p \<Rightarrow> XCM [p] | None \<Rightarrow> Governance)"
  "ForeignAssetFreezerOrigin sample_foreign o' = Some (case o' of Some p \<Rightarrow> XCM [p] | None \<Rightarrow> Governance)"
  "ForeignAssetModifierOrigin sample_foreign o' = Some (case o' of Some p \<Rightarrow> XCM [p] | None \<Rightarrow> Governance)"
  "ForeignAssetUnfreezerOrigin sample_foreign o' = Some (case o' of Some p \<Rightarrow> XCM [p] | None \<Rightarrow> Governance)"
  by (simp_all add: sample_foreign_def)

definition foreign_empty :: "(nat list, evm_log) foreign_state" where
  "foreign_empty = \<lparr>AssetsById = Map.empty, AssetsByIdCount = 0, AssetsByLocation = Map.empty,
     AssetsCreationDetails = Map.empty, foreign_events = [], foreign_world = []\<rparr>"

lemma foreign_empty_reachable: "foreign_reachable sample_foreign foreign_empty"
  unfolding foreign_empty_def
  by (rule foreign_start [where assets = "[]"]) (simp add: foreign_genesis_def return_m_def)

text \<open>Chain 5 has created the asset 3 at its location and frozen it, deposits allowed.\<close>

definition foreign_created :: "(nat list, evm_log) foreign_state" where
  "foreign_created = snd (foreign_dispatch sample_foreign (Some 5) (CreateForeignAsset 3 [5, 1] 12 [] []) foreign_empty)"

definition foreign_frozen :: "(nat list, evm_log) foreign_state" where
  "foreign_frozen = snd (foreign_dispatch sample_foreign (Some 5) (FreezeForeignAsset 3 True) foreign_created)"

lemma foreign_calls_reachable:
  "foreign_reachable cfg s \<Longrightarrow> foreign_reachable cfg (snd (foreign_dispatch cfg o' c s))"
  by (metis foreign_call prod.collapse)

lemma foreign_sample_reachable:
  "foreign_reachable sample_foreign foreign_created" "foreign_reachable sample_foreign foreign_frozen"
  by (simp_all add: foreign_created_def foreign_frozen_def foreign_calls_reachable foreign_empty_reachable)

lemma foreign_created_simps:
  "AssetsById foreign_created = [3 \<mapsto> [5, 1]]" "AssetsByLocation foreign_created = [[5, 1] \<mapsto> (3, Active)]"
  "AssetsByIdCount foreign_created = 1"
  by (simp_all add: foreign_created_def foreign_empty_def foreign_dispatch_def create_foreign_asset_def
      sample_foreign_def prog_defs ensure_foreign_origin_def ensure_origin_can_modify_location_def
      get_deposit_account_def convert_location_def do_create_asset_def ensure_p_def ok_or_p_def
      from_utf8_def map_err_m_def in_world_def erc20_create_def Let_def run_evm_def succeeded_def
      reserve_deposit_def put_by_id_def put_by_location_def deposit_foreign_event_def sat_add_u32_def u32_max_def)

lemma foreign_frozen_simps:
  "AssetsById foreign_frozen = [3 \<mapsto> [5, 1]]"
  "AssetsByLocation foreign_frozen = [[5, 1] \<mapsto> (3, FrozenXcmDepositAllowed)]"
  by (simp_all add: foreign_frozen_def foreign_dispatch_def freeze_foreign_asset_def foreign_created_simps
      sample_foreign_def prog_defs ensure_foreign_origin_def ensure_origin_can_modify_location_def
      do_freeze_asset_def ensure_p_def ok_or_p_def map_err_m_def in_world_def erc20_pause_def Let_def
      run_evm_def succeeded_def put_by_location_def deposit_foreign_event_def)

section \<open>The registry\<close>

text \<open>C25: In every state the chain can reach the two maps of the registry are inverse to each other, so
  that converting a location to its asset and back is the identity both ways; the stored counter is
  the number of assets, within the limit; deposits are recorded for registered assets only. Every
  call either takes a step of the registry that its origin may take, or fails and leaves all
  storage as it was; it never panics and never meets a location without its asset.\<close>

theorem foreign_registry_well_formed:
  assumes "foreign_reachable cfg s" and "MaxForeignAssets cfg \<le> u32_max"
  shows "(convert_back s i = Some l \<longleftrightarrow> convert s l = Some i)
    \<and> AssetsByIdCount s = card (dom (AssetsById s)) \<and> AssetsByIdCount s \<le> MaxForeignAssets cfg
    \<and> dom (AssetsCreationDetails s) \<subseteq> dom (AssetsById s)
    \<and> wp (foreign_dispatch cfg o' c)
        (\<lambda>_ t. \<exists>ot. call_origin cfg c o' = Some ot \<and> registry_step cfg ot c s t)
        (\<lambda>e t. t = s \<and> e \<noteq> PalletError CorruptedStorageOrphanLocation) s"
proof -
  have ok: "foreign_ok cfg s" by (rule foreign_reachable_ok [OF assms])
  from foreign_dispatch_steps [OF ok, of o' c] ok show ?thesis
    by (auto simp: foreign_ok_def inverse_maps_def convert_back_def)
qed

lemma foreign_registry_witness:
  "convert foreign_frozen [5, 1] = Some 3
    \<and> wp (foreign_dispatch sample_foreign (Some 6) (UnfreezeForeignAsset 3)) (\<lambda>_ t. False) (\<lambda>_ t. t = foreign_frozen)
        foreign_frozen"
proof -
  have "MaxForeignAssets sample_foreign \<le> u32_max" by (simp add: u32_max_def)
  from foreign_registry_well_formed [OF foreign_sample_reachable(2) this, of 3 "[5, 1]" "Some 6" "UnfreezeForeignAsset 3"]
  have "convert foreign_frozen [5, 1] = Some 3" and
    run: "wp (foreign_dispatch sample_foreign (Some 6) (UnfreezeForeignAsset 3))
      (\<lambda>_ t. registry_step sample_foreign (XCM [6]) (UnfreezeForeignAsset 3) foreign_frozen t)
      (\<lambda>e t. t = foreign_frozen) foreign_frozen"
    by (auto simp: convert_back_def foreign_frozen_simps elim!: wp_mono)
  moreover have "\<not> registry_step sample_foreign (XCM [6]) (UnfreezeForeignAsset 3) foreign_frozen t" for t
    by (auto elim!: registry_step.cases simp: foreign_frozen_simps may_modify_def split: if_splits)
  ultimately show ?thesis by simp
qed

section \<open>Sibling chains\<close>

text \<open>C26: A sibling chain, calling as itself, cannot touch what is not below its own location: whatever
  it calls, the entry of any other location, its asset and its status are as before, and no asset is
  registered there or taken from there.\<close>

theorem sibling_controls_own_locations:
  assumes "foreign_reachable cfg s" and "MaxForeignAssets cfg \<le> u32_max"
    and "call_origin cfg c o' = Some (XCM sibling)" and "\<not> starts_with cfg l sibling"
  shows "wp (foreign_dispatch cfg o' c)
    (\<lambda>_ t. AssetsByLocation t l = AssetsByLocation s l
      \<and> (\<forall>i. AssetsById t i = Some l \<longleftrightarrow> AssetsById s i = Some l))
    (\<lambda>_ t. t = s) s"
proof -
  have ok: "foreign_ok cfg s" by (rule foreign_reachable_ok [OF assms(1,2)])
  have "AssetsByLocation t l = AssetsByLocation s l \<and> (\<forall>i. AssetsById t i = Some l \<longleftrightarrow> AssetsById s i = Some l)"
    if step: "registry_step cfg (XCM sibling) c s t" for t
  proof -
    have loc: "AssetsByLocation t l = AssetsByLocation s l"
      using step assms(4)
      by cases (auto simp: registry_is_iff asset_changes may_modify_def)
    have "foreign_ok cfg t" by (rule registry_step_ok [OF step ok assms(2)])
    with ok loc show ?thesis by (auto simp: foreign_ok_def inverse_maps_def convert_def)
  qed
  with foreign_dispatch_steps [OF ok, of o' c] assms(3) show ?thesis by (auto elim: wp_mono)
qed

lemma sibling_witness:
  "wp (foreign_dispatch sample_foreign (Some 6) (ChangeXcmLocation 3 [6, 2]))
    (\<lambda>_ t. AssetsById t 3 = Some [5, 1]) (\<lambda>_ t. t = foreign_frozen) foreign_frozen"
proof -
  have "MaxForeignAssets sample_foreign \<le> u32_max" by (simp add: u32_max_def)
  from sibling_controls_own_locations [OF foreign_sample_reachable(2) this, of
      "ChangeXcmLocation 3 [6, 2]" "Some 6" "[6]" "[5, 1]"]
  show ?thesis by (rule wp_mono) (auto simp: foreign_frozen_simps)
qed

section \<open>Freezing\<close>

text \<open>Calls from any origins, one after the other; each writes all or nothing.\<close>

definition foreign_calls ::
  "('l, 'o, 'w) foreign_config \<Rightarrow> ('o \<times> 'l foreign_call) list \<Rightarrow> ('l, 'w) foreign_state \<Rightarrow> ('l, 'w) foreign_state"
  where
  "foreign_calls cfg cs s = fold (\<lambda>(o', c) s. snd (foreign_dispatch cfg o' c s)) cs s"

definition frozen_as :: "AssetId \<Rightarrow> AssetStatus \<Rightarrow> ('l, 'w) foreign_state \<Rightarrow> bool" where
  "frozen_as i st s \<longleftrightarrow> st \<noteq> Active \<and> (\<exists>l. AssetsById s i = Some l \<and> AssetsByLocation s l = Some (i, st))"

lemma frozen_as_step:
  assumes "registry_step cfg ot c s t" and "foreign_ok cfg s" and "frozen_as i st s"
    and "c \<noteq> UnfreezeForeignAsset i"
  shows "frozen_as i st t"
proof -
  obtain l where l: "st \<noteq> Active" "AssetsById s i = Some l" "AssetsByLocation s l = Some (i, st)"
    using assms(3) by (auto simp: frozen_as_def)
  have inj: "i' = i" if "AssetsById s i' = Some l" for i'
    using that l(2) assms(2) by (auto simp: foreign_ok_def inverse_maps_def)
  from assms(1) show ?thesis
  proof (cases rule: registry_step.cases)
    case (step_change i' k st' l')
    show ?thesis
    proof (cases "i' = i")
      case True
      with step_change l have "AssetsById t i = Some l'" "AssetsByLocation t l' = Some (i, st)"
        by (simp_all add: registry_is_iff asset_moved_def)
      with l(1) show ?thesis by (simp add: frozen_as_def)
    next
      case False
      with step_change l have "k \<noteq> l" "l' \<noteq> l" by auto
      with False step_change l have "AssetsById t i = Some l" "AssetsByLocation t l = Some (i, st)"
        by (simp_all add: registry_is_iff asset_moved_def)
      with l(1) show ?thesis by (simp add: frozen_as_def)
    qed
  next
    case (step_create i' l' w d sy n)
    with l have "i' \<noteq> i" "l' \<noteq> l" by auto
    with step_create l have "AssetsById t i = Some l" "AssetsByLocation t l = Some (i, st)"
      by (simp_all add: registry_is_iff asset_added_def)
    with l(1) show ?thesis by (simp add: frozen_as_def)
  next
    case (step_freeze i' l' allow)
    with l have "l' \<noteq> l" by auto
    with step_freeze l have "AssetsById t i = Some l" "AssetsByLocation t l = Some (i, st)"
      by (simp_all add: registry_is_iff asset_marked_def)
    with l(1) show ?thesis by (simp add: frozen_as_def)
  next
    case (step_unfreeze i' l' st')
    with assms(4) inj have "l' \<noteq> l" by auto
    with step_unfreeze l have "AssetsById t i = Some l" "AssetsByLocation t l = Some (i, st)"
      by (simp_all add: registry_is_iff asset_marked_def)
    with l(1) show ?thesis by (simp add: frozen_as_def)
  qed
qed

lemma frozen_as_calls:
  assumes "foreign_reachable cfg s" and "MaxForeignAssets cfg \<le> u32_max" and "frozen_as i st s"
    and "\<forall>(o', c) \<in> set cs. c \<noteq> UnfreezeForeignAsset i"
  shows "frozen_as i st (foreign_calls cfg cs s)"
  using assms(1,3,4)
proof (induction cs arbitrary: s)
  case Nil
  then show ?case by (simp add: foreign_calls_def)
next
  case (Cons oc cs)
  obtain o' c where oc: "oc = (o', c)" by (cases oc)
  let ?t = "snd (foreign_dispatch cfg o' c s)"
  have ok: "foreign_ok cfg s" by (rule foreign_reachable_ok [OF Cons.prems(1) assms(2)])
  have "wp (foreign_dispatch cfg o' c) (\<lambda>_. frozen_as i st) (\<lambda>_. frozen_as i st) s"
    using Cons.prems(2,3) oc
    by (intro wp_mono [OF foreign_dispatch_steps [OF ok]]) (auto intro: frozen_as_step [OF _ ok])
  then have "frozen_as i st ?t" by (auto simp: wp_def split: prod.splits outcome.splits)
  with Cons.IH [OF foreign_calls_reachable [OF Cons.prems(1)]] Cons.prems(3) oc
  show ?case by (simp add: foreign_calls_def)
qed

text \<open>C27: A frozen asset stays frozen until it is unfrozen, whatever calls are made from whatever origins in
  between, a change of its location included. While it is, no withdrawal and no transfer of it by
  XCM goes through, and no deposit either unless the freeze allowed deposits: each fails without a
  call into the contract and without a write.\<close>

theorem frozen_until_unfrozen:
  assumes "foreign_reachable cfg s" and "MaxForeignAssets cfg \<le> u32_max"
    and "AssetsById s i = Some l" and "AssetsByLocation s l = Some (i, st)" and "st \<noteq> Active"
    and "\<forall>(o', c) \<in> set cs. c \<noteq> UnfreezeForeignAsset i" and "t = foreign_calls cfg cs s"
  shows "\<exists>k. AssetsById t i = Some k \<and> AssetsByLocation t k = Some (i, st)
    \<and> (\<exists>e. withdraw_asset cfg (fungible_asset k v) who t = (Err e, t))
    \<and> internal_transfer_asset cfg (fungible_asset k v) who receiver t = (Err (FromMatch AssetNotHandled), t)
    \<and> (st = FrozenXcmDepositForbidden \<longrightarrow>
        deposit_asset cfg (fungible_asset k v) who t = (Err (FromMatch AssetNotHandled), t))"
proof -
  have "frozen_as i st s" using assms(3-5) by (auto simp: frozen_as_def)
  then have "frozen_as i st t" using frozen_as_calls assms(1,2,6,7) by blast
  then obtain k where k: "AssetsById t i = Some k" "AssetsByLocation t k = Some (i, st)" "st \<noteq> Active"
    by (auto simp: frozen_as_def)
  then have run: "match_asset (fungible_asset k v) t =
      (Ok (contract_address_from_asset_id i, word_of_nat v, st), t)"
    by (simp add: match_asset_def fungible_asset_def prog_defs)
  have "internal_transfer_asset cfg (fungible_asset k v) who receiver t = (Err (FromMatch AssetNotHandled), t)"
    using k(3) by (cases st) (simp_all add: internal_transfer_asset_def bind_m_def then_m_def ensure_m_def fail_m_def run)
  moreover have "\<exists>e. withdraw_asset cfg (fungible_asset k v) who t = (Err e, t)"
    using k(3) by (cases st) (simp_all add: withdraw_asset_def location_to_h160_def bind_m_def then_m_def ensure_m_def fail_m_def
        ok_or_m_def return_m_def run split: option.split)
  moreover have "deposit_asset cfg (fungible_asset k v) who t = (Err (FromMatch AssetNotHandled), t)"
    if "st = FrozenXcmDepositForbidden"
    using that by (simp add: deposit_asset_def bind_m_def then_m_def ensure_m_def fail_m_def run)
  ultimately show ?thesis using k by blast
qed

lemma frozen_until_unfrozen_witness:
  "\<exists>k e. AssetsById (foreign_calls sample_foreign [(Some 5, ChangeXcmLocation 3 [5, 9])] foreign_frozen) 3 = Some k
    \<and> fst (withdraw_asset sample_foreign (fungible_asset k 50) [7]
        (foreign_calls sample_foreign [(Some 5, ChangeXcmLocation 3 [5, 9])] foreign_frozen)) = Err e"
proof -
  have "MaxForeignAssets sample_foreign \<le> u32_max" by (simp add: u32_max_def)
  from frozen_until_unfrozen [OF foreign_sample_reachable(2) this, of 3 "[5, 1]" FrozenXcmDepositAllowed
      "[(Some 5, ChangeXcmLocation 3 [5, 9])]" _ 50 "[7]"]
  show ?thesis by (fastforce simp: foreign_frozen_simps)
qed

section \<open>Encodings\<close>

lemma to_from_be_bytes: "to_be_bytes (length bs) (from_be_bytes bs) = bs"
proof (induction bs rule: rev_induct)
  case Nil
  then show ?case by (simp add: to_be_bytes_def)
next
  case (snoc b bs)
  have "to_be_bytes (Suc n) (a * 256 + unat b) = to_be_bytes n a @ [b]" for n a
  proof (induction n)
    case 0
    have "word_of_nat (a * 256 + unat b) = (word_of_nat (a * 256) + b :: byte)" by simp
    moreover have "(word_of_nat (a * 256) :: byte) = 0"
      unfolding word_of_nat_eq_0_iff by simp
    ultimately show ?case by (simp add: to_be_bytes_def)
  next
    case (Suc n)
    have "unat b < 2 ^ LENGTH(8)" by (rule unsigned_less)
    then have "(a * 256 + unat b) div 256 = a" by simp
    then have "(a * 256 + unat b) div 256 ^ Suc n = a div 256 ^ n" by (simp add: div_mult2_eq)
    with Suc show ?case by (simp add: to_be_bytes_Suc)
  qed
  with snoc show ?case by (simp add: from_be_bytes_def)
qed

text \<open>C28: The address of a foreign asset's contract names the asset: the runtime reads the identifier back
  from it, it is the account the runtime assigns to the asset, and conversely every address of 20
  bytes that the runtime takes for an asset is the one assigned to what it reads.\<close>

theorem asset_address_roundtrip:
  "account_to_asset_id (contract_address_from_asset_id i) = Some (FOREIGN_ASSETS_PREFIX, i)
    \<and> asset_id_to_account FOREIGN_ASSETS_PREFIX i = Some (contract_address_from_asset_id i)
    \<and> length (contract_address_from_asset_id i) = 20
    \<and> (length a = 20 \<and> account_to_asset_id a = Some (p, j) \<longrightarrow> asset_id_to_account p j = Some a)"
proof -
  have small: "unat x < 256 ^ 16" for x :: AssetId
  proof -
    have "unat x < 2 ^ LENGTH(128)" by (rule unsigned_less)
    then show ?thesis by simp
  qed
  have read: "unat (word_of_nat (from_be_bytes bs) :: AssetId) = from_be_bytes bs" if "length bs = 16" for bs
  proof -
    have "from_be_bytes bs = from_be_bytes (to_be_bytes 16 (from_be_bytes bs))"
      using to_from_be_bytes [of bs] that by simp
    also have "\<dots> = from_be_bytes bs mod 256 ^ 16" by (simp add: from_be_bytes_def foldl_be_bytes)
    finally have "from_be_bytes bs < 256 ^ 16" by (metis mod_less_divisor zero_less_numeral zero_less_power)
    then show ?thesis by (simp add: unat_of_nat)
  qed
  have "asset_id_to_account p j = Some a" if "length a = 20" "account_to_asset_id a = Some (p, j)"
  proof -
    have p: "p = take 4 a" "j = word_of_nat (from_be_bytes (drop 4 a))"
      using that(2) by (auto simp: account_to_asset_id_def Let_def split: if_splits)
    have len: "length (drop 4 a) = 16" using that(1) by simp
    from read [OF len] to_from_be_bytes [of "drop 4 a"] len that(1) show ?thesis
      by (simp add: p asset_id_to_account_def)
  qed
  then show ?thesis
    by (simp add: account_to_asset_id_def contract_address_from_asset_id_def asset_id_to_account_def
        FOREIGN_ASSETS_PREFIX_def from_to_be_bytes [OF small])
qed

lemma asset_address_witness:
  "asset_id_to_account FOREIGN_ASSETS_PREFIX 258 = Some (replicate 4 0xff @ replicate 14 0 @ [1, 2])"
proof -
  have "account_to_asset_id (replicate 4 0xff @ replicate 14 0 @ [1, 2]) = Some (FOREIGN_ASSETS_PREFIX, 258)"
    by code_simp
  with asset_address_roundtrip [of 0 "replicate 4 0xff @ replicate 14 0 @ [1, 2]"] show ?thesis by simp
qed

text \<open>C29: A contract's revert reason reaches the log unharmed: from return data as Solidity encodes
  \<open>Error(string)\<close>, four bytes of selector, the offset, the length and the text with any padding, the
  code extracts exactly the text, whenever it is UTF-8 and not all is empty.\<close>

theorem revert_reason_extracted:
  assumes "length sel = 4" and "length offset = 32" and "utf8_valid msg" and "msg @ padding \<noteq> []"
    and "68 + length msg \<le> u32_max"
  shows "error_on_execution_failure Revert (sel @ offset @ to_be_bytes 32 (length msg) @ msg @ padding) =
    BASE_MESSAGE @ ascii '' '' @ msg"
proof -
  let ?data = "sel @ offset @ to_be_bytes 32 (length msg) @ msg @ padding"
  have len: "length msg < 256 ^ 32" using assms(5) by (simp add: u32_max_def)
  have "drop 36 ?data = to_be_bytes 32 (length msg) @ msg @ padding" using assms(1,2) by simp
  then have "from_be_bytes (take 32 (drop 36 ?data)) = length msg" by (simp add: from_to_be_bytes [OF len])
  moreover have "drop 68 ?data = msg @ padding" using assms(1,2) by simp
  moreover have "68 < length ?data" using assms(1,2,4) by (cases msg) (auto simp: neq_Nil_conv)
  ultimately show ?thesis using assms
    by (auto simp: extract_revert_message_def from_utf8_def Let_def u32_max_def)
qed

lemma revert_reason_witness:
  "error_on_execution_failure Revert (replicate 4 8 @ replicate 32 0 @ to_be_bytes 32 (length [0xC3, 0xA9 :: byte]) @ [0xC3, 0xA9] @ []) =
    BASE_MESSAGE @ ascii '' '' @ [0xC3, 0xA9]"
proof -
  have "utf8_valid [0xC3, 0xA9]" by code_simp
  with revert_reason_extracted [of "replicate 4 8" "replicate 32 0" "[0xC3, 0xA9]" "[]"]
  show ?thesis by (simp add: u32_max_def del: utf8_valid.simps power_Suc)
qed

end
