(* ===== verification/Tracing_Events.thy ===== *)
theory Tracing_Events
  imports Bytes
begin

text \<open>
  The events the EVM emits while a transaction is replayed (\<open>primitives/rpc/evm-tracing-events\<close>):
  those of the executor, of the gasometer and of the interpreter. Of the errors of the EVM the
  constructors that the tracing code names are kept, the rest are \<open>UnnamedError\<close>.
\<close>

type_synonym u32 = "32 word"
type_synonym u64 = "64 word"
type_synonym H256 = "256 word"

section \<open>Reasons to exit\<close>

datatype exit_succeed = SucceedStopped | SucceedReturned | SucceedSuicided

datatype exit_error =
    StackUnderflow | StackOverflow | InvalidJump | InvalidRange | DesignatedInvalid | CallTooDeep
  | CreateCollision | CreateContractLimit | OutOfOffset | OutOfGas | OutOfFund
  | OtherError "byte list" | UnnamedError nat

datatype exit_reason =
  ExitedSucceed exit_succeed | ExitedError exit_error | ExitedRevert | ExitedFatal nat

section \<open>Events\<close>

record exec_context =
  exec_address :: H160
  exec_caller :: H160
  apparent_value :: U256

record Transfer =
  transfer_source :: H160
  transfer_target :: H160
  transfer_value :: U256

datatype CreateScheme = LegacyScheme H160 | Create2Scheme H160 H256 H256 | FixedScheme H160

datatype EvmEvent =
    EvmCall H160 "Transfer option" "byte list" "u64 option" bool exec_context
  | EvmCreate H160 H160 CreateScheme U256 "byte list" "u64 option"
  | EvmSuicide H160 H160 U256
  | EvmExit exit_reason "byte list"
  | EvmTransactCall H160 H160 U256 "byte list" u64
  | EvmTransactCreate H160 U256 "byte list" u64 H160
  | EvmTransactCreate2 H160 U256 "byte list" H256 u64 H160
  | EvmPrecompileSubcall H160 "Transfer option" "byte list" "u64 option" bool exec_context
  | EvmLog H160 "H256 list" "byte list"

record Snapshot =
  snap_gas_limit :: u64
  snap_memory_gas :: u64
  snap_used_gas :: u64
  snap_refunded_gas :: u64

text \<open>The subtractions of \<open>u64\<close> wrap.\<close>

definition snapshot_gas :: "Snapshot \<Rightarrow> u64" where
  "snapshot_gas s = snap_gas_limit s - snap_used_gas s - snap_memory_gas s"

datatype GasometerEvent =
    RecordCost u64 Snapshot
  | RecordRefund u64 Snapshot
  | RecordStipend u64 Snapshot
  | RecordDynamicCost u64 u64 u64 Snapshot
  | RecordTransaction u64 Snapshot

record Stack =
  stack_data :: "H256 list"
  stack_limit :: u64

record Memory =
  memory_data :: "byte list"
  effective_len :: U256
  memory_limit :: u64

datatype ('e, 't) Capture = CaptureExit 'e | CaptureTrap 't

text \<open>The result of a step: \<open>Inr ()\<close> is \<open>Ok(())\<close>; a trap carries the name of its opcode.\<close>

datatype RuntimeEvent =
    Step exec_context "byte list" "exit_reason + u64" "Stack option" "Memory option"
  | StepResult "(exit_reason, byte list) Capture + unit" "byte list"
  | SLoad H160 H256 H256
  | SStore H160 H256 H256

datatype tracing_event = Evm EvmEvent | Gasometer GasometerEvent | Runtime RuntimeEvent | CallListNew

record StepEventFilter =
  enable_stack :: bool
  enable_memory :: bool

section \<open>Names of opcodes\<close>

text \<open>The first opcode of a range, and the names from there on.\<close>

definition opcode_ranges :: "(nat \<times> string list) list" where
  "opcode_ranges =
     [(0, [''Stop'', ''Add'', ''Mul'', ''Sub'', ''Div'', ''SDiv'', ''Mod'', ''SMod'', ''AddMod'',
           ''MulMod'', ''Exp'', ''SignExtend'']),
      (16, [''Lt'', ''Gt'', ''Slt'', ''Sgt'', ''Eq'', ''IsZero'', ''And'', ''Or'', ''Xor'', ''Not'',
            ''Byte'', ''Shl'', ''Shr'', ''Sar'']),
      (32, [''Keccak256'']),
      (48, [''Address'', ''Balance'', ''Origin'', ''Caller'', ''CallValue'', ''CallDataLoad'',
            ''CallDataSize'', ''CallDataCopy'', ''CodeSize'', ''CodeCopy'', ''GasPrice'',
            ''ExtCodeSize'', ''ExtCodeCopy'', ''ReturnDataSize'', ''ReturnDataCopy'',
            ''ExtCodeHash'', ''BlockHash'', ''Coinbase'', ''Timestamp'', ''Number'', ''Difficulty'',
            ''GasLimit'', ''ChainId'']),
      (80, [''Pop'', ''MLoad'', ''MStore'', ''MStore8'', ''SLoad'', ''SStore'', ''Jump'', ''JumpI'',
            ''GetPc'', ''MSize'', ''Gas'', ''JumpDest'', ''TLoad'', ''TStore'', ''MCopy'']),
      (96, [''Push1'', ''Push2'', ''Push3'', ''Push4'', ''Push5'', ''Push6'', ''Push7'', ''Push8'',
            ''Push9'', ''Push10'', ''Push11'', ''Push12'', ''Push13'', ''Push14'', ''Push15'',
            ''Push16'', ''Push17'', ''Push18'', ''Push19'', ''Push20'', ''Push21'', ''Push22'',
            ''Push23'', ''Push24'', ''Push25'', ''Push26'', ''Push27'', ''Push28'', ''Push29'',
            ''Push30'', ''Push31'', ''Push32'']),
      (128, [''Dup1'', ''Dup2'', ''Dup3'', ''Dup4'', ''Dup5'', ''Dup6'', ''Dup7'', ''Dup8'',
             ''Dup9'', ''Dup10'', ''Dup11'', ''Dup12'', ''Dup13'', ''Dup14'', ''Dup15'', ''Dup16'']),
      (144, [''Swap1'', ''Swap2'', ''Swap3'', ''Swap4'', ''Swap5'', ''Swap6'', ''Swap7'', ''Swap8'',
             ''Swap9'', ''Swap10'', ''Swap11'', ''Swap12'', ''Swap13'', ''Swap14'', ''Swap15'',
             ''Swap16'']),
      (160, [''Log0'', ''Log1'', ''Log2'', ''Log3'', ''Log4'']),
      (176, [''JumpTo'', ''JumpIf'', ''JumpSub'']),
      (180, [''JumpSubv'', ''BeginSub'', ''BeginData'']),
      (184, [''ReturnSub'', ''PutLocal'', ''GetLocal'']),
      (225, [''SLoadBytes'', ''SStoreBytes'', ''SSize'']),
      (240, [''Create'', ''Call'', ''CallCode'', ''Return'', ''DelegateCall'', ''Create2'']),
      (250, [''StaticCall'']),
      (252, [''TxExecGas'', ''Revert'', ''Invalid'', ''SelfDestruct''])]"

fun opcode_lookup :: "(nat \<times> string list) list \<Rightarrow> nat \<Rightarrow> string option" where
  "opcode_lookup [] n = None"
| "opcode_lookup ((start, names) # rest) n =
     (if start \<le> n \<and> n < start + length names then Some (names ! (n - start))
      else opcode_lookup rest n)"

text \<open>The decimal digits of a byte.\<close>

definition digit :: "nat \<Rightarrow> char" where
  "digit d = ''0123456789'' ! (d mod 10)"

definition decimal_u8 :: "nat \<Rightarrow> string" where
  "decimal_u8 n =
     (if n < 10 then [digit n] else if n < 100 then [digit (n div 10), digit n]
      else [digit (n div 100), digit (n div 10), digit n])"

definition opcodes_string :: "byte \<Rightarrow> byte list" where
  "opcodes_string opcode =
     ascii (case opcode_lookup opcode_ranges (unat opcode) of
        Some name \<Rightarrow> name
      | None \<Rightarrow> ''Unknown('' @ decimal_u8 (unat opcode) @ '')'')"

end
