(* ===== verification/Tracing_Types.thy ===== *)
theory Tracing_Types
  imports Tracing_Events
begin

text \<open>
  The types of the traces (\<open>client/evm-tracing\<close>, \<open>types\<close> and \<open>formatters\<close>) and the vector and
  map operations of the listeners.
\<close>

section \<open>Vectors and ordered maps\<close>

text \<open>\<open>Vec::pop\<close>, and what is done to \<open>Vec::last_mut\<close>.\<close>

definition vec_pop :: "'a list \<Rightarrow> ('a \<times> 'a list) option" where
  "vec_pop xs = (if xs = [] then None else Some (last xs, butlast xs))"

definition on_last :: "('a \<Rightarrow> 'a) \<Rightarrow> 'a list \<Rightarrow> 'a list" where
  "on_last f xs = (if xs = [] then [] else butlast xs @ [f (last xs)])"

definition vec_last :: "'a list \<Rightarrow> 'a option" where
  "vec_last xs = (if xs = [] then None else Some (last xs))"

lemma vec_snoc [simp]:
  "vec_pop (xs @ [x]) = Some (x, xs)" "on_last f (xs @ [x]) = xs @ [f x]"
  "vec_last (xs @ [x]) = Some x" "vec_pop [x] = Some (x, [])" "on_last f [x] = [f x]"
  "vec_last [x] = Some x"
  by (simp_all add: vec_pop_def on_last_def vec_last_def)

lemma vec_empty [simp]: "vec_pop [] = None" "on_last f [] = []" "vec_last [] = None"
  by (simp_all add: vec_pop_def on_last_def vec_last_def)

lemma length_on_last [simp]: "length (on_last f xs) = length xs"
  by (cases xs rule: rev_cases) simp_all

text \<open>A \<open>BTreeMap\<close> with machine words as keys: its entries in the order of the keys.\<close>

type_synonym ('n, 'v) btree = "('n word \<times> 'v) list"

abbreviation btree_insert :: "'n::len word \<Rightarrow> 'v \<Rightarrow> ('n, 'v) btree \<Rightarrow> ('n, 'v) btree" where
  "btree_insert \<equiv> prefix_insert unat"

abbreviation btree_ok :: "('n::len, 'v) btree \<Rightarrow> bool" where
  "btree_ok \<equiv> prefix_ordered unat"

section \<open>Results and kinds of calls\<close>

datatype CallResult = Output "byte list" | CallError "byte list"

datatype CreateResult = CreateError "byte list" | CreateSuccess H160 "byte list"

datatype CallType = TypeCall | TypeCallCode | TypeDelegateCall | TypeStaticCall

datatype CreateType = TypeCreate

datatype ContextType = CallContext CallType | CreateContext

text \<open>
  \<open>str::to_uppercase\<close>, as far as a comparison with the names below can tell: of the characters
  outside ASCII only the dotless i (C4 B1), the long s (C5 BF) and its ligatures with t (EF AC 85,
  EF AC 86) become letters of these names, the others are left.
\<close>

fun to_uppercase :: "byte list \<Rightarrow> byte list" where
  "to_uppercase [] = []"
| "to_uppercase (b # bs) =
     (if b = 0xC4 \<and> take 1 bs = [0xB1] then 0x49 # to_uppercase (drop 1 bs)
      else if b = 0xC5 \<and> take 1 bs = [0xBF] then 0x53 # to_uppercase (drop 1 bs)
      else if b = 0xEF \<and> (take 2 bs = [0xAC, 0x85] \<or> take 2 bs = [0xAC, 0x86])
        then 0x53 # 0x54 # to_uppercase (drop 2 bs)
      else (if 0x61 \<le> b \<and> b \<le> 0x7A then b - 0x20 else b) # to_uppercase bs)"

definition ContextType_from :: "byte list \<Rightarrow> ContextType option" where
  "ContextType_from opcode =
     (case from_utf8 opcode of
        None \<Rightarrow> None
      | Some op \<Rightarrow>
          let name = to_uppercase op in
          if name = ascii ''CREATE'' \<or> name = ascii ''CREATE2'' then Some CreateContext
          else if name = ascii ''CALL'' then Some (CallContext TypeCall)
          else if name = ascii ''CALLCODE'' then Some (CallContext TypeCallCode)
          else if name = ascii ''DELEGATECALL'' then Some (CallContext TypeDelegateCall)
          else if name = ascii ''STATICCALL'' then Some (CallContext TypeStaticCall)
          else None)"

text \<open>\<open>slice::chunks\<close>, and the memory of the EVM in words: a short last chunk is padded in front.\<close>

function chunks :: "nat \<Rightarrow> 'a list \<Rightarrow> 'a list list" where
  "chunks n xs = (if xs = [] \<or> n = 0 then [] else take n xs # chunks n (drop n xs))"
  by pat_completeness auto
termination by (relation "measure (length \<circ> snd)") auto

declare chunks.simps [simp del]

definition convert_memory :: "byte list \<Rightarrow> H256 list" where
  "convert_memory mem =
     map (\<lambda>c. word_of_nat (from_be_bytes (replicate (32 - length c) 0 @ c))) (chunks 32 mem)"

section \<open>Traces\<close>

record trace_log =
  log_address :: H160
  log_topics :: "H256 list"
  log_data :: "byte list"

datatype BlockscoutCallInner =
    BlockscoutCall CallType H160 "byte list" CallResult
  | BlockscoutCreate "byte list" CreateResult
  | BlockscoutSelfDestruct U256 H160

record BlockscoutCall =
  bc_from :: H160
  bc_trace_address :: "u32 list"
  bc_subtraces :: u32
  bc_value :: U256
  bc_gas :: U256
  bc_gas_used :: U256
  bc_inner :: BlockscoutCallInner
  bc_logs :: "trace_log list"

record RawStepLog =
  raw_depth :: U256
  raw_gas :: U256
  raw_gas_cost :: U256
  raw_memory :: "H256 list option"
  raw_op :: "byte list"
  raw_pc :: U256
  raw_stack :: "H256 list option"
  raw_storage :: "(256, H256) btree option"

datatype CallTracerInner =
    CallTracerCallInner "byte list" H160 "byte list" CallResult "U256 option" "trace_log list"
  | CallTracerCreateInner "byte list" "byte list" "H160 option" "byte list option"
      "byte list option" U256
  | CallTracerSelfDestructInner "byte list" H160 U256

text \<open>\<open>CallTracerCall\<close> and the variants of \<open>Call\<close> contain each other.\<close>

datatype trace_call =
    Blockscout BlockscoutCall
  | CallTracer (ct_from: H160) (ct_trace_address: "u32 list option") (ct_gas: U256)
      (ct_gas_used: U256) (ct_inner: CallTracerInner) (ct_calls: "trace_call list")

datatype single_trace =
    RawTrace U256 "byte list" "RawStepLog list"
  | CallList "trace_call list"
  | CallListNested trace_call

datatype TraceType = RawType bool bool bool | CallListType | BlockType

record TraceCallConfig =
  config_with_log :: bool

record BlockTransactionTrace =
  block_tx_hash :: H256
  block_result :: single_trace
  block_tx_position :: u32

datatype TransactionTraceAction =
    ActionCall CallType H160 U256 "byte list" H160 U256
  | ActionCreate CreateType H160 U256 "byte list" U256
  | ActionSuicide H160 U256 H160

datatype TransactionTraceResult =
    ResultCall U256 "byte list"
  | ResultCreate H160 "byte list" U256
  | ResultSuicide

datatype TransactionTraceOutput = OutputResult TransactionTraceResult | OutputError "byte list"

record TransactionTrace =
  tt_action :: TransactionTraceAction
  tt_block_hash :: H256
  tt_block_number :: u32
  tt_output :: TransactionTraceOutput
  tt_subtraces :: u32
  tt_trace_address :: "u32 list"
  tt_transaction_hash :: H256
  tt_transaction_position :: u32

end
