(* ===== verification/Call_List.thy ===== *)
theory Call_List
  imports Tracing_Types
begin

text \<open>
  The listener that turns the events of a transaction, or of all transactions of a block, into
  lists of calls (\<open>listeners/call_list.rs\<close>).
\<close>

section \<open>The listener\<close>

datatype TracingVersion = EarlyTransact | Legacy

record call_context =
  cx_entries_index :: u32
  cx_type :: ContextType
  cx_from :: H160
  cx_trace_address :: "u32 list"
  cx_subtraces :: u32
  cx_value :: U256
  cx_gas :: u64
  cx_start_gas :: "u64 option"
  cx_data :: "byte list"
  cx_to :: H160
  cx_logs :: "trace_log list"

record call_listener =
  ls_version :: TracingVersion
  transaction_cost :: u64
  ls_entries :: "(32, BlockscoutCall) btree list"
  entries_next_index :: u32
  context_stack :: "call_context list"
  ls_call_type :: "CallType option"
  skip_next_context :: bool
  step_result_entry :: "(u32 \<times> BlockscoutCall) option"
  call_list_first_transaction :: bool
  record_transaction_event_only :: bool
  with_log :: bool

definition default_listener :: call_listener where
  "default_listener =
     \<lparr>ls_version = Legacy, transaction_cost = 0, ls_entries = [], entries_next_index = 0,
      context_stack = [], ls_call_type = None, skip_next_context = False, step_result_entry = None,
      call_list_first_transaction = True, record_transaction_event_only = False, with_log = False\<rparr>"

definition insert_entry :: "u32 \<Rightarrow> BlockscoutCall \<Rightarrow> call_listener \<Rightarrow> call_listener" where
  "insert_entry key entry l =
     (if ls_entries l = [] then l\<lparr>ls_entries := [[(key, entry)]]\<rparr>
      else l\<lparr>ls_entries := on_last (btree_insert key entry) (ls_entries l)\<rparr>)"

section \<open>From a context to an entry\<close>

fun error_message :: "exit_error \<Rightarrow> byte list" where
  "error_message StackUnderflow = ascii ''stack underflow''"
| "error_message StackOverflow = ascii ''stack overflow''"
| "error_message InvalidJump = ascii ''invalid jump''"
| "error_message InvalidRange = ascii ''invalid range''"
| "error_message DesignatedInvalid = ascii ''designated invalid''"
| "error_message CallTooDeep = ascii ''call too deep''"
| "error_message CreateCollision = ascii ''create collision''"
| "error_message CreateContractLimit = ascii ''create contract limit''"
| "error_message OutOfOffset = ascii ''out of offset''"
| "error_message OutOfGas = ascii ''out of gas''"
| "error_message OutOfFund = ascii ''out of funds''"
| "error_message (OtherError err') = err'"
| "error_message (UnnamedError _) = ascii ''unexpected error''"

text \<open>The gas a context used; \<open>u64\<close> subtraction and addition wrap.\<close>

definition context_gas_used :: "u64 \<Rightarrow> call_context \<Rightarrow> u64" where
  "context_gas_used cost context =
     (case cx_start_gas context of None \<Rightarrow> 0 | Some g \<Rightarrow> g) - cx_gas context
       + (if cx_entries_index context = 0 then cost else 0)"

definition context_call ::
  "u64 \<Rightarrow> call_context \<Rightarrow> BlockscoutCallInner \<Rightarrow> BlockscoutCall" where
  "context_call cost context inner =
     \<lparr>bc_from = cx_from context, bc_trace_address = cx_trace_address context,
      bc_subtraces = cx_subtraces context, bc_value = cx_value context,
      bc_gas = ucast (cx_gas context), bc_gas_used = ucast (context_gas_used cost context),
      bc_inner = inner, bc_logs = cx_logs context\<rparr>"

fun call_result :: "exit_reason \<Rightarrow> byte list \<Rightarrow> CallResult" where
  "call_result (ExitedSucceed SucceedReturned) ret = Output ret"
| "call_result (ExitedSucceed _) ret = Output []"
| "call_result (ExitedError e) ret = CallError (error_message e)"
| "call_result ExitedRevert ret = CallError (ascii ''execution reverted'')"
| "call_result (ExitedFatal _) ret = CallError []"

fun create_result :: "H160 \<Rightarrow> exit_reason \<Rightarrow> byte list \<Rightarrow> CreateResult" where
  "create_result to (ExitedSucceed _) ret = CreateSuccess to ret"
| "create_result to (ExitedError e) ret = CreateError (error_message e)"
| "create_result to ExitedRevert ret = CreateError (ascii ''execution reverted'')"
| "create_result to (ExitedFatal _) ret = CreateError []"

definition exit_inner ::
  "call_context \<Rightarrow> exit_reason \<Rightarrow> byte list \<Rightarrow> BlockscoutCallInner" where
  "exit_inner context reason ret =
     (case cx_type context of
        CallContext call_type \<Rightarrow>
          BlockscoutCall call_type (cx_to context) (cx_data context) (call_result reason ret)
      | CreateContext \<Rightarrow>
          BlockscoutCreate (cx_data context) (create_result (cx_to context) reason ret))"

definition pop_context_to_entry ::
  "exit_reason \<Rightarrow> byte list \<Rightarrow> call_listener
    \<Rightarrow> (u32 \<times> BlockscoutCall) option \<times> call_listener" where
  "pop_context_to_entry reason ret l =
     (case vec_pop (context_stack l) of
        Some (context, stack) \<Rightarrow>
          (Some (cx_entries_index context,
             context_call (transaction_cost l) context (exit_inner context reason ret)),
           l\<lparr>context_stack := stack\<rparr>)
      | None \<Rightarrow> (None, l))"

section \<open>The end of a transaction\<close>

definition EARLY_EXIT :: "byte list" where
  "EARLY_EXIT =
     ascii ''early exit (out of gas, stack overflow, direct call to precompile, ...)''"

definition NO_DATA_COST :: "byte list" where
  "NO_DATA_COST =
     ascii ''transaction could not pay its own data cost (impossible to gather more info)''"

definition early_exit_inner :: "call_context \<Rightarrow> BlockscoutCallInner" where
  "early_exit_inner context =
     (case cx_type context of
        CallContext call_type \<Rightarrow>
          BlockscoutCall call_type (cx_to context) (cx_data context) (CallError EARLY_EXIT)
      | CreateContext \<Rightarrow> BlockscoutCreate (cx_data context) (CreateError EARLY_EXIT))"

definition unpaid_call :: BlockscoutCall where
  "unpaid_call =
     \<lparr>bc_from = replicate 20 0, bc_trace_address = [], bc_subtraces = 0, bc_value = 0, bc_gas = 0,
      bc_gas_used = 0,
      bc_inner = BlockscoutCall TypeCall (replicate 20 0) [] (CallError NO_DATA_COST),
      bc_logs = []\<rparr>"

definition finish_transaction :: "call_listener \<Rightarrow> call_listener" where
  "finish_transaction l =
     (case context_stack l of
        context # _ \<Rightarrow>
          (insert_entry (cx_entries_index context)
             (context_call (transaction_cost l) context (early_exit_inner context))
             (l\<lparr>context_stack := []\<rparr>))
            \<lparr>entries_next_index := cx_entries_index context + 1\<rparr>
      | [] \<Rightarrow>
          if record_transaction_event_only l
          then (insert_entry (entries_next_index l) unpaid_call l)
                 \<lparr>entries_next_index := entries_next_index l + 1\<rparr>
          else l)"

section \<open>Events of the gasometer and the interpreter\<close>

definition record_gas :: "Snapshot \<Rightarrow> call_context \<Rightarrow> call_context" where
  "record_gas snapshot context =
     context\<lparr>cx_start_gas := (case cx_start_gas context of
                 None \<Rightarrow> Some (snapshot_gas snapshot) | Some g \<Rightarrow> Some g),
             cx_gas := snapshot_gas snapshot\<rparr>"

fun call_gasometer_event :: "GasometerEvent \<Rightarrow> call_listener \<Rightarrow> call_listener" where
  "call_gasometer_event (RecordCost _ snapshot) l =
     l\<lparr>context_stack := on_last (record_gas snapshot) (context_stack l)\<rparr>"
| "call_gasometer_event (RecordDynamicCost _ _ _ snapshot) l =
     l\<lparr>context_stack := on_last (record_gas snapshot) (context_stack l)\<rparr>"
| "call_gasometer_event (RecordStipend _ snapshot) l =
     l\<lparr>context_stack := on_last (record_gas snapshot) (context_stack l)\<rparr>"
| "call_gasometer_event (RecordTransaction cost _) l =
     l\<lparr>transaction_cost := cost, record_transaction_event_only := True\<rparr>"
| "call_gasometer_event (RecordRefund _ _) l = l"

fun call_runtime_event :: "RuntimeEvent \<Rightarrow> call_listener \<Rightarrow> call_listener" where
  "call_runtime_event (StepResult (Inl (CaptureTrap opcode)) _) l =
     (case ContextType_from opcode of
        Some (CallContext call_type) \<Rightarrow> l\<lparr>ls_call_type := Some call_type\<rparr>
      | _ \<Rightarrow> l)"
| "call_runtime_event (StepResult (Inl (CaptureExit reason)) ret) l =
     (case pop_context_to_entry reason ret l of
        (Some (key, entry), l') \<Rightarrow>
          (case ls_version l' of
             Legacy \<Rightarrow> insert_entry key entry l'
           | EarlyTransact \<Rightarrow> l'\<lparr>step_result_entry := Some (key, entry)\<rparr>)
      | (None, l') \<Rightarrow> l')"
| "call_runtime_event _ l = l"

section \<open>Events of the executor\<close>

text \<open>A context is pushed with the next index.\<close>

definition push_context ::
  "ContextType \<Rightarrow> H160 \<Rightarrow> u32 list \<Rightarrow> U256 \<Rightarrow> byte list \<Rightarrow> H160 \<Rightarrow> call_listener \<Rightarrow> call_listener" where
  "push_context type from address v input to l =
     l\<lparr>context_stack := context_stack l @
         [\<lparr>cx_entries_index = entries_next_index l, cx_type = type, cx_from = from,
           cx_trace_address = address, cx_subtraces = 0, cx_value = v, cx_gas = 0,
           cx_start_gas = None, cx_data = input, cx_to = to, cx_logs = []\<rparr>],
       entries_next_index := entries_next_index l + 1\<rparr>"

text \<open>The address of the next child of the last context, which counts it.\<close>

definition next_trace_address :: "call_listener \<Rightarrow> u32 list \<times> call_listener" where
  "next_trace_address l =
     (case vec_last (context_stack l) of
        Some context \<Rightarrow>
          (cx_trace_address context @ [cx_subtraces context],
           l\<lparr>context_stack := on_last (\<lambda>c. c\<lparr>cx_subtraces := cx_subtraces c + 1\<rparr>) (context_stack l)\<rparr>)
      | None \<Rightarrow> ([], l))"

definition transact_context ::
  "ContextType \<Rightarrow> H160 \<Rightarrow> U256 \<Rightarrow> byte list \<Rightarrow> H160 \<Rightarrow> call_listener \<Rightarrow> call_listener" where
  "transact_context type caller v input address l =
     (push_context type caller [] v input address
        (l\<lparr>record_transaction_event_only := False, ls_version := EarlyTransact\<rparr>))
       \<lparr>skip_next_context := True\<rparr>"

definition subcall_type :: "CallType option \<Rightarrow> bool \<Rightarrow> CallType" where
  "subcall_type t is_static =
     (case t of Some call_type \<Rightarrow> call_type
      | None \<Rightarrow> if is_static then TypeStaticCall else TypeCall)"

fun call_evm_event :: "EvmEvent \<Rightarrow> call_listener \<Rightarrow> call_listener" where
  "call_evm_event (EvmTransactCall caller address v input _) l =
     transact_context (CallContext TypeCall) caller v input address l"
| "call_evm_event (EvmTransactCreate caller v init_code _ address) l =
     transact_context CreateContext caller v init_code address l"
| "call_evm_event (EvmTransactCreate2 caller v init_code _ _ address) l =
     transact_context CreateContext caller v init_code address l"
| "call_evm_event (EvmCall code_address _ input _ is_static context) l =
     (let l = l\<lparr>record_transaction_event_only := False\<rparr>;
          call_type = subcall_type (ls_call_type l) is_static in
      if \<not> skip_next_context l then
        let (trace_address, l) = next_trace_address l;
            from = (case vec_last (context_stack l) of
                      Some parent \<Rightarrow> cx_to parent | None \<Rightarrow> exec_caller context) in
        push_context (CallContext call_type) from trace_address (apparent_value context) input
          code_address l
      else l\<lparr>skip_next_context := False\<rparr>)"
| "call_evm_event (EvmCreate caller address _ v init_code _) l =
     (let l = l\<lparr>record_transaction_event_only := False\<rparr> in
      if \<not> skip_next_context l then
        let (trace_address, l) = next_trace_address l in
        push_context CreateContext caller trace_address v init_code address l
      else l\<lparr>skip_next_context := False\<rparr>)"
| "call_evm_event (EvmSuicide address target bal) l =
     (let (trace_address, l) = next_trace_address l;
          l = insert_entry (entries_next_index l)
                \<lparr>bc_from = address, bc_trace_address = trace_address, bc_subtraces = 0,
                 bc_value = 0, bc_gas = 0, bc_gas_used = 0,
                 bc_inner = BlockscoutSelfDestruct bal target, bc_logs = []\<rparr> l in
      l\<lparr>entries_next_index := entries_next_index l + 1\<rparr>)"
| "call_evm_event (EvmExit reason ret) l =
     (let l = l\<lparr>record_transaction_event_only := False\<rparr>;
          (entry, l) = (case step_result_entry l of
             Some e \<Rightarrow> (Some e, l\<lparr>step_result_entry := None\<rparr>)
           | None \<Rightarrow> pop_context_to_entry reason ret l) in
      (case entry of Some (key, e) \<Rightarrow> insert_entry key e l | None \<Rightarrow> l))"
| "call_evm_event (EvmPrecompileSubcall _ _ _ _ _ _) l = l\<lparr>ls_call_type := Some TypeCall\<rparr>"
| "call_evm_event (EvmLog address topics d) l =
     (if with_log l
      then l\<lparr>context_stack := on_last (\<lambda>c. c\<lparr>cx_logs := cx_logs c @
               [\<lparr>log_address = address, log_topics = topics, log_data = d\<rparr>]\<rparr>) (context_stack l)\<rparr>
      else l)"

fun call_event :: "tracing_event \<Rightarrow> call_listener \<Rightarrow> call_listener" where
  "call_event (Gasometer e) l = call_gasometer_event e l"
| "call_event (Runtime e) l = call_runtime_event e l"
| "call_event (Evm e) l = call_evm_event e l"
| "call_event CallListNew l =
     (if \<not> call_list_first_transaction l
      then let l = (finish_transaction l)\<lparr>skip_next_context := False\<rparr> in
           l\<lparr>ls_entries := ls_entries l @ [[]]\<rparr>
      else l\<lparr>call_list_first_transaction := False\<rparr>)"

definition call_step_event_filter :: StepEventFilter where
  "call_step_event_filter = \<lparr>enable_stack = False, enable_memory = False\<rparr>"

text \<open>The events of a replay, one after the other.\<close>

definition listen :: "tracing_event list \<Rightarrow> call_listener \<Rightarrow> call_listener" where
  "listen es l = fold call_event es l"

lemma listen_simps [simp]:
  "listen [] l = l" "listen (e # es) l = listen es (call_event e l)"
  "listen (es @ es') l = listen es' (listen es l)"
  by (simp_all add: listen_def)

end
