(* ===== verification/Call_Formats.thy ===== *)
theory Call_Formats
  imports Call_List
begin

text \<open>
  The formatters that turn the entries of the call listener into a response (\<open>formatters\<close>):
  Blockscout's list, geth's nested calls, OpenEthereum's flat traces. A result \<open>None\<close> of the
  functions that build the nested calls is a panic.
\<close>

section \<open>Blockscout\<close>

definition blockscout_format :: "call_listener \<Rightarrow> single_trace option" where
  "blockscout_format l =
     map_option (\<lambda>entry. CallList (map (\<lambda>(_, v). Blockscout v) entry)) (vec_last (ls_entries l))"

section \<open>Call tracer\<close>

fun call_type_name :: "CallType \<Rightarrow> byte list" where
  "call_type_name TypeCall = ascii ''CALL''"
| "call_type_name TypeCallCode = ascii ''CALLCODE''"
| "call_type_name TypeDelegateCall = ascii ''DELEGATECALL''"
| "call_type_name TypeStaticCall = ascii ''STATICCALL''"

fun call_tracer_inner ::
  "U256 \<Rightarrow> trace_log list \<Rightarrow> BlockscoutCallInner \<Rightarrow> CallTracerInner" where
  "call_tracer_inner v logs (BlockscoutCall call_type to input res) =
     CallTracerCallInner (call_type_name call_type) to input res (Some v)
       (case res of Output _ \<Rightarrow> logs | CallError _ \<Rightarrow> [])"
| "call_tracer_inner v logs (BlockscoutCreate init res) =
     CallTracerCreateInner (ascii ''CREATE'') init
       (case res of CreateSuccess address code \<Rightarrow> Some address | CreateError e \<Rightarrow> None)
       (case res of CreateSuccess address code \<Rightarrow> Some code | CreateError e \<Rightarrow> None)
       (case res of CreateSuccess address code \<Rightarrow> None | CreateError e \<Rightarrow> Some e) v"
| "call_tracer_inner v logs (BlockscoutSelfDestruct bal to) =
     CallTracerSelfDestructInner (ascii ''SELFDESTRUCT'') to bal"

definition call_tracer_call :: "BlockscoutCall \<Rightarrow> trace_call" where
  "call_tracer_call it =
     CallTracer (bc_from it) (Some (bc_trace_address it)) (bc_gas it) (bc_gas_used it)
       (call_tracer_inner (bc_value it) (bc_logs it) (bc_inner it)) []"

text \<open>The comparison of two addresses of the same length.\<close>

fun sibling_greater_than :: "u32 list \<Rightarrow> u32 list \<Rightarrow> bool" where
  "sibling_greater_than (a # as) (b # bs) =
     (if b < a then True else if a < b then False else sibling_greater_than as bs)"
| "sibling_greater_than _ _ = False"

definition trace_address_order :: "u32 list \<Rightarrow> u32 list \<Rightarrow> ordering" where
  "trace_address_order a b =
     (if length a < length b \<or> length a = length b \<and> sibling_greater_than a b
      then Less else Greater)"

text \<open>All calls that are sorted have an address; the last case is the \<open>unreachable!\<close> of the code.\<close>

fun call_order :: "trace_call \<Rightarrow> trace_call \<Rightarrow> ordering" where
  "call_order (CallTracer _ (Some a) _ _ _ _) (CallTracer _ (Some b) _ _ _ _) =
     trace_address_order a b"
| "call_order _ _ = Equal"

text \<open>
  \<open>slice::sort_by\<close>, a stable sort. For a comparison that is a strict order on the elements, as
  the above is on different addresses, the result is the only sorted permutation.
\<close>

fun sorted_insert_by :: "('a \<Rightarrow> 'a \<Rightarrow> ordering) \<Rightarrow> 'a \<Rightarrow> 'a list \<Rightarrow> 'a list" where
  "sorted_insert_by f x [] = [x]"
| "sorted_insert_by f x (y # ys) =
     (if f x y = Greater then y # sorted_insert_by f x ys else x # y # ys)"

definition sort_by :: "('a \<Rightarrow> 'a \<Rightarrow> ordering) \<Rightarrow> 'a list \<Rightarrow> 'a list" where
  "sort_by f xs = foldr (sorted_insert_by f) xs []"

text \<open>The index of the parent of the call with the given address; \<open>None\<close> is a panic.\<close>

fun parent_position :: "u32 list \<Rightarrow> trace_call list \<Rightarrow> nat option option" where
  "parent_position a [] = Some None"
| "parent_position a (CallTracer _ (Some b) _ _ _ _ # cs) =
     (if a = [] then None
      else if b = butlast a then Some (Some 0)
      else map_option (map_option Suc) (parent_position a cs))"
| "parent_position a (_ # cs) = None"

fun without_address :: "trace_call \<Rightarrow> trace_call" where
  "without_address (CallTracer from a g u inner calls) = CallTracer from None g u inner calls"
| "without_address (Blockscout c) = Blockscout c"

fun push_call :: "trace_call \<Rightarrow> trace_call \<Rightarrow> trace_call" where
  "push_call child (CallTracer from a g u inner calls) =
     CallTracer from a g u inner (calls @ [child])"
| "push_call child (Blockscout c) = Blockscout c"

text \<open>The loop that pops a call and pushes it to its parent.\<close>

function pop_and_push :: "trace_call list \<Rightarrow> trace_call list option" where
  "pop_and_push result =
     (if length result \<le> 1 then Some result
      else case last result of
        CallTracer _ (Some a) _ _ _ _ \<Rightarrow>
          (case parent_position a (butlast result) of
             None \<Rightarrow> None
           | Some None \<Rightarrow> pop_and_push (butlast result)
           | Some (Some i) \<Rightarrow>
               pop_and_push ((butlast result)
                 [i := push_call (without_address (last result)) (butlast result ! i)]))
      | _ \<Rightarrow> None)"
  by pat_completeness auto
termination by (relation "measure length") auto

declare pop_and_push.simps [simp del]

definition nested_calls :: "(32, BlockscoutCall) btree \<Rightarrow> trace_call list option" where
  "nested_calls entry =
     (let result = map (\<lambda>(_, it). call_tracer_call it) entry in
      map_option (\<lambda>r. case r of [] \<Rightarrow> [] | c # cs \<Rightarrow> without_address c # cs)
        (if length result > 1 then pop_and_push (sort_by call_order result) else Some result))"

fun call_tracer_traces ::
  "u32 \<Rightarrow> (32, BlockscoutCall) btree list \<Rightarrow> BlockTransactionTrace list option" where
  "call_tracer_traces i [] = Some []"
| "call_tracer_traces i (entry # entries) =
     (if entry = [] then call_tracer_traces (i + 1) entries
      else case nested_calls entry of
        None \<Rightarrow> None
      | Some result \<Rightarrow>
          map_option
            (\<lambda>traces. case result of
               [call] \<Rightarrow> \<lparr>block_tx_hash = 0, block_result = CallListNested call,
                          block_tx_position = i\<rparr> # traces
             | _ \<Rightarrow> traces)
            (call_tracer_traces (i + 1) entries))"

definition call_tracer_format :: "call_listener \<Rightarrow> BlockTransactionTrace list option option" where
  "call_tracer_format l =
     map_option (\<lambda>traces. if traces = [] then None else Some traces)
       (call_tracer_traces 0 (ls_entries l))"

section \<open>Trace filter\<close>

definition transaction_trace :: "u32 \<Rightarrow> BlockscoutCall \<Rightarrow> TransactionTrace" where
  "transaction_trace i trace =
     (let (action, result) =
        (case bc_inner trace of
           BlockscoutCall call_type to input res \<Rightarrow>
             (ActionCall call_type (bc_from trace) (bc_gas trace) input to (bc_value trace),
              (case res of
                 Output output \<Rightarrow> OutputResult (ResultCall (bc_gas_used trace) output)
               | CallError e \<Rightarrow> OutputError e))
         | BlockscoutCreate init res \<Rightarrow>
             (ActionCreate TypeCreate (bc_from trace) (bc_gas trace) init (bc_value trace),
              (case res of
                 CreateSuccess address code \<Rightarrow>
                   OutputResult (ResultCreate address code (bc_gas_used trace))
               | CreateError e \<Rightarrow> OutputError e))
         | BlockscoutSelfDestruct bal to \<Rightarrow>
             (ActionSuicide (bc_from trace) bal to, OutputResult ResultSuicide)) in
      \<lparr>tt_action = action, tt_block_hash = 0, tt_block_number = 0, tt_output = result,
       tt_subtraces = bc_subtraces trace, tt_trace_address = bc_trace_address trace,
       tt_transaction_hash = 0, tt_transaction_position = i\<rparr>)"

fun trace_filter_traces ::
  "u32 \<Rightarrow> (32, BlockscoutCall) btree list \<Rightarrow> TransactionTrace list" where
  "trace_filter_traces i [] = []"
| "trace_filter_traces i (entry # entries) =
     map (\<lambda>(_, trace). transaction_trace i trace) entry @ trace_filter_traces (i + 1) entries"

definition trace_filter_format :: "call_listener \<Rightarrow> TransactionTrace list option" where
  "trace_filter_format l = Some (trace_filter_traces 0 (ls_entries l))"

end
