(* ===== verification/Call_Trees.thy ===== *)
theory Call_Trees
  imports Call_List
begin

text \<open>
  What the call listener is to find: executions as trees of frames, the events the EVM emits for
  them, and the tree of calls that describes them.
\<close>

section \<open>Trees\<close>

datatype 'a rose = Rose (label: 'a) (branches: "'a rose list")

fun preorder :: "'a rose \<Rightarrow> 'a list" and preorders :: "'a rose list \<Rightarrow> 'a list" where
  "preorder (Rose a ts) = a # preorders ts"
| "preorders [] = []"
| "preorders (t # ts) = preorder t @ preorders ts"

text \<open>The calls of a tree carry their path from the root.\<close>

fun addressed :: "u32 list \<Rightarrow> BlockscoutCall rose \<Rightarrow> bool"
  and addressed_list :: "u32 list \<Rightarrow> nat \<Rightarrow> BlockscoutCall rose list \<Rightarrow> bool" where
  "addressed addr (Rose c ts) \<longleftrightarrow> bc_trace_address c = addr \<and> addressed_list addr 0 ts"
| "addressed_list addr k [] \<longleftrightarrow> True"
| "addressed_list addr k (t # ts) \<longleftrightarrow>
     addressed (addr @ [word_of_nat k]) t \<and> addressed_list addr (Suc k) ts"

section \<open>Executions\<close>

text \<open>
  A frame is entered by a call or a creation. The interpreter that requests it traps first, a
  precompile announces it.
\<close>

datatype head =
    CallHead H160 "Transfer option" "byte list" "u64 option" bool exec_context
  | CreateHead H160 H160 CreateScheme U256 "byte list" "u64 option"

datatype entered_by =
    ByOpcode "byte list" "byte list"
  | ByPrecompile H160 "Transfer option" "byte list" "u64 option" bool exec_context

text \<open>
  A frame ends with an exit of the executor. Where bytecode ran, the interpreter has reported its
  own result before, and the gasometer may have the last word in between.
\<close>

datatype ending =
    Interpreted exit_reason "byte list" "tracing_event list" exit_reason "byte list"
  | Direct exit_reason "byte list"

text \<open>
  In between, a frame has events of its own, destroys its contract, or runs another frame.
\<close>

datatype frame = Frame head "action list" ending
  and action = Own tracing_event | Destroy H160 H160 U256 | Nested entered_by frame

fun head_event :: "head \<Rightarrow> EvmEvent" where
  "head_event (CallHead code tr input tg st ctx) = EvmCall code tr input tg st ctx"
| "head_event (CreateHead caller address scheme v init tg) =
     EvmCreate caller address scheme v init tg"

fun entered_event :: "entered_by \<Rightarrow> tracing_event" where
  "entered_event (ByOpcode opcode ret) = Runtime (StepResult (Inl (CaptureTrap opcode)) ret)"
| "entered_event (ByPrecompile code tr input tg st ctx) =
     Evm (EvmPrecompileSubcall code tr input tg st ctx)"

fun late_events :: "ending \<Rightarrow> tracing_event list" where
  "late_events (Interpreted _ _ late _ _) = late"
| "late_events (Direct _ _) = []"

fun ending_events :: "ending \<Rightarrow> tracing_event list" where
  "ending_events (Interpreted reason ret late reason' ret') =
     Runtime (StepResult (Inl (CaptureExit reason)) ret) # late @ [Evm (EvmExit reason' ret')]"
| "ending_events (Direct reason ret) = [Evm (EvmExit reason ret)]"

fun frame_events :: "frame \<Rightarrow> tracing_event list" and action_events :: "action list \<Rightarrow> tracing_event list" where
  "frame_events (Frame h as e) = Evm (head_event h) # action_events as @ ending_events e"
| "action_events [] = []"
| "action_events (Own e # as) = e # action_events as"
| "action_events (Destroy a t b # as) = Evm (EvmSuicide a t b) # action_events as"
| "action_events (Nested via f # as) =
     entered_event via # frame_events f @ action_events as"

text \<open>Events that neither start nor end a frame or a transaction.\<close>

fun own_event :: "tracing_event \<Rightarrow> bool" where
  "own_event (Gasometer (RecordTransaction _ _)) = False"
| "own_event (Gasometer _) = True"
| "own_event (Runtime (StepResult (Inl (CaptureExit _)) _)) = False"
| "own_event (Runtime _) = True"
| "own_event (Evm (EvmLog _ _ _)) = True"
| "own_event _ = False"

fun frame_ok :: "frame \<Rightarrow> bool" and actions_ok :: "action list \<Rightarrow> bool" where
  "frame_ok (Frame h as e) \<longleftrightarrow> actions_ok as \<and> list_all own_event (late_events e)"
| "actions_ok [] \<longleftrightarrow> True"
| "actions_ok (Own e # as) \<longleftrightarrow> own_event e \<and> actions_ok as"
| "actions_ok (Destroy _ _ _ # as) \<longleftrightarrow> actions_ok as"
| "actions_ok (Nested via (Frame h fs e) # as) \<longleftrightarrow>
     (case via of ByOpcode opcode _ \<Rightarrow>
        (case h of CallHead _ _ _ _ _ _ \<Rightarrow> (case ContextType_from opcode of Some (CallContext _) \<Rightarrow> True | _ \<Rightarrow> False)
         | CreateHead _ _ _ _ _ _ \<Rightarrow> True)
      | _ \<Rightarrow> True)
     \<and> frame_ok (Frame h fs e) \<and> actions_ok as"

section \<open>The calls of an execution\<close>

text \<open>
  The gas left, as the own events of a frame report it; the logs it emits. What the gasometer
  still reports after a nested frame has returned counts for the frame it returned to.
\<close>

fun event_gas :: "tracing_event \<Rightarrow> u64 option" where
  "event_gas (Gasometer (RecordCost _ s)) = Some (snapshot_gas s)"
| "event_gas (Gasometer (RecordDynamicCost _ _ _ s)) = Some (snapshot_gas s)"
| "event_gas (Gasometer (RecordStipend _ s)) = Some (snapshot_gas s)"
| "event_gas _ = None"

fun event_log :: "tracing_event \<Rightarrow> trace_log option" where
  "event_log (Evm (EvmLog a ts d)) = Some \<lparr>log_address = a, log_topics = ts, log_data = d\<rparr>"
| "event_log _ = None"

fun own_events :: "action list \<Rightarrow> tracing_event list" where
  "own_events [] = []"
| "own_events (Own e # as) = e # own_events as"
| "own_events (Destroy _ _ _ # as) = own_events as"
| "own_events (Nested via (Frame h fs e) # as) = late_events e @ own_events as"

definition gas_readings :: "action list \<Rightarrow> u64 list" where
  "gas_readings as = List.map_filter event_gas (own_events as)"

definition emitted_logs :: "bool \<Rightarrow> action list \<Rightarrow> trace_log list" where
  "emitted_logs wl as = (if wl then List.map_filter event_log (own_events as) else [])"

fun children_count :: "action list \<Rightarrow> nat" where
  "children_count [] = 0"
| "children_count (Own _ # as) = children_count as"
| "children_count (Destroy _ _ _ # as) = Suc (children_count as)"
| "children_count (Nested _ _ # as) = Suc (children_count as)"

fun entered_type :: "entered_by \<Rightarrow> CallType" where
  "entered_type (ByOpcode opcode _) =
     (case ContextType_from opcode of Some (CallContext t) \<Rightarrow> t | _ \<Rightarrow> TypeCall)"
| "entered_type (ByPrecompile _ _ _ _ _ _) = TypeCall"

fun head_to :: "head \<Rightarrow> H160" where
  "head_to (CallHead code _ _ _ _ _) = code"
| "head_to (CreateHead _ address _ _ _ _) = address"

fun ending_reason :: "ending \<Rightarrow> exit_reason" where
  "ending_reason (Interpreted reason _ _ _ _) = reason"
| "ending_reason (Direct reason _) = reason"

fun ending_value :: "ending \<Rightarrow> byte list" where
  "ending_value (Interpreted _ ret _ _ _) = ret"
| "ending_value (Direct _ ret) = ret"

text \<open>A call, given who made it, its kind, its address, its actions and its outcome.\<close>

definition described_call :: "bool \<Rightarrow> u64 \<Rightarrow> H160 \<Rightarrow> U256 \<Rightarrow> u32 list \<Rightarrow> action list
    \<Rightarrow> BlockscoutCallInner \<Rightarrow> BlockscoutCall" where
  "described_call wl cost from v addr as inner =
     (let gs = gas_readings as in
      \<lparr>bc_from = from, bc_trace_address = addr, bc_subtraces = word_of_nat (children_count as),
       bc_value = v, bc_gas = ucast (if gs = [] then 0 else last gs),
       bc_gas_used = ucast ((if gs = [] then 0 else hd gs - last gs) + cost),
       bc_inner = inner, bc_logs = emitted_logs wl as\<rparr>)"

fun frame_call :: "bool \<Rightarrow> H160 \<Rightarrow> CallType \<Rightarrow> u32 list \<Rightarrow> frame \<Rightarrow> BlockscoutCall" where
  "frame_call wl parent t addr (Frame (CallHead code _ input _ _ ctx) as e) =
     described_call wl 0 parent (apparent_value ctx) addr as
       (BlockscoutCall t code input (call_result (ending_reason e) (ending_value e)))"
| "frame_call wl parent t addr (Frame (CreateHead caller address _ v init _) as e) =
     described_call wl 0 caller v addr as
       (BlockscoutCreate init (create_result address (ending_reason e) (ending_value e)))"

definition destroy_call :: "u32 list \<Rightarrow> H160 \<Rightarrow> H160 \<Rightarrow> U256 \<Rightarrow> BlockscoutCall" where
  "destroy_call addr a t b =
     \<lparr>bc_from = a, bc_trace_address = addr, bc_subtraces = 0, bc_value = 0, bc_gas = 0,
      bc_gas_used = 0, bc_inner = BlockscoutSelfDestruct b t, bc_logs = []\<rparr>"

text \<open>The tree of a frame called by the code at \<open>parent\<close>, and those of the actions of a frame.\<close>

fun frame_tree ::
    "bool \<Rightarrow> H160 \<Rightarrow> CallType \<Rightarrow> u32 list \<Rightarrow> frame \<Rightarrow> BlockscoutCall rose"
  and action_trees ::
    "bool \<Rightarrow> H160 \<Rightarrow> u32 list \<Rightarrow> nat \<Rightarrow> action list \<Rightarrow> BlockscoutCall rose list" where
  "frame_tree wl parent t addr (Frame h as e) =
     Rose (frame_call wl parent t addr (Frame h as e)) (action_trees wl (head_to h) addr 0 as)"
| "action_trees wl to addr k [] = []"
| "action_trees wl to addr k (Own e # as) = action_trees wl to addr k as"
| "action_trees wl to addr k (Destroy a t b # as) =
     Rose (destroy_call (addr @ [word_of_nat k]) a t b) [] # action_trees wl to addr (Suc k) as"
| "action_trees wl to addr k (Nested via f # as) =
     frame_tree wl to (entered_type via) (addr @ [word_of_nat k]) f
       # action_trees wl to addr (Suc k) as"

section \<open>Transactions\<close>

datatype transact =
    TransactCall H160 H160 U256 "byte list" u64
  | TransactCreate H160 U256 "byte list" u64 H160
  | TransactCreate2 H160 U256 "byte list" H256 u64 H160

fun transact_event :: "transact \<Rightarrow> EvmEvent" where
  "transact_event (TransactCall caller address v input g) = EvmTransactCall caller address v input g"
| "transact_event (TransactCreate caller v init g address) =
     EvmTransactCreate caller v init g address"
| "transact_event (TransactCreate2 caller v init salt g address) =
     EvmTransactCreate2 caller v init salt g address"

text \<open>
  A transaction pays its own data first; then it is rejected, or the frame at the top starts. The
  head of that frame repeats what is known.
\<close>

datatype txn = Txn transact u64 Snapshot "head option" "action list" ending

fun txn_events :: "txn \<Rightarrow> tracing_event list" where
  "txn_events (Txn tr cost snapshot h as e) =
     Evm (transact_event tr) # Gasometer (RecordTransaction cost snapshot)
       # (case h of None \<Rightarrow> [] | Some h \<Rightarrow> [Evm (head_event h)])
       @ action_events as @ ending_events e"

fun txn_ok :: "txn \<Rightarrow> bool" where
  "txn_ok (Txn tr cost snapshot h as e) \<longleftrightarrow>
     actions_ok as \<and> list_all own_event (late_events e) \<and> (h = None \<longrightarrow> as = [])"

fun txn_to :: "transact \<Rightarrow> H160" where
  "txn_to (TransactCall _ address _ _ _) = address"
| "txn_to (TransactCreate _ _ _ _ address) = address"
| "txn_to (TransactCreate2 _ _ _ _ _ address) = address"

fun txn_call :: "bool \<Rightarrow> u64 \<Rightarrow> txn \<Rightarrow> BlockscoutCall" where
  "txn_call wl cost (Txn (TransactCall caller address v input _) _ _ _ as e) =
     described_call wl cost caller v [] as
       (BlockscoutCall TypeCall address input (call_result (ending_reason e) (ending_value e)))"
| "txn_call wl cost (Txn (TransactCreate caller v init _ address) _ _ _ as e) =
     described_call wl cost caller v [] as
       (BlockscoutCreate init (create_result address (ending_reason e) (ending_value e)))"
| "txn_call wl cost (Txn (TransactCreate2 caller v init _ _ address) _ _ _ as e) =
     described_call wl cost caller v [] as
       (BlockscoutCreate init (create_result address (ending_reason e) (ending_value e)))"

text \<open>
  The tree of a transaction; the cost is what its root is charged for the data, if anything.
\<close>

fun txn_cost :: "txn \<Rightarrow> u64" where
  "txn_cost (Txn _ cost _ _ _ _) = cost"

fun txn_tree :: "bool \<Rightarrow> u64 \<Rightarrow> txn \<Rightarrow> BlockscoutCall rose" where
  "txn_tree wl cost (Txn tr c snapshot h as e) =
     Rose (txn_call wl cost (Txn tr c snapshot h as e)) (action_trees wl (txn_to tr) [] 0 as)"

section \<open>Facts on trees\<close>

lemma preorders_append [simp]: "preorders (ts @ us) = preorders ts @ preorders us"
  by (induction ts) simp_all

lemma preorder_not_Nil [simp]: "preorder t \<noteq> []" "length (preorder t) \<noteq> 0"
  by (cases t; simp)+

lemma action_trees_length: "length (action_trees wl to addr k as) = children_count as"
  by (induction as arbitrary: k rule: children_count.induct) simp_all

lemma trees_addressed:
  "addressed addr (frame_tree wl parent t addr f)"
  "addressed_list addr k (action_trees wl to addr k as)"
proof (induction wl parent t addr f and wl to addr k as rule: frame_tree_action_trees.induct)
  case (1 wl parent t addr h as e)
  then show ?case by (cases h) (simp_all add: described_call_def Let_def)
qed (simp_all add: destroy_call_def)

lemma txn_tree_addressed: "addressed [] (txn_tree wl cost x)"
proof (cases x)
  case (Txn tr c s h as e)
  then show ?thesis using trees_addressed(2) by (cases tr) (simp_all add: described_call_def Let_def)
qed

end
