(* ===== verification/Nested_Calls.thy ===== *)
theory Nested_Calls
  imports Call_Formats Call_Trees
begin

text \<open>
  Geth's nested calls: sorting the calls of a tree and pushing each to its parent gives back the
  tree, whatever its shape.
\<close>

section \<open>The order of addresses\<close>

definition before :: "u32 list \<Rightarrow> u32 list \<Rightarrow> bool" where
  "before a b \<longleftrightarrow> length a < length b \<or> length a = length b \<and> sibling_greater_than a b"

lemma trace_address_order_before [simp]:
  "trace_address_order a b = Less \<longleftrightarrow> before a b"
  "trace_address_order a b = Greater \<longleftrightarrow> \<not> before a b"
  by (simp_all add: trace_address_order_def before_def)

lemma sibling_irrefl [simp]: "\<not> sibling_greater_than a a"
  by (induction a) simp_all

lemma sibling_asym: "sibling_greater_than a b \<Longrightarrow> \<not> sibling_greater_than b a"
  by (induction a b rule: sibling_greater_than.induct) (auto split: if_splits)

lemma sibling_trans:
  "sibling_greater_than a b \<Longrightarrow> sibling_greater_than b c \<Longrightarrow> length a = length b \<Longrightarrow>
    length b = length c \<Longrightarrow> sibling_greater_than a c"
proof (induction a b arbitrary: c rule: sibling_greater_than.induct)
  case (1 a as b bs)
  then obtain d ds where "c = d # ds" by (cases c) auto
  with 1 show ?case by (auto split: if_splits)
qed simp_all

lemma sibling_total:
  "length a = length b \<Longrightarrow> a \<noteq> b \<Longrightarrow> sibling_greater_than a b \<or> sibling_greater_than b a"
  by (induction a b rule: list_induct2) (auto simp: not_less_iff_gr_or_eq)

lemma sibling_append [simp]: "sibling_greater_than (p @ a) (p @ b) = sibling_greater_than a b"
  by (induction p) simp_all

lemma before_trans: "before a b \<Longrightarrow> before b c \<Longrightarrow> before a c"
  using sibling_trans by (auto simp: before_def)

lemma before_asym: "before a b \<Longrightarrow> \<not> before b a"
  using sibling_asym by (auto simp: before_def)

lemma before_total: "a \<noteq> b \<Longrightarrow> \<not> before a b \<Longrightarrow> before b a"
  unfolding before_def using sibling_total linorder_neqE_nat by metis

section \<open>Sorting\<close>

lemma mset_sorted_insert_by [simp]: "mset (sorted_insert_by f x ys) = add_mset x (mset ys)"
  by (induction f x ys rule: sorted_insert_by.induct) auto

lemma mset_sort_by [simp]: "mset (sort_by f xs) = mset xs"
  by (induction xs) (simp_all add: sort_by_def)

lemma set_sorted_insert_by [simp]: "set (sorted_insert_by f x ys) = insert x (set ys)"
  by (metis mset_sorted_insert_by set_mset_add_mset_insert set_mset_mset)

lemma sorted_insert_by_map:
  "(\<And>y. y \<in> set ys \<Longrightarrow> f (g x) (g y) = f' x y) \<Longrightarrow>
    sorted_insert_by f (g x) (map g ys) = map g (sorted_insert_by f' x ys)"
  by (induction ys) auto

lemma sort_by_map:
  assumes "\<And>x y. x \<in> set xs \<Longrightarrow> y \<in> set xs \<Longrightarrow> f (g x) (g y) = f' x y"
  shows "sort_by f (map g xs) = map g (sort_by f' xs)"
  using assms
proof (induction xs)
  case (Cons x xs)
  have "set (sort_by f' xs) = set xs" by (metis mset_sort_by set_mset_mset)
  then have "sorted_insert_by f (g x) (map g (sort_by f' xs)) =
      map g (sorted_insert_by f' x (sort_by f' xs))"
    using Cons.prems by (intro sorted_insert_by_map) simp
  with Cons show ?case by (simp add: sort_by_def)
qed (simp add: sort_by_def)

definition address_order :: "('a \<Rightarrow> u32 list) \<Rightarrow> 'a \<Rightarrow> 'a \<Rightarrow> ordering" where
  "address_order k x y = trace_address_order (k x) (k y)"

lemma sorted_insert_before:
  "sorted_wrt before (map k ys) \<Longrightarrow> k x \<notin> k ` set ys \<Longrightarrow>
    sorted_wrt before (map k (sorted_insert_by (address_order k) x ys))"
proof (induction ys)
  case (Cons y ys)
  have "before (k y) (k x)" if "\<not> before (k x) (k y)"
    using that Cons.prems(2) before_total by auto
  moreover have "before (k x) (k z)" if "before (k x) (k y)" "z \<in> set ys" for z
    using that Cons.prems(1) before_trans by auto
  ultimately show ?case using Cons by (auto simp: address_order_def)
qed simp

lemma sort_by_before:
  "distinct (map k xs) \<Longrightarrow> sorted_wrt before (map k (sort_by (address_order k) xs))"
proof (induction xs)
  case (Cons x xs)
  have "set (sort_by (address_order k) xs) = set xs" by (metis mset_sort_by set_mset_mset)
  with Cons show ?case
    using sorted_insert_before [of k "sort_by (address_order k) xs" x] by (simp add: sort_by_def)
qed (simp add: sort_by_def)

section \<open>The subtrees of a tree\<close>

abbreviation raddr :: "BlockscoutCall rose \<Rightarrow> u32 list" where
  "raddr t \<equiv> bc_trace_address (label t)"

fun subtrees :: "'a rose \<Rightarrow> 'a rose list" and subtrees_list :: "'a rose list \<Rightarrow> 'a rose list" where
  "subtrees (Rose a ts) = Rose a ts # subtrees_list ts"
| "subtrees_list [] = []"
| "subtrees_list (t # ts) = subtrees t @ subtrees_list ts"

lemma preorder_subtrees:
  fixes t :: "'a rose" and ts :: "'a rose list"
  shows "preorder t = map label (subtrees t)" "preorders ts = map label (subtrees_list ts)"
  by (induction t and ts rule: preorder_preorders.induct) simp_all

lemma subtrees_self: "t \<in> set (subtrees t)"
  by (cases t) simp

lemma subtrees_list_mem: "u \<in> set (subtrees_list ts) \<longleftrightarrow> (\<exists>t \<in> set ts. u \<in> set (subtrees t))"
  by (induction ts) auto

lemma addressed_nth:
  "addressed_list addr k ts \<Longrightarrow> i < length ts \<Longrightarrow> addressed (addr @ [word_of_nat (k + i)]) (ts ! i)"
proof (induction ts arbitrary: k i)
  case (Cons t ts)
  then show ?case
    using Cons.IH [of "Suc k" "i - 1"] by (cases i) auto
qed simp

lemma addressed_label: "addressed addr t \<Longrightarrow> raddr t = addr"
  by (cases t) simp

lemma subtrees_prefix:
  "addressed addr t \<Longrightarrow> u \<in> set (subtrees t) \<Longrightarrow> \<exists>s. raddr u = addr @ s"
  "addressed_list addr k ts \<Longrightarrow> u \<in> set (subtrees_list ts) \<Longrightarrow>
    \<exists>i s. k \<le> i \<and> i < k + length ts \<and> raddr u = addr @ word_of_nat i # s"
proof (induction addr t and addr k ts rule: addressed_addressed_list.induct)
  case (1 addr c ts)
  then show ?case by fastforce
next
  case (3 addr k t ts)
  show ?case
  proof (cases "u \<in> set (subtrees t)")
    case True
    with 3 obtain s where "raddr u = addr @ word_of_nat k # s" by auto
    then show ?thesis by (intro exI [of _ k]) auto
  next
    case False
    with 3 obtain i s where "Suc k \<le> i" "i < Suc k + length ts" "raddr u = addr @ word_of_nat i # s"
      by auto
    then show ?thesis by (intro exI [of _ i]) auto
  qed
qed simp

lemma preorder_pos: "1 \<le> length (preorder t)"
  by (cases t) simp

lemma length_subtrees_list: "length ts \<le> length (preorders ts)"
proof (induction ts)
  case (Cons t ts)
  then show ?case by (cases t) simp
qed simp

lemma distinct_subtrees:
  "addressed addr t \<Longrightarrow> length (preorder t) \<le> 2 ^ 32 \<Longrightarrow> distinct (map raddr (subtrees t))"
  "addressed_list addr k ts \<Longrightarrow> k + length (preorders ts) \<le> 2 ^ 32 \<Longrightarrow>
    distinct (map raddr (subtrees_list ts))"
proof (induction addr t and addr k ts rule: addressed_addressed_list.induct)
  case (1 addr c ts)
  have "addr \<notin> raddr ` set (subtrees_list ts)"
    using subtrees_prefix(2) [of addr 0 ts] 1(2) by fastforce
  with 1 show ?case by simp
next
  case (3 addr k t ts)
  have "raddr u \<noteq> raddr v" if "u \<in> set (subtrees t)" "v \<in> set (subtrees_list ts)" for u v
  proof -
    from that(1) 3 obtain s where u: "raddr u = (addr @ [word_of_nat k]) @ s"
      using subtrees_prefix(1) by (metis addressed_list.simps(2))
    from that(2) 3 obtain i s' where v: "Suc k \<le> i" "i < Suc k + length ts"
      "raddr v = addr @ word_of_nat i # s'"
      using subtrees_prefix(2) by (metis addressed_list.simps(2))
    have "length ts \<le> length (preorders ts)" "1 \<le> length (preorder t)"
      by (rule length_subtrees_list) (rule preorder_pos)
    with v(1,2) 3(4) have "i < 2 ^ 32" "k < 2 ^ 32" "i \<noteq> k" by auto
    then have "(word_of_nat k :: u32) \<noteq> word_of_nat i"
      by (simp add: word_of_nat_eq_iff take_bit_nat_eq_self)
    with u v(3) show ?thesis by simp
  qed
  then have "set (map raddr (subtrees t)) \<inter> set (map raddr (subtrees_list ts)) = {}" by auto
  moreover have "length (preorder t) \<le> 2 ^ 32" "Suc k + length (preorders ts) \<le> 2 ^ 32"
    using 3(4) preorder_pos [of t] by simp_all
  ultimately show ?case using 3 by simp
qed simp

text \<open>A list with all subtrees of a tree, in any order.\<close>

definition family :: "BlockscoutCall rose list \<Rightarrow> bool" where
  "family S \<longleftrightarrow> distinct (map raddr S)
     \<and> (\<forall>u \<in> set S. length (branches u) \<le> 2 ^ 32 \<and> (\<forall>i < length (branches u).
          branches u ! i \<in> set S \<and> raddr (branches u ! i) = raddr u @ [word_of_nat i]))
     \<and> (\<forall>u \<in> set S. raddr u \<noteq> [] \<longrightarrow> (\<exists>p \<in> set S. \<exists>i < length (branches p). u = branches p ! i))"

lemma subtrees_children:
  "u \<in> set (subtrees t) \<Longrightarrow> v \<in> set (branches u) \<Longrightarrow> v \<in> set (subtrees t)"
  "u \<in> set (subtrees_list ts) \<Longrightarrow> v \<in> set (branches u) \<Longrightarrow> v \<in> set (subtrees_list ts)"
proof (induction t and ts rule: subtrees_subtrees_list.induct)
  case (1 a ts)
  then show ?case by (auto simp: subtrees_list_mem intro: subtrees_self)
qed auto

lemma subtrees_addressed:
  "addressed addr t \<Longrightarrow> u \<in> set (subtrees t) \<Longrightarrow>
    addressed (raddr u) u \<and> length (preorder u) \<le> length (preorder t)"
  "addressed_list addr k ts \<Longrightarrow> u \<in> set (subtrees_list ts) \<Longrightarrow>
    addressed (raddr u) u \<and> length (preorder u) \<le> length (preorders ts)"
proof (induction addr t and addr k ts rule: addressed_addressed_list.induct)
  case (1 addr c ts)
  then show ?case by auto
next
  case (3 addr k t ts)
  then show ?case by fastforce
qed simp

lemma subtrees_parent:
  "u \<in> set (subtrees t) \<Longrightarrow> u \<noteq> t \<Longrightarrow> \<exists>p \<in> set (subtrees t). u \<in> set (branches p)"
  "u \<in> set (subtrees_list ts) \<Longrightarrow> u \<notin> set ts \<Longrightarrow>
    \<exists>p \<in> set (subtrees_list ts). u \<in> set (branches p)"
  by (induction t and ts rule: subtrees_subtrees_list.induct) auto

lemma subtrees_family:
  assumes "addressed [] t" and "length (preorder t) \<le> 2 ^ 32"
  shows "family (subtrees t)"
proof -
  have "length (branches u) \<le> 2 ^ 32 \<and> (\<forall>i < length (branches u).
      branches u ! i \<in> set (subtrees t) \<and> raddr (branches u ! i) = raddr u @ [word_of_nat i])"
    if u: "u \<in> set (subtrees t)" for u
  proof -
    obtain c ts where ts: "u = Rose c ts" by (cases u)
    from subtrees_addressed(1) [OF assms(1) u] ts
    have "addressed_list (raddr u) 0 ts" "length (preorders ts) < length (preorder t)" by auto
    then show ?thesis
      using addressed_nth [of "raddr u" 0 ts] addressed_label subtrees_children(1) [OF u] ts
        length_subtrees_list [of ts] assms(2) by fastforce
  qed
  moreover have "\<exists>p \<in> set (subtrees t). \<exists>i < length (branches p). u = branches p ! i"
    if "u \<in> set (subtrees t)" "raddr u \<noteq> []" for u
    using subtrees_parent(1) [OF that(1)] that(2) addressed_label [OF assms(1)]
    by (metis in_set_conv_nth)
  ultimately show ?thesis
    using distinct_subtrees(1) [OF assms] by (auto simp: family_def)
qed

section \<open>Pop and push\<close>

fun tree_call :: "BlockscoutCall rose \<Rightarrow> trace_call" where
  "tree_call (Rose c ts) =
     CallTracer (bc_from c) None (bc_gas c) (bc_gas_used c)
       (call_tracer_inner (bc_value c) (bc_logs c) (bc_inner c)) (map tree_call ts)"

text \<open>A call that has received those of its children whose addresses are in \<open>P\<close>.\<close>

definition received :: "u32 list set \<Rightarrow> BlockscoutCall rose \<Rightarrow> trace_call" where
  "received P t =
     CallTracer (bc_from (label t)) (Some (raddr t)) (bc_gas (label t)) (bc_gas_used (label t))
       (call_tracer_inner (bc_value (label t)) (bc_logs (label t)) (bc_inner (label t)))
       (map tree_call (filter (\<lambda>c. raddr c \<in> P) (branches t)))"

lemma received_none: "call_tracer_call (label t) = received {} t"
  by (simp add: call_tracer_call_def received_def)

lemma received_all:
  "\<forall>c \<in> set (branches t). raddr c \<in> P \<Longrightarrow> without_address (received P t) = tree_call t"
  by (cases t) (simp add: received_def)

lemma parent_position_received:
  "a \<noteq> [] \<Longrightarrow> j < length us \<Longrightarrow> raddr (us ! j) = butlast a \<Longrightarrow>
    \<forall>i < j. raddr (us ! i) \<noteq> butlast a \<Longrightarrow>
    parent_position a (map (received P) us) = Some (Some j)"
proof (induction us arbitrary: j)
  case (Cons u us)
  show ?case
  proof (cases j)
    case 0
    with Cons.prems show ?thesis by (simp add: received_def)
  next
    case (Suc i)
    with Cons.prems have "raddr u \<noteq> butlast a" "\<forall>k < i. raddr (us ! k) \<noteq> butlast a" by auto
    with Cons.IH [of i] Cons.prems Suc show ?thesis by (simp add: received_def)
  qed
qed simp

lemma filter_take:
  "i \<le> length xs \<Longrightarrow> (\<And>j. j < length xs \<Longrightarrow> Q (xs ! j) \<longleftrightarrow> j < i) \<Longrightarrow> filter Q xs = take i xs"
proof (induction xs arbitrary: i)
  case (Cons x xs)
  have Q: "Q x \<longleftrightarrow> 0 < i" using Cons.prems(2) [of 0] by simp
  have rest: "\<And>j. j < length xs \<Longrightarrow> Q (xs ! j) \<longleftrightarrow> j < i - 1"
    using Cons.prems(2) [of "Suc j" for j] by fastforce
  with Cons.IH [of "i - 1"] Cons.prems(1) Q show ?case by (cases i) simp_all
qed simp

text \<open>In a sorted family the children of a call come after it, the greater siblings first.\<close>

definition by_rank :: "BlockscoutCall rose list \<Rightarrow> bool" where
  "by_rank S \<longleftrightarrow> family S \<and> sorted_wrt before (map raddr S)"

lemma ranked_less:
  assumes "by_rank S" "i < length S" "j < length S" "before (raddr (S ! i)) (raddr (S ! j))"
  shows "i < j"
proof (rule ccontr)
  assume "\<not> i < j"
  then have "i = j \<or> j < i" by auto
  moreover have "before (raddr (S ! j)) (raddr (S ! i))" if "j < i"
    using assms(1,2) that sorted_wrt_nth_less [of before "map raddr S" j i] by (simp add: by_rank_def)
  ultimately show False using assms(4) before_asym by blast
qed

lemma ranked_inj:
  "by_rank S \<Longrightarrow> i < length S \<Longrightarrow> j < length S \<Longrightarrow> raddr (S ! i) = raddr (S ! j) \<Longrightarrow> i = j"
  by (simp add: by_rank_def family_def distinct_conv_nth) (metis length_map nth_map)

lemma ranked_child:
  assumes "by_rank S" "i < length S" "m < length (branches (S ! i))"
  obtains k where "i < k" "k < length S" "S ! k = branches (S ! i) ! m"
    "raddr (S ! k) = raddr (S ! i) @ [word_of_nat m]"
proof -
  from assms have "branches (S ! i) ! m \<in> set S"
    "raddr (branches (S ! i) ! m) = raddr (S ! i) @ [word_of_nat m]"
    by (auto simp: by_rank_def family_def)
  then obtain k where k: "k < length S" "S ! k = branches (S ! i) ! m" by (auto simp: in_set_conv_nth)
  moreover have "raddr (S ! k) = raddr (S ! i) @ [word_of_nat m]"
    using k \<open>raddr (branches (S ! i) ! m) = _\<close> by simp
  moreover from this have "i < k"
    using ranked_less [OF assms(1,2) k(1)] by (simp add: before_def)
  ultimately show ?thesis using that by blast
qed

lemma ranked_parent:
  assumes "by_rank S" "k < length S" "raddr (S ! k) \<noteq> []"
  obtains i m where "i < k" "m < length (branches (S ! i))" "S ! k = branches (S ! i) ! m"
    "raddr (S ! k) = raddr (S ! i) @ [word_of_nat m]" "raddr (S ! i) = butlast (raddr (S ! k))"
proof -
  from assms obtain p m where p: "p \<in> set S" "m < length (branches p)" "S ! k = branches p ! m"
    unfolding by_rank_def family_def by (metis nth_mem)
  then obtain i where i: "i < length S" "S ! i = p" by (auto simp: in_set_conv_nth)
  from ranked_child [OF assms(1) i(1), of m] p i obtain k' where
    k': "i < k'" "k' < length S" "S ! k' = S ! k" "raddr (S ! k') = raddr (S ! i) @ [word_of_nat m]"
    by auto
  with ranked_inj [OF assms(1) k'(2) assms(2)] have "k' = k" by simp
  with k' p i show ?thesis using that [of i m] by simp
qed

lemma ranked_siblings:
  assumes "by_rank S" "i < length S" "m < length (branches (S ! i))" "m' < length (branches (S ! i))"
    "S ! k = branches (S ! i) ! m" "S ! k' = branches (S ! i) ! m'" "k < length S" "k' < length S"
    "m < m'"
  shows "k' < k"
proof -
  have len: "length (branches (S ! i)) \<le> 2 ^ 32"
    using assms(1,2) by (simp add: by_rank_def family_def)
  from assms have a: "raddr (S ! k) = raddr (S ! i) @ [word_of_nat m]"
    "raddr (S ! k') = raddr (S ! i) @ [word_of_nat m']"
    by (auto simp: by_rank_def family_def)
  have "(word_of_nat m :: u32) < word_of_nat m'"
    using assms(3,4,9) len by (simp add: word_less_nat_alt unsigned_of_nat take_bit_nat_eq_self)
  with a have "before (raddr (S ! k')) (raddr (S ! k))" by (simp add: before_def)
  with ranked_less [OF assms(1,8,7)] show ?thesis by blast
qed

text \<open>One step of the loop, and the loop.\<close>

abbreviation pending :: "BlockscoutCall rose list \<Rightarrow> nat \<Rightarrow> u32 list set" where
  "pending S n \<equiv> raddr ` set (drop n S)"

lemma pending_iff:
  assumes "by_rank S" "k < length S"
  shows "raddr (S ! k) \<in> pending S n \<longleftrightarrow> n \<le> k"
proof
  assume "raddr (S ! k) \<in> pending S n"
  then obtain j where "n \<le> j" "j < length S" "raddr (S ! k) = raddr (S ! j)"
    by (auto simp: in_set_conv_nth) (metis le_add1 less_diff_conv add.commute)
  with ranked_inj [OF assms] show "n \<le> k" by auto
next
  assume "n \<le> k"
  with assms(2) have "drop n S ! (k - n) = S ! k" "k - n < length (drop n S)" by simp_all
  then have "S ! k \<in> set (drop n S)" by (metis nth_mem)
  then show "raddr (S ! k) \<in> pending S n" by blast
qed

lemma pending_children:
  assumes "by_rank S" "i < length S" "\<And>m k. m < length (branches (S ! i)) \<Longrightarrow> k < length S \<Longrightarrow>
    S ! k = branches (S ! i) ! m \<Longrightarrow> (n \<le> k \<longleftrightarrow> m < d)" "d \<le> length (branches (S ! i))"
  shows "filter (\<lambda>c. raddr c \<in> pending S n) (branches (S ! i)) = take d (branches (S ! i))"
proof (rule filter_take [OF assms(4)])
  fix m
  assume m: "m < length (branches (S ! i))"
  with ranked_child [OF assms(1,2)] obtain k where k: "k < length S" "S ! k = branches (S ! i) ! m"
    by metis
  then show "(raddr (branches (S ! i) ! m) \<in> pending S n) = (m < d)"
    using pending_iff [OF assms(1) k(1)] assms(3) [OF m k] by simp
qed

lemma push_to_parent:
  assumes S: "by_rank S" and n: "n < length S" and i: "i < n" "m < length (branches (S ! i))"
    "S ! n = branches (S ! i) ! m"
  shows "push_call (without_address (received (pending S (Suc n)) (S ! n)))
    (received (pending S (Suc n)) (S ! i)) = received (pending S n) (S ! i)"
proof -
  have il: "i < length S" using n i(1) by simp
  have order: "Suc n \<le> k \<longleftrightarrow> m' < m" "n \<le> k \<longleftrightarrow> m' < Suc m"
    if "m' < length (branches (S ! i))" "k < length S" "S ! k = branches (S ! i) ! m'" for m' k
  proof -
    consider "m' < m" | "m' = m" | "m < m'" by linarith
    then have "Suc n \<le> k \<and> m' < m \<or> k = n \<and> m' = m \<or> k < n \<and> m < m'"
    proof cases
      case 1
      then show ?thesis
        using ranked_siblings [OF S il that(1) i(2) that(3) i(3) that(2) n] by simp
    next
      case 2
      with that i(3) have "S ! k = S ! n" by simp
      with 2 show ?thesis using ranked_inj [OF S that(2) n] by simp
    next
      case 3
      then show ?thesis
        using ranked_siblings [OF S il i(2) that(1) i(3) that(3) n that(2)] by simp
    qed
    then show "Suc n \<le> k \<longleftrightarrow> m' < m" "n \<le> k \<longleftrightarrow> m' < Suc m" by auto
  qed
  have kids: "filter (\<lambda>c. raddr c \<in> pending S (Suc n)) (branches (S ! i)) = take m (branches (S ! i))"
    "filter (\<lambda>c. raddr c \<in> pending S n) (branches (S ! i)) = take (Suc m) (branches (S ! i))"
    using i(2) order by (auto intro!: pending_children [OF S il])
  have "\<forall>c \<in> set (branches (S ! n)). raddr c \<in> pending S (Suc n)"
  proof
    fix c
    assume "c \<in> set (branches (S ! n))"
    then obtain j where j: "j < length (branches (S ! n))" "c = branches (S ! n) ! j"
      by (auto simp: in_set_conv_nth)
    from ranked_child [OF S n j(1)] obtain k where "n < k" "k < length S" "S ! k = c"
      using j(2) by metis
    then show "raddr c \<in> pending S (Suc n)" using pending_iff [OF S, of k "Suc n"] by simp
  qed
  then have "without_address (received (pending S (Suc n)) (S ! n)) = tree_call (S ! n)"
    by (rule received_all)
  then show ?thesis using kids i(2,3) by (simp add: received_def take_Suc_conv_app_nth)
qed

lemma other_calls_wait:
  assumes S: "by_rank S" and n: "n < length S" and i: "i < length S" "raddr (S ! i) \<noteq> butlast (raddr (S ! n))"
  shows "received (pending S (Suc n)) (S ! i) = received (pending S n) (S ! i)"
proof -
  have "raddr c \<in> pending S (Suc n) \<longleftrightarrow> raddr c \<in> pending S n" if "c \<in> set (branches (S ! i))" for c
  proof -
    from that obtain m where m: "m < length (branches (S ! i))" "c = branches (S ! i) ! m"
      by (auto simp: in_set_conv_nth)
    from ranked_child [OF S i(1) m(1)] obtain k where k: "k < length S" "S ! k = c"
      "raddr (S ! k) = raddr (S ! i) @ [word_of_nat m]" using m(2) by metis
    with i(2) have "k \<noteq> n" by auto
    with pending_iff [OF S k(1)] k(2) show ?thesis by auto
  qed
  then have "filter (\<lambda>c. raddr c \<in> pending S (Suc n)) (branches (S ! i)) =
      filter (\<lambda>c. raddr c \<in> pending S n) (branches (S ! i))"
    by (intro filter_cong) simp_all
  then show ?thesis by (simp add: received_def)
qed

lemma pop_and_push_step:
  assumes S: "by_rank S" and n: "n < length S" "0 < n" and a: "raddr (S ! n) \<noteq> []"
  shows "pop_and_push (map (received (pending S (Suc n))) (take (Suc n) S)) =
    pop_and_push (map (received (pending S n)) (take n S))"
proof -
  let ?P = "pending S (Suc n)"
  let ?xs = "map (received ?P) (take (Suc n) S)"
  obtain i m where i: "i < n" "m < length (branches (S ! i))" "S ! n = branches (S ! i) ! m"
    "raddr (S ! i) = butlast (raddr (S ! n))"
    using ranked_parent [OF S n(1) a] by metis
  have split: "?xs = map (received ?P) (take n S) @ [received ?P (S ! n)]"
    using n(1) by (simp add: take_Suc_conv_app_nth)
  have "parent_position (raddr (S ! n)) (map (received ?P) (take n S)) = Some (Some i)"
    using ranked_inj [OF S] n(1) i
    by (intro parent_position_received [OF a]) (auto, metis less_trans nat_neq_iff)
  then have "pop_and_push ?xs = pop_and_push ((map (received ?P) (take n S))
      [i := push_call (without_address (received ?P (S ! n))) (received ?P (S ! i))])"
    unfolding split using n i(1)
    by (subst pop_and_push.simps) (simp add: received_def)
  also have "(map (received ?P) (take n S))
      [i := push_call (without_address (received ?P (S ! n))) (received ?P (S ! i))] =
    map (received (pending S n)) (take n S)"
  proof (rule nth_equalityI)
    fix j
    assume "j < length ((map (received ?P) (take n S))
      [i := push_call (without_address (received ?P (S ! n))) (received ?P (S ! i))])"
    then have j: "j < n" using n(1) by simp
    show "(map (received ?P) (take n S))
      [i := push_call (without_address (received ?P (S ! n))) (received ?P (S ! i))] ! j =
      map (received (pending S n)) (take n S) ! j"
    proof (cases "j = i")
      case True
      then show ?thesis using push_to_parent [OF S n(1) i(1-3)] j n(1) by simp
    next
      case False
      then have "raddr (S ! j) \<noteq> butlast (raddr (S ! n))"
        using ranked_inj [OF S, of j i] i(1,4) j n(1) by auto
      then show ?thesis using other_calls_wait [OF S n(1), of j] False j n(1) by simp
    qed
  qed simp
  finally show ?thesis .
qed

lemma pop_and_push_ranked:
  assumes S: "by_rank S" and root: "\<forall>i < length S. 0 < i \<longrightarrow> raddr (S ! i) \<noteq> []"
  shows "0 < n \<Longrightarrow> n \<le> length S \<Longrightarrow>
    pop_and_push (map (received (pending S n)) (take n S)) = Some [received (pending S 1) (S ! 0)]"
proof (induction n)
  case (Suc n)
  show ?case
  proof (cases "n = 0")
    case True
    with Suc.prems show ?thesis
      by (subst pop_and_push.simps) (cases S; simp)
  next
    case False
    with Suc pop_and_push_step [OF S, of n] root show ?thesis by simp
  qed
qed simp

text \<open>All of it: the calls of a tree, in the order of their entries.\<close>

lemma family_perm: "mset S = mset S' \<Longrightarrow> family S' \<Longrightarrow> family S"
proof -
  assume same: "mset S = mset S'" and fam: "family S'"
  then have "set S = set S'" by (metis set_mset_mset)
  moreover have "distinct (map raddr S) = distinct (map raddr S')"
    using same by (metis mset_eq_imp_distinct_iff mset_map)
  ultimately show "family S" using fam by (simp add: family_def)
qed

lemma sorted_calls:
  "sort_by call_order (map (\<lambda>t. call_tracer_call (label t)) ts) =
    map (\<lambda>t. call_tracer_call (label t)) (sort_by (address_order (\<lambda>t. raddr t)) ts)"
  by (rule sort_by_map) (simp add: call_tracer_call_def address_order_def)

lemma subtree_root:
  assumes "addressed [] t" "u \<in> set (subtrees t)" "raddr u = []"
  shows "u = t"
proof (rule ccontr)
  assume "u \<noteq> t"
  obtain c ts where t: "t = Rose c ts" by (cases t)
  with assms(2) \<open>u \<noteq> t\<close> have "u \<in> set (subtrees_list ts)" by simp
  with subtrees_prefix(2) [of "[]" 0 ts u] assms(1,3) t show False by auto
qed

lemma nested_preorder:
  assumes t: "addressed [] t" "length (preorder t) \<le> 2 ^ 32"
  shows "map_option (\<lambda>r. case r of [] \<Rightarrow> [] | c # cs \<Rightarrow> without_address c # cs)
    (if length (preorder t) > 1
     then pop_and_push (sort_by call_order (map call_tracer_call (preorder t)))
     else Some (map call_tracer_call (preorder t))) = Some [tree_call t]"
proof -
  define S where "S = sort_by (address_order (\<lambda>t. raddr t)) (subtrees t)"
  have same: "mset S = mset (subtrees t)" by (simp add: S_def)
  then have set: "set S = set (subtrees t)" by (metis set_mset_mset)
  have dist: "distinct (map raddr (subtrees t))" by (rule distinct_subtrees(1) [OF t])
  have S: "by_rank S"
    unfolding by_rank_def
    using family_perm [OF same subtrees_family [OF t]] sort_by_before [OF dist] by (simp add: S_def)
  from subtrees_self set have "t \<in> set S" by blast
  then obtain r where r: "r < length S" "S ! r = t" by (auto simp: in_set_conv_nth)
  have "raddr t = []" by (rule addressed_label [OF t(1)])
  have pos: "0 < length S" using r(1) by auto
  have "r = 0"
  proof (rule ccontr)
    assume "r \<noteq> 0"
    then have "before (raddr (S ! 0)) (raddr (S ! r))"
      using S r(1) pos sorted_wrt_nth_less [of before "map raddr S" 0 r]
      by (simp add: by_rank_def nth_map [of 0 S])
    with r(2) \<open>raddr t = []\<close> show False by (simp add: before_def)
  qed
  have others: "\<forall>i < length S. 0 < i \<longrightarrow> raddr (S ! i) \<noteq> []"
    using ranked_inj [OF S _ pos] r(2) \<open>r = 0\<close> \<open>raddr t = []\<close> by auto
  have calls: "map call_tracer_call (preorder t) = map (\<lambda>u. call_tracer_call (label u)) (subtrees t)"
    by (simp add: preorder_subtrees(1))
  have "sort_by call_order (map call_tracer_call (preorder t)) = map (received {}) S"
    unfolding calls sorted_calls S_def [symmetric] by (simp add: received_none)
  also have "\<dots> = map (received (pending S (length S))) (take (length S) S)" by simp
  finally have loop: "pop_and_push (sort_by call_order (map call_tracer_call (preorder t))) =
      Some [received (pending S 1) t]"
    using pop_and_push_ranked [OF S others pos] r(2) \<open>r = 0\<close> by simp
  have "\<forall>c \<in> set (branches t). raddr c \<in> pending S 1"
  proof
    fix c
    assume "c \<in> set (branches t)"
    then obtain m where m: "m < length (branches t)" "c = branches t ! m"
      by (auto simp: in_set_conv_nth)
    with ranked_child [OF S pos, of m] r(2) \<open>r = 0\<close> obtain k where
      "0 < k" "k < length S" "S ! k = c" by auto
    with pending_iff [OF S, of k 1] show "raddr c \<in> pending S 1" by auto
  qed
  then have "without_address (received (pending S 1) t) = tree_call t" by (rule received_all)
  moreover have "map call_tracer_call (preorder t) = [received {} t] \<and> branches t = []"
    if "\<not> length (preorder t) > 1"
  proof -
    obtain c ts where "t = Rose c ts" by (cases t)
    with that length_subtrees_list [of ts] have "ts = []" by simp
    with \<open>t = Rose c ts\<close> show ?thesis by (simp add: received_none [symmetric])
  qed
  moreover have "without_address (received {} t) = tree_call t" if "branches t = []"
    using that by (intro received_all) simp
  ultimately show ?thesis using loop by auto
qed

end
