(* ===== verification/Call_Tracing.thy ===== *)
theory Call_Tracing
  imports Call_Trees
begin

text \<open>
  The call listener finds the tree of an execution: its entries are the calls of the tree in
  preorder, numbered from the next index.
\<close>

section \<open>Entries\<close>

definition put_call :: "u32 \<times> BlockscoutCall \<Rightarrow> (32, BlockscoutCall) btree list
    \<Rightarrow> (32, BlockscoutCall) btree list" where
  "put_call p es = (if es = [] then [[p]] else on_last (btree_insert (fst p) (snd p)) es)"

abbreviation put_all :: "(u32 \<times> BlockscoutCall) list \<Rightarrow> (32, BlockscoutCall) btree list
    \<Rightarrow> (32, BlockscoutCall) btree list" where
  "put_all \<equiv> fold put_call"

definition number :: "nat \<Rightarrow> 'a list \<Rightarrow> (u32 \<times> 'a) list" where
  "number n xs = zip (map word_of_nat [n..<n + length xs]) xs"

lemma number_simps [simp]:
  "number n [] = []" "number n (x # xs) = (word_of_nat n, x) # number (Suc n) xs"
  "number n (xs @ ys) = number n xs @ number (n + length xs) ys"
    apply (simp add: number_def)
   apply (simp add: number_def upt_rec)
  apply (simp add: number_def upt_add_eq_append
      [of n "n + length xs" "length ys", unfolded add.assoc] add.assoc)
  done

lemma insert_entry_put: "insert_entry k e l = l\<lparr>ls_entries := put_call (k, e) (ls_entries l)\<rparr>"
  by (simp add: insert_entry_def put_call_def)

lemma btree_insert_commute:
  assumes "k \<noteq> k'"
  shows "btree_insert k v (btree_insert k' v' m) = btree_insert k' v' (btree_insert k v m)"
proof -
  from assms have "unat k \<noteq> unat k'" by (simp add: word_unat_eq_iff)
  with assms show ?thesis by (induction m) auto
qed

lemma put_call_commute:
  "fst p \<noteq> fst q \<Longrightarrow> put_call p (put_call q es) = put_call q (put_call p es)"
  using btree_insert_commute [of "fst p" "fst q" "snd p" "snd q" "[]"]
  by (cases es rule: rev_cases)
    (auto simp: put_call_def btree_insert_commute simp del: prefix_insert.simps(2))

lemma put_call_all:
  "fst p \<notin> fst ` set qs \<Longrightarrow> put_call p (put_all qs es) = put_all qs (put_call p es)"
  by (induction qs arbitrary: es) (auto simp: put_call_commute)

lemma number_keys: "fst ` set (number n xs) = word_of_nat ` {n..<n + length xs}"
proof -
  have "map fst (number n xs) = map word_of_nat [n..<n + length xs]"
    by (simp add: number_def)
  then have "set (map fst (number n xs)) = word_of_nat ` set [n..<n + length xs]" by simp
  then show ?thesis by simp
qed

lemma word_of_nat_u32_eq:
  "m < 2 ^ 32 \<Longrightarrow> n < 2 ^ 32 \<Longrightarrow> (word_of_nat m :: u32) = word_of_nat n \<longleftrightarrow> m = n"
  by (simp add: word_of_nat_eq_iff take_bit_nat_eq_self)

lemma number_fresh:
  assumes "m < n" and "n + length xs \<le> 2 ^ 32"
  shows "word_of_nat m \<notin> fst ` set (number n xs)"
proof
  assume "word_of_nat m \<in> fst ` set (number n xs)"
  then obtain k where "word_of_nat m = (word_of_nat k :: u32)" and "n \<le> k" "k < n + length xs"
    by (auto simp: number_keys)
  with assms word_of_nat_u32_eq [of m k] show False by simp
qed

section \<open>Events of a frame's own\<close>

definition context_effect :: "bool \<Rightarrow> tracing_event \<Rightarrow> call_context \<Rightarrow> call_context" where
  "context_effect wl e c =
     (let c = (case event_gas e of
        Some g \<Rightarrow> c\<lparr>cx_start_gas := (case cx_start_gas c of None \<Rightarrow> Some g | Some g' \<Rightarrow> Some g'),
                    cx_gas := g\<rparr>
      | None \<Rightarrow> c) in
      (case event_log e of
        Some l \<Rightarrow> if wl then c\<lparr>cx_logs := cx_logs c @ [l]\<rparr> else c
      | None \<Rightarrow> c))"

lemma on_last_id [simp]: "on_last (\<lambda>c. c) xs = xs"
  by (cases xs rule: rev_cases) simp_all

lemma on_last_on_last [simp]: "on_last f (on_last g xs) = on_last (\<lambda>c. f (g c)) xs"
  by (cases xs rule: rev_cases) simp_all

lemma own_event_step:
  assumes "own_event e"
  shows "\<exists>ct. call_event e l =
    l\<lparr>context_stack := on_last (context_effect (with_log l) e) (context_stack l), ls_call_type := ct\<rparr>"
proof -
  have same: "\<exists>ct. l = l\<lparr>context_stack := context_stack l, ls_call_type := ct\<rparr>"
    by (rule exI [of _ "ls_call_type l"]) simp
  show ?thesis
  proof (cases e)
    case (Evm x)
    with assms same show ?thesis
      by (cases x) (auto simp: context_effect_def [abs_def] Let_def
          intro!: exI [of _ "ls_call_type l"])
  next
    case (Gasometer x)
    with assms show ?thesis
      by (cases x; auto simp: context_effect_def [abs_def] Let_def record_gas_def [abs_def]
          intro!: exI [of _ "ls_call_type l"])
  next
    case (Runtime x)
    show ?thesis
    proof (cases x)
      case (StepResult res ret)
      show ?thesis
      proof (cases res)
        case (Inl c)
        with assms Runtime StepResult same show ?thesis
          by (cases c) (auto simp: context_effect_def [abs_def] Let_def split: option.splits ContextType.splits)
      next
        case (Inr u)
        with assms Runtime StepResult same show ?thesis
          by (auto simp: context_effect_def [abs_def] Let_def)
      qed
    qed (use Runtime same in \<open>auto simp: context_effect_def [abs_def] Let_def\<close>)
  next
    case CallListNew
    with assms show ?thesis by simp
  qed
qed

lemma own_events_listen:
  "list_all own_event es \<Longrightarrow> \<exists>ct. listen es l =
    l\<lparr>context_stack := on_last (fold (context_effect (with_log l)) es) (context_stack l),
      ls_call_type := ct\<rparr>"
proof (induction es arbitrary: l)
  case Nil
  show ?case by (rule exI [of _ "ls_call_type l"]) (simp add: id_def)
next
  case (Cons e es)
  from Cons.prems own_event_step obtain ct where step: "call_event e l =
    l\<lparr>context_stack := on_last (context_effect (with_log l) e) (context_stack l), ls_call_type := ct\<rparr>"
    by fastforce
  from Cons.prems Cons.IH [of "call_event e l"] step show ?case by (auto simp: comp_def)
qed

section \<open>What a context becomes\<close>

abbreviation bump :: "call_context \<Rightarrow> call_context" where
  "bump c \<equiv> c\<lparr>cx_subtraces := cx_subtraces c + 1\<rparr>"

fun own_effect :: "bool \<Rightarrow> action list \<Rightarrow> call_context \<Rightarrow> call_context" where
  "own_effect wl [] c = c"
| "own_effect wl (Own e # as) c = own_effect wl as (context_effect wl e c)"
| "own_effect wl (Destroy _ _ _ # as) c = own_effect wl as (bump c)"
| "own_effect wl (Nested via (Frame h fs e) # as) c =
     own_effect wl as (fold (context_effect wl) (late_events e) (bump c))"

lemma context_effect_fields [simp]:
  "cx_entries_index (context_effect wl e c) = cx_entries_index c"
  "cx_type (context_effect wl e c) = cx_type c" "cx_from (context_effect wl e c) = cx_from c"
  "cx_trace_address (context_effect wl e c) = cx_trace_address c"
  "cx_subtraces (context_effect wl e c) = cx_subtraces c"
  "cx_value (context_effect wl e c) = cx_value c" "cx_data (context_effect wl e c) = cx_data c"
  "cx_to (context_effect wl e c) = cx_to c"
  by (simp_all add: context_effect_def Let_def split: option.splits)

lemma fold_effect_fields [simp]:
  "cx_entries_index (fold (context_effect wl) es c) = cx_entries_index c"
  "cx_type (fold (context_effect wl) es c) = cx_type c"
  "cx_from (fold (context_effect wl) es c) = cx_from c"
  "cx_trace_address (fold (context_effect wl) es c) = cx_trace_address c"
  "cx_subtraces (fold (context_effect wl) es c) = cx_subtraces c"
  "cx_value (fold (context_effect wl) es c) = cx_value c"
  "cx_data (fold (context_effect wl) es c) = cx_data c"
  "cx_to (fold (context_effect wl) es c) = cx_to c"
  by (induction es arbitrary: c) simp_all

lemma own_effect_fields [simp]:
  "cx_entries_index (own_effect wl as c) = cx_entries_index c"
  "cx_type (own_effect wl as c) = cx_type c" "cx_from (own_effect wl as c) = cx_from c"
  "cx_trace_address (own_effect wl as c) = cx_trace_address c"
  "cx_value (own_effect wl as c) = cx_value c" "cx_data (own_effect wl as c) = cx_data c"
  "cx_to (own_effect wl as c) = cx_to c"
  by (induction wl as c rule: own_effect.induct) simp_all

lemma own_effect_subtraces:
  "cx_subtraces (own_effect wl as c) = cx_subtraces c + word_of_nat (children_count as)"
  by (induction wl as c rule: own_effect.induct) (simp_all add: add.commute add.left_commute)

text \<open>The readings and logs of a list of events.\<close>

definition same_marks :: "bool \<Rightarrow> tracing_event list \<Rightarrow> call_context \<Rightarrow> call_context \<Rightarrow> bool" where
  "same_marks wl es c d \<longleftrightarrow>
     (let gs = List.map_filter event_gas es in
      cx_gas d = (if gs = [] then cx_gas c else last gs)
      \<and> cx_start_gas d = (case cx_start_gas c of Some g \<Rightarrow> Some g
           | None \<Rightarrow> if gs = [] then None else Some (hd gs))
      \<and> cx_logs d = cx_logs c @ (if wl then List.map_filter event_log es else []))"

lemma same_marks_bump: "same_marks wl es (bump c) d \<longleftrightarrow> same_marks wl es c d"
  by (simp add: same_marks_def)

lemma same_marks_Nil [simp]: "same_marks wl [] c c"
  by (simp add: same_marks_def List.map_filter_def split: option.splits)

lemma same_marks_event: "same_marks wl [e] c (context_effect wl e c)"
  by (auto simp: same_marks_def context_effect_def Let_def List.map_filter_def split: option.splits)

lemma same_marks_append:
  "same_marks wl es c d \<Longrightarrow> same_marks wl es' d d' \<Longrightarrow> same_marks wl (es @ es') c d'"
  by (auto simp: same_marks_def Let_def List.map_filter_def split: option.splits if_splits)

lemma same_marks_fold: "same_marks wl es c (fold (context_effect wl) es c)"
proof (induction es arbitrary: c)
  case (Cons e es)
  from same_marks_append [OF same_marks_event Cons.IH] show ?case by simp
qed simp

lemma own_effect_marks: "same_marks wl (own_events as) c (own_effect wl as c)"
proof (induction wl as c rule: own_effect.induct)
  case (2 wl e as c)
  from same_marks_append [OF same_marks_event 2] show ?case by simp
next
  case (3 wl a t b as c)
  then show ?case by (simp add: same_marks_bump)
next
  case (4 wl via h fs e as c)
  from same_marks_append [OF same_marks_fold 4] show ?case by (simp add: same_marks_bump)
qed simp

lemma context_call_described:
  assumes "cx_gas c = 0" "cx_start_gas c = None" "cx_logs c = []" "cx_subtraces c = 0"
  shows "context_call cost (own_effect wl as c) inner =
    described_call wl (if cx_entries_index c = 0 then cost else 0) (cx_from c) (cx_value c)
      (cx_trace_address c) as inner"
  using own_effect_marks [of wl as c] assms
  by (auto simp: context_call_def described_call_def context_gas_used_def same_marks_def Let_def
      gas_readings_def emitted_logs_def own_effect_subtraces)

section \<open>Frames\<close>

lemma ending_listen:
  assumes "context_stack l = stk @ [c]" "ls_version l = EarlyTransact" "step_result_entry l = None"
    "list_all own_event (late_events e)"
  shows "\<exists>ct. listen (ending_events e) l =
    l\<lparr>context_stack := on_last (fold (context_effect (with_log l)) (late_events e)) stk,
      ls_entries := put_call (cx_entries_index c, context_call (transaction_cost l) c
         (exit_inner c (ending_reason e) (ending_value e))) (ls_entries l),
      ls_call_type := ct, record_transaction_event_only := False\<rparr>"
proof (cases e)
  case (Direct r v)
  with assms show ?thesis
    by (auto simp: pop_context_to_entry_def insert_entry_put Let_def id_def
        intro!: exI [of _ "ls_call_type l"])
next
  case (Interpreted r v late r' v')
  define l' where "l' = l\<lparr>context_stack := stk, step_result_entry := Some (cx_entries_index c,
    context_call (transaction_cost l) c (exit_inner c r v))\<rparr>"
  have "call_event (Runtime (StepResult (Inl (CaptureExit r)) v)) l = l'"
    using assms by (simp add: pop_context_to_entry_def l'_def)
  moreover from own_events_listen [of late l'] assms(4) Interpreted obtain ct where
    "listen late l' = l'\<lparr>context_stack := on_last (fold (context_effect (with_log l)) late) stk,
       ls_call_type := ct\<rparr>" by (auto simp: l'_def)
  ultimately show ?thesis
    using Interpreted assms(3)
    by (auto simp: l'_def insert_entry_put Let_def intro!: exI [of _ ct])
qed

text \<open>The listener inside a transaction, and after it has found the calls \<open>cs\<close>.\<close>

definition tracing :: "call_listener \<Rightarrow> bool" where
  "tracing l \<longleftrightarrow> ls_version l = EarlyTransact \<and> step_result_entry l = None
     \<and> \<not> skip_next_context l \<and> \<not> record_transaction_event_only l"

definition traced :: "call_listener \<Rightarrow> call_context list \<Rightarrow> nat \<Rightarrow> BlockscoutCall list
    \<Rightarrow> CallType option \<Rightarrow> call_listener" where
  "traced l stk n cs ct =
     l\<lparr>context_stack := stk, ls_entries := put_all (number n cs) (ls_entries l),
       entries_next_index := word_of_nat (n + length cs), ls_call_type := ct\<rparr>"

lemma traced_simps [simp]:
  "tracing (traced l stk n cs ct) = tracing l" "context_stack (traced l stk n cs ct) = stk"
  "entries_next_index (traced l stk n cs ct) = word_of_nat (n + length cs)"
  "with_log (traced l stk n cs ct) = with_log l"
  "transaction_cost (traced l stk n cs ct) = transaction_cost l"
  "ls_call_type (traced l stk n cs ct) = ct"
  "traced (traced l stk n cs ct) stk' (n + length cs) cs' ct' = traced l stk' n (cs @ cs') ct'"
  by (simp_all add: traced_def tracing_def add.assoc)

fun head_context :: "nat \<Rightarrow> CallType \<Rightarrow> H160 \<Rightarrow> u32 list \<Rightarrow> head \<Rightarrow> call_context" where
  "head_context n t parent addr (CallHead code tr input tg st ctx) =
     \<lparr>cx_entries_index = word_of_nat n, cx_type = CallContext t, cx_from = parent,
      cx_trace_address = addr, cx_subtraces = 0, cx_value = apparent_value ctx, cx_gas = 0,
      cx_start_gas = None, cx_data = input, cx_to = code, cx_logs = []\<rparr>"
| "head_context n t parent addr (CreateHead caller address scheme v init tg) =
     \<lparr>cx_entries_index = word_of_nat n, cx_type = CreateContext, cx_from = caller,
      cx_trace_address = addr, cx_subtraces = 0, cx_value = v, cx_gas = 0,
      cx_start_gas = None, cx_data = init, cx_to = address, cx_logs = []\<rparr>"

lemma head_context_fields [simp]:
  "cx_to (head_context n t parent addr h) = head_to h"
  "cx_trace_address (head_context n t parent addr h) = addr"
  "cx_subtraces (head_context n t parent addr h) = 0"
  "cx_entries_index (head_context n t parent addr h) = word_of_nat n"
  by (cases h; simp)+

fun calls_as :: "head \<Rightarrow> CallType \<Rightarrow> call_listener \<Rightarrow> bool" where
  "calls_as (CallHead _ _ _ _ _ _) t l \<longleftrightarrow> ls_call_type l = Some t"
| "calls_as (CreateHead _ _ _ _ _ _) t l \<longleftrightarrow> True"

lemma head_listen:
  assumes "tracing l" "context_stack l = stk @ [p]" "entries_next_index l = word_of_nat n"
    "calls_as h t l"
  shows "call_event (Evm (head_event h)) l =
    l\<lparr>context_stack := (stk @ [bump p])
         @ [head_context n t (cx_to p) (cx_trace_address p @ [cx_subtraces p]) h],
      entries_next_index := word_of_nat (Suc n)\<rparr>"
  using assms
  by (cases h) (simp_all add: tracing_def next_trace_address_def push_context_def subcall_type_def
      Let_def add.commute)

lemma exit_inner_own [simp]: "exit_inner (own_effect wl as c) r v = exit_inner c r v"
  by (simp add: exit_inner_def split: ContextType.split)

lemma frame_call_context:
  assumes "0 < n" and "n < 2 ^ 32"
  shows "context_call cost (own_effect wl as (head_context n t parent addr h))
      (exit_inner (head_context n t parent addr h) (ending_reason e) (ending_value e)) =
    frame_call wl parent t addr (Frame h as e)"
proof -
  have "(word_of_nat n :: u32) \<noteq> 0"
    using word_of_nat_u32_eq [of n 0] assms by simp
  then show ?thesis
    by (cases h) (simp_all add: context_call_described exit_inner_def)
qed

lemma finish_frame:
  assumes "context_stack l = stk @ [c]" "tracing l" "list_all own_event (late_events e)"
    and "cx_entries_index c = word_of_nat n"
    and "l = traced (l0\<lparr>entries_next_index := i\<rparr>) (stk @ [c]) (Suc n) cs ct"
    and "Suc n + length cs \<le> 2 ^ 32"
  shows "\<exists>ct. listen (ending_events e) l =
    traced l0 (on_last (fold (context_effect (with_log l)) (late_events e)) stk) n
      (context_call (transaction_cost l) c (exit_inner c (ending_reason e) (ending_value e)) # cs) ct"
proof -
  let ?call = "context_call (transaction_cost l) c (exit_inner c (ending_reason e) (ending_value e))"
  have put: "put_call (word_of_nat n, ?call) (put_all (number (Suc n) cs) es) =
      put_all (number n (?call # cs)) es" for es
    using number_fresh [of n "Suc n" cs] assms(6) by (simp add: put_call_all)
  from ending_listen [of l stk c e] assms(1-3) obtain ct' where "listen (ending_events e) l =
    l\<lparr>context_stack := on_last (fold (context_effect (with_log l)) (late_events e)) stk,
      ls_entries := put_call (word_of_nat n, ?call) (ls_entries l),
      ls_call_type := ct', record_transaction_event_only := False\<rparr>"
    using assms(4) by (auto simp: tracing_def)
  moreover have "\<not> record_transaction_event_only l" "ls_entries l = put_all (number (Suc n) cs) (ls_entries l0)"
    using assms(2) by (simp add: tracing_def) (subst assms(5), simp add: traced_def)
  ultimately have "listen (ending_events e) l =
    l\<lparr>context_stack := on_last (fold (context_effect (with_log l)) (late_events e)) stk,
      ls_entries := put_all (number n (?call # cs)) (ls_entries l0), ls_call_type := ct'\<rparr>"
    by (simp add: put)
  also have "\<dots> = traced l0 (on_last (fold (context_effect (with_log l)) (late_events e)) stk) n
      (?call # cs) ct'"
    by (subst (1) assms(5)) (simp add: traced_def)
  finally show ?thesis by blast
qed

fun frame_late :: "frame \<Rightarrow> tracing_event list" where
  "frame_late (Frame h as e) = late_events e"

fun frame_head :: "frame \<Rightarrow> head" where
  "frame_head (Frame h as e) = h"

lemma calls_as_entered:
  assumes "actions_ok (Nested via (Frame h fs e) # as)" and "tracing l"
  obtains l' where "call_event (entered_event via) l = l'" and "calls_as h (entered_type via) l'"
    and "l' = l\<lparr>ls_call_type := ls_call_type l'\<rparr>"
proof -
  show ?thesis
  proof (cases via)
    case (ByOpcode opcode ret)
    with assms(1) show ?thesis
      by (cases h; cases "ContextType_from opcode")
        (auto split: ContextType.splits intro!: that)
  next
    case (ByPrecompile code tr input tg st ctx)
    then show ?thesis by (cases h) (auto intro!: that)
  qed
qed

lemma tracing_call_type [simp]: "tracing (l\<lparr>ls_call_type := ct\<rparr>) = tracing l"
  by (simp add: tracing_def)

lemma traced_call_type [simp]: "traced (l\<lparr>ls_call_type := ct'\<rparr>) stk n cs ct = traced l stk n cs ct"
  by (simp add: traced_def)

lemma frames_listen:
  "frame_ok f \<Longrightarrow> tracing l \<Longrightarrow> context_stack l = stk @ [p] \<Longrightarrow>
    entries_next_index l = word_of_nat n \<Longrightarrow> calls_as (frame_head f) t l \<Longrightarrow> 0 < n \<Longrightarrow>
    cs = preorder (frame_tree (with_log l) (cx_to p) t (cx_trace_address p @ [cx_subtraces p]) f) \<Longrightarrow>
    n + length cs \<le> 2 ^ 32 \<Longrightarrow>
    \<exists>ct. listen (frame_events f) l =
      traced l (stk @ [fold (context_effect (with_log l)) (frame_late f) (bump p)]) n cs ct"
  "actions_ok as \<Longrightarrow> tracing l \<Longrightarrow> context_stack l = stk @ [p] \<Longrightarrow>
    entries_next_index l = word_of_nat n \<Longrightarrow> 0 < n \<Longrightarrow> cx_subtraces p = word_of_nat k \<Longrightarrow>
    cs = preorders (action_trees (with_log l) (cx_to p) (cx_trace_address p) k as) \<Longrightarrow>
    n + length cs \<le> 2 ^ 32 \<Longrightarrow>
    \<exists>ct. listen (action_events as) l =
      traced l (stk @ [own_effect (with_log l) as p]) n cs ct"
proof (induction f and as arbitrary: l stk p n t cs and l stk p n k cs
    rule: frame_events_action_events.induct)
  case (1 h as e)
  let ?addr = "cx_trace_address p @ [cx_subtraces p]"
  let ?c = "head_context n t (cx_to p) ?addr h"
  define l1 where
    "l1 = l\<lparr>context_stack := (stk @ [bump p]) @ [?c], entries_next_index := word_of_nat (Suc n)\<rparr>"
  let ?cs = "preorders (action_trees (with_log l) (head_to h) ?addr 0 as)"
  have head: "call_event (Evm (head_event h)) l = l1"
    unfolding l1_def using "1.prems" by (intro head_listen) simp_all
  have l1: "tracing l1" "context_stack l1 = (stk @ [bump p]) @ [?c]" "with_log l1 = with_log l"
      "entries_next_index l1 = word_of_nat (Suc n)" "transaction_cost l1 = transaction_cost l"
    using "1.prems"(2) by (simp_all add: l1_def tracing_def)
  have "\<exists>ct. listen (action_events as) l1 =
      traced l1 ((stk @ [bump p]) @ [own_effect (with_log l1) as ?c]) (Suc n) ?cs ct"
    by (rule "1.IH" [where k = 0, OF _ l1(1,2,4)]) (use "1.prems" l1(3) in simp_all)
  then obtain ct where body: "listen (action_events as) l1 =
      traced l1 ((stk @ [bump p]) @ [own_effect (with_log l) as ?c]) (Suc n) ?cs ct"
    unfolding l1(3) by blast
  define l2 where "l2 = listen (action_events as) l1"
  have l2: "context_stack l2 = (stk @ [bump p]) @ [own_effect (with_log l) as ?c]" "tracing l2"
      "with_log l2 = with_log l" "transaction_cost l2 = transaction_cost l"
    by (simp_all only: l2_def body traced_simps l1)
  have same: "l2 = traced ((l\<lparr>entries_next_index := word_of_nat (Suc n)\<rparr>))
      ((stk @ [bump p]) @ [own_effect (with_log l) as ?c]) (Suc n) ?cs ct"
    unfolding l2_def body by (simp add: l1_def traced_def)
  have "\<exists>ct. listen (ending_events e) l2 =
    traced l (on_last (fold (context_effect (with_log l2)) (late_events e)) (stk @ [bump p])) n
      (context_call (transaction_cost l2) (own_effect (with_log l) as ?c)
         (exit_inner (own_effect (with_log l) as ?c) (ending_reason e) (ending_value e)) # ?cs) ct"
    by (rule finish_frame [OF l2(1,2) _ _ same]) (use "1.prems" in simp_all)
  then show ?case
    using "1.prems" head l2(3,4) by (simp add: l2_def frame_call_context)
next
  case 2
  then show ?case by (auto simp: traced_def intro!: exI [of _ "ls_call_type l"])
next
  case (3 e as)
  from own_event_step [of e l] "3.prems" obtain ct where
    step: "call_event e l = l\<lparr>context_stack := stk @ [context_effect (with_log l) e p],
      ls_call_type := ct\<rparr>" by auto
  let ?l = "l\<lparr>context_stack := stk @ [context_effect (with_log l) e p], ls_call_type := ct\<rparr>"
  have "\<exists>ct. listen (action_events as) ?l =
      traced ?l (stk @ [own_effect (with_log ?l) as (context_effect (with_log l) e p)]) n cs ct"
    by (rule "3.IH" [where k = k]) (use "3.prems" in \<open>simp_all add: tracing_def\<close>)
  then show ?case using step by (simp add: traced_def)
next
  case (4 a t' b as)
  let ?call = "destroy_call (cx_trace_address p @ [word_of_nat k]) a t' b"
  let ?l = "traced l (stk @ [bump p]) n [?call] (ls_call_type l)"
  let ?cs = "preorders (action_trees (with_log l) (cx_to p) (cx_trace_address p) (Suc k) as)"
  have step: "call_event (Evm (EvmSuicide a t' b)) l = ?l"
    using "4.prems" by (simp add: next_trace_address_def insert_entry_put destroy_call_def
        traced_def add.commute Let_def)
  have "\<exists>ct. listen (action_events as) ?l =
      traced ?l (stk @ [own_effect (with_log ?l) as (bump p)]) (n + length [?call]) ?cs ct"
    by (rule "4.IH" [where k = "Suc k"]) (use "4.prems" in \<open>simp_all add: add.commute\<close>)
  then obtain ct where "listen (action_events as) ?l =
      traced ?l (stk @ [own_effect (with_log l) as (bump p)]) (n + length [?call]) ?cs ct" by auto
  then have "listen (action_events (Destroy a t' b # as)) l =
      traced l (stk @ [own_effect (with_log l) as (bump p)]) n ([?call] @ ?cs) ct"
    using step by (simp only: action_events.simps listen_simps traced_simps)
  then show ?case using "4.prems" by auto
next
  case (5 via f as)
  obtain h fs e where f: "f = Frame h fs e" by (cases f)
  obtain l' where enter: "call_event (entered_event via) l = l'"
    and as: "calls_as h (entered_type via) l'" and l': "l' = l\<lparr>ls_call_type := ls_call_type l'\<rparr>"
    using calls_as_entered [OF "5.prems"(1) [unfolded f] "5.prems"(2)] by blast
  let ?cs = "preorder (frame_tree (with_log l) (cx_to p) (entered_type via)
    (cx_trace_address p @ [cx_subtraces p]) f)"
  let ?ds = "preorders (action_trees (with_log l) (cx_to p) (cx_trace_address p) (Suc k) as)"
  let ?p = "fold (context_effect (with_log l)) (frame_late f) (bump p)"
  have ok: "frame_ok f" "actions_ok as" using "5.prems"(1) f by auto
  have fields: "tracing l'" "context_stack l' = stk @ [p]" "entries_next_index l' = word_of_nat n"
      "with_log l' = with_log l"
    using "5.prems" by (subst l', simp)+
  have cs: "cs = ?cs @ ?ds" using "5.prems" by simp
  have "\<exists>ct. listen (frame_events f) l' =
      traced l' (stk @ [fold (context_effect (with_log l')) (frame_late f) (bump p)]) n ?cs ct"
    by (rule "5.IH"(1) [where t = "entered_type via"])
      (use ok fields "5.prems" cs as f in simp_all)
  moreover have "traced l' stk' n ?cs ct = traced l stk' n ?cs ct" for stk' ct
    by (subst l') (simp only: traced_call_type)
  ultimately obtain ct where frame: "listen (frame_events f) l' = traced l (stk @ [?p]) n ?cs ct"
    unfolding fields(4) by auto
  have "\<exists>ct'. listen (action_events as) (traced l (stk @ [?p]) n ?cs ct) =
      traced (traced l (stk @ [?p]) n ?cs ct)
        (stk @ [own_effect (with_log (traced l (stk @ [?p]) n ?cs ct)) as ?p]) (n + length ?cs) ?ds ct'"
    by (rule "5.IH"(2) [where k = "Suc k"])
      (use ok "5.prems" cs in \<open>simp_all add: add.commute\<close>)
  then obtain ct' where "listen (action_events as) (traced l (stk @ [?p]) n ?cs ct) =
      traced l (stk @ [own_effect (with_log l) as ?p]) n (?cs @ ?ds) ct'" by auto
  then show ?case using enter frame cs f by auto
qed

end
