(* ===== verification/Block_Tracing.thy ===== *)
theory Block_Tracing
  imports Call_Tracing Call_Formats
begin

text \<open>
  The call listener over whole transactions and blocks of them.
\<close>

section \<open>Sizes\<close>

fun frame_size :: "frame \<Rightarrow> nat" and actions_size :: "action list \<Rightarrow> nat" where
  "frame_size (Frame h as e) = Suc (actions_size as)"
| "actions_size [] = 0"
| "actions_size (Own e # as) = actions_size as"
| "actions_size (Destroy _ _ _ # as) = Suc (actions_size as)"
| "actions_size (Nested via f # as) = frame_size f + actions_size as"

fun txn_size :: "txn \<Rightarrow> nat" where
  "txn_size (Txn _ _ _ _ as _) = Suc (actions_size as)"

lemma length_trees [simp]:
  "length (preorder (frame_tree wl parent t addr f)) = frame_size f"
  "length (preorders (action_trees wl to addr k as)) = actions_size as"
  by (induction wl parent t addr f and wl to addr k as rule: frame_tree_action_trees.induct)
    simp_all

lemma length_txn_tree [simp]: "length (preorder (txn_tree wl cost x)) = txn_size x"
  by (cases x) simp

section \<open>A transaction\<close>

definition idle :: "call_listener \<Rightarrow> bool" where
  "idle l \<longleftrightarrow> context_stack l = [] \<and> step_result_entry l = None \<and> \<not> skip_next_context l"

definition txn_traced :: "nat \<Rightarrow> txn \<Rightarrow> CallType option \<Rightarrow> bool \<Rightarrow> call_listener \<Rightarrow> call_listener" where
  "txn_traced n x ct sk l =
     l\<lparr>ls_version := EarlyTransact, transaction_cost := txn_cost x,
       ls_entries := put_all
         (number n (preorder (txn_tree (with_log l) (if n = 0 then txn_cost x else 0) x)))
         (ls_entries l),
       entries_next_index := word_of_nat (n + txn_size x), ls_call_type := ct,
       skip_next_context := sk, record_transaction_event_only := False\<rparr>"

fun root_context :: "nat \<Rightarrow> transact \<Rightarrow> call_context" where
  "root_context n (TransactCall caller address v input g) =
     \<lparr>cx_entries_index = word_of_nat n, cx_type = CallContext TypeCall, cx_from = caller,
      cx_trace_address = [], cx_subtraces = 0, cx_value = v, cx_gas = 0, cx_start_gas = None,
      cx_data = input, cx_to = address, cx_logs = []\<rparr>"
| "root_context n (TransactCreate caller v init g address) =
     \<lparr>cx_entries_index = word_of_nat n, cx_type = CreateContext, cx_from = caller,
      cx_trace_address = [], cx_subtraces = 0, cx_value = v, cx_gas = 0, cx_start_gas = None,
      cx_data = init, cx_to = address, cx_logs = []\<rparr>"
| "root_context n (TransactCreate2 caller v init salt g address) =
     \<lparr>cx_entries_index = word_of_nat n, cx_type = CreateContext, cx_from = caller,
      cx_trace_address = [], cx_subtraces = 0, cx_value = v, cx_gas = 0, cx_start_gas = None,
      cx_data = init, cx_to = address, cx_logs = []\<rparr>"

lemma root_context_fields [simp]:
  "cx_to (root_context n tr) = txn_to tr" "cx_trace_address (root_context n tr) = []"
  "cx_subtraces (root_context n tr) = 0" "cx_entries_index (root_context n tr) = word_of_nat n"
  by (cases tr; simp)+

lemma root_call:
  assumes "n < 2 ^ 32"
  shows "context_call cost (own_effect wl as (root_context n tr))
      (exit_inner (root_context n tr) (ending_reason e) (ending_value e)) =
    txn_call wl (if n = 0 then cost else 0) (Txn tr cost s h as e)"
  using word_of_nat_u32_eq [of n 0] assms
  by (cases tr) (simp_all add: context_call_described exit_inner_def)

lemma transact_listen:
  assumes "idle l" and "entries_next_index l = word_of_nat n"
  shows "listen [Evm (transact_event tr), Gasometer (RecordTransaction cost s)] l =
    l\<lparr>ls_version := EarlyTransact, transaction_cost := cost, context_stack := [root_context n tr],
      entries_next_index := word_of_nat (Suc n), skip_next_context := True,
      record_transaction_event_only := True\<rparr>"
  using assms
  by (cases tr) (simp_all add: idle_def transact_context_def push_context_def add.commute)

lemma skipped_head:
  "skip_next_context l \<Longrightarrow> call_event (Evm (head_event h)) l =
    l\<lparr>skip_next_context := False, record_transaction_event_only := False\<rparr>"
  by (cases h) (simp_all add: Let_def)

lemma txn_listen:
  assumes "idle l" and "entries_next_index l = word_of_nat n" and "txn_ok x"
    and "n + txn_size x \<le> 2 ^ 32"
  shows "\<exists>ct sk. listen (txn_events x) l = txn_traced n x ct sk l"
proof (cases x)
  case (Txn tr cost s ho as e)
  let ?wl = "with_log l"
  let ?cs = "preorders (action_trees ?wl (txn_to tr) [] 0 as)"
  let ?c = "root_context n tr"
  have n: "n < 2 ^ 32" using assms(4) Txn by simp
  define l0 where "l0 = l\<lparr>ls_version := EarlyTransact, transaction_cost := cost,
    entries_next_index := word_of_nat (Suc n), record_transaction_event_only := False\<rparr>"
  have start: "call_event (Gasometer (RecordTransaction cost s))
      (call_event (Evm (transact_event tr)) l) =
    l0\<lparr>context_stack := [?c], skip_next_context := True, record_transaction_event_only := True\<rparr>"
    using transact_listen [OF assms(1,2), of tr cost s]
    by (simp del: call_event.simps) (rule call_listener.equality; simp add: l0_def)
  have idle: "context_stack l = []" "step_result_entry l = None" "\<not> skip_next_context l"
    using assms(1) by (simp_all add: idle_def)
  show ?thesis
  proof (cases ho)
    case None
    let ?l = "l0\<lparr>context_stack := [?c], skip_next_context := True,
      record_transaction_event_only := True\<rparr>"
    from assms(3) Txn None have "as = []" "list_all own_event (late_events e)" by simp_all
    moreover have "listen (txn_events x) l = listen (ending_events e) ?l"
      using start \<open>as = []\<close> Txn None by (simp del: call_event.simps)
    moreover from ending_listen [of ?l "[]" ?c e] \<open>list_all own_event (late_events e)\<close> idle
    obtain ct where "listen (ending_events e) ?l = ?l\<lparr>context_stack := [], ls_entries :=
        put_call (word_of_nat n, context_call cost ?c
          (exit_inner ?c (ending_reason e) (ending_value e))) (ls_entries ?l),
        ls_call_type := ct, record_transaction_event_only := False\<rparr>"
      by (auto simp: l0_def)
    ultimately show ?thesis
      using root_call [OF n, of cost ?wl "[]" tr e s ho] Txn None idle
      by (intro exI [of _ ct] exI [of _ True]) (simp add: txn_traced_def l0_def)
  next
    case (Some h)
    define l1 where "l1 = l0\<lparr>context_stack := [] @ [?c]\<rparr>"
    have l1: "tracing l1" "context_stack l1 = [] @ [?c]" "with_log l1 = ?wl"
        "entries_next_index l1 = word_of_nat (Suc n)" "transaction_cost l1 = cost"
      using idle by (simp_all add: l1_def l0_def tracing_def)
    have "call_event (Evm (head_event h)) (l0\<lparr>context_stack := [?c], skip_next_context := True,
        record_transaction_event_only := True\<rparr>) = l1"
      by (subst skipped_head, simp) (rule call_listener.equality; simp add: l1_def l0_def idle)
    with start have "listen (txn_events x) l = listen (action_events as @ ending_events e) l1"
      using Txn Some by (simp del: call_event.simps)
    moreover have "\<exists>ct. listen (action_events as) l1 =
        traced l1 ([] @ [own_effect (with_log l1) as ?c]) (Suc n) ?cs ct"
      by (rule frames_listen(2) [where k = 0, OF _ l1(1,2,4)]) (use assms(3,4) Txn l1(3) in simp_all)
    then obtain ct where body: "listen (action_events as) l1 =
        traced l1 ([] @ [own_effect ?wl as ?c]) (Suc n) ?cs ct"
      unfolding l1(3) by blast
    define l2 where "l2 = listen (action_events as) l1"
    have l2: "context_stack l2 = [] @ [own_effect ?wl as ?c]" "tracing l2" "with_log l2 = ?wl"
        "transaction_cost l2 = cost"
      by (simp_all only: l2_def body traced_simps l1)
    have same: "l2 = traced (l0\<lparr>entries_next_index := word_of_nat (Suc n)\<rparr>)
        ([] @ [own_effect ?wl as ?c]) (Suc n) ?cs ct"
      unfolding l2_def body by (simp add: l1_def traced_def)
    have "\<exists>ct. listen (ending_events e) l2 =
      traced l0 (on_last (fold (context_effect (with_log l2)) (late_events e)) []) n
        (context_call (transaction_cost l2) (own_effect ?wl as ?c)
           (exit_inner (own_effect ?wl as ?c) (ending_reason e) (ending_value e)) # ?cs) ct"
      by (rule finish_frame [OF l2(1,2) _ _ same]) (use assms(3,4) Txn in simp_all)
    then obtain ct' where "listen (ending_events e) l2 =
        traced l0 [] n (txn_call ?wl (if n = 0 then cost else 0) x # ?cs) ct'"
      using root_call [OF n, of cost ?wl as tr e s ho] Txn l2(4) by auto
    ultimately show ?thesis
      using Txn idle
      by (intro exI [of _ ct'] exI [of _ False]) (simp add: txn_traced_def traced_def l0_def l2_def)
  qed
qed

section \<open>A block\<close>

lemma btree_insert_last:
  "\<forall>k' \<in> fst ` set m. unat k' < unat k \<Longrightarrow> btree_insert k v m = m @ [(k, v)]"
  by (induction m) auto

lemma put_all_number:
  "n + length xs \<le> 2 ^ 32 \<Longrightarrow> \<forall>k \<in> fst ` set m. unat k < n \<Longrightarrow>
    put_all (number n xs) (es @ [m]) = es @ [m @ number n xs]"
proof (induction xs arbitrary: n m)
  case (Cons x xs)
  have "unat (word_of_nat n :: u32) = n"
    using Cons.prems(1) by (simp add: unsigned_of_nat take_bit_nat_eq_self)
  with Cons.prems have "btree_insert (word_of_nat n) x m = m @ [(word_of_nat n, x)]"
    by (intro btree_insert_last) simp
  moreover have "\<forall>k \<in> fst ` set (m @ [(word_of_nat n, x)]). unat k < Suc n"
    using Cons.prems(2) \<open>unat (word_of_nat n :: u32) = n\<close> by auto
  ultimately show ?case
    using Cons.IH [of "Suc n" "m @ [(word_of_nat n, x)]"] Cons.prems(1)
    by (simp add: put_call_def)
qed simp

lemma put_all_number_Nil:
  assumes "n + length xs \<le> 2 ^ 32" and "xs \<noteq> []"
  shows "put_all (number n xs) [] = [number n xs]"
proof -
  have "put_all (number n xs) [] = put_all (number n xs) ([] @ [[]])"
    using assms(2) by (cases xs) (simp_all add: put_call_def)
  with put_all_number [of n xs "[]" "[]"] assms(1) show ?thesis by simp
qed

text \<open>
  The transactions of a block: one is \<open>None\<close> if it fails before it reaches the EVM, so that only
  its start is announced.
\<close>

fun block_events :: "txn option list \<Rightarrow> tracing_event list" where
  "block_events [] = []"
| "block_events (None # xs) = CallListNew # block_events xs"
| "block_events (Some x # xs) = CallListNew # txn_events x @ block_events xs"

fun block_size :: "txn option list \<Rightarrow> nat" where
  "block_size [] = 0"
| "block_size (None # xs) = block_size xs"
| "block_size (Some x # xs) = txn_size x + block_size xs"

definition block_ok :: "txn option list \<Rightarrow> bool" where
  "block_ok xs \<longleftrightarrow> list_all (\<lambda>x. case x of None \<Rightarrow> True | Some x \<Rightarrow> txn_ok x) xs"

text \<open>The trees of a block; its first call is charged for the data of its transaction.\<close>

definition indexed_tree :: "bool \<Rightarrow> nat \<Rightarrow> txn \<Rightarrow> BlockscoutCall rose" where
  "indexed_tree wl n x = txn_tree wl (if n = 0 then txn_cost x else 0) x"

fun block_calls :: "bool \<Rightarrow> nat \<Rightarrow> txn option list \<Rightarrow> (32, BlockscoutCall) btree list" where
  "block_calls wl n [] = []"
| "block_calls wl n (None # xs) = [] # block_calls wl n xs"
| "block_calls wl n (Some x # xs) =
     number n (preorder (indexed_tree wl n x)) # block_calls wl (n + txn_size x) xs"

text \<open>Between the transactions of a block.\<close>

definition between :: "nat \<Rightarrow> call_listener \<Rightarrow> bool" where
  "between n l \<longleftrightarrow> context_stack l = [] \<and> step_result_entry l = None
     \<and> \<not> record_transaction_event_only l \<and> \<not> call_list_first_transaction l
     \<and> entries_next_index l = word_of_nat n"

lemma finish_between [simp]: "between n l \<Longrightarrow> finish_transaction l = l"
  by (simp add: between_def finish_transaction_def)

lemma start_listen:
  "between n l \<Longrightarrow> call_event CallListNew l =
    l\<lparr>skip_next_context := False, ls_entries := ls_entries l @ [[]]\<rparr>"
  by (simp add: Let_def between_def finish_transaction_def)

lemma txn_between:
  assumes "between n l" "\<not> skip_next_context l" "txn_ok x" "n + txn_size x \<le> 2 ^ 32"
    and "ls_entries l = es @ [[]] \<or> es = [] \<and> ls_entries l = []"
  shows "between (n + txn_size x) (listen (txn_events x) l)"
    and "ls_entries (listen (txn_events x) l) =
      es @ [number n (preorder (indexed_tree (with_log l) n x))]"
    and "with_log (listen (txn_events x) l) = with_log l"
proof -
  from assms(1,2) have "idle l" "entries_next_index l = word_of_nat n"
    by (auto simp: between_def idle_def)
  from txn_listen [OF this assms(3,4)] obtain ct sk where
    l: "listen (txn_events x) l = txn_traced n x ct sk l" by blast
  from assms(1) show "between (n + txn_size x) (listen (txn_events x) l)"
    by (simp add: l txn_traced_def between_def)
  show "with_log (listen (txn_events x) l) = with_log l" by (simp add: l txn_traced_def)
  show "ls_entries (listen (txn_events x) l) =
      es @ [number n (preorder (indexed_tree (with_log l) n x))]"
    using assms(4,5) put_all_number [of n "preorder (indexed_tree (with_log l) n x)" "[]" es]
      put_all_number_Nil [of n "preorder (indexed_tree (with_log l) n x)"]
    by (auto simp: l txn_traced_def indexed_tree_def)
qed

lemma block_listen:
  "between n l \<Longrightarrow> block_ok xs \<Longrightarrow> n + block_size xs \<le> 2 ^ 32 \<Longrightarrow>
    between (n + block_size xs) (listen (block_events xs) l)
    \<and> ls_entries (listen (block_events xs) l) = ls_entries l @ block_calls (with_log l) n xs"
proof (induction xs arbitrary: n l)
  case Nil
  then show ?case by simp
next
  case (Cons y xs)
  define l1 where "l1 = l\<lparr>skip_next_context := False, ls_entries := ls_entries l @ [[]]\<rparr>"
  have start: "call_event CallListNew l = l1"
    using Cons.prems(1) start_listen by (simp add: l1_def)
  have l1: "between n l1" "\<not> skip_next_context l1" "ls_entries l1 = ls_entries l @ [[]]"
      "with_log l1 = with_log l"
    using Cons.prems(1) by (simp_all add: l1_def between_def)
  show ?case
  proof (cases y)
    case None
    with Cons.IH [OF l1(1)] Cons.prems(2,3) start l1(3,4) show ?thesis
      by (auto simp: block_ok_def)
  next
    case (Some x)
    with Cons.prems(2,3) have "txn_ok x" "n + txn_size x \<le> 2 ^ 32" "block_ok xs"
      by (simp_all add: block_ok_def)
    note t = txn_between [OF l1(1,2) this(1,2) disjI1 [OF l1(3)]]
    from Cons.IH [OF t(1) \<open>block_ok xs\<close>] Cons.prems(3) t(2,3) l1(4) start Some show ?thesis
      by (simp add: add.assoc)
  qed
qed

definition new_listener :: "bool \<Rightarrow> call_listener" where
  "new_listener wl = default_listener\<lparr>with_log := wl\<rparr>"

text \<open>The first announcement of a block is ignored.\<close>

lemma first_listen:
  "between 0 (call_event CallListNew (new_listener wl))"
  "\<not> skip_next_context (call_event CallListNew (new_listener wl))"
  "ls_entries (call_event CallListNew (new_listener wl)) = []"
  "with_log (call_event CallListNew (new_listener wl)) = wl"
  by (simp_all add: between_def new_listener_def default_listener_def)

lemma block_listen_all:
  assumes "block_ok (y # xs)" and "block_size (y # xs) \<le> 2 ^ 32"
  shows "\<exists>n. between n (listen (block_events (y # xs)) (new_listener wl))
    \<and> ls_entries (listen (block_events (y # xs)) (new_listener wl)) =
      (case y of None \<Rightarrow> block_calls wl 0 xs | Some x \<Rightarrow> block_calls wl 0 (y # xs))"
proof (cases y)
  case None
  with block_listen [OF first_listen(1), of xs wl] assms first_listen(3,4) [of wl] show ?thesis
    by (auto simp: block_ok_def)
next
  case (Some x)
  with assms have "txn_ok x" "0 + txn_size x \<le> 2 ^ 32" "block_ok xs" by (simp_all add: block_ok_def)
  note t = txn_between [OF first_listen(1,2) this(1,2), of wl "[]"]
  have "between (0 + txn_size x)
      (listen (txn_events x) (call_event CallListNew (new_listener wl)))"
    using t(1) first_listen(3) by blast
  from block_listen [OF this \<open>block_ok xs\<close>] t(2,3) first_listen(3,4) [of wl] assms(2) Some
  show ?thesis by auto
qed

end
