(* ===== verification/Raw_Listener.thy ===== *)
theory Raw_Listener
  imports Tracing_Types
begin

text \<open>
  The listener that records every step of a transaction (\<open>listeners/raw.rs\<close>) with memory, stack
  and storage, as long as they fit into a budget, and its formatter. A result \<open>None\<close> is a panic.
  The client runs on a machine with 64-bit addresses.
\<close>

record raw_step =
  step_opcode :: "byte list"
  step_depth :: u64
  step_gas :: u64
  step_gas_cost :: u64
  step_position :: u64
  step_memory :: "byte list option"
  step_stack :: "H256 list option"

record raw_context =
  storage_cache :: "(256, H256) btree"
  rc_address :: H160
  current_step :: "raw_step option"
  global_storage_changes :: "H160 \<rightharpoonup> (256, H256) btree"

record raw_listener =
  disable_storage :: bool
  disable_memory :: bool
  disable_stack :: bool
  new_context :: bool
  raw_context_stack :: "raw_context list"
  struct_logs :: "RawStepLog list"
  return_value :: "byte list"
  final_gas :: u64
  remaining_memory_usage :: "nat option"

definition raw_new :: "bool \<Rightarrow> bool \<Rightarrow> bool \<Rightarrow> nat \<Rightarrow> raw_listener" where
  "raw_new no_storage no_memory no_stack raw_max_memory_usage =
     \<lparr>disable_storage = no_storage, disable_memory = no_memory, disable_stack = no_stack,
      new_context = False, raw_context_stack = [], struct_logs = [], return_value = [],
      final_gas = 0, remaining_memory_usage = Some raw_max_memory_usage\<rparr>"

text \<open>\<open>and_then(|inner| inner.checked_sub(n))\<close>.\<close>

definition spend :: "nat \<Rightarrow> nat option \<Rightarrow> nat option" where
  "spend n budget = (case budget of None \<Rightarrow> None | Some b \<Rightarrow> if n \<le> b then Some (b - n) else None)"

section \<open>Gas\<close>

definition record_step_gas :: "u64 \<Rightarrow> Snapshot \<Rightarrow> raw_context \<Rightarrow> raw_context" where
  "record_step_gas cost snapshot context =
     context\<lparr>current_step := map_option
       (\<lambda>step. step\<lparr>step_gas := snapshot_gas snapshot, step_gas_cost := cost\<rparr>) (current_step context)\<rparr>"

definition record_raw_cost :: "u64 \<Rightarrow> Snapshot \<Rightarrow> raw_listener \<Rightarrow> raw_listener" where
  "record_raw_cost cost snapshot l =
     (if raw_context_stack l = [] then l
      else l\<lparr>raw_context_stack := on_last (record_step_gas cost snapshot) (raw_context_stack l),
             final_gas := snap_used_gas snapshot\<rparr>)"

fun raw_gasometer_event :: "GasometerEvent \<Rightarrow> raw_listener \<Rightarrow> raw_listener" where
  "raw_gasometer_event (RecordTransaction cost _) l = l\<lparr>new_context := True, final_gas := cost\<rparr>"
| "raw_gasometer_event (RecordCost cost snapshot) l = record_raw_cost cost snapshot l"
| "raw_gasometer_event (RecordDynamicCost gas_cost _ _ snapshot) l =
     record_raw_cost gas_cost snapshot l"
| "raw_gasometer_event _ l = l"

section \<open>Steps\<close>

text \<open>
  The data of a step are copied unless they are disabled: the outer option is a panic, for data
  that should have been sent; the inner one is the end of the budget.
\<close>

definition copied :: "bool \<Rightarrow> 'a option \<Rightarrow> ('a \<Rightarrow> 'b list) \<Rightarrow> nat option
    \<Rightarrow> ('b list option \<times> nat option) option" where
  "copied disabled source data budget =
     (if disabled then Some (None, budget)
      else case source of
        None \<Rightarrow> None
      | Some m \<Rightarrow> Some (Some (data m), spend (length (data m)) budget))"

definition raw_step_event ::
  "exec_context \<Rightarrow> byte list \<Rightarrow> exit_reason + u64 \<Rightarrow> Stack option \<Rightarrow> Memory option \<Rightarrow> raw_listener
    \<Rightarrow> raw_listener option" where
  "raw_step_event context opcode pos stack mem l =
     (let l = (if new_context l
        then l\<lparr>new_context := False, raw_context_stack := raw_context_stack l @
                [\<lparr>storage_cache = [], rc_address = exec_address context, current_step = None,
                  global_storage_changes = Map.empty\<rparr>]\<rparr>
        else l);
        depth = word_of_nat (length (raw_context_stack l)) in
      if raw_context_stack l = [] then Some l
      else case copied (disable_memory l) mem memory_data (remaining_memory_usage l) of
        None \<Rightarrow> None
      | Some (mem_copy, budget) \<Rightarrow>
          if \<not> disable_memory l \<and> budget = None then Some (l\<lparr>remaining_memory_usage := None\<rparr>)
          else case copied (disable_stack l) stack stack_data budget of
            None \<Rightarrow> None
          | Some (stack_copy, budget') \<Rightarrow>
              if \<not> disable_stack l \<and> budget' = None then Some (l\<lparr>remaining_memory_usage := None\<rparr>)
              else Some (l\<lparr>remaining_memory_usage := budget',
                raw_context_stack := on_last (\<lambda>c. c\<lparr>current_step := Some
                  \<lparr>step_opcode = opcode, step_depth = depth, step_gas = 0, step_gas_cost = 0,
                   step_position = (case pos of Inr p \<Rightarrow> p | Inl _ \<Rightarrow> 0),
                   step_memory = mem_copy, step_stack = stack_copy\<rparr>\<rparr>) (raw_context_stack l)\<rparr>))"

text \<open>The end of a step is logged; \<open>None\<close> where the budget for its storage is exceeded.\<close>

definition log_step :: "raw_listener \<Rightarrow> raw_listener option" where
  "log_step l =
     (case vec_last (raw_context_stack l) of
        None \<Rightarrow> Some l
      | Some context \<Rightarrow>
          (case current_step context of
             None \<Rightarrow> Some l
           | Some step \<Rightarrow>
               let budget = (if disable_storage l then remaining_memory_usage l
                    else spend (length (storage_cache context) * 64) (remaining_memory_usage l)) in
               if \<not> disable_storage l \<and> budget = None then None
               else Some (l\<lparr>remaining_memory_usage := budget,
                 raw_context_stack := on_last (\<lambda>c. c\<lparr>current_step := None\<rparr>) (raw_context_stack l),
                 struct_logs := struct_logs l @
                   [\<lparr>raw_depth = ucast (step_depth step), raw_gas = ucast (step_gas step),
                     raw_gas_cost = ucast (step_gas_cost step),
                     raw_memory = map_option convert_memory (step_memory step),
                     raw_op = step_opcode step, raw_pc = ucast (step_position step),
                     raw_stack = step_stack step,
                     raw_storage = (if disable_storage l then None
                                    else Some (storage_cache context))\<rparr>]\<rparr>)))"

text \<open>The step is taken from the context also when its storage no longer fits.\<close>

definition drop_step :: "raw_listener \<Rightarrow> raw_listener" where
  "drop_step l = l\<lparr>remaining_memory_usage := None,
     raw_context_stack := on_last (\<lambda>c. c\<lparr>current_step := None\<rparr>) (raw_context_stack l)\<rparr>"

section \<open>Storage of a context that exits\<close>

text \<open>The values of the keys that the parent tracks.\<close>

definition update_cache :: "(256, H256) btree \<Rightarrow> (256, H256) btree \<Rightarrow> (256, H256) btree" where
  "update_cache storage cache =
     map (\<lambda>(k, v). (k, case map_of storage k of Some v' \<Rightarrow> v' | None \<Rightarrow> v)) cache"

text \<open>\<open>BTreeMap::append\<close>: the second map's values win.\<close>

definition btree_append :: "('n::len, 'v) btree \<Rightarrow> ('n, 'v) btree \<Rightarrow> ('n, 'v) btree" where
  "btree_append m m' = fold (\<lambda>(k, v). btree_insert k v) m' m"

text \<open>
  The changes by address, each of them either to the cache of the parent or to its own changes.
\<close>

definition apply_changes ::
  "(H160 \<rightharpoonup> (256, H256) btree) \<Rightarrow> raw_context \<Rightarrow> raw_context" where
  "apply_changes changes parent =
     parent\<lparr>storage_cache := (case changes (rc_address parent) of
               None \<Rightarrow> storage_cache parent
             | Some storage \<Rightarrow> update_cache storage (storage_cache parent)),
            global_storage_changes := (\<lambda>address.
               if address = rc_address parent then global_storage_changes parent address
               else case changes address of
                 None \<Rightarrow> global_storage_changes parent address
               | Some storage \<Rightarrow> Some (btree_append
                   (case global_storage_changes parent address of None \<Rightarrow> [] | Some m \<Rightarrow> m) storage))\<rparr>"

definition exit_context :: "exit_reason \<Rightarrow> byte list \<Rightarrow> raw_listener \<Rightarrow> raw_listener" where
  "exit_context reason ret l =
     (case vec_pop (raw_context_stack l) of
        None \<Rightarrow> l
      | Some (context, stack) \<Rightarrow>
          l\<lparr>return_value := (if stack = [] then ret else return_value l),
            raw_context_stack :=
              (if \<not> disable_storage l \<and> (case reason of ExitedSucceed _ \<Rightarrow> True | _ \<Rightarrow> False)
               then on_last (apply_changes ((global_storage_changes context)
                      (rc_address context \<mapsto> storage_cache context))) stack
               else stack)\<rparr>)"

section \<open>Events\<close>

definition cache_storage :: "H256 \<Rightarrow> H256 \<Rightarrow> raw_listener \<Rightarrow> raw_listener" where
  "cache_storage index v l =
     (if disable_storage l then l
      else l\<lparr>raw_context_stack := on_last
        (\<lambda>c. c\<lparr>storage_cache := btree_insert index v (storage_cache c)\<rparr>) (raw_context_stack l)\<rparr>)"

fun raw_runtime_event :: "RuntimeEvent \<Rightarrow> raw_listener \<Rightarrow> raw_listener option" where
  "raw_runtime_event (Step context opcode pos stack mem) l =
     raw_step_event context opcode pos stack mem l"
| "raw_runtime_event (StepResult result ret) l =
     (case log_step l of
        None \<Rightarrow> Some (drop_step l)
      | Some l \<Rightarrow> Some
          (case result of
             Inl (CaptureExit reason) \<Rightarrow> exit_context reason ret l
           | Inl (CaptureTrap opcode) \<Rightarrow>
               (if ContextType_from opcode \<noteq> None then l\<lparr>new_context := True\<rparr> else l)
           | Inr _ \<Rightarrow> l))"
| "raw_runtime_event (SLoad _ index v) l = Some (cache_storage index v l)"
| "raw_runtime_event (SStore _ index v) l = Some (cache_storage index v l)"

definition raw_event :: "tracing_event \<Rightarrow> raw_listener \<Rightarrow> raw_listener option" where
  "raw_event e l =
     (if remaining_memory_usage l = None then Some l
      else case e of
        Gasometer e \<Rightarrow> Some (raw_gasometer_event e l)
      | Runtime e \<Rightarrow> raw_runtime_event e l
      | _ \<Rightarrow> Some l)"

definition raw_step_event_filter :: "raw_listener \<Rightarrow> StepEventFilter" where
  "raw_step_event_filter l =
     \<lparr>enable_stack = \<not> disable_stack l, enable_memory = \<not> disable_memory l\<rparr>"

fun raw_listen :: "tracing_event list \<Rightarrow> raw_listener \<Rightarrow> raw_listener option" where
  "raw_listen [] l = Some l"
| "raw_listen (e # es) l =
     (case raw_event e l of None \<Rightarrow> None | Some l' \<Rightarrow> raw_listen es l')"

text \<open>The response (\<open>formatters/raw.rs\<close>), if the budget was enough.\<close>

definition raw_format :: "raw_listener \<Rightarrow> single_trace option" where
  "raw_format l =
     (if remaining_memory_usage l = None then None
      else Some (RawTrace (ucast (final_gas l)) (return_value l) (struct_logs l)))"

end
