(* ===== verification/Raw_Budget.thy ===== *)
theory Raw_Budget
  imports Raw_Listener
begin

text \<open>
  What a raw trace without stacks is charged for, and that the charges stay within the budget.
\<close>

section \<open>Charges\<close>

definition opt_length :: "'a list option \<Rightarrow> nat" where
  "opt_length x = (case x of None \<Rightarrow> 0 | Some xs \<Rightarrow> length xs)"

lemma opt_length_simps [simp]: "opt_length None = 0" "opt_length (Some xs) = length xs"
  by (simp_all add: opt_length_def)

text \<open>The memory shown by a log is that of some bytes, the last word filled up.\<close>

definition shows_memory :: "byte list option \<Rightarrow> RawStepLog \<Rightarrow> bool" where
  "shows_memory m g \<longleftrightarrow> raw_memory g = map_option convert_memory m"

text \<open>The size in bytes of the data of a log: its memory, and 32 for each key and value of storage.\<close>

definition log_bytes :: "byte list option \<Rightarrow> RawStepLog \<Rightarrow> nat" where
  "log_bytes m g = opt_length m + 64 * opt_length (raw_storage g)"

definition step_charge :: "raw_context \<Rightarrow> nat" where
  "step_charge c = (case current_step c of None \<Rightarrow> 0 | Some step \<Rightarrow> opt_length (step_memory step))"

definition stackless :: "raw_context \<Rightarrow> bool" where
  "stackless c \<longleftrightarrow> (case current_step c of None \<Rightarrow> True | Some step \<Rightarrow> step_stack step = None)"

definition within :: "nat \<Rightarrow> raw_listener \<Rightarrow> bool" where
  "within budget l \<longleftrightarrow> disable_stack l \<and> list_all stackless (raw_context_stack l)
     \<and> (\<exists>ms. list_all2 shows_memory ms (struct_logs l) \<and> list_all (\<lambda>g. raw_stack g = None) (struct_logs l)
         \<and> (case remaining_memory_usage l of None \<Rightarrow> True
            | Some r \<Rightarrow> r + sum_list (map2 log_bytes ms (struct_logs l))
                + sum_list (map step_charge (raw_context_stack l)) \<le> budget))"

section \<open>The operations\<close>

lemma on_last_charge:
  "(\<And>c. step_charge (f c) \<le> step_charge c) \<Longrightarrow>
    sum_list (map step_charge (on_last f xs)) \<le> sum_list (map step_charge xs)"
  by (cases xs rule: rev_cases) simp_all

lemma set_step_charge:
  "(\<And>c. step_charge (f c) \<le> k) \<Longrightarrow>
    sum_list (map step_charge (on_last f xs)) \<le> sum_list (map step_charge xs) + k"
  by (cases xs rule: rev_cases) (simp_all add: trans_le_add2)

lemma spend_Some: "spend n b = Some r \<Longrightarrow> b = Some (r + n)"
  by (auto simp: spend_def split: option.splits if_splits)

lemma spend_add [simp]: "spend n (Some (r + n)) = Some r"
  by (simp add: spend_def)

lemma copied_Some:
  "copied d src data (Some b) = Some (copy, Some r) \<Longrightarrow> r + opt_length copy = b"
  by (auto simp: copied_def split: if_splits option.splits dest!: spend_Some)

lemma on_last_stackless:
  "list_all stackless xs \<Longrightarrow> (\<And>c. stackless c \<Longrightarrow> stackless (f c)) \<Longrightarrow> list_all stackless (on_last f xs)"
  by (cases xs rule: rev_cases) simp_all

lemma within_stack:
  "within budget l \<Longrightarrow> list_all stackless xs \<Longrightarrow>
    sum_list (map step_charge xs) \<le> sum_list (map step_charge (raw_context_stack l)) \<Longrightarrow>
    within budget (l\<lparr>raw_context_stack := xs\<rparr>)"
  unfolding within_def by (auto split: option.splits intro: le_trans [rotated])

lemma within_fields [simp]:
  "within budget (l\<lparr>new_context := b\<rparr>) = within budget l"
  "within budget (l\<lparr>final_gas := g\<rparr>) = within budget l"
  "within budget (l\<lparr>return_value := v\<rparr>) = within budget l"
  by (simp_all add: within_def split: option.split)

lemma within_spent: "within budget l \<Longrightarrow> within budget (l\<lparr>remaining_memory_usage := None\<rparr>)"
  by (auto simp: within_def)

lemma within_stackless: "within budget l \<Longrightarrow> list_all stackless (raw_context_stack l)"
  by (simp add: within_def)

lemma within_update:
  assumes "within budget l" and "\<And>c. stackless c \<Longrightarrow> stackless (f c)" and "\<And>c. step_charge (f c) \<le> step_charge c"
  shows "within budget (l\<lparr>raw_context_stack := on_last f (raw_context_stack l)\<rparr>)"
  using assms by (intro within_stack on_last_stackless on_last_charge) (auto dest: within_stackless)

lemma gasometer_within: "within budget l \<Longrightarrow> within budget (raw_gasometer_event e l)"
proof -
  have "step_charge (record_step_gas g s c) \<le> step_charge c" "stackless (record_step_gas g s c) = stackless c" for g s c
    by (simp_all add: step_charge_def stackless_def record_step_gas_def split: option.splits)
  then have "within budget (record_raw_cost g s l)" if "within budget l" for g s
    using that by (auto simp: record_raw_cost_def intro!: within_update)
  then show "within budget l \<Longrightarrow> within budget (raw_gasometer_event e l)"
    by (cases e) simp_all
qed

lemma step_within:
  assumes "within budget l" and "raw_step_event context opcode pos stack mem l = Some l'"
    and "remaining_memory_usage l = Some b"
  shows "within budget l'"
proof -
  define l1 where "l1 = (if new_context l
     then l\<lparr>new_context := False, raw_context_stack := raw_context_stack l @
             [\<lparr>storage_cache = [], rc_address = exec_address context, current_step = None,
               global_storage_changes = Map.empty\<rparr>]\<rparr> else l)"
  have l1: "within budget l1" "remaining_memory_usage l1 = Some b"
    using assms(1,3) by (auto simp: l1_def within_def step_charge_def stackless_def)
  then have off: "disable_stack l1" by (simp add: within_def)
  note step = assms(2) [unfolded raw_step_event_def l1_def [symmetric] Let_def]
  show ?thesis
  proof (cases "raw_context_stack l1 = []")
    case True
    with step l1 show ?thesis by simp
  next
    case False
    with step l1(2) obtain mc bo where copied: "copied (disable_memory l1) mem memory_data (Some b) = Some (mc, bo)"
      by (auto split: option.splits)
    show ?thesis
    proof (cases bo)
      case None
      with copied step False l1(2) have "l' = l1\<lparr>remaining_memory_usage := None\<rparr>"
        by (auto simp: copied_def split: if_splits option.splits)
      then show ?thesis using within_spent [OF l1(1)] by simp
    next
      case (Some r)
      with copied have b: "r + opt_length mc = b" by (simp add: copied_Some)
      let ?f = "\<lambda>c. c\<lparr>current_step := Some
         \<lparr>step_opcode = opcode, step_depth = word_of_nat (length (raw_context_stack l1)),
          step_gas = 0, step_gas_cost = 0,
          step_position = (case pos of Inr p \<Rightarrow> p | Inl _ \<Rightarrow> 0),
          step_memory = mc, step_stack = None\<rparr>\<rparr>"
      have "copied (disable_stack l1) stack stack_data (Some r) = Some (None, Some r)"
        using off by (simp add: copied_def)
      with copied Some step False l1(2) off
      have l': "l' = l1\<lparr>remaining_memory_usage := Some r, raw_context_stack := on_last ?f (raw_context_stack l1)\<rparr>"
        by simp
      have "sum_list (map step_charge (on_last ?f (raw_context_stack l1))) \<le>
          sum_list (map step_charge (raw_context_stack l1)) + opt_length mc"
        by (rule set_step_charge) (simp add: step_charge_def)
      moreover have "list_all stackless (on_last ?f (raw_context_stack l1))"
        using within_stackless [OF l1(1)] by (rule on_last_stackless) (simp add: stackless_def)
      ultimately show ?thesis using l1 b unfolding l' within_def by fastforce
    qed
  qed
qed

lemma log_within:
  assumes "within budget l" and "log_step l = Some l'" and "remaining_memory_usage l = Some b"
  shows "within budget l'"
proof (cases "raw_context_stack l" rule: rev_cases)
  case Nil
  with assms show ?thesis by (simp add: log_step_def)
next
  case (snoc stk c)
  show ?thesis
  proof (cases "current_step c")
    case None
    with assms snoc show ?thesis by (simp add: log_step_def)
  next
    case (Some st)
    let ?charge = "if disable_storage l then 0 else length (storage_cache c) * 64"
    obtain r where r: "r + ?charge = b" "remaining_memory_usage l' = Some r"
      using assms(2,3) snoc Some
      by (auto simp: log_step_def Let_def split: if_splits dest!: spend_Some)
    have l': "raw_context_stack l' = stk @ [c\<lparr>current_step := None\<rparr>]" "disable_stack l' = disable_stack l"
      "\<exists>g. struct_logs l' = struct_logs l @ [g] \<and>
         raw_memory g = map_option convert_memory (step_memory st) \<and> raw_stack g = step_stack st \<and>
         raw_storage g = (if disable_storage l then None else Some (storage_cache c))"
      using assms(2) snoc Some by (auto simp: log_step_def Let_def split: if_splits)
    then obtain g where g: "struct_logs l' = struct_logs l @ [g]"
      "raw_memory g = map_option convert_memory (step_memory st)" "raw_stack g = step_stack st"
      "raw_storage g = (if disable_storage l then None else Some (storage_cache c))"
      by blast
    from assms(1) obtain ms where ms: "list_all2 shows_memory ms (struct_logs l)"
      "list_all (\<lambda>g. raw_stack g = None) (struct_logs l)"
      "b + sum_list (map2 log_bytes ms (struct_logs l)) + sum_list (map step_charge (raw_context_stack l)) \<le> budget"
      and stk: "disable_stack l" "list_all stackless (raw_context_stack l)"
      using assms(3) by (auto simp: within_def)
    have "list_all2 shows_memory (ms @ [step_memory st]) (struct_logs l')"
      using ms(1) g by (simp add: shows_memory_def list_all2_appendI)
    moreover have "list_all (\<lambda>g. raw_stack g = None) (struct_logs l')"
      using ms(2) g stk(2) snoc Some by (simp add: stackless_def)
    moreover have "log_bytes (step_memory st) g = step_charge c + ?charge"
      using Some g by (simp add: log_bytes_def step_charge_def)
    then have "r + sum_list (map2 log_bytes (ms @ [step_memory st]) (struct_logs l'))
        + sum_list (map step_charge (raw_context_stack l')) \<le> budget"
      using ms(3) r(1) g(1) l'(1) snoc list_all2_lengthD [OF ms(1)]
      by (simp add: step_charge_def [of "c\<lparr>current_step := None\<rparr>"])
    ultimately show ?thesis using r(2) stk l'(1,2) snoc
      by (auto simp: within_def stackless_def)
  qed
qed

lemma exit_within: "within budget l \<Longrightarrow> within budget (exit_context reason ret l)"
proof -
  assume l: "within budget l"
  show "within budget (exit_context reason ret l)"
  proof (cases "raw_context_stack l" rule: rev_cases)
    case Nil
    with l show ?thesis by (simp add: exit_context_def)
  next
    case (snoc stk c)
    have "step_charge (apply_changes ch d) \<le> step_charge d" "stackless (apply_changes ch d) = stackless d" for ch d
      by (simp_all add: apply_changes_def step_charge_def stackless_def)
    then have "sum_list (map step_charge (on_last (apply_changes ch) stk)) \<le> sum_list (map step_charge stk)"
      "list_all stackless (on_last (apply_changes ch) stk)" for ch
      using within_stackless [OF l] snoc by (auto intro!: on_last_charge on_last_stackless)
    with l within_stackless [OF l] snoc show ?thesis
      by (auto simp: exit_context_def intro!: within_stack trans_le_add1 split: exit_reason.splits)
  qed
qed

lemma event_within:
  assumes "within budget l" and "raw_event e l = Some l'"
  shows "within budget l'"
proof (cases "remaining_memory_usage l")
  case None
  with assms show ?thesis by (simp add: raw_event_def)
next
  case (Some b)
  have store: "within budget (cache_storage i v l)" for i v
    using assms(1) by (auto simp: cache_storage_def step_charge_def stackless_def intro!: within_update)
  have drop: "within budget (drop_step l)"
    using within_update [OF within_spent [OF assms(1)], of "\<lambda>c. c\<lparr>current_step := None\<rparr>"]
    by (simp add: drop_step_def step_charge_def stackless_def)
  show ?thesis
  proof (cases e)
    case (Gasometer g)
    with assms Some gasometer_within show ?thesis by (auto simp: raw_event_def)
  next
    case (Runtime x)
    show ?thesis
    proof (cases x)
      case (Step cx opcode pos stack mem)
      with assms Some Runtime show ?thesis by (auto simp: raw_event_def intro: step_within)
    next
      case (StepResult res ret)
      show ?thesis
      proof (cases "log_step l")
        case None
        with assms Some Runtime StepResult drop show ?thesis by (auto simp: raw_event_def)
      next
        case (Some l1)
        with assms \<open>remaining_memory_usage l = Some b\<close> have "within budget l1"
          by (auto intro: log_within)
        with assms(2) Some Runtime StepResult \<open>remaining_memory_usage l = Some b\<close> show ?thesis
          by (auto simp: raw_event_def exit_within split: sum.splits Capture.splits)
      qed
    qed (use assms Some Runtime store in \<open>auto simp: raw_event_def\<close>)
  qed (use assms Some in \<open>auto simp: raw_event_def\<close>)
qed

lemma listen_within:
  "within budget l \<Longrightarrow> raw_listen es l = Some l' \<Longrightarrow> within budget l'"
  by (induction es l rule: raw_listen.induct) (auto split: option.splits intro: event_within)

end
