(* ===== verification/Tracing_Properties.thy ===== *)
theory Tracing_Properties
  imports Nested_Calls Block_Tracing Raw_Budget
begin

text \<open>
  Properties of the tracing of transactions: the entries and the nested calls of a block, what the
  numbering of the block gets wrong, the names of opcodes, the budget of a raw trace.
\<close>

section \<open>A sample block\<close>

definition gas_snapshot :: "u64 \<Rightarrow> Snapshot" where
  "gas_snapshot used = \<lparr>snap_gas_limit = 100000, snap_memory_gas = 0, snap_used_gas = used,
     snap_refunded_gas = 0\<rparr>"

definition sample_context :: exec_context where
  "sample_context = \<lparr>exec_address = [1], exec_caller = [2], apparent_value = 5\<rparr>"

text \<open>A transaction that delegates a call, whose code logs and destroys the contract.\<close>

definition sample_txn :: txn where
  "sample_txn = Txn (TransactCall [9] [1] 5 [7] 100000) 21000 (gas_snapshot 21000)
     (Some (CallHead [1] None [7] None False sample_context))
     [Own (Gasometer (RecordCost 3 (gas_snapshot 21003))),
      Nested (ByOpcode (opcodes_string 0xF4) [])
        (Frame (CallHead [3] None [8] None False sample_context)
           [Own (Evm (EvmLog [1] [4] [6])), Destroy [1] [2] 5,
            Own (Gasometer (RecordCost 5 (gas_snapshot 30000)))]
           (Interpreted (ExitedSucceed SucceedReturned) [1, 2] [] (ExitedSucceed SucceedReturned) [])),
      Own (Gasometer (RecordCost 3 (gas_snapshot 40000)))]
     (Interpreted ExitedRevert [] [] ExitedRevert [])"

definition sample_create :: txn where
  "sample_create = Txn (TransactCreate [9] 0 [7, 7] 100000 [5]) 53000 (gas_snapshot 53000)
     None [] (Direct (ExitedError OutOfGas) [])"

lemma sample_block: "block_ok [Some sample_txn, None, Some sample_create]"
  "block_ok [Some sample_txn]" "txn_size sample_txn = 3" "txn_size sample_create = 1"
  by code_simp+

section \<open>Call lists\<close>

lemma traced_entries:
  assumes "block_ok xs" and "xs \<noteq> []" and "hd xs \<noteq> None" and "block_size xs \<le> 2 ^ 32"
  shows "ls_entries (finish_transaction (listen (block_events xs) (new_listener wl))) =
    block_calls wl 0 xs"
proof -
  obtain x ys where "xs = Some x # ys" using assms(2,3) by (cases xs) auto
  with block_listen_all [of "Some x" ys wl] assms(1,4) show ?thesis by auto
qed

text \<open>Replaying a block whose first Ethereum transaction reaches the EVM, the call listener
  ends with one map of entries for each transaction: the calls, creations and destructions of its
  tree of frames in the order in which they start, numbered through the block. Each entry has the
  caller, the value, the path from the root, the number of children, the gas its own events
  report, its logs (if they are asked for) and the outcome; the root of the very first transaction
  is also charged for the data.\<close>

theorem block_traced:
  assumes "block_ok xs" and "xs \<noteq> []" and "hd xs \<noteq> None" and "block_size xs \<le> 2 ^ 32"
  shows "ls_entries (finish_transaction (listen (block_events xs) (new_listener wl))) =
    block_calls wl 0 xs"
  using assms by (rule traced_entries)

theorem block_traced_witness:
  "ls_entries (finish_transaction (listen
      (block_events [Some sample_txn, None, Some sample_create]) (new_listener True))) =
    block_calls True 0 [Some sample_txn, None, Some sample_create]"
  by (rule block_traced) (simp_all add: sample_block)

text \<open>The nested traces of a block, each with the position of its transaction.\<close>

fun nested_traces :: "bool \<Rightarrow> nat \<Rightarrow> u32 \<Rightarrow> txn option list \<Rightarrow> BlockTransactionTrace list" where
  "nested_traces wl n i [] = []"
| "nested_traces wl n i (None # xs) = nested_traces wl n (i + 1) xs"
| "nested_traces wl n i (Some x # xs) =
     \<lparr>block_tx_hash = 0, block_result = CallListNested (tree_call (indexed_tree wl n x)),
      block_tx_position = i\<rparr> # nested_traces wl (n + txn_size x) (i + 1) xs"

lemma number_calls: "map (\<lambda>(_, it). f it) (number n xs) = map f xs"
  by (induction xs arbitrary: n) simp_all

lemma nested_calls_tree:
  assumes "n + txn_size x \<le> 2 ^ 32"
  shows "nested_calls (number n (preorder (indexed_tree wl n x))) =
    Some [tree_call (indexed_tree wl n x)]"
  using nested_preorder [OF txn_tree_addressed, of wl "if n = 0 then txn_cost x else 0" x] assms
  by (simp add: nested_calls_def Let_def number_calls indexed_tree_def)

lemma number_Nil_iff [simp]: "number n xs = [] \<longleftrightarrow> xs = []"
  by (cases xs) simp_all

lemma call_tracer_traces_block:
  "n + block_size xs \<le> 2 ^ 32 \<Longrightarrow>
    call_tracer_traces i (block_calls wl n xs) = Some (nested_traces wl n i xs)"
  by (induction wl n i xs rule: nested_traces.induct) (simp_all add: nested_calls_tree)

lemma block_calls_nested:
  assumes "block_size (Some x # xs) \<le> 2 ^ 32" and "ls_entries l = block_calls wl 0 (Some x # xs)"
  shows "call_tracer_format l = Some (Some (nested_traces wl 0 0 (Some x # xs)))"
  using call_tracer_traces_block [of 0 "Some x # xs" 0 wl] assms by (simp add: call_tracer_format_def)

text \<open>C19: The call tracer's formatter sorts the entries of each transaction and pushes every call
  to its parent; whatever the shape of the execution, this neither panics nor loses a call, and
  the response of the block is the tree of frames of each of its transactions, the children of a
  call in the order in which they ran, at the position of the transaction.\<close>

theorem nested_trace_is_tree:
  assumes "block_ok xs" and "xs \<noteq> []" and "hd xs \<noteq> None" and "block_size xs \<le> 2 ^ 32"
  shows "call_tracer_format (finish_transaction (listen (block_events xs) (new_listener wl))) =
    Some (Some (nested_traces wl 0 0 xs))"
proof -
  obtain x ys where "xs = Some x # ys" using assms(2,3) by (cases xs) auto
  with block_calls_nested traced_entries [OF assms] assms(4) show ?thesis by simp
qed

theorem nested_trace_is_tree_witness:
  "call_tracer_format (finish_transaction (listen
      (block_events [Some sample_txn, None, Some sample_create]) (new_listener True))) =
    Some (Some (nested_traces True 0 0 [Some sample_txn, None, Some sample_create]))"
  by (rule nested_trace_is_tree) (simp_all add: sample_block)

text \<open>If the first Ethereum transaction of a block fails before it reaches the EVM, the map
  that stands for it is never added, since the first announcement is ignored and the first entry
  makes its own map: the response is that of the block without this transaction, and every trace
  has the position of the transaction before it.\<close>

theorem leading_failure_shifts_positions:
  assumes "block_ok (Some x # xs)" and "block_size (Some x # xs) \<le> 2 ^ 32"
  shows "call_tracer_format (finish_transaction (listen (block_events (None # Some x # xs))
      (new_listener wl))) = Some (Some (nested_traces wl 0 0 (Some x # xs)))"
proof -
  from assms have "block_ok (None # Some x # xs)" "block_size (None # Some x # xs) \<le> 2 ^ 32"
    by (simp_all add: block_ok_def)
  from block_listen_all [OF this, of wl] obtain n where
    "between n (listen (block_events (None # Some x # xs)) (new_listener wl))"
    "ls_entries (listen (block_events (None # Some x # xs)) (new_listener wl)) =
      block_calls wl 0 (Some x # xs)"
    by auto
  then show ?thesis using block_calls_nested [OF assms(2)] by simp
qed

theorem leading_failure_shifts_positions_witness:
  "call_tracer_format (finish_transaction (listen (block_events [None, Some sample_txn])
      (new_listener False))) = Some (Some (nested_traces False 0 0 [Some sample_txn]))"
  by (rule leading_failure_shifts_positions) (simp_all add: sample_block)

section \<open>The cost of the data\<close>

fun with_cost :: "u64 \<Rightarrow> txn \<Rightarrow> txn" where
  "with_cost c (Txn tr _ s h as e) = Txn tr c s h as e"

lemma with_cost_simps [simp]:
  "txn_size (with_cost c x) = txn_size x" "txn_ok (with_cost c x) = txn_ok x"
  "txn_tree wl k (with_cost c x) = txn_tree wl k x"
proof -
  obtain tr c' s h as e where x: "x = Txn tr c' s h as e" by (cases x)
  show "txn_size (with_cost c x) = txn_size x" "txn_ok (with_cost c x) = txn_ok x"
    by (simp_all add: x)
  show "txn_tree wl k (with_cost c x) = txn_tree wl k x"
    by (cases tr) (simp_all add: x)
qed

lemma block_calls_with_cost:
  "0 < n \<Longrightarrow> block_calls wl n (ys @ Some (with_cost c y) # zs) = block_calls wl n (ys @ Some y # zs)"
  by (induction wl n ys rule: block_calls.induct) (simp_all add: indexed_tree_def)

lemma block_with_cost:
  "block_ok (xs @ Some (with_cost c y) # zs) = block_ok (xs @ Some y # zs)"
  "block_size (xs @ Some (with_cost c y) # zs) = block_size (xs @ Some y # zs)"
proof -
  show "block_ok (xs @ Some (with_cost c y) # zs) = block_ok (xs @ Some y # zs)"
    by (simp add: block_ok_def)
  show "block_size (xs @ Some (with_cost c y) # zs) = block_size (xs @ Some y # zs)"
    by (induction xs rule: block_size.induct) simp_all
qed

text \<open>The cost of the data of a transaction, which is to be added to its first call, is added
  only where the index of the entry is 0. As the indices go on through a block, what any but the
  first transaction paid for its data appears nowhere in the trace: another cost gives the same
  trace.\<close>

theorem later_data_cost_ignored:
  assumes "block_ok (Some x # ys @ Some y # zs)" and "block_size (Some x # ys @ Some y # zs) \<le> 2 ^ 32"
  shows "ls_entries (finish_transaction (listen
      (block_events (Some x # ys @ Some (with_cost c y) # zs)) (new_listener wl))) =
    ls_entries (finish_transaction (listen
      (block_events (Some x # ys @ Some y # zs)) (new_listener wl)))"
proof -
  have "block_ok (Some x # ys @ Some (with_cost c y) # zs)"
      "block_size (Some x # ys @ Some (with_cost c y) # zs) \<le> 2 ^ 32"
    using assms block_with_cost [of "Some x # ys" c y zs] by simp_all
  note new = traced_entries [OF this(1) _ _ this(2), of wl]
  note old = traced_entries [OF assms(1) _ _ assms(2), of wl]
  have "0 < txn_size x" by (cases x) simp
  then have "block_calls wl 0 (Some x # ys @ Some (with_cost c y) # zs) =
      block_calls wl 0 (Some x # ys @ Some y # zs)"
    using block_calls_with_cost [of "txn_size x" wl ys c y zs] by simp
  with new old show ?thesis by simp
qed

theorem later_data_cost_ignored_witness:
  "ls_entries (finish_transaction (listen
      (block_events [Some sample_txn, None, Some (with_cost 0 sample_create)]) (new_listener True))) =
    ls_entries (finish_transaction (listen
      (block_events [Some sample_txn, None, Some sample_create]) (new_listener True)))"
  using later_data_cost_ignored [of sample_txn "[None]" sample_create "[]" 0 True]
  by (simp add: sample_block)

section \<open>Opcodes\<close>

definition call_opcode :: "nat \<Rightarrow> ContextType option" where
  "call_opcode n =
     (if n = 0xF0 \<or> n = 0xF5 then Some CreateContext
      else if n = 0xF1 then Some (CallContext TypeCall)
      else if n = 0xF2 then Some (CallContext TypeCallCode)
      else if n = 0xF4 then Some (CallContext TypeDelegateCall)
      else if n = 0xFA then Some (CallContext TypeStaticCall)
      else None)"

text \<open>Names at the level of characters.\<close>

definition char_upper :: "char \<Rightarrow> char" where
  "char_upper c = (if 97 \<le> (of_char c :: nat) \<and> (of_char c :: nat) \<le> 122
     then char_of (of_char c - 32 :: nat) else c)"

definition named_context :: "string \<Rightarrow> ContextType option" where
  "named_context name =
     (if name = ''CREATE'' \<or> name = ''CREATE2'' then Some CreateContext
      else if name = ''CALL'' then Some (CallContext TypeCall)
      else if name = ''CALLCODE'' then Some (CallContext TypeCallCode)
      else if name = ''DELEGATECALL'' then Some (CallContext TypeDelegateCall)
      else if name = ''STATICCALL'' then Some (CallContext TypeStaticCall)
      else None)"

definition is_ascii :: "char \<Rightarrow> bool" where
  "is_ascii c \<longleftrightarrow> (of_char c :: nat) < 128"

lemma unat_of_char [simp]: "unat (of_char c :: byte) = of_char c"
proof -
  have "(of_char c :: byte) = word_of_nat (of_char c)" by (simp only: of_nat_of_char)
  then have "unat (of_char c :: byte) = take_bit 8 (of_char c :: nat)"
    by (simp only: unsigned_of_nat) simp
  also have "\<dots> = of_char c" by (simp add: take_bit_nat_eq_self)
  finally show ?thesis .
qed

lemma ascii_inject [simp]: "ascii s = ascii t \<longleftrightarrow> s = t"
proof -
  have "inj (of_char :: char \<Rightarrow> byte)"
    by (rule injI) (metis unat_of_char of_char_eq_iff)
  then show ?thesis by (simp add: ascii_def)
qed

lemma of_char_less: "(of_char c :: byte) < b \<longleftrightarrow> of_char c < unat b"
  "(of_char c :: byte) \<le> b \<longleftrightarrow> of_char c \<le> unat b" "b \<le> (of_char c :: byte) \<longleftrightarrow> unat b \<le> of_char c"
  by (simp_all add: word_less_nat_alt word_le_nat_alt)

lemma utf8_ascii: "list_all is_ascii s \<Longrightarrow> utf8_valid (ascii s)"
  by (induction s) (simp_all add: ascii_def is_ascii_def of_char_less)

lemma of_char_upper:
  "is_ascii c \<Longrightarrow> (if 0x61 \<le> (of_char c :: byte) \<and> (of_char c :: byte) \<le> 0x7A
     then of_char c - 0x20 else of_char c) = (of_char (char_upper c) :: byte)"
proof -
  assume "is_ascii c"
  have "(of_char c :: byte) - 0x20 = of_char (char_of (of_char c - 32 :: nat))"
    if "32 \<le> (of_char c :: nat)"
  proof (rule word_unat_eq_iff [THEN iffD2])
    have "unat ((of_char c :: byte) - 0x20) = of_char c - 32"
      using that by (subst unat_sub) (simp_all add: of_char_less)
    also have "\<dots> = unat (of_char (char_of (of_char c - 32 :: nat)) :: byte)"
      using \<open>is_ascii c\<close> by (simp add: is_ascii_def)
    finally show "unat ((of_char c :: byte) - 0x20) =
        unat (of_char (char_of (of_char c - 32 :: nat)) :: byte)" .
  qed
  then show ?thesis by (simp add: char_upper_def of_char_less)
qed

lemma uppercase_ascii: "list_all is_ascii s \<Longrightarrow> to_uppercase (ascii s) = ascii (map char_upper s)"
proof (induction s)
  case (Cons c s)
  then have "unat (of_char c :: byte) < 128" by (simp add: is_ascii_def)
  then have "(of_char c :: byte) \<noteq> 0xC4" "(of_char c :: byte) \<noteq> 0xC5" "(of_char c :: byte) \<noteq> 0xEF"
    by (auto simp del: unat_of_char)
  with Cons of_char_upper [of c] show ?case by (simp add: ascii_def)
qed (simp add: ascii_def)

lemma ContextType_from_ascii:
  "list_all is_ascii s \<Longrightarrow> ContextType_from (ascii s) = named_context (map char_upper s)"
  by (simp add: ContextType_from_def from_utf8_def utf8_ascii uppercase_ascii named_context_def Let_def)

definition range_ok :: "nat \<times> string list \<Rightarrow> bool" where
  "range_ok r = list_all (\<lambda>(n, s). list_all is_ascii s \<and>
     named_context (map char_upper s) = call_opcode n) (List.enumerate (fst r) (snd r))"

lemma opcode_ranges_ok: "list_all range_ok opcode_ranges"
  by (simp add: opcode_ranges_def range_ok_def is_ascii_def char_upper_def named_context_def
      call_opcode_def char_of_eq_iff)

lemma opcode_lookup_ok:
  "list_all range_ok rs \<Longrightarrow> opcode_lookup rs n = Some s \<Longrightarrow>
    list_all is_ascii s \<and> named_context (map char_upper s) = call_opcode n"
proof (induction rs n rule: opcode_lookup.induct)
  case (2 start names rest n)
  show ?case
  proof (cases "start \<le> n \<and> n < start + length names")
    case True
    then have "(n, names ! (n - start)) \<in> set (List.enumerate start names)"
      by (auto simp: in_set_enumerate_eq)
    with 2 True show ?thesis by (auto simp: range_ok_def list_all_iff)
  qed (use 2 in auto)
qed simp

lemma call_opcodes_named:
  "opcode_lookup opcode_ranges n = None \<Longrightarrow> call_opcode n = None"
proof -
  have "list_all (\<lambda>n. opcode_lookup opcode_ranges n \<noteq> None) [0xF0, 0xF1, 0xF2, 0xF4, 0xF5, 0xFA]"
    by code_simp
  then show "opcode_lookup opcode_ranges n = None \<Longrightarrow> call_opcode n = None"
    by (auto simp: call_opcode_def)
qed

lemma decimal_ascii: "list_all is_ascii (decimal_u8 n)"
proof -
  have "is_ascii (digit d)" for d
  proof -
    have "digit d \<in> set ''0123456789''" unfolding digit_def by (rule nth_mem) simp
    then show ?thesis by (auto simp: is_ascii_def)
  qed
  then show ?thesis by (simp add: decimal_u8_def)
qed

text \<open>The name under which the runtime reports the opcode of a trap leads the client to the
  right kind of context, for each of the 256 opcodes.\<close>

theorem trap_names_recognised:
  "ContextType_from (opcodes_string opcode) = call_opcode (unat opcode)"
proof (cases "opcode_lookup opcode_ranges (unat opcode)")
  case None
  let ?s = "''Unknown('' @ decimal_u8 (unat opcode) @ '')''"
  have "list_all is_ascii ?s" using decimal_ascii by (simp add: is_ascii_def)
  moreover have "named_context (map char_upper ?s) = None"
    by (simp add: named_context_def char_upper_def)
  ultimately have "ContextType_from (ascii ?s) = None" by (simp only: ContextType_from_ascii)
  with None call_opcodes_named [OF None] show ?thesis by (simp add: opcodes_string_def)
next
  case (Some s)
  with opcode_lookup_ok [OF opcode_ranges_ok Some] show ?thesis
    by (simp add: opcodes_string_def ContextType_from_ascii)
qed

section \<open>Raw traces\<close>

text \<open>C20: whatever the EVM emits, the data of a raw trace that is delivered and was asked for
  without stacks stay within the budget, which is a size in bytes: all bytes of memory that its
  steps show and the 64 bytes of each key and value of storage that they show, together. No step
  shows a stack.\<close>

theorem raw_trace_within_budget:
  assumes "raw_listen es (raw_new no_storage no_memory True budget) = Some l"
    and "raw_format l = Some (RawTrace g v logs)"
  shows "list_all (\<lambda>g. raw_stack g = None) logs
    \<and> (\<exists>memories. list_all2 (\<lambda>m g. raw_memory g = map_option convert_memory m) memories logs
        \<and> sum_list (map opt_length memories) + sum_list (map (\<lambda>g. 64 * opt_length (raw_storage g)) logs) \<le> budget)"
proof -
  have sum: "sum_list (map2 log_bytes ms gs) =
      sum_list (map opt_length ms) + sum_list (map (\<lambda>g. 64 * opt_length (raw_storage g)) gs)"
    if "length ms = length gs" for ms gs
    using that by (induction ms gs rule: list_induct2) (simp_all add: log_bytes_def)
  have "within budget (raw_new no_storage no_memory True budget)"
    by (simp add: within_def raw_new_def)
  from listen_within [OF this assms(1)] have "within budget l" .
  with assms(2) obtain ms where "list_all2 shows_memory ms logs" "list_all (\<lambda>g. raw_stack g = None) logs"
    "sum_list (map2 log_bytes ms logs) \<le> budget"
    by (auto simp: raw_format_def within_def split: if_splits)
  then show ?thesis using sum [OF list_all2_lengthD] unfolding shows_memory_def [abs_def] by auto
qed

definition sample_steps :: "tracing_event list" where
  "sample_steps =
     [Gasometer (RecordTransaction 21000 (gas_snapshot 21000)),
      Runtime (Step sample_context (opcodes_string 0x55) (Inr 4)
        (Some \<lparr>stack_data = [1, 2], stack_limit = 1024\<rparr>)
        (Some \<lparr>memory_data = [7, 8], effective_len = 32, memory_limit = 1000\<rparr>)),
      Runtime (SStore [1] 5 6), Gasometer (RecordCost 20000 (gas_snapshot 41000)),
      Runtime (StepResult (Inr ()) []),
      Runtime (StepResult (Inl (CaptureExit (ExitedSucceed SucceedReturned))) [3])]"

lemma from_be_bytes_padded: "from_be_bytes (replicate n 0 @ xs) = from_be_bytes xs"
  by (induction n) (simp_all add: from_be_bytes_def)

lemma sample_memory: "convert_memory [7, 8] = [0x0708]"
proof -
  have "chunks 32 [7, 8 :: byte] = [[7, 8]]"
    by (subst chunks.simps) (simp add: chunks.simps)
  moreover have "from_be_bytes [7, 8] = 0x0708" by (simp add: from_be_bytes_def)
  ultimately show ?thesis by (simp add: convert_memory_def from_be_bytes_padded)
qed

lemma sample_steps_run:
  "map_option raw_format (raw_listen sample_steps (raw_new False False True 100)) =
    Some (Some (RawTrace 41000 [3] [\<lparr>raw_depth = 1, raw_gas = 59000, raw_gas_cost = 20000,
      raw_memory = Some [0x0708],
      raw_op = opcodes_string 0x55, raw_pc = 4, raw_stack = None,
      raw_storage = Some [(5, 6)]\<rparr>]))"
  by (simp add: sample_steps_def raw_new_def raw_event_def raw_step_event_def sample_context_def
      copied_def spend_def gas_snapshot_def record_raw_cost_def record_step_gas_def
      snapshot_gas_def cache_storage_def log_step_def exit_context_def raw_format_def Let_def
      sample_memory)

theorem raw_trace_within_budget_witness:
  "\<exists>l g v logs memories. raw_listen sample_steps (raw_new False False True 100) = Some l
    \<and> raw_format l = Some (RawTrace g v logs) \<and> logs \<noteq> []
    \<and> list_all2 (\<lambda>m g. raw_memory g = map_option convert_memory m) memories logs
    \<and> sum_list (map opt_length memories) + sum_list (map (\<lambda>g. 64 * opt_length (raw_storage g)) logs) \<le> 100"
proof -
  from sample_steps_run obtain l g v logs where
    l: "raw_listen sample_steps (raw_new False False True 100) = Some l"
    "raw_format l = Some (RawTrace g v logs)" "logs \<noteq> []"
    by (auto simp del: raw_listen.simps)
  with raw_trace_within_budget [OF l(1,2)] show ?thesis by blast
qed

section \<open>What the listeners miss\<close>

lemma delegate_trap:
  "ContextType_from (opcodes_string 0xF4) = Some (CallContext TypeDelegateCall)"
  "ContextType_from (opcodes_string 0xF1) = Some (CallContext TypeCall)"
  by code_simp+

text \<open>
  The kind of the last trapped call is never forgotten. Without the events that start a
  transaction, the second transaction of a block is reported as a delegate call if the last call
  of the first one was.
\<close>

definition legacy_call :: "H160 \<Rightarrow> tracing_event list" where
  "legacy_call to = [Evm (EvmCall to None [] None False sample_context)]"

definition legacy_exit :: "tracing_event list" where
  "legacy_exit = [Runtime (StepResult (Inl (CaptureExit (ExitedSucceed SucceedStopped))) [])]"

lemma legacy_root_keeps_call_type:
  "map (map (bc_inner \<circ> snd)) (ls_entries (listen
      ([CallListNew] @ legacy_call [1]
        @ [Runtime (StepResult (Inl (CaptureTrap (opcodes_string 0xF4))) [])] @ legacy_call [3]
        @ legacy_exit @ legacy_exit @ [CallListNew] @ legacy_call [1] @ legacy_exit)
      (new_listener False))) =
    [[BlockscoutCall TypeCall [1] [] (Output []), BlockscoutCall TypeDelegateCall [3] [] (Output [])],
     [BlockscoutCall TypeDelegateCall [1] [] (Output [])]]"
  by (simp add: legacy_call_def legacy_exit_def new_listener_def default_listener_def Let_def
      next_trace_address_def push_context_def subcall_type_def sample_context_def delegate_trap
      pop_context_to_entry_def insert_entry_def exit_inner_def context_call_def
      finish_transaction_def vec_pop_def vec_last_def on_last_def)

text \<open>
  A contract that calls itself twice: the inner call writes a slot which the outer call has read
  and the one in between has not. The value is lost on the way out, and the outer call goes on
  with the old one.
\<close>

definition plain_step :: tracing_event where
  "plain_step = Runtime (Step sample_context [] (Inr 0) None None)"

definition self_calls :: "tracing_event list" where
  "self_calls =
     [Gasometer (RecordTransaction 21000 (gas_snapshot 21000)),
      plain_step, Runtime (SLoad [1] 5 0),
      Runtime (StepResult (Inl (CaptureTrap (opcodes_string 0xF1))) []),
      plain_step, Runtime (StepResult (Inl (CaptureTrap (opcodes_string 0xF1))) []),
      plain_step, Runtime (SStore [1] 5 6)] @ legacy_exit @ legacy_exit @
     [plain_step, Runtime (StepResult (Inr ()) [])]"

lemma nested_write_lost:
  "map_option (\<lambda>l. map raw_storage (struct_logs l))
     (raw_listen self_calls (raw_new False True True 1000)) =
   Some [Some [(5, 0)], Some [], Some [(5, 6)], Some [(5, 0)]]"
  by (simp add: self_calls_def plain_step_def legacy_exit_def raw_new_def raw_event_def
      raw_step_event_def sample_context_def copied_def spend_def gas_snapshot_def
      cache_storage_def log_step_def exit_context_def apply_changes_def update_cache_def
      delegate_trap Let_def vec_pop_def vec_last_def on_last_def)

end
