(* ===== verification/Trace_Cache.thy ===== *)
theory Trace_Cache
  imports Tracing_Types
begin

text \<open>
  The cache of the \<open>trace_filter\<close> RPC (\<open>client/rpc/trace\<close>, \<open>CacheTask\<close>): the task that starts
  the tracing of blocks, hands out results and forgets them. It handles one message at a time;
  the messages of the RPC handlers, of the blocking tasks and of the expiration timers may come in
  any order. A channel is known by a number; what is sent on it and which channels are dropped
  without an answer is recorded.
\<close>

section \<open>State\<close>

datatype trace_error =
    PendingNotSupported | BlockHashNotSupported | CountTooLarge u32 u32 | HeaderFailed u32
  | NoSuchBlock u32 | TooManyTraces u32 | NotBatched H256 | ReplayFailed "byte list"

type_synonym traces_result = "trace_error + TransactionTrace list"
type_synonym channel = nat

datatype cache_block_state = Pooled bool "channel list" | Cached traces_result

record cache_block =
  active_batch_count :: nat
  block_state :: cache_block_state

record cache_task =
  cached_blocks :: "H256 \<rightharpoonup> cache_block"
  batches :: "u64 \<rightharpoonup> H256 list"
  next_batch_id :: u64
  spawned :: "H256 list"
  batch_replies :: "(channel \<times> u64) list"
  trace_replies :: "(channel \<times> traces_result) list"
  dropped :: "channel list"

definition new_cache :: cache_task where
  "new_cache = \<lparr>cached_blocks = Map.empty, batches = Map.empty, next_batch_id = 0, spawned = [],
     batch_replies = [], trace_replies = [], dropped = []\<rparr>"

section \<open>Handlers\<close>

definition start_block :: "H256 \<Rightarrow> cache_task \<Rightarrow> cache_task" where
  "start_block block s =
     (case cached_blocks s block of
        Some c \<Rightarrow> s\<lparr>cached_blocks := (cached_blocks s)
          (block \<mapsto> c\<lparr>active_batch_count := active_batch_count c + 1\<rparr>)\<rparr>
      | None \<Rightarrow> s\<lparr>cached_blocks := (cached_blocks s)
          (block \<mapsto> \<lparr>active_batch_count = 1, block_state = Pooled False []\<rparr>),
          spawned := spawned s @ [block]\<rparr>)"

definition request_start_batch :: "channel \<Rightarrow> H256 list \<Rightarrow> cache_task \<Rightarrow> cache_task" where
  "request_start_batch sender blocks s =
     (let s = s\<lparr>batches := (batches s)(next_batch_id s \<mapsto> blocks)\<rparr>;
          s = fold start_block blocks s in
      s\<lparr>batch_replies := batch_replies s @ [(sender, next_batch_id s)],
        next_batch_id := next_batch_id s + 1\<rparr>)"

definition request_get_traces :: "channel \<Rightarrow> H256 \<Rightarrow> cache_task \<Rightarrow> cache_task" where
  "request_get_traces sender block s =
     (case cached_blocks s block of
        Some c \<Rightarrow>
          (case block_state c of
             Pooled started waiting \<Rightarrow> s\<lparr>cached_blocks := (cached_blocks s)
               (block \<mapsto> c\<lparr>block_state := Pooled started (waiting @ [sender])\<rparr>)\<rparr>
           | Cached traces \<Rightarrow> s\<lparr>trace_replies := trace_replies s @ [(sender, traces)]\<rparr>)
      | None \<Rightarrow> s\<lparr>trace_replies := trace_replies s @ [(sender, Inl (NotBatched block))]\<rparr>)"

text \<open>An entry that is removed drops the channels that wait for it.\<close>

definition waiting_channels :: "cache_block \<Rightarrow> channel list" where
  "waiting_channels c = (case block_state c of Pooled _ waiting \<Rightarrow> waiting | Cached _ \<Rightarrow> [])"

definition remove_block :: "H256 \<Rightarrow> cache_task \<Rightarrow> cache_task" where
  "remove_block block s =
     (case cached_blocks s block of
        Some c \<Rightarrow> s\<lparr>cached_blocks := (cached_blocks s)(block := None),
                    dropped := dropped s @ waiting_channels c\<rparr>
      | None \<Rightarrow> s)"

definition unstarted :: "cache_block \<Rightarrow> bool" where
  "unstarted c \<longleftrightarrow> active_batch_count c = 1 \<and>
     (case block_state c of Pooled started _ \<Rightarrow> \<not> started | Cached _ \<Rightarrow> False)"

definition stop_block :: "H256 \<Rightarrow> cache_task \<Rightarrow> cache_task" where
  "stop_block block s =
     (case cached_blocks s block of
        Some c \<Rightarrow> if unstarted c then remove_block block s else s
      | None \<Rightarrow> s)"

definition request_stop_batch :: "u64 \<Rightarrow> cache_task \<Rightarrow> cache_task" where
  "request_stop_batch batch_id s =
     (case batches s batch_id of Some blocks \<Rightarrow> fold stop_block blocks s | None \<Rightarrow> s)"

definition blocking_started :: "H256 \<Rightarrow> cache_task \<Rightarrow> cache_task" where
  "blocking_started block s =
     (case cached_blocks s block of
        Some c \<Rightarrow>
          (case block_state c of
             Pooled _ waiting \<Rightarrow> s\<lparr>cached_blocks := (cached_blocks s)
               (block \<mapsto> c\<lparr>block_state := Pooled True waiting\<rparr>)\<rparr>
           | Cached _ \<Rightarrow> s)
      | None \<Rightarrow> s)"

definition blocking_finished :: "H256 \<Rightarrow> traces_result \<Rightarrow> cache_task \<Rightarrow> cache_task" where
  "blocking_finished block result s =
     (case cached_blocks s block of
        Some c \<Rightarrow>
          (case block_state c of
             Pooled _ waiting \<Rightarrow> s\<lparr>
               trace_replies := trace_replies s @ map (\<lambda>channel. (channel, result)) (rev waiting),
               cached_blocks := (cached_blocks s)(block \<mapsto> c\<lparr>block_state := Cached result\<rparr>)\<rparr>
           | Cached _ \<Rightarrow> s)
      | None \<Rightarrow> s)"

definition expire_block :: "H256 \<Rightarrow> cache_task \<Rightarrow> cache_task" where
  "expire_block block s =
     (case cached_blocks s block of
        Some c \<Rightarrow>
          let c' = c\<lparr>active_batch_count := active_batch_count c - 1\<rparr>;
              s' = s\<lparr>cached_blocks := (cached_blocks s)(block \<mapsto> c')\<rparr> in
          if active_batch_count c' = 0 then remove_block block s' else s'
      | None \<Rightarrow> s)"

definition expired_batch :: "u64 \<Rightarrow> cache_task \<Rightarrow> cache_task" where
  "expired_batch batch_id s =
     (case batches s batch_id of
        Some batch \<Rightarrow>
          fold expire_block batch (s\<lparr>batches := (batches s)(batch_id := None)\<rparr>)
      | None \<Rightarrow> s)"

text \<open>The messages of the main loop; the expiration of a batch is a timer set when it is stopped.\<close>

datatype cache_message =
    StartBatch channel "H256 list"
  | GetTraces channel H256
  | StopBatch u64
  | Started H256
  | Finished H256 traces_result
  | Expired u64

fun cache_handle :: "cache_message \<Rightarrow> cache_task \<Rightarrow> cache_task" where
  "cache_handle (StartBatch sender blocks) s = request_start_batch sender blocks s"
| "cache_handle (GetTraces sender block) s = request_get_traces sender block s"
| "cache_handle (StopBatch batch_id) s = request_stop_batch batch_id s"
| "cache_handle (Started block) s = blocking_started block s"
| "cache_handle (Finished block result) s = blocking_finished block result s"
| "cache_handle (Expired batch_id) s = expired_batch batch_id s"

section \<open>What the loops do to an entry\<close>

definition counted :: "nat \<Rightarrow> cache_block option \<Rightarrow> cache_block option" where
  "counted n c = (if n = 0 then c else Some (case c of
      None \<Rightarrow> \<lparr>active_batch_count = n, block_state = Pooled False []\<rparr>
    | Some c \<Rightarrow> c\<lparr>active_batch_count := active_batch_count c + n\<rparr>))"

definition discounted :: "nat \<Rightarrow> cache_block option \<Rightarrow> cache_block option" where
  "discounted n c = (case c of None \<Rightarrow> None | Some c \<Rightarrow>
      if active_batch_count c \<le> n then None
      else Some (c\<lparr>active_batch_count := active_batch_count c - n\<rparr>))"

lemma start_blocks:
  "cached_blocks (fold start_block bs s) b = counted (count_list bs b) (cached_blocks s b)"
  "batches (fold start_block bs s) = batches s"
  "next_batch_id (fold start_block bs s) = next_batch_id s"
proof (induction bs arbitrary: s)
  case (Cons x bs)
  {
    case 1
    then show ?case
      using Cons.IH(1) [of "start_block x s"]
      by (cases "cached_blocks s x") (auto simp: start_block_def counted_def split: option.splits)
  next
    case 2
    then show ?case
      using Cons.IH(2) [of "start_block x s"] by (simp add: start_block_def split: option.splits)
  next
    case 3
    then show ?case
      using Cons.IH(3) [of "start_block x s"] by (simp add: start_block_def split: option.splits)
  }
qed (simp_all add: counted_def)

lemma remove_block_fields [simp]:
  "cached_blocks (remove_block x s) = (cached_blocks s)(x := None)"
  "batches (remove_block x s) = batches s" "next_batch_id (remove_block x s) = next_batch_id s"
  by (auto simp: remove_block_def split: option.splits)

lemma stop_blocks:
  "cached_blocks (fold stop_block bs s) b =
    (case cached_blocks s b of
       Some c \<Rightarrow> if b \<in> set bs \<and> unstarted c then None else Some c | None \<Rightarrow> None)"
  "batches (fold stop_block bs s) = batches s"
  "next_batch_id (fold stop_block bs s) = next_batch_id s"
proof (induction bs arbitrary: s)
  case (Cons x bs)
  {
    case 1
    then show ?case
      using Cons.IH(1) [of "stop_block x s"] by (auto simp: stop_block_def split: option.splits)
  next
    case 2
    then show ?case
      using Cons.IH(2) [of "stop_block x s"] by (simp add: stop_block_def split: option.splits)
  next
    case 3
    then show ?case
      using Cons.IH(3) [of "stop_block x s"] by (simp add: stop_block_def split: option.splits)
  }
qed (simp_all split: option.splits)

lemma expire_block_fields:
  "cached_blocks (expire_block x s) b =
    (if x = b then discounted 1 (cached_blocks s b) else cached_blocks s b)"
  "batches (expire_block x s) = batches s" "next_batch_id (expire_block x s) = next_batch_id s"
  by (auto simp: expire_block_def discounted_def Let_def split: option.splits)

lemma discounted_Suc: "discounted n (discounted 1 c) = discounted (Suc n) c"
  by (auto simp: discounted_def split: option.splits)

lemma expire_blocks:
  "(\<forall>c. cached_blocks s b = Some c \<longrightarrow> 0 < active_batch_count c) \<Longrightarrow>
    cached_blocks (fold expire_block bs s) b = discounted (count_list bs b) (cached_blocks s b)"
  "batches (fold expire_block bs s) = batches s"
  "next_batch_id (fold expire_block bs s) = next_batch_id s"
proof (induction bs arbitrary: s)
  case Nil
  {
    case 1
    then show ?case by (auto simp: discounted_def split: option.splits)
  }
next
  case (Cons x bs)
  {
    case 1
    show ?case
    proof (cases "x = b")
      case False
      with 1 Cons.IH(1) [of "expire_block x s"] show ?thesis by (simp add: expire_block_fields)
    next
      case True
      have "\<forall>c. cached_blocks (expire_block x s) b = Some c \<longrightarrow> 0 < active_batch_count c"
        using True by (auto simp: expire_block_fields discounted_def split: option.splits if_splits)
      from Cons.IH(1) [OF this] True show ?thesis
        by (simp add: expire_block_fields discounted_Suc [unfolded One_nat_def])
    qed
  }
qed (simp_all add: expire_block_fields)

section \<open>What the cache keeps\<close>

text \<open>How often the running batches ask for a block.\<close>

definition demand :: "(u64 \<rightharpoonup> H256 list) \<Rightarrow> H256 \<Rightarrow> nat" where
  "demand m b = (\<Sum>i \<in> dom m. count_list (the (m i)) b)"

lemma demand_insert:
  "finite (dom m) \<Longrightarrow> m i = None \<Longrightarrow> demand (m(i \<mapsto> bs)) b = count_list bs b + demand m b"
proof -
  assume "finite (dom m)" and "m i = None"
  then have "i \<notin> dom m" by auto
  have "(\<Sum>j \<in> dom m. count_list (the ((m(i \<mapsto> bs)) j)) b) = demand m b"
    unfolding demand_def using \<open>i \<notin> dom m\<close> by (intro sum.cong) auto
  with \<open>finite (dom m)\<close> \<open>i \<notin> dom m\<close> show ?thesis by (simp add: demand_def)
qed

lemma demand_remove:
  "finite (dom m) \<Longrightarrow> m i = Some bs \<Longrightarrow> demand m b = count_list bs b + demand (m(i := None)) b"
  using demand_insert [of "m(i := None)" i bs b] by (simp add: fun_upd_idem)

lemma demand_member:
  assumes "finite (dom m)" "m i = Some bs" "b \<in> set bs"
  shows "0 < demand m b"
proof -
  have "count_list bs b \<noteq> 0" using assms(3) by (simp add: count_list_0_iff)
  then show ?thesis using demand_remove [OF assms(1,2), of b] by simp
qed

text \<open>
  Before the \<open>n\<close>-th batch. An entry counts batches that exist: it is counted at least once, and at
  most as often as it is asked for.
\<close>

definition cache_ok :: "nat \<Rightarrow> cache_task \<Rightarrow> bool" where
  "cache_ok n s \<longleftrightarrow> finite (dom (batches s)) \<and> next_batch_id s = word_of_nat n
     \<and> (\<forall>i \<in> dom (batches s). unat i < n)
     \<and> (\<forall>b c. cached_blocks s b = Some c \<longrightarrow>
          0 < active_batch_count c \<and> active_batch_count c \<le> demand (batches s) b)"

lemma cache_okD:
  "cache_ok n s \<Longrightarrow> cached_blocks s b = Some c \<Longrightarrow>
    0 < active_batch_count c \<and> active_batch_count c \<le> demand (batches s) b"
  "cache_ok n s \<Longrightarrow> finite (dom (batches s))"
  "cache_ok n s \<Longrightarrow> n < 2 ^ 64 \<Longrightarrow> batches s (next_batch_id s) = None"
proof -
  assume "cache_ok n s" and "n < 2 ^ 64"
  then have "unat (next_batch_id s) = n"
    by (simp add: cache_ok_def unsigned_of_nat take_bit_nat_eq_self)
  with \<open>cache_ok n s\<close> show "batches s (next_batch_id s) = None"
    by (fastforce simp: cache_ok_def)
qed (auto simp: cache_ok_def)

fun starts :: "cache_message \<Rightarrow> nat" where
  "starts (StartBatch _ _) = 1"
| "starts _ = 0"

lemma start_ok:
  assumes "cache_ok n s" and "n < 2 ^ 64"
  shows "cache_ok (Suc n) (request_start_batch q bs s)"
proof -
  have new: "batches s (next_batch_id s) = None" and fin: "finite (dom (batches s))"
    using cache_okD(2,3) [OF assms(1)] assms by auto
  have "unat (next_batch_id s) = n"
    using assms by (simp add: cache_ok_def unsigned_of_nat take_bit_nat_eq_self)
  moreover have "0 < active_batch_count c \<and>
      active_batch_count c \<le> demand ((batches s)(next_batch_id s \<mapsto> bs)) b"
    if "counted (count_list bs b) (cached_blocks s b) = Some c" for b c
    using that cache_okD(1) [OF assms(1), of b] demand_insert [OF fin new, of bs b]
    by (auto simp: counted_def split: if_splits option.splits)
  ultimately show ?thesis
    using assms(1)
    by (auto simp: cache_ok_def request_start_batch_def Let_def start_blocks add.commute
        intro: less_SucI)
qed

lemma entry_ok:
  assumes "cache_ok n s" "batches s' = batches s" "next_batch_id s' = next_batch_id s"
    and "\<And>b c. cached_blocks s' b = Some c \<Longrightarrow>
      \<exists>c'. cached_blocks s b = Some c' \<and> active_batch_count c' = active_batch_count c"
  shows "cache_ok n s'"
proof -
  have "0 < active_batch_count c \<and> active_batch_count c \<le> demand (batches s) b"
    if "cached_blocks s' b = Some c" for b c
    using assms(4) [OF that] cache_okD(1) [OF assms(1)] by fastforce
  with assms(1-3) show ?thesis by (simp add: cache_ok_def)
qed

lemma stop_ok: "cache_ok n s \<Longrightarrow> cache_ok n (request_stop_batch i s)"
  by (erule entry_ok) (auto simp: request_stop_batch_def stop_blocks split: option.splits if_splits)

lemma get_ok: "cache_ok n s \<Longrightarrow> cache_ok n (request_get_traces q b s)"
  by (erule entry_ok) (auto simp: request_get_traces_def
      split: option.splits cache_block_state.splits if_splits)

lemma started_ok: "cache_ok n s \<Longrightarrow> cache_ok n (blocking_started b s)"
  by (erule entry_ok) (auto simp: blocking_started_def
      split: option.splits cache_block_state.splits if_splits)

lemma finished_ok: "cache_ok n s \<Longrightarrow> cache_ok n (blocking_finished b r s)"
  by (erule entry_ok) (auto simp: blocking_finished_def
      split: option.splits cache_block_state.splits if_splits)

lemma expired_fields:
  assumes "cache_ok n s" "batches s i = Some bs"
  shows "cached_blocks (expired_batch i s) b = discounted (count_list bs b) (cached_blocks s b)"
    "batches (expired_batch i s) = (batches s)(i := None)"
    "next_batch_id (expired_batch i s) = next_batch_id s"
  using assms cache_okD(1) [OF assms(1)] by (simp_all add: expired_batch_def expire_blocks)

lemma expired_ok:
  assumes "cache_ok n s"
  shows "cache_ok n (expired_batch i s)"
proof (cases "batches s i")
  case None
  with assms show ?thesis by (simp add: expired_batch_def)
next
  case (Some bs)
  have "0 < active_batch_count c \<and> active_batch_count c \<le> demand ((batches s)(i := None)) b"
    if "discounted (count_list bs b) (cached_blocks s b) = Some c" for b c
    using that cache_okD(1) [OF assms, of b] demand_remove [OF cache_okD(2) [OF assms] Some, of b]
    by (auto simp: discounted_def split: option.splits if_splits)
  with assms show ?thesis by (auto simp: cache_ok_def expired_fields [OF assms Some])
qed

lemma handle_ok:
  assumes "cache_ok n s" and "n < 2 ^ 64"
  shows "cache_ok (n + starts m) (cache_handle m s)"
  using assms by (cases m) (simp_all add: start_ok stop_ok get_ok started_ok finished_ok expired_ok)

lemma handles_ok:
  "cache_ok n s \<Longrightarrow> n + length ms \<le> 2 ^ 64 \<Longrightarrow>
    \<exists>n'. cache_ok n' (fold cache_handle ms s)"
proof (induction ms arbitrary: n s)
  case (Cons m ms)
  then have "cache_ok (n + starts m) (cache_handle m s)" by (intro handle_ok) simp_all
  moreover have "n + starts m + length ms \<le> 2 ^ 64" using Cons.prems(2) by (cases m) simp_all
  ultimately show ?case using Cons.IH by simp
qed auto

lemma new_cache_ok: "cache_ok 0 new_cache"
  by (simp add: cache_ok_def new_cache_def)

section \<open>Runs in which no block is taken back\<close>

text \<open>A batch is stopped when tracing has started for its blocks, or others still ask for them.\<close>

fun harmless :: "cache_message \<Rightarrow> cache_task \<Rightarrow> bool" where
  "harmless (StopBatch i) s \<longleftrightarrow>
     (case batches s i of
        Some bs \<Rightarrow> list_all (\<lambda>b. case cached_blocks s b of Some c \<Rightarrow> \<not> unstarted c | None \<Rightarrow> True) bs
      | None \<Rightarrow> True)"
| "harmless _ s \<longleftrightarrow> True"

inductive orderly :: "nat \<Rightarrow> cache_task \<Rightarrow> bool" where
  orderly_new: "orderly 0 new_cache"
| orderly_handle: "orderly n s \<Longrightarrow> harmless m s \<Longrightarrow> n < 2 ^ 64 \<Longrightarrow>
    orderly (n + starts m) (cache_handle m s)"

definition exact :: "cache_task \<Rightarrow> bool" where
  "exact s \<longleftrightarrow> (\<forall>b. (case cached_blocks s b of None \<Rightarrow> 0 | Some c \<Rightarrow> active_batch_count c) =
     demand (batches s) b)"

lemma exact_same:
  assumes "exact s" "batches s' = batches s"
    and "\<And>b. map_option active_batch_count (cached_blocks s' b) =
      map_option active_batch_count (cached_blocks s b)"
  shows "exact s'"
proof -
  have "(case cached_blocks s' b of None \<Rightarrow> 0 | Some c \<Rightarrow> active_batch_count c) =
      (case cached_blocks s b of None \<Rightarrow> 0 | Some c \<Rightarrow> active_batch_count c)" for b
    using assms(3) [of b] by (auto split: option.splits)
  with assms(1,2) show ?thesis by (simp add: exact_def)
qed

lemma handle_exact:
  assumes "cache_ok n s" "exact s" "harmless m s" "n < 2 ^ 64"
  shows "exact (cache_handle m s)"
proof (cases m)
  case (StartBatch q bs)
  have new: "batches s (next_batch_id s) = None" and fin: "finite (dom (batches s))"
    using cache_okD(2,3) [OF assms(1)] assms(4) by auto
  show ?thesis
    unfolding exact_def
  proof
    fix b
    have "(case cached_blocks s b of None \<Rightarrow> 0 | Some c \<Rightarrow> active_batch_count c) = demand (batches s) b"
      using assms(2) by (simp add: exact_def)
    then show "(case cached_blocks (cache_handle m s) b of None \<Rightarrow> 0
        | Some c \<Rightarrow> active_batch_count c) = demand (batches (cache_handle m s)) b"
      using StartBatch demand_insert [OF fin new, of bs b]
      by (auto simp: request_start_batch_def Let_def start_blocks counted_def split: option.splits)
  qed
next
  case (Expired i)
  show ?thesis
  proof (cases "batches s i")
    case None
    with Expired assms(2) show ?thesis by (simp add: expired_batch_def)
  next
    case (Some bs)
    show ?thesis
      unfolding exact_def
    proof
      fix b
      have "(case cached_blocks s b of None \<Rightarrow> 0 | Some c \<Rightarrow> active_batch_count c) = demand (batches s) b"
        using assms(2) by (simp add: exact_def)
      then show "(case cached_blocks (cache_handle m s) b of None \<Rightarrow> 0
          | Some c \<Rightarrow> active_batch_count c) = demand (batches (cache_handle m s)) b"
        using Expired demand_remove [OF cache_okD(2) [OF assms(1)] Some, of b]
        by (auto simp: expired_fields [OF assms(1) Some] discounted_def split: option.splits)
    qed
  qed
next
  case (StopBatch i)
  have "cached_blocks (request_stop_batch i s) b = cached_blocks s b" for b
    using assms(3) StopBatch
    by (auto simp: request_stop_batch_def stop_blocks list_all_iff split: option.splits)
  moreover have "batches (request_stop_batch i s) = batches s"
    by (simp add: request_stop_batch_def stop_blocks split: option.splits)
  ultimately show ?thesis using assms(2) StopBatch by (simp add: exact_def)
next
  case (GetTraces q b)
  from assms(2) show ?thesis
    by (rule exact_same)
      (auto simp: GetTraces request_get_traces_def split: option.splits cache_block_state.splits)
next
  case (Started b)
  from assms(2) show ?thesis
    by (rule exact_same)
      (auto simp: Started blocking_started_def split: option.splits cache_block_state.splits)
next
  case (Finished b r)
  from assms(2) show ?thesis
    by (rule exact_same)
      (auto simp: Finished blocking_finished_def split: option.splits cache_block_state.splits)
qed

lemma orderly_exact: "orderly n s \<Longrightarrow> cache_ok n s \<and> exact s"
proof (induction rule: orderly.induct)
  case orderly_new
  show ?case using new_cache_ok by (simp add: exact_def new_cache_def demand_def)
next
  case (orderly_handle n s m)
  then show ?case using handle_ok handle_exact by blast
qed

end
