(* ===== verification/Trace_Filter.thy ===== *)
theory Trace_Filter
  imports Trace_Cache Call_Formats
begin

text \<open>
  The requests of the trace RPC (\<open>client/rpc/trace\<close>) and the debug RPC (\<open>client/rpc/debug\<close>):
  which blocks \<open>trace_filter\<close> asks for and which of their traces it returns, what is filled in
  where a block is traced, how the traces of a block are matched with its transactions. The blocks
  of the chain, and the results of the cache, are parameters.
\<close>

section \<open>Requests\<close>

datatype RequestBlockTag = Earliest | Latest | Pending

datatype RequestBlockId = Number u32 | Hash H256 | Tag RequestBlockTag

record FilterRequest =
  from_block :: "RequestBlockId option"
  to_block :: "RequestBlockId option"
  from_address :: "H160 list option"
  to_address :: "H160 list option"
  after :: "u32 option"
  request_count :: "u32 option"

text \<open>What the client knows of the chain: its best block, and the hash of a height.\<close>

record chain_client =
  best_number :: u32
  hash_of :: "u32 \<Rightarrow> unit + H256 option"

fun block_id :: "chain_client \<Rightarrow> RequestBlockId option \<Rightarrow> trace_error + u32" where
  "block_id client (Some (Number n)) = Inr n"
| "block_id client None = Inr (best_number client)"
| "block_id client (Some (Tag Latest)) = Inr (best_number client)"
| "block_id client (Some (Tag Earliest)) = Inr 0"
| "block_id client (Some (Tag Pending)) = Inl PendingNotSupported"
| "block_id client (Some (Hash _)) = Inl BlockHashNotSupported"

text \<open>The hashes of the heights, without that of the genesis block.\<close>

fun hashes_of :: "chain_client \<Rightarrow> u32 list \<Rightarrow> trace_error + H256 list" where
  "hashes_of client [] = Inr []"
| "hashes_of client (n # ns) =
     (if n = 0 then hashes_of client ns
      else case hash_of client n of
        Inl _ \<Rightarrow> Inl (HeaderFailed n)
      | Inr None \<Rightarrow> Inl (NoSuchBlock n)
      | Inr (Some h) \<Rightarrow>
          (case hashes_of client ns of Inl e \<Rightarrow> Inl e | Inr hs \<Rightarrow> Inr (h # hs)))"

definition heights :: "u32 \<Rightarrow> u32 \<Rightarrow> u32 list" where
  "heights a b = map word_of_nat [unat a..<Suc (unat b)]"

section \<open>Filtering\<close>

definition addresses :: "H160 list option \<Rightarrow> H160 list" where
  "addresses a = (case a of None \<Rightarrow> [] | Some as \<Rightarrow> as)"

definition matches_addresses :: "H160 list \<Rightarrow> H160 list \<Rightarrow> TransactionTrace \<Rightarrow> bool" where
  "matches_addresses from_addresses to_addresses trace \<longleftrightarrow>
     (case tt_action trace of
        ActionCall _ from _ _ to _ \<Rightarrow>
          (from_addresses = [] \<or> from \<in> set from_addresses)
          \<and> (to_addresses = [] \<or> to \<in> set to_addresses)
      | ActionCreate _ from _ _ _ \<Rightarrow>
          (from_addresses = [] \<or> from \<in> set from_addresses) \<and> to_addresses = []
      | ActionSuicide address _ _ \<Rightarrow>
          (from_addresses = [] \<or> address \<in> set from_addresses) \<and> to_addresses = [])"

text \<open>
  The loop over the blocks: the amount is how many traces there are past \<open>after\<close>, negative before.
\<close>

fun fetch_loop ::
  "(H256 \<Rightarrow> traces_result) \<Rightarrow> (TransactionTrace \<Rightarrow> bool) \<Rightarrow> nat \<Rightarrow> trace_error option
    \<Rightarrow> H256 list \<Rightarrow> int \<Rightarrow> TransactionTrace list \<Rightarrow> traces_result" where
  "fetch_loop get wanted limit over [] traces_amount traces = Inr traces"
| "fetch_loop get wanted limit over (b # bs) traces_amount traces =
     (case get b of
        Inl e \<Rightarrow> Inl e
      | Inr all \<Rightarrow>
          let block_traces = filter wanted all;
              traces_amount = traces_amount + int (length block_traces) in
          if traces_amount > 0 then
            let amount = nat traces_amount;
                block_traces = (if amount < length block_traces
                  then drop (length block_traces - amount) block_traces else block_traces);
                traces = traces @ block_traces in
            if limit \<le> amount then
              (case over of Some e \<Rightarrow> Inl e | None \<Rightarrow> Inr (take limit traces))
            else fetch_loop get wanted limit over bs traces_amount traces
          else fetch_loop get wanted limit over bs traces_amount traces)"

definition fetch_traces ::
  "(H256 \<Rightarrow> traces_result) \<Rightarrow> u32 \<Rightarrow> FilterRequest \<Rightarrow> H256 list \<Rightarrow> nat \<Rightarrow> traces_result" where
  "fetch_traces get max_count req block_hashes limit =
     fetch_loop get (matches_addresses (addresses (from_address req)) (addresses (to_address req)))
       limit (if request_count req = None then Some (TooManyTraces max_count) else None)
       block_hashes (- int (case after req of None \<Rightarrow> 0 | Some a \<Rightarrow> unat a)) []"

text \<open>\<open>trace_filter\<close>; a batch is started for the blocks and stopped when the traces are fetched.\<close>

definition rpc_filter ::
  "chain_client \<Rightarrow> (H256 \<Rightarrow> traces_result) \<Rightarrow> u32 \<Rightarrow> FilterRequest \<Rightarrow> traces_result" where
  "rpc_filter client get max_count req =
     (case block_id client (from_block req) of Inl e \<Rightarrow> Inl e
      | Inr first \<Rightarrow>
     (case block_id client (to_block req) of Inl e \<Rightarrow> Inl e
      | Inr final \<Rightarrow>
     (let limit = (case request_count req of None \<Rightarrow> max_count | Some c \<Rightarrow> c) in
      if max_count < limit then Inl (CountTooLarge limit max_count)
      else case hashes_of client (heights first final) of Inl e \<Rightarrow> Inl e
      | Inr hs \<Rightarrow> fetch_traces get max_count req hs (unat limit))))"

section \<open>Tracing a block\<close>

definition known_trace ::
  "H256 \<Rightarrow> u32 \<Rightarrow> (u32 \<rightharpoonup> H256) \<Rightarrow> TransactionTrace \<Rightarrow> TransactionTrace option" where
  "known_trace eth_block_hash height by_index trace =
     map_option (\<lambda>transaction_hash.
         trace\<lparr>tt_block_hash := eth_block_hash, tt_block_number := height,
               tt_transaction_hash := transaction_hash,
               tt_output := (case tt_output trace of
                  OutputError e \<Rightarrow>
                    if e = ascii ''execution reverted'' then OutputError (ascii ''Reverted'')
                    else OutputError e
                | OutputResult r \<Rightarrow> OutputResult r)\<rparr>)
       (by_index (tt_transaction_position trace))"

text \<open>The traces that the cache stores, of the events of the block.\<close>

definition cache_block_traces ::
  "H256 \<Rightarrow> u32 \<Rightarrow> (u32 \<rightharpoonup> H256) \<Rightarrow> tracing_event list \<Rightarrow> TransactionTrace list option" where
  "cache_block_traces eth_block_hash height by_index es =
     map_option (List.map_filter (known_trace eth_block_hash height by_index))
       (trace_filter_format (listen es default_listener))"

section \<open>The debug RPC\<close>

record TraceParams =
  param_disable_storage :: "bool option"
  param_disable_memory :: "bool option"
  param_disable_stack :: "bool option"
  tracer :: "byte list option"
  tracer_config :: "TraceCallConfig option"

datatype TracerInput = NoTracer | BlockscoutTracer | CallTracerTracer

text \<open>The tracers are known by the hash of their script; \<open>twox_128\<close> is a parameter.\<close>

definition BLOCKSCOUT_JS_CODE_HASH :: "byte list" where
  "BLOCKSCOUT_JS_CODE_HASH = [0x94, 0xd9, 0xf0, 0x87, 0x96, 0xf9, 0x1e, 0xb1,
     0x3a, 0x2e, 0x82, 0xa6, 0x06, 0x68, 0x82, 0xf7]"

definition BLOCKSCOUT_JS_CODE_HASH_V2 :: "byte list" where
  "BLOCKSCOUT_JS_CODE_HASH_V2 = [0x89, 0xdb, 0x13, 0x69, 0x46, 0x75, 0x69, 0x29,
     0x51, 0x67, 0x3a, 0x1e, 0x6e, 0x18, 0xff, 0x02]"

definition is_set :: "bool option \<Rightarrow> bool" where
  "is_set b = (case b of None \<Rightarrow> False | Some b \<Rightarrow> b)"

text \<open>An error \<open>Inl\<close> carries the hash of an unknown tracer.\<close>

definition handle_params :: "(byte list \<Rightarrow> byte list) \<Rightarrow> TraceParams option
    \<Rightarrow> byte list + TracerInput \<times> TraceType \<times> TraceCallConfig option" where
  "handle_params twox_128 params =
     (case params of
        None \<Rightarrow> Inr (NoTracer, RawType False False False, None)
      | Some ps \<Rightarrow>
          (case tracer ps of
             Some name \<Rightarrow>
               let h = twox_128 name in
               if h = BLOCKSCOUT_JS_CODE_HASH \<or> h = BLOCKSCOUT_JS_CODE_HASH_V2
               then Inr (BlockscoutTracer, CallListType, tracer_config ps)
               else if name = ascii ''callTracer''
               then Inr (CallTracerTracer, CallListType, tracer_config ps)
               else Inl h
           | None \<Rightarrow>
               Inr (NoTracer, RawType (is_set (param_disable_storage ps))
                 (is_set (param_disable_memory ps)) (is_set (param_disable_stack ps)),
                 tracer_config ps)))"

text \<open>What the status of an Ethereum transaction says of it.\<close>

record EthTxPartial =
  eth_transaction_hash :: H256
  eth_from :: H160
  eth_to :: "H160 option"

definition zero_address :: H160 where
  "zero_address = replicate 20 0"

fun trace_parties :: "single_trace \<Rightarrow> H160 \<times> H160 option" where
  "trace_parties (CallListNested (CallTracer from _ _ _ inner _)) =
     (from, case inner of CallTracerCallInner _ to _ _ _ _ \<Rightarrow> Some to | _ \<Rightarrow> None)"
| "trace_parties _ = (zero_address, None)"

definition belongs_to :: "BlockTransactionTrace \<Rightarrow> EthTxPartial \<Rightarrow> bool" where
  "belongs_to trace tx \<longleftrightarrow> trace_parties (block_result trace) = (eth_from tx, eth_to tx)"

text \<open>The traces that match a transaction; the offset counts those that do not.\<close>

fun match_traces ::
  "(u32 \<rightharpoonup> EthTxPartial) \<Rightarrow> u32 \<Rightarrow> BlockTransactionTrace list \<Rightarrow> BlockTransactionTrace list" where
  "match_traces txs tx_position_offset [] = []"
| "match_traces txs tx_position_offset (trace # traces) =
     (case txs (block_tx_position trace - tx_position_offset) of
        Some tx \<Rightarrow>
          if belongs_to trace tx
          then trace\<lparr>block_tx_hash := eth_transaction_hash tx\<rparr>
                 # match_traces txs tx_position_offset traces
          else match_traces txs (tx_position_offset + 1) traces
      | None \<Rightarrow> match_traces txs (tx_position_offset + 1) traces)"

text \<open>
  The fees of a \<open>debug_traceCall\<close>: a legacy price stands for both, zero for none; the tip must not
  exceed the maximum.
\<close>

definition nonzero :: "U256 option \<Rightarrow> U256 option" where
  "nonzero a = (case a of None \<Rightarrow> None | Some v \<Rightarrow> if v = 0 then None else Some v)"

definition call_fees :: "U256 option \<Rightarrow> U256 option \<Rightarrow> U256 option
    \<Rightarrow> (U256 option \<times> U256 option) option" where
  "call_fees gas_price max_fee_per_gas max_priority_fee_per_gas =
     (if max_fee_per_gas = None \<and> max_priority_fee_per_gas = None
      then Some (nonzero gas_price, nonzero gas_price)
      else let max_fee = nonzero max_fee_per_gas in
        (case max_priority_fee_per_gas of
           Some p \<Rightarrow>
             if (case max_fee of None \<Rightarrow> 0 | Some m \<Rightarrow> m) < p then None
             else Some (max_fee, max_priority_fee_per_gas)
         | None \<Rightarrow> Some (max_fee, max_priority_fee_per_gas)))"

end
