(* ===== verification/Trace_Rpc_Properties.thy ===== *)
theory Trace_Rpc_Properties
  imports Trace_Filter Tracing_Properties
begin

text \<open>
  Properties of the trace RPC: paging, the cache and what may go missing from it, the traces of a
  block with their transactions.
\<close>

section \<open>Paging\<close>

definition page :: "trace_error option \<Rightarrow> nat \<Rightarrow> TransactionTrace list \<Rightarrow> traces_result" where
  "page over n all =
     (case over of
        None \<Rightarrow> Inr (take n all)
      | Some e \<Rightarrow> if all \<noteq> [] \<and> n \<le> length all then Inl e else Inr all)"

lemma page_prefix:
  "xs \<noteq> [] \<Longrightarrow> n \<le> length xs \<Longrightarrow>
    page over n (xs @ ys) = (case over of Some e \<Rightarrow> Inl e | None \<Rightarrow> Inr (take n xs))"
  by (simp add: page_def split: option.splits)

lemma fetch_loop_page:
  "\<forall>b \<in> set bs. get b = Inr (tr b) \<Longrightarrow> length seen \<le> k \<or> length seen - k < n \<Longrightarrow>
    fetch_loop get wanted n over bs (int (length seen) - int k) (drop k seen) =
    page over n (drop k (seen @ filter wanted (concat (map tr bs))))"
proof (induction bs arbitrary: seen)
  case Nil
  then show ?case by (auto simp: page_def split: option.splits)
next
  case (Cons b bs)
  define block where "block = filter wanted (tr b)"
  define now where "now = length seen + length block"
  have sum: "int (length seen) - int k + int (length block) = int now - int k"
    by (simp add: now_def)
  let ?t = "drop k seen @ (if now - k < length block
    then drop (length block - (now - k)) block else block)"
  have step: "fetch_loop get wanted n over (b # bs) (int (length seen) - int k) (drop k seen) =
    (if k < now
     then if n \<le> now - k then (case over of Some e \<Rightarrow> Inl e | None \<Rightarrow> Inr (take n ?t))
       else fetch_loop get wanted n over bs (int now - int k) ?t
     else fetch_loop get wanted n over bs (int now - int k) (drop k seen))"
  proof (cases "k < now")
    case True
    then have "nat (int now - int k) = now - k" "0 < int now - int k" by simp_all
    with True Cons.prems(1) show ?thesis by (simp add: block_def [symmetric] sum Let_def)
  next
    case False
    with Cons.prems(1) show ?thesis by (simp add: block_def [symmetric] sum Let_def)
  qed
  have traces: "?t = drop k (seen @ block)" if "k < now"
    using that by (auto simp: now_def)
  have split: "filter wanted (concat (map tr (b # bs))) =
      block @ filter wanted (concat (map tr bs))"
    by (simp add: block_def)
  have rest: "fetch_loop get wanted n over bs (int now - int k) (drop k (seen @ block)) =
      page over n (drop k ((seen @ block) @ filter wanted (concat (map tr bs))))"
    if "now \<le> k \<or> now - k < n"
    using Cons.IH [of "seen @ block"] Cons.prems(1) that by (simp add: now_def)
  show ?case
  proof (cases "k < now")
    case True
    have len: "length (drop k (seen @ block)) = now - k" by (simp add: now_def)
    with True have ne: "drop k (seen @ block) \<noteq> []" by auto
    show ?thesis
    proof (cases "n \<le> now - k")
      case past: True
      have "drop k (seen @ block @ filter wanted (concat (map tr bs))) =
          drop k (seen @ block) @ filter wanted (concat (map tr bs))"
        using True by (simp add: now_def)
      then show ?thesis
        unfolding step split traces [OF True]
        using page_prefix [OF ne, of n over] len True past by simp
    next
      case False
      then show ?thesis
        unfolding step split traces [OF True] using rest True by simp
    qed
  next
    case False
    then have "drop k (seen @ block) = drop k seen" by (simp add: now_def)
    then show ?thesis unfolding step split using rest False by simp
  qed
qed

text \<open>C35: \<open>trace_filter\<close> pages as it says: of the traces of all blocks asked for, in order, that
  match the addresses it skips the first \<open>after\<close> and returns at most \<open>count\<close>, although it stops
  asking for blocks as soon as it has them; a count over the maximum is refused. Without a count all
  that are left are returned, or the request is refused if they go over the maximum. Without a
  count, their number is not exactly the maximum here.\<close>

theorem trace_filter_pages:
  defines "matching \<equiv> \<lambda>req ts. drop (case after req of None \<Rightarrow> 0 | Some a \<Rightarrow> unat a)
      (filter (matches_addresses (addresses (from_address req)) (addresses (to_address req))) ts)"
    and "limit \<equiv> \<lambda>max_count req. case request_count req of None \<Rightarrow> max_count | Some c \<Rightarrow> c"
  assumes "block_id client (from_block req) = Inr a" and "block_id client (to_block req) = Inr z"
    and "hashes_of client (heights a z) = Inr hs" and "\<forall>b \<in> set hs. get b = Inr (tr b)"
    and "request_count req = None \<longrightarrow> length (matching req (concat (map tr hs))) \<noteq> unat max_count"
  shows "rpc_filter client get max_count req =
    (if max_count < limit max_count req then Inl (CountTooLarge (limit max_count req) max_count)
     else if request_count req = None \<and> unat max_count < length (matching req (concat (map tr hs)))
       then Inl (TooManyTraces max_count)
     else Inr (take (unat (limit max_count req)) (matching req (concat (map tr hs)))))"
proof -
  have "fetch_traces get max_count req hs n =
      page (if request_count req = None then Some (TooManyTraces max_count) else None) n
        (matching req (concat (map tr hs)))" for n
    using fetch_loop_page [OF assms(6), of "[]"] by (simp add: fetch_traces_def matching_def)
  then show ?thesis
    using assms(3-5,7) by (cases "request_count req")
      (auto simp: rpc_filter_def limit_def page_def Let_def)
qed

definition sample_trace :: "u32 \<Rightarrow> H160 \<Rightarrow> TransactionTrace" where
  "sample_trace i to = transaction_trace i (destroy_call [] to [0] 0)"

definition sample_client :: chain_client where
  "sample_client = \<lparr>best_number = 8, hash_of = (\<lambda>n. Inr (Some (ucast n)))\<rparr>"

definition sample_filter :: FilterRequest where
  "sample_filter = \<lparr>from_block = Some (Number 7), to_block = None, from_address = Some [[1]],
     to_address = None, after = Some 1, request_count = Some 2\<rparr>"

theorem trace_filter_pages_witness:
  "rpc_filter sample_client (\<lambda>b. Inr [sample_trace 0 [1], sample_trace 1 [2], sample_trace 2 [1]]) 10
      sample_filter = Inr [sample_trace 2 [1], sample_trace 0 [1]]
   \<and> rpc_filter sample_client (\<lambda>b. Inr [sample_trace 0 [1], sample_trace 1 [2], sample_trace 2 [1]]) 2
      (sample_filter\<lparr>request_count := None\<rparr>) = Inl (TooManyTraces 2)"
proof -
  let ?tr = "\<lambda>_ :: H256. [sample_trace 0 [1], sample_trace 1 [2], sample_trace 2 [1]]"
  have ends: "block_id sample_client (from_block sample_filter) = Inr 7"
    "block_id sample_client (to_block sample_filter) = Inr 8"
    by (simp_all add: sample_client_def sample_filter_def)
  have hashes: "hashes_of sample_client (heights 7 8) = Inr [7, 8]"
    by (simp add: heights_def sample_client_def upt_rec)
  note found = trace_filter_pages [of sample_client _ 7 8 "[7, 8]" "\<lambda>b. Inr (?tr b)" ?tr]
  show ?thesis
    using found [of sample_filter 10] found [of "sample_filter\<lparr>request_count := None\<rparr>" 2] ends hashes
    by (simp add: sample_filter_def addresses_def matches_addresses_def sample_trace_def transaction_trace_def
        destroy_call_def)
qed

section \<open>The cache\<close>

text \<open>C37: Whatever messages the cache gets and in whatever order, an entry is counted for some
  batch that has not expired, and never for more than ask for it: the count does not underflow,
  and when all batches have expired the cache is empty.\<close>

theorem cache_entries_have_batches:
  assumes "length ms \<le> 2 ^ 64" and "s = fold cache_handle ms new_cache"
  shows "(\<forall>b c. cached_blocks s b = Some c \<longrightarrow>
      0 < active_batch_count c \<and> active_batch_count c \<le> demand (batches s) b)
    \<and> (batches s = Map.empty \<longrightarrow> cached_blocks s = Map.empty)"
proof -
  from handles_ok [OF new_cache_ok, of ms] assms obtain n where ok: "cache_ok n s" by auto
  have none: "cached_blocks s b = None" if "batches s = Map.empty" for b
    using cache_okD(1) [OF ok, of b] that by (cases "cached_blocks s b") (auto simp: demand_def)
  with cache_okD(1) [OF ok] show ?thesis by auto
qed

definition sample_messages :: "H256 \<Rightarrow> cache_message list" where
  "sample_messages b = [StartBatch 0 [b], StopBatch 0, StartBatch 1 [b], GetTraces 2 b, Expired 0]"

theorem cache_entries_have_batches_witness:
  "batches (fold cache_handle (sample_messages 5 @ [Expired 1]) new_cache) = Map.empty
    \<and> cached_blocks (fold cache_handle (sample_messages 5 @ [Expired 1]) new_cache) = Map.empty"
proof -
  have "batches (fold cache_handle (sample_messages 5 @ [Expired 1]) new_cache) = Map.empty"
    by (simp add: sample_messages_def new_cache_def request_start_batch_def start_block_def
        request_stop_batch_def stop_block_def unstarted_def remove_block_def request_get_traces_def
        expired_batch_def expire_block_def Let_def waiting_channels_def)
  with cache_entries_have_batches [of "sample_messages 5 @ [Expired 1]", OF _ refl] show ?thesis
    by (simp add: sample_messages_def)
qed

text \<open>C36: As long as batches are stopped only when the tracing of their blocks has started, or
  other batches ask for them, every block of a batch that has not expired is in the cache, so
  that a request for its traces is answered at once or put on the list of those that wait.\<close>

theorem orderly_requests_are_served:
  assumes "orderly n s" and "batches s i = Some bs" and "b \<in> set bs"
  shows "\<exists>c. cached_blocks s b = Some c \<and>
    (case block_state c of
       Cached r \<Rightarrow> trace_replies (request_get_traces q b s) = trace_replies s @ [(q, r)]
     | Pooled started waiting \<Rightarrow> cached_blocks (request_get_traces q b s) b =
         Some (c\<lparr>block_state := Pooled started (waiting @ [q])\<rparr>))"
proof -
  from orderly_exact [OF assms(1)] have ok: "cache_ok n s" and "exact s" by auto
  have "0 < demand (batches s) b" using demand_member [OF cache_okD(2) [OF ok] assms(2,3)] .
  with \<open>exact s\<close> obtain c where "cached_blocks s b = Some c"
    by (cases "cached_blocks s b") (simp_all add: exact_def, metis less_numeral_extra(3) option.simps(4))
  then show ?thesis
    by (auto simp: request_get_traces_def split: cache_block_state.splits)
qed

theorem orderly_requests_are_served_witness:
  "\<exists>n s c. orderly n s \<and> batches s 0 = Some [5] \<and> cached_blocks s 5 = Some c"
proof -
  have start: "orderly (0 + starts (StartBatch 0 [5])) (cache_handle (StartBatch 0 [5]) new_cache)"
    by (rule orderly_handle [OF orderly_new]) simp_all
  have "batches (cache_handle (StartBatch 0 [5]) new_cache) 0 = Some [5]"
    by (simp add: request_start_batch_def new_cache_def start_block_def Let_def)
  with start orderly_requests_are_served [OF start this, of 5 1] show ?thesis by auto
qed

text \<open>The count of an entry does not know which batches it counts. A batch that is stopped
  before the tracing of a block has started takes the block out of the cache; if another batch
  asks for it again, the expiration of the first one is counted against that batch: the block
  disappears under a batch that is active, and the request that waits for it is dropped.\<close>

theorem expired_batch_drops_active_block:
  "let s = fold cache_handle
      [StartBatch 0 [b], StopBatch 0, StartBatch 1 [b], GetTraces 2 b, Expired 0] new_cache in
    batches s 1 = Some [b] \<and> cached_blocks s b = None \<and> dropped s = [2] \<and> trace_replies s = []"
  by (simp add: new_cache_def request_start_batch_def start_block_def request_stop_batch_def
      stop_block_def unstarted_def remove_block_def request_get_traces_def expired_batch_def
      expire_block_def Let_def waiting_channels_def)

section \<open>The traces of a block\<close>

definition reported :: "H256 \<Rightarrow> u32 \<Rightarrow> H256 \<Rightarrow> u32 \<Rightarrow> BlockscoutCall \<Rightarrow> TransactionTrace" where
  "reported eth_block_hash height h i c =
     (let trace = transaction_trace i c in
      trace\<lparr>tt_block_hash := eth_block_hash, tt_block_number := height, tt_transaction_hash := h,
            tt_output := (if tt_output trace = OutputError (ascii ''execution reverted'')
              then OutputError (ascii ''Reverted'') else tt_output trace)\<rparr>)"

fun block_report ::
  "H256 \<Rightarrow> u32 \<Rightarrow> (nat \<Rightarrow> H256) \<Rightarrow> nat \<Rightarrow> nat \<Rightarrow> txn option list \<Rightarrow> TransactionTrace list" where
  "block_report eh ht hs n j [] = []"
| "block_report eh ht hs n j (None # xs) = block_report eh ht hs n (Suc j) xs"
| "block_report eh ht hs n j (Some x # xs) =
     map (reported eh ht (hs j) (word_of_nat j)) (preorder (indexed_tree False n x))
       @ block_report eh ht hs (n + txn_size x) (Suc j) xs"

lemma known_trace_reported:
  assumes "by_index i = Some h"
  shows "known_trace eh ht by_index (transaction_trace i c) = Some (reported eh ht h i c)"
proof -
  have "tt_transaction_position (transaction_trace i c) = i"
    by (simp add: transaction_trace_def split: prod.splits)
  with assms show ?thesis
    by (simp add: known_trace_def reported_def Let_def split: TransactionTraceOutput.splits)
qed

lemma map_filter_append: "List.map_filter f (xs @ ys) = List.map_filter f xs @ List.map_filter f ys"
  by (simp add: List.map_filter_def)

lemma map_filter_Some: "(\<And>x. x \<in> set xs \<Longrightarrow> f x = Some (g x)) \<Longrightarrow> List.map_filter f xs = map g xs"
  by (induction xs) (simp_all add: List.map_filter_def)

lemma known_block_report:
  "(\<And>i. i < length xs \<Longrightarrow> by_index (word_of_nat (j + i)) = Some (hs (j + i))) \<Longrightarrow>
    List.map_filter (known_trace eh ht by_index)
      (trace_filter_traces (word_of_nat j) (block_calls False n xs)) = block_report eh ht hs n j xs"
proof (induction eh ht hs n j xs rule: block_report.induct)
  case (1 eh ht hs n j)
  then show ?case by (simp add: List.map_filter_def)
next
  case (2 eh ht hs n j xs)
  have "\<And>i. i < length xs \<Longrightarrow> by_index (word_of_nat (Suc j + i)) = Some (hs (Suc j + i))"
    using 2(2) [of "Suc i" for i] by simp
  from 2(1) [OF this] show ?case by (simp add: add.commute)
next
  case (3 eh ht hs n j x xs)
  have "\<And>i. i < length xs \<Longrightarrow> by_index (word_of_nat (Suc j + i)) = Some (hs (Suc j + i))"
    using 3(2) [of "Suc i" for i] by simp
  note rest = 3(1) [OF this]
  have "by_index (word_of_nat j) = Some (hs j)" using 3(2) [of 0] by simp
  then have "List.map_filter (known_trace eh ht by_index)
      (map (transaction_trace (word_of_nat j)) cs) = map (reported eh ht (hs j) (word_of_nat j)) cs" for cs
    by (induction cs) (simp_all add: List.map_filter_def known_trace_reported)
  with rest show ?case by (simp add: map_filter_append number_calls add.commute)
qed

text \<open>Of a block whose first Ethereum transaction reaches the EVM the cache stores the calls of
  all its transactions in order, each with the hash of its transaction and its position, and with
  the block it is in; a revert is reported as such, other errors keep their message.\<close>

theorem block_traces_reported:
  assumes "block_ok xs" and "xs \<noteq> []" and "hd xs \<noteq> None" and "block_size xs \<le> 2 ^ 32"
    and "\<And>j. j < length xs \<Longrightarrow> by_index (word_of_nat j) = Some (hs j)"
  shows "cache_block_traces eh ht by_index (block_events xs) = Some (block_report eh ht hs 0 0 xs)"
proof -
  obtain x ys where xs: "xs = Some x # ys" using assms(2,3) by (cases xs) auto
  have "default_listener = new_listener False"
    by (simp add: new_listener_def default_listener_def)
  moreover from block_listen_all [of "Some x" ys False] assms(1,4) xs
  have "ls_entries (listen (block_events xs) (new_listener False)) = block_calls False 0 xs" by auto
  ultimately have "cache_block_traces eh ht by_index (block_events xs) = Some
      (List.map_filter (known_trace eh ht by_index)
        (trace_filter_traces (word_of_nat 0) (block_calls False 0 xs)))"
    by (simp add: cache_block_traces_def trace_filter_format_def)
  with known_block_report [of xs by_index 0 hs] assms(5) show ?thesis by simp
qed

theorem block_traces_reported_witness:
  "cache_block_traces 1 2 (\<lambda>i. Some (ucast i)) (block_events [Some sample_txn, None, Some sample_create]) =
    Some (block_report 1 2 word_of_nat 0 0 [Some sample_txn, None, Some sample_create])"
proof (rule block_traces_reported)
  fix j
  assume "j < length [Some sample_txn, None, Some sample_create]"
  then have "j = 0 \<or> j = 1 \<or> j = 2" by auto
  then show "Some (ucast (word_of_nat j :: u32)) = Some (word_of_nat j :: H256)" by auto
qed (simp_all add: sample_block)

section \<open>Matching\<close>

text \<open>
  The traces of a block of which some (those marked with \<open>False\<close>) have no transaction in the
  Ethereum block.
\<close>

fun fits :: "EthTxPartial list \<Rightarrow> (bool \<times> BlockTransactionTrace) list \<Rightarrow> bool" where
  "fits txs [] \<longleftrightarrow> txs = []"
| "fits txs ((True, t) # ts) \<longleftrightarrow>
     (case txs of [] \<Rightarrow> False | tx # rest \<Rightarrow> belongs_to t tx \<and> fits rest ts)"
| "fits txs ((False, t) # ts) \<longleftrightarrow>
     (case txs of [] \<Rightarrow> True | tx # _ \<Rightarrow> \<not> belongs_to t tx) \<and> fits txs ts"

fun matched :: "EthTxPartial list \<Rightarrow> (bool \<times> BlockTransactionTrace) list \<Rightarrow> BlockTransactionTrace list" where
  "matched (tx # txs) ((True, t) # ts) =
     t\<lparr>block_tx_hash := eth_transaction_hash tx\<rparr> # matched txs ts"
| "matched txs ((False, t) # ts) = matched txs ts"
| "matched _ _ = []"

definition indexed :: "EthTxPartial list \<Rightarrow> u32 \<rightharpoonup> EthTxPartial" where
  "indexed txs i = (if unat i < length txs then Some (txs ! unat i) else None)"

lemma match_traces_matched:
  "fits rest ts \<Longrightarrow> txs = done' @ rest \<Longrightarrow> unat off + length done' + length ts < 2 ^ 32 \<Longrightarrow>
    (\<And>i. i < length ts \<Longrightarrow>
      block_tx_position (snd (ts ! i)) = word_of_nat (unat off + length done' + i)) \<Longrightarrow>
    match_traces (indexed txs) off (map snd ts) = matched rest ts"
proof (induction rest ts arbitrary: done' off rule: fits.induct)
  case (1 rest)
  then show ?case by simp
next
  case (2 rest t ts)
  then obtain tx rest' where rest: "rest = tx # rest'" "belongs_to t tx" "fits rest' ts"
    by (auto split: list.splits)
  have "block_tx_position t - off = word_of_nat (length done')"
    using "2.prems"(4) [of 0] by simp
  then have "indexed txs (block_tx_position t - off) = Some tx"
    using "2.prems"(2,3) rest(1) by (simp add: indexed_def unsigned_of_nat take_bit_nat_eq_self)
  moreover have "match_traces (indexed txs) off (map snd ts) = matched rest' ts"
  proof (rule "2.IH" [OF rest(1,3), of "done' @ [tx]"])
    fix i
    assume "i < length ts"
    then show "block_tx_position (snd (ts ! i)) = word_of_nat (unat off + length (done' @ [tx]) + i)"
      using "2.prems"(4) [of "Suc i"] by simp
  qed (use "2.prems"(2,3) rest(1) in simp_all)
  ultimately show ?case using rest(1,2) by simp
next
  case (3 rest t ts)
  have pos: "block_tx_position t - off = word_of_nat (length done')"
    using "3.prems"(4) [of 0] by simp
  have lost: "case indexed txs (block_tx_position t - off) of None \<Rightarrow> True | Some tx \<Rightarrow> \<not> belongs_to t tx"
    unfolding pos using "3.prems"(1-3)
    by (auto simp: indexed_def unsigned_of_nat take_bit_nat_eq_self split: list.splits)
  have off: "unat (off + 1) = Suc (unat off)"
    using "3.prems"(3) unat_add_lem [of off 1] by simp
  have "match_traces (indexed txs) (off + 1) (map snd ts) = matched rest ts"
  proof (rule "3.IH" [of done'])
    fix i
    assume "i < length ts"
    then show "block_tx_position (snd (ts ! i)) = word_of_nat (unat (off + 1) + length done' + i)"
      using "3.prems"(4) [of "Suc i"] off by simp
  qed (use "3.prems" off in simp_all)
  with lost show ?case by (auto split: option.splits)
qed

text \<open>Where a block has traces of transactions that are not in the Ethereum block, and each of
  these differs in sender or receiver from the transaction that comes next, the debug RPC leaves
  out exactly these and gives every other trace the hash of its transaction.\<close>

theorem foreign_traces_skipped:
  assumes "fits txs ts" and "length ts < 2 ^ 32"
    and "\<And>i. i < length ts \<Longrightarrow> block_tx_position (snd (ts ! i)) = word_of_nat i"
  shows "match_traces (indexed txs) 0 (map snd ts) = matched txs ts"
  using match_traces_matched [of txs ts txs "[]" 0] assms by simp

definition sample_nested :: "H160 \<Rightarrow> u32 \<Rightarrow> BlockTransactionTrace" where
  "sample_nested from i = \<lparr>block_tx_hash = 0,
     block_result = CallListNested (CallTracer from None 0 0 (CallTracerCreateInner [] [] None None None 0) []),
     block_tx_position = i\<rparr>"

theorem foreign_traces_skipped_witness:
  "map block_tx_hash (match_traces
      (indexed [\<lparr>eth_transaction_hash = 11, eth_from = [1], eth_to = None\<rparr>,
        \<lparr>eth_transaction_hash = 12, eth_from = [2], eth_to = None\<rparr>]) 0
      [sample_nested [1] 0, sample_nested [3] 1, sample_nested [2] 2]) = [11, 12]"
proof -
  let ?txs = "[\<lparr>eth_transaction_hash = 11, eth_from = [1], eth_to = None\<rparr>,
    \<lparr>eth_transaction_hash = 12, eth_from = [2], eth_to = None\<rparr> :: EthTxPartial]"
  let ?ts = "[(True, sample_nested [1] 0), (False, sample_nested [3] 1), (True, sample_nested [2] 2)]"
  have "match_traces (indexed ?txs) 0 (map snd ?ts) = matched ?txs ?ts"
  proof (rule foreign_traces_skipped)
    fix i
    assume "i < length ?ts"
    then have "i = 0 \<or> i = 1 \<or> i = 2" by auto
    then show "block_tx_position (snd (?ts ! i)) = word_of_nat i" by (auto simp: sample_nested_def)
  qed (simp_all add: belongs_to_def sample_nested_def)
  then show ?thesis by simp
qed

end
