(* ===== verification/Erc20_Bridge.thy ===== *)
theory Erc20_Bridge
  imports Foreign_Assets
begin

text \<open>
  pallet-erc20-xcm-bridge: ERC-20 tokens of any contract as assets of XCM. A withdrawal is only
  noted down, in a list that lives as long as the execution of a message; the transfer happens at
  the deposit, from the account the tokens were withdrawn from. The EVM runner and the types of
  XCM are parameters.
\<close>

section \<open>The origins of the tokens in the holding (\<open>xcm_holding_ext.rs\<close>)\<close>

datatype DrainError = DrainAssetNotFound | NotEnoughFounds | SplitError

type_synonym erc20_origins = "H160 \<rightharpoonup> (H160 \<times> U256) list"

text \<open>The loop of \<open>drain_inner\<close>, with what is left to take and what was taken.\<close>

fun drain_loop :: "(H160 \<times> U256) list \<Rightarrow> U256 \<Rightarrow> (H160 \<times> U256) list
    \<Rightarrow> DrainError + (H160 \<times> U256) list" where
  "drain_loop [] amount tokens_to_transfer = Inl NotEnoughFounds"
| "drain_loop ((holder, subamount) # erc20_origins) amount tokens_to_transfer =
     (if amount > subamount
      then drain_loop erc20_origins (amount - subamount) (tokens_to_transfer @ [(holder, subamount)])
      else if amount = subamount then Inr (tokens_to_transfer @ [(holder, subamount)])
      else Inl SplitError)"

definition drain_inner :: "erc20_origins \<Rightarrow> H160 \<Rightarrow> U256 \<Rightarrow> DrainError + (H160 \<times> U256) list" where
  "drain_inner m contract_address amount =
     (case m contract_address of
        Some erc20_origins \<Rightarrow> drain_loop erc20_origins amount []
      | None \<Rightarrow> Inl DrainAssetNotFound)"

definition drain ::
  "H160 \<Rightarrow> U256 \<Rightarrow> erc20_origins \<Rightarrow> (DrainError + (H160 \<times> U256) list) \<times> erc20_origins" where
  "drain contract_address amount m =
     (case drain_inner m contract_address amount of
        Inl e \<Rightarrow> (Inl e, m)
      | Inr tokens_to_transfer \<Rightarrow>
          (Inr tokens_to_transfer,
           m(contract_address := map_option (drop (length tokens_to_transfer)) (m contract_address))))"

definition origins_insert :: "H160 \<Rightarrow> H160 \<Rightarrow> U256 \<Rightarrow> erc20_origins \<Rightarrow> erc20_origins" where
  "origins_insert contract_address who amount m =
     m(contract_address \<mapsto> (case m contract_address of Some os \<Rightarrow> os | None \<Rightarrow> []) @ [(who, amount)])"

section \<open>State and parameters\<close>

text \<open>
  The environmental is unset outside an execution. Of XCM: the parts of a location, what a junction
  of the kinds that matter carries, and the assets in the holding.
\<close>

record 'w bridge_state =
  holding_origins :: "erc20_origins option"
  bridge_world :: 'w

record ('l, 'j, 'h, 'w) bridge_config =
  parent_count :: "'l \<Rightarrow> nat"
  interior_of :: "'l \<Rightarrow> 'j list"
  account_key20 :: "'j \<Rightarrow> H160 option"
  general_key :: "'j \<Rightarrow> byte list option"
  fungible_assets_iter :: "'h \<Rightarrow> 'l Asset list"
  saturating_take_fungible :: "'l \<Rightarrow> 'h \<Rightarrow> 'h"
  inner_drop_assets :: "'l \<Rightarrow> 'h \<Rightarrow> 'w \<Rightarrow> Weight \<times> 'w"
  bridge_runner_call :: "H160 \<Rightarrow> H160 \<Rightarrow> byte list \<Rightarrow> U256 \<Rightarrow> nat \<Rightarrow> Weight option \<Rightarrow> nat option
    \<Rightarrow> 'w \<Rightarrow> (rust_string + exec_info) \<times> 'w"
  bridge_gas_to_weight :: "nat \<Rightarrow> bool \<Rightarrow> Weight"
  AccountIdConverter :: "'l \<Rightarrow> H160 option"
  Erc20MultilocationPrefix :: 'l
  Erc20TransferGasLimit :: nat

section \<open>Matching assets (\<open>erc20_matcher.rs\<close>)\<close>

text \<open>\<open>Junctions::at\<close>: the junction of an index, if there is one.\<close>

definition junction_at :: "nat \<Rightarrow> 'j list \<Rightarrow> 'j option" where
  "junction_at i js = (if i < length js then Some (js ! i) else None)"

definition matches_erc20_multilocation :: "('l, 'j, 'h, 'w) bridge_config \<Rightarrow> 'l \<Rightarrow> H160 option" where
  "matches_erc20_multilocation cfg multilocation =
     (let prefix = Erc20MultilocationPrefix cfg in
      if parent_count cfg prefix \<noteq> parent_count cfg multilocation
         \<or> list_ex (\<lambda>(index, junction). junction_at index (interior_of cfg multilocation) \<noteq> Some junction)
             (enumerate 0 (interior_of cfg prefix))
      then None
      else case junction_at (length (interior_of cfg prefix)) (interior_of cfg multilocation) of
             Some junction \<Rightarrow> account_key20 cfg junction
           | None \<Rightarrow> None)"

datatype bridge_match_error =
    BridgeAssetNotHandled | AssetIdConversionFailed | BridgeAccountIdConversionFailed

datatype bridge_xcm_error =
    BridgeMatchFailed bridge_match_error
  | BridgeAssetNotFound
  | BridgeFailedToTransactAsset string

type_synonym ('w, 'a) bridge_m = "('w bridge_state, bridge_xcm_error, 'a) prog"

definition matches_fungibles ::
  "('l, 'j, 'h, 'w) bridge_config \<Rightarrow> 'l Asset \<Rightarrow> bridge_match_error + H160 \<times> U256" where
  "matches_fungibles cfg multiasset =
     (case asset_fun multiasset of
        Fungible amount \<Rightarrow>
          (case matches_erc20_multilocation cfg (asset_id multiasset) of
             Some contract_address \<Rightarrow> Inr (contract_address, word_of_nat amount)
           | None \<Rightarrow> Inl AssetIdConversionFailed)
      | NonFungible _ \<Rightarrow> Inl BridgeAssetNotHandled)"

definition is_erc20_asset :: "('l, 'j, 'h, 'w) bridge_config \<Rightarrow> 'l Asset \<Rightarrow> bool" where
  "is_erc20_asset cfg multiasset =
     (case asset_fun multiasset of
        Fungible _ \<Rightarrow> matches_erc20_multilocation cfg (asset_id multiasset) \<noteq> None
      | NonFungible _ \<Rightarrow> False)"

section \<open>Gas\<close>

text \<open>The eight bytes after the tag are a number in little endian.\<close>

definition gas_limit_of_erc20_transfer :: "('l, 'j, 'h, 'w) bridge_config \<Rightarrow> 'l \<Rightarrow> nat" where
  "gas_limit_of_erc20_transfer cfg location =
     (case interior_of cfg location of
        [] \<Rightarrow> Erc20TransferGasLimit cfg
      | js \<Rightarrow> (case general_key cfg (last js) of
          Some data \<Rightarrow>
            if from_utf8 (take 10 data) = Some (ascii ''gas_limit:'')
            then from_be_bytes (rev (take 8 (drop 10 data)))
            else Erc20TransferGasLimit cfg
        | None \<Rightarrow> Erc20TransferGasLimit cfg))"

definition bridge_weight_of_erc20_transfer :: "('l, 'j, 'h, 'w) bridge_config \<Rightarrow> 'l \<Rightarrow> Weight" where
  "bridge_weight_of_erc20_transfer cfg l =
     bridge_gas_to_weight cfg (gas_limit_of_erc20_transfer cfg l) True"

section \<open>The transfer\<close>

datatype Erc20TransferError =
    ContractTransferFail | BridgeReturnInvalidValue | BridgeDispatchError | BridgeEvmCallFail

fun xcm_error_from :: "Erc20TransferError \<Rightarrow> bridge_xcm_error" where
  "xcm_error_from ContractTransferFail = BridgeFailedToTransactAsset ''Erc20 contract transfer fail''"
| "xcm_error_from BridgeReturnInvalidValue = BridgeFailedToTransactAsset ''Erc20 contract return invalid value''"
| "xcm_error_from BridgeDispatchError = BridgeFailedToTransactAsset ''storage layer error''"
| "xcm_error_from BridgeEvmCallFail = BridgeFailedToTransactAsset ''Fail to call erc20 contract''"

definition ERC20_TRANSFER_SELECTOR :: "byte list" where
  "ERC20_TRANSFER_SELECTOR = [0xa9, 0x05, 0x9c, 0xbb]"

definition bridge_erc20_transfer ::
  "('l, 'j, 'h, 'w) bridge_config \<Rightarrow> H160 \<Rightarrow> H160 \<Rightarrow> H160 \<Rightarrow> U256 \<Rightarrow> nat
    \<Rightarrow> ('w, Erc20TransferError, unit) prog" where
  "bridge_erc20_transfer cfg erc20_contract_address holder receiver amount gas_limit =
     (let input = ERC20_TRANSFER_SELECTOR @ h256_from receiver @ h256_from_uint amount;
          weight_limit = bridge_gas_to_weight cfg gas_limit True
      in bind_m (map_err_m (\<lambda>_. BridgeEvmCallFail)
           (run_evm (bridge_runner_call cfg holder erc20_contract_address input 0 gas_limit
              (Some weight_limit) (Some 0))))
         (\<lambda>info.
         then_m (ensure_m (succeeded info) ContractTransferFail)
           (let bytes = to_be_bytes 32 1
            in ensure_m (exit_value info \<noteq> [] \<and> exit_value info = bytes) BridgeReturnInvalidValue)))"

section \<open>The asset transactor\<close>

definition in_bridge_world :: "('w, 'e, 'a) prog \<Rightarrow> ('w bridge_state, 'e, 'a) prog" where
  "in_bridge_world m = (\<lambda>s. case m (bridge_world s) of (r, w) \<Rightarrow> (r, s\<lparr>bridge_world := w\<rparr>))"

definition bridge_match :: "('l, 'j, 'h, 'w) bridge_config \<Rightarrow> 'l Asset \<Rightarrow> ('w, H160 \<times> U256) bridge_m" where
  "bridge_match cfg what =
     (case matches_fungibles cfg what of
        Inr x \<Rightarrow> return_m x
      | Inl e \<Rightarrow> fail_m (BridgeMatchFailed e))"

definition bridge_account :: "('l, 'j, 'h, 'w) bridge_config \<Rightarrow> 'l \<Rightarrow> ('w, H160) bridge_m" where
  "bridge_account cfg who = ok_or_m (AccountIdConverter cfg who) (BridgeMatchFailed BridgeAccountIdConversionFailed)"

text \<open>\<open>XcmHoldingErc20sOrigins::with\<close>: nothing happens outside an execution.\<close>

definition with_origins ::
  "(erc20_origins \<Rightarrow> 'a \<times> erc20_origins) \<Rightarrow> ('w, 'a) bridge_m" where
  "with_origins f = (\<lambda>s. case holding_origins s of
      None \<Rightarrow> (Err (BridgeFailedToTransactAsset ''missing erc20 executor context''), s)
    | Some os \<Rightarrow> (case f os of (x, os') \<Rightarrow> (Ok x, s\<lparr>holding_origins := Some os'\<rparr>)))"

fun xcm_error_from_drain :: "DrainError \<Rightarrow> bridge_xcm_error" where
  "xcm_error_from_drain DrainAssetNotFound = BridgeAssetNotFound"
| "xcm_error_from_drain NotEnoughFounds = BridgeFailedToTransactAsset ''not enough founds in xcm holding''"
| "xcm_error_from_drain SplitError = BridgeFailedToTransactAsset
     ''SplitError: each withdrawal of erc20 tokens must be deposited at once''"

definition bridge_deposit_asset ::
  "('l, 'j, 'h, 'w) bridge_config \<Rightarrow> 'l Asset \<Rightarrow> 'l \<Rightarrow> ('w, unit) bridge_m" where
  "bridge_deposit_asset cfg what who =
     bind_m (bridge_match cfg what) (\<lambda>(contract_address, amount).
     bind_m (bridge_account cfg who) (\<lambda>beneficiary.
     let gas_limit = gas_limit_of_erc20_transfer cfg (asset_id what)
     in bind_m (with_origins (drain contract_address amount)) (\<lambda>drained. case drained of
          Inr tokens_to_transfer \<Rightarrow>
            map_err_m xcm_error_from (in_bridge_world (transactional
              (for_each_m (\<lambda>(holder, subamount).
                 bridge_erc20_transfer cfg contract_address holder beneficiary subamount gas_limit)
               tokens_to_transfer)))
        | Inl e \<Rightarrow> fail_m (xcm_error_from_drain e))))"

definition bridge_internal_transfer_asset ::
  "('l, 'j, 'h, 'w) bridge_config \<Rightarrow> 'l Asset \<Rightarrow> 'l \<Rightarrow> 'l \<Rightarrow> ('w, 'l Asset) bridge_m" where
  "bridge_internal_transfer_asset cfg asset sender receiver =
     bind_m (bridge_match cfg asset) (\<lambda>(contract_address, amount).
     bind_m (bridge_account cfg sender) (\<lambda>sender'.
     bind_m (bridge_account cfg receiver) (\<lambda>receiver'.
     let gas_limit = gas_limit_of_erc20_transfer cfg (asset_id asset)
     in then_m (map_err_m xcm_error_from (in_bridge_world (transactional
          (bridge_erc20_transfer cfg contract_address sender' receiver' amount gas_limit))))
        (return_m asset))))"

definition bridge_withdraw_asset ::
  "('l, 'j, 'h, 'w) bridge_config \<Rightarrow> 'l Asset \<Rightarrow> 'l \<Rightarrow> ('w, 'l Asset) bridge_m" where
  "bridge_withdraw_asset cfg what who =
     bind_m (bridge_match cfg what) (\<lambda>(contract_address, amount).
     bind_m (bridge_account cfg who) (\<lambda>who'.
     then_m (with_origins (\<lambda>os. ((), origins_insert contract_address who' amount os)))
       (return_m what)))"

section \<open>The wrappers of the executor and of the asset trap\<close>

text \<open>\<open>using\<close> gives the inner execution an empty map and puts the outer one back.\<close>

definition executor_execute :: "('w bridge_state \<Rightarrow> 'r \<times> 'w bridge_state) \<Rightarrow> 'w bridge_state
    \<Rightarrow> 'r \<times> 'w bridge_state" where
  "executor_execute inner s =
     (case inner (s\<lparr>holding_origins := Some Map.empty\<rparr>) of
        (r, t) \<Rightarrow> (r, t\<lparr>holding_origins := holding_origins s\<rparr>))"

definition trap_drop_assets :: "('l, 'j, 'h, 'w) bridge_config \<Rightarrow> 'l \<Rightarrow> 'h \<Rightarrow> 'w \<Rightarrow> Weight \<times> 'w" where
  "trap_drop_assets cfg origin' assets =
     (let assets_to_remove = map asset_id (filter (is_erc20_asset cfg) (fungible_assets_iter cfg assets))
      in inner_drop_assets cfg origin' (fold (saturating_take_fungible cfg) assets_to_remove assets))"

lemma wp_in_bridge_world [wp_simps]:
  "wp (in_bridge_world m) Q E s = wp m (\<lambda>x w. Q x (s\<lparr>bridge_world := w\<rparr>))
     (\<lambda>e w. E e (s\<lparr>bridge_world := w\<rparr>)) (bridge_world s)"
  by (auto simp: wp_def in_bridge_world_def split: prod.splits outcome.splits)

lemma wp_with_origins [wp_simps]:
  "wp (with_origins f) Q E s = (case holding_origins s of
      None \<Rightarrow> E (BridgeFailedToTransactAsset ''missing erc20 executor context'') s
    | Some os \<Rightarrow> Q (fst (f os)) (s\<lparr>holding_origins := Some (snd (f os))\<rparr>))"
  by (simp add: wp_def with_origins_def split: option.split prod.split)

end
