(* ===== verification/Bridge_Properties.thy ===== *)
theory Bridge_Properties
  imports Erc20_Bridge "HOL-Library.Sublist"
begin

text \<open>
  Properties of the ERC-20 bridge: what a deposit takes from the holding, and that over a message
  every withdrawal is transferred at most once, whole, from the account it was made from to one that
  it was deposited to, between the transfers from account to account that the message asks for.
\<close>

section \<open>What a drain takes\<close>

definition tokens_total :: "(H160 \<times> U256) list \<Rightarrow> nat" where
  "tokens_total ts = sum_list (map (unat \<circ> snd) ts)"

lemma tokens_total_simps [simp]:
  "tokens_total [] = 0" "tokens_total ((h, a) # ts) = unat a + tokens_total ts"
  by (simp_all add: tokens_total_def)

lemma drain_loop_result:
  "drain_loop os amount taken =
    (case find (\<lambda>n. unat amount \<le> tokens_total (take n os)) [1..<Suc (length os)] of
       None \<Rightarrow> Inl NotEnoughFounds
     | Some n \<Rightarrow> if tokens_total (take n os) = unat amount then Inr (taken @ take n os) else Inl SplitError)"
proof (induction os amount taken rule: drain_loop.induct)
  case (1 amount taken)
  then show ?case by simp
next
  case (2 holder sub os amount taken)
  let ?P = "\<lambda>n. unat amount \<le> tokens_total (take n ((holder, sub) # os))"
  have upt: "[1..<Suc (length ((holder, sub) # os))] = 1 # map Suc [1..<Suc (length os)]"
    by (simp add: upt_conv_Cons map_Suc_upt del: upt_Suc)
  show ?case
  proof (cases "amount > sub")
    case True
    then have less: "unat sub < unat amount" by (simp add: word_less_nat_alt)
    then have diff: "unat (amount - sub) = unat amount - unat sub" by (simp add: unat_sub word_le_nat_alt)
    have "find ?P (map Suc xs) = map_option Suc (find (\<lambda>n. unat (amount - sub) \<le> tokens_total (take n os)) xs)" for xs
      using less diff by (induction xs) auto
    then show ?thesis
      using 2 [OF True] True less diff unfolding upt
      by (auto simp del: upt_Suc split: option.split)
  next
    case False
    then have "unat amount \<le> unat sub" by (simp add: not_less word_le_nat_alt)
    moreover have "unat amount = unat sub \<longleftrightarrow> amount = sub" by (simp add: word_unat_eq_iff)
    ultimately show ?thesis using False unfolding upt by (auto simp del: upt_Suc)
  qed
qed

lemma drain_Inr:
  assumes "drain c amount m = (Inr ts, m')"
  obtains rest where "m c = Some (ts @ rest)" and "m' = m(c \<mapsto> rest)"
proof -
  obtain os where os: "m c = Some os" "drain_loop os amount [] = Inr ts" and m': "m' = m(c := Some (drop (length ts) os))"
    using assms by (auto simp: drain_def drain_inner_def split: sum.splits option.splits)
  then obtain n where n: "ts = take n os" by (auto simp: drain_loop_result split: option.splits if_splits)
  have "os = ts @ drop (length ts) os" unfolding n by (cases "n \<le> length os") auto
  moreover have "m' = m(c \<mapsto> drop (length ts) os)" using m' by simp
  ultimately show thesis using os(1) that by metis
qed

lemma drain_Inl: "drain c amount m = (Inl e, m') \<Longrightarrow> m' = m"
  by (auto simp: drain_def split: sum.splits)

section \<open>A ledger of transfers\<close>

text \<open>
  The same configuration with a runner that also notes every call that succeeds, in the storage, so
  that what a storage layer undoes is struck off. An entry is the contract, the caller, the input.
\<close>

type_synonym transfer_log = "(H160 \<times> H160 \<times> byte list) list"

definition logging_call :: "('l, 'j, 'h, 'w) bridge_config \<Rightarrow> H160 \<Rightarrow> H160 \<Rightarrow> byte list \<Rightarrow> U256 \<Rightarrow> nat
    \<Rightarrow> Weight option \<Rightarrow> nat option \<Rightarrow> 'w \<times> transfer_log \<Rightarrow> (rust_string + exec_info) \<times> 'w \<times> transfer_log" where
  "logging_call cfg holder contract input v gas wl pl = (\<lambda>(w, log).
     case bridge_runner_call cfg holder contract input v gas wl pl w of
       (Inl e, w') \<Rightarrow> (Inl e, w', log)
     | (Inr info, w') \<Rightarrow> (Inr info, w', if succeeded info then log @ [(contract, holder, input)] else log))"

definition logged :: "('l, 'j, 'h, 'w) bridge_config \<Rightarrow> ('l, 'j, 'h, 'w \<times> transfer_log) bridge_config" where
  "logged cfg =
     \<lparr>parent_count = parent_count cfg, interior_of = interior_of cfg, account_key20 = account_key20 cfg,
      general_key = general_key cfg, fungible_assets_iter = fungible_assets_iter cfg,
      saturating_take_fungible = saturating_take_fungible cfg,
      inner_drop_assets = (\<lambda>l h (w, log). case inner_drop_assets cfg l h w of (x, w') \<Rightarrow> (x, w', log)),
      bridge_runner_call = logging_call cfg, bridge_gas_to_weight = bridge_gas_to_weight cfg,
      AccountIdConverter = AccountIdConverter cfg, Erc20MultilocationPrefix = Erc20MultilocationPrefix cfg,
      Erc20TransferGasLimit = Erc20TransferGasLimit cfg\<rparr>"

text \<open>What a contract was called for: the holder, and the receiver and amount in the input.\<close>

type_synonym payment = "H160 \<times> H160 \<times> U256"

definition paid :: "H160 \<Rightarrow> transfer_log \<Rightarrow> payment list" where
  "paid c log = map (\<lambda>(_, h, input). (h, take 20 (drop 16 input), word_of_nat (from_be_bytes (drop 36 input))))
     (filter (\<lambda>(c', _, _). c' = c) log)"

lemma paid_append: "paid c (xs @ ys) = paid c xs @ paid c ys"
  by (simp add: paid_def)

lemma logged_transfer:
  assumes "length b = 20"
  shows "wp (bridge_erc20_transfer (logged cfg) c h b a g)
    (\<lambda>_ (w, log'). paid c log' = paid c log @ [(h, b, a)] \<and> (\<forall>c'. c' \<noteq> c \<longrightarrow> paid c' log' = paid c' log))
    (\<lambda>_ _. True) (w, log)"
proof -
  have "drop 36 (ERC20_TRANSFER_SELECTOR @ h256_from b @ h256_from_uint a) = h256_from_uint a"
    "take 20 (drop 16 (ERC20_TRANSFER_SELECTOR @ h256_from b @ h256_from_uint a)) = b"
    using assms by (simp_all add: ERC20_TRANSFER_SELECTOR_def h256_from_def)
  moreover have "unat a < 2 ^ LENGTH(256)" by (rule unsigned_less)
  then have "word_of_nat (from_be_bytes (h256_from_uint a)) = a"
    by (simp add: h256_from_uint_def from_to_be_bytes)
  ultimately show ?thesis
    by (auto simp: bridge_erc20_transfer_def Let_def wp_simps logged_def logging_call_def paid_def
        split: prod.splits sum.splits)
qed

section \<open>Interleaving\<close>

lemma append_shuffled: "ys @ xs \<in> shuffles xs ys"
  by (induction ys) (use Cons_shuffles_subset2 in fastforce)+

lemma shuffles_append1: "zs \<in> shuffles xs ys \<Longrightarrow> zs @ ws \<in> shuffles (xs @ ws) ys"
proof (induction xs ys arbitrary: zs rule: shuffles.induct)
  case (1 ys)
  then show ?case by (simp add: append_shuffled)
next
  case (2 xs)
  then show ?case by simp
next
  case (3 x xs y ys)
  then show ?case by (auto simp: image_iff)
qed

lemma shuffles_append2: "zs \<in> shuffles xs ys \<Longrightarrow> zs @ ws \<in> shuffles xs (ys @ ws)"
  using shuffles_append1 [of zs ys xs ws] by (simp add: shuffles_commutes)

section \<open>The transactor calls of a message\<close>

text \<open>A message may go on after a failed instruction, and deposit only parts of what it withdrew.\<close>

datatype 'l bridge_op = Withdrawal "'l Asset" 'l | Deposit "'l Asset" 'l | Transfer "'l Asset" 'l 'l

fun message_step :: "('l, 'j, 'h, 'w) bridge_config \<Rightarrow> 'l bridge_op \<Rightarrow> 'w bridge_state \<Rightarrow> 'w bridge_state" where
  "message_step cfg (Withdrawal what who) s = snd (bridge_withdraw_asset cfg what who s)"
| "message_step cfg (Deposit what who) s = snd (bridge_deposit_asset cfg what who s)"
| "message_step cfg (Transfer what sender receiver) s = snd (bridge_internal_transfer_asset cfg what sender receiver s)"

definition message :: "('l, 'j, 'h, 'w) bridge_config \<Rightarrow> 'l bridge_op list \<Rightarrow> 'w bridge_state \<Rightarrow> 'w bridge_state" where
  "message cfg ops s = fold (message_step cfg) ops s"

text \<open>What a message withdraws of a contract's tokens, to whom it deposits them, what it transfers.\<close>

fun withdrawn_by :: "('l, 'j, 'h, 'w) bridge_config \<Rightarrow> H160 \<Rightarrow> 'l bridge_op \<Rightarrow> (H160 \<times> U256) list" where
  "withdrawn_by cfg c (Withdrawal what who) =
     (case (matches_fungibles cfg what, AccountIdConverter cfg who) of
        (Inr (c', a), Some h) \<Rightarrow> if c' = c then [(h, a)] else []
      | _ \<Rightarrow> [])"
| "withdrawn_by cfg c _ = []"

definition withdrawn :: "('l, 'j, 'h, 'w) bridge_config \<Rightarrow> H160 \<Rightarrow> 'l bridge_op list \<Rightarrow> (H160 \<times> U256) list" where
  "withdrawn cfg c ops = concat (map (withdrawn_by cfg c) ops)"

fun beneficiary_of :: "('l, 'j, 'h, 'w) bridge_config \<Rightarrow> H160 \<Rightarrow> 'l bridge_op \<Rightarrow> H160 set" where
  "beneficiary_of cfg c (Deposit what who) =
     (case (matches_fungibles cfg what, AccountIdConverter cfg who) of
        (Inr (c', a), Some b) \<Rightarrow> if c' = c then {b} else {}
      | _ \<Rightarrow> {})"
| "beneficiary_of cfg c _ = {}"

definition beneficiaries :: "('l, 'j, 'h, 'w) bridge_config \<Rightarrow> H160 \<Rightarrow> 'l bridge_op list \<Rightarrow> H160 set" where
  "beneficiaries cfg c ops = \<Union> (beneficiary_of cfg c ` set ops)"

fun transferred_by :: "('l, 'j, 'h, 'w) bridge_config \<Rightarrow> H160 \<Rightarrow> 'l bridge_op \<Rightarrow> payment list" where
  "transferred_by cfg c (Transfer what sender receiver) =
     (case (matches_fungibles cfg what, AccountIdConverter cfg sender, AccountIdConverter cfg receiver) of
        (Inr (c', a), Some h, Some b) \<Rightarrow> if c' = c then [(h, b, a)] else []
      | _ \<Rightarrow> [])"
| "transferred_by cfg c _ = []"

definition transferred :: "('l, 'j, 'h, 'w) bridge_config \<Rightarrow> H160 \<Rightarrow> 'l bridge_op list \<Rightarrow> payment list" where
  "transferred cfg c ops = concat (map (transferred_by cfg c) ops)"

definition noted :: "H160 \<Rightarrow> 'w bridge_state \<Rightarrow> (H160 \<times> U256) list" where
  "noted c s = (case holding_origins s of None \<Rightarrow> [] | Some m \<Rightarrow> (case m c of None \<Rightarrow> [] | Some os \<Rightarrow> os))"

definition log_of :: "('w \<times> transfer_log) bridge_state \<Rightarrow> transfer_log" where
  "log_of s = snd (bridge_world s)"

text \<open>The holder and the amount of a payment.\<close>

definition debit :: "payment \<Rightarrow> H160 \<times> U256" where
  "debit p = (case p of (h, b, a) \<Rightarrow> (h, a))"

text \<open>
  Of the payments made from a contract's tokens some were transfers asked for, in this order, and the
  others went to beneficiaries; these and what is still noted lie within what was withdrawn.
\<close>

definition split_payments ::
  "(H160 \<times> U256) list \<Rightarrow> H160 set \<Rightarrow> payment list \<Rightarrow> (H160 \<times> U256) list \<Rightarrow> payment list \<Rightarrow> bool" where
  "split_payments wd bs ts rest ps \<longleftrightarrow>
     (\<exists>ds qs. ps \<in> shuffles ds qs \<and> subseq (map debit ds @ rest) wd \<and> (fst \<circ> snd) ` set ds \<subseteq> bs
        \<and> subseq qs ts)"

definition accounted ::
  "(H160 \<Rightarrow> (H160 \<times> U256) list) \<Rightarrow> (H160 \<Rightarrow> H160 set) \<Rightarrow> (H160 \<Rightarrow> payment list)
    \<Rightarrow> ('w \<times> transfer_log) bridge_state \<Rightarrow> bool" where
  "accounted wd bs ts s \<longleftrightarrow> holding_origins s \<noteq> None
     \<and> (\<forall>c. split_payments (wd c) (bs c) (ts c) (noted c s) (paid c (log_of s)))"

lemma split_mono:
  assumes "split_payments wd bs ts rest ps" and "bs \<subseteq> bs'" and "subseq rest' rest"
  shows "split_payments (wd @ wd') bs' (ts @ ts') (rest' @ wd') ps"
proof -
  obtain ds qs where ps: "ps \<in> shuffles ds qs" "subseq (map debit ds @ rest) wd" "(fst \<circ> snd) ` set ds \<subseteq> bs"
    "subseq qs ts" using assms(1) by (auto simp: split_payments_def)
  have "subseq (map debit ds @ rest') (map debit ds @ rest)" using assms(3) by (simp add: subseq_append')
  then have "subseq (map debit ds @ rest') wd" using ps(2) by (rule subseq_order.trans)
  then have "subseq (map debit ds @ rest' @ wd') (wd @ wd')"
    using list_emb_append_mono [of "(=)" "map debit ds @ rest'" wd wd' wd'] by simp
  moreover have "subseq qs (ts @ ts')" using ps(4) by (rule list_emb_prefix)
  ultimately show ?thesis using ps(1,3) assms(2) unfolding split_payments_def by blast
qed

lemma split_deposits:
  assumes "split_payments wd bs ts (map debit ps' @ rest) ps" and "(fst \<circ> snd) ` set ps' \<subseteq> bs"
  shows "split_payments wd bs ts rest (ps @ ps')"
proof -
  obtain ds qs where ps: "ps \<in> shuffles ds qs" "subseq (map debit ds @ map debit ps' @ rest) wd"
    "(fst \<circ> snd) ` set ds \<subseteq> bs" "subseq qs ts" using assms(1) by (auto simp: split_payments_def)
  from shuffles_append1 [OF ps(1)] have "ps @ ps' \<in> shuffles (ds @ ps') qs" .
  then show ?thesis using ps(2-4) assms(2) unfolding split_payments_def
    by (intro exI [of _ "ds @ ps'"] exI [of _ qs]) (simp add: image_Un)
qed

lemma split_transfer:
  assumes "split_payments wd bs ts rest ps"
  shows "split_payments wd bs (ts @ [p]) rest (ps @ [p])"
proof -
  obtain ds qs where ps: "ps \<in> shuffles ds qs" "subseq (map debit ds @ rest) wd" "(fst \<circ> snd) ` set ds \<subseteq> bs"
    "subseq qs ts" using assms by (auto simp: split_payments_def)
  from shuffles_append2 [OF ps(1)] have "ps @ [p] \<in> shuffles ds (qs @ [p])" .
  moreover have "subseq (qs @ [p]) (ts @ [p])" using ps(4) by simp
  ultimately show ?thesis using ps(2,3) unfolding split_payments_def by blast
qed

lemma logged_simps [simp]:
  "parent_count (logged cfg) = parent_count cfg" "interior_of (logged cfg) = interior_of cfg"
  "account_key20 (logged cfg) = account_key20 cfg" "general_key (logged cfg) = general_key cfg"
  "AccountIdConverter (logged cfg) = AccountIdConverter cfg"
  "Erc20MultilocationPrefix (logged cfg) = Erc20MultilocationPrefix cfg"
  "Erc20TransferGasLimit (logged cfg) = Erc20TransferGasLimit cfg"
  by (simp_all add: logged_def)

lemma logged_matches [simp]:
  "matches_fungibles (logged cfg) what = matches_fungibles cfg what"
  "gas_limit_of_erc20_transfer (logged cfg) l = gas_limit_of_erc20_transfer cfg l"
proof -
  have "matches_erc20_multilocation (logged cfg) l = matches_erc20_multilocation cfg l" for l
    unfolding matches_erc20_multilocation_def logged_simps by (rule refl)
  then show "matches_fungibles (logged cfg) what = matches_fungibles cfg what"
    unfolding matches_fungibles_def by (simp split: Fungibility.split)
  show "gas_limit_of_erc20_transfer (logged cfg) l = gas_limit_of_erc20_transfer cfg l"
    unfolding gas_limit_of_erc20_transfer_def logged_simps by (rule refl)
qed

abbreviation with_op ::
  "('l, 'j, 'h, 'w) bridge_config \<Rightarrow> 'l bridge_op \<Rightarrow> (H160 \<Rightarrow> (H160 \<times> U256) list) \<Rightarrow> (H160 \<Rightarrow> H160 set)
    \<Rightarrow> (H160 \<Rightarrow> payment list) \<Rightarrow> ('w \<times> transfer_log) bridge_state \<Rightarrow> bool" where
  "with_op cfg op wd bs ts \<equiv> accounted (\<lambda>c. wd c @ withdrawn_by cfg c op) (\<lambda>c. bs c \<union> beneficiary_of cfg c op)
     (\<lambda>c. ts c @ transferred_by cfg c op)"

lemma accounted_weaken:
  assumes "accounted wd bs ts s"
  shows "accounted (\<lambda>c. wd c) (\<lambda>c. bs c \<union> bs' c) (\<lambda>c. ts c @ ts' c) s"
  using assms split_mono [of "wd c" "bs c" "ts c" "noted c s" "paid c (log_of s)" "bs c \<union> bs' c" "noted c s" "[]" "ts' c" for c]
  by (simp add: accounted_def)

lemma withdrawal_accounted:
  assumes "accounted wd bs ts s"
  shows "with_op cfg (Withdrawal what who) wd bs ts (message_step (logged cfg) (Withdrawal what who) s)"
proof -
  obtain m where m: "holding_origins s = Some m" using assms by (auto simp: accounted_def)
  show ?thesis
  proof (cases "\<exists>c a h. matches_fungibles cfg what = Inr (c, a) \<and> AccountIdConverter cfg who = Some h")
    case False
    then have "message_step (logged cfg) (Withdrawal what who) s = s"
      "\<And>c. withdrawn_by cfg c (Withdrawal what who) = []"
      by (auto simp: bridge_withdraw_asset_def bridge_match_def bridge_account_def prog_defs
          split: sum.split prod.split option.split)
    then show ?thesis using assms by simp
  next
    case True
    then obtain c a h where x: "matches_fungibles cfg what = Inr (c, a)" "AccountIdConverter cfg who = Some h"
      by blast
    let ?t = "s\<lparr>holding_origins := Some (origins_insert c h a m)\<rparr>"
    have step: "message_step (logged cfg) (Withdrawal what who) s = ?t"
      using x by (simp add: bridge_withdraw_asset_def bridge_match_def bridge_account_def with_origins_def m prog_defs)
    have noted: "noted c' ?t = noted c' s @ withdrawn_by cfg c' (Withdrawal what who)" for c'
      by (simp add: noted_def origins_insert_def m x split: option.split)
    have "split_payments (wd c' @ withdrawn_by cfg c' (Withdrawal what who)) (bs c') (ts c')
        (noted c' s @ withdrawn_by cfg c' (Withdrawal what who)) (paid c' (log_of s))" for c'
      using split_mono [of "wd c'" "bs c'" "ts c'" "noted c' s" "paid c' (log_of s)" "bs c'" "noted c' s"
          "withdrawn_by cfg c' (Withdrawal what who)" "[]"] assms
      by (simp add: accounted_def)
    then show ?thesis unfolding step by (simp add: accounted_def noted) (simp add: log_of_def)
  qed
qed

lemma transfers_logged:
  assumes "length b = 20"
  shows "wp (for_each_m (\<lambda>(h, a). bridge_erc20_transfer (logged cfg) c h b a g) ts)
    (\<lambda>_ (w, log'). paid c log' = paid c log @ map (\<lambda>(h, a). (h, b, a)) ts
      \<and> (\<forall>c'. c' \<noteq> c \<longrightarrow> paid c' log' = paid c' log))
    (\<lambda>_ _. True) (w, log)"
proof -
  let ?I = "\<lambda>xs (w, log'). (\<exists>ys. ts = ys @ xs \<and> paid c log' = paid c log @ map (\<lambda>(h, a). (h, b, a)) ys)
    \<and> (\<forall>c'. c' \<noteq> c \<longrightarrow> paid c' log' = paid c' log)"
  have "wp (for_each_m (\<lambda>(h, a). bridge_erc20_transfer (logged cfg) c h b a g) ts) (\<lambda>_. ?I [])
      (\<lambda>_ _. True) (w, log)"
  proof (rule wp_for_each [where I = ?I])
    show "?I ts (w, log)" by simp
    fix x ys and t :: "'a \<times> transfer_log"
    assume inv: "?I (x # ys) t"
    obtain h a where x: "x = (h, a)" by (cases x)
    obtain w' log' where t: "t = (w', log')" by (cases t)
    show "wp (case x of (h, a) \<Rightarrow> bridge_erc20_transfer (logged cfg) c h b a g) (\<lambda>_. ?I ys) (\<lambda>_ _. True) t"
      unfolding x t prod.case
      by (rule wp_mono [OF logged_transfer [OF assms]]) (use inv in \<open>auto simp: t x\<close>)
  qed
  then show ?thesis by (rule wp_mono) auto
qed

lemma debit_holders: "map debit (map (\<lambda>(h, a). (h, b, a)) ts) = ts"
  by (induction ts) (auto simp: debit_def)

lemma deposit_accounted:
  assumes inv: "accounted wd bs ts s" and addresses: "\<forall>l b. AccountIdConverter cfg l = Some b \<longrightarrow> length b = 20"
  shows "with_op cfg (Deposit what who) wd bs ts (message_step (logged cfg) (Deposit what who) s)"
proof -
  obtain m where m: "holding_origins s = Some m" using inv by (auto simp: accounted_def)
  obtain w log where w: "bridge_world s = (w, log)" by (cases "bridge_world s")
  let ?bs = "\<lambda>c. bs c \<union> beneficiary_of cfg c (Deposit what who)"
  have "accounted wd ?bs (\<lambda>c. ts c @ []) s" using inv by (rule accounted_weaken)
  then have inv': "accounted wd ?bs ts s" by simp
  have "wp (bridge_deposit_asset (logged cfg) what who) (\<lambda>_. accounted wd ?bs ts) (\<lambda>_. accounted wd ?bs ts) s"
  proof (cases "\<exists>c a b. matches_fungibles cfg what = Inr (c, a) \<and> AccountIdConverter cfg who = Some b")
    case False
    then show ?thesis using inv'
      by (auto simp: bridge_deposit_asset_def bridge_match_def bridge_account_def wp_simps
          split: sum.split prod.split option.split)
  next
    case True
    then obtain c a b where x: "matches_fungibles cfg what = Inr (c, a)" "AccountIdConverter cfg who = Some b"
      by blast
    show ?thesis
    proof (cases "drain c a m")
      case (Pair r m')
      show ?thesis
      proof (cases r)
        case (Inl e)
        then have "m' = m" using drain_Inl Pair by blast
        then have "s\<lparr>holding_origins := Some m'\<rparr> = s" using m by simp
        then show ?thesis using inv' Pair Inl
          by (simp add: bridge_deposit_asset_def bridge_match_def bridge_account_def x wp_simps Let_def m
              del: beneficiary_of.simps)
      next
        case (Inr tokens)
        then obtain rest where rest: "m c = Some (tokens @ rest)" "m' = m(c \<mapsto> rest)"
          using drain_Inr Pair by blast
        let ?s = "s\<lparr>holding_origins := Some m'\<rparr>"
        have noted: "noted c s = tokens @ rest" "noted c ?s = rest" "\<And>c'. c' \<noteq> c \<Longrightarrow> noted c' ?s = noted c' s"
          by (simp_all add: noted_def m rest)
        have sub: "split_payments (wd c') (?bs c') (ts c') (noted c' s) (paid c' log)" for c'
          using inv' by (simp add: accounted_def log_of_def w del: beneficiary_of.simps)
        have lost: "accounted wd ?bs ts ?s"
        proof -
          have "split_payments (wd c' @ []) (?bs c') (ts c' @ []) (noted c' ?s @ []) (paid c' log)" for c'
            by (rule split_mono [OF sub])
              (use noted in \<open>cases "c' = c"; simp add: subseq_drop_many\<close>)+
          then show ?thesis by (simp add: accounted_def log_of_def w del: beneficiary_of.simps)
        qed
        have kept: "accounted wd ?bs ts (?s\<lparr>bridge_world := (w', log')\<rparr>)"
          if "paid c log' = paid c log @ map (\<lambda>(h, a). (h, b, a)) tokens"
            "\<forall>c'. c' \<noteq> c \<longrightarrow> paid c' log' = paid c' log" for w' log'
        proof -
          have "noted c' (?s\<lparr>bridge_world := (w', log')\<rparr>) = noted c' ?s" for c' by (simp add: noted_def)
          moreover have "split_payments (wd c') (?bs c') (ts c') (noted c' ?s) (paid c' log')" for c'
          proof (cases "c' = c")
            case True
            have "split_payments (wd c) (?bs c) (ts c) (map debit (map (\<lambda>(h, a). (h, b, a)) tokens) @ rest) (paid c log)"
              using sub [of c] noted(1) by (simp only: debit_holders)
            moreover have "(fst \<circ> snd) ` set (map (\<lambda>(h, a). (h, b, a)) tokens) \<subseteq> ?bs c" using x by auto
            ultimately have "split_payments (wd c) (?bs c) (ts c) rest (paid c log @ map (\<lambda>(h, a). (h, b, a)) tokens)"
              by (rule split_deposits)
            then show ?thesis by (simp only: True that(1) noted(2))
          next
            case False
            then show ?thesis using sub [of c'] noted(3) that(2) by simp
          qed
          ultimately show ?thesis by (simp add: accounted_def log_of_def del: beneficiary_of.simps)
        qed
        have same: "s\<lparr>holding_origins := Some m', bridge_world := (w, log)\<rparr> = ?s" using w by simp
        have len: "length b = 20" using addresses x(2) by blast
        note transfers = transfers_logged [OF len, of cfg c "gas_limit_of_erc20_transfer cfg (asset_id what)" tokens log w]
        have "wp (map_err_m xcm_error_from (in_bridge_world (transactional
            (for_each_m (\<lambda>(h, a). bridge_erc20_transfer (logged cfg) c h b a
              (gas_limit_of_erc20_transfer cfg (asset_id what))) tokens))))
            (\<lambda>_. accounted wd ?bs ts) (\<lambda>_. accounted wd ?bs ts) ?s"
          unfolding wp_map_err wp_in_bridge_world wp_transactional
          using lost kept w by (auto simp: same simp del: beneficiary_of.simps intro!: wp_mono [OF transfers])
        then show ?thesis using Pair Inr
          by (simp add: bridge_deposit_asset_def bridge_match_def bridge_account_def x wp_simps Let_def m
              del: beneficiary_of.simps)
      qed
    qed
  qed
  then show ?thesis by (auto simp: wp_iff simp del: beneficiary_of.simps)
qed

lemma transfer_accounted:
  assumes inv: "accounted wd bs ts s" and addresses: "\<forall>l b. AccountIdConverter cfg l = Some b \<longrightarrow> length b = 20"
  shows "with_op cfg (Transfer what sender receiver) wd bs ts
    (message_step (logged cfg) (Transfer what sender receiver) s)"
proof -
  obtain w log where w: "bridge_world s = (w, log)" by (cases "bridge_world s")
  let ?ts = "\<lambda>c. ts c @ transferred_by cfg c (Transfer what sender receiver)"
  have "accounted wd (\<lambda>c. bs c \<union> {}) ?ts s" using inv by (rule accounted_weaken)
  then have inv': "accounted wd bs ?ts s" by simp
  have "wp (bridge_internal_transfer_asset (logged cfg) what sender receiver)
      (\<lambda>_. accounted wd bs ?ts) (\<lambda>_. accounted wd bs ?ts) s"
  proof (cases "\<exists>c a h b. matches_fungibles cfg what = Inr (c, a) \<and> AccountIdConverter cfg sender = Some h
      \<and> AccountIdConverter cfg receiver = Some b")
    case False
    then show ?thesis using inv'
      by (auto simp: bridge_internal_transfer_asset_def bridge_match_def bridge_account_def wp_simps
          split: sum.split prod.split option.split)
  next
    case True
    then obtain c a h b where x: "matches_fungibles cfg what = Inr (c, a)"
      "AccountIdConverter cfg sender = Some h" "AccountIdConverter cfg receiver = Some b" by blast
    have kept: "accounted wd bs ?ts (s\<lparr>bridge_world := (w', log')\<rparr>)"
      if "paid c log' = paid c log @ [(h, b, a)]" "\<forall>c'. c' \<noteq> c \<longrightarrow> paid c' log' = paid c' log" for w' log'
    proof -
      have "noted c' (s\<lparr>bridge_world := (w', log')\<rparr>) = noted c' s" for c' by (simp add: noted_def)
      moreover have "split_payments (wd c') (bs c') (?ts c') (noted c' s) (paid c' log')" for c'
        using inv that split_transfer [of "wd c" "bs c" "ts c" "noted c s" "paid c log" "(h, b, a)"] x
        by (cases "c' = c") (simp_all add: accounted_def log_of_def w)
      ultimately show ?thesis using inv by (simp add: accounted_def log_of_def del: transferred_by.simps)
    qed
    have same: "s\<lparr>bridge_world := (w, log)\<rparr> = s" using w by simp
    have len: "length b = 20" using addresses x(3) by blast
    note transfer = logged_transfer [OF len, of cfg c h a "gas_limit_of_erc20_transfer cfg (asset_id what)" log w]
    have "wp (map_err_m xcm_error_from (in_bridge_world (transactional
        (bridge_erc20_transfer (logged cfg) c h b a (gas_limit_of_erc20_transfer cfg (asset_id what))))))
        (\<lambda>_. accounted wd bs ?ts) (\<lambda>_. accounted wd bs ?ts) s"
      unfolding wp_map_err wp_in_bridge_world wp_transactional
      using inv' kept w by (auto simp: same simp del: transferred_by.simps intro!: wp_mono [OF transfer])
    then show ?thesis
      by (simp add: bridge_internal_transfer_asset_def bridge_match_def bridge_account_def x wp_simps Let_def
          del: transferred_by.simps)
  qed
  then show ?thesis by (auto simp: wp_iff simp del: transferred_by.simps)
qed

lemma message_accounted:
  assumes "accounted wd bs ts s" and "\<forall>l b. AccountIdConverter cfg l = Some b \<longrightarrow> length b = 20"
  shows "accounted (\<lambda>c. wd c @ withdrawn cfg c ops) (\<lambda>c. bs c \<union> beneficiaries cfg c ops)
    (\<lambda>c. ts c @ transferred cfg c ops) (message (logged cfg) ops s)"
  using assms(1)
proof (induction ops arbitrary: wd bs ts s)
  case Nil
  then show ?case by (simp add: message_def withdrawn_def beneficiaries_def transferred_def)
next
  case (Cons op ops)
  have "with_op cfg op wd bs ts (message_step (logged cfg) op s)"
  proof (cases op)
    case (Withdrawal what who)
    show ?thesis unfolding Withdrawal using Cons.prems by (rule withdrawal_accounted)
  next
    case (Deposit what who)
    show ?thesis unfolding Deposit using Cons.prems assms(2) by (rule deposit_accounted)
  next
    case (Transfer what sender receiver)
    show ?thesis unfolding Transfer using Cons.prems assms(2) by (rule transfer_accounted)
  qed
  from Cons.IH [OF this] show ?case
    by (simp add: message_def withdrawn_def beneficiaries_def transferred_def Un_assoc)
qed

text \<open>C38: over the execution of a message, whatever it withdraws, deposits and transfers from account
  to account, and whichever of its instructions fail, the transfers that take effect on a contract
  are an interleaving of two lists. The one is a subsequence of the transfers that the message asks
  for, with sender, receiver and amount. The other goes to beneficiaries of the deposits, and is a
  subsequence of the withdrawals of this contract's tokens: each withdrawal is transferred at most
  once, whole, from the account it was made from, in the order of the withdrawals. Afterwards the
  notes of the message are gone.\<close>

theorem withdrawals_transferred_at_most_once:
  assumes "\<forall>l b. AccountIdConverter cfg l = Some b \<longrightarrow> length b = 20"
    and "executor_execute (\<lambda>s. ((), message (logged cfg) ops s))
      \<lparr>holding_origins = outer, bridge_world = (w, [])\<rparr> = ((), t)"
  shows "(\<exists>ds qs. paid c (snd (bridge_world t)) \<in> shuffles ds qs
      \<and> subseq (map (\<lambda>(holder, receiver, amount). (holder, amount)) ds) (withdrawn cfg c ops)
      \<and> (\<forall>(holder, receiver, amount) \<in> set ds. receiver \<in> beneficiaries cfg c ops)
      \<and> subseq qs (transferred cfg c ops))
    \<and> holding_origins t = outer"
proof -
  let ?s = "\<lparr>holding_origins = Some Map.empty, bridge_world = (w, [])\<rparr>"
  have "accounted (\<lambda>_. []) (\<lambda>_. {}) (\<lambda>_. []) ?s"
    by (auto simp: accounted_def split_payments_def noted_def log_of_def paid_def)
  from message_accounted [OF this assms(1), of ops]
  have "split_payments (withdrawn cfg c ops) (beneficiaries cfg c ops) (transferred cfg c ops)
      (noted c (message (logged cfg) ops ?s)) (paid c (log_of (message (logged cfg) ops ?s)))"
    by (simp add: accounted_def)
  from split_mono [OF this order.refl, of "[]" "[]" "[]"]
  obtain ds qs where ds: "paid c (log_of (message (logged cfg) ops ?s)) \<in> shuffles ds qs"
    "subseq (map debit ds) (withdrawn cfg c ops)" "(fst \<circ> snd) ` set ds \<subseteq> beneficiaries cfg c ops"
    "subseq qs (transferred cfg c ops)"
    by (auto simp: split_payments_def)
  have "debit = (\<lambda>(holder, receiver, amount). (holder, amount))" by (auto simp: debit_def)
  moreover have "bridge_world t = bridge_world (message (logged cfg) ops ?s)" "holding_origins t = outer"
    using assms(2) by (auto simp: executor_execute_def)
  ultimately show ?thesis using ds unfolding log_of_def by (intro conjI exI [of _ ds] exI [of _ qs]) auto
qed

text \<open>A location is a parent count with numbers for junctions; 9 is the pallet, 100 up are accounts.\<close>

definition sample_bridge :: "(nat \<times> nat list, nat, unit, nat) bridge_config" where
  "sample_bridge =
     \<lparr>parent_count = fst, interior_of = snd,
      account_key20 = (\<lambda>j. if 100 \<le> j then Some (replicate 19 0 @ [word_of_nat j]) else None),
      general_key = (\<lambda>j. None), fungible_assets_iter = (\<lambda>_. []), saturating_take_fungible = (\<lambda>_ h. h),
      inner_drop_assets = (\<lambda>_ _ w. (weight_zero, w)),
      bridge_runner_call = (\<lambda>h c i v g wl pl n. (Inr \<lparr>exit_reason = Succeed Returned,
        exit_value = to_be_bytes 32 1\<rparr>, n + 1)),
      bridge_gas_to_weight = (\<lambda>_ _. weight_zero),
      AccountIdConverter = (\<lambda>(_, js). case js of [j] \<Rightarrow> Some (replicate 19 0 @ [word_of_nat j]) | _ \<Rightarrow> None),
      Erc20MultilocationPrefix = (0, [9]), Erc20TransferGasLimit = 400000\<rparr>"

abbreviation sample_token :: "nat \<Rightarrow> (nat \<times> nat list) Asset" where
  "sample_token \<equiv> fungible_asset (0, [9, 200])"

definition sample_ops :: "(nat \<times> nat list) bridge_op list" where
  "sample_ops = [Withdrawal (sample_token 5) (0, [101]), Transfer (sample_token 3) (0, [104]) (0, [105]),
     Withdrawal (sample_token 7) (0, [102]), Deposit (sample_token 5) (0, [103])]"

abbreviation sample_account :: "byte \<Rightarrow> H160" where
  "sample_account n \<equiv> replicate 19 0 @ [n]"

lemma withdrawals_transferred_witness:
  "let c = sample_account 200 in
   \<exists>t. executor_execute (\<lambda>s. ((), message (logged sample_bridge) sample_ops s))
      \<lparr>holding_origins = None, bridge_world = (0, [])\<rparr> = ((), t)
     \<and> (\<exists>ds qs. paid c (snd (bridge_world t)) \<in> shuffles ds qs
        \<and> subseq (map (\<lambda>(holder, receiver, amount). (holder, amount)) ds) (withdrawn sample_bridge c sample_ops)
        \<and> subseq qs (transferred sample_bridge c sample_ops))
     \<and> paid c (snd (bridge_world t)) =
         [(sample_account 104, sample_account 105, 3), (sample_account 101, sample_account 103, 5)]
     \<and> withdrawn sample_bridge c sample_ops = [(sample_account 101, 5), (sample_account 102, 7)]"
proof -
  let ?c = "sample_account 200"
  let ?s = "\<lparr>holding_origins = None, bridge_world = (0, [])\<rparr> :: (nat \<times> transfer_log) bridge_state"
  have len: "\<forall>l b. AccountIdConverter sample_bridge l = Some b \<longrightarrow> length b = 20"
    by (auto simp: sample_bridge_def split: list.splits)
  let ?run = "executor_execute (\<lambda>s. ((), message (logged sample_bridge) sample_ops s)) ?s"
  have t: "?run = ((), snd ?run)" by (simp add: prod_eq_iff)
  have token: "matches_fungibles sample_bridge (sample_token n) = Inr (?c, word_of_nat n)" for n
    by (simp add: matches_fungibles_def fungible_asset_def matches_erc20_multilocation_def sample_bridge_def
        junction_at_def)
  have who: "AccountIdConverter sample_bridge (0, [j]) = Some (sample_account (word_of_nat j))" for j
    by (simp add: sample_bridge_def)
  have runner: "bridge_runner_call (logged sample_bridge) h c i v g wl pl (n, log)
      = (Inr \<lparr>exit_reason = Succeed Returned, exit_value = to_be_bytes 32 1\<rparr>, n + 1, log @ [(c, h, i)])"
    for h c i v g wl pl n log
    by (simp add: logged_def logging_call_def sample_bridge_def succeeded_def)
  have nonempty: "to_be_bytes 32 x \<noteq> []" for x using length_to_be_bytes [of 32 x] by (cases "to_be_bytes 32 x") auto
  have "withdrawn sample_bridge ?c sample_ops = [(sample_account 101, 5), (sample_account 102, 7)]"
    by (simp add: withdrawn_def sample_ops_def token who)
  moreover have "paid ?c (snd (bridge_world (snd ?run))) =
      [(sample_account 104, sample_account 105, 3), (sample_account 101, sample_account 103, 5)]"
    by (simp add: executor_execute_def message_def sample_ops_def bridge_withdraw_asset_def bridge_match_def
        bridge_account_def with_origins_def token who prog_defs origins_insert_def bridge_deposit_asset_def
        bridge_internal_transfer_asset_def transactional_def
        drain_def drain_inner_def in_bridge_world_def map_err_m_def bridge_erc20_transfer_def run_evm_def
        runner Let_def paid_def succeeded_def nonempty
        ERC20_TRANSFER_SELECTOR_def h256_from_def h256_from_uint_def from_to_be_bytes)
  ultimately show ?thesis
    using withdrawals_transferred_at_most_once [OF len t, of ?c] t
    unfolding Let_def by blast
qed

end
