(* ===== verification/Relay_Encoding.thy ===== *)
theory Relay_Encoding
  imports Bytes
begin

text \<open>
  The encoding of calls for the relay chain: by the index table that pallet-xcm-transactor keeps in
  its storage (\<open>encode.rs\<close>, \<open>relay_indices.rs\<close>), and by the call enums of the three relay chains
  (\<open>src/runtime/relay-encoder\<close>), with the proof that they agree. The SCALE encoding of
  an argument is a parameter; a derived encoding of an enum is the index of the variant, a byte,
  followed by its arguments.
\<close>

section \<open>The calls (\<open>src/primitives/xcm/src/transactor_traits.rs\<close>)\<close>

type_synonym ParaId = "32 word"
type_synonym HrmpChannelId = "ParaId \<times> ParaId"

datatype UtilityAvailableCalls = AsDerivative "16 word" "byte list"

datatype HrmpAvailableCalls =
    InitOpenChannel ParaId "32 word" "32 word"
  | AcceptOpenChannel ParaId
  | CloseChannel HrmpChannelId
  | CancelOpenRequest HrmpChannelId "32 word"

text \<open>Over the reward destinations \<open>'d\<close> and the preferences \<open>'p\<close> of pallet-staking, and accounts \<open>'a\<close>.\<close>

datatype ('d, 'p, 'a) AvailableStakeCalls =
    CallBond nat 'd
  | CallBondExtra nat
  | CallUnbond nat
  | CallWithdrawUnbonded "32 word"
  | CallValidate 'p
  | CallNominate "'a list"
  | CallChill
  | CallSetPayee 'd
  | CallSetController
  | CallRebond nat

datatype hrmp_encode_error = Unimplemented

definition unit_hrmp_encode_call :: "HrmpAvailableCalls \<Rightarrow> hrmp_encode_error + byte list" where
  "unit_hrmp_encode_call _ = Inl Unimplemented"

text \<open>The codec of the arguments; nominations are encoded as lookup sources \<open>'s\<close> of the accounts.\<close>

record scale_codec =
  enc_u16 :: "16 word \<Rightarrow> byte list"
  enc_u32 :: "32 word \<Rightarrow> byte list"
  enc_para_id :: "ParaId \<Rightarrow> byte list"
  enc_channel_id :: "HrmpChannelId \<Rightarrow> byte list"

record ('d, 'p, 'a, 's) staking_codec = scale_codec +
  enc_compact :: "nat \<Rightarrow> byte list"
  enc_destination :: "'d \<Rightarrow> byte list"
  enc_prefs :: "'p \<Rightarrow> byte list"
  enc_sources :: "'s list \<Rightarrow> byte list"
  source_of :: "'a \<Rightarrow> 's"

section \<open>Encoding by a table of indices (\<open>relay_indices.rs\<close>, \<open>encode.rs\<close>)\<close>

record RelayChainIndices =
  ri_staking :: byte
  ri_utility :: byte
  ri_hrmp :: byte
  ri_bond :: byte
  ri_bond_extra :: byte
  ri_unbond :: byte
  ri_withdraw_unbonded :: byte
  ri_validate :: byte
  ri_nominate :: byte
  ri_chill :: byte
  ri_set_payee :: byte
  ri_set_controller :: byte
  ri_rebond :: byte
  ri_as_derivative :: byte
  ri_init_open_channel :: byte
  ri_accept_open_channel :: byte
  ri_close_channel :: byte
  ri_cancel_open_request :: byte

fun utility_encode_call ::
  "'x scale_codec_scheme \<Rightarrow> RelayChainIndices \<Rightarrow> UtilityAvailableCalls \<Rightarrow> byte list" where
  "utility_encode_call cd ri (AsDerivative a b) =
     [ri_utility ri, ri_as_derivative ri] @ enc_u16 cd a @ b"

fun hrmp_encode_call ::
  "'x scale_codec_scheme \<Rightarrow> RelayChainIndices \<Rightarrow> HrmpAvailableCalls \<Rightarrow> hrmp_encode_error + byte list" where
  "hrmp_encode_call cd ri (InitOpenChannel a b c) =
     Inr ([ri_hrmp ri, ri_init_open_channel ri] @ enc_para_id cd a @ enc_u32 cd b @ enc_u32 cd c)"
| "hrmp_encode_call cd ri (AcceptOpenChannel a) =
     Inr ([ri_hrmp ri, ri_accept_open_channel ri] @ enc_para_id cd a)"
| "hrmp_encode_call cd ri (CloseChannel a) =
     Inr ([ri_hrmp ri, ri_close_channel ri] @ enc_channel_id cd a)"
| "hrmp_encode_call cd ri (CancelOpenRequest a b) =
     Inr ([ri_hrmp ri, ri_cancel_open_request ri] @ enc_channel_id cd a @ enc_u32 cd b)"

fun stake_encode_call ::
  "('d, 'p, 'a, 's) staking_codec \<Rightarrow> RelayChainIndices \<Rightarrow> ('d, 'p, 'a) AvailableStakeCalls \<Rightarrow> byte list" where
  "stake_encode_call cd ri (CallBond b c) =
     [ri_staking ri, ri_bond ri] @ enc_compact cd b @ enc_destination cd c"
| "stake_encode_call cd ri (CallBondExtra a) = [ri_staking ri, ri_bond_extra ri] @ enc_compact cd a"
| "stake_encode_call cd ri (CallUnbond a) = [ri_staking ri, ri_unbond ri] @ enc_compact cd a"
| "stake_encode_call cd ri (CallWithdrawUnbonded a) =
     [ri_staking ri, ri_withdraw_unbonded ri] @ enc_u32 cd a"
| "stake_encode_call cd ri (CallValidate a) = [ri_staking ri, ri_validate ri] @ enc_prefs cd a"
| "stake_encode_call cd ri CallChill = [ri_staking ri, ri_chill ri]"
| "stake_encode_call cd ri (CallSetPayee a) = [ri_staking ri, ri_set_payee ri] @ enc_destination cd a"
| "stake_encode_call cd ri CallSetController = [ri_staking ri, ri_set_controller ri]"
| "stake_encode_call cd ri (CallRebond a) = [ri_staking ri, ri_rebond ri] @ enc_compact cd a"
| "stake_encode_call cd ri (CallNominate a) =
     [ri_staking ri, ri_nominate ri] @ enc_sources cd (map (source_of cd) a)"

section \<open>The call enums of the relay chains (\<open>polkadot.rs\<close>, \<open>kusama.rs\<close>, \<open>westend.rs\<close>)\<close>

datatype UtilityCall = UtilityAsDerivative "16 word"

datatype ('d, 'p, 's) StakeCall =
    StakeBond nat 'd
  | StakeBondExtra nat
  | StakeUnbond nat
  | StakeWithdrawUnbonded "32 word"
  | StakeValidate 'p
  | StakeNominate "'s list"
  | StakeChill
  | StakeSetPayee 'd
  | StakeSetController
  | StakeRebond nat

datatype HrmpCall =
    HrmpInitOpenChannel ParaId "32 word" "32 word"
  | HrmpAcceptOpenChannel ParaId
  | HrmpCloseChannel HrmpChannelId
  | HrmpCancelOpenRequest HrmpChannelId "32 word"

datatype ('d, 'p, 's) RelayCall =
    Utility UtilityCall
  | Stake "('d, 'p, 's) StakeCall"
  | Hrmp HrmpCall

text \<open>The derived encodings; the three chains number the calls of a pallet alike.\<close>

fun encode_utility :: "'x scale_codec_scheme \<Rightarrow> UtilityCall \<Rightarrow> byte list" where
  "encode_utility cd (UtilityAsDerivative a) = 1 # enc_u16 cd a"

fun encode_stake :: "('d, 'p, 'a, 's) staking_codec \<Rightarrow> ('d, 'p, 's) StakeCall \<Rightarrow> byte list" where
  "encode_stake cd (StakeBond a b) = 0 # enc_compact cd a @ enc_destination cd b"
| "encode_stake cd (StakeBondExtra a) = 1 # enc_compact cd a"
| "encode_stake cd (StakeUnbond a) = 2 # enc_compact cd a"
| "encode_stake cd (StakeWithdrawUnbonded a) = 3 # enc_u32 cd a"
| "encode_stake cd (StakeValidate a) = 4 # enc_prefs cd a"
| "encode_stake cd (StakeNominate a) = 5 # enc_sources cd a"
| "encode_stake cd StakeChill = [6]"
| "encode_stake cd (StakeSetPayee a) = 7 # enc_destination cd a"
| "encode_stake cd StakeSetController = [8]"
| "encode_stake cd (StakeRebond a) = 19 # enc_compact cd a"

fun encode_hrmp :: "'x scale_codec_scheme \<Rightarrow> HrmpCall \<Rightarrow> byte list" where
  "encode_hrmp cd (HrmpInitOpenChannel a b c) = 0 # enc_para_id cd a @ enc_u32 cd b @ enc_u32 cd c"
| "encode_hrmp cd (HrmpAcceptOpenChannel a) = 1 # enc_para_id cd a"
| "encode_hrmp cd (HrmpCloseChannel a) = 2 # enc_channel_id cd a"
| "encode_hrmp cd (HrmpCancelOpenRequest a b) = 6 # enc_channel_id cd a @ enc_u32 cd b"

fun polkadot_encode :: "('d, 'p, 'a, 's) staking_codec \<Rightarrow> ('d, 'p, 's) RelayCall \<Rightarrow> byte list" where
  "polkadot_encode cd (Utility c) = 26 # encode_utility cd c"
| "polkadot_encode cd (Stake c) = 7 # encode_stake cd c"
| "polkadot_encode cd (Hrmp c) = 60 # encode_hrmp cd c"

fun kusama_encode :: "('d, 'p, 'a, 's) staking_codec \<Rightarrow> ('d, 'p, 's) RelayCall \<Rightarrow> byte list" where
  "kusama_encode cd (Stake c) = 6 # encode_stake cd c"
| "kusama_encode cd (Utility c) = 24 # encode_utility cd c"
| "kusama_encode cd (Hrmp c) = 60 # encode_hrmp cd c"

fun westend_encode :: "('d, 'p, 'a, 's) staking_codec \<Rightarrow> ('d, 'p, 's) RelayCall \<Rightarrow> byte list" where
  "westend_encode cd (Utility c) = 16 # encode_utility cd c"
| "westend_encode cd (Stake c) = 6 # encode_stake cd c"
| "westend_encode cd (Hrmp c) = 51 # encode_hrmp cd c"

text \<open>The encoders of a chain, over the encoding of its call enum.\<close>

fun relay_utility_encode_call ::
  "(('d, 'p, 's) RelayCall \<Rightarrow> byte list) \<Rightarrow> UtilityAvailableCalls \<Rightarrow> byte list" where
  "relay_utility_encode_call encode (AsDerivative a b) = encode (Utility (UtilityAsDerivative a)) @ b"

fun relay_hrmp_encode_call ::
  "(('d, 'p, 's) RelayCall \<Rightarrow> byte list) \<Rightarrow> HrmpAvailableCalls \<Rightarrow> hrmp_encode_error + byte list" where
  "relay_hrmp_encode_call encode (InitOpenChannel a b c) = Inr (encode (Hrmp (HrmpInitOpenChannel a b c)))"
| "relay_hrmp_encode_call encode (AcceptOpenChannel a) = Inr (encode (Hrmp (HrmpAcceptOpenChannel a)))"
| "relay_hrmp_encode_call encode (CloseChannel a) = Inr (encode (Hrmp (HrmpCloseChannel a)))"
| "relay_hrmp_encode_call encode (CancelOpenRequest a b) = Inr (encode (Hrmp (HrmpCancelOpenRequest a b)))"

fun relay_stake_encode_call ::
  "('d, 'p, 'a, 's) staking_codec \<Rightarrow> (('d, 'p, 's) RelayCall \<Rightarrow> byte list)
    \<Rightarrow> ('d, 'p, 'a) AvailableStakeCalls \<Rightarrow> byte list" where
  "relay_stake_encode_call cd encode (CallBond b c) = encode (Stake (StakeBond b c))"
| "relay_stake_encode_call cd encode (CallBondExtra a) = encode (Stake (StakeBondExtra a))"
| "relay_stake_encode_call cd encode (CallUnbond a) = encode (Stake (StakeUnbond a))"
| "relay_stake_encode_call cd encode (CallWithdrawUnbonded a) = encode (Stake (StakeWithdrawUnbonded a))"
| "relay_stake_encode_call cd encode (CallValidate a) = encode (Stake (StakeValidate a))"
| "relay_stake_encode_call cd encode CallChill = encode (Stake StakeChill)"
| "relay_stake_encode_call cd encode (CallSetPayee a) = encode (Stake (StakeSetPayee a))"
| "relay_stake_encode_call cd encode CallSetController = encode (Stake StakeSetController)"
| "relay_stake_encode_call cd encode (CallRebond a) = encode (Stake (StakeRebond a))"
| "relay_stake_encode_call cd encode (CallNominate a) =
     (let nominated = map (source_of cd) a in encode (Stake (StakeNominate nominated)))"

definition POLKADOT_RELAY_INDICES :: RelayChainIndices where
  "POLKADOT_RELAY_INDICES = \<lparr>
     ri_staking = 7, ri_utility = 26, ri_hrmp = 60,
     ri_bond = 0, ri_bond_extra = 1, ri_unbond = 2, ri_withdraw_unbonded = 3, ri_validate = 4,
     ri_nominate = 5, ri_chill = 6, ri_set_payee = 7, ri_set_controller = 8, ri_rebond = 19,
     ri_as_derivative = 1,
     ri_init_open_channel = 0, ri_accept_open_channel = 1, ri_close_channel = 2,
     ri_cancel_open_request = 6\<rparr>"

definition KUSAMA_RELAY_INDICES :: RelayChainIndices where
  "KUSAMA_RELAY_INDICES = \<lparr>
     ri_staking = 6, ri_utility = 24, ri_hrmp = 60,
     ri_bond = 0, ri_bond_extra = 1, ri_unbond = 2, ri_withdraw_unbonded = 3, ri_validate = 4,
     ri_nominate = 5, ri_chill = 6, ri_set_payee = 7, ri_set_controller = 8, ri_rebond = 19,
     ri_as_derivative = 1,
     ri_init_open_channel = 0, ri_accept_open_channel = 1, ri_close_channel = 2,
     ri_cancel_open_request = 6\<rparr>"

definition WESTEND_RELAY_INDICES :: RelayChainIndices where
  "WESTEND_RELAY_INDICES = \<lparr>
     ri_staking = 6, ri_utility = 16, ri_hrmp = 51,
     ri_bond = 0, ri_bond_extra = 1, ri_unbond = 2, ri_withdraw_unbonded = 3, ri_validate = 4,
     ri_nominate = 5, ri_chill = 6, ri_set_payee = 7, ri_set_controller = 8, ri_rebond = 19,
     ri_as_derivative = 1,
     ri_init_open_channel = 0, ri_accept_open_channel = 1, ri_close_channel = 2,
     ri_cancel_open_request = 6\<rparr>"

text \<open>\<open>PolkadotEncoder\<close>, \<open>KusamaEncoder\<close>, \<open>WestendEncoder\<close>.\<close>

definition polkadot_utility_encode_call ::
  "('d, 'p, 'a, 's) staking_codec \<Rightarrow> UtilityAvailableCalls \<Rightarrow> byte list" where
  "polkadot_utility_encode_call cd = relay_utility_encode_call (polkadot_encode cd)"

definition polkadot_hrmp_encode_call ::
  "('d, 'p, 'a, 's) staking_codec \<Rightarrow> HrmpAvailableCalls \<Rightarrow> hrmp_encode_error + byte list" where
  "polkadot_hrmp_encode_call cd = relay_hrmp_encode_call (polkadot_encode cd)"

definition polkadot_stake_encode_call ::
  "('d, 'p, 'a, 's) staking_codec \<Rightarrow> ('d, 'p, 'a) AvailableStakeCalls \<Rightarrow> byte list" where
  "polkadot_stake_encode_call cd = relay_stake_encode_call cd (polkadot_encode cd)"

definition kusama_utility_encode_call ::
  "('d, 'p, 'a, 's) staking_codec \<Rightarrow> UtilityAvailableCalls \<Rightarrow> byte list" where
  "kusama_utility_encode_call cd = relay_utility_encode_call (kusama_encode cd)"

definition kusama_hrmp_encode_call ::
  "('d, 'p, 'a, 's) staking_codec \<Rightarrow> HrmpAvailableCalls \<Rightarrow> hrmp_encode_error + byte list" where
  "kusama_hrmp_encode_call cd = relay_hrmp_encode_call (kusama_encode cd)"

definition kusama_stake_encode_call ::
  "('d, 'p, 'a, 's) staking_codec \<Rightarrow> ('d, 'p, 'a) AvailableStakeCalls \<Rightarrow> byte list" where
  "kusama_stake_encode_call cd = relay_stake_encode_call cd (kusama_encode cd)"

definition westend_utility_encode_call ::
  "('d, 'p, 'a, 's) staking_codec \<Rightarrow> UtilityAvailableCalls \<Rightarrow> byte list" where
  "westend_utility_encode_call cd = relay_utility_encode_call (westend_encode cd)"

definition westend_hrmp_encode_call ::
  "('d, 'p, 'a, 's) staking_codec \<Rightarrow> HrmpAvailableCalls \<Rightarrow> hrmp_encode_error + byte list" where
  "westend_hrmp_encode_call cd = relay_hrmp_encode_call (westend_encode cd)"

definition westend_stake_encode_call ::
  "('d, 'p, 'a, 's) staking_codec \<Rightarrow> ('d, 'p, 'a) AvailableStakeCalls \<Rightarrow> byte list" where
  "westend_stake_encode_call cd = relay_stake_encode_call cd (westend_encode cd)"

section \<open>The two encodings agree\<close>

named_theorems relay_defs \<open>the encoders of the three relay chains, with their tables of indices\<close>

declare
  POLKADOT_RELAY_INDICES_def [relay_defs] KUSAMA_RELAY_INDICES_def [relay_defs]
  WESTEND_RELAY_INDICES_def [relay_defs]
  polkadot_utility_encode_call_def [relay_defs] polkadot_hrmp_encode_call_def [relay_defs]
  polkadot_stake_encode_call_def [relay_defs] kusama_utility_encode_call_def [relay_defs]
  kusama_hrmp_encode_call_def [relay_defs] kusama_stake_encode_call_def [relay_defs]
  westend_utility_encode_call_def [relay_defs] westend_hrmp_encode_call_def [relay_defs]
  westend_stake_encode_call_def [relay_defs]

lemma utility_encoders_agree:
  "utility_encode_call cd POLKADOT_RELAY_INDICES c = polkadot_utility_encode_call cd c"
  "utility_encode_call cd KUSAMA_RELAY_INDICES c = kusama_utility_encode_call cd c"
  "utility_encode_call cd WESTEND_RELAY_INDICES c = westend_utility_encode_call cd c"
  by (cases c; simp add: relay_defs)+

lemma hrmp_encoders_agree:
  "hrmp_encode_call cd POLKADOT_RELAY_INDICES c = polkadot_hrmp_encode_call cd c"
  "hrmp_encode_call cd KUSAMA_RELAY_INDICES c = kusama_hrmp_encode_call cd c"
  "hrmp_encode_call cd WESTEND_RELAY_INDICES c = westend_hrmp_encode_call cd c"
  by (cases c; simp add: relay_defs)+

lemma stake_encoders_agree:
  "stake_encode_call cd POLKADOT_RELAY_INDICES c = polkadot_stake_encode_call cd c"
  "stake_encode_call cd KUSAMA_RELAY_INDICES c = kusama_stake_encode_call cd c"
  "stake_encode_call cd WESTEND_RELAY_INDICES c = westend_stake_encode_call cd c"
  by (cases c; simp add: relay_defs)+

text \<open>An encoded index has two bytes, so what follows it cannot pass for another index.\<close>

definition codec_laws :: "'x scale_codec_scheme \<Rightarrow> bool" where
  "codec_laws cd \<longleftrightarrow> (\<forall>i. length (enc_u16 cd i) = 2) \<and> inj (enc_u16 cd)"

lemma as_derivative_inj:
  assumes "codec_laws cd"
    and "utility_encode_call cd ri (AsDerivative i b) = utility_encode_call cd ri (AsDerivative j b')"
  shows "i = j \<and> b = b'"
  using assms by (auto simp: codec_laws_def dest: injD)

end
