(* ===== verification/Xcm_Transactor.thy ===== *)
theory Xcm_Transactor
  imports Weight_Trader Relay_Encoding
begin

text \<open>
  pallet-xcm-transactor: calls dispatched on another chain by a message, through an account derived
  from this chain's sovereign account, through that account itself, or as a signed account of this
  chain. Locations, the reanchoring of assets, the senders of messages and the pallets that hold
  assets are parameters.
\<close>

section \<open>Messages\<close>

text \<open>The instructions of XCM that the pallet builds, over locations \<open>'l\<close> and interiors \<open>'j\<close>.\<close>

datatype OriginKind = OriginNative | OriginSovereignAccount | OriginSuperuser | OriginXcm

datatype WeightLimit = Unlimited | Limited Weight

datatype AssetFilter = WildAll | WildAllCounted nat

datatype ('l, 'j) Instruction =
    WithdrawAsset "'l Asset list"
  | BuyExecution "'l Asset" WeightLimit
  | SetAppendix "('l, 'j) Instruction list"
  | Transact OriginKind "Weight option" "byte list"
  | DescendOrigin 'j
  | RefundSurplus
  | DepositAsset AssetFilter 'l
  | InitiateReserveWithdraw AssetFilter 'l "('l, 'j) Instruction list"

type_synonym ('l, 'j) xcm = "('l, 'j) Instruction list"

section \<open>Types\<close>

record RemoteTransactInfoWithMaxWeight =
  transact_extra_weight :: Weight
  max_weight :: Weight
  transact_extra_weight_signed :: "Weight option"

datatype ('c, 'v) Currency = AsCurrencyId 'c | AsMultiLocation 'v

record HrmpInitParams =
  hip_para_id :: ParaId
  proposed_max_capacity :: "32 word"
  proposed_max_message_size :: "32 word"

datatype HrmpOperation =
    InitOpen HrmpInitParams
  | Accept ParaId
  | Close HrmpChannelId
  | Cancel HrmpChannelId "32 word"

record ('c, 'v) CurrencyPayment =
  payment_currency :: "('c, 'v) Currency"
  fee_amount :: "nat option"

record TransactWeights =
  transact_required_weight_at_most :: Weight
  overall_weight :: "WeightLimit option"

definition MAX_WEIGHT :: Weight where
  "MAX_WEIGHT = \<lparr>ref_time = 100000000000, proof_size = 100000\<rparr>"

datatype transactor_error =
    IndexAlreadyClaimed | UnclaimedIndex | NotOwner | UnweighableMessage | CannotReanchor
  | AssetHasNoReserve | InvalidDest | NotCrossChainTransfer | AssetIsNotReserveInDestination
  | DestinationNotInvertible | ErrorDelivering | DispatchWeightBiggerThanTotalWeight | WeightOverflow
  | AmountOverflow | TransactorInfoNotSet | NotCrossChainTransferableCurrency | XcmExecuteError
  | BadVersion | MaxWeightTransactReached | UnableToWithdrawAsset | FeePerSecondNotSet
  | SignedTransactNotAllowedForDestination | FailedMultiLocationToJunction
  | HrmpHandlerNotImplemented | TooMuchFeeUsed | ErrorValidating | RefundNotSupportedWithTransactInfo

datatype 'l transactor_event =
    TransactedDerivative AccountId 'l "byte list" "16 word"
  | TransactedSovereign "AccountId option" 'l "byte list"
  | TransactedSigned AccountId 'l "byte list"
  | RegisteredDerivative AccountId "16 word"
  | DeRegisteredDerivative "16 word"
  | TransactFailed string
  | TransactInfoChanged 'l RemoteTransactInfoWithMaxWeight
  | TransactInfoRemoved 'l
  | DestFeePerSecondChanged 'l nat
  | DestFeePerSecondRemoved 'l
  | HrmpManagementSent HrmpOperation

record ('l, 'w) transactor =
  IndexToAccount :: "16 word \<rightharpoonup> AccountId"
  TransactInfoWithWeightLimit :: "'l \<rightharpoonup> RemoteTransactInfoWithMaxWeight"
  DestinationAssetFeePerSecond :: "'l \<rightharpoonup> nat"
  RelayIndices :: RelayChainIndices
  transactor_events :: "'l transactor_event list"
  transactor_world :: 'w

text \<open>
  The configuration: versioned locations \<open>'v\<close>, currencies \<open>'c\<close>, destinations \<open>'t\<close> (which
  encode a call, with the table of indices at hand), tickets \<open>'k\<close> of validated messages.
\<close>

record ('l, 'j, 'v, 'c, 't, 'k, 'w) transactor_config =
  scale :: scale_codec
  location_of_versioned :: "'v \<Rightarrow> 'l option"
  CurrencyIdToLocation :: "'c \<Rightarrow> 'l option"
  transactor_encode_call :: "'t \<Rightarrow> RelayChainIndices \<Rightarrow> UtilityAvailableCalls \<Rightarrow> byte list"
  transactor_destination :: "'t \<Rightarrow> 'l"
  transactor_withdraw_asset :: "'l Asset \<Rightarrow> 'l \<Rightarrow> 'w \<Rightarrow> 'w option"
  DerivativeAddressRegistrationOrigin :: "origin \<Rightarrow> bool"
  HrmpManipulatorOrigin :: "origin \<Rightarrow> bool"
  HrmpOpenOrigin :: "origin \<Rightarrow> bool"
  SovereignAccountDispatcherOrigin :: "origin \<Rightarrow> bool"
  AccountIdToLocation :: "AccountId \<Rightarrow> 'l"
  interior_of_location :: "'l \<Rightarrow> 'j option"
  weigh :: "('l, 'j) xcm \<Rightarrow> Weight option"
  UniversalLocation :: 'j
  SelfLocation :: 'l
  location_parent :: 'l
  chain_location :: "'l \<Rightarrow> 'l"
  reanchored :: "'l Asset \<Rightarrow> 'l \<Rightarrow> 'j \<Rightarrow> 'l Asset option"
  reanchor :: "'l \<Rightarrow> 'l \<Rightarrow> 'j \<Rightarrow> 'l option"
  xcm_validate :: "'l \<Rightarrow> ('l, 'j) xcm \<Rightarrow> 'w \<Rightarrow> 'k option"
  xcm_deliver :: "'k \<Rightarrow> 'w \<Rightarrow> 'w option"
  BaseXcmWeight :: Weight
  asset_reserve :: "'l Asset \<Rightarrow> 'l option"
  MaxHrmpFee :: "'l Asset \<Rightarrow> bool"

type_synonym ('l, 'w, 'a) transactor_m = "(('l, 'w) transactor, transactor_error pallet_error, 'a) prog"

definition deposit_transactor_event :: "'l transactor_event \<Rightarrow> ('l, 'w, unit) transactor_m" where
  "deposit_transactor_event e = modify_m (\<lambda>s. s\<lparr>transactor_events := transactor_events s @ [e]\<rparr>)"

text \<open>A call of another pallet whose error is replaced.\<close>

definition in_transactor_world ::
  "('w \<Rightarrow> 'w option) \<Rightarrow> transactor_error \<Rightarrow> ('l, 'w, unit) transactor_m" where
  "in_transactor_world f e =
     bind_m (gets_m (\<lambda>s. f (transactor_world s))) (\<lambda>r.
     bind_m (ok_or_p r e) (\<lambda>w. modify_m (\<lambda>s. s\<lparr>transactor_world := w\<rparr>)))"

lemma wp_transactor [wp_simps]:
  "wp (deposit_transactor_event ev) Q E s = Q () (s\<lparr>transactor_events := transactor_events s @ [ev]\<rparr>)"
  "wp (in_transactor_world f e) Q E s = (case f (transactor_world s) of
     None \<Rightarrow> E (PalletError e) s | Some w \<Rightarrow> Q () (s\<lparr>transactor_world := w\<rparr>))"
  by (simp_all add: deposit_transactor_event_def in_transactor_world_def wp_simps split: option.split)

section \<open>Fees and weights\<close>

text \<open>\<open>Weight::checked_add\<close> and \<open>Weight::saturating_add\<close>, part by part at 64 bits.\<close>

definition weight_checked_add :: "Weight \<Rightarrow> Weight \<Rightarrow> Weight option" where
  "weight_checked_add a b =
     (if ref_time a + ref_time b \<le> u64_max \<and> proof_size a + proof_size b \<le> u64_max
      then Some \<lparr>ref_time = ref_time a + ref_time b, proof_size = proof_size a + proof_size b\<rparr>
      else None)"

definition weight_saturating_add :: "Weight \<Rightarrow> Weight \<Rightarrow> Weight" where
  "weight_saturating_add a b =
     \<lparr>ref_time = min (ref_time a + ref_time b) u64_max, proof_size = min (proof_size a + proof_size b) u64_max\<rparr>"

definition all_lte :: "Weight \<Rightarrow> Weight \<Rightarrow> bool" where
  "all_lte a b \<longleftrightarrow> ref_time a \<le> ref_time b \<and> proof_size a \<le> proof_size b"

definition WEIGHT_REF_TIME_PER_SECOND :: nat where "WEIGHT_REF_TIME_PER_SECOND = 1000000000000"

definition calculate_fee_per_second :: "Weight \<Rightarrow> nat \<Rightarrow> nat" where
  "calculate_fee_per_second weight fee_per_second =
     (let weight_per_second_u128 = WEIGHT_REF_TIME_PER_SECOND;
          fee_mul_rounded_up = sat_add_u128 (sat_mul_u128 fee_per_second (ref_time weight))
            (weight_per_second_u128 - 1)
      in fee_mul_rounded_up div weight_per_second_u128)"

definition ensure_valid_dest ::
  "('l, 'j, 'v, 'c, 't, 'k, 'w) transactor_config \<Rightarrow> 'l \<Rightarrow> ('l, 'w, 'l) transactor_m" where
  "ensure_valid_dest cfg dest =
     (let cl = chain_location cfg dest in if dest = cl then return_m cl else err_p InvalidDest)"

definition transfer_allowed ::
  "('l, 'j, 'v, 'c, 't, 'k, 'w) transactor_config \<Rightarrow> 'l Asset \<Rightarrow> 'l \<Rightarrow> ('l, 'w, 'l) transactor_m" where
  "transfer_allowed cfg asset dest =
     bind_m (ensure_valid_dest cfg dest) (\<lambda>dest.
     let self_location = SelfLocation cfg
     in then_m (ensure_p (dest \<noteq> self_location) NotCrossChainTransfer)
       (bind_m (ok_or_p (asset_reserve cfg asset) AssetHasNoReserve) (\<lambda>reserve.
        then_m (ensure_p (reserve = dest) AssetIsNotReserveInDestination)
          (return_m dest))))"

definition take_weight_from_transact_info ::
  "'l \<Rightarrow> Weight \<Rightarrow> bool \<Rightarrow> ('l, 'w, Weight) transactor_m" where
  "take_weight_from_transact_info dest dest_weight refund =
     then_m (ensure_p (\<not> refund) RefundNotSupportedWithTransactInfo)
    (bind_m (gets_m (\<lambda>s. TransactInfoWithWeightLimit s dest)) (\<lambda>found.
     bind_m (ok_or_p found TransactorInfoNotSet) (\<lambda>transactor_info.
     bind_m (ok_or_p (weight_checked_add dest_weight (transact_extra_weight transactor_info))
              WeightOverflow) (\<lambda>total_weight.
     then_m (ensure_p (all_lte total_weight (max_weight transactor_info)) MaxWeightTransactReached)
       (return_m total_weight)))))"

definition take_weight_from_transact_info_signed ::
  "'l \<Rightarrow> Weight \<Rightarrow> bool \<Rightarrow> ('l, 'w, Weight) transactor_m" where
  "take_weight_from_transact_info_signed dest dest_weight refund =
     then_m (ensure_p (\<not> refund) RefundNotSupportedWithTransactInfo)
    (bind_m (gets_m (\<lambda>s. TransactInfoWithWeightLimit s dest)) (\<lambda>found.
     bind_m (ok_or_p found TransactorInfoNotSet) (\<lambda>transactor_info.
     bind_m (ok_or_p (transact_extra_weight_signed transactor_info)
              SignedTransactNotAllowedForDestination) (\<lambda>transact_in_dest_as_signed_weight.
     bind_m (ok_or_p (weight_checked_add dest_weight transact_in_dest_as_signed_weight)
              WeightOverflow) (\<lambda>total_weight.
     then_m (ensure_p (all_lte total_weight (max_weight transactor_info)) MaxWeightTransactReached)
       (return_m total_weight))))))"

definition take_fee_per_second_from_storage ::
  "('l, 'j, 'v, 'c, 't, 'k, 'w) transactor_config \<Rightarrow> 'l \<Rightarrow> 'l \<Rightarrow> Weight \<Rightarrow> ('l, 'w, nat) transactor_m" where
  "take_fee_per_second_from_storage cfg fee_location destination total_weight =
     bind_m (gets_m (\<lambda>s. DestinationAssetFeePerSecond s fee_location)) (\<lambda>found.
     bind_m (ok_or_p found FeePerSecondNotSet) (\<lambda>fee_per_second.
     bind_m (transfer_allowed cfg (fungible_asset fee_location fee_per_second) destination) (\<lambda>_.
     return_m (calculate_fee_per_second total_weight fee_per_second))))"

definition currency_to_multilocation ::
  "('l, 'j, 'v, 'c, 't, 'k, 'w) transactor_config \<Rightarrow> ('c, 'v) Currency \<Rightarrow> 'l option" where
  "currency_to_multilocation cfg currency =
     (case currency of
        AsCurrencyId i \<Rightarrow> CurrencyIdToLocation cfg i
      | AsMultiLocation multiloc \<Rightarrow> location_of_versioned cfg multiloc)"

definition calculate_fee ::
  "('l, 'j, 'v, 'c, 't, 'k, 'w) transactor_config \<Rightarrow> 'l \<Rightarrow> nat option \<Rightarrow> 'l \<Rightarrow> Weight
    \<Rightarrow> ('l, 'w, 'l Asset) transactor_m" where
  "calculate_fee cfg fee_location fee_amount' destination total_weight =
     bind_m (case fee_amount' of
         None \<Rightarrow> take_fee_per_second_from_storage cfg fee_location destination total_weight
       | Some v \<Rightarrow> return_m v) (\<lambda>amount.
     return_m \<lparr>asset_id = fee_location, asset_fun = Fungible amount\<rparr>)"

section \<open>Building and sending a message\<close>

definition buy_execution ::
  "('l, 'j, 'v, 'c, 't, 'k, 'w) transactor_config \<Rightarrow> 'l Asset \<Rightarrow> 'l \<Rightarrow> WeightLimit
    \<Rightarrow> ('l, 'w, ('l, 'j) Instruction) transactor_m" where
  "buy_execution cfg asset loc weight =
     bind_m (ok_or_p (reanchored cfg asset loc (UniversalLocation cfg)) CannotReanchor) (\<lambda>fees.
     return_m (BuyExecution fees weight))"

definition withdraw_instruction ::
  "('l, 'j, 'v, 'c, 't, 'k, 'w) transactor_config \<Rightarrow> 'l Asset \<Rightarrow> 'l
    \<Rightarrow> ('l, 'w, ('l, 'j) Instruction) transactor_m" where
  "withdraw_instruction cfg asset loc =
     bind_m (ok_or_p (reanchored cfg asset loc (UniversalLocation cfg)) CannotReanchor) (\<lambda>fees.
     return_m (WithdrawAsset [fees]))"

definition deposit_instruction ::
  "('l, 'j, 'v, 'c, 't, 'k, 'w) transactor_config \<Rightarrow> 'l \<Rightarrow> 'l \<Rightarrow> nat
    \<Rightarrow> ('l, 'w, ('l, 'j) Instruction) transactor_m" where
  "deposit_instruction cfg beneficiary loc max_assets =
     bind_m (ok_or_p (reanchor cfg beneficiary loc (UniversalLocation cfg)) CannotReanchor) (\<lambda>beneficiary.
     return_m (DepositAsset (WildAllCounted max_assets) beneficiary))"

definition appendix_instruction :: "('l, 'j) xcm \<Rightarrow> ('l, 'w, ('l, 'j) Instruction) transactor_m" where
  "appendix_instruction instructions = return_m (SetAppendix instructions)"

definition transact_message ::
  "('l, 'j, 'v, 'c, 't, 'k, 'w) transactor_config \<Rightarrow> 'l \<Rightarrow> 'l Asset \<Rightarrow> WeightLimit \<Rightarrow> byte list \<Rightarrow> Weight
    \<Rightarrow> OriginKind \<Rightarrow> ('l, 'j) xcm option \<Rightarrow> ('l, 'w, ('l, 'j) xcm) transactor_m" where
  "transact_message cfg dest asset dest_weight call dispatch_weight origin_kind with_appendix =
     bind_m (withdraw_instruction cfg asset dest) (\<lambda>withdraw.
     bind_m (buy_execution cfg asset dest dest_weight) (\<lambda>buy.
     bind_m (case with_appendix of
         Some appendix \<Rightarrow> bind_m (appendix_instruction appendix) (\<lambda>a. return_m [a])
       | None \<Rightarrow> return_m []) (\<lambda>appended.
     return_m ([withdraw, buy] @ appended @ [Transact origin_kind (Some dispatch_weight) call]))))"

text \<open>\<open>XcmSender::validate\<close>, then \<open>XcmSender::deliver\<close>.\<close>

definition send_message ::
  "('l, 'j, 'v, 'c, 't, 'k, 'w) transactor_config \<Rightarrow> 'l \<Rightarrow> ('l, 'j) xcm \<Rightarrow> ('l, 'w, unit) transactor_m" where
  "send_message cfg dest message =
     bind_m (gets_m (\<lambda>s. xcm_validate cfg dest message (transactor_world s))) (\<lambda>r.
     bind_m (ok_or_p r ErrorValidating) (\<lambda>ticket.
     in_transactor_world (xcm_deliver cfg ticket) ErrorDelivering))"

definition transact_in_dest_chain_asset_non_signed ::
  "('l, 'j, 'v, 'c, 't, 'k, 'w) transactor_config \<Rightarrow> 'l \<Rightarrow> AccountId option \<Rightarrow> 'l Asset \<Rightarrow> byte list
    \<Rightarrow> OriginKind \<Rightarrow> WeightLimit \<Rightarrow> Weight \<Rightarrow> ('l, 'j) xcm option \<Rightarrow> ('l, 'w, unit) transactor_m" where
  "transact_in_dest_chain_asset_non_signed cfg dest fee_payer fee call origin_kind total_weight at_most
      with_appendix =
     then_m (case fee_payer of
         Some fee_payer \<Rightarrow>
           (let origin_as_mult = AccountIdToLocation cfg fee_payer
            in in_transactor_world (transactor_withdraw_asset cfg fee origin_as_mult) UnableToWithdrawAsset)
       | None \<Rightarrow> return_m ())
    (bind_m (transact_message cfg dest fee total_weight call at_most origin_kind with_appendix)
       (send_message cfg dest))"

definition transact_in_dest_chain_asset_signed ::
  "('l, 'j, 'v, 'c, 't, 'k, 'w) transactor_config \<Rightarrow> 'l \<Rightarrow> AccountId \<Rightarrow> 'l Asset \<Rightarrow> byte list
    \<Rightarrow> OriginKind \<Rightarrow> WeightLimit \<Rightarrow> Weight \<Rightarrow> ('l, 'j) xcm option \<Rightarrow> ('l, 'w, unit) transactor_m" where
  "transact_in_dest_chain_asset_signed cfg dest fee_payer fee call origin_kind total_weight at_most
      with_appendix =
     (let origin_as_mult = AccountIdToLocation cfg fee_payer
      in bind_m (transact_message cfg dest fee total_weight call at_most origin_kind with_appendix)
        (\<lambda>message.
         bind_m (ok_or_p (interior_of_location cfg origin_as_mult) FailedMultiLocationToJunction)
        (\<lambda>interior. send_message cfg dest (DescendOrigin interior # message))))"

definition weight_of_initiate_reserve_withdraw ::
  "('l, 'j, 'v, 'c, 't, 'k, 'w) transactor_config \<Rightarrow> Weight" where
  "weight_of_initiate_reserve_withdraw cfg =
     (let dest = location_parent cfg;
          asset = location_parent cfg;
          fee = \<lparr>asset_id = asset, asset_fun = Fungible 0\<rparr>;
          message = [WithdrawAsset [fee], InitiateReserveWithdraw WildAll dest []]
      in case weigh cfg message of
           None \<Rightarrow> \<lparr>ref_time = u64_max, proof_size = u64_max\<rparr>
         | Some w \<Rightarrow> weight_saturating_add (BaseXcmWeight cfg) w)"

section \<open>Calls\<close>

definition register ::
  "('l, 'j, 'v, 'c, 't, 'k, 'w) transactor_config \<Rightarrow> origin \<Rightarrow> AccountId \<Rightarrow> 16 word
    \<Rightarrow> ('l, 'w, unit) transactor_m" where
  "register cfg o' who index =
     then_m (origin_p (DerivativeAddressRegistrationOrigin cfg) o')
    (bind_m (gets_m (\<lambda>s. IndexToAccount s index)) (\<lambda>found.
     then_m (ensure_p (found = None) IndexAlreadyClaimed)
    (then_m (modify_m (\<lambda>s. s\<lparr>IndexToAccount := (IndexToAccount s)(index \<mapsto> who)\<rparr>))
            (deposit_transactor_event (RegisteredDerivative who index)))))"

definition deregister ::
  "('l, 'j, 'v, 'c, 't, 'k, 'w) transactor_config \<Rightarrow> origin \<Rightarrow> 16 word \<Rightarrow> ('l, 'w, unit) transactor_m" where
  "deregister cfg o' index =
     then_m (origin_p (DerivativeAddressRegistrationOrigin cfg) o')
    (then_m (modify_m (\<lambda>s. s\<lparr>IndexToAccount := (IndexToAccount s)(index := None)\<rparr>))
            (deposit_transactor_event (DeRegisteredDerivative index)))"

text \<open>The weight a message may use: given, or taken from storage.\<close>

definition total_weight_of :: "TransactWeights \<Rightarrow> ('l, 'w, Weight) transactor_m \<Rightarrow> ('l, 'w, WeightLimit) transactor_m"
  where
  "total_weight_of weight_info take_stored =
     (case overall_weight weight_info of
        None \<Rightarrow> bind_m take_stored (\<lambda>w. return_m (Limited w))
      | Some v \<Rightarrow> return_m v)"

definition fee_calculation_weight :: "WeightLimit \<Rightarrow> Weight" where
  "fee_calculation_weight total_weight =
     (case total_weight of Unlimited \<Rightarrow> MAX_WEIGHT | Limited x \<Rightarrow> x)"

definition refund_appendix ::
  "('l, 'j, 'v, 'c, 't, 'k, 'w) transactor_config \<Rightarrow> bool \<Rightarrow> 'l \<Rightarrow> 'l
    \<Rightarrow> ('l, 'w, ('l, 'j) xcm option) transactor_m" where
  "refund_appendix cfg refund beneficiary dest =
     (if refund
      then bind_m (deposit_instruction cfg beneficiary dest 1) (\<lambda>d. return_m (Some [RefundSurplus, d]))
      else return_m None)"

definition transact_through_derivative ::
  "('l, 'j, 'v, 'c, 't, 'k, 'w) transactor_config \<Rightarrow> origin \<Rightarrow> 't \<Rightarrow> 16 word \<Rightarrow> ('c, 'v) CurrencyPayment
    \<Rightarrow> byte list \<Rightarrow> TransactWeights \<Rightarrow> bool \<Rightarrow> ('l, 'w, unit) transactor_m" where
  "transact_through_derivative cfg o' dest index fee inner_call weight_info refund =
     bind_m (signed_p o') (\<lambda>who.
     bind_m (ok_or_p (currency_to_multilocation cfg (payment_currency fee))
              NotCrossChainTransferableCurrency) (\<lambda>fee_location.
     bind_m (gets_m (\<lambda>s. IndexToAccount s index)) (\<lambda>found.
     bind_m (ok_or_p found UnclaimedIndex) (\<lambda>account.
     then_m (ensure_p (account = who) NotOwner)
    (bind_m (gets_m (\<lambda>s. transactor_encode_call cfg dest (RelayIndices s) (AsDerivative index inner_call)))
      (\<lambda>call_bytes.
     let dest = transactor_destination cfg dest
     in bind_m (total_weight_of weight_info
          (take_weight_from_transact_info dest (transact_required_weight_at_most weight_info) refund))
        (\<lambda>total_weight.
     bind_m (calculate_fee cfg fee_location (fee_amount fee) dest (fee_calculation_weight total_weight))
        (\<lambda>fee.
     bind_m (refund_appendix cfg refund (SelfLocation cfg) dest) (\<lambda>appendix.
     then_m (transact_in_dest_chain_asset_non_signed cfg dest (Some who) fee call_bytes
              OriginSovereignAccount total_weight (transact_required_weight_at_most weight_info) appendix)
            (deposit_transactor_event (TransactedDerivative who dest call_bytes index)))))))))))"

definition transact_through_sovereign ::
  "('l, 'j, 'v, 'c, 't, 'k, 'w) transactor_config \<Rightarrow> origin \<Rightarrow> 'v \<Rightarrow> AccountId option
    \<Rightarrow> ('c, 'v) CurrencyPayment \<Rightarrow> byte list \<Rightarrow> OriginKind \<Rightarrow> TransactWeights \<Rightarrow> bool
    \<Rightarrow> ('l, 'w, unit) transactor_m" where
  "transact_through_sovereign cfg o' dest fee_payer fee call origin_kind weight_info refund =
     then_m (origin_p (SovereignAccountDispatcherOrigin cfg) o')
    (bind_m (ok_or_p (currency_to_multilocation cfg (payment_currency fee))
              NotCrossChainTransferableCurrency) (\<lambda>fee_location.
     bind_m (ok_or_p (location_of_versioned cfg dest) BadVersion) (\<lambda>dest.
     bind_m (total_weight_of weight_info
          (take_weight_from_transact_info dest (transact_required_weight_at_most weight_info) refund))
        (\<lambda>total_weight.
     bind_m (calculate_fee cfg fee_location (fee_amount fee) dest (fee_calculation_weight total_weight))
        (\<lambda>fee.
     bind_m (refund_appendix cfg refund (SelfLocation cfg) dest) (\<lambda>appendix.
     then_m (transact_in_dest_chain_asset_non_signed cfg dest fee_payer fee call origin_kind
              total_weight (transact_required_weight_at_most weight_info) appendix)
            (deposit_transactor_event (TransactedSovereign fee_payer dest call))))))))"

definition transact_through_signed ::
  "('l, 'j, 'v, 'c, 't, 'k, 'w) transactor_config \<Rightarrow> origin \<Rightarrow> 'v \<Rightarrow> ('c, 'v) CurrencyPayment
    \<Rightarrow> byte list \<Rightarrow> TransactWeights \<Rightarrow> bool \<Rightarrow> ('l, 'w, unit) transactor_m" where
  "transact_through_signed cfg o' dest fee call weight_info refund =
     bind_m (signed_p o') (\<lambda>who.
     bind_m (ok_or_p (location_of_versioned cfg dest) BadVersion) (\<lambda>dest.
     bind_m (ok_or_p (currency_to_multilocation cfg (payment_currency fee))
              NotCrossChainTransferableCurrency) (\<lambda>fee_location.
     bind_m (total_weight_of weight_info
          (take_weight_from_transact_info_signed dest (transact_required_weight_at_most weight_info) refund))
        (\<lambda>total_weight.
     bind_m (calculate_fee cfg fee_location (fee_amount fee) dest (fee_calculation_weight total_weight))
        (\<lambda>fee.
     bind_m (refund_appendix cfg refund (AccountIdToLocation cfg who) dest) (\<lambda>appendix.
     then_m (transact_in_dest_chain_asset_signed cfg dest who fee call OriginSovereignAccount
              total_weight (transact_required_weight_at_most weight_info) appendix)
            (deposit_transactor_event (TransactedSigned who dest call))))))))"

definition set_transact_info ::
  "('l, 'j, 'v, 'c, 't, 'k, 'w) transactor_config \<Rightarrow> origin \<Rightarrow> 'v \<Rightarrow> Weight \<Rightarrow> Weight \<Rightarrow> Weight option
    \<Rightarrow> ('l, 'w, unit) transactor_m" where
  "set_transact_info cfg o' location extra_weight max_weight' extra_weight_signed =
     then_m (origin_p (DerivativeAddressRegistrationOrigin cfg) o')
    (bind_m (ok_or_p (location_of_versioned cfg location) BadVersion) (\<lambda>location.
     let remote_info = \<lparr>transact_extra_weight = extra_weight, max_weight = max_weight',
           transact_extra_weight_signed = extra_weight_signed\<rparr>
     in then_m (modify_m (\<lambda>s. s\<lparr>TransactInfoWithWeightLimit :=
            (TransactInfoWithWeightLimit s)(location \<mapsto> remote_info)\<rparr>))
          (deposit_transactor_event (TransactInfoChanged location remote_info))))"

definition remove_transact_info ::
  "('l, 'j, 'v, 'c, 't, 'k, 'w) transactor_config \<Rightarrow> origin \<Rightarrow> 'v \<Rightarrow> ('l, 'w, unit) transactor_m" where
  "remove_transact_info cfg o' location =
     then_m (origin_p (DerivativeAddressRegistrationOrigin cfg) o')
    (bind_m (ok_or_p (location_of_versioned cfg location) BadVersion) (\<lambda>location.
     then_m (modify_m (\<lambda>s. s\<lparr>TransactInfoWithWeightLimit :=
            (TransactInfoWithWeightLimit s)(location := None)\<rparr>))
          (deposit_transactor_event (TransactInfoRemoved location))))"

definition set_fee_per_second ::
  "('l, 'j, 'v, 'c, 't, 'k, 'w) transactor_config \<Rightarrow> origin \<Rightarrow> 'v \<Rightarrow> nat \<Rightarrow> ('l, 'w, unit) transactor_m" where
  "set_fee_per_second cfg o' asset_location fee_per_second =
     then_m (origin_p (DerivativeAddressRegistrationOrigin cfg) o')
    (bind_m (ok_or_p (location_of_versioned cfg asset_location) BadVersion) (\<lambda>asset_location.
     then_m (modify_m (\<lambda>s. s\<lparr>DestinationAssetFeePerSecond :=
            (DestinationAssetFeePerSecond s)(asset_location \<mapsto> fee_per_second)\<rparr>))
          (deposit_transactor_event (DestFeePerSecondChanged asset_location fee_per_second))))"

definition remove_fee_per_second ::
  "('l, 'j, 'v, 'c, 't, 'k, 'w) transactor_config \<Rightarrow> origin \<Rightarrow> 'v \<Rightarrow> ('l, 'w, unit) transactor_m" where
  "remove_fee_per_second cfg o' asset_location =
     then_m (origin_p (DerivativeAddressRegistrationOrigin cfg) o')
    (bind_m (ok_or_p (location_of_versioned cfg asset_location) BadVersion) (\<lambda>asset_location.
     then_m (modify_m (\<lambda>s. s\<lparr>DestinationAssetFeePerSecond :=
            (DestinationAssetFeePerSecond s)(asset_location := None)\<rparr>))
          (deposit_transactor_event (DestFeePerSecondRemoved asset_location))))"

definition hrmp_origin :: "('l, 'j, 'v, 'c, 't, 'k, 'w) transactor_config \<Rightarrow> HrmpOperation \<Rightarrow> origin \<Rightarrow> bool" where
  "hrmp_origin cfg action o' =
     (case action of
        InitOpen _ \<Rightarrow> HrmpManipulatorOrigin cfg o' \<or> HrmpOpenOrigin cfg o'
      | Accept _ \<Rightarrow> HrmpManipulatorOrigin cfg o' \<or> HrmpOpenOrigin cfg o'
      | Close _ \<Rightarrow> HrmpManipulatorOrigin cfg o'
      | Cancel _ _ \<Rightarrow> HrmpManipulatorOrigin cfg o')"

definition hrmp_call_of :: "HrmpOperation \<Rightarrow> HrmpAvailableCalls" where
  "hrmp_call_of action =
     (case action of
        InitOpen params \<Rightarrow> InitOpenChannel (hip_para_id params) (proposed_max_capacity params)
          (proposed_max_message_size params)
      | Accept para_id \<Rightarrow> AcceptOpenChannel para_id
      | Close close_params \<Rightarrow> CloseChannel close_params
      | Cancel channel_id open_requests \<Rightarrow> CancelOpenRequest channel_id open_requests)"

definition hrmp_manage ::
  "('l, 'j, 'v, 'c, 't, 'k, 'w) transactor_config \<Rightarrow> origin \<Rightarrow> HrmpOperation \<Rightarrow> ('c, 'v) CurrencyPayment
    \<Rightarrow> TransactWeights \<Rightarrow> ('l, 'w, unit) transactor_m" where
  "hrmp_manage cfg o' action fee weight_info =
     then_m (origin_p (hrmp_origin cfg action) o')
    (bind_m (gets_m (\<lambda>s. hrmp_encode_call (scale cfg) (RelayIndices s) (hrmp_call_of action))) (\<lambda>encoded.
     bind_m (case encoded of Inl _ \<Rightarrow> err_p HrmpHandlerNotImplemented | Inr bs \<Rightarrow> return_m bs) (\<lambda>call_bytes.
     bind_m (ok_or_p (currency_to_multilocation cfg (payment_currency fee))
              NotCrossChainTransferableCurrency) (\<lambda>fee_location.
     let destination = location_parent cfg
     in bind_m (total_weight_of weight_info
          (take_weight_from_transact_info destination (transact_required_weight_at_most weight_info) False))
        (\<lambda>total_weight.
     bind_m (calculate_fee cfg fee_location (fee_amount fee) destination
          (fee_calculation_weight total_weight)) (\<lambda>fee.
     then_m (ensure_p (MaxHrmpFee cfg fee) TooMuchFeeUsed)
    (bind_m (deposit_instruction cfg (SelfLocation cfg) destination 1) (\<lambda>deposit_appendix.
     then_m (transact_in_dest_chain_asset_non_signed cfg destination None fee call_bytes OriginNative
              total_weight (transact_required_weight_at_most weight_info)
              (Some [RefundSurplus, deposit_appendix]))
            (deposit_transactor_event (HrmpManagementSent action))))))))))"

section \<open>Dispatch, genesis\<close>

datatype ('v, 'c, 't) transactor_call =
    CallRegister AccountId "16 word"
  | CallDeregister "16 word"
  | CallThroughDerivative 't "16 word" "('c, 'v) CurrencyPayment" "byte list" TransactWeights bool
  | CallThroughSovereign 'v "AccountId option" "('c, 'v) CurrencyPayment" "byte list" OriginKind
      TransactWeights bool
  | CallSetTransactInfo 'v Weight Weight "Weight option"
  | CallRemoveTransactInfo 'v
  | CallThroughSigned 'v "('c, 'v) CurrencyPayment" "byte list" TransactWeights bool
  | CallSetFeePerSecond 'v nat
  | CallRemoveFeePerSecond 'v
  | CallHrmpManage HrmpOperation "('c, 'v) CurrencyPayment" TransactWeights

fun transactor_run ::
  "('l, 'j, 'v, 'c, 't, 'k, 'w) transactor_config \<Rightarrow> origin \<Rightarrow> ('v, 'c, 't) transactor_call
    \<Rightarrow> ('l, 'w, unit) transactor_m" where
  "transactor_run cfg o' (CallRegister who index) = register cfg o' who index"
| "transactor_run cfg o' (CallDeregister index) = deregister cfg o' index"
| "transactor_run cfg o' (CallThroughDerivative dest index fee inner_call weight_info refund) =
     transact_through_derivative cfg o' dest index fee inner_call weight_info refund"
| "transactor_run cfg o' (CallThroughSovereign dest fee_payer fee call origin_kind weight_info refund) =
     transact_through_sovereign cfg o' dest fee_payer fee call origin_kind weight_info refund"
| "transactor_run cfg o' (CallSetTransactInfo l extra_weight max_weight' extra_weight_signed) =
     set_transact_info cfg o' l extra_weight max_weight' extra_weight_signed"
| "transactor_run cfg o' (CallRemoveTransactInfo l) = remove_transact_info cfg o' l"
| "transactor_run cfg o' (CallThroughSigned dest fee call weight_info refund) =
     transact_through_signed cfg o' dest fee call weight_info refund"
| "transactor_run cfg o' (CallSetFeePerSecond l fee_per_second) = set_fee_per_second cfg o' l fee_per_second"
| "transactor_run cfg o' (CallRemoveFeePerSecond l) = remove_fee_per_second cfg o' l"
| "transactor_run cfg o' (CallHrmpManage action fee weight_info) = hrmp_manage cfg o' action fee weight_info"

definition transactor_dispatch ::
  "('l, 'j, 'v, 'c, 't, 'k, 'w) transactor_config \<Rightarrow> origin \<Rightarrow> ('v, 'c, 't) transactor_call
    \<Rightarrow> ('l, 'w, unit) transactor_m" where
  "transactor_dispatch cfg o' call = transactional (transactor_run cfg o' call)"

definition transactor_genesis :: "RelayChainIndices \<Rightarrow> 'w \<Rightarrow> ('l, 'w) transactor" where
  "transactor_genesis relay_indices w =
     \<lparr>IndexToAccount = Map.empty, TransactInfoWithWeightLimit = Map.empty,
      DestinationAssetFeePerSecond = Map.empty, RelayIndices = relay_indices,
      transactor_events = [], transactor_world = w\<rparr>"

section \<open>The destinations of the Moonbeam runtime (\<open>src/runtime/moonbeam/src/xcm_config.rs\<close>)\<close>

datatype Transactors = Relay

fun transactors_try_from :: "byte \<Rightarrow> Transactors option" where
  "transactors_try_from value = (if value = 0 then Some Relay else None)"

fun moonbeam_encode_call ::
  "scale_codec \<Rightarrow> Transactors \<Rightarrow> RelayChainIndices \<Rightarrow> UtilityAvailableCalls \<Rightarrow> byte list" where
  "moonbeam_encode_call cd Relay ri call = utility_encode_call cd ri call"

fun moonbeam_destination :: "'l \<Rightarrow> Transactors \<Rightarrow> 'l" where
  "moonbeam_destination parent Relay = parent"

end
