(* ===== verification/Transactor_Rules.thy ===== *)
theory Transactor_Rules
  imports Xcm_Transactor
begin

text \<open>
  Runs of the XCM transactor: its calls append one event each, from whose history the owner of an
  index can be read off; and what each call sends and takes, seen through a log of the payments
  taken here and the messages sent.
\<close>

section \<open>Reachable states\<close>

inductive transactor_reachable ::
  "('l, 'j, 'v, 'c, 't, 'k, 'w) transactor_config \<Rightarrow> RelayChainIndices \<Rightarrow> ('l, 'w) transactor \<Rightarrow> bool"
  for cfg ri where
  genesis: "transactor_reachable cfg ri (transactor_genesis ri w)"
| call: "transactor_reachable cfg ri s \<Longrightarrow> transactor_dispatch cfg o' c s = (r, t)
    \<Longrightarrow> transactor_reachable cfg ri t"
| elsewhere: "transactor_reachable cfg ri s \<Longrightarrow> transactor_reachable cfg ri (s\<lparr>transactor_world := w\<rparr>)"

section \<open>The owners of indices, from the events\<close>

fun note_owner :: "(16 word \<rightharpoonup> AccountId) \<Rightarrow> 'l transactor_event \<Rightarrow> (16 word \<rightharpoonup> AccountId)" where
  "note_owner m (RegisteredDerivative a i) = m(i \<mapsto> a)"
| "note_owner m (DeRegisteredDerivative i) = m(i := None)"
| "note_owner m _ = m"

definition owners_after :: "'l transactor_event list \<Rightarrow> (16 word \<rightharpoonup> AccountId)" where
  "owners_after es = foldl note_owner Map.empty es"

lemma owners_after_simps [simp]:
  "owners_after [] = Map.empty"
  "owners_after (es @ [e]) = note_owner (owners_after es) e"
  by (simp_all add: owners_after_def)

text \<open>What an event promises when the indices are owned as \<open>m\<close> says.\<close>

fun event_allowed ::
  "('l, 'j, 'v, 'c, 't, 'k, 'w) transactor_config \<Rightarrow> RelayChainIndices \<Rightarrow> (16 word \<rightharpoonup> AccountId)
    \<Rightarrow> 'l transactor_event \<Rightarrow> bool" where
  "event_allowed cfg ri m (RegisteredDerivative a i) \<longleftrightarrow> m i = None"
| "event_allowed cfg ri m (TransactedDerivative a d c i) \<longleftrightarrow> m i = Some a
     \<and> (\<exists>t inner. d = transactor_destination cfg t
          \<and> c = transactor_encode_call cfg t ri (AsDerivative i inner))"
| "event_allowed cfg ri m _ \<longleftrightarrow> True"

section \<open>What a successful program did\<close>

lemma ok_transactor [ok_simps]:
  "deposit_transactor_event ev s = (Ok (), t) \<longleftrightarrow> t = s\<lparr>transactor_events := transactor_events s @ [ev]\<rparr>"
  "in_transactor_world f e s = (Ok (), t) \<longleftrightarrow>
     (\<exists>w. f (transactor_world s) = Some w \<and> t = s\<lparr>transactor_world := w\<rparr>)"
  by (auto simp: deposit_transactor_event_def in_transactor_world_def ok_simps)

lemma ok_transactional: "transactional m s = (Ok y, t) \<longleftrightarrow> m s = (Ok y, t)"
  by (auto simp: transactional_def split: prod.splits outcome.splits)

lemma not_ok_transactional: "transactional m s = (r, t) \<Longrightarrow> (\<And>y. r \<noteq> Ok y) \<Longrightarrow> r \<noteq> Panic \<Longrightarrow> t = s"
  by (auto simp: transactional_def split: prod.splits outcome.splits)

section \<open>Weights and fees\<close>

text \<open>The limit of a message: as given, or within the maximum stored for the destination.\<close>

definition weight_granted ::
  "('l \<rightharpoonup> RemoteTransactInfoWithMaxWeight) \<Rightarrow> (RemoteTransactInfoWithMaxWeight \<Rightarrow> Weight option) \<Rightarrow> 'l
    \<Rightarrow> TransactWeights \<Rightarrow> bool \<Rightarrow> WeightLimit \<Rightarrow> bool" where
  "weight_granted infos extra dest wi refund limit \<longleftrightarrow>
     (case overall_weight wi of
        Some l \<Rightarrow> limit = l
      | None \<Rightarrow> \<not> refund \<and> (\<exists>info x w. infos dest = Some info \<and> extra info = Some x
          \<and> weight_checked_add (transact_required_weight_at_most wi) x = Some w
          \<and> all_lte w (max_weight info) \<and> limit = Limited w))"

lemma ok_weight:
  "total_weight_of wi (take_weight_from_transact_info dest (transact_required_weight_at_most wi) refund) s
     = (Ok limit, t) \<longleftrightarrow> t = s \<and>
   weight_granted (TransactInfoWithWeightLimit s) (Some \<circ> transact_extra_weight) dest wi refund limit"
  "total_weight_of wi (take_weight_from_transact_info_signed dest (transact_required_weight_at_most wi) refund) s
     = (Ok limit, t) \<longleftrightarrow> t = s \<and>
   weight_granted (TransactInfoWithWeightLimit s) transact_extra_weight_signed dest wi refund limit"
  by (auto simp: total_weight_of_def weight_granted_def take_weight_from_transact_info_def
      take_weight_from_transact_info_signed_def ok_simps split: option.split)

text \<open>The fee: as given, or by the rate stored for an asset whose reserve is the destination.\<close>

definition fee_charged ::
  "('l, 'j, 'v, 'c, 't, 'k, 'w) transactor_config \<Rightarrow> ('l \<rightharpoonup> nat) \<Rightarrow> 'l \<Rightarrow> nat option \<Rightarrow> 'l \<Rightarrow> Weight
    \<Rightarrow> 'l Asset \<Rightarrow> bool" where
  "fee_charged cfg rates loc given dest weight fee \<longleftrightarrow>
     (case given of
        Some amount \<Rightarrow> fee = fungible_asset loc amount
      | None \<Rightarrow> \<exists>rate. rates loc = Some rate \<and> chain_location cfg dest = dest \<and> dest \<noteq> SelfLocation cfg
          \<and> asset_reserve cfg (fungible_asset loc rate) = Some dest
          \<and> fee = fungible_asset loc (calculate_fee_per_second weight rate))"

lemma ok_fee:
  "calculate_fee cfg loc given dest weight s = (Ok fee, t) \<longleftrightarrow> t = s \<and>
     fee_charged cfg (DestinationAssetFeePerSecond s) loc given dest weight fee"
  by (auto simp: calculate_fee_def fee_charged_def take_fee_per_second_from_storage_def transfer_allowed_def
      ensure_valid_dest_def ok_simps Let_def fungible_asset_def split: option.split if_splits)

section \<open>The message\<close>

definition appendix_built ::
  "('l, 'j, 'v, 'c, 't, 'k, 'w) transactor_config \<Rightarrow> bool \<Rightarrow> 'l \<Rightarrow> 'l \<Rightarrow> ('l, 'j) xcm option \<Rightarrow> bool" where
  "appendix_built cfg refund beneficiary dest app \<longleftrightarrow>
     (if refund then \<exists>b. reanchor cfg beneficiary dest (UniversalLocation cfg) = Some b
        \<and> app = Some [RefundSurplus, DepositAsset (WildAllCounted 1) b]
      else app = None)"

lemma ok_appendix:
  "refund_appendix cfg refund beneficiary dest s = (Ok app, t) \<longleftrightarrow>
     t = s \<and> appendix_built cfg refund beneficiary dest app"
  by (auto simp: refund_appendix_def appendix_built_def deposit_instruction_def ok_simps)

definition message_for ::
  "'l Asset \<Rightarrow> WeightLimit \<Rightarrow> ('l, 'j) xcm option \<Rightarrow> OriginKind \<Rightarrow> Weight \<Rightarrow> byte list \<Rightarrow> ('l, 'j) xcm" where
  "message_for fee limit app kind at_most call =
     [WithdrawAsset [fee], BuyExecution fee limit]
     @ (case app of Some a \<Rightarrow> [SetAppendix a] | None \<Rightarrow> [])
     @ [Transact kind (Some at_most) call]"

lemma ok_message:
  "transact_message cfg dest fee limit call at_most kind app s = (Ok m, t) \<longleftrightarrow> t = s \<and>
     (\<exists>fee'. reanchored cfg fee dest (UniversalLocation cfg) = Some fee'
        \<and> m = message_for fee' limit app kind at_most call)"
  by (auto simp: transact_message_def withdraw_instruction_def buy_execution_def appendix_instruction_def
      message_for_def ok_simps split: option.splits)

text \<open>A message is sent from one world into another.\<close>

definition sent ::
  "('l, 'j, 'v, 'c, 't, 'k, 'w) transactor_config \<Rightarrow> 'l \<Rightarrow> ('l, 'j) xcm \<Rightarrow> 'w \<Rightarrow> 'w \<Rightarrow> bool" where
  "sent cfg dest m w w' \<longleftrightarrow> (\<exists>ticket. xcm_validate cfg dest m w = Some ticket
     \<and> xcm_deliver cfg ticket w = Some w')"

lemma ok_send:
  "send_message cfg dest m s = (Ok (), t) \<longleftrightarrow>
     (\<exists>w'. sent cfg dest m (transactor_world s) w' \<and> t = s\<lparr>transactor_world := w'\<rparr>)"
  by (auto simp: send_message_def sent_def ok_simps)

definition fee_taken ::
  "('l, 'j, 'v, 'c, 't, 'k, 'w) transactor_config \<Rightarrow> AccountId option \<Rightarrow> 'l Asset \<Rightarrow> 'w \<Rightarrow> 'w \<Rightarrow> bool" where
  "fee_taken cfg payer fee w w' \<longleftrightarrow>
     (case payer of
        Some a \<Rightarrow> transactor_withdraw_asset cfg fee (AccountIdToLocation cfg a) w = Some w'
      | None \<Rightarrow> w' = w)"

lemma ok_non_signed:
  "transact_in_dest_chain_asset_non_signed cfg dest payer fee call kind limit at_most app s = (Ok (), t)
   \<longleftrightarrow> (\<exists>fee' w w'. reanchored cfg fee dest (UniversalLocation cfg) = Some fee'
        \<and> fee_taken cfg payer fee (transactor_world s) w
        \<and> sent cfg dest (message_for fee' limit app kind at_most call) w w'
        \<and> t = s\<lparr>transactor_world := w'\<rparr>)"
  by (auto simp: transact_in_dest_chain_asset_non_signed_def fee_taken_def ok_simps ok_message ok_send Let_def
      split: option.split)

lemma ok_as_signed:
  "transact_in_dest_chain_asset_signed cfg dest payer fee call kind limit at_most app s = (Ok (), t)
   \<longleftrightarrow> (\<exists>fee' interior w'. reanchored cfg fee dest (UniversalLocation cfg) = Some fee'
        \<and> interior_of_location cfg (AccountIdToLocation cfg payer) = Some interior
        \<and> sent cfg dest (DescendOrigin interior # message_for fee' limit app kind at_most call)
            (transactor_world s) w'
        \<and> t = s\<lparr>transactor_world := w'\<rparr>)"
  by (auto simp: transact_in_dest_chain_asset_signed_def ok_simps ok_message ok_send Let_def)

section \<open>The calls that send a message\<close>

lemma ok_derivative:
  "transact_through_derivative cfg o' dest index payment inner wi refund s = (Ok (), t) \<longleftrightarrow>
   (\<exists>who loc limit fee app fee' w w'.
      let d = transactor_destination cfg dest;
          call = transactor_encode_call cfg dest (RelayIndices s) (AsDerivative index inner);
          at_most = transact_required_weight_at_most wi
      in o' = Signed who \<and> IndexToAccount s index = Some who
       \<and> currency_to_multilocation cfg (payment_currency payment) = Some loc
       \<and> weight_granted (TransactInfoWithWeightLimit s) (Some \<circ> transact_extra_weight) d wi refund limit
       \<and> fee_charged cfg (DestinationAssetFeePerSecond s) loc (fee_amount payment) d
           (fee_calculation_weight limit) fee
       \<and> appendix_built cfg refund (SelfLocation cfg) d app
       \<and> reanchored cfg fee d (UniversalLocation cfg) = Some fee'
       \<and> fee_taken cfg (Some who) fee (transactor_world s) w
       \<and> sent cfg d (message_for fee' limit app OriginSovereignAccount at_most call) w w'
       \<and> t = s\<lparr>transactor_world := w',
                transactor_events := transactor_events s @ [TransactedDerivative who d call index]\<rparr>)"
  by (auto simp: transact_through_derivative_def Let_def ok_simps ok_weight ok_fee ok_appendix ok_non_signed; (rule exI conjI refl | assumption | (simp; fail))+)

lemma ok_sovereign:
  "transact_through_sovereign cfg o' dest payer payment call kind wi refund s = (Ok (), t) \<longleftrightarrow>
   (\<exists>d loc limit fee app fee' w w'.
      SovereignAccountDispatcherOrigin cfg o'
       \<and> currency_to_multilocation cfg (payment_currency payment) = Some loc
       \<and> location_of_versioned cfg dest = Some d
       \<and> weight_granted (TransactInfoWithWeightLimit s) (Some \<circ> transact_extra_weight) d wi refund limit
       \<and> fee_charged cfg (DestinationAssetFeePerSecond s) loc (fee_amount payment) d
           (fee_calculation_weight limit) fee
       \<and> appendix_built cfg refund (SelfLocation cfg) d app
       \<and> reanchored cfg fee d (UniversalLocation cfg) = Some fee'
       \<and> fee_taken cfg payer fee (transactor_world s) w
       \<and> sent cfg d (message_for fee' limit app kind (transact_required_weight_at_most wi) call) w w'
       \<and> t = s\<lparr>transactor_world := w',
                transactor_events := transactor_events s @ [TransactedSovereign payer d call]\<rparr>)"
  by (auto simp: transact_through_sovereign_def Let_def ok_simps ok_weight ok_fee ok_appendix ok_non_signed; (rule exI conjI refl | assumption | (simp; fail))+)

lemma ok_through_signed:
  "transact_through_signed cfg o' dest payment call wi refund s = (Ok (), t) \<longleftrightarrow>
   (\<exists>who d loc limit fee app fee' interior w'.
      o' = Signed who \<and> location_of_versioned cfg dest = Some d
       \<and> currency_to_multilocation cfg (payment_currency payment) = Some loc
       \<and> weight_granted (TransactInfoWithWeightLimit s) transact_extra_weight_signed d wi refund limit
       \<and> fee_charged cfg (DestinationAssetFeePerSecond s) loc (fee_amount payment) d
           (fee_calculation_weight limit) fee
       \<and> appendix_built cfg refund (AccountIdToLocation cfg who) d app
       \<and> reanchored cfg fee d (UniversalLocation cfg) = Some fee'
       \<and> interior_of_location cfg (AccountIdToLocation cfg who) = Some interior
       \<and> sent cfg d (DescendOrigin interior # message_for fee' limit app OriginSovereignAccount
             (transact_required_weight_at_most wi) call) (transactor_world s) w'
       \<and> t = s\<lparr>transactor_world := w',
                transactor_events := transactor_events s @ [TransactedSigned who d call]\<rparr>)"
  by (auto simp: transact_through_signed_def Let_def ok_simps ok_weight ok_fee ok_appendix ok_as_signed; (rule exI conjI refl | assumption | (simp; fail))+)

lemma hrmp_encoded: "\<exists>bs. hrmp_encode_call cd ri c = Inr bs"
  by (cases c) simp_all

lemma ok_hrmp:
  "hrmp_manage cfg o' action payment wi s = (Ok (), t) \<longleftrightarrow>
   (\<exists>loc limit fee app fee' call w'.
      let d = location_parent cfg
      in hrmp_origin cfg action o'
       \<and> hrmp_encode_call (scale cfg) (RelayIndices s) (hrmp_call_of action) = Inr call
       \<and> currency_to_multilocation cfg (payment_currency payment) = Some loc
       \<and> weight_granted (TransactInfoWithWeightLimit s) (Some \<circ> transact_extra_weight) d wi False limit
       \<and> fee_charged cfg (DestinationAssetFeePerSecond s) loc (fee_amount payment) d
           (fee_calculation_weight limit) fee
       \<and> MaxHrmpFee cfg fee
       \<and> appendix_built cfg True (SelfLocation cfg) d app
       \<and> reanchored cfg fee d (UniversalLocation cfg) = Some fee'
       \<and> sent cfg d (message_for fee' limit app OriginNative (transact_required_weight_at_most wi) call)
           (transactor_world s) w'
       \<and> t = s\<lparr>transactor_world := w',
                transactor_events := transactor_events s @ [HrmpManagementSent action]\<rparr>)"
proof -
  obtain bs where bs: "hrmp_encode_call (scale cfg) (RelayIndices s) (hrmp_call_of action) = Inr bs"
    using hrmp_encoded by blast
  show ?thesis
    by (auto simp: hrmp_manage_def Let_def ok_simps ok_weight ok_fee ok_non_signed deposit_instruction_def
      appendix_built_def fee_taken_def bs; (rule exI conjI refl | assumption | (simp; fail))+)
qed

section \<open>One event for each call\<close>

definition emits_one ::
  "('l, 'j, 'v, 'c, 't, 'k, 'w) transactor_config \<Rightarrow> ('l, 'w) transactor \<Rightarrow> ('l, 'w) transactor \<Rightarrow> bool" where
  "emits_one cfg s t \<longleftrightarrow> (\<exists>e. transactor_events t = transactor_events s @ [e]
     \<and> event_allowed cfg (RelayIndices s) (IndexToAccount s) e
     \<and> IndexToAccount t = note_owner (IndexToAccount s) e \<and> RelayIndices t = RelayIndices s)"

lemmas transactor_admin_calls = register_def deregister_def set_transact_info_def
  remove_transact_info_def set_fee_per_second_def remove_fee_per_second_def

lemma derivative_emits_one:
  assumes "transact_through_derivative cfg o' dest index payment inner wi refund s = (Ok (), t)"
  shows "emits_one cfg s t"
  using assms unfolding ok_derivative Let_def
  by (elim exE) (auto simp: emits_one_def)

lemma run_emits_one:
  assumes "transactor_run cfg o' c s = (Ok (), t)"
  shows "emits_one cfg s t"
proof (cases c)
  case (CallThroughDerivative dest index fee inner wi refund)
  with assms show ?thesis by (simp add: derivative_emits_one)
qed (use assms in \<open>auto simp: emits_one_def ok_sovereign ok_through_signed ok_hrmp Let_def ok_simps
      transactor_admin_calls\<close>)

section \<open>The invariant of runs\<close>

definition history_ok ::
  "('l, 'j, 'v, 'c, 't, 'k, 'w) transactor_config \<Rightarrow> RelayChainIndices \<Rightarrow> 'l transactor_event list \<Rightarrow> bool" where
  "history_ok cfg ri es \<longleftrightarrow>
     (\<forall>before e after. es = before @ e # after \<longrightarrow> event_allowed cfg ri (owners_after before) e)"

lemma history_ok_empty [simp]: "history_ok cfg ri []"
  by (simp add: history_ok_def)

lemma history_ok_snoc [simp]:
  "history_ok cfg ri (es @ [e]) \<longleftrightarrow> history_ok cfg ri es \<and> event_allowed cfg ri (owners_after es) e"
proof -
  have split: "es @ [e] = before @ x # after \<longleftrightarrow> (after = [] \<and> before = es \<and> x = e)
      \<or> (\<exists>after'. after = after' @ [e] \<and> es = before @ x # after')" for before x after
    by (cases after rule: rev_cases) auto
  show ?thesis unfolding history_ok_def split by auto
qed

definition transactor_ok ::
  "('l, 'j, 'v, 'c, 't, 'k, 'w) transactor_config \<Rightarrow> RelayChainIndices \<Rightarrow> ('l, 'w) transactor \<Rightarrow> bool" where
  "transactor_ok cfg ri s \<longleftrightarrow> RelayIndices s = ri \<and> IndexToAccount s = owners_after (transactor_events s)
     \<and> history_ok cfg ri (transactor_events s)"

lemma emits_one_ok: "transactor_ok cfg ri s \<Longrightarrow> emits_one cfg s t \<Longrightarrow> transactor_ok cfg ri t"
  by (auto simp: transactor_ok_def emits_one_def)

lemma dispatch_cases:
  assumes "transactor_dispatch cfg o' c s = (r, t)"
  obtains "r = Ok ()" and "transactor_run cfg o' c s = (Ok (), t)" | "r \<noteq> Ok ()" and "t = s"
  using assms by (auto simp: transactor_dispatch_def transactional_def split: prod.splits outcome.splits)

lemma transactor_reachable_ok: "transactor_reachable cfg ri s \<Longrightarrow> transactor_ok cfg ri s"
proof (induction rule: transactor_reachable.induct)
  case (genesis w)
  then show ?case by (simp add: transactor_ok_def transactor_genesis_def)
next
  case (call s o' c r t)
  from call.hyps(2) show ?case
    by (rule dispatch_cases) (use call.IH in \<open>auto intro: emits_one_ok run_emits_one\<close>)
next
  case (elsewhere s w)
  then show ?case by (simp add: transactor_ok_def)
qed

text \<open>An owner in the history was registered, and neither removed nor replaced since.\<close>

lemma owner_registered:
  "owners_after es i = Some a \<Longrightarrow>
     \<exists>before after. es = before @ RegisteredDerivative a i # after
       \<and> DeRegisteredDerivative i \<notin> set after \<and> (\<forall>b. RegisteredDerivative b i \<notin> set after)"
proof (induction es rule: rev_induct)
  case Nil
  then show ?case by simp
next
  case (snoc e es)
  show ?case
  proof (cases "e = RegisteredDerivative a i")
    case True
    then show ?thesis by (intro exI[of _ es] exI[of _ "[]"]) simp
  next
    case False
    with snoc.prems have "owners_after es i = Some a" and "e \<noteq> DeRegisteredDerivative i"
      and "\<And>b. e \<noteq> RegisteredDerivative b i"
      by (cases e; auto split: if_splits)+
    then obtain before after where "es = before @ RegisteredDerivative a i # after"
      "DeRegisteredDerivative i \<notin> set after" "\<forall>b. RegisteredDerivative b i \<notin> set after"
      using snoc.IH by blast
    then show ?thesis using \<open>e \<noteq> DeRegisteredDerivative i\<close> \<open>\<And>b. e \<noteq> RegisteredDerivative b i\<close>
      by (intro exI[of _ before] exI[of _ "after @ [e]"]) auto
  qed
qed

section \<open>What is paid here and drawn there\<close>

text \<open>
  A configuration with a log in the world: the fees withdrawn from accounts here, and the messages
  delivered. A ticket carries the message it was given for.
\<close>

datatype ('l, 'j) transactor_log_entry = Paid "'l Asset" 'l | Delivered 'l "('l, 'j) xcm"

definition logged_transactor ::
  "('l, 'j, 'v, 'c, 't, 'k, 'w) transactor_config
    \<Rightarrow> ('l, 'j, 'v, 'c, 't, 'l \<times> ('l, 'j) xcm \<times> 'k, 'w \<times> ('l, 'j) transactor_log_entry list) transactor_config" where
  "logged_transactor cfg =
     \<lparr>scale = scale cfg,
      location_of_versioned = location_of_versioned cfg,
      CurrencyIdToLocation = CurrencyIdToLocation cfg,
      transactor_encode_call = transactor_encode_call cfg,
      transactor_destination = transactor_destination cfg,
      transactor_withdraw_asset = (\<lambda>a l (w, log).
        map_option (\<lambda>w'. (w', log @ [Paid a l])) (transactor_withdraw_asset cfg a l w)),
      DerivativeAddressRegistrationOrigin = DerivativeAddressRegistrationOrigin cfg,
      HrmpManipulatorOrigin = HrmpManipulatorOrigin cfg,
      HrmpOpenOrigin = HrmpOpenOrigin cfg,
      SovereignAccountDispatcherOrigin = SovereignAccountDispatcherOrigin cfg,
      AccountIdToLocation = AccountIdToLocation cfg,
      interior_of_location = interior_of_location cfg,
      weigh = weigh cfg,
      UniversalLocation = UniversalLocation cfg,
      SelfLocation = SelfLocation cfg,
      location_parent = location_parent cfg,
      chain_location = chain_location cfg,
      reanchored = reanchored cfg,
      reanchor = reanchor cfg,
      xcm_validate = (\<lambda>d m (w, log). map_option (\<lambda>k. (d, m, k)) (xcm_validate cfg d m w)),
      xcm_deliver = (\<lambda>(d, m, k) (w, log). map_option (\<lambda>w'. (w', log @ [Delivered d m])) (xcm_deliver cfg k w)),
      BaseXcmWeight = BaseXcmWeight cfg,
      asset_reserve = asset_reserve cfg,
      MaxHrmpFee = MaxHrmpFee cfg\<rparr>"

lemma logged_transactor_simps [simp]:
  "AccountIdToLocation (logged_transactor cfg) = AccountIdToLocation cfg"
  "UniversalLocation (logged_transactor cfg) = UniversalLocation cfg"
  "reanchored (logged_transactor cfg) = reanchored cfg"
  "SovereignAccountDispatcherOrigin (logged_transactor cfg) = SovereignAccountDispatcherOrigin cfg"
  "hrmp_origin (logged_transactor cfg) = hrmp_origin cfg"
  "interior_of_location (logged_transactor cfg) = interior_of_location cfg"
  by (simp_all add: logged_transactor_def hrmp_origin_def fun_eq_iff split: HrmpOperation.split)

lemma logged_sent: "sent (logged_transactor cfg) d m w w' \<Longrightarrow> snd w' = snd w @ [Delivered d m]"
  by (cases w) (auto simp: sent_def logged_transactor_def)

lemma logged_fee_taken:
  "fee_taken (logged_transactor cfg) payer fee w w' \<Longrightarrow> snd w' = snd w @
     (case payer of Some a \<Rightarrow> [Paid fee (AccountIdToLocation cfg a)] | None \<Rightarrow> [])"
  by (cases w) (auto simp: fee_taken_def logged_transactor_def split: option.splits)

text \<open>The account whose assets pay for the message of a call.\<close>

fun payer_of :: "origin \<Rightarrow> ('v, 'c, 't) transactor_call \<Rightarrow> AccountId option" where
  "payer_of (Signed who) (CallThroughDerivative _ _ _ _ _ _) = Some who"
| "payer_of _ (CallThroughSovereign _ payer _ _ _ _ _) = payer"
| "payer_of _ _ = None"

text \<open>
  What one call adds to the log: nothing; or the payment of a fee from its payer's account, followed
  by one message, which withdraws this fee from the sovereign account at its destination and nothing
  else; or one message that first descends to the account of the caller and so spends only what that
  account owns there. An appendix does nothing but return what is left over.
\<close>

definition settled ::
  "('l, 'j, 'v, 'c, 't, 'k, 'w) transactor_config \<Rightarrow> origin \<Rightarrow> ('v, 'c, 't) transactor_call
    \<Rightarrow> ('l, 'j) transactor_log_entry list \<Rightarrow> bool" where
  "settled cfg o' c bill \<longleftrightarrow> bill = []
     \<or> (\<exists>who fee d fee' limit app kind at_most call b. payer_of o' c = Some who
          \<and> reanchored cfg fee d (UniversalLocation cfg) = Some fee'
          \<and> app \<in> {None, Some [RefundSurplus, DepositAsset (WildAllCounted 1) b]}
          \<and> bill = [Paid fee (AccountIdToLocation cfg who),
                    Delivered d (message_for fee' limit app kind at_most call)])
     \<or> (\<exists>who j d message. o' = Signed who \<and> interior_of_location cfg (AccountIdToLocation cfg who) = Some j
          \<and> bill = [Delivered d (DescendOrigin j # message)])"

text \<open>The calls, and origins, that spend from the sovereign account without anybody paying here.\<close>

definition free_spending ::
  "('l, 'j, 'v, 'c, 't, 'k, 'w) transactor_config \<Rightarrow> origin \<Rightarrow> ('v, 'c, 't) transactor_call \<Rightarrow> bool" where
  "free_spending cfg o' c \<longleftrightarrow>
     (case c of
        CallThroughSovereign _ payer _ _ _ _ _ \<Rightarrow> payer = None \<and> SovereignAccountDispatcherOrigin cfg o'
      | CallHrmpManage action _ _ \<Rightarrow> hrmp_origin cfg action o'
      | _ \<Rightarrow> False)"

lemma appendix_forms:
  assumes "appendix_built cfg refund beneficiary d app"
  obtains b where "app \<in> {None, Some [RefundSurplus, DepositAsset (WildAllCounted 1) b]}"
  using assms by (auto simp: appendix_built_def split: if_splits)

lemma settled_fee:
  assumes "payer_of o' c = Some who" and "reanchored cfg fee d (UniversalLocation cfg) = Some fee'"
    and "appendix_built (logged_transactor cfg) refund beneficiary d app"
  shows "settled cfg o' c [Paid fee (AccountIdToLocation cfg who),
    Delivered d (message_for fee' limit app kind at_most call)]"
  using assms(3) by (rule appendix_forms) (use assms(1,2) in \<open>unfold settled_def, blast\<close>)

lemma run_settled:
  assumes "transactor_run (logged_transactor cfg) o' c s = (Ok (), t)" and "\<not> free_spending cfg o' c"
  shows "\<exists>bill. snd (transactor_world t) = snd (transactor_world s) @ bill \<and> settled cfg o' c bill"
proof (cases c)
  case (CallThroughDerivative dest index fee inner wi refund)
  with assms(1) show ?thesis
    by (auto simp: ok_derivative Let_def dest!: logged_sent logged_fee_taken intro!: settled_fee)
next
  case (CallThroughSigned dest fee call wi refund)
  with assms(1) show ?thesis
    by (auto simp: ok_through_signed settled_def dest!: logged_sent)
next
  case (CallThroughSovereign dest payer fee call kind wi refund)
  with assms show ?thesis
    by (cases payer) (auto simp: ok_sovereign free_spending_def dest!: logged_sent logged_fee_taken
        intro!: settled_fee)
next
  case (CallHrmpManage action fee wi)
  with assms show ?thesis by (auto simp: ok_hrmp Let_def free_spending_def)
qed (use assms in \<open>auto simp: ok_simps transactor_admin_calls Let_def settled_def\<close>)

text \<open>Calls one after the other.\<close>

fun run_calls ::
  "('l, 'j, 'v, 'c, 't, 'k, 'w) transactor_config \<Rightarrow> (origin \<times> ('v, 'c, 't) transactor_call) list
    \<Rightarrow> ('l, 'w) transactor \<Rightarrow> ('l, 'w) transactor" where
  "run_calls cfg [] s = s"
| "run_calls cfg ((o', c) # cs) s = run_calls cfg cs (snd (transactor_dispatch cfg o' c s))"

lemma run_calls_settled:
  assumes "\<forall>(o', c) \<in> set cs. \<not> free_spending cfg o' c"
  shows "\<exists>bills. snd (transactor_world (run_calls (logged_transactor cfg) cs s)) = snd (transactor_world s) @ concat bills
    \<and> list_all2 (\<lambda>(o', c) bill. settled cfg o' c bill) cs bills"
  using assms
proof (induction cs arbitrary: s)
  case Nil
  then show ?case by simp
next
  case (Cons x cs)
  obtain o' c where x: "x = (o', c)" by (cases x)
  obtain r t where t: "transactor_dispatch (logged_transactor cfg) o' c s = (r, t)" by fastforce
  from t obtain bill where bill: "snd (transactor_world t) = snd (transactor_world s) @ bill" "settled cfg o' c bill"
  proof (rule dispatch_cases)
    assume "transactor_run (logged_transactor cfg) o' c s = (Ok (), t)"
    from run_settled [OF this] Cons.prems x that show thesis by auto
  next
    assume "t = s"
    then show thesis using that [of "[]"] by (simp add: settled_def)
  qed
  obtain bills where "snd (transactor_world (run_calls (logged_transactor cfg) cs t)) = snd (transactor_world t) @ concat bills"
    "list_all2 (\<lambda>(o', c) bill. settled cfg o' c bill) cs bills"
    using Cons by (force simp: x)
  then show ?case using bill t x by (intro exI [of _ "bill # bills"]) simp
qed

end
