(* ===== verification/Transactor_Properties.thy ===== *)
theory Transactor_Properties
  imports Transactor_Rules
begin

text \<open>
  Properties of the XCM transactor and of the encoding of calls for the relay chain.
\<close>

section \<open>Fees\<close>

text \<open>A fee is the product of weight and rate, rounded up to a whole unit.\<close>

lemma div_rounds_up:
  fixes k n :: nat
  assumes "0 < k"
  shows "n \<le> (n + (k - 1)) div k * k" and "(n + (k - 1)) div k * k < n + k"
  using div_mult_mod_eq [of "n + (k - 1)" k] mod_less_divisor [OF assms, of "n + (k - 1)"] assms
  by linarith+

lemma fee_rounds_up:
  fixes w :: Weight and rate :: nat
  defines "fee \<equiv> calculate_fee_per_second w rate"
  assumes "rate * ref_time w + (WEIGHT_REF_TIME_PER_SECOND - 1) \<le> u128_max"
  shows "rate * ref_time w \<le> fee * WEIGHT_REF_TIME_PER_SECOND"
    and "fee * WEIGHT_REF_TIME_PER_SECOND < rate * ref_time w + WEIGHT_REF_TIME_PER_SECOND"
proof -
  have fee: "fee = (rate * ref_time w + (WEIGHT_REF_TIME_PER_SECOND - 1)) div WEIGHT_REF_TIME_PER_SECOND"
    using assms(2) by (simp add: fee_def calculate_fee_per_second_def Let_def sat_add_u128_def sat_mul_u128_def)
  have "0 < WEIGHT_REF_TIME_PER_SECOND" by (simp add: WEIGHT_REF_TIME_PER_SECOND_def)
  then show "rate * ref_time w \<le> fee * WEIGHT_REF_TIME_PER_SECOND"
    and "fee * WEIGHT_REF_TIME_PER_SECOND < rate * ref_time w + WEIGHT_REF_TIME_PER_SECOND"
    unfolding fee by (rule div_rounds_up)+
qed

section \<open>A sample chain\<close>

text \<open>
  Locations are numbers: 0 is this chain, 1 the relay chain, the accounts are above 100. The asset
  1 is the relay chain's own, which it calls 0. The world is what users hold of it here.
\<close>

definition sample_scale :: scale_codec where
  "sample_scale = \<lparr>enc_u16 = (\<lambda>i. [ucast i, ucast (drop_bit 8 i)]),
     enc_u32 = (\<lambda>i. [ucast i, ucast (drop_bit 8 i), ucast (drop_bit 16 i), ucast (drop_bit 24 i)]),
     enc_para_id = (\<lambda>i. [ucast i, ucast (drop_bit 8 i), ucast (drop_bit 16 i), ucast (drop_bit 24 i)]),
     enc_channel_id = (\<lambda>_. [])\<rparr>"

definition sample_transactor :: "(nat, nat, nat, nat, Transactors, unit, nat) transactor_config" where
  "sample_transactor = \<lparr>
     scale = sample_scale,
     location_of_versioned = Some,
     CurrencyIdToLocation = Some,
     transactor_encode_call = moonbeam_encode_call sample_scale,
     transactor_destination = moonbeam_destination 1,
     transactor_withdraw_asset = (\<lambda>a _ w. case asset_fun a of
        Fungible n \<Rightarrow> if n \<le> w then Some (w - n) else None | NonFungible _ \<Rightarrow> None),
     DerivativeAddressRegistrationOrigin = (\<lambda>o'. o' = Root),
     HrmpManipulatorOrigin = (\<lambda>o'. o' = Root),
     HrmpOpenOrigin = (\<lambda>o'. o' = Root),
     SovereignAccountDispatcherOrigin = (\<lambda>o'. o' = Root),
     AccountIdToLocation = (\<lambda>a. a + 100),
     interior_of_location = Some,
     weigh = (\<lambda>_. None),
     UniversalLocation = 0,
     SelfLocation = 0,
     location_parent = 1,
     chain_location = (\<lambda>l. l),
     reanchored = (\<lambda>a _ _. Some (a\<lparr>asset_id := 0\<rparr>)),
     reanchor = (\<lambda>l _ _. Some l),
     xcm_validate = (\<lambda>_ _ _. Some ()),
     xcm_deliver = (\<lambda>_ w. Some w),
     BaseXcmWeight = weight_zero,
     asset_reserve = (\<lambda>a. Some (asset_id a)),
     MaxHrmpFee = (\<lambda>_. True)\<rparr>"

text \<open>Account 5 gets the index 3, the relay chain its weight and rate, and a call is sent.\<close>

definition sample_weight :: "nat \<Rightarrow> Weight" where
  "sample_weight n = \<lparr>ref_time = n, proof_size = 0\<rparr>"

definition sample_payment :: "(nat, nat) CurrencyPayment" where
  "sample_payment = \<lparr>payment_currency = AsCurrencyId 1, fee_amount = None\<rparr>"

definition sample_weights :: TransactWeights where
  "sample_weights = \<lparr>transact_required_weight_at_most = sample_weight 3000000000000, overall_weight = None\<rparr>"

definition sample_call :: "(nat, nat, Transactors) transactor_call" where
  "sample_call = CallThroughDerivative Relay 3 sample_payment [42] sample_weights False"

definition sample_transactor_calls :: "(origin \<times> (nat, nat, Transactors) transactor_call) list" where
  "sample_transactor_calls =
     [(Root, CallRegister 5 3),
      (Root, CallSetTransactInfo 1 (sample_weight 1000000000000) (sample_weight 9000000000000) None),
      (Root, CallSetFeePerSecond 1 20),
      (Signed 5, sample_call)]"

definition sample_ready :: "(nat, nat) transactor" where
  "sample_ready = \<lparr>IndexToAccount = [3 \<mapsto> 5],
     TransactInfoWithWeightLimit = [1 \<mapsto> \<lparr>transact_extra_weight = sample_weight 1000000000000,
       max_weight = sample_weight 9000000000000, transact_extra_weight_signed = None\<rparr>],
     DestinationAssetFeePerSecond = [1 \<mapsto> 20],
     RelayIndices = POLKADOT_RELAY_INDICES,
     transactor_events = [RegisteredDerivative 5 3,
       TransactInfoChanged 1 \<lparr>transact_extra_weight = sample_weight 1000000000000,
         max_weight = sample_weight 9000000000000, transact_extra_weight_signed = None\<rparr>,
       DestFeePerSecondChanged 1 20],
     transactor_world = 1000\<rparr>"

lemma sample_three_calls:
  "run_calls sample_transactor (take 3 sample_transactor_calls)
     (transactor_genesis POLKADOT_RELAY_INDICES 1000) = sample_ready"
  by (simp add: sample_transactor_calls_def transactor_genesis_def sample_ready_def transactor_dispatch_def
      transactional_def register_def set_transact_info_def set_fee_per_second_def prog_defs ensure_p_def
      origin_p_def ok_or_p_def deposit_transactor_event_def sample_transactor_def Let_def)

lemma sample_fee: "calculate_fee_per_second (sample_weight 4000000000000) 20 = 80"
  by (simp add: calculate_fee_per_second_def sample_weight_def WEIGHT_REF_TIME_PER_SECOND_def Let_def
      sat_add_u128_def sat_mul_u128_def u128_max_def)

definition sample_bytes :: "byte list" where
  "sample_bytes = [26, 1, 3, 0, 42]"

lemma sample_encoded:
  "moonbeam_encode_call sample_scale Relay POLKADOT_RELAY_INDICES (AsDerivative 3 [42]) = sample_bytes"
  by (simp add: sample_scale_def POLKADOT_RELAY_INDICES_def sample_bytes_def drop_bit_eq_div)

lemma sample_sent:
  "transactor_dispatch sample_transactor (Signed 5) sample_call sample_ready =
     (Ok (), sample_ready\<lparr>transactor_world := 920,
        transactor_events := transactor_events sample_ready @ [TransactedDerivative 5 1 sample_bytes 3]\<rparr>)"
proof -
  have "weight_granted (TransactInfoWithWeightLimit sample_ready) (Some \<circ> transact_extra_weight) 1
      sample_weights False (Limited (sample_weight 4000000000000))"
    by (simp add: weight_granted_def sample_ready_def sample_weights_def sample_weight_def
        weight_checked_add_def u64_max_def all_lte_def)
  moreover have "fee_charged sample_transactor (DestinationAssetFeePerSecond sample_ready) 1 None 1
      (sample_weight 4000000000000) (fungible_asset 1 80)"
    using sample_fee by (simp add: fee_charged_def sample_ready_def sample_transactor_def fungible_asset_def)
  moreover have "fee_taken sample_transactor (Some 5) (fungible_asset 1 80) (transactor_world sample_ready) 920"
    by (simp add: fee_taken_def sample_ready_def sample_transactor_def fungible_asset_def)
  ultimately have "transact_through_derivative sample_transactor (Signed 5) Relay 3 sample_payment [42]
      sample_weights False sample_ready = (Ok (), sample_ready\<lparr>transactor_world := 920,
        transactor_events := transactor_events sample_ready @ [TransactedDerivative 5 1 sample_bytes 3]\<rparr>)"
    unfolding ok_derivative Let_def
    by (intro exI [of _ 5] exI [of _ 1] exI [of _ "Limited (sample_weight 4000000000000)"]
        exI [of _ "fungible_asset 1 80"] exI [of _ None] exI [of _ "fungible_asset 0 80"] exI [of _ 920])
      (simp add: sample_payment_def currency_to_multilocation_def appendix_built_def sent_def
        fee_calculation_weight_def fungible_asset_def sample_transactor_def sample_ready_def
        del: moonbeam_encode_call.simps; simp add: sample_encoded del: moonbeam_encode_call.simps)
  then show ?thesis
    by (simp add: transactor_dispatch_def transactional_def sample_call_def)
qed

section \<open>The properties\<close>

text \<open>C31: whenever a call was sent through a derivative account, the caller was the account that the
  index had been registered for, with no removal of the index and no registration for anybody else
  in between; and the bytes sent were some inner call wrapped into \<open>as_derivative\<close> with this index.\<close>

theorem derivative_use_registered:
  assumes "transactor_reachable cfg ri s"
    and "transactor_events s = earlier @ TransactedDerivative who dest call index # later"
  shows "(\<exists>before after. earlier = before @ RegisteredDerivative who index # after
      \<and> DeRegisteredDerivative index \<notin> set after \<and> (\<forall>other. RegisteredDerivative other index \<notin> set after))
    \<and> (\<exists>t inner. dest = transactor_destination cfg t
      \<and> call = transactor_encode_call cfg t ri (AsDerivative index inner))"
proof -
  have "history_ok cfg ri (transactor_events s)"
    using transactor_reachable_ok [OF assms(1)] by (simp add: transactor_ok_def)
  then have "event_allowed cfg ri (owners_after earlier) (TransactedDerivative who dest call index)"
    using assms(2) unfolding history_ok_def by blast
  then show ?thesis using owner_registered [of earlier index who] by auto
qed

lemma reachable_dispatch:
  "transactor_reachable cfg ri s \<Longrightarrow> transactor_reachable cfg ri (snd (transactor_dispatch cfg o' c s))"
  by (rule transactor_reachable.call [where r = "fst (transactor_dispatch cfg o' c s)"]) simp_all

lemma reachable_run_calls:
  "transactor_reachable cfg ri s \<Longrightarrow> transactor_reachable cfg ri (run_calls cfg cs s)"
  by (induction cs arbitrary: s) (auto simp: reachable_dispatch)

lemma derivative_use_witness:
  "\<exists>before after. [RegisteredDerivative 5 3,
       TransactInfoChanged 1 \<lparr>transact_extra_weight = sample_weight 1000000000000,
         max_weight = sample_weight 9000000000000, transact_extra_weight_signed = None\<rparr>,
       DestFeePerSecondChanged (1 :: nat) 20] = before @ RegisteredDerivative 5 3 # after
     \<and> DeRegisteredDerivative 3 \<notin> set after \<and> (\<forall>other. RegisteredDerivative other 3 \<notin> set after)"
proof -
  have ready: "transactor_reachable sample_transactor POLKADOT_RELAY_INDICES sample_ready"
    using reachable_run_calls [OF transactor_reachable.genesis, of sample_transactor POLKADOT_RELAY_INDICES
        "take 3 sample_transactor_calls" 1000]
    by (simp only: sample_three_calls)
  show ?thesis
    using derivative_use_registered [OF transactor_reachable.call [OF ready sample_sent],
        of "transactor_events sample_ready" 5 1 sample_bytes 3 "[]"]
    by (simp add: sample_ready_def)
qed

text \<open>C30: in any sequence of calls that nobody with the right to spend freely takes part in, every
  message that draws on the sovereign account abroad is paid for by its own call: right before it
  the fee is withdrawn here, from the account of the caller of a derivative, or of the fee payer
  that the dispatcher of the sovereign account names; the message withdraws exactly this fee, as the
  destination names it, and nothing else. The messages of all other callers descend to the account
  of the caller first.\<close>

theorem users_draw_what_they_paid:
  assumes "\<forall>(o', c) \<in> set cs. \<not> free_spending cfg o' c"
  shows "\<exists>bills. snd (transactor_world (run_calls (logged_transactor cfg) cs s))
      = snd (transactor_world s) @ concat bills
    \<and> list_all2 (\<lambda>(o', c) bill. settled cfg o' c bill) cs bills"
  using assms by (rule run_calls_settled)

lemma sample_log:
  "snd (transactor_world (run_calls (logged_transactor sample_transactor) sample_transactor_calls
      (transactor_genesis POLKADOT_RELAY_INDICES (1000, [])))) =
    [Paid (fungible_asset 1 80) 105,
     Delivered 1 (message_for (fungible_asset 0 80) (Limited (sample_weight 4000000000000)) None
       OriginSovereignAccount (sample_weight 3000000000000) sample_bytes)]"
  using sample_fee sample_encoded
  by (simp add: sample_transactor_calls_def transactor_genesis_def transactor_dispatch_def transactional_def
      register_def set_transact_info_def set_fee_per_second_def prog_defs ensure_p_def origin_p_def ok_or_p_def
      deposit_transactor_event_def in_transactor_world_def sample_transactor_def logged_transactor_def Let_def
      sample_call_def transact_through_derivative_def currency_to_multilocation_def total_weight_of_def
      take_weight_from_transact_info_def calculate_fee_def take_fee_per_second_from_storage_def
      transfer_allowed_def ensure_valid_dest_def refund_appendix_def send_message_def transact_message_def
      transact_in_dest_chain_asset_non_signed_def withdraw_instruction_def buy_execution_def
      sample_payment_def sample_weights_def sample_weight_def weight_checked_add_def u64_max_def all_lte_def
      fee_calculation_weight_def fungible_asset_def message_for_def)

lemma users_draw_witness:
  "\<exists>bills. concat bills =
      [Paid (fungible_asset 1 80) 105,
       Delivered 1 (message_for (fungible_asset 0 80) (Limited (sample_weight 4000000000000)) None
         OriginSovereignAccount (sample_weight 3000000000000) sample_bytes)]
    \<and> list_all2 (\<lambda>(o', c) bill. settled sample_transactor o' c bill) sample_transactor_calls bills"
proof -
  have free: "\<forall>(o', c) \<in> set sample_transactor_calls. \<not> free_spending sample_transactor o' c"
    by (simp add: sample_transactor_calls_def free_spending_def sample_call_def)
  show ?thesis
    using users_draw_what_they_paid [OF free, of "transactor_genesis POLKADOT_RELAY_INDICES (1000, [])"]
    unfolding sample_log by (auto simp: transactor_genesis_def)
qed



text \<open>C33: for each of the three relay chains, the encoders that work from the table of indices in
  storage agree with the encoders over the call enums of the chain, when the table is the one that
  the chain's encoder comes with: for utility, HRMP and staking calls alike.\<close>

theorem relay_encoders_agree:
  "utility_encode_call cd POLKADOT_RELAY_INDICES u = polkadot_utility_encode_call cd u
    \<and> utility_encode_call cd KUSAMA_RELAY_INDICES u = kusama_utility_encode_call cd u
    \<and> utility_encode_call cd WESTEND_RELAY_INDICES u = westend_utility_encode_call cd u
    \<and> hrmp_encode_call cd POLKADOT_RELAY_INDICES h = polkadot_hrmp_encode_call cd h
    \<and> hrmp_encode_call cd KUSAMA_RELAY_INDICES h = kusama_hrmp_encode_call cd h
    \<and> hrmp_encode_call cd WESTEND_RELAY_INDICES h = westend_hrmp_encode_call cd h
    \<and> stake_encode_call cd POLKADOT_RELAY_INDICES c = polkadot_stake_encode_call cd c
    \<and> stake_encode_call cd KUSAMA_RELAY_INDICES c = kusama_stake_encode_call cd c
    \<and> stake_encode_call cd WESTEND_RELAY_INDICES c = westend_stake_encode_call cd c"
  by (simp only: utility_encoders_agree hrmp_encoders_agree stake_encoders_agree)

section \<open>Where the pallet does less than it says\<close>

text \<open>
  A fee that the caller names is taken as it is: that the destination is the reserve of the asset is
  checked only when the rate comes from storage.
\<close>

lemma named_fee_unchecked:
  "calculate_fee cfg loc (Some amount) dest w s = (Ok (fungible_asset loc amount), s)"
  by (simp add: calculate_fee_def prog_defs fungible_asset_def)

text \<open>
  The weights in storage do not cover an appendix, and calls that refund may not use them. HRMP
  calls always have one, and use them all the same: the limit leaves the appendix out.
\<close>

lemma hrmp_appendix_not_weighed:
  assumes "hrmp_manage cfg o' action payment wi s = (Ok (), t)" and "overall_weight wi = None"
  shows "\<exists>info w fee' b call. TransactInfoWithWeightLimit s (location_parent cfg) = Some info
    \<and> weight_checked_add (transact_required_weight_at_most wi) (transact_extra_weight info) = Some w
    \<and> sent cfg (location_parent cfg)
         [WithdrawAsset [fee'], BuyExecution fee' (Limited w),
          SetAppendix [RefundSurplus, DepositAsset (WildAllCounted 1) b],
          Transact OriginNative (Some (transact_required_weight_at_most wi)) call]
         (transactor_world s) (transactor_world t)"
  using assms by (auto simp: ok_hrmp Let_def weight_granted_def appendix_built_def message_for_def; blast)

end
