(* ===== verification/Evm_Handle.thy ===== *)
theory Evm_Handle
  imports Foreign_Evm
begin

text \<open>
  What a precompile sees of the EVM: its context, the gas that remains, the logs it emits, and the
  state of everything else, which its subcalls may change. The gas meter of the EVM, its gas costs,
  keccak and the Solidity encoding of events are parameters.
\<close>

section \<open>Contexts, failures, logs\<close>

record evm_context =
  ctx_address :: H160
  ctx_caller :: H160
  apparent_value :: U256

record evm_transfer =
  transfer_source :: H160
  transfer_target :: H160
  transfer_value :: U256

text \<open>
  \<open>PrecompileFailure\<close>. The encoding of a revert message is that of precompile-utils; a message is
  kept as its text.
\<close>

datatype precompile_error = OutOfGas | OtherError rust_string

datatype precompile_failure =
    FailError precompile_error
  | FailRevert "byte list"
  | FailFatal rust_string

datatype Log = EvmLog H160 "byte list list" "byte list"

record 'w evm =
  remaining_gas :: nat
  evm_logs :: "Log list"
  evm_world :: 'w

type_synonym ('w, 'a) precompile_m = "('w evm, precompile_failure, 'a) prog"

definition revert_m :: "string \<Rightarrow> ('w, 'a) precompile_m" where
  "revert_m message = fail_m (FailRevert (ascii message))"

definition ensure_or_revert :: "bool \<Rightarrow> string \<Rightarrow> ('w, unit) precompile_m" where
  "ensure_or_revert b message = (if b then return_m () else revert_m message)"

definition out_of_gas :: "('w, 'a) precompile_m" where
  "out_of_gas = fail_m (FailError OutOfGas)"

text \<open>\<open>PrecompileHandle::record_cost\<close>, \<open>log\<close>, and access to the state.\<close>

definition record_cost :: "nat \<Rightarrow> ('w, unit) precompile_m" where
  "record_cost n =
     (\<lambda>s. if n \<le> remaining_gas s then (Ok (), s\<lparr>remaining_gas := remaining_gas s - n\<rparr>) else out_of_gas s)"

definition emit_log :: "Log \<Rightarrow> ('w, unit) precompile_m" where
  "emit_log l = modify_m (\<lambda>s. s\<lparr>evm_logs := evm_logs s @ [l]\<rparr>)"

definition get_world :: "('w \<Rightarrow> 'a) \<Rightarrow> ('w, 'a) precompile_m" where
  "get_world f = gets_m (\<lambda>s. f (evm_world s))"

definition put_world :: "('w \<Rightarrow> 'w) \<Rightarrow> ('w, unit) precompile_m" where
  "put_world f = modify_m (\<lambda>s. s\<lparr>evm_world := f (evm_world s)\<rparr>)"

lemma wp_evm [wp_simps]:
  "wp (revert_m msg) P E s = E (FailRevert (ascii msg)) s"
  "wp (ensure_or_revert b msg) Q E s = (if b then Q () s else E (FailRevert (ascii msg)) s)"
  "wp out_of_gas R E s = E (FailError OutOfGas) s"
  "wp (record_cost n) Q E s = (if n \<le> remaining_gas s
     then Q () (s\<lparr>remaining_gas := remaining_gas s - n\<rparr>) else E (FailError OutOfGas) s)"
  "wp (emit_log l) Q E s = Q () (s\<lparr>evm_logs := evm_logs s @ [l]\<rparr>)"
  "wp (get_world f) S E s = S (f (evm_world s)) s"
  "wp (put_world g) Q E s = Q () (s\<lparr>evm_world := g (evm_world s)\<rparr>)"
  by (simp_all add: revert_m_def ensure_or_revert_def out_of_gas_def record_cost_def emit_log_def get_world_def
      put_world_def wp_simps) (simp add: wp_def fail_m_def out_of_gas_def)

text \<open>
  The EVM executes a precompile: a failure undoes what it did to logs and state; the gas is gone.
\<close>

definition evm_execute :: "('w, 'a) precompile_m \<Rightarrow> ('w, 'a) precompile_m" where
  "evm_execute m = (\<lambda>s. case m s of
      (Ok x, t) \<Rightarrow> (Ok x, t)
    | (Err e, t) \<Rightarrow> (Err e, s\<lparr>remaining_gas := remaining_gas t\<rparr>)
    | (Panic, t) \<Rightarrow> (Panic, s))"

lemma wp_evm_execute [wp_simps]:
  "wp (evm_execute m) Q E s = wp m Q (\<lambda>e t. E e (s\<lparr>remaining_gas := remaining_gas t\<rparr>)) s"
  by (auto simp: wp_def evm_execute_def split: prod.splits outcome.splits)

section \<open>Permits\<close>

text \<open>
  What the precompiles with signed permits share: keccak, the recovery of the key of a signer from a
  signature, the identifier of the chain, and the encoding of the domain of EIP-712.
\<close>

record eip712 =
  keccak_256 :: "byte list \<Rightarrow> byte list"
  ecdsa_recover :: "byte list \<Rightarrow> byte list \<Rightarrow> byte list option"
  ChainId :: nat
  encode_domain :: "byte list \<Rightarrow> byte list \<Rightarrow> byte list \<Rightarrow> U256 \<Rightarrow> H160 \<Rightarrow> byte list"

definition PERMIT_DOMAIN :: "'x eip712_scheme \<Rightarrow> byte list" where
  "PERMIT_DOMAIN cfg = keccak_256 cfg (ascii
     ''EIP712Domain(string name,string version,uint256 chainId,address verifyingContract)'')"

text \<open>The signature is \<open>r\<close>, \<open>s\<close> and \<open>v\<close>; an account is the end of the hash of its public key.\<close>

definition signature_bytes :: "byte list \<Rightarrow> byte list \<Rightarrow> byte \<Rightarrow> byte list" where
  "signature_bytes r s v = r @ s @ [v]"

definition address_of_key :: "'x eip712_scheme \<Rightarrow> byte list \<Rightarrow> H160" where
  "address_of_key cfg key = drop 12 (keccak_256 cfg key)"

definition H160_zero :: H160 where "H160_zero = replicate 20 0"

text \<open>\<open>U256\<close> addition panics on overflow.\<close>

definition next_nonce :: "U256 \<Rightarrow> ('w, U256) precompile_m" where
  "next_nonce nonce = (if unat nonce + 1 < 2 ^ 256 then return_m (nonce + 1) else panic_m)"

lemma word_less_succ: "unat (n :: U256) + 1 < 2 ^ 256 \<Longrightarrow> n < n + 1"
  by (simp add: word_less_nat_alt unat_word_ariths)

section \<open>Runs that succeed\<close>

lemma ok_evm [ok_simps]:
  "revert_m msg s = (Ok z, t) \<longleftrightarrow> False"
  "out_of_gas s = (Ok z, t) \<longleftrightarrow> False"
  "panic_m s = (Ok z', t') \<longleftrightarrow> False"
  "ensure_or_revert b msg s = (Ok (), t) \<longleftrightarrow> b \<and> t = s"
  "record_cost n s = (Ok (), t) \<longleftrightarrow> n \<le> remaining_gas s \<and> t = s\<lparr>remaining_gas := remaining_gas s - n\<rparr>"
  "emit_log l s = (Ok (), t) \<longleftrightarrow> t = s\<lparr>evm_logs := evm_logs s @ [l]\<rparr>"
  "get_world f s = (Ok x, t) \<longleftrightarrow> x = f (evm_world s) \<and> t = s"
  "put_world g s = (Ok (), t) \<longleftrightarrow> t = s\<lparr>evm_world := g (evm_world s)\<rparr>"
  "evm_execute m s = (Ok y, t) \<longleftrightarrow> m s = (Ok y, t)"
  by (auto simp: revert_m_def out_of_gas_def panic_m_def ensure_or_revert_def record_cost_def emit_log_def
      get_world_def put_world_def evm_execute_def ok_prog fail_m_def return_m_def modify_m_def gets_m_def
      split: prod.splits outcome.splits)

lemma ok_next_nonce: "next_nonce n s = (Ok m, t) \<longleftrightarrow> unat n + 1 < 2 ^ 256 \<and> m = n + 1 \<and> t = s"
  by (auto simp: next_nonce_def ok_simps)

lemma ok_case_revert:
  "(case y of None \<Rightarrow> revert_m msg | Some k \<Rightarrow> f k) s = (Ok z, t) \<longleftrightarrow> (\<exists>k. y = Some k \<and> f k s = (Ok z, t))"
  by (simp add: ok_simps split: option.split)

lemma evm_execute_Err:
  "evm_execute m s = (Err e, t) \<Longrightarrow> evm_world t = evm_world s \<and> evm_logs t = evm_logs s"
  by (auto simp: evm_execute_def split: prod.splits outcome.splits)

end
