(* ===== verification/Batch.thy ===== *)
theory Batch
  imports Evm_Handle
begin

text \<open>
  The batch precompile (\<open>src/precompiles/batch\<close>): a list of subcalls made on behalf of the caller,
  in one of three modes. The decoding of the arguments, with its bounds on their lengths, is left
  out; the EVM's subcall, its costs and the encoding of logs are parameters.
\<close>

section \<open>The precompile\<close>

datatype Mode = BatchSome | BatchSomeUntilFailure | BatchAll

record 'w batch_config =
  handle_call :: "H160 \<Rightarrow> evm_transfer option \<Rightarrow> byte list \<Rightarrow> nat option \<Rightarrow> bool \<Rightarrow> evm_context \<Rightarrow> 'w evm
    \<Rightarrow> (ExitReason \<times> byte list) \<times> 'w evm"
  call_cost :: "U256 \<Rightarrow> nat"
  log_compute_cost :: "Log \<Rightarrow> nat option"
  LOG_SUBCALL_SUCCEEDED :: "byte list"
  LOG_SUBCALL_FAILED :: "byte list"
  encode_event_data :: "nat \<Rightarrow> byte list"
  code_address :: H160
  batch_context :: evm_context

definition log_subcall_succeeded :: "'w batch_config \<Rightarrow> H160 \<Rightarrow> nat \<Rightarrow> Log" where
  "log_subcall_succeeded cfg address index =
     EvmLog address [LOG_SUBCALL_SUCCEEDED cfg] (encode_event_data cfg index)"

definition log_subcall_failed :: "'w batch_config \<Rightarrow> H160 \<Rightarrow> nat \<Rightarrow> Log" where
  "log_subcall_failed cfg address index =
     EvmLog address [LOG_SUBCALL_FAILED cfg] (encode_event_data cfg index)"

text \<open>\<open>record_log_costs\<close> of one log, then \<open>record\<close>.\<close>

definition charge_and_log :: "'w batch_config \<Rightarrow> Log \<Rightarrow> ('w, unit) precompile_m" where
  "charge_and_log cfg l =
     (case log_compute_cost cfg l of
        None \<Rightarrow> out_of_gas
      | Some n \<Rightarrow> then_m (record_cost n) (emit_log l))"

definition subcall ::
  "'w batch_config \<Rightarrow> H160 \<Rightarrow> evm_transfer option \<Rightarrow> byte list \<Rightarrow> nat option \<Rightarrow> bool \<Rightarrow> evm_context
    \<Rightarrow> ('w, ExitReason \<times> byte list) precompile_m" where
  "subcall cfg address transfer data gas is_static ctx =
     (\<lambda>s. case handle_call cfg address transfer data gas is_static ctx s of (r, t) \<Rightarrow> (Ok r, t))"

text \<open>What the loop does next: go on, or return early.\<close>

datatype batch_flow = Continue | ReturnOk

text \<open>A subcall there is not enough gas for.\<close>

definition subcall_skipped :: "'w batch_config \<Rightarrow> Mode \<Rightarrow> nat \<Rightarrow> ('w, batch_flow) precompile_m" where
  "subcall_skipped cfg mode i =
     then_m (charge_and_log cfg (log_subcall_failed cfg (code_address cfg) i))
       (case mode of
          BatchAll \<Rightarrow> out_of_gas
        | BatchSomeUntilFailure \<Rightarrow> return_m ReturnOk
        | BatchSome \<Rightarrow> return_m Continue)"

fun proceed :: "Mode \<Rightarrow> ExitReason \<Rightarrow> byte list \<Rightarrow> ('w, batch_flow) precompile_m" where
  "proceed mode (Fatal exit_status) output = fail_m (FailFatal exit_status)"
| "proceed BatchAll Revert output = fail_m (FailRevert output)"
| "proceed BatchAll (ExitError exit_status) output = fail_m (FailError (OtherError exit_status))"
| "proceed BatchSomeUntilFailure Revert output = return_m ReturnOk"
| "proceed BatchSomeUntilFailure (ExitError _) output = return_m ReturnOk"
| "proceed _ _ output = return_m Continue"

text \<open>The log of an outcome.\<close>

definition log_outcome :: "'w batch_config \<Rightarrow> nat \<Rightarrow> ExitReason \<Rightarrow> ('w, unit) precompile_m" where
  "log_outcome cfg i reason =
     (case reason of
        Revert \<Rightarrow> charge_and_log cfg (log_subcall_failed cfg (code_address cfg) i)
      | ExitError _ \<Rightarrow> charge_and_log cfg (log_subcall_failed cfg (code_address cfg) i)
      | Succeed _ \<Rightarrow> charge_and_log cfg (log_subcall_succeeded cfg (code_address cfg) i)
      | Fatal _ \<Rightarrow> return_m ())"

text \<open>One subcall: its index, its target, and the arguments there are for it.\<close>

definition batch_transfer :: "'w batch_config \<Rightarrow> H160 \<Rightarrow> U256 \<Rightarrow> evm_transfer option" where
  "batch_transfer cfg address value =
     (if value = 0 then None
      else Some \<lparr>transfer_source = ctx_caller (batch_context cfg), transfer_target = address,
        transfer_value = value\<rparr>)"

definition batch_subcontext :: "'w batch_config \<Rightarrow> H160 \<Rightarrow> U256 \<Rightarrow> evm_context" where
  "batch_subcontext cfg address value =
     \<lparr>ctx_address = address, ctx_caller = ctx_caller (batch_context cfg), apparent_value = value\<rparr>"

definition batch_step ::
  "'w batch_config \<Rightarrow> Mode \<Rightarrow> nat \<Rightarrow> nat \<times> H160 \<Rightarrow> U256 option \<Rightarrow> byte list option \<Rightarrow> nat option
    \<Rightarrow> ('w, batch_flow) precompile_m" where
  "batch_step cfg mode log_cost = (\<lambda>(i, address) value call_data gas_limit.
     let value = (case value of Some v \<Rightarrow> v | None \<Rightarrow> 0);
         call_data = (case call_data of Some d \<Rightarrow> d | None \<Rightarrow> []);
         sub_context = batch_subcontext cfg address value;
         transfer = batch_transfer cfg address value
     in bind_m (gets_m remaining_gas) (\<lambda>gas.
       if gas < log_cost
       then (case mode of BatchAll \<Rightarrow> out_of_gas | _ \<Rightarrow> return_m ReturnOk)
       else let forwarded_gas = gas - log_cost; cost = call_cost cfg value
       in if forwarded_gas < cost then subcall_skipped cfg mode i
       else let forwarded_gas = forwarded_gas - cost
       in case gas_limit of
            Some limit \<Rightarrow>
              if limit > forwarded_gas then subcall_skipped cfg mode i
              else bind_m (subcall cfg address transfer call_data (Some limit) False sub_context)
                (\<lambda>(reason, output). then_m (log_outcome cfg i reason) (proceed mode reason output))
          | None \<Rightarrow>
              bind_m (subcall cfg address transfer call_data (Some forwarded_gas) False sub_context)
                (\<lambda>(reason, output). then_m (log_outcome cfg i reason) (proceed mode reason output))))"

text \<open>The loop over the zipped arguments; the lists that are too short go on with \<open>None\<close>.\<close>

fun next_arg :: "'a list \<Rightarrow> 'a option \<times> 'a list" where
  "next_arg [] = (None, [])"
| "next_arg (x # xs) = (Some x, xs)"

fun batch_loop ::
  "'w batch_config \<Rightarrow> Mode \<Rightarrow> nat \<Rightarrow> nat \<Rightarrow> H160 list \<Rightarrow> U256 list \<Rightarrow> byte list list \<Rightarrow> nat list
    \<Rightarrow> ('w, unit) precompile_m" where
  "batch_loop cfg mode log_cost i [] values calls_data gas_limits = return_m ()"
| "batch_loop cfg mode log_cost i (address # addresses) values calls_data gas_limits =
     (let (value, values) = next_arg values;
          (call_data, calls_data) = next_arg calls_data;
          (gas_limit, gas_limits) = next_arg gas_limits;
          gas_limit = (case gas_limit of Some x \<Rightarrow> if x = 0 then None else Some x | None \<Rightarrow> None)
      in bind_m (batch_step cfg mode log_cost (i, address) value call_data gas_limit) (\<lambda>flow.
           case flow of
             ReturnOk \<Rightarrow> return_m ()
           | Continue \<Rightarrow> batch_loop cfg mode log_cost (Suc i) addresses values calls_data gas_limits))"

definition inner_batch ::
  "'w batch_config \<Rightarrow> Mode \<Rightarrow> H160 list \<Rightarrow> U256 list \<Rightarrow> byte list list \<Rightarrow> nat list
    \<Rightarrow> ('w, unit) precompile_m" where
  "inner_batch cfg mode addresses values calls_data gas_limits =
     (case log_compute_cost cfg (log_subcall_failed cfg (code_address cfg) 0) of
        None \<Rightarrow> revert_m ''Failed to compute log cost''
      | Some log_cost \<Rightarrow> batch_loop cfg mode log_cost 0 addresses values calls_data gas_limits)"

definition batch_some ::
  "'w batch_config \<Rightarrow> H160 list \<Rightarrow> U256 list \<Rightarrow> byte list list \<Rightarrow> nat list \<Rightarrow> ('w, unit) precompile_m" where
  "batch_some cfg = inner_batch cfg BatchSome"

definition batch_some_until_failure ::
  "'w batch_config \<Rightarrow> H160 list \<Rightarrow> U256 list \<Rightarrow> byte list list \<Rightarrow> nat list \<Rightarrow> ('w, unit) precompile_m" where
  "batch_some_until_failure cfg = inner_batch cfg BatchSomeUntilFailure"

definition batch_all ::
  "'w batch_config \<Rightarrow> H160 list \<Rightarrow> U256 list \<Rightarrow> byte list list \<Rightarrow> nat list \<Rightarrow> ('w, unit) precompile_m" where
  "batch_all cfg = inner_batch cfg BatchAll"

end
