(* ===== verification/Batch_Properties.thy ===== *)
theory Batch_Properties
  imports Batch "HOL-Library.Sublist"
begin

text \<open>
  The batch precompile: what each mode promises about the subcalls that are made, and that the gas
  it reserves is enough for its own logs.
\<close>

section \<open>The gas that is reserved is enough\<close>

text \<open>
  What the EVM and its gas costs promise: a subcall uses at most its cost and the gas it is given;
  the cost of a log does not depend on the index in it, nor on which of the two logs it is.
\<close>

definition call_laws :: "'w batch_config \<Rightarrow> bool" where
  "call_laws cfg \<longleftrightarrow> (\<forall>address transfer data gas is_static ctx s r t.
     handle_call cfg address transfer data (Some gas) is_static ctx s = (r, t)
       \<longrightarrow> remaining_gas s \<le> remaining_gas t + call_cost cfg (apparent_value ctx) + gas)"

definition log_cost_law :: "'w batch_config \<Rightarrow> nat \<Rightarrow> bool" where
  "log_cost_law cfg n \<longleftrightarrow>
     (\<forall>i. log_compute_cost cfg (log_subcall_failed cfg (code_address cfg) i) = Some n
       \<and> log_compute_cost cfg (log_subcall_succeeded cfg (code_address cfg) i) = Some n)"

definition only_fatal :: "precompile_failure \<Rightarrow> bool" where
  "only_fatal e \<longleftrightarrow> (\<exists>x. e = FailFatal x)"

lemma wp_subcall [wp_simps]:
  "wp (subcall cfg a tr d g st ctx) Q E s = (case handle_call cfg a tr d g st ctx s of (r, t) \<Rightarrow> Q r t)"
  by (simp add: subcall_def wp_def split: prod.split)

lemma log_fits:
  assumes "log_cost_law cfg n" and "n \<le> remaining_gas s"
  shows "wp (log_outcome cfg i reason) (\<lambda>_ _. True) (\<lambda>e _. only_fatal e) s"
    and "mode \<noteq> BatchAll \<Longrightarrow> wp (subcall_skipped cfg mode i) (\<lambda>_ _. True) (\<lambda>e _. only_fatal e) s"
  using assms
  by (auto simp: log_outcome_def subcall_skipped_def charge_and_log_def log_cost_law_def wp_simps
      split: ExitReason.split Mode.split)

lemma wp_proceed:
  "mode \<noteq> BatchAll \<Longrightarrow> wp (proceed mode reason output) (\<lambda>_ _. True) (\<lambda>e _. only_fatal e) s"
  by (cases mode; cases reason) (auto simp: wp_simps only_fatal_def)

lemma called_and_logged:
  assumes laws: "call_laws cfg" "log_cost_law cfg n" and mode: "mode \<noteq> BatchAll"
    and gas: "n + call_cost cfg value + forwarded \<le> remaining_gas s"
  shows "wp (bind_m (subcall cfg address transfer data (Some forwarded) False (batch_subcontext cfg address value))
      (\<lambda>(reason, output). then_m (log_outcome cfg i reason) (proceed mode reason output)))
    (\<lambda>_ _. True) (\<lambda>e _. only_fatal e) s"
proof -
  obtain reason out t where
    run: "handle_call cfg address transfer data (Some forwarded) False (batch_subcontext cfg address value) s
      = ((reason, out), t)"
    by (metis surj_pair)
  have "n \<le> remaining_gas t"
    using laws(1) run gas unfolding call_laws_def batch_subcontext_def by fastforce
  from log_fits(1) [OF laws(2) this] have
    "wp (log_outcome cfg i reason) (\<lambda>_. wp (proceed mode reason out) (\<lambda>_ _. True) (\<lambda>e _. only_fatal e))
       (\<lambda>e _. only_fatal e) t"
    by (rule wp_mono) (simp_all add: wp_proceed [OF mode])
  then show ?thesis by (simp add: wp_simps run)
qed

lemma batch_step_only_fatal:
  assumes "call_laws cfg" "log_cost_law cfg n" and "mode \<noteq> BatchAll"
  shows "wp (batch_step cfg mode n (i, address) value data limit) (\<lambda>_ _. True) (\<lambda>e _. only_fatal e) s"
proof -
  let ?amount = "case value of Some v \<Rightarrow> v | None \<Rightarrow> 0"
  have skipped: "wp (subcall_skipped cfg mode i) (\<lambda>_ _. True) (\<lambda>e _. only_fatal e) s"
    if "n \<le> remaining_gas s" using log_fits(2) assms that by blast
  have called: "wp (bind_m (subcall cfg address tr d (Some f) False (batch_subcontext cfg address ?amount))
      (\<lambda>(reason, output). then_m (log_outcome cfg i reason) (proceed mode reason output)))
    (\<lambda>_ _. True) (\<lambda>e _. only_fatal e) s"
    if "n \<le> remaining_gas s" "call_cost cfg ?amount \<le> remaining_gas s - n"
      "f \<le> remaining_gas s - n - call_cost cfg ?amount" for tr d f
    using called_and_logged [OF assms, of ?amount f s address tr d i] that by simp
  show ?thesis
    unfolding batch_step_def Let_def prod.case wp_bind wp_gets
    using skipped called assms(3)
    by (cases mode) (auto simp: wp_return not_less split: option.split)
qed

lemma batch_loop_only_fatal:
  assumes "call_laws cfg" "log_cost_law cfg n" and "mode \<noteq> BatchAll"
  shows "wp (batch_loop cfg mode n i addresses vals datas limits)
    (\<lambda>_ _. True) (\<lambda>e _. only_fatal e) s"
proof (induction addresses arbitrary: i vals datas limits s)
  case Nil
  then show ?case by (simp add: wp_simps)
next
  case (Cons a as)
  show ?case
    by (auto simp: Let_def wp_bind split: prod.split
        intro!: wp_mono [OF batch_step_only_fatal [OF assms]] split: batch_flow.split)
      (auto simp: wp_simps Cons)
qed

section \<open>The subcalls that are made\<close>

text \<open>A configuration that notes down the subcalls and how they end.\<close>

record subcall_note =
  note_target :: H160
  note_transfer :: "evm_transfer option"
  note_data :: "byte list"
  note_context :: evm_context
  note_reason :: ExitReason

definition with_world :: "'v \<Rightarrow> 'w evm \<Rightarrow> 'v evm" where
  "with_world w s = \<lparr>remaining_gas = remaining_gas s, evm_logs = evm_logs s, evm_world = w\<rparr>"

lemma with_world_simps [simp]:
  "evm_world (with_world w s) = w" "remaining_gas (with_world w s) = remaining_gas s"
  by (simp_all add: with_world_def)

definition noting_call ::
  "'w batch_config \<Rightarrow> H160 \<Rightarrow> evm_transfer option \<Rightarrow> byte list \<Rightarrow> nat option \<Rightarrow> bool \<Rightarrow> evm_context
    \<Rightarrow> ('w \<times> subcall_note list) evm \<Rightarrow> (ExitReason \<times> byte list) \<times> ('w \<times> subcall_note list) evm" where
  "noting_call cfg a tr d g st ctx s =
     (case handle_call cfg a tr d g st ctx (with_world (fst (evm_world s)) s) of
        ((reason, out), t) \<Rightarrow> ((reason, out),
          with_world (evm_world t, snd (evm_world s) @
            [\<lparr>note_target = a, note_transfer = tr, note_data = d, note_context = ctx, note_reason = reason\<rparr>]) t))"

definition noting :: "'w batch_config \<Rightarrow> ('w \<times> subcall_note list) batch_config" where
  "noting cfg =
     \<lparr>handle_call = noting_call cfg, call_cost = call_cost cfg, log_compute_cost = log_compute_cost cfg,
      LOG_SUBCALL_SUCCEEDED = LOG_SUBCALL_SUCCEEDED cfg, LOG_SUBCALL_FAILED = LOG_SUBCALL_FAILED cfg,
      encode_event_data = encode_event_data cfg, code_address = code_address cfg,
      batch_context = batch_context cfg\<rparr>"

abbreviation noted_calls :: "('w \<times> subcall_note list) evm \<Rightarrow> subcall_note list" where
  "noted_calls s \<equiv> snd (evm_world s)"

definition succeeds :: "subcall_note \<Rightarrow> bool" where
  "succeeds x \<longleftrightarrow> (\<exists>e. note_reason x = Succeed e)"

text \<open>The subcalls asked for: missing values are zero, missing call data is empty.\<close>

fun requested :: "H160 list \<Rightarrow> U256 list \<Rightarrow> byte list list \<Rightarrow> (H160 \<times> U256 \<times> byte list) list" where
  "requested [] vals datas = []"
| "requested (a # as) vals datas =
     (a, if vals = [] then 0 else hd vals, if datas = [] then [] else hd datas) # requested as (tl vals) (tl datas)"

definition note_request :: "subcall_note \<Rightarrow> H160 \<times> U256 \<times> byte list" where
  "note_request x = (note_target x, apparent_value (note_context x), note_data x)"

text \<open>Made as the caller of the batch, with the caller's own funds.\<close>

definition on_behalf :: "'w batch_config \<Rightarrow> subcall_note \<Rightarrow> bool" where
  "on_behalf cfg x \<longleftrightarrow>
     (let caller = ctx_caller (batch_context cfg); value = apparent_value (note_context x) in
        ctx_caller (note_context x) = caller
      \<and> ctx_address (note_context x) = note_target x
      \<and> note_transfer x = (if value = 0 then None
          else Some \<lparr>transfer_source = caller, transfer_target = note_target x, transfer_value = value\<rparr>))"

definition made ::
  "'w batch_config \<Rightarrow> Mode \<Rightarrow> (H160 \<times> U256 \<times> byte list) list \<Rightarrow> subcall_note list \<Rightarrow> bool" where
  "made cfg mode reqs xs \<longleftrightarrow> subseq (map note_request xs) reqs \<and> list_all (on_behalf cfg) xs
     \<and> (mode = BatchAll \<longrightarrow> map note_request xs = reqs \<and> list_all succeeds xs)
     \<and> (mode = BatchSomeUntilFailure \<longrightarrow> prefix (map note_request xs) reqs \<and> list_all succeeds (butlast xs))"

lemma made_Nil: "made cfg mode [] []" "mode \<noteq> BatchAll \<Longrightarrow> made cfg mode reqs []"
  by (simp_all add: made_def)

lemma made_Cons:
  assumes "made cfg mode reqs xs" and "on_behalf cfg x" and "note_request x = r"
    and "mode = BatchSome \<or> succeeds x"
  shows "made cfg mode (r # reqs) (x # xs)"
  using assms by (auto simp: made_def)

lemma made_skip: "made cfg BatchSome reqs xs \<Longrightarrow> made cfg BatchSome (r # reqs) xs"
  by (auto simp: made_def)

lemma made_last:
  "on_behalf cfg x \<Longrightarrow> note_request x = r \<Longrightarrow> mode \<noteq> BatchAll \<Longrightarrow> made cfg mode (r # reqs) [x]"
  by (auto simp: made_def)

lemma noting_simps [simp]:
  "call_cost (noting cfg) = call_cost cfg" "batch_context (noting cfg) = batch_context cfg"
  "batch_transfer (noting cfg) = batch_transfer cfg" "batch_subcontext (noting cfg) = batch_subcontext cfg"
  "code_address (noting cfg) = code_address cfg"
  by (simp_all add: noting_def batch_transfer_def batch_subcontext_def fun_eq_iff)

text \<open>What a step did: it noted one subcall, or none.\<close>

definition stepped ::
  "'w batch_config \<Rightarrow> Mode \<Rightarrow> H160 \<times> U256 \<times> byte list \<Rightarrow> batch_flow \<Rightarrow> subcall_note list \<Rightarrow> bool" where
  "stepped cfg mode r flow xs \<longleftrightarrow>
     (xs = [] \<and> (mode = BatchSome \<or> mode = BatchSomeUntilFailure \<and> flow = ReturnOk))
     \<or> (\<exists>x. xs = [x] \<and> note_request x = r \<and> on_behalf cfg x
          \<and> (if flow = Continue then mode = BatchSome \<or> succeeds x else mode \<noteq> BatchAll))"

lemma wp_charge_keeps:
  "wp (charge_and_log cfg l) (\<lambda>_ t. evm_world t = evm_world s) (\<lambda>_ _. True) s"
  by (simp add: charge_and_log_def wp_simps split: option.split)

lemma wp_log_outcome_keeps:
  "wp (log_outcome cfg i reason) (\<lambda>_ t. evm_world t = evm_world s) (\<lambda>_ _. True) s"
  by (simp add: log_outcome_def wp_simps wp_charge_keeps split: ExitReason.split)

lemma skipped_stepped:
  "wp (subcall_skipped (noting cfg) mode i)
     (\<lambda>flow t. \<exists>xs. noted_calls t = noted_calls s @ xs \<and> stepped cfg mode r flow xs) (\<lambda>_ _. True) s"
  unfolding subcall_skipped_def wp_then
  by (rule wp_mono [OF wp_charge_keeps]) (cases mode; simp add: wp_simps stepped_def)+

lemma wp_proceed_flow:
  "wp (proceed mode reason out)
     (\<lambda>flow t. t = s \<and> (if flow = Continue then mode = BatchSome \<or> (\<exists>e. reason = Succeed e) else mode \<noteq> BatchAll))
     (\<lambda>_ _. True) s"
  by (cases mode; cases reason) (simp_all add: wp_simps)

lemma called_stepped:
  fixes cfg :: "'w batch_config" and address :: H160 and v :: U256 and d :: "byte list"
  shows "wp (bind_m (subcall (noting cfg) address (batch_transfer cfg address v) d g False
        (batch_subcontext cfg address v))
      (\<lambda>(reason, out). then_m (log_outcome (noting cfg) i reason) (proceed mode reason out)))
    (\<lambda>flow t. \<exists>xs. noted_calls t = noted_calls s @ xs \<and> stepped cfg mode (address, v, d) flow xs) (\<lambda>_ _. True) s"
proof -
  let ?ctx = "batch_subcontext cfg address v"
  let ?tr = "batch_transfer cfg address v"
  obtain reason out t where
    run: "handle_call cfg address ?tr d g False ?ctx (with_world (fst (evm_world s)) s) = ((reason, out), t)"
    by (metis surj_pair)
  let ?x = "\<lparr>note_target = address, note_transfer = ?tr, note_data = d, note_context = ?ctx, note_reason = reason\<rparr>"
  let ?u = "with_world (evm_world t, noted_calls s @ [?x]) t"
  have u: "handle_call (noting cfg) address ?tr d g False ?ctx s = ((reason, out), ?u)"
    by (simp add: noting_def noting_call_def run)
  have x: "note_request ?x = (address, v, d)" "on_behalf cfg ?x"
    by (simp_all add: note_request_def on_behalf_def batch_subcontext_def batch_transfer_def Let_def)
  have "wp (then_m (log_outcome (noting cfg) i reason) (proceed mode reason out))
    (\<lambda>flow t. \<exists>xs. noted_calls t = noted_calls s @ xs \<and> stepped cfg mode (address, v, d) flow xs) (\<lambda>_ _. True) ?u"
    unfolding wp_then
  proof (rule wp_mono [OF wp_log_outcome_keeps])
    fix y and t' :: "('w \<times> subcall_note list) evm"
    assume t': "evm_world t' = evm_world ?u"
    show "wp (proceed mode reason out)
      (\<lambda>flow t. \<exists>xs. noted_calls t = noted_calls s @ xs \<and> stepped cfg mode (address, v, d) flow xs) (\<lambda>_ _. True) t'"
      by (rule wp_mono [OF wp_proceed_flow])
        (use t' x in \<open>auto simp: stepped_def succeeds_def split: if_splits\<close>)
  qed simp
  then show ?thesis by (simp add: wp_simps u)
qed

lemma batch_step_stepped:
  "wp (batch_step (noting cfg) mode n (i, address) v d limit)
     (\<lambda>flow t. \<exists>xs. noted_calls t = noted_calls s @ xs
        \<and> stepped cfg mode (address, case v of Some x \<Rightarrow> x | None \<Rightarrow> 0, case d of Some x \<Rightarrow> x | None \<Rightarrow> []) flow xs)
     (\<lambda>_ _. True) s"
proof -
  let ?v = "case v of Some x \<Rightarrow> x | None \<Rightarrow> 0" and ?d = "case d of Some x \<Rightarrow> x | None \<Rightarrow> []"
  let ?Q = "\<lambda>flow t. \<exists>xs. noted_calls t = noted_calls s @ xs \<and> stepped cfg mode (address, ?v, ?d) flow xs"
  have skipped: "wp (subcall_skipped (noting cfg) mode i) ?Q (\<lambda>_ _. True) s"
    by (rule skipped_stepped)
  have called: "wp (bind_m (subcall (noting cfg) address (batch_transfer cfg address ?v) ?d g False
        (batch_subcontext cfg address ?v))
      (\<lambda>(reason, out). then_m (log_outcome (noting cfg) i reason) (proceed mode reason out))) ?Q (\<lambda>_ _. True) s"
    for g by (rule called_stepped)
  have stopped: "mode \<noteq> BatchAll \<Longrightarrow> ?Q ReturnOk s"
    by (cases mode) (simp_all add: stepped_def)
  show ?thesis
    unfolding batch_step_def Let_def prod.case wp_bind wp_gets noting_simps
    using skipped called stopped
    by (cases mode) (auto simp: wp_return wp_evm split: option.split)
qed

lemma next_arg_simps:
  "(case fst (next_arg vals) of Some x \<Rightarrow> x | None \<Rightarrow> z) = (if vals = [] then z else hd vals)"
  "snd (next_arg vals) = tl vals"
  by (cases vals; simp)+

lemma batch_loop_Cons:
  "batch_loop cfg mode n i (a # as) vals datas limits =
     bind_m (batch_step cfg mode n (i, a) (fst (next_arg vals)) (fst (next_arg datas))
         (case fst (next_arg limits) of Some x \<Rightarrow> if x = 0 then None else Some x | None \<Rightarrow> None))
       (\<lambda>flow. case flow of ReturnOk \<Rightarrow> return_m ()
          | Continue \<Rightarrow> batch_loop cfg mode n (Suc i) as (tl vals) (tl datas) (tl limits))"
  by (cases vals; cases datas; cases limits) (simp_all cong: batch_flow.case_cong)

lemma batch_loop_made:
  "wp (batch_loop (noting cfg) mode n i addresses vals datas limits)
     (\<lambda>_ t. \<exists>xs. noted_calls t = noted_calls s @ xs \<and> made cfg mode (requested addresses vals datas) xs)
     (\<lambda>_ _. True) s"
proof (induction addresses arbitrary: i vals datas limits s)
  case Nil
  then show ?case by (simp add: wp_simps made_Nil)
next
  case (Cons a as)
  let ?r = "(a, if vals = [] then 0 else hd vals, if datas = [] then [] else hd datas)"
  let ?reqs = "requested as (tl vals) (tl datas)"
  let ?goal = "\<lambda>_ t. \<exists>xs. noted_calls t = noted_calls s @ xs \<and> made cfg mode (?r # ?reqs) xs"
  let ?limit = "case fst (next_arg limits) of Some x \<Rightarrow> if x = 0 then None else Some x | None \<Rightarrow> None"
  have "wp (batch_step (noting cfg) mode n (i, a) (fst (next_arg vals)) (fst (next_arg datas)) ?limit)
    (\<lambda>flow. wp (case flow of ReturnOk \<Rightarrow> return_m ()
       | Continue \<Rightarrow> batch_loop (noting cfg) mode n (Suc i) as (tl vals) (tl datas) (tl limits)) ?goal (\<lambda>_ _. True))
    (\<lambda>_ _. True) s"
  proof (rule wp_mono [OF batch_step_stepped])
    fix flow and t :: "('a \<times> subcall_note list) evm"
    assume "\<exists>xs. noted_calls t = noted_calls s @ xs
      \<and> stepped cfg mode (a, case fst (next_arg vals) of Some x \<Rightarrow> x | None \<Rightarrow> 0,
          case fst (next_arg datas) of Some x \<Rightarrow> x | None \<Rightarrow> []) flow xs"
    then obtain xs where xs: "noted_calls t = noted_calls s @ xs" "stepped cfg mode ?r flow xs"
      unfolding next_arg_simps by blast
    show "wp (case flow of ReturnOk \<Rightarrow> return_m ()
       | Continue \<Rightarrow> batch_loop (noting cfg) mode n (Suc i) as (tl vals) (tl datas) (tl limits)) ?goal (\<lambda>_ _. True) t"
    proof (cases flow)
      case Continue
      have "wp (batch_loop (noting cfg) mode n (Suc i) as (tl vals) (tl datas) (tl limits)) ?goal (\<lambda>_ _. True) t"
        by (rule wp_mono [OF Cons.IH])
          (use xs Continue in \<open>auto simp: stepped_def intro: made_skip made_Cons\<close>)
      with Continue show ?thesis by simp
    next
      case ReturnOk
      with xs show ?thesis by (auto simp: wp_simps stepped_def intro: made_Nil made_last)
    qed
  qed simp
  then show ?case unfolding batch_loop_Cons wp_bind requested.simps .
qed

lemma inner_batch_made:
  assumes "inner_batch (noting cfg) mode addresses vals datas limits s = (Ok (), t)" and "noted_calls s = []"
  shows "made cfg mode (requested addresses vals datas) (noted_calls t)"
proof -
  obtain n where "batch_loop (noting cfg) mode n 0 addresses vals datas limits s = (Ok (), t)"
    using assms(1) by (auto simp: inner_batch_def revert_m_def fail_m_def split: option.splits)
  from wp_OkD [OF batch_loop_made this] show ?thesis by (auto simp: assms(2))
qed

lemma inner_batch_no_panic: "fst (inner_batch (noting cfg) mode addresses vals datas limits s) \<noteq> Panic"
  by (simp add: inner_batch_def revert_m_def fail_m_def wp_not_Panic [OF batch_loop_made] split: option.split)

section \<open>A sample\<close>

text \<open>
  Subcalls cost five gas and use what they are given; those with call data revert, the others
  succeed. A log costs ten. The world counts the subcalls.
\<close>

definition sample_batch :: "nat batch_config" where
  "sample_batch = \<lparr>
     handle_call = (\<lambda>a tr d g st ctx s. ((if d = [] then Succeed Returned else Revert, []),
       s\<lparr>remaining_gas := remaining_gas s - (5 + (case g of Some x \<Rightarrow> x | None \<Rightarrow> 0)),
         evm_world := evm_world s + 1\<rparr>)),
     call_cost = (\<lambda>_. 5),
     log_compute_cost = (\<lambda>_. Some 10),
     LOG_SUBCALL_SUCCEEDED = [1], LOG_SUBCALL_FAILED = [2],
     encode_event_data = (\<lambda>i. [word_of_nat i]),
     code_address = [8],
     batch_context = \<lparr>ctx_address = [8], ctx_caller = [7], apparent_value = 0\<rparr>\<rparr>"

lemma sample_batch_laws: "call_laws sample_batch" "log_cost_law sample_batch 10"
  by (auto simp: call_laws_def log_cost_law_def sample_batch_def)

definition sample_evm :: "nat evm" where
  "sample_evm = \<lparr>remaining_gas = 100, evm_logs = [], evm_world = 0\<rparr>"

section \<open>The properties\<close>

text \<open>A batch in one of the two modes that tolerate failures never fails, whatever its subcalls do
  and however little gas there is, unless a subcall ends the execution of the EVM itself: the gas it
  keeps back is always enough for its logs. (A subcall uses no more than its cost and the gas it is
  given, and all logs of the precompile cost the same.)\<close>

theorem batch_some_never_fails:
  assumes "call_laws cfg" and "log_cost_law cfg n" and "mode \<in> {BatchSome, BatchSomeUntilFailure}"
  shows "fst (inner_batch cfg mode addresses vals datas limits s) = Ok ()
    \<or> (\<exists>e. fst (inner_batch cfg mode addresses vals datas limits s) = Err (FailFatal e))"
proof -
  have "log_compute_cost cfg (log_subcall_failed cfg (code_address cfg) 0) = Some n"
    using assms(2) by (simp add: log_cost_law_def)
  moreover have "wp (batch_loop cfg mode n 0 addresses vals datas limits) (\<lambda>_ _. True) (\<lambda>e _. only_fatal e) s"
    using assms(3) by (intro batch_loop_only_fatal [OF assms(1, 2)]) auto
  ultimately show ?thesis
    by (auto simp: inner_batch_def wp_iff only_fatal_def)
qed

lemma batch_some_witness:
  "fst (inner_batch sample_batch BatchSome [[1], [2], [3]] [] [[], [9]] [20] sample_evm) = Ok ()
    \<or> (\<exists>e. fst (inner_batch sample_batch BatchSome [[1], [2], [3]] [] [[], [9]] [20] sample_evm) = Err (FailFatal e))"
  by (rule batch_some_never_fails [OF sample_batch_laws]) simp

text \<open>C39: the subcalls that a batch makes are among those asked for, in their order, each once, and
  each is made as the caller of the batch with the caller's funds. A batch that fails leaves no
  state and no logs behind, and none panics. If a batch was to do all and did not fail, all of them
  were made and succeeded; if it was to stop at a failure, those made are the first ones asked for,
  and all but the last one succeeded.\<close>

theorem batch_makes_what_is_asked:
  assumes "evm_execute (inner_batch (noting cfg) mode addresses vals datas limits) s = (r, t)"
    and "snd (evm_world s) = []" and "calls = snd (evm_world t)"
  shows "(\<exists>e. r = Err e) \<and> evm_world t = evm_world s \<and> evm_logs t = evm_logs s
    \<or> r = Ok () \<and> subseq (map note_request calls) (requested addresses vals datas)
      \<and> list_all (on_behalf cfg) calls
      \<and> (mode = BatchAll \<longrightarrow> map note_request calls = requested addresses vals datas \<and> list_all succeeds calls)
      \<and> (mode = BatchSomeUntilFailure \<longrightarrow>
          prefix (map note_request calls) (requested addresses vals datas) \<and> list_all succeeds (butlast calls))"
proof (cases r)
  case (Ok x)
  then have "inner_batch (noting cfg) mode addresses vals datas limits s = (Ok (), t)"
    using assms(1) by (auto simp: evm_execute_def split: prod.splits outcome.splits)
  from inner_batch_made [OF this assms(2)] Ok assms(3) show ?thesis by (simp add: made_def)
next
  case (Err e)
  then show ?thesis using assms(1) by (auto simp: evm_execute_def split: prod.splits outcome.splits)
next
  case Panic
  then show ?thesis
    using assms(1) inner_batch_no_panic [of cfg mode addresses vals datas limits s]
    by (auto simp: evm_execute_def split: prod.splits outcome.splits)
qed

lemma batch_makes_witness:
  "let s = \<lparr>remaining_gas = 100, evm_logs = [], evm_world = (0, [])\<rparr>;
       run = evm_execute (inner_batch (noting sample_batch) BatchAll [[1], [2]] [3] [] [20]) s
   in fst run = Ok () \<and> map note_request (snd (evm_world (snd run))) = [([1], 3, []), ([2], 0, [])]
      \<and> list_all succeeds (snd (evm_world (snd run)))"
proof -
  let ?s = "\<lparr>remaining_gas = 100, evm_logs = [], evm_world = (0 :: nat, [])\<rparr>"
  let ?run = "evm_execute (inner_batch (noting sample_batch) BatchAll [[1], [2]] [3] [] [20]) ?s"
  have ok: "fst ?run = Ok ()"
    by (simp add: evm_execute_def inner_batch_def noting_def sample_batch_def prog_defs batch_step_def
        log_outcome_def charge_and_log_def noting_call_def with_world_def subcall_def record_cost_def
        emit_log_def Let_def out_of_gas_def)
  then have run: "evm_execute (inner_batch (noting sample_batch) BatchAll [[1], [2]] [3] [] [20]) ?s = (Ok (), snd ?run)"
    by (metis prod.collapse)
  have start: "snd (evm_world ?s) = []" by simp
  show ?thesis
    using ok batch_makes_what_is_asked [OF run start refl] unfolding Let_def by simp
qed

end
