(* ===== verification/Call_Permit.thy ===== *)
theory Call_Permit
  imports Evm_Handle
begin

text \<open>
  The call-permit precompile (\<open>src/precompiles/call-permit\<close>): a call that its sender has signed is
  dispatched, and paid for, by somebody else. Keccak, the recovery of signers, the Solidity
  encoding of tuples, the costs of the EVM and its subcall are parameters.
\<close>

section \<open>State and parameters\<close>

text \<open>The nonces are state of the precompile; a subcall can change them too, by calling it again.\<close>

record 'w permit_world =
  NoncesStorage :: "H160 \<Rightarrow> U256"
  permit_rest :: 'w

record 'w permit_config = eip712 +
  permit_handle_call :: "H160 \<Rightarrow> evm_transfer option \<Rightarrow> byte list \<Rightarrow> nat option \<Rightarrow> bool \<Rightarrow> evm_context
    \<Rightarrow> 'w permit_world evm \<Rightarrow> (ExitReason \<times> byte list) \<times> 'w permit_world evm"
  permit_call_cost :: "U256 \<Rightarrow> nat"
  db_read_cost :: "nat \<Rightarrow> nat"
  db_write_gas_cost :: nat
  encode_permit :: "byte list \<Rightarrow> H160 \<Rightarrow> H160 \<Rightarrow> U256 \<Rightarrow> byte list \<Rightarrow> nat \<Rightarrow> U256 \<Rightarrow> U256 \<Rightarrow> byte list"
  timestamp_now :: "'w \<Rightarrow> nat"
  permit_context :: evm_context

definition CALL_PERMIT_TYPEHASH :: "'w permit_config \<Rightarrow> byte list" where
  "CALL_PERMIT_TYPEHASH cfg = keccak_256 cfg (ascii
     ''CallPermit(address from,address to,uint256 value,bytes data,uint64 gaslimit,uint256 nonce,uint256 deadline)'')"

definition record_db_read :: "'w permit_config \<Rightarrow> nat \<Rightarrow> ('v, unit) precompile_m" where
  "record_db_read cfg n = record_cost (db_read_cost cfg n)"

section \<open>The permit\<close>

definition compute_domain_separator :: "'w permit_config \<Rightarrow> H160 \<Rightarrow> byte list" where
  "compute_domain_separator cfg address =
     (let name = keccak_256 cfg (ascii ''Call Permit Precompile'');
          version = keccak_256 cfg (ascii ''1'');
          chain_id = word_of_nat (ChainId cfg)
      in keccak_256 cfg (encode_domain cfg (PERMIT_DOMAIN cfg) name version chain_id address))"

definition generate_permit ::
  "'w permit_config \<Rightarrow> H160 \<Rightarrow> H160 \<Rightarrow> H160 \<Rightarrow> U256 \<Rightarrow> byte list \<Rightarrow> nat \<Rightarrow> U256 \<Rightarrow> U256 \<Rightarrow> byte list" where
  "generate_permit cfg address from' to' value' data gaslimit nonce deadline =
     (let domain_separator = compute_domain_separator cfg address;
          permit_content = keccak_256 cfg (encode_permit cfg (CALL_PERMIT_TYPEHASH cfg) from' to' value'
            (keccak_256 cfg data) gaslimit nonce deadline)
      in keccak_256 cfg ([0x19, 0x01] @ domain_separator @ permit_content))"

definition dispatch_inherent_cost :: "'w permit_config \<Rightarrow> nat" where
  "dispatch_inherent_cost cfg = 3000 + db_write_gas_cost cfg"

section \<open>Dispatching\<close>

fun subcall_result :: "ExitReason \<Rightarrow> byte list \<Rightarrow> ('w, byte list) precompile_m" where
  "subcall_result (ExitError exit_status) out = fail_m (FailError (OtherError exit_status))"
| "subcall_result (Fatal exit_status) out = fail_m (FailFatal exit_status)"
| "subcall_result Revert out = fail_m (FailRevert out)"
| "subcall_result (Succeed _) out = return_m out"

definition permit_transfer :: "H160 \<Rightarrow> H160 \<Rightarrow> U256 \<Rightarrow> evm_transfer option" where
  "permit_transfer from' to' value' =
     (if value' = 0 then None
      else Some \<lparr>transfer_source = from', transfer_target = to', transfer_value = value'\<rparr>)"

definition permit_subcall ::
  "'w permit_config \<Rightarrow> H160 \<Rightarrow> H160 \<Rightarrow> U256 \<Rightarrow> byte list \<Rightarrow> nat
    \<Rightarrow> ('w permit_world, ExitReason \<times> byte list) precompile_m" where
  "permit_subcall cfg from' to' value' data gas_limit = (\<lambda>s.
     let sub_context = \<lparr>ctx_address = to', ctx_caller = from', apparent_value = value'\<rparr>;
         transfer = permit_transfer from' to' value'
     in case permit_handle_call cfg to' transfer data (Some gas_limit) False sub_context s of
          (r, t) \<Rightarrow> (Ok r, t))"

definition permit_dispatch ::
  "'w permit_config \<Rightarrow> H160 \<Rightarrow> H160 \<Rightarrow> U256 \<Rightarrow> byte list \<Rightarrow> nat \<Rightarrow> U256 \<Rightarrow> byte \<Rightarrow> byte list \<Rightarrow> byte list
    \<Rightarrow> ('w permit_world, byte list) precompile_m" where
  "permit_dispatch cfg from' to' value' data gas_limit deadline v r s =
     then_m (record_db_read cfg 8)
    (then_m (record_db_read cfg 104)
    (then_m (record_cost (dispatch_inherent_cost cfg))
    (let total_cost = gas_limit + permit_call_cost cfg value'
     in then_m (ensure_or_revert (total_cost \<le> u64_max) ''Call require too much gas (uint64 overflow)'')
    (bind_m (gets_m remaining_gas) (\<lambda>gas.
     then_m (ensure_or_revert (total_cost \<le> gas) ''Gaslimit is too low to dispatch provided call'')
    (bind_m (get_world (\<lambda>w. min (timestamp_now cfg (permit_rest w)) u128_max)) (\<lambda>ms.
     let timestamp = word_of_nat (ms div 1000)
     in then_m (ensure_or_revert (timestamp \<le> deadline) ''Permit expired'')
    (bind_m (get_world (\<lambda>w. NoncesStorage w from')) (\<lambda>nonce.
     let permit = generate_permit cfg (ctx_address (permit_context cfg)) from' to' value' data gas_limit
           nonce deadline
     in case ecdsa_recover cfg (signature_bytes r s v) permit of
          None \<Rightarrow> revert_m ''Invalid permit''
        | Some key \<Rightarrow>
           let signer = address_of_key cfg key
           in then_m (ensure_or_revert (signer \<noteq> H160_zero \<and> signer = from') ''Invalid permit'')
             (bind_m (next_nonce nonce) (\<lambda>n.
              then_m (put_world (\<lambda>w. w\<lparr>NoncesStorage := (NoncesStorage w)(from' := n)\<rparr>))
             (bind_m (permit_subcall cfg from' to' value' data gas_limit) (\<lambda>(reason, out).
              subcall_result reason out)))))))))))))"

definition call_permit_nonces :: "'w permit_config \<Rightarrow> H160 \<Rightarrow> ('w permit_world, U256) precompile_m" where
  "call_permit_nonces cfg holder =
     then_m (record_db_read cfg 104) (get_world (\<lambda>w. NoncesStorage w holder))"

definition call_permit_domain_separator :: "'w permit_config \<Rightarrow> ('w permit_world, byte list) precompile_m" where
  "call_permit_domain_separator cfg =
     then_m (record_db_read cfg 8)
       (return_m (compute_domain_separator cfg (ctx_address (permit_context cfg))))"

end
