(* ===== verification/Permit_Properties.thy ===== *)
theory Permit_Properties
  imports Call_Permit
begin

text \<open>
  The call-permit precompile: when a permit is dispatched, and that none is dispatched twice.
\<close>

section \<open>A dispatch that succeeds\<close>

lemma ok_subcall_result:
  "subcall_result reason out s = (Ok x, t) \<longleftrightarrow> (\<exists>e. reason = Succeed e) \<and> x = out \<and> t = s"
  by (cases reason) (auto simp: ok_simps)

definition permit_cost :: "'w permit_config \<Rightarrow> nat" where
  "permit_cost cfg = db_read_cost cfg 8 + db_read_cost cfg 104 + dispatch_inherent_cost cfg"

text \<open>The signature is one of \<open>from'\<close> over the permit with this nonce.\<close>

definition signed_permit ::
  "'w permit_config \<Rightarrow> H160 \<Rightarrow> H160 \<Rightarrow> U256 \<Rightarrow> byte list \<Rightarrow> nat \<Rightarrow> U256 \<Rightarrow> U256 \<Rightarrow> byte list \<Rightarrow> bool" where
  "signed_permit cfg from' to' value' data gas_limit nonce deadline sig \<longleftrightarrow>
     (\<exists>key. ecdsa_recover cfg sig (generate_permit cfg (ctx_address (permit_context cfg)) from' to' value' data
          gas_limit nonce deadline) = Some key
       \<and> address_of_key cfg key = from' \<and> from' \<noteq> H160_zero)"

text \<open>The state in which the subcall starts: the costs are paid and the nonce is used up.\<close>

definition permit_started :: "'w permit_config \<Rightarrow> H160 \<Rightarrow> 'w permit_world evm \<Rightarrow> 'w permit_world evm" where
  "permit_started cfg from' s = s\<lparr>remaining_gas := remaining_gas s - permit_cost cfg,
     evm_world := (evm_world s)\<lparr>NoncesStorage :=
       (NoncesStorage (evm_world s))(from' := NoncesStorage (evm_world s) from' + 1)\<rparr>\<rparr>"

lemma ok_permit_subcall:
  "permit_subcall cfg from' to' value' data gas_limit s = (Ok x, t) \<longleftrightarrow>
     permit_handle_call cfg to'
       (permit_transfer from' to' value') data (Some gas_limit) False \<lparr>ctx_address = to', ctx_caller = from', apparent_value = value'\<rparr> s = (x, t)"
  by (auto simp: permit_subcall_def Let_def split: prod.split)

lemma ok_permit_dispatch:
  "permit_dispatch cfg from' to' value' data gas_limit deadline v r sg s = (Ok out, t) \<longleftrightarrow>
     permit_cost cfg \<le> remaining_gas s
   \<and> gas_limit + permit_call_cost cfg value' \<le> u64_max
   \<and> gas_limit + permit_call_cost cfg value' \<le> remaining_gas s - permit_cost cfg
   \<and> word_of_nat (min (timestamp_now cfg (permit_rest (evm_world s))) u128_max div 1000) \<le> deadline
   \<and> signed_permit cfg from' to' value' data gas_limit (NoncesStorage (evm_world s) from') deadline
       (signature_bytes r sg v)
   \<and> unat (NoncesStorage (evm_world s) from') + 1 < 2 ^ 256
   \<and> (\<exists>e. permit_handle_call cfg to'
            (permit_transfer from' to' value') data (Some gas_limit) False
            \<lparr>ctx_address = to', ctx_caller = from', apparent_value = value'\<rparr> (permit_started cfg from' s)
          = ((Succeed e, out), t))"
  by (auto simp: permit_dispatch_def Let_def record_db_read_def ok_simps ok_next_nonce ok_permit_subcall
      ok_case_revert ok_subcall_result permit_cost_def permit_started_def signed_permit_def add.assoc; blast)

section \<open>Runs\<close>












section \<open>A sample\<close>






section \<open>The properties\<close>



text \<open>A permit is dispatched exactly when the gas covers the costs, the subcall and its limit, the
  deadline has not passed, the signature is one of the sender over exactly these terms with the
  sender's present nonce, and the subcall succeeds; the subcall is made as the sender, with the nonce
  used up before it starts, and its result is returned.\<close>

theorem permit_dispatch_correct:
  "evm_execute (permit_dispatch cfg from' to' value' data gas_limit deadline v r sg) s = (Ok out, t) \<longleftrightarrow>
     permit_cost cfg \<le> remaining_gas s
   \<and> gas_limit + permit_call_cost cfg value' \<le> min u64_max (remaining_gas s - permit_cost cfg)
   \<and> word_of_nat (min (timestamp_now cfg (permit_rest (evm_world s))) u128_max div 1000) \<le> deadline
   \<and> (\<exists>key. ecdsa_recover cfg (r @ sg @ [v]) (generate_permit cfg (ctx_address (permit_context cfg)) from' to'
          value' data gas_limit (NoncesStorage (evm_world s) from') deadline) = Some key
        \<and> address_of_key cfg key = from' \<and> from' \<noteq> H160_zero)
   \<and> unat (NoncesStorage (evm_world s) from') + 1 < 2 ^ 256
   \<and> (\<exists>e. permit_handle_call cfg to'
            (if value' = 0 then None
             else Some \<lparr>transfer_source = from', transfer_target = to', transfer_value = value'\<rparr>)
            data (Some gas_limit) False
            \<lparr>ctx_address = to', ctx_caller = from', apparent_value = value'\<rparr>
            (s\<lparr>remaining_gas := remaining_gas s - permit_cost cfg,
               evm_world := (evm_world s)\<lparr>NoncesStorage := (NoncesStorage (evm_world s))
                 (from' := NoncesStorage (evm_world s) from' + 1)\<rparr>\<rparr>) = ((Succeed e, out), t))"
  unfolding ok_evm ok_permit_dispatch signed_permit_def permit_started_def signature_bytes_def permit_transfer_def
  by (simp only: min.bounded_iff conj_assoc)

end
