(* ===== verification/Spec2Isabelle.thy ===== *)
theory Spec2Isabelle
  imports Candidate_Properties Store_Properties Request_Properties Flow_Properties Lifecycle_Properties
    Selection_Properties Payout_Properties Orbiter_Properties Runtime_Properties Trader_Properties
    Invariant_Properties Asset_Properties Foreign_Properties Tracing_Properties Trace_Rpc_Properties
    Bridge_Properties Transactor_Properties Batch_Properties Permit_Properties
begin

text \<open>
  Verification of the pallets that a Moonbeam-based parachain is built around: its proof of stake
  (pallet-parachain-staking), the orbiter programme that shares collators among operators
  (pallet-moonbeam-orbiters), the runtime's composition of the two, the registries of the assets
  of other chains (pallet-asset-manager, pallet-moonbeam-foreign-assets, pallet-erc20-xcm-bridge),
  the calls it makes on other chains (pallet-xcm-transactor), and the sale of XCM execution for
  such assets (pallet-xcm-weight-trader). Of the precompiles, by which contracts reach the runtime,
  the batch of calls and the dispatch of signed permits are covered; of the node, the tracing of EVM
  transactions and the RPC that serves the traces. The sources are under \<open>src/pallets\<close>,
  \<open>src/precompiles\<close>, \<open>src/runtime/moonbeam\<close>, \<open>src/runtime/relay-encoder\<close>, \<open>src/client\<close> and
  \<open>src/primitives\<close>.

  The program. Candidates bond their own stake and collect delegations; the
  \<open>MaxTopDelegationsPerCandidate\<close> largest of them count towards the stake by which the
  candidates are ranked, the others wait in a bottom list. Delegators leave or reduce a
  delegation by a request that is scheduled, waits a number of rounds, and is then executed or
  cancelled. At the start of a round the best candidates become its collators, the issuance of
  the round that ended is set aside, and one collator with its delegators is paid per block. A new
  round also tells the orbiters pallet, which hands each collator pool to its next orbiter and
  records who serves in which round; the payout of a round then goes to the orbiter of that round.
  The weight trader keeps a price for each supported asset, charges a message for the weight it
  buys, gives back what a refund frees, and deposits the rest for the fees account. The asset
  manager maps asset ids to XCM locations and back for the assets of pallet-assets; the foreign
  assets pallet keeps the same two maps for assets that are ERC-20 contracts of the EVM, deploys
  and calls those contracts, and lets sibling chains manage the assets of their own locations.

  Shared theories.
    \<open>Prelude\<close>: runtime calls as state-passing programs with errors and panics, their weakest
      preconditions (\<open>wp\<close>, which excludes panics), fixed-width arithmetic, the slice operations of
      the standard library, the iteration order of a storage prefix.
    \<open>Frames\<close>: judgements on programs whatever their outcome: \<open>leaves f m\<close> (a view of the state
      is untouched), \<open>adds_at_most f n m\<close> (a bound on a measure), \<open>returns m\<close>.
    \<open>Pallet_Support\<close>: what the smaller pallets share: errors, origins, storage-map iteration.

  Staking, the model.
    \<open>Ordered_Sets\<close>: \<open>set.rs\<close>, and the interface \<open>keyed_store\<close> of a bounded ordered vector.
    \<open>Staking_Types\<close>: the types of \<open>types.rs\<close>, \<open>delegation_requests.rs\<close>, \<open>auto_compound.rs\<close> and
      \<open>inflation.rs\<close>; the errors, events, storage and configuration of \<open>lib.rs\<close>.
    \<open>Delegation_Lists\<close>, \<open>Delegators\<close>, \<open>Candidates\<close>: the \<open>Delegations\<close>, \<open>Delegator\<close> and
      \<open>CandidateMetadata\<close> types with their methods, and the request and auto-compounding helpers
      those methods call.
    \<open>Delegation_Requests\<close>: what touches a delegator and a candidate at once: bonding more,
      scheduling, cancelling and executing a request, delegating.
    \<open>Issuance\<close>, \<open>Rewards\<close>: rounds and inflation; selection, payouts, points and the block hooks.
    \<open>Candidate_Calls\<close>, \<open>Calls\<close>: the dispatched calls, the default handlers of \<open>traits.rs\<close> and
      the genesis configuration.

  Staking, the proofs.
    \<open>Candidate_Books\<close>, \<open>Candidate_Moves\<close>, \<open>Candidate_Entry\<close>: the contract of the candidate's
      delegation methods. The two lists of a candidate are one book (a multiset of bonds), ranked
      by amount and cut after the top; \<open>stands cfg c e M m s\<close> says that the candidate \<open>c\<close> with
      metadata \<open>m\<close> holds the book \<open>M\<close> in the storage \<open>s\<close> with every cached field in step, its
      entry in the pool up to date, and a stored bottom total that is \<open>e\<close> too high.
    \<open>Delegation_Flows\<close>, \<open>Delegating\<close>: the calls that change a candidate and a delegator together.
      A delegation is \<open>linked\<close> when book and record agree on it; bonding more, revoking,
      decreasing and delegating keep both in step with the lock, the requests and the total.
    \<open>Lifecycle\<close>, \<open>Leaving\<close>: the life of a candidate, from joining to the exit that returns the
      stake of every delegator.
    \<open>Selection\<close>: the choice of a round's collators and the snapshots taken of them.
    \<open>Payouts\<close>: what the payouts of a round may mint.
    \<open>Staking_State\<close>: the invariant \<open>staking_ok\<close> of the whole storage, and what changing one
      candidate with its delegators has to keep of it.
    \<open>Candidate_Steps\<close>, \<open>Delegation_Steps\<close>: every call keeps it and does not panic, as long as
      the stakes fit the balance type (\<open>room\<close>); requests, decreases and exits that are due succeed.
    \<open>Staking_Invariant\<close>: the block hooks keep it, given the contract \<open>staking_hooks\<close> of the
      handlers that a runtime configures, which the Moonbeam runtime meets; what a payout compounds
      (\<open>due_compounding\<close>, \<open>round_compounding\<close>), for which there has to be room.
    \<open>Staking_Runs\<close>: the calls as a datatype with their dispatch, genesis, and the states they
      lead to (\<open>staking_reachable\<close>).
    \<open>Sample\<close>: the configuration and storage of the witnesses.
    \<open>Candidate_Properties\<close>, \<open>Store_Properties\<close>, \<open>Request_Properties\<close>, \<open>Flow_Properties\<close>,
      \<open>Lifecycle_Properties\<close>, \<open>Selection_Properties\<close>, \<open>Payout_Properties\<close>,
      \<open>Invariant_Properties\<close>: the properties.

  Orbiters.
    \<open>Orbiters\<close>: \<open>types.rs\<close> and \<open>lib.rs\<close> of the pallet: pools, rotation, calls, hooks, lookup.
    \<open>Orbiter_Pools\<close>, \<open>Orbiter_Rotation\<close>: the turns of a pool, the effect of a rotation.
    \<open>Orbiter_Invariants\<close>: the pallet as a transition system (\<open>orbiters_step\<close>) under the dispatch
      layer, with the invariant \<open>orbiters_ok\<close> that every call and hook keeps.
    \<open>Orbiter_Runs\<close>: consecutive rounds, and the orbiter each is assigned to.
    \<open>Moonbeam_Runtime\<close>: the constants of \<open>src/runtime/moonbeam/src/lib.rs\<close> and the handlers that
      join staking and orbiters; the storage of the orbiters pallet is then the \<open>world\<close> of staking.
    \<open>Orbiter_Properties\<close>, \<open>Runtime_Properties\<close>: the properties, a payout across rounds among them.

  Weight trader.
    \<open>Weight_Trader\<close>: the registry, the pricing and the \<open>Trader\<close> of the pallet's \<open>lib.rs\<close>.
    \<open>Trader_Properties\<close>: rounding, conservation of the money of a trader, refunds, the registry.

  Assets.
    \<open>Bytes\<close>: bytes, addresses, 256-bit numbers and UTF-8 as the standard library has them, and
      the lemmas on pairs of maps that are each other's inverse.
    \<open>Asset_Manager\<close>: the calls of the asset manager and the conversions of asset ids.
    \<open>Foreign_Evm\<close>: \<open>evm.rs\<close>: the contract calls of the foreign assets pallet and the decoding of
      a revert; the conversion of asset ids and addresses in the runtime's \<open>asset_config.rs\<close>.
    \<open>Foreign_Assets\<close>: the calls of the pallet and its \<open>TransactAsset\<close> (deposit, withdraw,
      transfer).
    \<open>Foreign_Asset_Rules\<close>: the registry as a transition system (\<open>registry_step\<close>) which every call
      refines, with its invariant \<open>foreign_ok\<close>.
    \<open>Erc20_Bridge\<close>: pallet-erc20-xcm-bridge, which lets XCM move the tokens of any ERC-20 contract:
      a withdrawal notes the account in \<open>holding_origins\<close>, the environmental of the execution of a
      message, and a deposit drains the notes and makes the transfers.
    \<open>Asset_Properties\<close>, \<open>Foreign_Properties\<close>, \<open>Bridge_Properties\<close>: the properties, among them
      what a message with all its withdrawals, deposits and transfers does to a contract.

  XCM transactor (\<open>src/pallets/xcm-transactor\<close>): calls dispatched on another chain.
    \<open>Relay_Encoding\<close>: the encoders of the pallet, which work from a table of indices in storage,
      those of \<open>src/runtime/relay-encoder\<close>, over the call enums of the relay chains, and their
      agreement. The SCALE encoding of arguments is the record \<open>scale_codec\<close>.
    \<open>Xcm_Transactor\<close>: the messages, the fees and the calls of the pallet; the \<open>Transactors\<close> of
      the Moonbeam runtime. Locations, reanchoring, the router and the holders of assets are
      parameters of the record \<open>transactor_config\<close>.
    \<open>Transactor_Rules\<close>: when a call succeeds and what it sends; the owner of an index as a function
      of the events; a log of the fees paid here and the messages delivered.
    \<open>Transactor_Properties\<close>: the properties, on a sample chain, and two places where the pallet does
      less than its comments say.

  Precompiles (\<open>src/precompiles\<close>): contracts in the address space of the EVM that are runtime code.
    \<open>Evm_Handle\<close>: what a precompile sees of the EVM (\<open>PrecompileHandle\<close>): gas, logs, and the state
      that its subcalls change; a failure undoes logs and state (\<open>evm_execute\<close>). What precompiles
      with signed permits share.
    \<open>Batch\<close>: subcalls on behalf of the caller, in the three modes of the precompile.
    \<open>Call_Permit\<close>: the dispatch of a call that its sender has signed.
    \<open>Batch_Properties\<close>, \<open>Permit_Properties\<close>: the properties. The subcalls of a batch are noted down
      by a configuration that wraps any other (\<open>noting\<close>); the dispatches of permits are the runs
      \<open>permit_run\<close>, with anything that lets nonces only grow in between.

  Tracing (\<open>src/client/evm-tracing\<close>, \<open>src/primitives/rpc/evm-tracing-events\<close>): a node replays
  transactions and turns the events of the EVM into responses of the debug and trace RPC.
    \<open>Tracing_Events\<close>, \<open>Tracing_Types\<close>: the events, the names of opcodes, the types of traces.
    \<open>Call_List\<close>, \<open>Raw_Listener\<close>: the two listeners, event by event.
    \<open>Call_Formats\<close>: the formatters of a call list.
    \<open>Call_Trees\<close>: the specification: an execution is a tree of frames (\<open>frame\<close>, \<open>txn\<close>), with the
      events the EVM emits for it and the tree of calls that describes it.
    \<open>Call_Tracing\<close>, \<open>Block_Tracing\<close>: fed with the events of an execution, or of the transactions
      of a block, the call listener ends with the calls of the trees in preorder.
    \<open>Nested_Calls\<close>: sorting by depth and pushing each call to its parent gives back the tree.
    \<open>Raw_Budget\<close>: what a raw trace is charged for, exactly, when it shows no stacks (the words of a
      stack are charged as single bytes).
    \<open>Tracing_Properties\<close>: the properties, and event sequences on which the listeners go wrong.

  Serving traces (\<open>src/client/rpc/trace\<close>, \<open>src/client/rpc/debug\<close>).
    \<open>Trace_Cache\<close>: the task that keeps the traces of blocks for \<open>trace_filter\<close>, as a function of the
      messages it gets (from requests, from the tasks that trace, from the timers of batches). Its
      invariant \<open>cache_ok\<close> bounds the count of an entry by the batches that hold the block; in
      \<open>orderly\<close> runs the count is \<open>exact\<close>. What it sends and spawns is kept in ghost fields.
    \<open>Trace_Filter\<close>: the request, the filter by address, the paging, what is stored of a block; the
      parameters, the matching with Ethereum transactions and the fees of the debug RPC.
    \<open>Trace_Rpc_Properties\<close>: the properties, and a run in which a batch loses its block.

  Correspondence. A storage item of \<open>lib.rs\<close> is a field of the record of its pallet with its name;
  the storage of all other pallets is the field \<open>world\<close> (in the orbiters pallet \<open>orb_world\<close>),
  reached only through the parameters of the record \<open>config\<close> (pallet-balances, the per-thing
  arithmetic, the governance origin, the block author, the slot and the hooks of other pallets). A
  method that takes \<open>self\<close> by mutable reference takes and returns the value. A function and its
  model have the same name, up to the suffix \<open>inner\<close> or \<open>call\<close> where two functions share one, and
  a prefix that names the type. A dispatched call is \<open>transactional\<close>: an error undoes what it wrote.

  Arithmetic. Balances are naturals with the saturating operations of the code written out at
  128 bits, counters at 32 bits; plain additions and subtractions wrap, as the release profile has
  no overflow checks. The bounds assumed by the properties (sums below \<open>u128_max\<close>) hold for any
  balance that exists, as the total issuance is a 128-bit number.

  Code outside the repository. The properties that need it assume its documented behaviour by
  name: \<open>reserve_laws\<close> (named reserves), \<open>lock_laws\<close> and \<open>locks_move_nothing\<close> (a lock moves no
  balance), \<open>mint_laws\<close> (a deposit mints what it is asked to), \<open>reward_laws\<close> (it reports no more,
  and a percentage grows with its base), \<open>share_laws\<close> (\<open>Perbill::from_rational\<close> rounds down, the
  product with a balance to the nearest). The witnesses instantiate each with concrete functions.
  The EVM runner, keccak, the Solidity encoder, the bytecode of the ERC-20 contract and the pallets
  that hold assets are parameters of the records \<open>foreign_config\<close> and \<open>asset_manager_config\<close>. The
  subcall of a precompile and its costs are parameters of \<open>batch_config\<close> and \<open>permit_config\<close>:
  \<open>call_laws\<close> bounds the gas a subcall uses, \<open>log_cost_law\<close> has the cost of a log independent of
  its index, and \<open>reentry_law\<close> says that a subcall lets nonces only grow. The
  order in which the EVM emits its events is that of \<open>frame_events\<close> and \<open>txn_events\<close>, as the
  comments and tests of the listeners have it.

  Loops. All loops of the code run over finite lists, and are structural recursions or have a
  termination proof; no fuel is used. The payout of a round is a loop over blocks: it takes one
  block for each collator of the round and one more, as \<open>Invariant_Properties\<close> shows.

  Not modelled: weights and their accounting, logging, the migrations and benchmarks, and the rest
  of the repository: the other pallets and precompiles, the decoding of the arguments of a
  precompile, the rest of the runtimes, the node and its other clients. \<open>set_candidate_bond_to_zero\<close>, which only benchmarks call, is modelled but no
  step of \<open>staking_reachable\<close>; nor are migrations, so that the constants are those of genesis. That
  the transition to a new round does not panic is not shown, only that it keeps the storage in
  order. The field
  serializers of the traces and the conversion of events from the types of the EVM crates are left
  out, as are the replay of a block by the runtime and the spawning of the tasks that ask for it.

  Left for later: ethereum-xcm, which assembles transactions for pallet-ethereum, the remaining
  precompiles and the shared runtime code.
\<close>

end
